(* ===== verification/Appx_Prelude.thy ===== *)
theory Appx_Prelude
  imports Complex_Main "HOL-Library.AList" "HOL-Library.List_Lexorder" "HOL-Library.Char_ord"
    "HOL-Library.Sublist"
begin

text \<open>
  Shared vocabulary of the development.

  \<^item> Go maps are association lists (\<open>gomap\<close>): the list is the map together with the order in
    which one run of \<open>for k, v := range m\<close> visits it.  Go randomises that order, so a property of
    a function that ranges over a map holds for every list, and a well-formed map
    (\<open>gm_wf\<close>) has distinct keys.
  \<^item> Go strings are HOL strings (lists of bytes); the functions of package \<open>strings\<close> that the
    program uses are defined here on them.
  \<^item> \<open>error + 'a\<close> is the result type of fallible code, \<open>Inl\<close> being the error.
\<close>

named_theorems gomap_simps "lookup, update and key facts of Go maps"
named_theorems go_string_simps "facts of the string functions"

section \<open>Go maps\<close>

type_synonym 'v gomap = "(string \<times> 'v) list"

abbreviation gm_get :: "'v gomap \<Rightarrow> string \<Rightarrow> 'v option" where
  "gm_get m k \<equiv> map_of m k"

definition gm_has :: "'v gomap \<Rightarrow> string \<Rightarrow> bool" where
  "gm_has m k \<longleftrightarrow> map_of m k \<noteq> None"

definition gm_put :: "string \<Rightarrow> 'v \<Rightarrow> 'v gomap \<Rightarrow> 'v gomap" where
  "gm_put k v m = AList.update k v m"

definition gm_del :: "string \<Rightarrow> 'v gomap \<Rightarrow> 'v gomap" where
  "gm_del k m = filter (\<lambda>(k', _). k' \<noteq> k) m"

definition gm_wf :: "'v gomap \<Rightarrow> bool" where
  "gm_wf m \<longleftrightarrow> distinct (map fst m)"

text \<open>The sorted key list every deterministic traversal of the program starts from.\<close>

definition sortedKeys :: "'v gomap \<Rightarrow> string list" where
  "sortedKeys m = sort (map fst m)"

lemma gm_has_iff [gomap_simps]: "gm_has m k \<longleftrightarrow> k \<in> fst ` set m"
  by (simp add: gm_has_def map_of_eq_None_iff)

lemma gm_get_put [gomap_simps]:
  "gm_get (gm_put k v m) k' = (if k' = k then Some v else gm_get m k')"
  by (simp add: gm_put_def update_conv')

lemma gm_wf_put [gomap_simps, intro]: "gm_wf m \<Longrightarrow> gm_wf (gm_put k v m)"
  by (simp add: gm_wf_def gm_put_def distinct_update)

lemma gm_keys_put [gomap_simps]: "fst ` set (gm_put k v m) = insert k (fst ` set m)"
  by (simp add: gm_put_def AList.update_conv' flip: dom_map_of_conv_image_fst)

lemma gm_get_del [gomap_simps]:
  "gm_get (gm_del k m) k' = (if k' = k then None else gm_get m k')"
  by (induction m) (auto simp: gm_del_def)

lemma gm_keys_del [gomap_simps]: "fst ` set (gm_del k m) = fst ` set m - {k}"
  by (auto simp: gm_del_def image_iff)

lemma gm_wf_del [gomap_simps, intro]: "gm_wf m \<Longrightarrow> gm_wf (gm_del k m)"
  by (induction m) (auto simp: gm_wf_def gm_del_def)

lemma gm_get_iff [gomap_simps]: "gm_wf m \<Longrightarrow> gm_get m k = Some v \<longleftrightarrow> (k, v) \<in> set m"
  by (simp add: gm_wf_def)

lemma gm_get_in: "gm_get m k = Some v \<Longrightarrow> (k, v) \<in> set m"
  by (rule map_of_SomeD)

lemma set_sortedKeys [gomap_simps, simp]: "set (sortedKeys m) = fst ` set m"
  by (simp add: sortedKeys_def)

lemma distinct_sortedKeys [gomap_simps]: "gm_wf m \<Longrightarrow> distinct (sortedKeys m)"
  by (simp add: sortedKeys_def gm_wf_def)

text \<open>The key list does not depend on the order a run visits the map in.\<close>

lemma sortedKeys_perm:
  assumes "gm_wf m" "gm_wf m'" "fst ` set m = fst ` set m'"
  shows "sortedKeys m = sortedKeys m'"
  unfolding sortedKeys_def using assms
  by (intro sorted_distinct_set_unique) (simp_all add: gm_wf_def)

section \<open>Strings\<close>

text \<open>\<open>strings.Split\<close> with a one-byte separator, and \<open>strings.Join\<close>.\<close>

fun split_on :: "char \<Rightarrow> string \<Rightarrow> string list" where
  "split_on c [] = [[]]"
| "split_on c (x # xs) =
     (if x = c then [] # split_on c xs
      else case split_on c xs of [] \<Rightarrow> [[x]] | p # ps \<Rightarrow> (x # p) # ps)"

fun join_with :: "string \<Rightarrow> string list \<Rightarrow> string" where
  "join_with sep [] = []"
| "join_with sep [x] = x"
| "join_with sep (x # y # ys) = x @ sep @ join_with sep (y # ys)"

definition HasPrefix :: "string \<Rightarrow> string \<Rightarrow> bool" where
  "HasPrefix s p \<longleftrightarrow> prefix p s"

definition HasSuffix :: "string \<Rightarrow> string \<Rightarrow> bool" where
  "HasSuffix s p \<longleftrightarrow> suffix p s"

definition TrimPrefix :: "string \<Rightarrow> string \<Rightarrow> string" where
  "TrimPrefix s p = (if prefix p s then drop (length p) s else s)"

definition TrimSuffix :: "string \<Rightarrow> string \<Rightarrow> string" where
  "TrimSuffix s p = (if suffix p s then take (length s - length p) s else s)"

lemma split_on_not_Nil [go_string_simps, simp]: "split_on c s \<noteq> []"
  by (induction s) (auto split: list.splits)

lemma split_on_no_sep [go_string_simps]: "c \<notin> set s \<Longrightarrow> split_on c s = [s]"
  by (induction s) auto

lemma split_on_append [go_string_simps]:
  "c \<notin> set a \<Longrightarrow> split_on c (a @ c # b) = a # split_on c b"
  by (induction a) auto

lemma join_split_on [go_string_simps]: "join_with [c] (split_on c s) = s"
proof (induction s)
  case (Cons x xs)
  then show ?case
    by (cases "split_on c xs"; cases "tl (split_on c xs)") auto
qed simp

lemma split_on_parts: "p \<in> set (split_on c s) \<Longrightarrow> c \<notin> set p"
proof (induction s arbitrary: p)
  case (Cons x xs)
  obtain q qs where q: "split_on c xs = q # qs"
    by (cases "split_on c xs") auto
  with Cons show ?case
    by (cases "x = c") auto
qed simp

lemma TrimPrefix_append [go_string_simps, simp]: "TrimPrefix (p @ s) p = s"
  by (simp add: TrimPrefix_def)

lemma TrimSuffix_append [go_string_simps, simp]: "TrimSuffix (s @ p) p = s"
  by (simp add: TrimSuffix_def suffix_def)

text \<open>White space, case and substrings, on ASCII.\<close>

definition is_space :: "char \<Rightarrow> bool" where
  "is_space c \<longleftrightarrow> c \<in> {CHR 0x20, CHR 0x09, CHR 0x0A, CHR 0x0B, CHR 0x0C, CHR 0x0D}"

definition TrimSpace :: "string \<Rightarrow> string" where
  "TrimSpace s = rev (dropWhile is_space (rev (dropWhile is_space s)))"

definition is_upper :: "char \<Rightarrow> bool" where
  "is_upper c \<longleftrightarrow> 65 \<le> (of_char c :: nat) \<and> (of_char c :: nat) \<le> 90"

definition lower_char :: "char \<Rightarrow> char" where
  "lower_char c = (if is_upper c then char_of ((of_char c :: nat) + 32) else c)"

definition ToLower :: "string \<Rightarrow> string" where
  "ToLower s = map lower_char s"

text \<open>\<open>strings.Fields\<close>: the maximal runs of non-space characters.\<close>

function Fields :: "string \<Rightarrow> string list" where
  "Fields s = (case dropWhile is_space s of [] \<Rightarrow> []
               | c # cs \<Rightarrow> (c # takeWhile (\<lambda>x. \<not> is_space x) cs) # Fields (dropWhile (\<lambda>x. \<not> is_space x) cs))"
  by pat_completeness auto

termination
proof (relation "measure length", simp)
  fix s c cs
  assume "dropWhile is_space s = c # cs"
  then have "length cs < length s"
    by (metis length_dropWhile_le length_Cons less_eq_Suc_le)
  moreover have "length (dropWhile (\<lambda>x. \<not> is_space x) cs) \<le> length cs"
    by (rule length_dropWhile_le)
  ultimately show "(dropWhile (\<lambda>x. \<not> is_space x) cs, s) \<in> measure length"
    by simp
qed

declare Fields.simps [simp del]

fun ContainsStr :: "string \<Rightarrow> string \<Rightarrow> bool" where
  "ContainsStr [] sub = (sub = [])"
| "ContainsStr (c # cs) sub = (prefix sub (c # cs) \<or> ContainsStr cs sub)"

text \<open>\<open>strings.Replace(s, old, new, 1)\<close> for a non-empty \<open>old\<close>.\<close>

fun Replace1 :: "string \<Rightarrow> string \<Rightarrow> string \<Rightarrow> string" where
  "Replace1 [] old new = []"
| "Replace1 (c # cs) old new =
     (if prefix old (c # cs) then new @ drop (length old) (c # cs) else c # Replace1 cs old new)"

lemma TrimSpace_id [go_string_simps]:
  assumes "s \<noteq> [] \<Longrightarrow> \<not> is_space (hd s) \<and> \<not> is_space (last s)"
  shows "TrimSpace s = s"
proof (cases "s = []")
  case False
  then have "dropWhile is_space s = s" "dropWhile is_space (rev s) = rev s"
    using assms by (simp_all add: dropWhile_eq_self_iff hd_rev)
  then show ?thesis by (simp add: TrimSpace_def)
qed (simp add: TrimSpace_def)

lemma length_TrimSpace: "length (TrimSpace s) \<le> length s"
  unfolding TrimSpace_def
  by (metis length_rev length_dropWhile_le order_trans)

lemma Contains_set: "ContainsStr s sub \<Longrightarrow> set sub \<subseteq> set s"
proof (induction s)
  case (Cons c cs)
  then show ?case using set_mono_prefix [of sub "c # cs"] by auto
qed simp

lemma Fields_Nil [simp]: "Fields [] = []"
  by (simp add: Fields.simps)

lemma Fields_word [go_string_simps]:
  assumes "w \<noteq> []" "\<forall>c\<in>set w. \<not> is_space c"
  shows "Fields w = [w]"
proof -
  obtain c cs where w: "w = c # cs" using assms(1) by (cases w) auto
  have nsp: "\<forall>x\<in>set cs. \<not> is_space x" "\<not> is_space c"
    using assms(2) w by auto
  have d: "dropWhile (\<lambda>x. \<not> is_space x) cs = []"
    using nsp(1) by simp
  have t: "takeWhile (\<lambda>x. \<not> is_space x) cs = cs"
    using nsp(1) by (simp add: takeWhile_eq_all_conv)
  show ?thesis
    by (subst Fields.simps) (simp add: w nsp(2) t d del: dropWhile_eq_Nil_conv)
qed

lemma ToLower_id [go_string_simps]:
  "\<forall>c\<in>set s. \<not> is_upper c \<Longrightarrow> ToLower s = s"
  unfolding ToLower_def by (rule map_idI) (simp add: lower_char_def)

section \<open>Dynamic values\<close>

text \<open>
  A Go \<open>any\<close> as the write path sees it: what \<open>encoding/json\<close> decodes (null, booleans, \<open>float64\<close>
  numbers, strings, arrays, objects), plus the Go integers and the \<open>time.Time\<close> that a library
  caller or a \<open>now\<close> default puts there, and the \<open>json.RawMessage\<close> of a promoted JSON column.  A \<open>float64\<close> is its rational value.
\<close>

datatype goany =
  GNil | GBool bool | GFloat rat | GInt int | GStr string | GTime string
| GRaw string | GArr "goany list" | GObj "(string \<times> goany) list"

text \<open>\<open>json.Unmarshal\<close> into a \<open>string\<close> and into a \<open>[]string\<close>: null leaves the zero value.\<close>

fun unmarshal_string :: "goany \<Rightarrow> string option" where
  "unmarshal_string (GStr s) = Some s"
| "unmarshal_string GNil = Some []"
| "unmarshal_string _ = None"

fun unmarshal_bool :: "goany \<Rightarrow> bool option" where
  "unmarshal_bool (GBool b) = Some b"
| "unmarshal_bool GNil = Some False"
| "unmarshal_bool _ = None"

fun all_some :: "'a option list \<Rightarrow> 'a list option" where
  "all_some [] = Some []"
| "all_some (None # _) = None"
| "all_some (Some x # xs) = map_option ((#) x) (all_some xs)"

fun unmarshal_strings :: "goany \<Rightarrow> string list option" where
  "unmarshal_strings (GArr vs) = all_some (map unmarshal_string vs)"
| "unmarshal_strings GNil = Some []"
| "unmarshal_strings _ = None"

lemma all_some_map_Some [simp]: "all_some (map Some xs) = Some xs"
  by (induction xs) auto

lemma unmarshal_strings_strs [simp]: "unmarshal_strings (GArr (map GStr xs)) = Some xs"
  by (induction xs) auto

section \<open>Printing\<close>

text \<open>\<open>strconv.Itoa\<close> on naturals and integers, and \<open>%q\<close> on ASCII text.\<close>

definition digit_char :: "nat \<Rightarrow> char" where
  "digit_char d = char_of (48 + d)"

fun nat_digits :: "nat \<Rightarrow> string" where
  "nat_digits n = (if n < 10 then [digit_char n] else nat_digits (n div 10) @ [digit_char (n mod 10)])"

declare nat_digits.simps [simp del]

definition Itoa :: "int \<Rightarrow> string" where
  "Itoa i = (if i < 0 then ''-'' @ nat_digits (nat (- i)) else nat_digits (nat i))"

text \<open>\<open>strconv.Atoi\<close> on a 64-bit platform.\<close>

definition is_digit :: "char \<Rightarrow> bool" where
  "is_digit c \<longleftrightarrow> 48 \<le> (of_char c :: nat) \<and> (of_char c :: nat) \<le> 57"

definition digits_val :: "string \<Rightarrow> nat" where
  "digits_val = foldl (\<lambda>n c. 10 * n + (of_char c - 48)) 0"

definition in_int64 :: "int \<Rightarrow> bool" where
  "in_int64 i \<longleftrightarrow> - (2 ^ 63) \<le> i \<and> i < 2 ^ 63"

definition Atoi :: "string \<Rightarrow> int option" where
  "Atoi s =
     (let (neg, ds) = (case s of [] \<Rightarrow> (False, [])
                       | c # cs \<Rightarrow> if c = CHR ''-'' then (True, cs)
                                   else if c = CHR ''+'' then (False, cs) else (False, s));
          v = (if neg then - int (digits_val ds) else int (digits_val ds))
      in if ds \<noteq> [] \<and> list_all is_digit ds \<and> in_int64 v then Some v else None)"

lemma of_char_digit [simp]: "d < 10 \<Longrightarrow> (of_char (digit_char d) :: nat) = 48 + d"
  by (simp add: digit_char_def)

lemma is_digit_digit_char [simp]: "d < 10 \<Longrightarrow> is_digit (digit_char d)"
  by (simp add: is_digit_def)

lemma nat_digits_all: "nat_digits n \<noteq> [] \<and> list_all is_digit (nat_digits n)"
  by (induction n rule: nat_digits.induct) (subst (1 2) nat_digits.simps, auto)

lemma digits_val_nat_digits: "digits_val (nat_digits n) = n"
proof (induction n rule: nat_digits.induct)
  case (1 n)
  then show ?case
    by (subst nat_digits.simps) (auto simp: digits_val_def)
qed

lemma hd_nat_digits: "is_digit (hd (nat_digits n))"
  using nat_digits_all [of n] by (cases "nat_digits n") auto

lemma Atoi_Itoa [go_string_simps]:
  assumes "0 \<le> i" "in_int64 i"
  shows "Atoi (Itoa i) = Some i"
proof -
  obtain c cs where d: "nat_digits (nat i) = c # cs"
    using nat_digits_all [of "nat i"] by (cases "nat_digits (nat i)") auto
  moreover have "is_digit c" using hd_nat_digits [of "nat i"] d by simp
  then have "c \<noteq> CHR ''-''" "c \<noteq> CHR ''+''" by (auto simp: is_digit_def)
  ultimately show ?thesis
    using assms nat_digits_all [of "nat i"] digits_val_nat_digits [of "nat i"]
    by (auto simp: Atoi_def Itoa_def)
qed

fun quote_char :: "char \<Rightarrow> string" where
  "quote_char c = (if c = CHR 0x22 then [CHR 0x5C, CHR 0x22]
                   else if c = CHR 0x5C then [CHR 0x5C, CHR 0x5C]
                   else if c = CHR 0x0A then [CHR 0x5C, CHR ''n'']
                   else if c = CHR 0x09 then [CHR 0x5C, CHR ''t'']
                   else if c = CHR 0x0D then [CHR 0x5C, CHR ''r''] else [c])"

definition goq :: "string \<Rightarrow> string" where
  "goq s = [CHR 0x22] @ concat (map quote_char s) @ [CHR 0x22]"

text \<open>The dash of the messages, as its UTF-8 bytes.\<close>

definition emDash :: string where
  "emDash = [CHR 0xE2, CHR 0x80, CHR 0x94]"

section \<open>Errors and calls\<close>

text \<open>An error is a PostgreSQL error (\<open>pgconn.PgError\<close>), a wrapped error (\<open>%w\<close>) or any other one.\<close>

record pgErr =
  peCode :: string
  peMessage :: string
  peDetail :: string
  peConstraint :: string

datatype goError = PgError pgErr | WrapError string goError | PlainError string

definition sqlState :: "string \<Rightarrow> goError" where
  "sqlState code = PgError \<lparr>peCode = code, peMessage = [], peDetail = [], peConstraint = []\<rparr>"

text \<open>A call that changes the world and may fail.\<close>

type_synonym 'w call = "'w \<Rightarrow> goError option \<times> 'w"

section \<open>Identifiers and 64-bit integers\<close>

text \<open>The regular expression \<open>^[a-z][a-z0-9_]*$\<close>.\<close>

definition identStart :: "char \<Rightarrow> bool" where
  "identStart c \<longleftrightarrow> (of_char c :: nat) \<ge> 97 \<and> (of_char c :: nat) \<le> 122"

definition identPart :: "char \<Rightarrow> bool" where
  "identPart c \<longleftrightarrow> identStart c \<or> is_digit c \<or> c = CHR ''_''"

fun bareIdent :: "string \<Rightarrow> bool" where
  "bareIdent [] = False"
| "bareIdent (c # cs) = (identStart c \<and> list_all identPart cs)"

text \<open>64-bit two's complement, and \<open>time.Hour\<close>.\<close>

definition wrap64 :: "int \<Rightarrow> int" where
  "wrap64 i = (i + 2 ^ 63) mod 2 ^ 64 - 2 ^ 63"

definition hour :: int where
  "hour = 3600 * 1000000000"

end
