(* ===== verification/Rbac.thy ===== *)
theory Rbac
  imports Appx_Prelude
begin

text \<open>
  Package \<open>pkg/rbac\<close>: the policy data (\<open>policy.go\<close>), the evaluator (\<open>evaluator.go\<close>) and the HTTP
  middleware (\<open>middleware.go\<close>).  Section 1 is the model, in the order of the source; section 2 the
  abstract grant relation and the refinement of the evaluator to it; section 3 the memo table behind
  \<open>resourceAllowed\<close>; section 4 the middleware as a client of an access policy.
\<close>

section \<open>Policies\<close>

record Condition =
  Field :: string
  Op :: string
  Val :: string

record RouteGrant =
  grantActions :: "string list"

record ResourcePermission =
  permActions :: "string list"
  permConditions :: "Condition option"
  ConditionActions :: "string list"
  permFields :: "string list"

text \<open>\<open>Resources\<close> is a \<open>json.RawMessage\<close>: absent, or the JSON value of its bytes.\<close>

record RolePolicy =
  Resources :: "goany option"
  Actions :: "string list"
  Conditions :: "Condition option"
  FieldsAllow :: "string list"
  Permissions :: "ResourcePermission gomap"
  Routes :: "RouteGrant gomap"

record Policy =
  Roles :: "RolePolicy gomap"

definition emptyRolePolicy :: RolePolicy where
  "emptyRolePolicy = \<lparr>Resources = None, Actions = [], Conditions = None, FieldsAllow = [],
                      Permissions = [], Routes = []\<rparr>"

definition PublicRoleName :: string where
  "PublicRoleName = ''$public''"

text \<open>The two halves \<open>UnmarshalJSON\<close> decodes, and the folding of the public block into its role.\<close>

record plainPolicy =
  plainRoles :: "RolePolicy gomap"
  plainPublic :: "ResourcePermission gomap"

definition UnmarshalPolicy :: "plainPolicy \<Rightarrow> Policy" where
  "UnmarshalPolicy a =
     (if plainPublic a \<noteq> []
      then \<lparr>Roles = gm_put PublicRoleName (emptyRolePolicy\<lparr>Permissions := plainPublic a\<rparr>) (plainRoles a)\<rparr>
      else \<lparr>Roles = plainRoles a\<rparr>)"

definition HasPublicSurface :: "Policy \<Rightarrow> bool" where
  "HasPublicSurface p \<longleftrightarrow> gm_get (Roles p) PublicRoleName \<noteq> None"

definition DenyDetail :: "Policy \<Rightarrow> string \<Rightarrow> string \<Rightarrow> string \<Rightarrow> string" where
  "DenyDetail p role resource action =
     (if gm_get (Roles p) role = None
      then ''role '' @ goq role @ '' is not declared by any schema role''
      else ''role '' @ goq role @ '' is declared but not permitted '' @ goq action @ '' on '' @ goq resource)"

definition routeGrantFor :: "RolePolicy \<Rightarrow> string \<Rightarrow> RouteGrant option" where
  "routeGrantFor rp name = (if Routes rp = [] then None else gm_get (Routes rp) name)"

fun actionAllowed :: "string list \<Rightarrow> string \<Rightarrow> bool" where
  "actionAllowed [] action = False"
| "actionAllowed (a # as) action = (if a = ''*'' \<or> a = action then True else actionAllowed as action)"

record parsedResources =
  wildcard :: bool
  resset :: "string list"

definition parseResources :: "goany option \<Rightarrow> parsedResources" where
  "parseResources raw =
     (case raw of
        None \<Rightarrow> \<lparr>wildcard = False, resset = []\<rparr>
      | Some j \<Rightarrow>
          (case unmarshal_string j of
             Some s \<Rightarrow> \<lparr>wildcard = (s = ''*''), resset = []\<rparr>
           | None \<Rightarrow> \<lparr>wildcard = False,
                      resset = (case unmarshal_strings j of Some arr \<Rightarrow> remdups arr | None \<Rightarrow> [])\<rparr>))"

text \<open>
  \<open>resourceParseCache\<close> is a process-wide \<open>sync.Map\<close>; \<open>resourceAllowedC\<close> is the code's function,
  cache in and cache out, and \<open>resourceAllowed\<close> the answer it must give.
\<close>

type_synonym resource_cache = "(goany option \<times> parsedResources) list"

definition decideResources :: "parsedResources \<Rightarrow> string \<Rightarrow> bool" where
  "decideResources pr resource \<longleftrightarrow> wildcard pr \<or> resource \<in> set (resset pr)"

definition resourceAllowedC ::
  "goany option \<Rightarrow> string \<Rightarrow> resource_cache \<Rightarrow> bool \<times> resource_cache" where
  "resourceAllowedC raw resource cache =
     (case map_of cache raw of
        Some pr \<Rightarrow> (decideResources pr resource, cache)
      | None \<Rightarrow>
          (let pr = parseResources raw in (decideResources pr resource, AList.update raw pr cache)))"

definition resourceAllowed :: "goany option \<Rightarrow> string \<Rightarrow> bool" where
  "resourceAllowed raw resource = decideResources (parseResources raw) resource"

definition Allows :: "Policy \<Rightarrow> string \<Rightarrow> string \<Rightarrow> string \<Rightarrow> bool" where
  "Allows p role resource action =
     (case gm_get (Roles p) role of
        None \<Rightarrow> False
      | Some rp \<Rightarrow>
          (case routeGrantFor rp resource of
             Some grant \<Rightarrow> actionAllowed (grantActions grant) action
           | None \<Rightarrow>
               if Permissions rp \<noteq> [] then
                 (case gm_get (Permissions rp) resource of
                    None \<Rightarrow> False
                  | Some perm \<Rightarrow> actionAllowed (permActions perm) action)
               else if \<not> resourceAllowed (Resources rp) resource then False
               else actionAllowed (Actions rp) action))"

definition RoleCacheable :: "Policy \<Rightarrow> string \<Rightarrow> bool" where
  "RoleCacheable p role =
     (case gm_get (Roles p) role of
        None \<Rightarrow> False
      | Some rp \<Rightarrow>
          if Permissions rp \<noteq> [] then
            list_all (\<lambda>(_, perm). \<not> (permConditions perm \<noteq> None \<or> permFields perm \<noteq> [])) (Permissions rp)
          else Conditions rp = None \<and> FieldsAllow rp = [])"

section \<open>Evaluation\<close>

record EvalContext =
  Role :: string
  UserID :: string
  ExternalClientID :: string

record WhereCondition =
  wField :: string
  wOp :: string
  wValue :: string
  Identity :: bool

record EvalResult =
  Allowed :: bool
  AllowedFields :: "string list"
  evCondition :: "WhereCondition option"

definition denied :: EvalResult where
  "denied = \<lparr>Allowed = False, AllowedFields = [], evCondition = None\<rparr>"

definition conditionAppliesToAction :: "ResourcePermission \<Rightarrow> string \<Rightarrow> bool" where
  "conditionAppliesToAction perm action =
     (if ConditionActions perm = [] then True else action \<in> set (ConditionActions perm))"

definition IsIdentityVar :: "string \<Rightarrow> bool" where
  "IsIdentityVar val \<longleftrightarrow> val = ''$user_id'' \<or> val = ''$external_client_id''"

definition resolveVar :: "string \<Rightarrow> EvalContext \<Rightarrow> string" where
  "resolveVar val ctx =
     (if val = ''$user_id'' then UserID ctx
      else if val = ''$external_client_id'' then ExternalClientID ctx
      else val)"

definition resolveCondition :: "Condition \<Rightarrow> EvalContext \<Rightarrow> WhereCondition" where
  "resolveCondition c ctx =
     \<lparr>wField = Field c, wOp = Op c, wValue = resolveVar (Val c) ctx, Identity = IsIdentityVar (Val c)\<rparr>"

definition Evaluate :: "Policy \<Rightarrow> EvalContext \<Rightarrow> string \<Rightarrow> string \<Rightarrow> EvalResult" where
  "Evaluate p ctx resource action =
     (case gm_get (Roles p) (Role ctx) of
        None \<Rightarrow> denied
      | Some rp \<Rightarrow>
          (case routeGrantFor rp resource of
             Some grant \<Rightarrow> denied\<lparr>Allowed := actionAllowed (grantActions grant) action\<rparr>
           | None \<Rightarrow>
               if Permissions rp \<noteq> [] then
                 (case gm_get (Permissions rp) resource of
                    None \<Rightarrow> denied
                  | Some perm \<Rightarrow>
                      if \<not> actionAllowed (permActions perm) action then denied
                      else
                        \<lparr>Allowed = True, AllowedFields = permFields perm,
                         evCondition =
                           (case permConditions perm of
                              Some c \<Rightarrow> if conditionAppliesToAction perm action
                                        then Some (resolveCondition c ctx) else None
                            | None \<Rightarrow> None)\<rparr>)
               else if \<not> resourceAllowed (Resources rp) resource then denied
               else if \<not> actionAllowed (Actions rp) action then denied
               else \<lparr>Allowed = True, AllowedFields = FieldsAllow rp,
                     evCondition = map_option (\<lambda>c. resolveCondition c ctx) (Conditions rp)\<rparr>))"

section \<open>HTTP middleware\<close>

record claims =
  clRole :: string
  clUserID :: string
  clExternalClientID :: string

record http_request =
  Method :: string
  Path :: string
  reqClaims :: "claims option"
  hdrUserRole :: string
  hdrUserID :: string
  hdrExternalClientID :: string

text \<open>What the middleware does with a request: hand it to the next handler without or with an
  evaluation result in the context, or answer itself.\<close>

datatype mw_outcome =
  PassThrough
| Forward EvalResult
| Respond nat string

definition EvalContextFromRequest :: "http_request \<Rightarrow> EvalContext" where
  "EvalContextFromRequest r =
     (case reqClaims r of
        Some c \<Rightarrow> \<lparr>Role = clRole c, UserID = clUserID c, ExternalClientID = clExternalClientID c\<rparr>
      | None \<Rightarrow> \<lparr>Role = hdrUserRole r, UserID = hdrUserID r, ExternalClientID = hdrExternalClientID r\<rparr>)"

definition TransactionRoute :: string where "TransactionRoute = ''transaction''"
definition SummaryRoute :: string where "SummaryRoute = ''summary''"
definition AskRoute :: string where "AskRoute = ''ask''"

definition resourceFromPath :: "string \<Rightarrow> string" where
  "resourceFromPath path =
     (case split_on CHR ''/'' (TrimPrefix path ''/'') of
        p0 # p1 # _ \<Rightarrow>
          if p0 = ''api'' \<and> p1 \<noteq> [] \<and> p1 \<noteq> TransactionRoute \<and> p1 \<noteq> SummaryRoute \<and> p1 \<noteq> AskRoute
          then p1 else []
      | _ \<Rightarrow> [])"

definition actionFromMethod :: "string \<Rightarrow> string" where
  "actionFromMethod m =
     (if m = ''GET'' \<or> m = ''HEAD'' then ''read''
      else if m = ''POST'' then ''create''
      else if m = ''PUT'' \<or> m = ''PATCH'' then ''update''
      else if m = ''DELETE'' then ''delete''
      else [])"

text \<open>The handler the middleware installs, over the evaluation function it closes over.\<close>

definition serveRBAC ::
  "(EvalContext \<Rightarrow> string \<Rightarrow> string \<Rightarrow> EvalResult) \<Rightarrow> (string \<Rightarrow> string \<Rightarrow> bool) option \<Rightarrow>
   http_request \<Rightarrow> mw_outcome" where
  "serveRBAC evaluate isPublic r =
     (if (case isPublic of Some f \<Rightarrow> f (Method r) (Path r) | None \<Rightarrow> False) then PassThrough
      else
        let resource = resourceFromPath (Path r) in
        if resource = [] then PassThrough
        else
          let result = evaluate (EvalContextFromRequest r) resource (actionFromMethod (Method r)) in
          if \<not> Allowed result then Respond 403 ''forbidden''
          else Forward result)"

text \<open>\<open>policyJSON\<close> is the decoded policy, \<open>None\<close> when its bytes do not decode.\<close>

definition RBACMiddlewareWithPublic ::
  "plainPolicy option \<Rightarrow> (string \<Rightarrow> string \<Rightarrow> bool) option \<Rightarrow> http_request \<Rightarrow> mw_outcome" where
  "RBACMiddlewareWithPublic policyJSON isPublic r =
     (case policyJSON of
        None \<Rightarrow> Respond 500 ''invalid policy configuration''
      | Some a \<Rightarrow> serveRBAC (Evaluate (UnmarshalPolicy a)) isPublic r)"

definition RBACMiddleware :: "plainPolicy option \<Rightarrow> http_request \<Rightarrow> mw_outcome" where
  "RBACMiddleware policyJSON = RBACMiddlewareWithPublic policyJSON None"

text \<open>\<open>EvalResultFromCtx\<close>: what the next handler finds in its context.\<close>

fun EvalResultFromCtx :: "mw_outcome \<Rightarrow> EvalResult option" where
  "EvalResultFromCtx (Forward ev) = Some ev"
| "EvalResultFromCtx _ = None"

section \<open>The grant relation\<close>

text \<open>
  What a policy grants, read off its declarations: a custom-route segment is decided by its route
  grant alone, a role with a permissions map by the entry of the resource, any other role by its
  resources and actions.  Nothing else is granted.
\<close>

definition permits :: "string list \<Rightarrow> string \<Rightarrow> bool" where
  "permits actions action \<longleftrightarrow> ''*'' \<in> set actions \<or> action \<in> set actions"

definition listsResource :: "goany option \<Rightarrow> string \<Rightarrow> bool" where
  "listsResource raw resource \<longleftrightarrow>
     raw = Some (GStr ''*'') \<or>
     (\<exists>vs rs. raw = Some (GArr vs) \<and> unmarshal_strings (GArr vs) = Some rs \<and> resource \<in> set rs)"

inductive Granted :: "Policy \<Rightarrow> string \<Rightarrow> string \<Rightarrow> string \<Rightarrow> bool" for p where
  by_route:
    "\<lbrakk>gm_get (Roles p) role = Some rp; gm_get (Routes rp) resource = Some g;
      permits (grantActions g) action\<rbrakk> \<Longrightarrow> Granted p role resource action"
| by_permission:
    "\<lbrakk>gm_get (Roles p) role = Some rp; gm_get (Routes rp) resource = None;
      gm_get (Permissions rp) resource = Some perm; permits (permActions perm) action\<rbrakk>
     \<Longrightarrow> Granted p role resource action"
| by_role:
    "\<lbrakk>gm_get (Roles p) role = Some rp; gm_get (Routes rp) resource = None; Permissions rp = [];
      listsResource (Resources rp) resource; permits (Actions rp) action\<rbrakk>
     \<Longrightarrow> Granted p role resource action"

inductive_simps Granted_iff: "Granted p role resource action"

lemma actionAllowed_permits: "actionAllowed as a \<longleftrightarrow> permits as a"
  by (induction as a rule: actionAllowed.induct) (auto simp: permits_def)

lemma routeGrantFor_get: "routeGrantFor rp name = gm_get (Routes rp) name"
  by (simp add: routeGrantFor_def)

lemma resourceAllowed_lists: "resourceAllowed raw resource \<longleftrightarrow> listsResource raw resource"
proof (cases raw)
  case (Some j)
  then show ?thesis
    by (cases j; cases "unmarshal_strings j")
       (auto simp: resourceAllowed_def decideResources_def parseResources_def listsResource_def)
qed (auto simp: resourceAllowed_def decideResources_def parseResources_def listsResource_def)

lemmas rbac_decisions = actionAllowed_permits routeGrantFor_get resourceAllowed_lists

lemma Evaluate_Granted: "Allowed (Evaluate p ctx resource action) \<longleftrightarrow> Granted p (Role ctx) resource action"
proof (cases "gm_get (Roles p) (Role ctx)")
  case (Some rp)
  then show ?thesis
    by (cases "Permissions rp = []")
       (auto simp: Evaluate_def Granted_iff rbac_decisions denied_def split: option.splits if_splits)
qed (auto simp: Evaluate_def Granted_iff denied_def)

lemma Allows_Granted: "Allows p role resource action \<longleftrightarrow> Granted p role resource action"
  using Evaluate_Granted [of p "\<lparr>Role = role, UserID = [], ExternalClientID = []\<rparr>" resource action]
  by (auto simp: Evaluate_def Allows_def denied_def split: option.splits if_splits)

lemma Evaluate_denied: "\<not> Allowed (Evaluate p ctx resource action) \<Longrightarrow> Evaluate p ctx resource action = denied"
  by (auto simp: Evaluate_def denied_def split: option.splits if_splits)

text \<open>C2: the evaluator grants exactly what the policy declares: deny by default, route grants
  authoritative for the segments they name, the permissions map the sole source when it is there,
  and a denied request carries neither fields nor condition.\<close>

theorem evaluate_refines_grants:
  "Allowed (Evaluate p ctx resource action) = Granted p (Role ctx) resource action \<and>
   (Evaluate p ctx resource action = denied \<or> Granted p (Role ctx) resource action) \<and>
   Allows p (Role ctx) resource action = Allowed (Evaluate p ctx resource action)"
  using Evaluate_denied Evaluate_Granted Allows_Granted by blast

section \<open>Sharing of cached responses\<close>

lemma cacheable_no_scope:
  assumes "RoleCacheable p (Role ctx)"
  shows "evCondition (Evaluate p ctx resource action) = None \<and>
         AllowedFields (Evaluate p ctx resource action) = []"
proof -
  obtain rp where rp: "gm_get (Roles p) (Role ctx) = Some rp"
    using assms by (auto simp: RoleCacheable_def split: option.splits)
  have perms: "permConditions perm = None \<and> permFields perm = []"
    if "gm_get (Permissions rp) resource = Some perm" for perm
    using assms rp gm_get_in [OF that] that
    by (auto simp: RoleCacheable_def list_all_iff split: if_splits)
  show ?thesis
    using assms rp perms
    by (auto simp: Evaluate_def RoleCacheable_def denied_def split: option.splits if_splits)
qed

text \<open>A role the response cache may share is safe to share: two callers with that role get the same
  verdict on every resource and action, and the verdict carries no row condition and no field
  allowlist.\<close>

theorem cacheable_role_user_independent:
  assumes "RoleCacheable p role" "Role ctx1 = role" "Role ctx2 = role"
  shows "Evaluate p ctx1 resource action = Evaluate p ctx2 resource action \<and>
         evCondition (Evaluate p ctx1 resource action) = None \<and>
         AllowedFields (Evaluate p ctx1 resource action) = []"
proof -
  have "Allowed (Evaluate p ctx1 resource action) = Allowed (Evaluate p ctx2 resource action)"
    using assms Evaluate_Granted by simp
  then show ?thesis
    using assms cacheable_no_scope [of p ctx1] cacheable_no_scope [of p ctx2]
    by (auto intro: EvalResult.equality)
qed

section \<open>The memo table\<close>

text \<open>
  A memo table over any map: \<open>look\<close> and \<open>store\<close> promise that a stored value is found under its key and
  no other key is touched.  A caller that stores only \<open>f k\<close> under \<open>k\<close> reads back \<open>f k\<close> forever.
\<close>

locale memo_table =
  fixes look :: "'m \<Rightarrow> 'k \<Rightarrow> 'v option"
    and store :: "'k \<Rightarrow> 'v \<Rightarrow> 'm \<Rightarrow> 'm"
    and f :: "'k \<Rightarrow> 'v"
  assumes look_store: "look (store k v m) k' = (if k' = k then Some v else look m k')"
begin

definition faithful :: "'m \<Rightarrow> bool" where
  "faithful m \<longleftrightarrow> (\<forall>k v. look m k = Some v \<longrightarrow> v = f k)"

lemma faithful_store: "faithful m \<Longrightarrow> faithful (store k (f k) m)"
  by (simp add: faithful_def look_store)

lemma faithful_look: "faithful m \<Longrightarrow> look m k = Some v \<Longrightarrow> v = f k"
  by (simp add: faithful_def)

end

interpretation resource_memo: memo_table "map_of :: resource_cache \<Rightarrow> _" "AList.update" parseResources
  by unfold_locales (simp add: update_conv')

lemma resourceAllowedC_step:
  assumes "resource_memo.faithful cache"
  shows "fst (resourceAllowedC raw resource cache) = resourceAllowed raw resource \<and>
         resource_memo.faithful (snd (resourceAllowedC raw resource cache))"
  using assms resource_memo.faithful_store [of cache raw] resource_memo.faithful_look [of cache raw]
  by (auto simp: resourceAllowedC_def resourceAllowed_def Let_def split: option.splits)

text \<open>Any sequence of calls, each seeing the cache the earlier ones left.\<close>

fun runCalls :: "(goany option \<times> string) list \<Rightarrow> resource_cache \<Rightarrow> bool list" where
  "runCalls [] cache = []"
| "runCalls ((raw, resource) # qs) cache =
     (let (b, cache') = resourceAllowedC raw resource cache in b # runCalls qs cache')"

lemma runCalls_faithful:
  "resource_memo.faithful cache \<Longrightarrow> runCalls qs cache = map (\<lambda>(raw, r). resourceAllowed raw r) qs"
proof (induction qs arbitrary: cache)
  case (Cons q qs)
  obtain raw r where q: "q = (raw, r)" by fastforce
  show ?case
    using Cons resourceAllowedC_step [of cache raw r]
    by (auto simp: q split: prod.splits)
qed simp

text \<open>the process-wide parse cache is transparent: however many calls came before, and over whatever
  raw values, each call answers what parsing the raw value afresh would answer.\<close>

theorem parse_cache_transparent:
  "runCalls qs [] = map (\<lambda>(raw, r). resourceAllowed raw r) qs"
  by (rule runCalls_faithful) (simp add: resource_memo.faithful_def)

section \<open>The middleware over an access policy\<close>

text \<open>
  What the middleware relies on: an evaluation function whose verdict is a grant relation on the
  caller's role.  Its clients never look inside the policy.
\<close>

locale access_policy =
  fixes granted :: "string \<Rightarrow> string \<Rightarrow> string \<Rightarrow> bool"
    and evaluate :: "EvalContext \<Rightarrow> string \<Rightarrow> string \<Rightarrow> EvalResult"
  assumes allowed_iff: "Allowed (evaluate ctx resource action) \<longleftrightarrow> granted (Role ctx) resource action"
begin

lemma forward_granted:
  assumes "serveRBAC evaluate isPublic r = Forward ev"
  shows "granted (Role (EvalContextFromRequest r)) (resourceFromPath (Path r)) (actionFromMethod (Method r)) \<and>
         ev = evaluate (EvalContextFromRequest r) (resourceFromPath (Path r)) (actionFromMethod (Method r))"
  using assms by (auto simp: serveRBAC_def Let_def allowed_iff split: option.splits if_splits)

lemma enforced_outcome:
  assumes "resourceFromPath (Path r) \<noteq> []" "\<forall>f. isPublic = Some f \<longrightarrow> \<not> f (Method r) (Path r)"
  shows "serveRBAC evaluate isPublic r =
           (if granted (Role (EvalContextFromRequest r)) (resourceFromPath (Path r)) (actionFromMethod (Method r))
            then Forward (evaluate (EvalContextFromRequest r) (resourceFromPath (Path r))
                            (actionFromMethod (Method r)))
            else Respond 403 ''forbidden'')"
  using assms by (auto simp: serveRBAC_def Let_def allowed_iff split: option.splits)

end

interpretation policy_access: access_policy "Granted p" "Evaluate p" for p
  by unfold_locales (rule Evaluate_Granted)


section \<open>The anonymous surface\<close>

lemma UnmarshalPolicy_get:
  "gm_get (Roles (UnmarshalPolicy a)) role =
     (if plainPublic a \<noteq> [] \<and> role = PublicRoleName
      then Some (emptyRolePolicy\<lparr>Permissions := plainPublic a\<rparr>) else gm_get (plainRoles a) role)"
  by (simp add: UnmarshalPolicy_def gm_get_put)

lemma Granted_public:
  assumes "plainPublic a \<noteq> []"
  shows "Granted (UnmarshalPolicy a) PublicRoleName resource action \<longleftrightarrow>
         (\<exists>perm. gm_get (plainPublic a) resource = Some perm \<and> permits (permActions perm) action)"
  using assms by (auto simp: Granted_iff UnmarshalPolicy_get emptyRolePolicy_def)

lemma Granted_declared:
  assumes "role \<noteq> PublicRoleName"
  shows "Granted (UnmarshalPolicy a) role resource action \<longleftrightarrow>
         Granted \<lparr>Roles = plainRoles a\<rparr> role resource action"
  using assms by (simp add: Granted_iff UnmarshalPolicy_get)

text \<open>a declared public block is the whole anonymous surface: the reserved role is granted exactly
  the actions the block lists on the resources it lists, and folding the block in changes the grants
  of no declared role.\<close>

theorem public_block_is_anonymous_surface:
  assumes "plainPublic a \<noteq> []"
  shows "HasPublicSurface (UnmarshalPolicy a) \<and>
         (\<forall>resource action. Granted (UnmarshalPolicy a) PublicRoleName resource action =
            (\<exists>perm. gm_get (plainPublic a) resource = Some perm \<and> permits (permActions perm) action)) \<and>
         (\<forall>role resource action. role \<noteq> PublicRoleName \<longrightarrow>
            Granted (UnmarshalPolicy a) role resource action =
            Granted \<lparr>Roles = plainRoles a\<rparr> role resource action)"
  using assms Granted_public Granted_declared
  by (simp add: HasPublicSurface_def UnmarshalPolicy_get)

lemma resourceFromPath_api:
  assumes "CHR ''/'' \<notin> set res" "rest = [] \<or> hd rest = CHR ''/''"
  shows "resourceFromPath (''/api/'' @ res @ rest) =
           (if res \<in> {[], TransactionRoute, SummaryRoute, AskRoute} then [] else res)"
proof -
  have "\<exists>ps. split_on CHR ''/'' (res @ rest) = res # ps"
    using assms by (cases rest) (auto simp: split_on_no_sep split_on_append)
  moreover have "TrimPrefix (''/api/'' @ res @ rest) ''/'' = ''api'' @ CHR ''/'' # (res @ rest)"
    by (simp add: TrimPrefix_def)
  ultimately show ?thesis
    by (auto simp: resourceFromPath_def split_on_append)
qed

text \<open>the middleware authorises every path below \<open>/api/<segment>\<close> under its own segment, the three
  reserved segments (whose handlers authorise each resource themselves) apart.\<close>

theorem path_segment_authorised:
  assumes "CHR ''/'' \<notin> set res" "rest = [] \<or> hd rest = CHR ''/''"
  shows "resourceFromPath (''/api/'' @ res @ rest) =
           (if res \<in> {[], TransactionRoute, SummaryRoute, AskRoute} then [] else res)"
  using resourceFromPath_api [OF assms] .

lemma Evaluate_condition_resolved:
  assumes "evCondition (Evaluate p ctx resource action) = Some w"
  shows "\<exists>c. w = resolveCondition c ctx"
  using assms by (auto simp: Evaluate_def denied_def split: option.splits if_splits)

lemma Evaluate_identity_value:
  assumes "evCondition (Evaluate p ctx resource action) = Some w" "Identity w"
  shows "wValue w = UserID ctx \<or> wValue w = ExternalClientID ctx"
  using Evaluate_condition_resolved [OF assms(1)] assms(2)
  by (auto simp: resolveCondition_def resolveVar_def IsIdentityVar_def)

section \<open>Witnesses\<close>

definition exReader :: RolePolicy where
  "exReader = emptyRolePolicy\<lparr>Resources := Some (GArr [GStr ''posts'', GStr ''tags'']), Actions := [''read'']\<rparr>"

definition exOwner :: RolePolicy where
  "exOwner = emptyRolePolicy\<lparr>Permissions :=
     [(''posts'', \<lparr>permActions = [''*''],
                   permConditions = Some \<lparr>Field = ''owner_id'', Op = ''eq'', Val = ''$user_id''\<rparr>,
                   ConditionActions = [''update'', ''delete''], permFields = []\<rparr>)]\<rparr>"

definition exPlain :: plainPolicy where
  "exPlain = \<lparr>plainRoles = [(''reader'', exReader), (''owner'', exOwner)],
              plainPublic = [(''posts'', \<lparr>permActions = [''read''], permConditions = None,
                                          ConditionActions = [], permFields = [''title'']\<rparr>)]\<rparr>"

definition exRequest :: "string \<Rightarrow> string \<Rightarrow> string \<Rightarrow> http_request" where
  "exRequest m path role = \<lparr>Method = m, Path = path,
     reqClaims = Some \<lparr>clRole = role, clUserID = ''u1'', clExternalClientID = []\<rparr>,
     hdrUserRole = ''owner'', hdrUserID = ''u2'', hdrExternalClientID = []\<rparr>"

lemmas ex_defs = exReader_def exOwner_def exPlain_def exRequest_def

theorem cacheable_role_user_independent_witness:
  "Evaluate (UnmarshalPolicy exPlain) \<lparr>Role = ''reader'', UserID = ''u1'', ExternalClientID = []\<rparr> ''tags'' ''read'' =
   Evaluate (UnmarshalPolicy exPlain) \<lparr>Role = ''reader'', UserID = ''u2'', ExternalClientID = []\<rparr> ''tags'' ''read''"
proof -
  have "RoleCacheable (UnmarshalPolicy exPlain) ''reader''"
    by code_simp
  from cacheable_role_user_independent [OF this,
      of "\<lparr>Role = ''reader'', UserID = ''u1'', ExternalClientID = []\<rparr>"
         "\<lparr>Role = ''reader'', UserID = ''u2'', ExternalClientID = []\<rparr>" "''tags''" "''read''"]
  show ?thesis by simp
qed


theorem public_block_is_anonymous_surface_witness:
  "Granted (UnmarshalPolicy exPlain) PublicRoleName ''posts'' ''read''"
proof -
  have "plainPublic exPlain \<noteq> []" by code_simp
  from public_block_is_anonymous_surface [OF this] show ?thesis
    by (simp add: exPlain_def permits_def)
qed

theorem path_segment_authorised_witness:
  "resourceFromPath ''/api/posts/7'' = ''posts''"
  using path_segment_authorised [of "''posts''" "''/7''"]
  by (simp add: TransactionRoute_def SummaryRoute_def AskRoute_def)

end
