(* ===== verification/PgTypes.thy ===== *)
theory PgTypes
  imports Appx_Prelude
begin

text \<open>
  Column types of \<open>pkg/schemadiff\<close>: the canonical \<open>Type\<close> with its printer (\<open>model.go\<close>), the parser that
  canonicalises Postgres spellings (\<open>parsetype.go\<close>), and the referential actions.
\<close>

section \<open>Canonical types\<close>

datatype BaseType =
  BaseUnknown | BaseSmallint | BaseInteger | BaseBigint | BaseNumeric | BaseReal | BaseDouble
| BaseBool | BaseText | BaseVarchar | BaseChar | BaseUUID | BaseTimestamptz | BaseTimestamp
| BaseDate | BaseTime | BaseTimetz | BaseJSON | BaseJSONB | BaseBytea | BaseInterval | BaseInet
| BaseUserDefined

record Type =
  Base :: BaseType
  Size :: int
  Prec :: int
  Scale :: int
  Array :: bool
  UserName :: string

definition mkType :: "BaseType \<Rightarrow> Type" where
  "mkType b = \<lparr>Base = b, Size = 0, Prec = 0, Scale = 0, Array = False, UserName = []\<rparr>"

fun baseName :: "BaseType \<Rightarrow> string" where
  "baseName BaseUnknown = ''unknown''"
| "baseName BaseSmallint = ''smallint''"
| "baseName BaseInteger = ''integer''"
| "baseName BaseBigint = ''bigint''"
| "baseName BaseNumeric = ''numeric''"
| "baseName BaseReal = ''real''"
| "baseName BaseDouble = ''double precision''"
| "baseName BaseBool = ''boolean''"
| "baseName BaseText = ''text''"
| "baseName BaseVarchar = ''varchar''"
| "baseName BaseChar = ''char''"
| "baseName BaseUUID = ''uuid''"
| "baseName BaseTimestamptz = ''timestamptz''"
| "baseName BaseTimestamp = ''timestamp''"
| "baseName BaseDate = ''date''"
| "baseName BaseTime = ''time''"
| "baseName BaseTimetz = ''timetz''"
| "baseName BaseJSON = ''json''"
| "baseName BaseJSONB = ''jsonb''"
| "baseName BaseBytea = ''bytea''"
| "baseName BaseInterval = ''interval''"
| "baseName BaseInet = ''inet''"
| "baseName BaseUserDefined = []"

definition TypeString :: "Type \<Rightarrow> string" where
  "TypeString t =
     (let b = baseName (Base t);
          s = (case Base t of
                 BaseUserDefined \<Rightarrow> UserName t
               | BaseVarchar \<Rightarrow> if Size t > 0 then b @ ''('' @ Itoa (Size t) @ '')'' else b
               | BaseChar \<Rightarrow> if Size t > 0 then b @ ''('' @ Itoa (Size t) @ '')'' else b
               | BaseNumeric \<Rightarrow>
                   if Prec t > 0 \<and> Scale t > 0
                   then b @ ''('' @ Itoa (Prec t) @ '','' @ Itoa (Scale t) @ '')''
                   else if Prec t > 0 then b @ ''('' @ Itoa (Prec t) @ '')'' else b
               | _ \<Rightarrow>
                   if Base t \<in> {BaseTimestamp, BaseTimestamptz, BaseTime, BaseTimetz} \<and> Prec t > 0
                   then b @ ''('' @ Itoa (Prec t) @ '')'' else b)
      in if Array t then s @ ''[]'' else s)"

definition baseAlias :: "(string \<times> BaseType) list" where
  "baseAlias =
     [(''int2'', BaseSmallint), (''smallint'', BaseSmallint),
      (''int4'', BaseInteger), (''int'', BaseInteger), (''integer'', BaseInteger),
      (''int8'', BaseBigint), (''bigint'', BaseBigint),
      (''numeric'', BaseNumeric), (''decimal'', BaseNumeric),
      (''float4'', BaseReal), (''real'', BaseReal),
      (''float8'', BaseDouble), (''double precision'', BaseDouble),
      (''bool'', BaseBool), (''boolean'', BaseBool),
      (''text'', BaseText),
      (''varchar'', BaseVarchar), (''character varying'', BaseVarchar),
      (''char'', BaseChar), (''character'', BaseChar), (''bpchar'', BaseChar),
      (''uuid'', BaseUUID),
      (''timestamptz'', BaseTimestamptz),
      (''timestamp'', BaseTimestamp),
      (''date'', BaseDate),
      (''timetz'', BaseTimetz),
      (''time'', BaseTime),
      (''json'', BaseJSON),
      (''jsonb'', BaseJSONB),
      (''bytea'', BaseBytea),
      (''interval'', BaseInterval),
      (''inet'', BaseInet)]"

section \<open>Parsing\<close>

fun parseIntArgs_parts :: "string list \<Rightarrow> int list" where
  "parseIntArgs_parts [] = []"
| "parseIntArgs_parts (p # ps) =
     (case Atoi (TrimSpace p) of Some n \<Rightarrow> n # parseIntArgs_parts ps | None \<Rightarrow> parseIntArgs_parts ps)"

definition parseIntArgs :: "string \<Rightarrow> int list" where
  "parseIntArgs s = parseIntArgs_parts (split_on CHR '','' s)"

definition finalizeType :: "BaseType \<Rightarrow> int list \<Rightarrow> bool \<Rightarrow> Type" where
  "finalizeType base args array =
     (let t = (mkType base)\<lparr>Array := array\<rparr> in
      case base of
        BaseVarchar \<Rightarrow> if length args \<ge> 1 then t\<lparr>Size := args ! 0\<rparr> else t
      | BaseChar \<Rightarrow> if length args \<ge> 1 then t\<lparr>Size := args ! 0\<rparr> else t
      | BaseNumeric \<Rightarrow>
          (let t1 = if length args \<ge> 1 then t\<lparr>Prec := args ! 0\<rparr> else t
           in if length args \<ge> 2 then t1\<lparr>Scale := args ! 1\<rparr> else t1)
      | BaseTimestamp \<Rightarrow> if length args \<ge> 1 then t\<lparr>Prec := args ! 0\<rparr> else t
      | BaseTimestamptz \<Rightarrow> if length args \<ge> 1 then t\<lparr>Prec := args ! 0\<rparr> else t
      | BaseTime \<Rightarrow> if length args \<ge> 1 then t\<lparr>Prec := args ! 0\<rparr> else t
      | BaseTimetz \<Rightarrow> if length args \<ge> 1 then t\<lparr>Prec := args ! 0\<rparr> else t
      | _ \<Rightarrow> t)"

text \<open>The array-suffix loop: it ends because each round drops two characters.\<close>

function stripArray :: "bool \<Rightarrow> string \<Rightarrow> bool \<times> string" where
  "stripArray array s =
     (if HasSuffix s ''[]'' then stripArray True (TrimSpace (take (length s - 2) s)) else (array, s))"
  by pat_completeness auto

termination
proof (relation "measure (\<lambda>(_, s). length s)", simp)
  fix array :: bool and s :: string
  assume "HasSuffix s ''[]''"
  then have "2 \<le> length s"
    by (auto simp: HasSuffix_def suffix_def)
  then show "((True, TrimSpace (take (length s - 2) s)), array, s) \<in> measure (\<lambda>(_, s). length s)"
    using length_TrimSpace [of "take (length s - 2) s"] by simp
qed

declare stripArray.simps [simp del]

datatype tzPhrase = tzUnknown | tzWith | tzWithout

definition takeTZ :: "string \<Rightarrow> tzPhrase \<times> string" where
  "takeTZ s =
     (if ContainsStr s ''with time zone'' then (tzWith, Replace1 s ''with time zone'' [])
      else if ContainsStr s ''without time zone'' then (tzWithout, Replace1 s ''without time zone'' [])
      else (tzUnknown, s))"

text \<open>The first parenthesised group, wherever it stands, and the string without it.\<close>

definition takeArgs :: "string \<Rightarrow> int list \<times> string" where
  "takeArgs s =
     (let before = takeWhile (\<lambda>c. c \<noteq> CHR ''('') s;
          rest = dropWhile (\<lambda>c. c \<noteq> CHR ''('') s
      in if rest = [] then ([], s)
         else if CHR '')'' \<in> set rest
         then (parseIntArgs (takeWhile (\<lambda>c. c \<noteq> CHR '')'') (tl rest)),
               before @ tl (dropWhile (\<lambda>c. c \<noteq> CHR '')'') rest))
         else ([], s))"

definition ParseType :: "string \<Rightarrow> Type" where
  "ParseType pgType =
     (let s0 = ToLower (TrimSpace pgType) in
      if s0 = [] then mkType BaseUnknown
      else
        let (array, s1) = stripArray False s0;
            (tz, s2) = takeTZ s1;
            (args, s3) = takeArgs s2;
            s = join_with '' '' (Fields s3)
        in case map_of baseAlias s of
             None \<Rightarrow> (mkType BaseUserDefined)\<lparr>UserName := s, Array := array\<rparr>
           | Some base \<Rightarrow>
               let base' = (if tz = tzWith then
                              (case base of BaseTimestamp \<Rightarrow> BaseTimestamptz | BaseTime \<Rightarrow> BaseTimetz | _ \<Rightarrow> base)
                            else base)
               in finalizeType base' args array)"

definition TypeForAPIType :: "string \<Rightarrow> Type" where
  "TypeForAPIType apiType =
     (if apiType = ''string'' \<or> apiType = ''text'' then mkType BaseText
      else if apiType = ''int'' then mkType BaseInteger
      else if apiType = ''int64'' then mkType BaseBigint
      else if apiType = ''float64'' then mkType BaseDouble
      else if apiType = ''bool'' then mkType BaseBool
      else if apiType = ''uuid'' \<or> apiType = ''file'' then mkType BaseUUID
      else if apiType = ''time'' then mkType BaseTimestamptz
      else if apiType = ''json'' then mkType BaseText
      else if apiType = ''jsonb'' then mkType BaseJSONB
      else mkType BaseText)"

section \<open>Referential actions\<close>

datatype RefAction = NoAction | Restrict | Cascade | SetNull | SetDefault

fun RefActionString :: "RefAction \<Rightarrow> string" where
  "RefActionString Restrict = ''RESTRICT''"
| "RefActionString Cascade = ''CASCADE''"
| "RefActionString SetNull = ''SET NULL''"
| "RefActionString SetDefault = ''SET DEFAULT''"
| "RefActionString NoAction = ''NO ACTION''"

definition parseRefAction :: "string \<Rightarrow> RefAction" where
  "parseRefAction code =
     (let c = TrimSpace code in
      if c = ''c'' then Cascade
      else if c = ''r'' then Restrict
      else if c = ''n'' then SetNull
      else if c = ''d'' then SetDefault
      else NoAction)"

section \<open>Canonical spellings\<close>

text \<open>
  The types the printer loses nothing of: each argument in the slots of its family, non-negative and
  a scale only with a precision; a user-defined name already normalised and outside the alias table.
\<close>

definition plainName :: "string \<Rightarrow> bool" where
  "plainName s \<longleftrightarrow>
     s \<noteq> [] \<and> (\<forall>c\<in>set s. \<not> is_space c \<and> \<not> is_upper c \<and>
                       c \<notin> {CHR ''('', CHR ''['', CHR '']''}) \<and> map_of baseAlias s = None"

definition canonicalType :: "Type \<Rightarrow> bool" where
  "canonicalType t \<longleftrightarrow>
     in_int64 (Size t) \<and> in_int64 (Prec t) \<and> in_int64 (Scale t) \<and>
     (case Base t of
        BaseUnknown \<Rightarrow> False
      | BaseUserDefined \<Rightarrow> Size t = 0 \<and> Prec t = 0 \<and> Scale t = 0 \<and> plainName (UserName t)
      | BaseVarchar \<Rightarrow> Size t \<ge> 0 \<and> Prec t = 0 \<and> Scale t = 0 \<and> UserName t = []
      | BaseChar \<Rightarrow> Size t \<ge> 0 \<and> Prec t = 0 \<and> Scale t = 0 \<and> UserName t = []
      | BaseNumeric \<Rightarrow> Size t = 0 \<and> Prec t \<ge> 0 \<and> Scale t \<ge> 0 \<and> (Scale t > 0 \<longrightarrow> Prec t > 0) \<and> UserName t = []
      | b \<Rightarrow> Size t = 0 \<and> Scale t = 0 \<and> UserName t = [] \<and>
             (if b \<in> {BaseTimestamp, BaseTimestamptz, BaseTime, BaseTimetz} then Prec t \<ge> 0 else Prec t = 0))"

definition argText :: "int list \<Rightarrow> string" where
  "argText as = (if as = [] then [] else ''('' @ join_with '','' (map Itoa as) @ '')'')"

definition typeArgs :: "Type \<Rightarrow> int list" where
  "typeArgs t =
     (case Base t of
        BaseVarchar \<Rightarrow> if Size t > 0 then [Size t] else []
      | BaseChar \<Rightarrow> if Size t > 0 then [Size t] else []
      | BaseNumeric \<Rightarrow> if Prec t > 0 \<and> Scale t > 0 then [Prec t, Scale t]
                       else if Prec t > 0 then [Prec t] else []
      | b \<Rightarrow> if b \<in> {BaseTimestamp, BaseTimestamptz, BaseTime, BaseTimetz} \<and> Prec t > 0 then [Prec t] else [])"

definition typeName :: "Type \<Rightarrow> string" where
  "typeName t = (if Base t = BaseUserDefined then UserName t else baseName (Base t))"

lemma TypeString_spelled:
  "TypeString t = typeName t @ argText (typeArgs t) @ (if Array t then ''[]'' else [])"
  by (cases "Base t") (auto simp: TypeString_def typeName_def argText_def typeArgs_def Let_def)

text \<open>A name the parser reads back: lower case, trimmed, free of the characters it gives meaning to.\<close>

definition goodName :: "string \<Rightarrow> bool" where
  "goodName b \<longleftrightarrow>
     b \<noteq> [] \<and> \<not> is_space (hd b) \<and> \<not> is_space (last b) \<and>
     (\<forall>c\<in>set b. \<not> is_upper c \<and> c \<notin> {CHR ''('', CHR ''['', CHR '']''}) \<and>
     (CHR ''w'' \<notin> set b \<or> CHR '' '' \<notin> set b) \<and> join_with '' '' (Fields b) = b"

lemma goodName_base:
  assumes "b \<notin> {BaseUnknown, BaseUserDefined}"
  shows "goodName (baseName b) \<and> map_of baseAlias (baseName b) = Some b"
proof -
  have "goodName ''double precision''"
    by (simp add: goodName_def is_space_def is_upper_def Fields.simps)
  then show ?thesis
    using assms
    by (cases b) (simp_all add: baseAlias_def goodName_def is_space_def is_upper_def Fields_word)
qed

lemma goodName_plain: "plainName s \<Longrightarrow> goodName s"
  using last_in_set [of s] hd_in_set [of s]
  by (auto simp: plainName_def goodName_def Fields_word is_space_def)

definition argChar :: "char \<Rightarrow> bool" where
  "argChar c \<longleftrightarrow> is_digit c \<or> c = CHR '',''"

lemma Itoa_chars: "0 \<le> i \<Longrightarrow> Itoa i \<noteq> [] \<and> (\<forall>c\<in>set (Itoa i). is_digit c)"
  using nat_digits_all [of "nat i"] by (simp add: Itoa_def list_all_iff)

lemma join_chars:
  "\<forall>i\<in>set as. 0 \<le> i \<Longrightarrow> \<forall>c\<in>set (join_with '','' (map Itoa as)). argChar c"
proof (induction as rule: induct_list012)
  case (2 x)
  then show ?case using Itoa_chars [of x] by (simp add: argChar_def)
next
  case (3 x y zs)
  then show ?case using Itoa_chars [of x] by (auto simp: argChar_def)
qed simp

lemma argChar_plain:
  assumes "argChar c"
  shows "\<not> is_space c" "\<not> is_upper c"
        "c \<notin> {CHR ''('', CHR '')'', CHR ''['', CHR '']'', CHR ''w'', CHR '' ''}"
  using assms by (auto simp: argChar_def is_digit_def is_space_def is_upper_def)

lemma parseIntArgs_join:
  assumes "\<forall>i\<in>set as. 0 \<le> i \<and> in_int64 i" "as \<noteq> []"
  shows "parseIntArgs (join_with '','' (map Itoa as)) = as"
  using assms
proof (induction as rule: induct_list012)
  case (2 x)
  have digits: "Itoa x \<noteq> []" "\<forall>c\<in>set (Itoa x). is_digit c" using Itoa_chars [of x] 2 by auto
  then have "CHR '','' \<notin> set (Itoa x)" by (auto simp: is_digit_def)
  moreover have "TrimSpace (Itoa x) = Itoa x"
    using digits argChar_plain(1) by (intro TrimSpace_id) (simp add: argChar_def)
  ultimately show ?case
    using 2 by (simp add: parseIntArgs_def split_on_no_sep Atoi_Itoa)
next
  case (3 x y zs)
  have digits: "Itoa x \<noteq> []" "\<forall>c\<in>set (Itoa x). is_digit c" using Itoa_chars [of x] 3 by auto
  then have "CHR '','' \<notin> set (Itoa x)" by (auto simp: is_digit_def)
  moreover have "TrimSpace (Itoa x) = Itoa x"
    using digits argChar_plain(1) by (intro TrimSpace_id) (simp add: argChar_def)
  ultimately show ?case
    using 3 by (simp add: parseIntArgs_def split_on_append Atoi_Itoa)
qed simp

lemma takeArgs_argText:
  assumes "CHR ''('' \<notin> set b" "\<forall>i\<in>set as. 0 \<le> i \<and> in_int64 i"
  shows "takeArgs (b @ argText as) = (as, b)"
proof (cases "as = []")
  case True
  then show ?thesis using assms(1)
    by (simp add: takeArgs_def argText_def Let_def)
next
  case False
  let ?a = "join_with '','' (map Itoa as)"
  have a: "\<forall>c\<in>set ?a. c \<noteq> CHR '')'' \<and> c \<noteq> CHR ''(''"
    using join_chars [of as] argChar_plain(3) assms(2) by fastforce
  have "takeWhile (\<lambda>c. c \<noteq> CHR ''('') (b @ ''('' @ ?a @ '')'') = b"
    using assms(1) by (subst takeWhile_append2) auto
  moreover have "dropWhile (\<lambda>c. c \<noteq> CHR ''('') (b @ ''('' @ ?a @ '')'') = ''('' @ ?a @ '')''"
    using assms(1) by (subst dropWhile_append2) auto
  moreover have "takeWhile (\<lambda>c. c \<noteq> CHR '')'') (?a @ '')'') = ?a"
    using a by (subst takeWhile_append2) auto
  moreover have "dropWhile (\<lambda>c. c \<noteq> CHR '')'') (?a @ '')'') = '')''"
    using a by (subst dropWhile_append2) auto
  ultimately show ?thesis
    using False parseIntArgs_join [OF assms(2) False]
    by (simp add: takeArgs_def argText_def Let_def)
qed

text \<open>What the parser's string pipeline does to a printed type.\<close>

lemma body_chars:
  assumes "goodName b" "\<forall>i\<in>set as. 0 \<le> i"
  shows "\<forall>c\<in>set (b @ argText as). \<not> is_upper c \<and> c \<notin> {CHR ''['', CHR '']''}"
    and "\<not> is_space (hd (b @ argText as)) \<and> \<not> is_space (last (b @ argText as)) \<and>
         last (b @ argText as) \<noteq> CHR '']''"
    and "CHR ''w'' \<notin> set (b @ argText as) \<or> CHR '' '' \<notin> set (b @ argText as)"
proof -
  let ?a = "join_with '','' (map Itoa as)"
  have a: "\<forall>c\<in>set ?a. argChar c" using join_chars assms(2) by blast
  have b: "b \<noteq> []" "\<forall>c\<in>set b. \<not> is_upper c \<and> c \<notin> {CHR ''('', CHR ''['', CHR '']''}"
    "\<not> is_space (hd b)" "\<not> is_space (last b)" "CHR ''w'' \<notin> set b \<or> CHR '' '' \<notin> set b"
    using assms(1) by (simp_all add: goodName_def)
  show "\<forall>c\<in>set (b @ argText as). \<not> is_upper c \<and> c \<notin> {CHR ''['', CHR '']''}"
    (is "\<forall>c\<in>_. ?clean c")
  proof -
    have "?clean CHR ''(''" "?clean CHR '')''" by (simp_all add: is_upper_def)
    moreover have "\<forall>c\<in>set ?a. ?clean c" using a argChar_plain(2,3) by blast
    moreover have "\<forall>c\<in>set b. ?clean c" using b(2) by blast
    ultimately show ?thesis unfolding argText_def by (cases "as = []") (simp_all only: if_True if_False append_Nil2
        set_append ball_Un set_simps ball_simps simp_thms)
  qed
  show "\<not> is_space (hd (b @ argText as)) \<and> \<not> is_space (last (b @ argText as)) \<and>
        last (b @ argText as) \<noteq> CHR '']''"
    using b last_in_set [of b] by (auto simp: argText_def is_space_def)
  show "CHR ''w'' \<notin> set (b @ argText as) \<or> CHR '' '' \<notin> set (b @ argText as)"
    using a b(5) argChar_plain(3) [of "CHR ''w''"] argChar_plain(3) [of "CHR '' ''"]
    by (auto simp: argText_def)
qed

lemma stripArray_printed:
  assumes "u \<noteq> []" "\<not> is_space (hd u)" "\<not> is_space (last u)" "last u \<noteq> CHR '']''"
  shows "stripArray False (u @ (if arr then ''[]'' else [])) = (arr, u)"
proof -
  have no: "\<not> HasSuffix u ''[]''"
    using assms(1,4) by (auto simp: HasSuffix_def suffix_def)
  have stop: "stripArray x u = (x, u)" for x
    using no by (simp add: stripArray.simps [of x u])
  have "TrimSpace u = u" by (rule TrimSpace_id) (use assms in auto)
  then show ?thesis
    using stop by (cases arr) (simp_all add: stripArray.simps [of _ "u @ ''[]''"] HasSuffix_def suffix_def)
qed

lemma takeTZ_none:
  assumes "CHR ''w'' \<notin> set u \<or> CHR '' '' \<notin> set u"
  shows "takeTZ u = (tzUnknown, u)"
  using assms Contains_set [of u "''with time zone''"] Contains_set [of u "''without time zone''"]
  by (auto simp: takeTZ_def)

lemma ParseType_printed:
  assumes "goodName b" "\<forall>i\<in>set as. 0 \<le> i \<and> in_int64 i"
  shows "ParseType (b @ argText as @ (if arr then ''[]'' else [])) =
           (case map_of baseAlias b of
              None \<Rightarrow> (mkType BaseUserDefined)\<lparr>UserName := b, Array := arr\<rparr>
            | Some base \<Rightarrow> finalizeType base as arr)"
proof -
  let ?u = "b @ argText as" let ?s = "?u @ (if arr then ''[]'' else [])"
  have ne: "b \<noteq> []" and paren: "CHR ''('' \<notin> set b" and flds: "join_with '' '' (Fields b) = b"
    using assms(1) by (auto simp: goodName_def)
  have nonneg: "\<forall>i\<in>set as. 0 \<le> i" using assms(2) by blast
  note chars = body_chars [OF assms(1) nonneg]
  have "TrimSpace ?s = ?s"
    using chars(2) ne by (intro TrimSpace_id) (cases arr; simp add: is_space_def)
  moreover have upper: "\<not> is_upper CHR ''[''" "\<not> is_upper CHR '']''" by (simp_all add: is_upper_def)
  moreover have "ToLower ?s = ?s"
    using chars(1) upper by (intro ToLower_id) (cases arr; simp add: ball_Un)
  moreover have "stripArray False ?s = (arr, ?u)"
    using chars(2) ne by (intro stripArray_printed) auto
  moreover have "takeTZ ?u = (tzUnknown, ?u)"
    using chars(3) by (rule takeTZ_none)
  moreover have "takeArgs ?u = (as, b)"
    using paren assms(2) by (rule takeArgs_argText)
  ultimately show ?thesis
    using ne flds by (cases "map_of baseAlias b") (simp_all add: ParseType_def Let_def)
qed

lemma finalizeType_args:
  assumes "canonicalType t" "Base t \<noteq> BaseUserDefined"
  shows "finalizeType (Base t) (typeArgs t) (Array t) = t"
  using assms
  by (cases "Base t")
     (auto simp: finalizeType_def typeArgs_def canonicalType_def mkType_def Let_def intro!: Type.equality split: if_splits)

lemma typeArgs_range:
  "canonicalType t \<Longrightarrow> \<forall>i\<in>set (typeArgs t). 0 \<le> i \<and> in_int64 i"
  by (cases "Base t") (auto simp: typeArgs_def canonicalType_def)

lemma print_parse_canonical:
  assumes "canonicalType t"
  shows "ParseType (TypeString t) = t"
proof (cases "Base t = BaseUserDefined")
  case True
  then have plain: "plainName (UserName t)" and zero: "Size t = 0" "Prec t = 0" "Scale t = 0"
    using assms by (auto simp: canonicalType_def)
  have "ParseType (TypeString t) = (mkType BaseUserDefined)\<lparr>UserName := UserName t, Array := Array t\<rparr>"
    using ParseType_printed [OF goodName_plain [OF plain], of "typeArgs t" "Array t"] True plain
      typeArgs_range [OF assms]
    by (simp add: TypeString_spelled typeName_def plainName_def)
  then show ?thesis using True zero by (simp add: mkType_def)
next
  case False
  then have base: "Base t \<notin> {BaseUnknown, BaseUserDefined}"
    using assms by (auto simp: canonicalType_def)
  then show ?thesis
    using ParseType_printed [of "baseName (Base t)" "typeArgs t" "Array t"] goodName_base [OF base]
      typeArgs_range [OF assms] finalizeType_args [OF assms] False
    by (simp add: TypeString_spelled typeName_def)
qed

text \<open>Printing a canonical type and parsing the text gives the type back: every base family with its
  size, precision and scale, arrays, and user-defined names.\<close>

theorem type_print_parse: "canonicalType t \<Longrightarrow> ParseType (TypeString t) = t"
  by (rule print_parse_canonical)

theorem type_print_parse_witness:
  "ParseType ''numeric(10,2)[]'' = \<lparr>Base = BaseNumeric, Size = 0, Prec = 10, Scale = 2, Array = True, UserName = []\<rparr>"
proof -
  let ?t = "\<lparr>Base = BaseNumeric, Size = 0, Prec = 10, Scale = 2, Array = True, UserName = []\<rparr>"
  have "canonicalType ?t" "TypeString ?t = ''numeric(10,2)[]''" by code_simp+
  with type_print_parse [of ?t] show ?thesis by simp
qed

text \<open>the converger's side of the comparison is canonical: each declared API field type maps to a type
  that its own printed spelling parses back to, so an unchanged column never diffs.\<close>

theorem api_type_stable: "ParseType (TypeString (TypeForAPIType apiType)) = TypeForAPIType apiType"
  by (rule print_parse_canonical)
     (simp add: TypeForAPIType_def canonicalType_def mkType_def in_int64_def)

text \<open>Not every type the parser produces prints to its own spelling: a negative numeric scale and the
  empty spelling are lost, against the comment on \<open>Type.String\<close>.\<close>

theorem type_print_parse_gaps:
  "ParseType (TypeString (ParseType ''numeric(5,-2)'')) \<noteq> ParseType ''numeric(5,-2)'' \<and>
   ParseType (TypeString (ParseType [])) \<noteq> ParseType []"
  by code_simp

end
