(* ===== verification/SchemaModel.thy ===== *)
theory SchemaModel
  imports PgTypes
begin

text \<open>
  The data model of \<open>pkg/schemadiff/model.go\<close>: schemas, tables, columns, constraints.  Maps are
  \<open>gomap\<close>s; a pointer that may be nil is an option.
\<close>

section \<open>Records\<close>

record Column =
  cName :: string
  cRenamedFrom :: string
  cType :: Type
  NotNull :: bool
  Default :: "string option"
  cIdentity :: "string option"

record PrimaryKey =
  pkName :: string
  pkColumns :: "string list"

record ForeignKey =
  fkSymbol :: string
  fkColumns :: "string list"
  RefTable :: string
  RefColumns :: "string list"
  OnDelete :: RefAction
  OnUpdate :: RefAction

record UniqueConstraint =
  uqSymbol :: string
  uqColumns :: "string list"

record Exclusion =
  exSymbol :: string
  exDefinition :: string

record Check =
  ckSymbol :: string
  ckExpression :: string

record Index =
  ixName :: string
  ixColumns :: "string list"
  ixUnique :: bool
  ixMethod :: string
  ixPredicate :: string
  ixOpclass :: string

record EnumType =
  enName :: string
  enValues :: "string list"

record Table =
  tName :: string
  tRenamedFrom :: string
  Columns :: "Column gomap"
  ColumnOrder :: "string list"
  PK :: "PrimaryKey option"
  FKs :: "ForeignKey gomap"
  Uniques :: "UniqueConstraint gomap"
  Checks :: "Check gomap"
  Indexes :: "Index gomap"
  Exclusions :: "Exclusion gomap"

record Schema =
  sName :: string
  Tables :: "Table gomap"
  Enums :: "EnumType gomap"

section \<open>Constructors\<close>

definition NewSchema :: "string \<Rightarrow> Schema" where
  "NewSchema name = \<lparr>sName = name, Tables = [], Enums = []\<rparr>"

definition NewTable :: "string \<Rightarrow> Table" where
  "NewTable name = \<lparr>tName = name, tRenamedFrom = [], Columns = [], ColumnOrder = [], PK = None,
                    FKs = [], Uniques = [], Checks = [], Indexes = [], Exclusions = []\<rparr>"

definition AddColumnT :: "Column \<Rightarrow> Table \<Rightarrow> Table" where
  "AddColumnT c t =
     t\<lparr>ColumnOrder := (if gm_has (Columns t) (cName c) then ColumnOrder t else ColumnOrder t @ [cName c]),
       Columns := gm_put (cName c) c (Columns t)\<rparr>"

section \<open>Well-formedness\<close>

text \<open>Every map is keyed by the name or symbol of the object it holds, and \<open>ColumnOrder\<close> lists the
  columns once each.\<close>

definition keyed_by :: "('v \<Rightarrow> string) \<Rightarrow> 'v gomap \<Rightarrow> bool" where
  "keyed_by f m \<longleftrightarrow> gm_wf m \<and> (\<forall>(k, v)\<in>set m. f v = k)"

definition wf_table :: "Table \<Rightarrow> bool" where
  "wf_table t \<longleftrightarrow>
     keyed_by cName (Columns t) \<and> keyed_by fkSymbol (FKs t) \<and> keyed_by uqSymbol (Uniques t) \<and>
     keyed_by ckSymbol (Checks t) \<and> keyed_by ixName (Indexes t) \<and> keyed_by exSymbol (Exclusions t) \<and>
     distinct (ColumnOrder t) \<and> set (ColumnOrder t) = fst ` set (Columns t)"

definition wf_schema :: "Schema \<Rightarrow> bool" where
  "wf_schema s \<longleftrightarrow> keyed_by tName (Tables s) \<and> (\<forall>(k, t)\<in>set (Tables s). wf_table t)"

lemma keyed_by_Nil [simp]: "keyed_by f []"
  by (simp add: keyed_by_def gm_wf_def)

lemma keyed_by_get: "keyed_by f m \<Longrightarrow> gm_get m k = Some v \<Longrightarrow> f v = k"
  by (auto simp: keyed_by_def dest!: map_of_SomeD)

lemma keyed_by_put:
  assumes "keyed_by f m" "f v = k"
  shows "keyed_by f (gm_put k v m)"
proof -
  have wf: "gm_wf (gm_put k v m)" using assms(1) by (auto simp: keyed_by_def)
  have "f v' = k'" if "(k', v') \<in> set (gm_put k v m)" for k' v'
  proof -
    have "gm_get (gm_put k v m) k' = Some v'" using that wf by (simp add: gm_get_iff)
    then show ?thesis using assms keyed_by_get [of f m k' v'] by (auto simp: gm_get_put split: if_splits)
  qed
  then show ?thesis using wf by (auto simp: keyed_by_def)
qed

lemma keyed_by_in: "keyed_by f m \<Longrightarrow> (k, v) \<in> set m \<Longrightarrow> f v = k \<and> gm_get m k = Some v"
  by (auto simp: keyed_by_def gm_get_iff)

lemma wf_NewTable [simp]: "wf_table (NewTable name)"
  by (simp add: wf_table_def NewTable_def)

lemma wf_AddColumnT: "wf_table t \<Longrightarrow> wf_table (AddColumnT c t)"
  by (auto simp: wf_table_def AddColumnT_def keyed_by_put gm_has_iff gm_keys_put)

text \<open>Registering a column again replaces its definition and keeps its place.\<close>

lemma AddColumnT_order:
  "wf_table t \<Longrightarrow> gm_has (Columns t) (cName c) \<Longrightarrow> ColumnOrder (AddColumnT c t) = ColumnOrder t"
  by (simp add: AddColumnT_def)

section \<open>A small schema\<close>

text \<open>A catalogue of notes, owned by people, to run the operations on.\<close>

definition exColumn :: "string \<Rightarrow> string \<Rightarrow> string \<Rightarrow> Column" where
  "exColumn name from ty = \<lparr>cName = name, cRenamedFrom = from, cType = ParseType ty, NotNull = False, Default = None, cIdentity = None\<rparr>"

definition exReference :: "string \<Rightarrow> string \<Rightarrow> string \<Rightarrow> ForeignKey" where
  "exReference symb col ref = \<lparr>fkSymbol = symb, fkColumns = [col], RefTable = ref, RefColumns = [''id''],
                             OnDelete = NoAction, OnUpdate = NoAction\<rparr>"

definition exTable :: "string \<Rightarrow> Column list \<Rightarrow> ForeignKey list \<Rightarrow> Table" where
  "exTable name cols fks =
     (fold AddColumnT cols (NewTable name)) \<lparr>FKs := map (\<lambda>fk. (fkSymbol fk, fk)) fks\<rparr>"

definition exCurrent :: Schema where
  "exCurrent = (NewSchema ''t'')\<lparr>Tables :=
     [(''notes'', exTable ''notes'' [exColumn ''id'' [] ''uuid'', exColumn ''body'' [] ''text''] []),
      (''old'', exTable ''old'' [exColumn ''id'' [] ''uuid''] [exReference ''old_fk'' ''id'' ''notes''])]\<rparr>"

definition exDesired :: Schema where
  "exDesired = (NewSchema ''t'')\<lparr>Tables :=
     [(''notes'', exTable ''notes'' [exColumn ''id'' [] ''uuid'', exColumn ''text'' ''body'' ''text''] []),
      (''people'', exTable ''people'' [exColumn ''id'' [] ''uuid''] [])]\<rparr>"

end
