(* ===== verification/SchemaDiff.thy ===== *)
theory SchemaDiff
  imports SchemaModel
begin

text \<open>
  \<open>pkg/schemadiff/diff.go\<close> and \<open>approval.go\<close>: the typed migration operations with their risk taxonomy,
  the builder that assembles a plan phase by phase, and \<open>Diff\<close>.  The functions that append to the
  builder return the operations they append, in order; \<open>emit\<close> files one operation under its phase.
\<close>

section \<open>Operations\<close>

datatype operation =
  CreateTable Table
| DropTable Table
| RenameTable string string
| AddColumn string Column
| DropColumn string Column
| AlterColumn string Column Column
| RenameColumn string string string
| AddPrimaryKey string PrimaryKey
| DropPrimaryKey string PrimaryKey
| AddForeignKey string ForeignKey
| DropForeignKey string ForeignKey
| AddUnique string UniqueConstraint
| DropUnique string UniqueConstraint
| AddCheck string Check
| DropCheck string Check
| AddExclusion string Exclusion
| DropExclusion string Exclusion
| AddIndex string Index
| DropIndex string Index

datatype OpKind =
  OpCreateTable | OpDropTable | OpRenameTable | OpAddColumn | OpDropColumn | OpAlterColumn
| OpRenameColumn | OpAddPrimaryKey | OpDropPrimaryKey | OpAddForeignKey | OpDropForeignKey
| OpAddUnique | OpDropUnique | OpAddCheck | OpDropCheck | OpAddExclusion | OpDropExclusion
| OpAddIndex | OpDropIndex

datatype RiskClass = RiskSafe | RiskBackfill | RiskDestructive | RiskTransformational

fun RiskString :: "RiskClass \<Rightarrow> string" where
  "RiskString RiskBackfill = ''backfill''"
| "RiskString RiskDestructive = ''destructive''"
| "RiskString RiskTransformational = ''transformational''"
| "RiskString RiskSafe = ''safe''"

fun Kind :: "operation \<Rightarrow> OpKind" where
  "Kind (CreateTable _) = OpCreateTable"
| "Kind (DropTable _) = OpDropTable"
| "Kind (RenameTable _ _) = OpRenameTable"
| "Kind (AddColumn _ _) = OpAddColumn"
| "Kind (DropColumn _ _) = OpDropColumn"
| "Kind (AlterColumn _ _ _) = OpAlterColumn"
| "Kind (RenameColumn _ _ _) = OpRenameColumn"
| "Kind (AddPrimaryKey _ _) = OpAddPrimaryKey"
| "Kind (DropPrimaryKey _ _) = OpDropPrimaryKey"
| "Kind (AddForeignKey _ _) = OpAddForeignKey"
| "Kind (DropForeignKey _ _) = OpDropForeignKey"
| "Kind (AddUnique _ _) = OpAddUnique"
| "Kind (DropUnique _ _) = OpDropUnique"
| "Kind (AddCheck _ _) = OpAddCheck"
| "Kind (DropCheck _ _) = OpDropCheck"
| "Kind (AddExclusion _ _) = OpAddExclusion"
| "Kind (DropExclusion _ _) = OpDropExclusion"
| "Kind (AddIndex _ _) = OpAddIndex"
| "Kind (DropIndex _ _) = OpDropIndex"

fun exprEqual :: "string option \<Rightarrow> string option \<Rightarrow> bool" where
  "exprEqual (Some a) (Some b) = (a = b)"
| "exprEqual None None = True"
| "exprEqual _ _ = False"

fun identityEqual :: "string option \<Rightarrow> string option \<Rightarrow> bool" where
  "identityEqual (Some a) (Some b) = (a = b)"
| "identityEqual None None = True"
| "identityEqual _ _ = False"

definition TypeChanged :: "Column \<Rightarrow> Column \<Rightarrow> bool" where
  "TypeChanged from to \<longleftrightarrow> cType from \<noteq> cType to"

definition NullabilityAdded :: "Column \<Rightarrow> Column \<Rightarrow> bool" where
  "NullabilityAdded from to \<longleftrightarrow> \<not> NotNull from \<and> NotNull to"

definition NullabilityDropped :: "Column \<Rightarrow> Column \<Rightarrow> bool" where
  "NullabilityDropped from to \<longleftrightarrow> NotNull from \<and> \<not> NotNull to"

definition DefaultChanged :: "Column \<Rightarrow> Column \<Rightarrow> bool" where
  "DefaultChanged from to \<longleftrightarrow> \<not> exprEqual (Default from) (Default to)"

definition needsBackfill :: "Column \<Rightarrow> bool" where
  "needsBackfill c \<longleftrightarrow> NotNull c \<and> Default c = None \<and> cIdentity c = None"

fun Risk :: "operation \<Rightarrow> RiskClass" where
  "Risk (CreateTable _) = RiskSafe"
| "Risk (DropTable _) = RiskDestructive"
| "Risk (RenameTable _ _) = RiskSafe"
| "Risk (AddColumn _ c) = (if needsBackfill c then RiskBackfill else RiskSafe)"
| "Risk (DropColumn _ _) = RiskDestructive"
| "Risk (AlterColumn _ from to) =
     (if TypeChanged from to then RiskTransformational
      else if NullabilityAdded from to then RiskBackfill else RiskSafe)"
| "Risk (RenameColumn _ _ _) = RiskSafe"
| "Risk (AddPrimaryKey _ _) = RiskBackfill"
| "Risk (DropPrimaryKey _ _) = RiskSafe"
| "Risk (AddForeignKey _ _) = RiskBackfill"
| "Risk (DropForeignKey _ _) = RiskSafe"
| "Risk (AddUnique _ _) = RiskBackfill"
| "Risk (DropUnique _ _) = RiskSafe"
| "Risk (AddCheck _ _) = RiskBackfill"
| "Risk (DropCheck _ _) = RiskSafe"
| "Risk (AddExclusion _ _) = RiskBackfill"
| "Risk (DropExclusion _ _) = RiskSafe"
| "Risk (AddIndex _ _) = RiskSafe"
| "Risk (DropIndex _ _) = RiskSafe"

fun Reversible :: "operation \<Rightarrow> bool" where
  "Reversible (DropTable _) = False"
| "Reversible (DropColumn _ _) = False"
| "Reversible (AlterColumn _ from to) = (\<not> TypeChanged from to)"
| "Reversible _ = True"

fun RequiresBackfill :: "operation \<Rightarrow> bool" where
  "RequiresBackfill (AddColumn _ c) = needsBackfill c"
| "RequiresBackfill (AlterColumn _ from to) = (TypeChanged from to \<or> NullabilityAdded from to)"
| "RequiresBackfill (AddPrimaryKey _ _) = True"
| "RequiresBackfill _ = False"

fun opString :: "operation \<Rightarrow> string" where
  "opString (CreateTable t) = ''CREATE TABLE '' @ tName t"
| "opString (DropTable t) = ''DROP TABLE '' @ tName t"
| "opString (RenameTable from to) = ''RENAME TABLE '' @ from @ '' -> '' @ to"
| "opString (AddColumn t c) =
     ''ADD COLUMN '' @ t @ ''.'' @ cName c @ '' '' @ TypeString (cType c) @ (if NotNull c then '' NOT NULL'' else [])"
| "opString (DropColumn t c) = ''DROP COLUMN '' @ t @ ''.'' @ cName c"
| "opString (AlterColumn t from to) =
     ''ALTER COLUMN '' @ t @ ''.'' @ cName to @ '' '' @ TypeString (cType from) @ '' -> '' @ TypeString (cType to)"
| "opString (RenameColumn t from to) = ''RENAME COLUMN '' @ t @ ''.'' @ from @ '' -> '' @ to"
| "opString (AddPrimaryKey t pk) = ''ADD PRIMARY KEY '' @ t @ '' ('' @ join_with '', '' (pkColumns pk) @ '')''"
| "opString (DropPrimaryKey t pk) = ''DROP PRIMARY KEY '' @ t"
| "opString (AddForeignKey t fk) =
     ''ADD FOREIGN KEY '' @ t @ '' ('' @ join_with '', '' (fkColumns fk) @ '') -> '' @ RefTable fk @ '' (''
       @ join_with '', '' (RefColumns fk) @ '')''"
| "opString (DropForeignKey t fk) = ''DROP FOREIGN KEY '' @ t @ ''.'' @ fkSymbol fk"
| "opString (AddUnique t u) = ''ADD UNIQUE '' @ t @ '' ('' @ join_with '', '' (uqColumns u) @ '')''"
| "opString (DropUnique t u) = ''DROP UNIQUE '' @ t @ ''.'' @ uqSymbol u"
| "opString (AddCheck t c) = ''ADD CHECK '' @ t @ '' '' @ ckExpression c"
| "opString (DropCheck t c) = ''DROP CHECK '' @ t @ ''.'' @ ckSymbol c"
| "opString (AddExclusion t e) = ''ADD EXCLUSION '' @ t @ ''.'' @ exSymbol e"
| "opString (DropExclusion t e) = ''DROP EXCLUSION '' @ t @ ''.'' @ exSymbol e"
| "opString (AddIndex t i) =
     ''ADD '' @ (if ixUnique i then ''UNIQUE '' else []) @ ''INDEX '' @ ixName i @ '' ('' @ join_with '', '' (ixColumns i) @ '')''"
| "opString (DropIndex t i) = ''DROP INDEX '' @ ixName i"

record Plan =
  Ops :: "operation list"

definition PlanEmpty :: "Plan \<Rightarrow> bool" where
  "PlanEmpty p \<longleftrightarrow> Ops p = []"

section \<open>The plan builder\<close>

record planBuilder =
  renameTable :: "operation list"
  renameColumn :: "operation list"
  dropFK :: "operation list"
  dropPK :: "operation list"
  dropUnique :: "operation list"
  dropCheck :: "operation list"
  dropExclusion :: "operation list"
  dropIndex :: "operation list"
  dropColumn :: "operation list"
  dropTable :: "operation list"
  createTable :: "operation list"
  addColumn :: "operation list"
  alterColumn :: "operation list"
  addPK :: "operation list"
  addUnique :: "operation list"
  addCheck :: "operation list"
  addIndex :: "operation list"
  addFK :: "operation list"
  addExclusion :: "operation list"

definition emptyBuilder :: planBuilder where
  "emptyBuilder = \<lparr>renameTable = [], renameColumn = [], dropFK = [], dropPK = [], dropUnique = [],
     dropCheck = [], dropExclusion = [], dropIndex = [], dropColumn = [], dropTable = [],
     createTable = [], addColumn = [], alterColumn = [], addPK = [], addUnique = [], addCheck = [],
     addIndex = [], addFK = [], addExclusion = []\<rparr>"

definition emit :: "operation \<Rightarrow> planBuilder \<Rightarrow> planBuilder" where
  "emit op b =
     (case op of
        RenameTable _ _ \<Rightarrow> b\<lparr>renameTable := renameTable b @ [op]\<rparr>
      | RenameColumn _ _ _ \<Rightarrow> b\<lparr>renameColumn := renameColumn b @ [op]\<rparr>
      | DropForeignKey _ _ \<Rightarrow> b\<lparr>dropFK := dropFK b @ [op]\<rparr>
      | DropPrimaryKey _ _ \<Rightarrow> b\<lparr>dropPK := dropPK b @ [op]\<rparr>
      | DropUnique _ _ \<Rightarrow> b\<lparr>dropUnique := dropUnique b @ [op]\<rparr>
      | DropCheck _ _ \<Rightarrow> b\<lparr>dropCheck := dropCheck b @ [op]\<rparr>
      | DropExclusion _ _ \<Rightarrow> b\<lparr>dropExclusion := dropExclusion b @ [op]\<rparr>
      | DropIndex _ _ \<Rightarrow> b\<lparr>dropIndex := dropIndex b @ [op]\<rparr>
      | DropColumn _ _ \<Rightarrow> b\<lparr>dropColumn := dropColumn b @ [op]\<rparr>
      | DropTable _ \<Rightarrow> b\<lparr>dropTable := dropTable b @ [op]\<rparr>
      | CreateTable _ \<Rightarrow> b\<lparr>createTable := createTable b @ [op]\<rparr>
      | AddColumn _ _ \<Rightarrow> b\<lparr>addColumn := addColumn b @ [op]\<rparr>
      | AlterColumn _ _ _ \<Rightarrow> b\<lparr>alterColumn := alterColumn b @ [op]\<rparr>
      | AddPrimaryKey _ _ \<Rightarrow> b\<lparr>addPK := addPK b @ [op]\<rparr>
      | AddUnique _ _ \<Rightarrow> b\<lparr>addUnique := addUnique b @ [op]\<rparr>
      | AddCheck _ _ \<Rightarrow> b\<lparr>addCheck := addCheck b @ [op]\<rparr>
      | AddIndex _ _ \<Rightarrow> b\<lparr>addIndex := addIndex b @ [op]\<rparr>
      | AddForeignKey _ _ \<Rightarrow> b\<lparr>addFK := addFK b @ [op]\<rparr>
      | AddExclusion _ _ \<Rightarrow> b\<lparr>addExclusion := addExclusion b @ [op]\<rparr>)"

definition plan :: "planBuilder \<Rightarrow> Plan" where
  "plan b = \<lparr>Ops =
     renameTable b @ renameColumn b @
     dropFK b @ dropPK b @ dropUnique b @ dropCheck b @ dropExclusion b @ dropIndex b @ dropColumn b @ dropTable b @
     createTable b @ addColumn b @ alterColumn b @
     addPK b @ addUnique b @ addCheck b @ addIndex b @ addFK b @ addExclusion b\<rparr>"

section \<open>Matching keys\<close>

definition fkKey :: "ForeignKey \<Rightarrow> string" where
  "fkKey fk = join_with '','' (fkColumns fk) @ ''=>'' @ RefTable fk @ ''('' @ join_with '','' (RefColumns fk) @ '')''"

definition uniqueKey :: "UniqueConstraint \<Rightarrow> string" where
  "uniqueKey u = join_with '','' (uqColumns u)"

definition indexKey :: "Index \<Rightarrow> string" where
  "indexKey i = join_with '','' (ixColumns i) @ ''|u='' @ (if ixUnique i then ''true'' else ''false'')
                 @ ''|m='' @ ixMethod i @ ''|p='' @ ixPredicate i"

definition columnAttrsEqual :: "Column \<Rightarrow> Column \<Rightarrow> bool" where
  "columnAttrsEqual a b \<longleftrightarrow>
     cType a = cType b \<and> NotNull a = NotNull b \<and> exprEqual (Default a) (Default b) \<and>
     identityEqual (cIdentity a) (cIdentity b)"

fun stringsEqual :: "string list \<Rightarrow> string list \<Rightarrow> bool" where
  "stringsEqual [] [] = True"
| "stringsEqual (a # as) (b # bs) = (a = b \<and> stringsEqual as bs)"
| "stringsEqual _ _ = False"

definition sortedTableNames :: "Schema \<Rightarrow> string list" where
  "sortedTableNames s = sortedKeys (Tables s)"

definition sortedColumnNames :: "Table \<Rightarrow> string list" where
  "sortedColumnNames t = sortedKeys (Columns t)"

text \<open>\<open>m[key(v)] = v\<close> over the values of a map, in the order the run visits it.\<close>

definition indexBy :: "('v \<Rightarrow> string) \<Rightarrow> 'v gomap \<Rightarrow> 'v gomap" where
  "indexBy key m = fold (\<lambda>(_, v). gm_put (key v) v) m []"

section \<open>Diff\<close>

datatype diffError =
  TableRenameSourceMissing string string
| TableRenameSourceTwice string
| ColumnRenameSourceMissing string string string
| ColumnRenameSourceTwice string string

text \<open>Columns, pass 1: renames.  The accumulators are the current columns consumed, the desired columns
  handled and the operations appended.\<close>

fun columnRenames ::
  "string \<Rightarrow> Column gomap \<Rightarrow> Column gomap \<Rightarrow> string list \<Rightarrow> string list \<Rightarrow> string list \<Rightarrow> operation list \<Rightarrow>
   diffError + (string list \<times> string list \<times> operation list)" where
  "columnRenames table dcs ccs [] consumed handled out = Inr (consumed, handled, out)"
| "columnRenames table dcs ccs (name # names) consumed handled out =
     (case gm_get dcs name of
        None \<Rightarrow> columnRenames table dcs ccs names consumed handled out
      | Some dc \<Rightarrow>
          if cRenamedFrom dc = [] then columnRenames table dcs ccs names consumed handled out
          else
            (case gm_get ccs (cRenamedFrom dc) of
               None \<Rightarrow> Inl (ColumnRenameSourceMissing table (cName dc) (cRenamedFrom dc))
             | Some cc \<Rightarrow>
                 if cRenamedFrom dc \<in> set consumed then Inl (ColumnRenameSourceTwice table (cRenamedFrom dc))
                 else columnRenames table dcs ccs names (cRenamedFrom dc # consumed) (cName dc # handled)
                        (out @ [RenameColumn table (cRenamedFrom dc) (cName dc)]
                             @ (if columnAttrsEqual cc dc then [] else [AlterColumn table cc dc]))))"

definition columnMatched :: "Column gomap \<Rightarrow> string list \<Rightarrow> string \<Rightarrow> bool" where
  "columnMatched ccs consumed name \<longleftrightarrow> gm_get ccs name \<noteq> None \<and> name \<notin> set consumed"

text \<open>Pass 2: columns matched by name, and adds; pass 3: drops.\<close>

definition columnMatchOps ::
  "string \<Rightarrow> Column gomap \<Rightarrow> Column gomap \<Rightarrow> string list \<Rightarrow> string \<Rightarrow> operation list" where
  "columnMatchOps table dcs ccs consumed name =
     (case gm_get dcs name of
        None \<Rightarrow> []
      | Some dc \<Rightarrow>
          if columnMatched ccs consumed name
          then (case gm_get ccs name of
                  Some cc \<Rightarrow> if columnAttrsEqual cc dc then [] else [AlterColumn table cc dc]
                | None \<Rightarrow> [])
          else [AddColumn table dc])"

definition columnDropOps ::
  "string \<Rightarrow> Column gomap \<Rightarrow> string list \<Rightarrow> string list \<Rightarrow> string \<Rightarrow> operation list" where
  "columnDropOps table ccs consumed matched name =
     (if name \<in> set consumed \<or> name \<in> set matched then []
      else case gm_get ccs name of Some cc \<Rightarrow> [DropColumn table cc] | None \<Rightarrow> [])"

definition diffColumns :: "Table \<Rightarrow> Table \<Rightarrow> diffError + operation list" where
  "diffColumns dt ct =
     (case columnRenames (tName dt) (Columns dt) (Columns ct) (sortedColumnNames dt) [] [] [] of
        Inl e \<Rightarrow> Inl e
      | Inr (consumed, handled, out) \<Rightarrow>
          (let rest = filter (\<lambda>n. n \<notin> set handled) (sortedColumnNames dt);
               matched = filter (columnMatched (Columns ct) consumed) rest
           in Inr (out
                   @ concat (map (columnMatchOps (tName dt) (Columns dt) (Columns ct) consumed) rest)
                   @ concat (map (columnDropOps (tName dt) (Columns ct) consumed matched) (sortedColumnNames ct)))))"

definition diffPK :: "Table \<Rightarrow> Table \<Rightarrow> operation list" where
  "diffPK dt ct =
     (case (PK dt, PK ct) of
        (None, None) \<Rightarrow> []
      | (Some dp, None) \<Rightarrow> [AddPrimaryKey (tName dt) dp]
      | (None, Some cp) \<Rightarrow> [DropPrimaryKey (tName dt) cp]
      | (Some dp, Some cp) \<Rightarrow>
          if \<not> stringsEqual (pkColumns dp) (pkColumns cp)
          then [DropPrimaryKey (tName dt) cp, AddPrimaryKey (tName dt) dp] else [])"

text \<open>The add/drop comparison the uniques, checks and indexes share: over the sorted keys, a desired
  object without a current match is added, a current one without a desired match dropped.\<close>

definition keyedAdds :: "('v \<Rightarrow> operation) \<Rightarrow> 'v gomap \<Rightarrow> 'v gomap \<Rightarrow> operation list" where
  "keyedAdds mk des cur =
     concat (map (\<lambda>k. if gm_has cur k then [] else (case gm_get des k of Some v \<Rightarrow> [mk v] | None \<Rightarrow> []))
                 (sortedKeys des))"

definition diffFKs :: "string \<Rightarrow> ForeignKey gomap \<Rightarrow> ForeignKey gomap \<Rightarrow> operation list" where
  "diffFKs table desFK curFK =
     concat (map (\<lambda>k. case gm_get desFK k of
                        None \<Rightarrow> []
                      | Some dfk \<Rightarrow>
                          (case gm_get curFK k of
                             None \<Rightarrow> [AddForeignKey table dfk]
                           | Some cfk \<Rightarrow>
                               if OnDelete cfk \<noteq> OnDelete dfk \<or> OnUpdate cfk \<noteq> OnUpdate dfk
                               then [DropForeignKey table cfk, AddForeignKey table dfk] else []))
                 (sortedKeys desFK))
     @ keyedAdds (DropForeignKey table) curFK desFK"

definition ctOf :: "(Table \<Rightarrow> 'v gomap) \<Rightarrow> Table option \<Rightarrow> 'v gomap" where
  "ctOf f ct = (case ct of None \<Rightarrow> [] | Some t \<Rightarrow> f t)"

definition diffConstraints :: "Table \<Rightarrow> Table option \<Rightarrow> operation list" where
  "diffConstraints dt ct =
     (let table = tName dt;
          curFK = indexBy fkKey (ctOf FKs ct); desFK = indexBy fkKey (FKs dt);
          curU = indexBy uniqueKey (ctOf Uniques ct); desU = indexBy uniqueKey (Uniques dt);
          curC = indexBy ckExpression (ctOf Checks ct); desC = indexBy ckExpression (Checks dt);
          curX = ctOf Exclusions ct; desX = Exclusions dt;
          curI = indexBy indexKey (ctOf Indexes ct); desI = indexBy indexKey (Indexes dt)
      in diffFKs table desFK curFK
         @ keyedAdds (AddUnique table) desU curU @ keyedAdds (DropUnique table) curU desU
         @ keyedAdds (AddCheck table) desC curC @ keyedAdds (DropCheck table) curC desC
         @ keyedAdds (DropExclusion table) curX desX @ keyedAdds (AddExclusion table) desX curX
         @ keyedAdds (AddIndex table) desI curI @ keyedAdds (DropIndex table) curI desI)"

definition diffTableContents :: "Table \<Rightarrow> Table \<Rightarrow> diffError + operation list" where
  "diffTableContents dt ct =
     (case diffColumns dt ct of
        Inl e \<Rightarrow> Inl e
      | Inr ops \<Rightarrow> Inr (ops @ diffPK dt ct @ diffConstraints dt (Some ct)))"

text \<open>Tables, pass 1: renames.\<close>

fun tableRenames ::
  "Table gomap \<Rightarrow> Table gomap \<Rightarrow> string list \<Rightarrow> string list \<Rightarrow> string list \<Rightarrow> operation list \<Rightarrow>
   diffError + (string list \<times> string list \<times> operation list)" where
  "tableRenames des cur [] consumed handled out = Inr (consumed, handled, out)"
| "tableRenames des cur (name # names) consumed handled out =
     (case gm_get des name of
        None \<Rightarrow> tableRenames des cur names consumed handled out
      | Some dt \<Rightarrow>
          if tRenamedFrom dt = [] then tableRenames des cur names consumed handled out
          else
            (case gm_get cur (tRenamedFrom dt) of
               None \<Rightarrow> Inl (TableRenameSourceMissing (tName dt) (tRenamedFrom dt))
             | Some ct \<Rightarrow>
                 if tRenamedFrom dt \<in> set consumed then Inl (TableRenameSourceTwice (tRenamedFrom dt))
                 else
                   (case diffTableContents dt ct of
                      Inl e \<Rightarrow> Inl e
                    | Inr ops \<Rightarrow>
                        tableRenames des cur names (tRenamedFrom dt # consumed) (tName dt # handled)
                          (out @ [RenameTable (tRenamedFrom dt) (tName dt)] @ ops))))"

text \<open>Pass 2: tables matched by name, and creates.\<close>

fun tableMatches ::
  "Table gomap \<Rightarrow> Table gomap \<Rightarrow> string list \<Rightarrow> string list \<Rightarrow> string list \<Rightarrow> operation list \<Rightarrow>
   diffError + (string list \<times> operation list)" where
  "tableMatches des cur consumed [] matched out = Inr (matched, out)"
| "tableMatches des cur consumed (name # names) matched out =
     (case gm_get des name of
        None \<Rightarrow> tableMatches des cur consumed names matched out
      | Some dt \<Rightarrow>
          (case (if name \<in> set consumed then None else gm_get cur name) of
             Some ct \<Rightarrow>
               (case diffTableContents dt ct of
                  Inl e \<Rightarrow> Inl e
                | Inr ops \<Rightarrow> tableMatches des cur consumed names (name # matched) (out @ ops))
           | None \<Rightarrow>
               tableMatches des cur consumed names matched
                 (out @ [CreateTable dt] @ diffConstraints dt None)))"

definition tableDropOps :: "Table gomap \<Rightarrow> string list \<Rightarrow> string list \<Rightarrow> string \<Rightarrow> operation list" where
  "tableDropOps cur consumed matched name =
     (if name \<in> set consumed \<or> name \<in> set matched then []
      else case gm_get cur name of Some ct \<Rightarrow> [DropTable ct] | None \<Rightarrow> [])"

definition DiffOps :: "Schema \<Rightarrow> Schema \<Rightarrow> diffError + operation list" where
  "DiffOps desired current =
     (case tableRenames (Tables desired) (Tables current) (sortedTableNames desired) [] [] [] of
        Inl e \<Rightarrow> Inl e
      | Inr (consumed, handled, out) \<Rightarrow>
          (case tableMatches (Tables desired) (Tables current) consumed
                  (filter (\<lambda>n. n \<notin> set handled) (sortedTableNames desired)) [] out of
             Inl e \<Rightarrow> Inl e
           | Inr (matched, out') \<Rightarrow>
               Inr (out' @ concat (map (tableDropOps (Tables current) consumed matched)
                                       (sortedTableNames current)))))"

definition Diff :: "Schema \<Rightarrow> Schema \<Rightarrow> diffError + Plan" where
  "Diff desired current =
     (case DiffOps desired current of
        Inl e \<Rightarrow> Inl e
      | Inr ops \<Rightarrow> Inr (plan (fold emit ops emptyBuilder)))"

section \<open>Approval keys\<close>

fun DestructiveKey :: "operation \<Rightarrow> string option" where
  "DestructiveKey (DropTable t) = Some (tName t)"
| "DestructiveKey (DropColumn t c) = Some (t @ ''.'' @ cName c)"
| "DestructiveKey _ = None"

definition IsDestructive :: "operation \<Rightarrow> bool" where
  "IsDestructive op \<longleftrightarrow> DestructiveKey op \<noteq> None"

end
