(* ===== verification/DiffFacts.thy ===== *)
theory DiffFacts
  imports SchemaDiff "HOL-Library.Multiset"
begin

text \<open>
  What \<open>Diff\<close> emits and when it refuses: the builder sorts the emitted operations by phase and loses
  none; the rename passes fail exactly on malformed intents; the emitted operations are those of the
  renamed, the matched, the new and the dropped tables.
\<close>

section \<open>Phases\<close>

text \<open>The position of each kind in the builder's concatenation.\<close>

fun phaseOf :: "OpKind \<Rightarrow> nat" where
  "phaseOf OpRenameTable = 0"
| "phaseOf OpRenameColumn = 1"
| "phaseOf OpDropForeignKey = 2"
| "phaseOf OpDropPrimaryKey = 3"
| "phaseOf OpDropUnique = 4"
| "phaseOf OpDropCheck = 5"
| "phaseOf OpDropExclusion = 6"
| "phaseOf OpDropIndex = 7"
| "phaseOf OpDropColumn = 8"
| "phaseOf OpDropTable = 9"
| "phaseOf OpCreateTable = 10"
| "phaseOf OpAddColumn = 11"
| "phaseOf OpAlterColumn = 12"
| "phaseOf OpAddPrimaryKey = 13"
| "phaseOf OpAddUnique = 14"
| "phaseOf OpAddCheck = 15"
| "phaseOf OpAddIndex = 16"
| "phaseOf OpAddForeignKey = 17"
| "phaseOf OpAddExclusion = 18"

abbreviation phase :: "operation \<Rightarrow> nat" where
  "phase op \<equiv> phaseOf (Kind op)"

definition phaseList :: "planBuilder \<Rightarrow> nat \<Rightarrow> operation list" where
  "phaseList b n =
     [renameTable b, renameColumn b, dropFK b, dropPK b, dropUnique b, dropCheck b, dropExclusion b,
      dropIndex b, dropColumn b, dropTable b, createTable b, addColumn b, alterColumn b, addPK b,
      addUnique b, addCheck b, addIndex b, addFK b, addExclusion b] ! n"

lemma less_19: "(n::nat) < 19 \<Longrightarrow> n \<in> {0,1,2,3,4,5,6,7,8,9,10,11,12,13,14,15,16,17,18}"
  by (simp add: numeral_eq_Suc less_Suc_eq)

lemma phase_lt: "phase op < 19"
  by (cases op) simp_all

lemma phaseList_emit:
  assumes "n < 19"
  shows "phaseList (emit op b) n = phaseList b n @ (if phase op = n then [op] else [])"
  using less_19 [OF assms]
  by (cases op) (auto simp: phaseList_def emit_def)

lemma phaseList_fold:
  assumes "n < 19"
  shows "phaseList (fold emit ops b) n = phaseList b n @ filter (\<lambda>op. phase op = n) ops"
  by (induction ops arbitrary: b) (simp_all add: phaseList_emit [OF assms])

lemma plan_phases: "Ops (plan b) = concat (map (phaseList b) [0..<19])"
  by (simp add: plan_def phaseList_def upt_conv_Cons)

definition planOf :: "operation list \<Rightarrow> operation list" where
  "planOf ops = concat (map (\<lambda>n. filter (\<lambda>op. phase op = n) ops) [0..<19])"

lemma plan_emitted: "Ops (plan (fold emit ops emptyBuilder)) = planOf ops"
proof -
  have "phaseList emptyBuilder n = []" if "n < 19" for n
    using less_19 [OF that] by (auto simp: phaseList_def emptyBuilder_def)
  then have "map (phaseList (fold emit ops emptyBuilder)) [0..<19]
             = map (\<lambda>n. filter (\<lambda>op. phase op = n) ops) [0..<19]"
    by (intro map_cong) (simp_all add: phaseList_fold)
  then show ?thesis by (simp only: plan_phases planOf_def)
qed

lemma filters_sorted:
  "sorted (map f (concat (map (\<lambda>n. filter (\<lambda>x. f x = n) xs) [a..<b])))"
proof (induction "b - a" arbitrary: a)
  case (Suc k)
  then have ab: "a < b" and k: "k = b - Suc a" by simp_all
  have const: "sorted (map f (filter (\<lambda>x. f x = a) xs))"
    by (induction xs) auto
  show ?case
    using Suc(1) [OF k] ab const by (auto simp: upt_conv_Cons sorted_append)
qed simp

lemma sorted_planOf: "sorted (map phase (planOf ops))"
  unfolding planOf_def by (rule filters_sorted)

lemma filters_mset:
  fixes f :: "'a \<Rightarrow> nat"
  assumes "\<forall>x\<in>set xs. f x < b"
  shows "mset (concat (map (\<lambda>n. filter (\<lambda>x. f x = n) xs) [0..<b])) = mset xs"
proof -
  have "mset (concat (map (\<lambda>n. filter (\<lambda>x. f x = n) xs) [0..<b])) = mset (filter (\<lambda>x. f x < b) xs)" for b
  proof (induction b)
    case (Suc b)
    have "filter_mset (\<lambda>x. f x < Suc b) (mset xs) = filter_mset (\<lambda>x. f x < b) (mset xs) + filter_mset (\<lambda>x. f x = b) (mset xs)"
      by (induction xs) auto
    with Suc show ?case by simp
  qed simp
  moreover have "filter (\<lambda>x. f x < b) xs = xs" using assms by (simp add: filter_id_conv)
  ultimately show ?thesis by metis
qed

lemma mset_planOf: "mset (planOf ops) = mset ops"
  unfolding planOf_def by (rule filters_mset) (simp add: phase_lt)

lemma set_planOf [simp]: "set (planOf ops) = set ops"
  using mset_planOf by (metis set_mset_mset)

lemma planOf_Nil_iff [simp]: "planOf ops = [] \<longleftrightarrow> ops = []"
  using mset_planOf [of ops] by (metis mset_zero_iff)

lemma Diff_iff: "Diff d c = Inr p \<longleftrightarrow> (\<exists>ops. DiffOps d c = Inr ops \<and> p = \<lparr>Ops = planOf ops\<rparr>)"
  by (auto simp: Diff_def plan_emitted [symmetric] split: sum.splits)

lemma Diff_err_iff: "Diff d c = Inl e \<longleftrightarrow> DiffOps d c = Inl e"
  by (auto simp: Diff_def split: sum.splits)

section \<open>The rename passes\<close>

text \<open>The objects of a map, in the order of a name list; those that declare a rename; and when a list of
  rename sources can be consumed one after the other.\<close>

definition objectsOf :: "'v gomap \<Rightarrow> string list \<Rightarrow> 'v list" where
  "objectsOf m names = List.map_filter (gm_get m) names"

definition sourcesOk :: "string set \<Rightarrow> string list \<Rightarrow> string list \<Rightarrow> bool" where
  "sourcesOk existing consumed srcs \<longleftrightarrow>
     set srcs \<subseteq> existing \<and> distinct srcs \<and> set srcs \<inter> set consumed = {}"

lemma objectsOf_simps [simp]:
  "objectsOf m [] = []"
  "objectsOf m (n # ns) = (case gm_get m n of None \<Rightarrow> objectsOf m ns | Some v \<Rightarrow> v # objectsOf m ns)"
  by (simp_all add: objectsOf_def List.map_filter_simps split: option.splits)

lemma set_objectsOf: "v \<in> set (objectsOf m names) \<longleftrightarrow> (\<exists>n\<in>set names. gm_get m n = Some v)"
  by (induction names) (auto split: option.splits)

lemma sourcesOk_Cons:
  "sourcesOk E consumed (x # xs) \<longleftrightarrow> x \<in> E \<and> x \<notin> set consumed \<and> sourcesOk E (x # consumed) xs"
  by (auto simp: sourcesOk_def)

lemma sourcesOk_Nil [simp]: "sourcesOk E consumed []"
  by (simp add: sourcesOk_def)

section \<open>Rename matching\<close>

text \<open>
  Tables and columns are matched the same way: an object that declares a rename stems from its
  source, any other from the current object of its name unless a rename consumed it.  The notions
  and lemmas are stated once, over the name \<open>nm\<close> and the rename source \<open>src\<close> of an object.
\<close>

definition renameSources :: "('v \<Rightarrow> string) \<Rightarrow> 'v gomap \<Rightarrow> string list" where
  "renameSources src m = filter (\<lambda>s. s \<noteq> []) (map (src \<circ> snd) m)"

definition sourcesWf :: "'v gomap \<Rightarrow> string list \<Rightarrow> bool" where
  "sourcesWf cur srcs \<longleftrightarrow> set srcs \<subseteq> fst ` set cur \<and> distinct srcs"

definition renamersOf :: "('v \<Rightarrow> string) \<Rightarrow> 'v gomap \<Rightarrow> 'v list" where
  "renamersOf src m = filter (\<lambda>v. src v \<noteq> []) (objectsOf m (sortedKeys m))"

definition consumedBy :: "('v \<Rightarrow> string) \<Rightarrow> 'v gomap \<Rightarrow> string list" where
  "consumedBy src m = rev (map src (renamersOf src m))"

definition handledBy :: "('v \<Rightarrow> string) \<Rightarrow> ('v \<Rightarrow> string) \<Rightarrow> 'v gomap \<Rightarrow> string list" where
  "handledBy nm src m = rev (map nm (renamersOf src m))"

definition unhandledBy :: "('v \<Rightarrow> string) \<Rightarrow> ('v \<Rightarrow> string) \<Rightarrow> 'v gomap \<Rightarrow> string list" where
  "unhandledBy nm src m = filter (\<lambda>n. n \<notin> set (handledBy nm src m)) (sortedKeys m)"

definition matchedIn :: "'v gomap \<Rightarrow> string list \<Rightarrow> string \<Rightarrow> 'v option" where
  "matchedIn cur consumed name = (if name \<in> set consumed then None else gm_get cur name)"

definition sourceOf :: "('v \<Rightarrow> string) \<Rightarrow> ('v \<Rightarrow> string) \<Rightarrow> 'v gomap \<Rightarrow> 'v gomap \<Rightarrow> 'v \<Rightarrow> 'v option" where
  "sourceOf nm src des cur v =
     (if src v \<noteq> [] then gm_get cur (src v)
      else if nm v \<in> set (renameSources src des) then None
      else gm_get cur (nm v))"

definition unsourced :: "('v \<Rightarrow> string) \<Rightarrow> ('v \<Rightarrow> string) \<Rightarrow> 'v gomap \<Rightarrow> 'v gomap \<Rightarrow> 'v set" where
  "unsourced nm src des cur =
     {cv. (nm cv, cv) \<in> set cur \<and> (\<forall>(n, dv)\<in>set des. sourceOf nm src des cur dv \<noteq> Some cv)}"

lemma keyed_wf: "keyed_by nm m \<Longrightarrow> gm_wf m"
  by (simp add: keyed_by_def)

lemma keyed_get: "keyed_by nm m \<Longrightarrow> gm_get m k = Some v \<longleftrightarrow> (k, v) \<in> set m"
  by (simp add: keyed_by_def gm_get_iff)

lemma keyed_name: "keyed_by nm m \<Longrightarrow> (k, v) \<in> set m \<Longrightarrow> nm v = k"
  by (auto simp: keyed_by_def)

lemma objectsOf_all:
  "\<forall>n\<in>set names. gm_get m n \<noteq> None \<Longrightarrow> objectsOf m names = map (\<lambda>n. the (gm_get m n)) names"
  by (induction names) auto

lemma mset_objectsOf:
  assumes "gm_wf m"
  shows "mset (objectsOf m (sortedKeys m)) = mset (map snd m)"
proof -
  have some: "\<forall>n\<in>set (sortedKeys m). gm_get m n \<noteq> None"
    by (auto simp: map_of_eq_None_iff)
  have "mset (objectsOf m (sortedKeys m)) = image_mset (\<lambda>n. the (gm_get m n)) (mset (map fst m))"
    by (subst objectsOf_all [OF some]) (simp add: sortedKeys_def)
  also have "\<dots> = mset (map (\<lambda>p. the (gm_get m (fst p))) m)"
    by (simp add: multiset.map_comp comp_def)
  also have "map (\<lambda>p. the (gm_get m (fst p))) m = map snd m"
    using assms by (auto simp: gm_wf_def)
  finally show ?thesis .
qed

lemma mset_renamers: "gm_wf m \<Longrightarrow> mset (map src (renamersOf src m)) = mset (renameSources src m)"
proof -
  assume "gm_wf m"
  then have "mset (map src (renamersOf src m)) = image_mset src (filter_mset (\<lambda>v. src v \<noteq> []) (mset (map snd m)))"
    unfolding renamersOf_def using mset_objectsOf [of m] by simp
  also have "\<dots> = mset (renameSources src m)"
    unfolding renameSources_def by (induction m) auto
  finally show ?thesis .
qed

lemma sourcesOk_renamers:
  assumes "gm_wf m"
  shows "sourcesOk (fst ` set cur) [] (map src (renamersOf src m)) \<longleftrightarrow> sourcesWf cur (renameSources src m)"
  using mset_eq_setD [OF mset_renamers [OF assms, of src]]
        mset_eq_imp_distinct_iff [OF mset_renamers [OF assms, of src]]
  unfolding sourcesOk_def sourcesWf_def by simp

lemma set_consumedBy: "gm_wf m \<Longrightarrow> set (consumedBy src m) = set (renameSources src m)"
  using mset_eq_setD [OF mset_renamers [of m src]] by (simp add: consumedBy_def)

lemma set_renamersOf:
  assumes "keyed_by nm m"
  shows "v \<in> set (renamersOf src m) \<longleftrightarrow> (nm v, v) \<in> set m \<and> src v \<noteq> []"
  unfolding renamersOf_def using keyed_name [OF assms] keyed_get [OF assms]
  by (force simp: set_objectsOf)

lemma set_handledBy:
  assumes "keyed_by nm m"
  shows "n \<in> set (handledBy nm src m) \<longleftrightarrow> (\<exists>v. (n, v) \<in> set m \<and> src v \<noteq> [])"
  unfolding handledBy_def using set_renamersOf [OF assms, of _ src] keyed_name [OF assms] by auto

lemma set_unhandledBy:
  assumes "keyed_by nm m"
  shows "n \<in> set (unhandledBy nm src m) \<longleftrightarrow> (\<exists>v. (n, v) \<in> set m \<and> src v = [])"
proof -
  have uniq: "(n, v) \<in> set m \<Longrightarrow> (n, v') \<in> set m \<Longrightarrow> v = v'" for v v'
    using keyed_get [OF assms, of n v] keyed_get [OF assms, of n v'] by simp
  have "n \<in> set (unhandledBy nm src m) \<longleftrightarrow> (\<exists>v. (n, v) \<in> set m) \<and> n \<notin> set (handledBy nm src m)"
    by (force simp: unhandledBy_def)
  then show ?thesis using set_handledBy [OF assms] uniq by blast
qed

lemma sourceOf_unrenamed:
  assumes "keyed_by nm des" "(n, v) \<in> set des" "src v = []"
  shows "sourceOf nm src des cur v = matchedIn cur (consumedBy src des) n"
  using assms(3) keyed_name [OF assms(1,2)] set_consumedBy [OF keyed_wf [OF assms(1)]]
  by (simp add: sourceOf_def matchedIn_def)

lemma used_iff:
  assumes d: "keyed_by nm des" and c: "keyed_by nm cur" and cv: "(nm cv, cv) \<in> set cur"
  shows "nm cv \<in> set (consumedBy src des) \<or>
         (nm cv \<in> set (unhandledBy nm src des) \<and> matchedIn cur (consumedBy src des) (nm cv) \<noteq> None)
         \<longleftrightarrow> cv \<notin> unsourced nm src des cur" (is "?l \<longleftrightarrow> ?r")
proof
  have cget: "gm_get cur (nm cv) = Some cv" using keyed_get [OF c] cv by simp
  assume ?l
  then consider (a) n dv where "(n, dv) \<in> set des" "src dv = nm cv" "nm cv \<noteq> []"
    | (b) "nm cv \<in> set (unhandledBy nm src des)" "matchedIn cur (consumedBy src des) (nm cv) \<noteq> None"
    using set_consumedBy [OF keyed_wf [OF d]] by (auto simp: renameSources_def)
  then have "\<exists>n dv. (n, dv) \<in> set des \<and> sourceOf nm src des cur dv = Some cv"
  proof cases
    case a
    then show ?thesis using cget by (intro exI [of _ n] exI [of _ dv]) (simp add: sourceOf_def)
  next
    case b
    then obtain dv where dv: "(nm cv, dv) \<in> set des" "src dv = []"
      using set_unhandledBy [OF d] by blast
    then have "sourceOf nm src des cur dv = Some cv"
      using b(2) sourceOf_unrenamed [where src = src and cur = cur, OF d dv] cget
      by (auto simp: matchedIn_def split: if_splits)
    then show ?thesis using dv by blast
  qed
  then show ?r by (auto simp: unsourced_def)
next
  assume ?r
  then obtain n dv where dv: "(n, dv) \<in> set des" "sourceOf nm src des cur dv = Some cv"
    using cv by (auto simp: unsourced_def)
  show ?l
  proof (cases "src dv = []")
    case True
    then have un: "n \<in> set (unhandledBy nm src des)" using set_unhandledBy [OF d] dv(1) by blast
    have m: "matchedIn cur (consumedBy src des) n = Some cv"
      using sourceOf_unrenamed [where src = src and cur = cur, OF d dv(1) True] dv(2) by simp
    then have "(n, cv) \<in> set cur"
      using keyed_get [OF c] by (auto simp: matchedIn_def split: if_splits)
    then have "n = nm cv" using keyed_name [OF c] by simp
    then show ?thesis using un m by simp
  next
    case False
    then have "(src dv, cv) \<in> set cur" using dv(2) keyed_get [OF c] by (simp add: sourceOf_def)
    then have "src dv = nm cv" using keyed_name [OF c] by simp
    then have "nm cv \<in> set (renameSources src des)"
      using dv(1) False by (force simp: renameSources_def)
    then show ?thesis using set_consumedBy [OF keyed_wf [OF d]] by simp
  qed
qed

definition columnRenameOps :: "string \<Rightarrow> Column gomap \<Rightarrow> Column \<Rightarrow> operation list" where
  "columnRenameOps table ccs dc =
     RenameColumn table (cRenamedFrom dc) (cName dc) #
     (case gm_get ccs (cRenamedFrom dc) of
        Some cc \<Rightarrow> if columnAttrsEqual cc dc then [] else [AlterColumn table cc dc]
      | None \<Rightarrow> [])"

abbreviation renamedColumns :: "Column gomap \<Rightarrow> string list \<Rightarrow> Column list" where
  "renamedColumns m names \<equiv> filter (\<lambda>c. cRenamedFrom c \<noteq> []) (objectsOf m names)"

abbreviation renamedTables :: "Table gomap \<Rightarrow> string list \<Rightarrow> Table list" where
  "renamedTables m names \<equiv> filter (\<lambda>t. tRenamedFrom t \<noteq> []) (objectsOf m names)"

lemma columnRenames_iff:
  "columnRenames table dcs ccs names consumed handled out = Inr r \<longleftrightarrow>
     sourcesOk (fst ` set ccs) consumed (map cRenamedFrom (renamedColumns dcs names)) \<and>
     r = (rev (map cRenamedFrom (renamedColumns dcs names)) @ consumed,
          rev (map cName (renamedColumns dcs names)) @ handled,
          out @ concat (map (columnRenameOps table ccs) (renamedColumns dcs names)))"
proof (induction names arbitrary: consumed handled out)
  case (Cons n names)
  show ?case
  proof (cases "gm_get dcs n")
    case (Some dc)
    show ?thesis
    proof (cases "cRenamedFrom dc = []")
      case False
      have ex: "cRenamedFrom dc \<in> fst ` set ccs \<longleftrightarrow> gm_get ccs (cRenamedFrom dc) \<noteq> None"
        by (metis map_of_eq_None_iff)
      show ?thesis
        using Some False Cons
        by (cases "gm_get ccs (cRenamedFrom dc)")
           (auto simp: sourcesOk_Cons ex columnRenameOps_def)
    qed (simp add: Some Cons)
  qed (simp add: Cons)
qed auto

definition contentOps :: "Table \<Rightarrow> Table \<Rightarrow> operation list" where
  "contentOps dt ct = (case diffTableContents dt ct of Inr ops \<Rightarrow> ops | Inl _ \<Rightarrow> [])"

definition contentOk :: "Table \<Rightarrow> Table \<Rightarrow> bool" where
  "contentOk dt ct \<longleftrightarrow>
     sourcesOk (fst ` set (Columns ct)) [] (map cRenamedFrom (renamedColumns (Columns dt) (sortedColumnNames dt)))"

lemma diffColumns_iff: "(\<exists>ops. diffColumns dt ct = Inr ops) \<longleftrightarrow> contentOk dt ct"
proof (cases "columnRenames (tName dt) (Columns dt) (Columns ct) (sortedColumnNames dt) [] [] []")
  case (Inl e)
  then have "\<not> contentOk dt ct"
    unfolding contentOk_def
    using columnRenames_iff [of "tName dt" "Columns dt" "Columns ct" "sortedColumnNames dt" "[]" "[]" "[]"]
    by force
  then show ?thesis using Inl by (simp add: diffColumns_def)
next
  case (Inr r)
  then have "contentOk dt ct"
    unfolding contentOk_def columnRenames_iff by blast
  then show ?thesis using Inr by (auto simp: diffColumns_def Let_def split: prod.splits)
qed

lemma diffTableContents_ok: "contentOk dt ct \<Longrightarrow> diffTableContents dt ct = Inr (contentOps dt ct)"
  using diffColumns_iff [of dt ct] by (auto simp: diffTableContents_def contentOps_def)

lemma diffTableContents_bad: "\<not> contentOk dt ct \<Longrightarrow> \<exists>e. diffTableContents dt ct = Inl e"
  using diffColumns_iff [of dt ct] by (cases "diffColumns dt ct") (auto simp: diffTableContents_def)

definition tableRenamesOk :: "Table gomap \<Rightarrow> string list \<Rightarrow> Table list \<Rightarrow> bool" where
  "tableRenamesOk cur consumed R \<longleftrightarrow>
     sourcesOk (fst ` set cur) consumed (map tRenamedFrom R) \<and>
     (\<forall>dt\<in>set R. \<forall>ct. gm_get cur (tRenamedFrom dt) = Some ct \<longrightarrow> contentOk dt ct)"

definition tableRenameOps :: "Table gomap \<Rightarrow> Table \<Rightarrow> operation list" where
  "tableRenameOps cur dt =
     RenameTable (tRenamedFrom dt) (tName dt) #
     (case gm_get cur (tRenamedFrom dt) of Some ct \<Rightarrow> contentOps dt ct | None \<Rightarrow> [])"

lemma tableRenames_iff:
  "tableRenames des cur names consumed handled out = Inr r \<longleftrightarrow>
     tableRenamesOk cur consumed (renamedTables des names) \<and>
     r = (rev (map tRenamedFrom (renamedTables des names)) @ consumed,
          rev (map tName (renamedTables des names)) @ handled,
          out @ concat (map (tableRenameOps cur) (renamedTables des names)))"
proof (induction names arbitrary: consumed handled out)
  case (Cons n names)
  show ?case
  proof (cases "gm_get des n")
    case (Some dt)
    show ?thesis
    proof (cases "tRenamedFrom dt = []")
      case False
      have ex: "tRenamedFrom dt \<in> fst ` set cur \<longleftrightarrow> gm_get cur (tRenamedFrom dt) \<noteq> None"
        by (metis map_of_eq_None_iff)
      show ?thesis
      proof (cases "gm_get cur (tRenamedFrom dt)")
        case (Some ct)
        then show ?thesis
          using \<open>gm_get des n = Some dt\<close> False Cons ex diffTableContents_ok [of dt ct] diffTableContents_bad [of dt ct]
          by (cases "contentOk dt ct")
             (auto simp: tableRenamesOk_def sourcesOk_Cons tableRenameOps_def)
      qed (use \<open>gm_get des n = Some dt\<close> False ex in \<open>simp add: tableRenamesOk_def sourcesOk_Cons\<close>)
    qed (simp add: Some Cons)
  qed (simp add: Cons)
qed (auto simp: tableRenamesOk_def)

text \<open>Pass 2.\<close>

definition tableMatchOps :: "Table gomap \<Rightarrow> Table gomap \<Rightarrow> string list \<Rightarrow> string \<Rightarrow> operation list" where
  "tableMatchOps des cur consumed name =
     (case gm_get des name of
        None \<Rightarrow> []
      | Some dt \<Rightarrow> (case matchedIn cur consumed name of
                     Some ct \<Rightarrow> contentOps dt ct
                   | None \<Rightarrow> CreateTable dt # diffConstraints dt None))"

definition tableMatchesOk :: "Table gomap \<Rightarrow> Table gomap \<Rightarrow> string list \<Rightarrow> string list \<Rightarrow> bool" where
  "tableMatchesOk des cur consumed names \<longleftrightarrow>
     (\<forall>n\<in>set names. \<forall>dt ct. gm_get des n = Some dt \<and> matchedIn cur consumed n = Some ct \<longrightarrow> contentOk dt ct)"

definition matchedNames :: "Table gomap \<Rightarrow> Table gomap \<Rightarrow> string list \<Rightarrow> string list \<Rightarrow> string list" where
  "matchedNames des cur consumed names =
     filter (\<lambda>n. gm_get des n \<noteq> None \<and> matchedIn cur consumed n \<noteq> None) names"

lemma tableMatches_iff:
  "tableMatches des cur consumed names matched out = Inr r \<longleftrightarrow>
     tableMatchesOk des cur consumed names \<and>
     r = (rev (matchedNames des cur consumed names) @ matched,
          out @ concat (map (tableMatchOps des cur consumed) names))"
proof (induction names arbitrary: matched out)
  case (Cons n names)
  show ?case
  proof (cases "gm_get des n")
    case (Some dt)
    show ?thesis
    proof (cases "matchedIn cur consumed n")
      case None
      then show ?thesis using Some Cons
        by (simp add: tableMatchesOk_def tableMatchOps_def matchedNames_def flip: matchedIn_def)
    next
      case (Some ct)
      then show ?thesis
        using \<open>gm_get des n = Some dt\<close> Cons diffTableContents_ok [of dt ct] diffTableContents_bad [of dt ct]
        by (cases "contentOk dt ct")
           (auto simp: tableMatchesOk_def tableMatchOps_def matchedNames_def simp flip: matchedIn_def)
    qed
  qed (simp add: Cons tableMatchesOk_def tableMatchOps_def matchedNames_def)
qed (auto simp: tableMatchesOk_def matchedNames_def)

section \<open>Declared renames\<close>

text \<open>When the declared renames make sense against the current schema.\<close>

abbreviation sourceTable :: "Schema \<Rightarrow> Schema \<Rightarrow> Table \<Rightarrow> Table option" where
  "sourceTable d c \<equiv> sourceOf tName tRenamedFrom (Tables d) (Tables c)"

abbreviation sourceColumn :: "Table \<Rightarrow> Table \<Rightarrow> Column \<Rightarrow> Column option" where
  "sourceColumn dt ct \<equiv> sourceOf cName cRenamedFrom (Columns dt) (Columns ct)"

definition wellFormedRenames :: "Schema \<Rightarrow> Schema \<Rightarrow> bool" where
  "wellFormedRenames d c \<longleftrightarrow>
     sourcesWf (Tables c) (renameSources tRenamedFrom (Tables d)) \<and>
     (\<forall>(_, dt)\<in>set (Tables d).
        case sourceTable d c dt of
          None \<Rightarrow> True
        | Some ct \<Rightarrow> sourcesWf (Columns ct) (renameSources cRenamedFrom (Columns dt)))"

lemma wf_schema_table:
  assumes "wf_schema s" "(k, t) \<in> set (Tables s)"
  shows "tName t = k" "gm_get (Tables s) k = Some t" "wf_table t"
  using assms keyed_by_in [of tName "Tables s" k t] by (auto simp: wf_schema_def)

lemma wf_schema_get: "wf_schema s \<Longrightarrow> gm_get (Tables s) k = Some t \<longleftrightarrow> (k, t) \<in> set (Tables s)"
  by (auto simp: wf_schema_def keyed_by_def gm_get_iff)

lemma contentOk_iff:
  assumes "wf_table dt"
  shows "contentOk dt ct \<longleftrightarrow> sourcesWf (Columns ct) (renameSources cRenamedFrom (Columns dt))"
  using assms
  by (simp add: contentOk_def sortedColumnNames_def sourcesOk_renamers wf_table_def keyed_by_def flip: renamersOf_def)

abbreviation consumedOf :: "Schema \<Rightarrow> string list" where
  "consumedOf d \<equiv> consumedBy tRenamedFrom (Tables d)"

abbreviation handledOf :: "Schema \<Rightarrow> string list" where
  "handledOf d \<equiv> handledBy tName tRenamedFrom (Tables d)"

abbreviation unhandledNames :: "Schema \<Rightarrow> string list" where
  "unhandledNames d \<equiv> unhandledBy tName tRenamedFrom (Tables d)"

lemma renamedTables_eq: "renamedTables (Tables d) (sortedTableNames d) = renamersOf tRenamedFrom (Tables d)"
  by (simp add: renamersOf_def sortedTableNames_def)

lemma DiffOps_iff:
  "DiffOps d c = Inr ops \<longleftrightarrow>
     tableRenamesOk (Tables c) [] (renamersOf tRenamedFrom (Tables d)) \<and>
     tableMatchesOk (Tables d) (Tables c) (consumedOf d) (unhandledNames d) \<and>
     ops = concat (map (tableRenameOps (Tables c)) (renamersOf tRenamedFrom (Tables d)))
           @ concat (map (tableMatchOps (Tables d) (Tables c) (consumedOf d)) (unhandledNames d))
           @ concat (map (tableDropOps (Tables c) (consumedOf d)
                           (rev (matchedNames (Tables d) (Tables c) (consumedOf d) (unhandledNames d))))
                         (sortedTableNames c))"
proof (cases "tableRenames (Tables d) (Tables c) (sortedTableNames d) [] [] []")
  case (Inl e)
  then show ?thesis
    using tableRenames_iff [of "Tables d" "Tables c" "sortedTableNames d" "[]" "[]" "[]"]
    by (force simp: DiffOps_def renamedTables_eq)
next
  case (Inr r)
  then have ok: "tableRenamesOk (Tables c) [] (renamersOf tRenamedFrom (Tables d))"
    and r: "r = (consumedOf d, handledOf d,
                 concat (map (tableRenameOps (Tables c)) (renamersOf tRenamedFrom (Tables d))))"
    by (simp_all add: tableRenames_iff renamedTables_eq consumedBy_def handledBy_def)
  show ?thesis
  proof (cases "tableMatches (Tables d) (Tables c) (consumedOf d) (unhandledNames d) []
                 (concat (map (tableRenameOps (Tables c)) (renamersOf tRenamedFrom (Tables d))))")
    case Inl: (Inl e)
    then have "\<not> tableMatchesOk (Tables d) (Tables c) (consumedOf d) (unhandledNames d)"
      using tableMatches_iff [THEN iffD2, OF conjI [OF _ refl]] by (metis sum.distinct(1))
    moreover have "DiffOps d c = Inl e"
      using Inl by (simp add: DiffOps_def Inr [unfolded sortedTableNames_def] r sortedTableNames_def flip: unhandledBy_def)
    ultimately show ?thesis by simp
  next
    case Inr': (Inr r')
    then have ok': "tableMatchesOk (Tables d) (Tables c) (consumedOf d) (unhandledNames d)"
      and r': "r' = (rev (matchedNames (Tables d) (Tables c) (consumedOf d) (unhandledNames d)),
                concat (map (tableRenameOps (Tables c)) (renamersOf tRenamedFrom (Tables d)))
                @ concat (map (tableMatchOps (Tables d) (Tables c) (consumedOf d)) (unhandledNames d)))"
      by (simp_all add: tableMatches_iff)
    have "DiffOps d c = Inr (snd r' @ concat (map (tableDropOps (Tables c) (consumedOf d) (fst r')) (sortedTableNames c)))"
      using Inr' by (simp add: DiffOps_def Inr [unfolded sortedTableNames_def] r r' sortedTableNames_def flip: unhandledBy_def)
    then show ?thesis using ok ok' r' by (simp add: eq_commute)
  qed
qed

section \<open>Success and failure\<close>

lemma renamesOk_iff:
  assumes "wf_schema d"
  shows "tableRenamesOk (Tables c) [] (renamersOf tRenamedFrom (Tables d)) \<and>
         tableMatchesOk (Tables d) (Tables c) (consumedOf d) (unhandledNames d) \<longleftrightarrow> wellFormedRenames d c"
proof -
  have keyed: "keyed_by tName (Tables d)" using assms by (simp add: wf_schema_def)
  define P where "P dt \<longleftrightarrow> (\<forall>ct. sourceTable d c dt = Some ct \<longrightarrow> contentOk dt ct)" for dt
  have ren: "tableRenamesOk (Tables c) [] (renamersOf tRenamedFrom (Tables d)) \<longleftrightarrow>
             sourcesWf (Tables c) (renameSources tRenamedFrom (Tables d)) \<and>
             (\<forall>n dt. (n, dt) \<in> set (Tables d) \<and> tRenamedFrom dt \<noteq> [] \<longrightarrow> P dt)"
    unfolding tableRenamesOk_def P_def sourcesOk_renamers [OF keyed_wf [OF keyed]]
    using set_renamersOf [OF keyed, of _ tRenamedFrom] keyed_name [OF keyed]
    by (auto simp: sourceOf_def)
  have key: "n \<in> set (unhandledNames d) \<and> gm_get (Tables d) n = Some dt \<longleftrightarrow>
             (n, dt) \<in> set (Tables d) \<and> tRenamedFrom dt = []" for n dt
    using set_unhandledBy [OF keyed, of n tRenamedFrom] keyed_get [OF keyed, of n] by (metis option.inject)
  have "tableMatchesOk (Tables d) (Tables c) (consumedOf d) (unhandledNames d) \<longleftrightarrow>
          (\<forall>n dt. (n, dt) \<in> set (Tables d) \<and> tRenamedFrom dt = [] \<longrightarrow>
             (\<forall>ct. matchedIn (Tables c) (consumedOf d) n = Some ct \<longrightarrow> contentOk dt ct))"
    unfolding tableMatchesOk_def using key by blast
  also have "\<dots> \<longleftrightarrow> (\<forall>n dt. (n, dt) \<in> set (Tables d) \<and> tRenamedFrom dt = [] \<longrightarrow> P dt)"
    unfolding P_def using sourceOf_unrenamed [OF keyed, where cur = "Tables c"] by (metis (lifting))
  finally have mat: "tableMatchesOk (Tables d) (Tables c) (consumedOf d) (unhandledNames d) \<longleftrightarrow>
                     (\<forall>n dt. (n, dt) \<in> set (Tables d) \<and> tRenamedFrom dt = [] \<longrightarrow> P dt)" .
  have "P dt \<longleftrightarrow> (case sourceTable d c dt of None \<Rightarrow> True
                 | Some ct \<Rightarrow> sourcesWf (Columns ct) (renameSources cRenamedFrom (Columns dt)))"
    if "(n, dt) \<in> set (Tables d)" for n dt
    using contentOk_iff wf_schema_table(3) [OF assms that] by (auto simp: P_def split: option.splits)
  then have "wellFormedRenames d c \<longleftrightarrow>
             sourcesWf (Tables c) (renameSources tRenamedFrom (Tables d)) \<and> (\<forall>n dt. (n, dt) \<in> set (Tables d) \<longrightarrow> P dt)"
    unfolding wellFormedRenames_def by fastforce
  then show ?thesis unfolding ren mat by blast
qed

text \<open>\<open>Diff\<close> answers with a plan exactly when the declared renames make sense: every rename source
  exists in the current schema (a table's, and a column's in the table it stems from) and no source
  is claimed twice; it never turns a malformed rename into a drop and an add.\<close>

theorem diff_total_on_wellformed_renames:
  assumes "wf_schema desired"
  shows "(\<exists>p. Diff desired current = Inr p) = wellFormedRenames desired current"
  unfolding Diff_iff DiffOps_iff renamesOk_iff [OF assms, symmetric] by blast

theorem diff_total_on_wellformed_renames_witness:
  "wf_schema exDesired \<and> (\<exists>p. Diff exDesired exCurrent = Inr p) \<and> wellFormedRenames exDesired exCurrent \<and>
   \<not> (\<exists>p. Diff exDesired exDesired = Inr p)"
proof -
  have wf: "wf_schema exDesired" by code_simp
  moreover have "wellFormedRenames exDesired exCurrent" "\<not> wellFormedRenames exDesired exDesired" by code_simp+
  ultimately show ?thesis
    using diff_total_on_wellformed_renames [OF wf, of exCurrent] diff_total_on_wellformed_renames [OF wf, of exDesired]
    by blast
qed

section \<open>What a plan holds\<close>

definition tableOps :: "Schema \<Rightarrow> Schema \<Rightarrow> Table \<Rightarrow> operation set" where
  "tableOps d c dt =
     (if tRenamedFrom dt \<noteq> [] then {RenameTable (tRenamedFrom dt) (tName dt)} else {}) \<union>
     (case sourceTable d c dt of
        Some ct \<Rightarrow> set (contentOps dt ct)
      | None \<Rightarrow> insert (CreateTable dt) (set (diffConstraints dt None)))"

abbreviation droppedTables :: "Schema \<Rightarrow> Schema \<Rightarrow> Table set" where
  "droppedTables d c \<equiv> unsourced tName tRenamedFrom (Tables d) (Tables c)"

lemma renamed_has_source:
  assumes "wellFormedRenames d c" "(n, dt) \<in> set (Tables d)" "tRenamedFrom dt \<noteq> []"
  shows "\<exists>ct. sourceTable d c dt = Some ct"
proof -
  have "tRenamedFrom dt \<in> set (renameSources tRenamedFrom (Tables d))"
    using assms(2,3) by (force simp: renameSources_def)
  then have "tRenamedFrom dt \<in> fst ` set (Tables c)"
    using assms(1) by (auto simp: wellFormedRenames_def sourcesWf_def)
  then show ?thesis using assms(3) by (auto simp: sourceOf_def) (metis weak_map_of_SomeI)
qed

lemma renamed_part:
  assumes "wf_schema d" "wellFormedRenames d c"
  shows "(\<Union>dt\<in>set (renamersOf tRenamedFrom (Tables d)). set (tableRenameOps (Tables c) dt))
         = (\<Union>(n, dt)\<in>{p \<in> set (Tables d). tRenamedFrom (snd p) \<noteq> []}. tableOps d c dt)"
proof -
  have keyed: "keyed_by tName (Tables d)" using assms(1) by (simp add: wf_schema_def)
  have "set (tableRenameOps (Tables c) dt) = tableOps d c dt"
    if "(n, dt) \<in> set (Tables d)" "tRenamedFrom dt \<noteq> []" for n dt
    using renamed_has_source [OF assms(2) that] that
    by (auto simp: tableRenameOps_def tableOps_def sourceOf_def)
  moreover have "dt \<in> set (renamersOf tRenamedFrom (Tables d)) \<longleftrightarrow>
                 (\<exists>n. (n, dt) \<in> set (Tables d)) \<and> tRenamedFrom dt \<noteq> []" for dt
    using set_renamersOf [OF keyed] keyed_name [OF keyed] by metis
  ultimately show ?thesis by fastforce
qed

lemma matched_part:
  assumes "wf_schema d"
  shows "(\<Union>n\<in>set (unhandledNames d). set (tableMatchOps (Tables d) (Tables c) (consumedOf d) n))
         = (\<Union>(n, dt)\<in>{p \<in> set (Tables d). tRenamedFrom (snd p) = []}. tableOps d c dt)"
proof -
  have keyed: "keyed_by tName (Tables d)" using assms by (simp add: wf_schema_def)
  have "set (tableMatchOps (Tables d) (Tables c) (consumedOf d) n) = tableOps d c dt"
    if "(n, dt) \<in> set (Tables d)" "tRenamedFrom dt = []" for n dt
    using that keyed_get [OF keyed, of n dt] sourceOf_unrenamed [where src = tRenamedFrom and cur = "Tables c", OF keyed that]
    by (simp add: tableMatchOps_def tableOps_def split: option.splits)
  then show ?thesis using set_unhandledBy [OF keyed, of _ tRenamedFrom] by fastforce
qed

lemma dropped_part:
  assumes "wf_schema d" "wf_schema c"
  shows "(\<Union>n\<in>set (sortedTableNames c). set (tableDropOps (Tables c) (consumedOf d)
            (rev (matchedNames (Tables d) (Tables c) (consumedOf d) (unhandledNames d))) n))
         = DropTable ` droppedTables d c"
proof -
  have kd: "keyed_by tName (Tables d)" and kc: "keyed_by tName (Tables c)"
    using assms by (simp_all add: wf_schema_def)
  have matched: "n \<in> set (matchedNames (Tables d) (Tables c) (consumedOf d) (unhandledNames d)) \<longleftrightarrow>
        n \<in> set (unhandledNames d) \<and> matchedIn (Tables c) (consumedOf d) n \<noteq> None" for n
    using set_unhandledBy [OF kd, of n tRenamedFrom] keyed_get [OF kd, of n] by (auto simp: matchedNames_def)
  have per: "set (tableDropOps (Tables c) (consumedOf d)
          (rev (matchedNames (Tables d) (Tables c) (consumedOf d) (unhandledNames d))) n)
        = (if ct \<in> droppedTables d c then {DropTable ct} else {})" if "(n, ct) \<in> set (Tables c)" for n ct
  proof -
    have n: "n = tName ct" using keyed_name [OF kc that] by simp
    have get: "gm_get (Tables c) (tName ct) = Some ct" using keyed_get [OF kc] that n by simp
    have "tName ct \<in> set (consumedOf d) \<or>
          tName ct \<in> set (rev (matchedNames (Tables d) (Tables c) (consumedOf d) (unhandledNames d)))
          \<longleftrightarrow> ct \<notin> droppedTables d c"
      using used_iff [OF kd kc, of ct tRenamedFrom] that n matched by simp
    then show ?thesis by (simp add: tableDropOps_def n get del: set_rev)
  qed
  have "(\<Union>n\<in>set (sortedTableNames c). set (tableDropOps (Tables c) (consumedOf d)
               (rev (matchedNames (Tables d) (Tables c) (consumedOf d) (unhandledNames d))) n))
             = (\<Union>p\<in>set (Tables c). if snd p \<in> droppedTables d c then {DropTable (snd p)} else {})"
    unfolding sortedTableNames_def set_sortedKeys image_image by (rule SUP_cong [OF refl]) (simp add: per)
  also have "\<dots> = DropTable ` {snd p |p. p \<in> set (Tables c) \<and> snd p \<in> droppedTables d c}"
    by auto
  also have "{snd p |p. p \<in> set (Tables c) \<and> snd p \<in> droppedTables d c} = droppedTables d c"
    by (force simp: unsourced_def)
  finally show ?thesis .
qed

lemma DiffOps_set:
  assumes d: "wf_schema d" and c: "wf_schema c" and ops: "DiffOps d c = Inr ops"
  shows "set ops = (\<Union>(n, dt)\<in>set (Tables d). tableOps d c dt) \<union> DropTable ` droppedTables d c"
proof -
  have "wellFormedRenames d c" using ops renamesOk_iff [OF d, of c] by (simp add: DiffOps_iff)
  note parts = renamed_part [OF d this] matched_part [OF d, of c] dropped_part [OF d c]
  have "set ops = (\<Union>(n, dt)\<in>{p \<in> set (Tables d). tRenamedFrom (snd p) \<noteq> []}. tableOps d c dt) \<union>
                  (\<Union>(n, dt)\<in>{p \<in> set (Tables d). tRenamedFrom (snd p) = []}. tableOps d c dt) \<union>
                  DropTable ` droppedTables d c"
    using ops parts by (simp add: DiffOps_iff Un_assoc)
  then show ?thesis by auto
qed

end
