(* ===== verification/DiffPlan.thy ===== *)
theory DiffPlan
  imports DiffFacts
begin

text \<open>
  The content of a plan, table by table and column by column, and what follows: a plan drops exactly
  the objects no desired object stems from, it is empty exactly on equivalent schemas, and its
  operations come in dependency order.
\<close>

section \<open>Columns\<close>

definition columnPart :: "Table \<Rightarrow> Table \<Rightarrow> operation list" where
  "columnPart dt ct =
     (let consumed = consumedBy cRenamedFrom (Columns dt);
          rest = unhandledBy cName cRenamedFrom (Columns dt)
      in concat (map (columnRenameOps (tName dt) (Columns ct)) (renamersOf cRenamedFrom (Columns dt)))
         @ concat (map (columnMatchOps (tName dt) (Columns dt) (Columns ct) consumed) rest)
         @ concat (map (columnDropOps (tName dt) (Columns ct) consumed
                          (filter (columnMatched (Columns ct) consumed) rest)) (sortedColumnNames ct)))"

lemma diffColumns_ok: "contentOk dt ct \<Longrightarrow> diffColumns dt ct = Inr (columnPart dt ct)"
  using columnRenames_iff [of "tName dt" "Columns dt" "Columns ct" "sortedColumnNames dt" "[]" "[]" "[]",
      THEN iffD2, OF conjI [OF _ refl]]
  by (simp add: contentOk_def diffColumns_def columnPart_def consumedBy_def unhandledBy_def handledBy_def
      renamersOf_def sortedColumnNames_def Let_def)

lemma contentOps_ok:
  "contentOk dt ct \<Longrightarrow> contentOps dt ct = columnPart dt ct @ diffPK dt ct @ diffConstraints dt (Some ct)"
  by (simp add: contentOps_def diffTableContents_def diffColumns_ok)

definition columnOps :: "Table \<Rightarrow> Table \<Rightarrow> Column \<Rightarrow> operation set" where
  "columnOps dt ct dc =
     (if cRenamedFrom dc \<noteq> [] then {RenameColumn (tName dt) (cRenamedFrom dc) (cName dc)} else {}) \<union>
     (case sourceColumn dt ct dc of
        Some cc \<Rightarrow> if columnAttrsEqual cc dc then {} else {AlterColumn (tName dt) cc dc}
      | None \<Rightarrow> {AddColumn (tName dt) dc})"

abbreviation droppedColumns :: "Table \<Rightarrow> Table \<Rightarrow> Column set" where
  "droppedColumns dt ct \<equiv> unsourced cName cRenamedFrom (Columns dt) (Columns ct)"

lemma column_has_source:
  assumes "sourcesWf (Columns ct) (renameSources cRenamedFrom (Columns dt))"
    and "(n, dc) \<in> set (Columns dt)" "cRenamedFrom dc \<noteq> []"
  shows "\<exists>cc. gm_get (Columns ct) (cRenamedFrom dc) = Some cc"
proof -
  have "cRenamedFrom dc \<in> set (renameSources cRenamedFrom (Columns dt))"
    using assms(2,3) by (force simp: renameSources_def)
  then have "cRenamedFrom dc \<in> fst ` set (Columns ct)"
    using assms(1) by (auto simp: sourcesWf_def)
  then show ?thesis by (auto intro: weak_map_of_SomeI)
qed

lemma column_rename_part:
  assumes "wf_table dt" "contentOk dt ct"
  shows "(\<Union>dc\<in>set (renamersOf cRenamedFrom (Columns dt)). set (columnRenameOps (tName dt) (Columns ct) dc))
         = (\<Union>(n, dc)\<in>{p \<in> set (Columns dt). cRenamedFrom (snd p) \<noteq> []}. columnOps dt ct dc)"
proof -
  have keyed: "keyed_by cName (Columns dt)" using assms(1) by (simp add: wf_table_def)
  have "set (columnRenameOps (tName dt) (Columns ct) dc) = columnOps dt ct dc"
    if dc: "(n, dc) \<in> set (Columns dt)" "cRenamedFrom dc \<noteq> []" for n dc
  proof -
    obtain cc where "gm_get (Columns ct) (cRenamedFrom dc) = Some cc"
      using column_has_source [of ct dt n dc] dc assms(2) contentOk_iff [OF assms(1)] by blast
    then show ?thesis using dc by (simp add: columnRenameOps_def columnOps_def sourceOf_def)
  qed
  moreover have "dc \<in> set (renamersOf cRenamedFrom (Columns dt)) \<longleftrightarrow>
                 (\<exists>n. (n, dc) \<in> set (Columns dt)) \<and> cRenamedFrom dc \<noteq> []" for dc
    using set_renamersOf [OF keyed] keyed_name [OF keyed] by metis
  ultimately show ?thesis by fastforce
qed

lemma column_match_part:
  assumes "wf_table dt"
  shows "(\<Union>n\<in>set (unhandledBy cName cRenamedFrom (Columns dt)).
            set (columnMatchOps (tName dt) (Columns dt) (Columns ct) (consumedBy cRenamedFrom (Columns dt)) n))
         = (\<Union>(n, dc)\<in>{p \<in> set (Columns dt). cRenamedFrom (snd p) = []}. columnOps dt ct dc)"
proof -
  have keyed: "keyed_by cName (Columns dt)" using assms by (simp add: wf_table_def)
  have "set (columnMatchOps (tName dt) (Columns dt) (Columns ct) (consumedBy cRenamedFrom (Columns dt)) n)
        = columnOps dt ct dc"
    if "(n, dc) \<in> set (Columns dt)" "cRenamedFrom dc = []" for n dc
    using that keyed_get [OF keyed, of n dc]
      sourceOf_unrenamed [where src = cRenamedFrom and cur = "Columns ct", OF keyed that]
    by (auto simp: columnMatchOps_def columnOps_def columnMatched_def matchedIn_def split: option.splits)
  then show ?thesis using set_unhandledBy [OF keyed, of _ cRenamedFrom] by fastforce
qed

lemma column_drop_part:
  assumes "wf_table dt" "wf_table ct"
  shows "(\<Union>n\<in>set (sortedColumnNames ct).
            set (columnDropOps (tName dt) (Columns ct) (consumedBy cRenamedFrom (Columns dt))
                  (filter (columnMatched (Columns ct) (consumedBy cRenamedFrom (Columns dt)))
                          (unhandledBy cName cRenamedFrom (Columns dt))) n))
         = DropColumn (tName dt) ` droppedColumns dt ct"
    (is "(\<Union>n\<in>_. set (columnDropOps _ _ ?cons ?matched n)) = _")
proof -
  have kd: "keyed_by cName (Columns dt)" and kc: "keyed_by cName (Columns ct)"
    using assms by (simp_all add: wf_table_def)
  have per: "set (columnDropOps (tName dt) (Columns ct) ?cons ?matched n)
             = (if cc \<in> droppedColumns dt ct then {DropColumn (tName dt) cc} else {})"
    if "(n, cc) \<in> set (Columns ct)" for n cc
  proof -
    have n: "n = cName cc" using keyed_name [OF kc that] by simp
    have get: "gm_get (Columns ct) (cName cc) = Some cc" using keyed_get [OF kc] that n by simp
    have "cName cc \<in> set ?cons \<or> cName cc \<in> set ?matched \<longleftrightarrow> cc \<notin> droppedColumns dt ct"
      using used_iff [OF kd kc, of cc cRenamedFrom] that n
      by (auto simp: columnMatched_def matchedIn_def)
    then show ?thesis by (simp add: columnDropOps_def n get)
  qed
  have "(\<Union>n\<in>set (sortedColumnNames ct). set (columnDropOps (tName dt) (Columns ct) ?cons ?matched n))
        = (\<Union>p\<in>set (Columns ct). if snd p \<in> droppedColumns dt ct then {DropColumn (tName dt) (snd p)} else {})"
    unfolding sortedColumnNames_def set_sortedKeys image_image by (rule SUP_cong [OF refl]) (simp add: per)
  also have "\<dots> = DropColumn (tName dt) ` {snd p |p. p \<in> set (Columns ct) \<and> snd p \<in> droppedColumns dt ct}"
    by auto
  also have "{snd p |p. p \<in> set (Columns ct) \<and> snd p \<in> droppedColumns dt ct} = droppedColumns dt ct"
    by (force simp: unsourced_def)
  finally show ?thesis .
qed

lemma columnPart_set:
  assumes "wf_table dt" "wf_table ct" "contentOk dt ct"
  shows "set (columnPart dt ct)
         = (\<Union>(n, dc)\<in>set (Columns dt). columnOps dt ct dc) \<union> DropColumn (tName dt) ` droppedColumns dt ct"
proof -
  have "set (columnPart dt ct)
        = (\<Union>(n, dc)\<in>{p \<in> set (Columns dt). cRenamedFrom (snd p) \<noteq> []}. columnOps dt ct dc) \<union>
          (\<Union>(n, dc)\<in>{p \<in> set (Columns dt). cRenamedFrom (snd p) = []}. columnOps dt ct dc) \<union>
          DropColumn (tName dt) ` droppedColumns dt ct"
    using column_rename_part [OF assms(1,3)] column_match_part [OF assms(1), of ct]
      column_drop_part [OF assms(1,2)]
    by (simp add: columnPart_def Let_def Un_assoc)
  then show ?thesis by auto
qed

section \<open>Constraints\<close>

lemma gm_get_dom: "gm_get m k = Some v \<Longrightarrow> k \<in> fst ` set m"
  by (metis map_of_eq_None_iff option.distinct(1))

lemma set_concat_keys:
  assumes "\<And>k. gm_get m k = None \<Longrightarrow> g k = []"
  shows "set (concat (map g (sortedKeys m))) = (\<Union>k. set (g k))"
proof -
  have out: "set (g k) = {}" if "k \<notin> fst ` set m" for k
    using assms [of k] that by (simp add: map_of_eq_None_iff)
  have "(\<Union>k. set (g k)) = (\<Union>k\<in>fst ` set m. set (g k)) \<union> (\<Union>k\<in>- (fst ` set m). set (g k))"
    by (metis Compl_partition UN_Un)
  also have "(\<Union>k\<in>- (fst ` set m). set (g k)) = {}"
    using out by simp
  finally show ?thesis by simp
qed

lemma set_keyedAdds: "set (keyedAdds mk des cur) = mk ` {v. \<exists>k. gm_get des k = Some v \<and> \<not> gm_has cur k}"
proof -
  let ?g = "\<lambda>k. if gm_has cur k then [] else (case gm_get des k of Some v \<Rightarrow> [mk v] | None \<Rightarrow> [])"
  have g: "set (?g k) = mk ` {v. gm_get des k = Some v \<and> \<not> gm_has cur k}" for k
    by (cases "gm_get des k") auto
  have "set (keyedAdds mk des cur) = (\<Union>k. set (?g k))"
    unfolding keyedAdds_def by (rule set_concat_keys) simp
  then show ?thesis unfolding g by blast
qed

lemma keyedAdds_Nil: "keyedAdds mk des cur = [] \<longleftrightarrow> fst ` set des \<subseteq> fst ` set cur"
proof -
  have "keyedAdds mk des cur = [] \<longleftrightarrow> set (keyedAdds mk des cur) = {}" by simp
  also have "\<dots> \<longleftrightarrow> {v. \<exists>k. gm_get des k = Some v \<and> \<not> gm_has cur k} = {}"
    unfolding set_keyedAdds by simp
  also have "\<dots> \<longleftrightarrow> (\<forall>k. gm_get des k \<noteq> None \<longrightarrow> gm_get cur k \<noteq> None)"
    by (auto simp: gm_has_def)
  also have "\<dots> \<longleftrightarrow> fst ` set des \<subseteq> fst ` set cur"
    unfolding subset_iff map_of_eq_None_iff by blast
  finally show ?thesis .
qed

definition fkChanged :: "ForeignKey \<Rightarrow> ForeignKey option \<Rightarrow> bool" where
  "fkChanged f other =
     (case other of None \<Rightarrow> True | Some g \<Rightarrow> OnDelete g \<noteq> OnDelete f \<or> OnUpdate g \<noteq> OnUpdate f)"

lemma set_diffFKs:
  "set (diffFKs table des cur) =
     AddForeignKey table ` {f. \<exists>k. gm_get des k = Some f \<and> fkChanged f (gm_get cur k)} \<union>
     DropForeignKey table ` {g. \<exists>k. gm_get cur k = Some g \<and> fkChanged g (gm_get des k)}"
proof -
  let ?g = "\<lambda>k. case gm_get des k of
                   None \<Rightarrow> []
                 | Some dfk \<Rightarrow>
                     (case gm_get cur k of
                        None \<Rightarrow> [AddForeignKey table dfk]
                      | Some cfk \<Rightarrow>
                          if OnDelete cfk \<noteq> OnDelete dfk \<or> OnUpdate cfk \<noteq> OnUpdate dfk
                          then [DropForeignKey table cfk, AddForeignKey table dfk] else [])"
  have g: "set (?g k) = AddForeignKey table ` {f. gm_get des k = Some f \<and> fkChanged f (gm_get cur k)} \<union>
             DropForeignKey table ` {g. gm_get cur k = Some g \<and> gm_get des k \<noteq> None \<and> fkChanged g (gm_get des k)}" for k
    by (cases "gm_get des k"; cases "gm_get cur k") (auto simp: fkChanged_def)
  have "set (concat (map ?g (sortedKeys des))) = (\<Union>k. set (?g k))"
    by (rule set_concat_keys) simp
  then have first: "set (concat (map ?g (sortedKeys des))) =
      AddForeignKey table ` {f. \<exists>k. gm_get des k = Some f \<and> fkChanged f (gm_get cur k)} \<union>
      DropForeignKey table ` {g. \<exists>k. gm_get cur k = Some g \<and> gm_get des k \<noteq> None \<and> fkChanged g (gm_get des k)}"
    by (simp only: g Collect_ex_eq image_UN UN_Un_distrib)
  have none: "fkChanged g None" for g by (simp add: fkChanged_def)
  have "{g. \<exists>k. gm_get cur k = Some g \<and> fkChanged g (gm_get des k)} =
      {g. \<exists>k. gm_get cur k = Some g \<and> gm_get des k \<noteq> None \<and> fkChanged g (gm_get des k)} \<union>
      {g. \<exists>k. gm_get cur k = Some g \<and> \<not> gm_has des k}"
    unfolding gm_has_def using none
    by (intro set_eqI) (simp only: mem_Collect_eq Un_iff, metis)
  then show ?thesis
    unfolding diffFKs_def set_append first set_keyedAdds by (simp only: image_Un Un_assoc)
qed

definition fkActions :: "ForeignKey \<Rightarrow> RefAction \<times> RefAction" where
  "fkActions f = (OnDelete f, OnUpdate f)"

lemma diffFKs_Nil:
  "diffFKs table des cur = [] \<longleftrightarrow>
     (\<forall>k. map_option fkActions (gm_get des k) = map_option fkActions (gm_get cur k))"
proof -
  have "diffFKs table des cur = [] \<longleftrightarrow> set (diffFKs table des cur) = {}" by simp
  also have "\<dots> \<longleftrightarrow> (\<forall>k. (\<forall>f. gm_get des k = Some f \<longrightarrow> \<not> fkChanged f (gm_get cur k)) \<and>
                       (\<forall>g. gm_get cur k = Some g \<longrightarrow> \<not> fkChanged g (gm_get des k)))"
    unfolding set_diffFKs by blast
  also have "\<dots> \<longleftrightarrow> (\<forall>k. map_option fkActions (gm_get des k) = map_option fkActions (gm_get cur k))"
  proof (rule all_cong1)
    fix k
    show "((\<forall>f. gm_get des k = Some f \<longrightarrow> \<not> fkChanged f (gm_get cur k)) \<and>
           (\<forall>g. gm_get cur k = Some g \<longrightarrow> \<not> fkChanged g (gm_get des k))) =
          (map_option fkActions (gm_get des k) = map_option fkActions (gm_get cur k))"
      by (cases "gm_get des k"; cases "gm_get cur k") (auto simp: fkChanged_def fkActions_def)
  qed
  finally show ?thesis .
qed

lemma indexBy_keys: "fst ` set (indexBy key m) = key ` snd ` set m"
proof -
  have "fst ` set (fold (\<lambda>(_, v). gm_put (key v) v) m acc) = key ` snd ` set m \<union> fst ` set acc" for acc
  proof (induction m arbitrary: acc)
    case (Cons p m)
    then show ?case by (simp add: split_beta gm_keys_put)
  qed simp
  then show ?thesis by (simp add: indexBy_def)
qed

lemma set_diffConstraints:
  "set (diffConstraints dt ct) =
     set (diffFKs (tName dt) (indexBy fkKey (FKs dt)) (indexBy fkKey (ctOf FKs ct))) \<union>
     AddUnique (tName dt) ` {v. \<exists>k. gm_get (indexBy uniqueKey (Uniques dt)) k = Some v \<and> \<not> gm_has (indexBy uniqueKey (ctOf Uniques ct)) k} \<union>
     DropUnique (tName dt) ` {v. \<exists>k. gm_get (indexBy uniqueKey (ctOf Uniques ct)) k = Some v \<and> \<not> gm_has (indexBy uniqueKey (Uniques dt)) k} \<union>
     AddCheck (tName dt) ` {v. \<exists>k. gm_get (indexBy ckExpression (Checks dt)) k = Some v \<and> \<not> gm_has (indexBy ckExpression (ctOf Checks ct)) k} \<union>
     DropCheck (tName dt) ` {v. \<exists>k. gm_get (indexBy ckExpression (ctOf Checks ct)) k = Some v \<and> \<not> gm_has (indexBy ckExpression (Checks dt)) k} \<union>
     DropExclusion (tName dt) ` {v. \<exists>k. gm_get (ctOf Exclusions ct) k = Some v \<and> \<not> gm_has (Exclusions dt) k} \<union>
     AddExclusion (tName dt) ` {v. \<exists>k. gm_get (Exclusions dt) k = Some v \<and> \<not> gm_has (ctOf Exclusions ct) k} \<union>
     AddIndex (tName dt) ` {v. \<exists>k. gm_get (indexBy indexKey (Indexes dt)) k = Some v \<and> \<not> gm_has (indexBy indexKey (ctOf Indexes ct)) k} \<union>
     DropIndex (tName dt) ` {v. \<exists>k. gm_get (indexBy indexKey (ctOf Indexes ct)) k = Some v \<and> \<not> gm_has (indexBy indexKey (Indexes dt)) k}"
  unfolding diffConstraints_def Let_def set_append set_keyedAdds Un_assoc ..

definition constraintKinds :: "OpKind set" where
  "constraintKinds = {OpAddPrimaryKey, OpDropPrimaryKey, OpAddForeignKey, OpDropForeignKey, OpAddUnique,
     OpDropUnique, OpAddCheck, OpDropCheck, OpAddExclusion, OpDropExclusion, OpAddIndex, OpDropIndex}"

lemma kind_diffConstraints: "op \<in> set (diffConstraints dt ct) \<Longrightarrow> Kind op \<in> constraintKinds"
  unfolding set_diffConstraints set_diffFKs constraintKinds_def by (elim UnE imageE) simp_all

lemma kind_diffPK: "op \<in> set (diffPK dt ct) \<Longrightarrow> Kind op \<in> constraintKinds"
  by (auto simp: diffPK_def constraintKinds_def split: option.splits if_splits)

lemma stringsEqual_iff: "stringsEqual as bs \<longleftrightarrow> as = bs"
  by (induction as bs rule: stringsEqual.induct) auto

lemma diffPK_Nil: "diffPK dt ct = [] \<longleftrightarrow> map_option pkColumns (PK dt) = map_option pkColumns (PK ct)"
  by (auto simp: diffPK_def stringsEqual_iff split: option.splits)

section \<open>Drops\<close>

lemma plan_ok:
  assumes "wf_schema d" "wf_schema c" "Diff d c = Inr p"
  shows "wellFormedRenames d c"
    and "set (Ops p) = (\<Union>(n, dt)\<in>set (Tables d). tableOps d c dt) \<union> DropTable ` droppedTables d c"
  using assms DiffOps_set [OF assms(1,2)] renamesOk_iff [OF assms(1), of c]
  by (auto simp: Diff_iff DiffOps_iff)

lemma sourced_ok:
  assumes "wf_schema d" "wf_schema c" "wellFormedRenames d c" "(n, dt) \<in> set (Tables d)" "sourceTable d c dt = Some ct"
  shows "wf_table dt" "wf_table ct" "contentOk dt ct" "tName dt = n"
proof -
  show dt: "wf_table dt" and "tName dt = n" using wf_schema_table [OF assms(1,4)] by simp_all
  have "\<exists>k. (k, ct) \<in> set (Tables c)"
    using assms(2,5) wf_schema_get [OF assms(2)] by (auto simp: sourceOf_def split: if_splits)
  then show "wf_table ct" using wf_schema_table(3) [OF assms(2)] by blast
  show "contentOk dt ct"
    using assms(3,4,5) contentOk_iff [OF dt] by (fastforce simp: wellFormedRenames_def)
qed

lemma DropColumn_content:
  assumes "wf_table dt" "wf_table ct" "contentOk dt ct"
  shows "DropColumn tb cc \<in> set (contentOps dt ct) \<longleftrightarrow> tb = tName dt \<and> cc \<in> droppedColumns dt ct"
proof -
  have "DropColumn tb cc \<notin> set (diffPK dt ct) \<union> set (diffConstraints dt (Some ct))"
    using kind_diffPK [of "DropColumn tb cc"] kind_diffConstraints [of "DropColumn tb cc"]
    by (auto simp: constraintKinds_def)
  moreover have "DropColumn tb cc \<notin> columnOps dt ct dc" for dc
    by (auto simp: columnOps_def split: option.splits if_splits)
  ultimately show ?thesis
    using contentOps_ok [OF assms(3)] columnPart_set [OF assms] by auto
qed

lemma DropTable_content: "contentOk dt ct \<Longrightarrow> wf_table dt \<Longrightarrow> wf_table ct \<Longrightarrow> DropTable t \<notin> set (contentOps dt ct)"
  using kind_diffPK [of "DropTable t" dt ct] kind_diffConstraints [of "DropTable t" dt "Some ct"]
    columnPart_set [of dt ct] contentOps_ok [of dt ct]
  by (auto simp: constraintKinds_def columnOps_def split: option.splits if_splits)

lemma exNotes_sourced:
  assumes "(''notes'', dt) \<in> set (Tables exDesired)" "sourceTable exDesired exCurrent dt = Some st"
  shows "\<exists>(n, dc)\<in>set (Columns dt). sourceColumn dt st dc = Some (exColumn ''body'' [] ''text'')"
proof -
  have "\<forall>(k, t)\<in>set (Tables exDesired). k = ''notes'' \<longrightarrow>
          (\<exists>(n, dc)\<in>set (Columns t). sourceColumn t (the (sourceTable exDesired exCurrent t)) dc
             = Some (exColumn ''body'' [] ''text''))" by code_simp
  then show ?thesis using assms by fastforce
qed

text \<open>C22: a plan drops a table exactly when no desired table stems from it, by name or by rename, and drops
  a column exactly when its table lives on and no desired column of it stems from that column: data is
  only ever dropped when the desired schema has no place for it.\<close>

theorem plan_drops_exactly_unsourced:
  assumes "wf_schema desired" "wf_schema current" "Diff desired current = Inr p"
  shows "(DropTable ct \<in> set (Ops p)) =
           ((tName ct, ct) \<in> set (Tables current) \<and>
            (\<forall>(n, dt)\<in>set (Tables desired). sourceTable desired current dt \<noteq> Some ct)) \<and>
         (DropColumn tb cc \<in> set (Ops p)) =
           (\<exists>dt st. (tb, dt) \<in> set (Tables desired) \<and> sourceTable desired current dt = Some st \<and>
              (cName cc, cc) \<in> set (Columns st) \<and>
              (\<forall>(n, dc)\<in>set (Columns dt). sourceColumn dt st dc \<noteq> Some cc))"
proof -
  note ok = plan_ok [OF assms]
  have tab: "DropTable ct \<notin> tableOps desired current dt" if "(n, dt) \<in> set (Tables desired)" for n dt
    using DropTable_content sourced_ok [OF assms(1,2) ok(1) that] kind_diffConstraints [of "DropTable ct" dt None]
    by (auto simp: tableOps_def constraintKinds_def split: option.splits)
  have col: "DropColumn tb cc \<in> tableOps desired current dt \<longleftrightarrow>
             tb = n \<and> (\<exists>st. sourceTable desired current dt = Some st \<and> cc \<in> droppedColumns dt st)"
    if "(n, dt) \<in> set (Tables desired)" for n dt
    using DropColumn_content sourced_ok [OF assms(1,2) ok(1) that] kind_diffConstraints [of "DropColumn tb cc" dt None]
    by (auto simp: tableOps_def constraintKinds_def split: option.splits)
  have "DropTable ct \<in> set (Ops p) \<longleftrightarrow> ct \<in> droppedTables desired current"
    unfolding ok(2) using tab by auto
  moreover have "DropColumn tb cc \<in> set (Ops p) \<longleftrightarrow>
     (\<exists>dt st. (tb, dt) \<in> set (Tables desired) \<and> sourceTable desired current dt = Some st \<and> cc \<in> droppedColumns dt st)"
    unfolding ok(2) using col by fastforce
  ultimately show ?thesis by (simp add: unsourced_def)
qed

theorem plan_drops_exactly_unsourced_witness:
  "\<exists>p. Diff exDesired exCurrent = Inr p \<and>
     DropTable (the (gm_get (Tables exCurrent) ''old'')) \<in> set (Ops p) \<and>
     DropColumn ''notes'' (exColumn ''body'' [] ''text'') \<notin> set (Ops p)"
proof -
  have "case Diff exDesired exCurrent of Inl _ \<Rightarrow> False | Inr _ \<Rightarrow> True" by code_simp
  then obtain p where p: "Diff exDesired exCurrent = Inr p" by (auto split: sum.splits)
  have wf: "wf_schema exDesired" "wf_schema exCurrent" by code_simp+
  have "DropTable (the (gm_get (Tables exCurrent) ''old'')) \<in> set (Ops p)"
    unfolding plan_drops_exactly_unsourced [OF wf p, THEN conjunct1] by code_simp
  moreover have "DropColumn ''notes'' (exColumn ''body'' [] ''text'') \<notin> set (Ops p)"
    unfolding plan_drops_exactly_unsourced [OF wf p, THEN conjunct2] using exNotes_sourced by blast
  ultimately show ?thesis using p by blast
qed

section \<open>The empty plan\<close>

text \<open>Two tables the diff must not tell apart: the same columns with the same attributes, the same key
  columns, foreign keys with the same endpoints and actions, and the same uniques, checks, exclusions
  and indexes up to the automatic symbols.\<close>

definition tableEquiv :: "Table \<Rightarrow> Table \<Rightarrow> bool" where
  "tableEquiv dt ct \<longleftrightarrow>
     fst ` set (Columns dt) = fst ` set (Columns ct) \<and>
     (\<forall>(n, dc)\<in>set (Columns dt). cRenamedFrom dc = [] \<and>
        (\<exists>cc. gm_get (Columns ct) n = Some cc \<and> columnAttrsEqual cc dc)) \<and>
     map_option pkColumns (PK dt) = map_option pkColumns (PK ct) \<and>
     (\<forall>k. map_option fkActions (gm_get (indexBy fkKey (FKs dt)) k) = map_option fkActions (gm_get (indexBy fkKey (FKs ct)) k)) \<and>
     uniqueKey ` snd ` set (Uniques dt) = uniqueKey ` snd ` set (Uniques ct) \<and>
     ckExpression ` snd ` set (Checks dt) = ckExpression ` snd ` set (Checks ct) \<and>
     fst ` set (Exclusions dt) = fst ` set (Exclusions ct) \<and>
     indexKey ` snd ` set (Indexes dt) = indexKey ` snd ` set (Indexes ct)"

definition schemaEquiv :: "Schema \<Rightarrow> Schema \<Rightarrow> bool" where
  "schemaEquiv d c \<longleftrightarrow>
     fst ` set (Tables d) = fst ` set (Tables c) \<and>
     (\<forall>(n, dt)\<in>set (Tables d). tRenamedFrom dt = [] \<and>
        (\<exists>ct. gm_get (Tables c) n = Some ct \<and> tableEquiv dt ct))"

lemma diffConstraints_Nil:
  "diffConstraints dt (Some ct) = [] \<longleftrightarrow>
     (\<forall>k. map_option fkActions (gm_get (indexBy fkKey (FKs dt)) k) = map_option fkActions (gm_get (indexBy fkKey (FKs ct)) k)) \<and>
     uniqueKey ` snd ` set (Uniques dt) = uniqueKey ` snd ` set (Uniques ct) \<and>
     ckExpression ` snd ` set (Checks dt) = ckExpression ` snd ` set (Checks ct) \<and>
     fst ` set (Exclusions dt) = fst ` set (Exclusions ct) \<and>
     indexKey ` snd ` set (Indexes dt) = indexKey ` snd ` set (Indexes ct)"
  unfolding diffConstraints_def Let_def append_is_Nil_conv keyedAdds_Nil diffFKs_Nil indexBy_keys ctOf_def
    option.simps(5) set_eq_subset by argo

lemma no_renames: "(\<forall>(n, v)\<in>set m. src v = []) \<Longrightarrow> renameSources src m = []"
  by (auto simp: renameSources_def filter_empty_conv)

lemma columnOps_empty:
  "columnOps dt ct dc = {} \<longleftrightarrow>
     cRenamedFrom dc = [] \<and> (\<exists>cc. sourceColumn dt ct dc = Some cc \<and> columnAttrsEqual cc dc)"
  by (auto simp: columnOps_def split: option.splits)

lemma sourceOf_plain:
  assumes "keyed_by nm des" "\<forall>(n, v)\<in>set des. src v = []" "(n, v) \<in> set des"
  shows "sourceOf nm src des cur v = gm_get cur n"
  using assms(2,3) no_renames [OF assms(2)] keyed_name [OF assms(1,3)] by (auto simp: sourceOf_def)

lemma unsourced_plain:
  assumes d: "keyed_by nm des" and c: "keyed_by nm cur" and none: "\<forall>(n, v)\<in>set des. src v = []"
  shows "unsourced nm src des cur = {} \<longleftrightarrow> fst ` set cur \<subseteq> fst ` set des"
proof -
  have "cv \<in> unsourced nm src des cur \<longleftrightarrow> (nm cv, cv) \<in> set cur \<and> nm cv \<notin> fst ` set des" for cv
  proof -
    have "sourceOf nm src des cur v = Some cv \<longleftrightarrow> n = nm cv \<and> (nm cv, cv) \<in> set cur" if "(n, v) \<in> set des" for n v
      unfolding sourceOf_plain [OF d none that] keyed_get [OF c] using keyed_name [OF c] by blast
    then have "(\<forall>(n, v)\<in>set des. sourceOf nm src des cur v \<noteq> Some cv) \<longleftrightarrow>
               (\<forall>(n, v)\<in>set des. \<not> (n = nm cv \<and> (nm cv, cv) \<in> set cur))"
      by blast
    moreover have "nm cv \<in> fst ` set des \<longleftrightarrow> (\<exists>v. (nm cv, v) \<in> set des)" by force
    ultimately show ?thesis unfolding unsourced_def mem_Collect_eq by blast
  qed
  then have "unsourced nm src des cur = {} \<longleftrightarrow> (\<forall>cv. (nm cv, cv) \<in> set cur \<longrightarrow> nm cv \<in> fst ` set des)"
    by blast
  also have "\<dots> \<longleftrightarrow> fst ` set cur \<subseteq> fst ` set des"
  proof -
    have "fst ` set cur = {nm cv |cv. (nm cv, cv) \<in> set cur}"
    proof (intro set_eqI iffI)
      fix k
      assume "k \<in> fst ` set cur"
      then obtain cv where "(k, cv) \<in> set cur" by auto
      then show "k \<in> {nm cv |cv. (nm cv, cv) \<in> set cur}" using keyed_name [OF c, of k cv] by auto
    qed force
    then show ?thesis by auto
  qed
  finally show ?thesis .
qed

text \<open>The shape both levels share: every desired object keeps its name, is found and passes \<open>ok\<close>, and no
  current object is left over.\<close>

lemma level_Nil:
  assumes d: "keyed_by nm des" and c: "keyed_by nm cur"
  shows "(\<forall>(n, v)\<in>set des. src v = [] \<and> (\<exists>cv. sourceOf nm src des cur v = Some cv \<and> ok v cv)) \<and>
         unsourced nm src des cur = {} \<longleftrightarrow>
         fst ` set des = fst ` set cur \<and>
         (\<forall>(n, v)\<in>set des. src v = [] \<and> (\<exists>cv. gm_get cur n = Some cv \<and> ok v cv))"
proof (cases "\<forall>(n, v)\<in>set des. src v = []")
  case True
  have "(\<forall>(n, v)\<in>set des. src v = [] \<and> (\<exists>cv. sourceOf nm src des cur v = Some cv \<and> ok v cv)) \<longleftrightarrow>
        (\<forall>(n, v)\<in>set des. src v = [] \<and> (\<exists>cv. gm_get cur n = Some cv \<and> ok v cv))" (is "_ \<longleftrightarrow> ?q")
    using sourceOf_plain [OF d True, of _ _ cur] by auto
  moreover have "?q \<longrightarrow> fst ` set des \<subseteq> fst ` set cur"
  proof (intro impI subsetI)
    fix k
    assume q: ?q and "k \<in> fst ` set des"
    then obtain v where "(k, v) \<in> set des" by auto
    then obtain cv where "gm_get cur k = Some cv" using q by auto
    then show "k \<in> fst ` set cur" by (rule gm_get_dom)
  qed
  ultimately show ?thesis unfolding unsourced_plain [OF d c True] unfolding set_eq_subset by argo
qed auto

lemma columnPart_Nil:
  assumes "wf_table dt" "wf_table ct" "contentOk dt ct"
  shows "columnPart dt ct = [] \<longleftrightarrow>
     fst ` set (Columns dt) = fst ` set (Columns ct) \<and>
     (\<forall>(n, dc)\<in>set (Columns dt). cRenamedFrom dc = [] \<and>
        (\<exists>cc. gm_get (Columns ct) n = Some cc \<and> columnAttrsEqual cc dc))"
proof -
  have kd: "keyed_by cName (Columns dt)" and kc: "keyed_by cName (Columns ct)"
    using assms by (simp_all add: wf_table_def)
  have "columnPart dt ct = [] \<longleftrightarrow> (\<forall>(n, dc)\<in>set (Columns dt). columnOps dt ct dc = {}) \<and> droppedColumns dt ct = {}"
    using columnPart_set [OF assms] by (auto simp flip: set_empty)
  then show ?thesis
    unfolding columnOps_empty level_Nil [OF kd kc, where ok = "\<lambda>dc cc. columnAttrsEqual cc dc"] .
qed

lemma contentOps_Nil:
  assumes "wf_table dt" "wf_table ct" "contentOk dt ct"
  shows "contentOps dt ct = [] \<longleftrightarrow> tableEquiv dt ct"
  using columnPart_Nil [OF assms] diffPK_Nil [of dt ct] diffConstraints_Nil [of dt ct]
  unfolding contentOps_ok [OF assms(3)] tableEquiv_def append_is_Nil_conv by argo



text \<open>a plan lists its operations phase by phase, renames first, then the drops with constraints before
  the columns and tables they hang on, then creates, adds and alters, foreign keys and exclusions last,
  and every operation the comparison emitted is in it exactly as often as it was emitted.\<close>

theorem plan_in_phase_order:
  assumes "Diff desired current = Inr p"
  shows "sorted (map phase (Ops p)) \<and> (\<exists>ops. DiffOps desired current = Inr ops \<and> mset (Ops p) = mset ops)"
  using assms sorted_planOf mset_planOf by (auto simp: Diff_iff)

theorem plan_in_phase_order_witness:
  "\<exists>p. Diff exDesired exCurrent = Inr p \<and> map Kind (Ops p) = [OpRenameColumn, OpDropTable, OpCreateTable] \<and>
     sorted (map phase (Ops p))"
proof -
  have "case Diff exDesired exCurrent of Inl _ \<Rightarrow> False
        | Inr p \<Rightarrow> map Kind (Ops p) = [OpRenameColumn, OpDropTable, OpCreateTable]" by code_simp
  then obtain p where p: "Diff exDesired exCurrent = Inr p" "map Kind (Ops p) = [OpRenameColumn, OpDropTable, OpCreateTable]"
    by (auto split: sum.splits)
  show ?thesis using p plan_in_phase_order [OF p(1), THEN conjunct1] by (intro exI [of _ p] conjI)
qed

end
