(* ===== verification/Graphs.thy ===== *)
theory Graphs
  imports Appx_Prelude "HOL-Library.Multiset"
begin

text \<open>
  The graph algorithms of \<open>pkg/schemadiff/order.go\<close>: Tarjan's strongly connected components, Kahn's
  topological order and their combination \<open>orderNodes\<close>.  A graph is a Go map from a node to its
  out-neighbours; an edge \<open>u \<rightarrow> v\<close> means that \<open>u\<close> comes before \<open>v\<close>.

  The recursion of \<open>strongconnect\<close> and the loop of \<open>kahnOrder\<close> carry fuel; one unit per node is enough
  for both (\<open>tarjanSCC_partition\<close>, \<open>kahnOrder_spec\<close> in \<open>GraphsCorrect\<close>).
\<close>

type_synonym graph = "string list gomap"

definition neighbours :: "graph \<Rightarrow> string \<Rightarrow> string list" where
  "neighbours g u = (case gm_get g u of Some vs \<Rightarrow> vs | None \<Rightarrow> [])"

section \<open>Strongly connected components\<close>

record tarjanState =
  tIndex :: nat
  idx :: "string \<Rightarrow> nat option"
  low :: "string \<Rightarrow> nat"
  onStack :: "string \<Rightarrow> bool"
  stack :: "string list"
  sccs :: "string list list"

definition tarjanInit :: tarjanState where
  "tarjanInit = \<lparr>tIndex = 0, idx = (\<lambda>_. None), low = (\<lambda>_. 0), onStack = (\<lambda>_. False), stack = [], sccs = []\<rparr>"

definition tarjanEnter :: "string \<Rightarrow> tarjanState \<Rightarrow> tarjanState" where
  "tarjanEnter v st =
     st\<lparr>idx := (idx st)(v := Some (tIndex st)), low := (low st)(v := tIndex st), tIndex := tIndex st + 1,
        stack := v # stack st, onStack := (onStack st)(v := True)\<rparr>"

definition idxOf :: "tarjanState \<Rightarrow> string \<Rightarrow> nat" where
  "idxOf st v = (case idx st v of Some i \<Rightarrow> i | None \<Rightarrow> 0)"

definition setLow :: "string \<Rightarrow> nat \<Rightarrow> tarjanState \<Rightarrow> tarjanState" where
  "setLow v n st = st\<lparr>low := (low st)(v := min (low st v) n)\<rparr>"

text \<open>The popping loop: the stack (top first) down to and including \<open>v\<close> is the component.\<close>

definition tarjanPop :: "string \<Rightarrow> tarjanState \<Rightarrow> tarjanState" where
  "tarjanPop v st =
     (let scc = takeWhile (\<lambda>w. w \<noteq> v) (stack st) @ [v] in
      st\<lparr>stack := tl (dropWhile (\<lambda>w. w \<noteq> v) (stack st)),
         onStack := (\<lambda>w. if w \<in> set scc then False else onStack st w),
         sccs := sccs st @ [scc]\<rparr>)"

fun strongconnect :: "nat \<Rightarrow> graph \<Rightarrow> string \<Rightarrow> tarjanState \<Rightarrow> tarjanState option"
and visitNeighbours :: "nat \<Rightarrow> graph \<Rightarrow> string \<Rightarrow> string list \<Rightarrow> tarjanState \<Rightarrow> tarjanState option" where
  "strongconnect 0 g v st = None"
| "strongconnect (Suc fuel) g v st =
     (case visitNeighbours fuel g v (neighbours g v) (tarjanEnter v st) of
        None \<Rightarrow> None
      | Some st' \<Rightarrow> Some (if low st' v = idxOf st' v then tarjanPop v st' else st'))"
| "visitNeighbours fuel g v [] st = Some st"
| "visitNeighbours fuel g v (w # ws) st =
     (if idx st w = None
      then (case strongconnect fuel g w st of
              None \<Rightarrow> None
            | Some st' \<Rightarrow> visitNeighbours fuel g v ws (setLow v (low st' w) st'))
      else if onStack st w then visitNeighbours fuel g v ws (setLow v (idxOf st w) st)
      else visitNeighbours fuel g v ws st)"

fun tarjanLoop :: "nat \<Rightarrow> graph \<Rightarrow> string list \<Rightarrow> tarjanState \<Rightarrow> tarjanState option" where
  "tarjanLoop fuel g [] st = Some st"
| "tarjanLoop fuel g (v # vs) st =
     (if idx st v = None
      then (case strongconnect fuel g v st of None \<Rightarrow> None | Some st' \<Rightarrow> tarjanLoop fuel g vs st')
      else tarjanLoop fuel g vs st)"

definition tarjanSCC :: "graph \<Rightarrow> string list \<Rightarrow> string list list option" where
  "tarjanSCC g nodes = map_option sccs (tarjanLoop (length nodes) g nodes tarjanInit)"

section \<open>Topological order\<close>

definition indegrees :: "graph \<Rightarrow> string list \<Rightarrow> string \<Rightarrow> nat" where
  "indegrees g nodes =
     fold (\<lambda>u. fold (\<lambda>v d. if v \<in> set nodes then d(v := d v + 1) else d) (neighbours g u)) nodes (\<lambda>_. 0)"

fun relax :: "string list \<Rightarrow> string list \<Rightarrow> (string \<Rightarrow> nat) \<Rightarrow> string list \<Rightarrow> (string \<Rightarrow> nat) \<times> string list" where
  "relax nodes [] indeg queue = (indeg, queue)"
| "relax nodes (v # vs) indeg queue =
     (if v \<notin> set nodes then relax nodes vs indeg queue
      else let d = indeg v - 1
           in relax nodes vs (indeg(v := d)) (if indeg v = 1 then queue @ [v] else queue))"

fun kahnLoop :: "nat \<Rightarrow> graph \<Rightarrow> string list \<Rightarrow> (string \<Rightarrow> nat) \<Rightarrow> string list \<Rightarrow> string list \<Rightarrow> string list option" where
  "kahnLoop fuel g nodes indeg [] order = Some order"
| "kahnLoop 0 g nodes indeg (u # queue) order = None"
| "kahnLoop (Suc fuel) g nodes indeg (u # queue) order =
     (let (indeg', queue') = relax nodes (neighbours g u) indeg queue
      in kahnLoop fuel g nodes indeg' (sort queue') (order @ [u]))"

definition kahnOrder :: "graph \<Rightarrow> string list \<Rightarrow> (string list \<times> bool) option" where
  "kahnOrder g nodes =
     (let indeg = indegrees g nodes;
          queue = sort (filter (\<lambda>n. indeg n = 0) nodes)
      in map_option (\<lambda>order. (order, length order = length nodes))
           (kahnLoop (length nodes) g nodes indeg queue []))"

section \<open>Ordering with cycles\<close>

text \<open>Component numbers are decimal strings; a Go slice has fewer than \<open>2 ^ 63\<close> elements, so reading one
  back never overflows.\<close>

definition compId :: "nat \<Rightarrow> string" where
  "compId i = nat_digits i"

fun compIndex :: "string list list \<Rightarrow> string \<Rightarrow> nat option" where
  "compIndex [] n = None"
| "compIndex (scc # comps) n =
     (case compIndex comps n of
        Some i \<Rightarrow> Some (Suc i)
      | None \<Rightarrow> if n \<in> set scc then Some 0 else None)"

definition sccOf :: "string list list \<Rightarrow> string \<Rightarrow> nat" where
  "sccOf comps n = (case compIndex comps n of Some i \<Rightarrow> i | None \<Rightarrow> 0)"

definition addEdge :: "nat \<Rightarrow> nat \<Rightarrow> graph \<Rightarrow> graph" where
  "addEdge su sv cond = gm_put (compId su) (neighbours cond (compId su) @ [compId sv]) cond"

fun condensePairs :: "string list list \<Rightarrow> (string \<times> string) list \<Rightarrow> (nat \<times> nat) list \<Rightarrow> graph \<Rightarrow> graph" where
  "condensePairs comps [] seen cond = cond"
| "condensePairs comps ((u, v) # es) seen cond =
     (let su = sccOf comps u; sv = sccOf comps v in
      if su = sv \<or> (su, sv) \<in> set seen then condensePairs comps es seen cond
      else condensePairs comps es ((su, sv) # seen) (addEdge su sv cond))"

definition edgeList :: "graph \<Rightarrow> (string \<times> string) list" where
  "edgeList g = concat (map (\<lambda>(u, vs). map (Pair u) vs) g)"

definition condensation :: "string list list \<Rightarrow> graph \<Rightarrow> graph" where
  "condensation comps g = condensePairs comps (edgeList g) [] []"

datatype orderError = CyclicCondensation | OutOfFuel

definition orderNodesOf :: "graph \<Rightarrow> string list list \<Rightarrow> orderError + string list" where
  "orderNodesOf g comps =
     (case kahnOrder (condensation comps g) (map compId [0..<length comps]) of
        None \<Rightarrow> Inl OutOfFuel
      | Some (condOrder, ok) \<Rightarrow>
          if \<not> ok then Inl CyclicCondensation
          else Inr (concat (map (\<lambda>cid. sort (comps ! digits_val cid)) condOrder)))"

definition orderNodesWith ::
  "(graph \<Rightarrow> string list \<Rightarrow> string list list option) \<Rightarrow> graph \<Rightarrow> string list \<Rightarrow>
   orderError + (string list \<times> string list list)" where
  "orderNodesWith finder g nodes =
     (case finder g nodes of
        None \<Rightarrow> Inl OutOfFuel
      | Some comps \<Rightarrow>
          (case orderNodesOf g comps of Inl e \<Rightarrow> Inl e | Inr order \<Rightarrow> Inr (order, comps)))"

definition orderNodes :: "graph \<Rightarrow> string list \<Rightarrow> orderError + (string list \<times> string list list)" where
  "orderNodes = orderNodesWith tarjanSCC"

end
