(* ===== verification/GraphsCorrect.thy ===== *)
theory GraphsCorrect
  imports Graphs
begin

text \<open>
  Correctness of the graph algorithms: \<open>kahnOrder\<close> is total and topological, and complete on acyclic
  graphs; \<open>tarjanSCC\<close> is total and partitions the nodes; \<open>orderNodes\<close> permutes the nodes and respects
  every edge between different components.
\<close>

section \<open>Kahn\<close>

definition pending :: "graph \<Rightarrow> string set \<Rightarrow> string \<Rightarrow> nat" where
  "pending g us v = (\<Sum>u\<in>us. count_list (neighbours g u) v)"

lemma inner_count:
  "fold (\<lambda>v d. if v \<in> N then d(v := d v + 1) else d) vs d x = d x + (if x \<in> N then count_list vs x else 0)"
  for d :: "string \<Rightarrow> nat"
  by (induction vs arbitrary: d) auto

lemma indegrees_pending:
  assumes "distinct nodes"
  shows "indegrees g nodes v = (if v \<in> set nodes then pending g (set nodes) v else 0)"
proof -
  have "fold (\<lambda>u. fold (\<lambda>v d. if v \<in> N then d(v := d v + 1) else d) (neighbours g u)) us d v
        = d v + (if v \<in> N then \<Sum>u\<leftarrow>us. count_list (neighbours g u) v else 0)" for us N and d :: "string \<Rightarrow> nat"
    by (induction us arbitrary: d) (auto simp: inner_count)
  then show ?thesis
    using assms by (simp add: indegrees_def pending_def sum_list_distinct_conv_sum_set)
qed

lemma relax_spec:
  assumes "\<forall>v\<in>set nodes. count_list vs v \<le> indeg v"
  shows "\<exists>new. relax nodes vs indeg queue =
           ((\<lambda>v. if v \<in> set nodes then indeg v - count_list vs v else indeg v), queue @ new) \<and>
           distinct new \<and> set new = {v \<in> set nodes. v \<in> set vs \<and> count_list vs v = indeg v}"
  using assms
proof (induction vs arbitrary: indeg queue)
  case (Cons v vs)
  show ?case
  proof (cases "v \<in> set nodes")
    case False
    then have "\<forall>x\<in>set nodes. count_list vs x \<le> indeg x" using Cons.prems by (metis count_list.simps(2))
    from Cons.IH [OF this, of queue] obtain new where
      "relax nodes vs indeg queue =
         ((\<lambda>v. if v \<in> set nodes then indeg v - count_list vs v else indeg v), queue @ new)"
      "distinct new" "set new = {v \<in> set nodes. v \<in> set vs \<and> count_list vs v = indeg v}" by blast
    with False show ?thesis by (intro exI [of _ new]) (auto simp: fun_eq_iff)
  next
    case True
    let ?d = "indeg(v := indeg v - 1)"
    let ?q = "if indeg v = 1 then queue @ [v] else queue"
    have le: "Suc (count_list vs v) \<le> indeg v" using Cons.prems True by auto
    then have "\<forall>x\<in>set nodes. count_list vs x \<le> ?d x" using Cons.prems by auto
    from Cons.IH [OF this, of ?q] obtain new where new:
      "relax nodes vs ?d ?q = ((\<lambda>x. if x \<in> set nodes then ?d x - count_list vs x else ?d x), ?q @ new)"
      "distinct new" "set new = {x \<in> set nodes. x \<in> set vs \<and> count_list vs x = ?d x}" by blast
    have eq: "(\<lambda>x. if x \<in> set nodes then ?d x - count_list vs x else ?d x)
              = (\<lambda>x. if x \<in> set nodes then indeg x - count_list (v # vs) x else indeg x)"
      using True le by (auto simp: fun_eq_iff)
    have zero: "count_list vs x = 0 \<longleftrightarrow> x \<notin> set vs" for x by (simp add: count_list_0_iff)
    show ?thesis
    proof (cases "indeg v = 1")
      case True
      then have v: "v \<notin> set vs" using le zero by auto
      have "relax nodes (v # vs) indeg queue =
          ((\<lambda>x. if x \<in> set nodes then indeg x - count_list (v # vs) x else indeg x), queue @ (v # new))"
        using new(1) eq True \<open>v \<in> set nodes\<close> by (simp add: Let_def)
      moreover have "distinct (v # new)" using new(2,3) v by auto
      moreover have "set (v # new) = {x \<in> set nodes. x \<in> set (v # vs) \<and> count_list (v # vs) x = indeg x}"
      proof -
        have "x \<noteq> v \<Longrightarrow> x \<in> set new \<longleftrightarrow> x \<in> set nodes \<and> x \<in> set (v # vs) \<and> count_list (v # vs) x = indeg x" for x
          unfolding new(3) by simp
        moreover have "count_list (v # vs) v = indeg v" using v True zero [of v] by simp
        ultimately show ?thesis using \<open>v \<in> set nodes\<close> by fastforce
      qed
      ultimately show ?thesis by blast
    next
      case False
      have "relax nodes (v # vs) indeg queue =
          ((\<lambda>x. if x \<in> set nodes then indeg x - count_list (v # vs) x else indeg x), queue @ new)"
        using new(1) eq False \<open>v \<in> set nodes\<close> by (simp add: Let_def)
      moreover have "set new = {x \<in> set nodes. x \<in> set (v # vs) \<and> count_list (v # vs) x = indeg x}"
      proof -
        have "x \<noteq> v \<Longrightarrow> x \<in> set new \<longleftrightarrow> x \<in> set nodes \<and> x \<in> set (v # vs) \<and> count_list (v # vs) x = indeg x" for x
          unfolding new(3) by simp
        moreover have "v \<in> set new \<longleftrightarrow> count_list (v # vs) v = indeg v"
        proof -
          have "count_list vs v = indeg v - 1 \<longleftrightarrow> Suc (count_list vs v) = indeg v" using le by arith
          moreover have "Suc (count_list vs v) = indeg v \<Longrightarrow> v \<in> set vs"
            using False zero [of v] by (metis One_nat_def)
          ultimately show ?thesis unfolding new(3) using \<open>v \<in> set nodes\<close> by auto
        qed
        ultimately have "x \<in> set new \<longleftrightarrow> x \<in> set nodes \<and> x \<in> set (v # vs) \<and> count_list (v # vs) x = indeg x" for x
          using \<open>v \<in> set nodes\<close> by (cases "x = v") simp_all
        then show ?thesis by blast
      qed
      ultimately show ?thesis using new(2) by blast
    qed
  qed
qed auto

text \<open>The loop invariant: the emitted and queued nodes are exactly those whose remaining in-degree is
  zero, and every emitted node comes after all its predecessors.\<close>

definition topological :: "graph \<Rightarrow> string set \<Rightarrow> string list \<Rightarrow> bool" where
  "topological g nodes order \<longleftrightarrow>
     (\<forall>i<length order. \<forall>u\<in>nodes. order ! i \<in> set (neighbours g u) \<longrightarrow> u \<in> set (take i order))"

definition kahnInv :: "graph \<Rightarrow> string list \<Rightarrow> (string \<Rightarrow> nat) \<Rightarrow> string list \<Rightarrow> string list \<Rightarrow> bool" where
  "kahnInv g nodes indeg queue order \<longleftrightarrow>
     distinct (order @ queue) \<and> set (order @ queue) \<subseteq> set nodes \<and>
     (\<forall>v\<in>set nodes. indeg v = pending g (set nodes - set order) v) \<and>
     (\<forall>v\<in>set nodes. v \<in> set (order @ queue) \<longleftrightarrow> indeg v = 0) \<and>
     topological g (set nodes) order"

lemma topological_snoc:
  "topological g N (order @ [u]) \<longleftrightarrow>
     topological g N order \<and> (\<forall>w\<in>N. u \<in> set (neighbours g w) \<longrightarrow> w \<in> set order)"
  by (auto simp: topological_def nth_append less_Suc_eq)

lemma pending_zero: "finite us \<Longrightarrow> pending g us v = 0 \<longleftrightarrow> (\<forall>u\<in>us. v \<notin> set (neighbours g u))"
  by (simp add: pending_def count_list_0_iff)

lemma kahnInv_init:
  assumes "distinct nodes"
  shows "kahnInv g nodes (indegrees g nodes) (sort (filter (\<lambda>n. indegrees g nodes n = 0) nodes)) []"
  using assms by (simp add: kahnInv_def indegrees_pending topological_def)

lemma kahnInv_step:
  assumes inv: "kahnInv g nodes indeg (u # queue) order"
  obtains indeg' queue' where "relax nodes (neighbours g u) indeg queue = (indeg', queue')"
    and "kahnInv g nodes indeg' (sort queue') (order @ [u])"
proof -
  let ?S = "set nodes - set order"
  have u: "u \<in> set nodes" "u \<notin> set order" "indeg u = 0" and S: "u \<in> ?S"
    using inv by (auto simp: kahnInv_def)
  have split: "pending g ?S v = count_list (neighbours g u) v + pending g (?S - {u}) v" for v
    unfolding pending_def using S by (simp add: sum.remove)
  have "\<forall>v\<in>set nodes. count_list (neighbours g u) v \<le> indeg v"
    using inv split by (simp add: kahnInv_def)
  from relax_spec [OF this, of queue] obtain new where
    rel: "relax nodes (neighbours g u) indeg queue =
       ((\<lambda>v. if v \<in> set nodes then indeg v - count_list (neighbours g u) v else indeg v), queue @ new)"
    and dn: "distinct new"
    and new: "set new = {v \<in> set nodes. v \<in> set (neighbours g u) \<and> count_list (neighbours g u) v = indeg v}" by blast
  let ?d = "\<lambda>v. if v \<in> set nodes then indeg v - count_list (neighbours g u) v else indeg v"
  have d: "?d v = pending g (?S - {u}) v" if "v \<in> set nodes" for v
    using inv split that by (simp add: kahnInv_def)
  have pos: "indeg v > 0" if "v \<in> set new" for v
    using that new count_list_0_iff [of "neighbours g u" v] by auto
  have preds: "\<forall>w\<in>set nodes. u \<in> set (neighbours g w) \<longrightarrow> w \<in> set order"
    using inv u pending_zero [of ?S g u] by (auto simp: kahnInv_def)
  have dis: "set new \<inter> set (order @ u # queue) = {}"
  proof -
    have "indeg v = 0" if "v \<in> set (order @ u # queue)" for v
      using that inv unfolding kahnInv_def by blast
    then show ?thesis using pos by force
  qed
  have zero: "v \<in> set (order @ [u] @ queue @ new) \<longleftrightarrow> ?d v = 0" if "v \<in> set nodes" for v
  proof -
    have "indeg v - count_list (neighbours g u) v = 0 \<longleftrightarrow> indeg v = 0 \<or> v \<in> set new"
      using that new split [of v] inv count_list_0_iff [of "neighbours g u" v]
      by (auto simp: kahnInv_def)
    then show ?thesis using inv that by (auto simp: kahnInv_def)
  qed
  have diff: "?S - {u} = set nodes - set (order @ [u])" by auto
  have "distinct ((order @ [u]) @ sort (queue @ new))"
    using inv dn dis by (auto simp: kahnInv_def)
  moreover have "set ((order @ [u]) @ sort (queue @ new)) \<subseteq> set nodes"
    using inv new by (auto simp: kahnInv_def)
  moreover have "\<forall>v\<in>set nodes. ?d v = pending g (set nodes - set (order @ [u])) v"
    using d unfolding diff by blast
  moreover have "\<forall>v\<in>set nodes. v \<in> set ((order @ [u]) @ sort (queue @ new)) \<longleftrightarrow> ?d v = 0"
    using zero by simp
  moreover have "topological g (set nodes) (order @ [u])"
    using inv preds unfolding topological_snoc by (simp add: kahnInv_def)
  ultimately have "kahnInv g nodes ?d (sort (queue @ new)) (order @ [u])"
    unfolding kahnInv_def by blast
  then show ?thesis using that rel by blast
qed

lemma kahnLoop_spec:
  assumes "kahnInv g nodes indeg queue order" "distinct nodes" "length nodes \<le> fuel + length order"
  shows "\<exists>out. kahnLoop fuel g nodes indeg queue order = Some out \<and>
           (\<exists>indeg'. kahnInv g nodes indeg' [] out)"
  using assms
proof (induction fuel g nodes indeg queue order rule: kahnLoop.induct)
  case (2 g nodes indeg u queue order)
  then have "length (order @ u # queue) \<le> length nodes"
    by (metis kahnInv_def card_mono distinct_card List.finite_set)
  then show ?case using 2 by simp
next
  case (3 fuel g nodes indeg u queue order)
  obtain indeg' queue' where step: "relax nodes (neighbours g u) indeg queue = (indeg', queue')"
    "kahnInv g nodes indeg' (sort queue') (order @ [u])"
    using kahnInv_step [OF 3(2)] .
  then show ?case using 3 by simp
qed auto

lemma kahnOrder_spec:
  assumes "distinct nodes"
  obtains order where
    "kahnOrder g nodes = Some (order, set order = set nodes)"
    "distinct order" "set order \<subseteq> set nodes" "topological g (set nodes) order"
    "\<forall>v\<in>set nodes - set order. \<exists>u\<in>set nodes - set order. v \<in> set (neighbours g u)"
proof -
  from kahnLoop_spec [OF kahnInv_init [OF assms, of g] assms, of "length nodes"] obtain out indeg' where
    out: "kahnLoop (length nodes) g nodes (indegrees g nodes)
            (sort (filter (\<lambda>n. indegrees g nodes n = 0) nodes)) [] = Some out"
    and inv: "kahnInv g nodes indeg' [] out" by auto
  have dist: "distinct out" and sub: "set out \<subseteq> set nodes" and top: "topological g (set nodes) out"
    using inv by (auto simp: kahnInv_def)
  have "length out = length nodes \<longleftrightarrow> set out = set nodes"
    using dist sub assms by (metis List.finite_set card_subset_eq distinct_card)
  moreover have "\<forall>v\<in>set nodes - set out. \<exists>u\<in>set nodes - set out. v \<in> set (neighbours g u)"
    using inv pending_zero [of "set nodes - set out" g] by (fastforce simp: kahnInv_def)
  ultimately show ?thesis
    using that [of out] out dist sub top by (simp add: kahnOrder_def Let_def)
qed

section \<open>Tarjan\<close>

text \<open>
  The invariant of the search below a depth \<open>base\<close>: the visited nodes are the disjoint union of the
  stack and the finished components, and nothing on the stack reaches below \<open>base\<close>.
\<close>

definition visited :: "tarjanState \<Rightarrow> string set" where
  "visited st = {w. idx st w \<noteq> None}"

definition tarjanInv :: "nat \<Rightarrow> string set \<Rightarrow> tarjanState \<Rightarrow> bool" where
  "tarjanInv base U st \<longleftrightarrow>
     distinct (stack st) \<and> distinct (concat (sccs st)) \<and> set (stack st) \<inter> set (concat (sccs st)) = {} \<and>
     visited st = set (stack st) \<union> set (concat (sccs st)) \<and> visited st \<subseteq> U \<and>
     (\<forall>w. onStack st w \<longleftrightarrow> w \<in> set (stack st)) \<and>
     (\<forall>w\<in>set (stack st). base \<le> low st w \<and> base \<le> idxOf st w) \<and> base \<le> tIndex st \<and> [] \<notin> set (sccs st)"

definition extends :: "tarjanState \<Rightarrow> tarjanState \<Rightarrow> bool" where
  "extends st st' \<longleftrightarrow>
     (\<exists>xs. stack st' = xs @ stack st) \<and>
     (\<forall>w\<in>visited st. idx st' w = idx st w \<and> low st' w \<le> low st w)"

lemma extends_refl [simp]: "extends st st"
  by (simp add: extends_def)

lemma extends_trans: "extends a b \<Longrightarrow> extends b c \<Longrightarrow> extends a c"
  unfolding extends_def visited_def
  by (intro conjI) (metis append.assoc, metis (mono_tags, lifting) mem_Collect_eq order_trans)

lemma extends_visited: "extends a b \<Longrightarrow> visited a \<subseteq> visited b"
  by (auto simp: extends_def visited_def)

lemma enter_inv:
  assumes "tarjanInv base U st" "idx st v = None" "v \<in> U"
  shows "tarjanInv base U (tarjanEnter v st) \<and> visited (tarjanEnter v st) = insert v (visited st)"
proof -
  have "v \<notin> visited st" using assms(2) by (simp add: visited_def)
  then have "v \<notin> set (stack st)" "v \<notin> set (concat (sccs st))"
    using assms(1) by (auto simp: tarjanInv_def)
  then show ?thesis
    using assms by (auto simp: tarjanInv_def tarjanEnter_def visited_def idxOf_def)
qed

lemma setLow_inv: "tarjanInv base U st \<Longrightarrow> base \<le> n \<Longrightarrow> tarjanInv base U (setLow v n st)"
  by (auto simp: tarjanInv_def setLow_def visited_def idxOf_def)

lemma setLow_extends: "extends st (setLow v n st)"
  by (auto simp: extends_def setLow_def visited_def)

lemma setLow_simps [simp]:
  "stack (setLow v n st) = stack st" "visited (setLow v n st) = visited st"
  by (simp_all add: setLow_def visited_def)

lemma pop_inv:
  assumes inv: "tarjanInv base U st" and stk: "stack st = xs @ v # ys"
  shows "tarjanInv base U (tarjanPop v st) \<and> stack (tarjanPop v st) = ys \<and>
         visited (tarjanPop v st) = visited st \<and> idx (tarjanPop v st) = idx st \<and> low (tarjanPop v st) = low st"
proof -
  have v: "v \<notin> set xs" using inv stk by (auto simp: tarjanInv_def)
  then have "takeWhile (\<lambda>w. w \<noteq> v) (stack st) = xs" "dropWhile (\<lambda>w. w \<noteq> v) (stack st) = v # ys"
    unfolding stk by (subst takeWhile_append2 dropWhile_append2; fastforce)+
  then have pop: "tarjanPop v st = st\<lparr>stack := ys,
      onStack := (\<lambda>w. if w \<in> set (xs @ [v]) then False else onStack st w), sccs := sccs st @ [xs @ [v]]\<rparr>"
    by (simp add: tarjanPop_def)
  show ?thesis
    unfolding pop
  proof (intro conjI)
    have "{w. \<exists>y. idx st w = Some y} = set xs \<union> {v} \<union> set ys \<union> set (concat (sccs st))"
      using inv stk by (auto simp: tarjanInv_def visited_def)
    moreover have "{w. \<exists>y. idx st w = Some y} \<subseteq> U" using inv by (auto simp: tarjanInv_def visited_def)
    ultimately show "tarjanInv base U (st\<lparr>stack := ys,
      onStack := (\<lambda>w. if w \<in> set (xs @ [v]) then False else onStack st w), sccs := sccs st @ [xs @ [v]]\<rparr>)"
      using inv stk by (simp add: tarjanInv_def visited_def idxOf_def) auto
  qed (simp_all add: visited_def)
qed

definition closedUnder :: "graph \<Rightarrow> string set \<Rightarrow> bool" where
  "closedUnder g U \<longleftrightarrow> finite U \<and> (\<forall>u\<in>U. set (neighbours g u) \<subseteq> U)"

definition connectOk :: "graph \<Rightarrow> string set \<Rightarrow> nat \<Rightarrow> bool" where
  "connectOk g U fuel \<longleftrightarrow>
     (\<forall>base v st. tarjanInv base U st \<and> idx st v = None \<and> v \<in> U \<and> card (U - visited st) \<le> fuel \<longrightarrow>
        (\<exists>st'. strongconnect fuel g v st = Some st' \<and> tarjanInv base U st' \<and> extends st st' \<and>
               v \<in> visited st' \<and> base \<le> low st' v \<and> (stack st = [] \<and> base = tIndex st \<longrightarrow> stack st' = [])))"

lemma visit_ok:
  assumes ok: "connectOk g U fuel" and fin: "finite U"
  shows "tarjanInv base U st \<Longrightarrow> v \<in> set (stack st) \<Longrightarrow> set ws \<subseteq> U \<Longrightarrow> card (U - visited st) \<le> fuel \<Longrightarrow>
         \<exists>st'. visitNeighbours fuel g v ws st = Some st' \<and> tarjanInv base U st' \<and> extends st st'"
proof (induction ws arbitrary: st)
  case (Cons w ws)
  show ?case
  proof (cases "idx st w = None")
    case True
    then obtain st1 where st1: "strongconnect fuel g w st = Some st1" "tarjanInv base U st1" "extends st st1"
      "base \<le> low st1 w"
      using ok Cons.prems unfolding connectOk_def by (metis insert_subset list.simps(15))
    let ?st2 = "setLow v (low st1 w) st1"
    have inv2: "tarjanInv base U ?st2" using st1 by (simp add: setLow_inv)
    have "v \<in> set (stack ?st2)" using st1(3) Cons.prems(2) by (auto simp: extends_def)
    moreover have "card (U - visited ?st2) \<le> fuel"
      using Cons.prems(4) extends_visited [OF st1(3)] fin
      by (simp, meson Diff_mono card_mono finite_Diff order.trans subset_refl)
    ultimately obtain st' where "visitNeighbours fuel g v ws ?st2 = Some st'" "tarjanInv base U st'" "extends ?st2 st'"
      using Cons.IH [OF inv2] Cons.prems(3) by auto
    then show ?thesis
      using True st1 extends_trans [OF extends_trans [OF st1(3) setLow_extends]] by auto
  next
    case False
    show ?thesis
    proof (cases "onStack st w")
      case True
      let ?st2 = "setLow v (idxOf st w) st"
      have "base \<le> idxOf st w" using True Cons.prems(1) by (auto simp: tarjanInv_def)
      then have "tarjanInv base U ?st2" using Cons.prems(1) by (simp add: setLow_inv)
      then obtain st' where "visitNeighbours fuel g v ws ?st2 = Some st'" "tarjanInv base U st'" "extends ?st2 st'"
        using Cons.IH [of ?st2] Cons.prems(2-4) by auto
      then show ?thesis
        using False True extends_trans [OF setLow_extends] by auto
    next
      case F: False
      then show ?thesis using False Cons.IH [OF Cons.prems(1,2)] Cons.prems(3,4) by auto
    qed
  qed
qed simp

lemma connect_ok:
  assumes cl: "closedUnder g U"
  shows "connectOk g U fuel"
proof (induction fuel)
  case 0
  have "card (U - visited st) \<noteq> 0" if "idx st v = None" "v \<in> U" for st v
    using that cl by (auto simp: closedUnder_def visited_def)
  then show ?case unfolding connectOk_def by (metis le_zero_eq)
next
  case (Suc fuel)
  have fin: "finite U" using cl by (simp add: closedUnder_def)
  show ?case
    unfolding connectOk_def
  proof (intro allI impI, elim conjE)
    fix base v st
    assume inv: "tarjanInv base U st" and new: "idx st v = None" and v: "v \<in> U"
      and card: "card (U - visited st) \<le> Suc fuel"
    let ?st1 = "tarjanEnter v st"
    have inv1: "tarjanInv base U ?st1" and vis1: "visited ?st1 = insert v (visited st)"
      using enter_inv [OF inv new v] by simp_all
    have "U - visited ?st1 = (U - visited st) - {v}" using vis1 by auto
    moreover have "v \<in> U - visited st" using v new by (simp add: visited_def)
    ultimately have card1: "card (U - visited ?st1) \<le> fuel" using card fin by simp
    obtain st2 where st2: "visitNeighbours fuel g v (neighbours g v) ?st1 = Some st2"
      "tarjanInv base U st2" "extends ?st1 st2"
    proof -
      have "v \<in> set (stack ?st1)" by (simp add: tarjanEnter_def)
      moreover have "set (neighbours g v) \<subseteq> U" using cl v by (simp add: closedUnder_def)
      ultimately show ?thesis using that visit_ok [OF Suc fin inv1 _ _ card1] by blast
    qed
    then obtain xs where stk: "stack st2 = xs @ v # stack st" by (auto simp: extends_def tarjanEnter_def)
    have low: "base \<le> low st2 v" "low st2 v \<le> tIndex st" "idxOf st2 v = tIndex st"
      using st2(2,3) stk vis1 by (auto simp: tarjanInv_def extends_def tarjanEnter_def idxOf_def)
    have ext: "extends st st2"
    proof -
      have "extends st ?st1" using new by (auto simp: extends_def tarjanEnter_def visited_def)
      then show ?thesis using st2(3) extends_trans by blast
    qed
    have v2: "v \<in> visited st2" using extends_visited [OF st2(3)] vis1 by auto
    show "\<exists>st'. strongconnect (Suc fuel) g v st = Some st' \<and> tarjanInv base U st' \<and> extends st st' \<and>
            v \<in> visited st' \<and> base \<le> low st' v \<and> (stack st = [] \<and> base = tIndex st \<longrightarrow> stack st' = [])"
    proof (cases "low st2 v = idxOf st2 v")
      case True
      then show ?thesis
        using st2(1) pop_inv [OF st2(2) stk] ext v2 low by (auto simp: extends_def)
    next
      case False
      then show ?thesis using st2 ext v2 low by auto
    qed
  qed
qed

lemma tarjanLoop_ok:
  assumes cl: "closedUnder g U"
  shows "tarjanInv (tIndex st) U st \<Longrightarrow> stack st = [] \<Longrightarrow> set vs \<subseteq> U \<Longrightarrow> card U \<le> fuel \<Longrightarrow>
         \<exists>st'. tarjanLoop fuel g vs st = Some st' \<and> tarjanInv (tIndex st') U st' \<and> stack st' = [] \<and>
               set vs \<union> visited st \<subseteq> visited st'"
proof (induction vs arbitrary: st)
  case (Cons v vs)
  show ?case
  proof (cases "idx st v = None")
    case True
    have "card (U - visited st) \<le> fuel"
      using Cons.prems(4) cl by (meson Diff_subset card_mono closedUnder_def order_trans)
    then obtain st1 where st1: "strongconnect fuel g v st = Some st1" "tarjanInv (tIndex st) U st1"
      "extends st st1" "v \<in> visited st1" "stack st1 = []"
      using connect_ok [OF cl, of fuel] Cons.prems True unfolding connectOk_def by (metis insert_subset list.simps(15))
    have "tarjanInv (tIndex st1) U st1" using st1(2,5) by (auto simp: tarjanInv_def)
    from Cons.IH [OF this st1(5)] obtain st' where
      "tarjanLoop fuel g vs st1 = Some st'" "tarjanInv (tIndex st') U st'" "stack st' = []"
      "set vs \<union> visited st1 \<subseteq> visited st'" using Cons.prems by auto
    then show ?thesis using True st1 extends_visited [OF st1(3)] by auto
  next
    case False
    then have "v \<in> visited st" by (simp add: visited_def)
    then show ?thesis using False Cons.IH [OF Cons.prems(1,2)] Cons.prems(3,4) by fastforce
  qed
qed simp

lemma tarjanSCC_partition:
  assumes "distinct nodes" "closedUnder g (set nodes)"
  shows "\<exists>comps. tarjanSCC g nodes = Some comps \<and> mset (concat comps) = mset nodes \<and> [] \<notin> set comps"
proof -
  have init: "tarjanInv (tIndex tarjanInit) (set nodes) tarjanInit" "stack tarjanInit = []"
    by (simp_all add: tarjanInv_def tarjanInit_def visited_def)
  have card: "card (set nodes) \<le> length nodes" by (rule card_length)
  from tarjanLoop_ok [OF assms(2) init subset_refl card] obtain st where
    st: "tarjanLoop (length nodes) g nodes tarjanInit = Some st" "tarjanInv (tIndex st) (set nodes) st"
    "stack st = []" "set nodes \<union> visited tarjanInit \<subseteq> visited st" by blast
  then have "set (concat (sccs st)) = set nodes" "distinct (concat (sccs st))" "[] \<notin> set (sccs st)"
    by (auto simp: tarjanInv_def)
  then have "mset (concat (sccs st)) = mset nodes"
    using assms(1) set_eq_iff_mset_eq_distinct by blast
  then show ?thesis using st(1) \<open>[] \<notin> set (sccs st)\<close> by (auto simp: tarjanSCC_def)
qed

section \<open>Orders that respect a condensation\<close>

definition before :: "'a list \<Rightarrow> 'a \<Rightarrow> 'a \<Rightarrow> bool" where
  "before xs a b \<longleftrightarrow> (\<exists>ys zs. xs = ys @ zs \<and> a \<in> set ys \<and> b \<in> set zs)"

lemma compId_inj [simp]: "compId i = compId j \<longleftrightarrow> i = j"
  by (metis compId_def digits_val_nat_digits)

lemma digits_compId [simp]: "digits_val (compId i) = i"
  by (simp add: compId_def digits_val_nat_digits)

lemma neighbours_put:
  "neighbours (gm_put k vs g) k' = (if k' = k then vs else neighbours g k')"
  by (simp add: neighbours_def gm_get_put)

lemma addEdge_mono: "x \<in> set (neighbours cond c) \<Longrightarrow> x \<in> set (neighbours (addEdge su sv cond) c)"
  by (auto simp: addEdge_def neighbours_put)

lemma condensePairs_mono:
  "x \<in> set (neighbours cond c) \<Longrightarrow> x \<in> set (neighbours (condensePairs comps es seen cond) c)"
  by (induction comps es seen cond rule: condensePairs.induct) (auto simp: Let_def addEdge_mono)

lemma condensePairs_edge:
  assumes "\<forall>(a, b)\<in>set seen. compId b \<in> set (neighbours cond (compId a))"
    and "(u, v) \<in> set es" "sccOf comps u \<noteq> sccOf comps v"
  shows "compId (sccOf comps v) \<in> set (neighbours (condensePairs comps es seen cond) (compId (sccOf comps u)))"
  using assms
proof (induction comps es seen cond rule: condensePairs.induct)
  case (2 comps a b es seen cond)
  let ?su = "sccOf comps a" and ?sv = "sccOf comps b"
  have edge: "compId ?sv \<in> set (neighbours (addEdge ?su ?sv cond) (compId ?su))"
    by (simp add: addEdge_def neighbours_put)
  show ?case
  proof (cases "?su = ?sv \<or> (?su, ?sv) \<in> set seen")
    case True
    then show ?thesis
      using 2(1) [OF refl refl True] 2(3-5) condensePairs_mono [of _ cond] by (auto simp: Let_def)
  next
    case False
    have "\<forall>(x, y)\<in>set ((?su, ?sv) # seen). compId y \<in> set (neighbours (addEdge ?su ?sv cond) (compId x))"
      using 2(3) edge addEdge_mono by auto
    then show ?thesis
      using 2(2) [OF refl refl False] 2(4,5) False condensePairs_mono [OF edge, of comps es "(?su, ?sv) # seen"]
      by (auto simp: Let_def)
  qed
qed simp

lemma condensation_edge:
  assumes "v \<in> set (neighbours g u)" "sccOf comps u \<noteq> sccOf comps v"
  shows "compId (sccOf comps v) \<in> set (neighbours (condensation comps g) (compId (sccOf comps u)))"
proof -
  obtain vs where "(u, vs) \<in> set g" "v \<in> set vs"
    using assms(1) by (cases "gm_get g u") (auto simp: neighbours_def dest: map_of_SomeD)
  then have "(u, v) \<in> set (edgeList g)" by (force simp: edgeList_def)
  then show ?thesis
    unfolding condensation_def using assms(2) by (intro condensePairs_edge) simp_all
qed

lemma compIndex_in:
  assumes "n \<in> set (concat comps)"
  obtains i where "compIndex comps n = Some i" "i < length comps" "n \<in> set (comps ! i)"
proof -
  have "n \<in> set (concat comps) \<Longrightarrow> \<exists>i. compIndex comps n = Some i \<and> i < length comps \<and> n \<in> set (comps ! i)"
  proof (induction comps)
    case (Cons c cs)
    have "compIndex cs n = Some i \<Longrightarrow> n \<in> set (concat cs)" for i
      by (induction cs arbitrary: i) (auto split: option.splits if_splits)
    then show ?case using Cons by (cases "compIndex cs n") auto
  qed simp
  then show ?thesis using assms that by blast
qed

lemma sccOf_in: "n \<in> set (concat comps) \<Longrightarrow> sccOf comps n < length comps \<and> n \<in> set (comps ! sccOf comps n)"
  by (erule compIndex_in) (simp add: sccOf_def)

lemma before_concat:
  assumes "xs = as @ bs" "a \<in> set (concat (map F as))" "b \<in> set (concat (map F bs))"
  shows "before (concat (map F xs)) a b"
  unfolding before_def assms(1) map_append concat_append using assms(2,3) by blast

lemma orderNodesOf_spec:
  assumes "orderNodesOf g comps = Inr order"
  shows "mset order = mset (concat comps) \<and>
         (\<forall>u v. u \<in> set (concat comps) \<and> v \<in> set (concat comps) \<and> v \<in> set (neighbours g u) \<and>
                sccOf comps u \<noteq> sccOf comps v \<longrightarrow> before order u v)"
proof -
  let ?ids = "map compId [0..<length comps]"
  let ?F = "\<lambda>cid. sort (comps ! digits_val cid)"
  have dist: "distinct ?ids" by (simp add: distinct_map inj_on_def)
  obtain co where co: "kahnOrder (condensation comps g) ?ids = Some (co, set co = set ?ids)"
    "distinct co" "topological (condensation comps g) (set ?ids) co"
    using kahnOrder_spec [OF dist] by metis
  then have all: "set co = set ?ids" and order: "order = concat (map ?F co)"
    using assms by (auto simp: orderNodesOf_def split: if_splits)
  have perm: "mset co = mset ?ids" using all co(2) dist set_eq_iff_mset_eq_distinct by blast
  let ?G = "\<lambda>cid. mset (comps ! digits_val cid)"
  have "mset order = sum_list (map ?G co)"
    unfolding order mset_concat by (simp add: comp_def)
  also have "\<dots> = sum_list (map ?G ?ids)"
    using arg_cong [OF perm, of "\<lambda>m. sum_mset (image_mset ?G m)"]
    by (simp only: sum_mset_sum_list flip: mset_map)
  also have "\<dots> = sum_list (map (\<lambda>i. mset (comps ! i)) [0..<length comps])"
    by (simp add: comp_def)
  also have "\<dots> = mset (concat comps)"
  proof -
    have "map (\<lambda>i. mset (comps ! i)) [0..<length comps] = map mset (map (\<lambda>i. comps ! i) [0..<length comps])"
      by (simp add: comp_def)
    then show ?thesis by (simp only: map_nth mset_concat)
  qed
  finally have "mset order = mset (concat comps)" .
  moreover have "before order u v"
    if "u \<in> set (concat comps)" "v \<in> set (concat comps)" "v \<in> set (neighbours g u)" "sccOf comps u \<noteq> sccOf comps v"
    for u v
  proof -
    let ?cu = "compId (sccOf comps u)" and ?cv = "compId (sccOf comps v)"
    have su: "?cu \<in> set ?ids" "?cv \<in> set ?ids" "u \<in> set (?F ?cu)" "v \<in> set (?F ?cv)"
      using sccOf_in [OF that(1)] sccOf_in [OF that(2)] by auto
    then obtain i where i: "i < length co" "co ! i = ?cv" using all by (metis in_set_conv_nth)
    then have "?cu \<in> set (take i co)"
      using co(3) condensation_edge [OF that(3,4)] su(1) unfolding topological_def by metis
    moreover have "?cv \<in> set (drop i co)" using i by (metis Cons_nth_drop_Suc list.set_intros(1))
    ultimately show ?thesis
      unfolding order using su(3,4) by (intro before_concat [of co "take i co" "drop i co"])
        (simp, force, force)
  qed
  ultimately show ?thesis by blast
qed

text \<open>What the ordering needs of a component finder, whatever it is: it answers, and its components
  partition the nodes.\<close>

locale node_partition =
  fixes finder :: "graph \<Rightarrow> string list \<Rightarrow> string list list option"
  assumes partitions:
    "\<lbrakk>distinct nodes; closedUnder g (set nodes)\<rbrakk> \<Longrightarrow>
     \<exists>comps. finder g nodes = Some comps \<and> mset (concat comps) = mset nodes \<and> [] \<notin> set comps"
begin

lemma order_respects:
  assumes "distinct nodes" "closedUnder g (set nodes)" "orderNodesWith finder g nodes = Inr (order, comps)"
  shows "mset order = mset nodes \<and> mset (concat comps) = mset nodes \<and>
         (\<forall>u\<in>set nodes. \<forall>v\<in>set (neighbours g u). sccOf comps u = sccOf comps v \<or> before order u v)"
proof -
  obtain cs where cs: "finder g nodes = Some cs" "mset (concat cs) = mset nodes"
    using partitions [OF assms(1,2)] by blast
  then have order: "orderNodesOf g cs = Inr order" and comps: "comps = cs"
    using assms(3) by (auto simp: orderNodesWith_def split: sum.splits)
  have "set (concat cs) = set nodes" using cs(2) by (metis set_mset_mset)
  then show ?thesis
    using orderNodesOf_spec [OF order] cs(2) assms(2) comps by (fastforce simp: closedUnder_def)
qed

lemma no_fuel_error:
  assumes "distinct nodes" "closedUnder g (set nodes)"
  shows "orderNodesWith finder g nodes \<noteq> Inl OutOfFuel"
proof -
  obtain cs where cs: "finder g nodes = Some cs" using partitions [OF assms] by blast
  have "distinct (map compId [0..<length cs])" by (simp add: distinct_map inj_on_def)
  then obtain order ok where "kahnOrder (condensation cs g) (map compId [0..<length cs]) = Some (order, ok)"
    by (rule kahnOrder_spec) blast
  then have "orderNodesOf g cs \<noteq> Inl OutOfFuel"
    by (simp add: orderNodesOf_def)
  then show ?thesis using cs by (auto simp: orderNodesWith_def split: sum.splits)
qed

end

interpretation tarjan: node_partition tarjanSCC
  by unfold_locales (rule tarjanSCC_partition)

end
