(* ===== verification/PlanOrder.thy ===== *)
theory PlanOrder
  imports DiffPlan GraphsCorrect
begin

text \<open>
  \<open>OrderPlan\<close> of \<open>pkg/schemadiff/order.go\<close>: the dependency-safe execution order of a plan.  Creates go
  referenced table first; drops go referencing table first, and the foreign keys inside a cycle of
  dropped tables are dropped before the tables.
\<close>

section \<open>Model\<close>

definition sortedFKs :: "Table \<Rightarrow> ForeignKey list" where
  "sortedFKs t = objectsOf (FKs t) (sortedKeys (FKs t))"

definition appendUnique :: "string list \<Rightarrow> string \<Rightarrow> string list" where
  "appendUnique s v = (if v \<in> set s then s else s @ [v])"

definition addArc :: "string \<Rightarrow> string \<Rightarrow> graph \<Rightarrow> graph" where
  "addArc u v g = gm_put u (appendUnique (neighbours g u) v) g"

fun opTable :: "operation \<Rightarrow> Table option" where
  "opTable (CreateTable t) = Some t"
| "opTable (DropTable t) = Some t"
| "opTable _ = None"

definition opTables :: "operation list \<Rightarrow> Table list" where
  "opTables ops = List.map_filter opTable ops"

definition opsByName :: "operation list \<Rightarrow> operation gomap" where
  "opsByName ops = fold (\<lambda>op m. case opTable op of Some t \<Rightarrow> gm_put (tName t) op m | None \<Rightarrow> m) ops []"

definition tablesByName :: "Table list \<Rightarrow> Table gomap" where
  "tablesByName ts = fold (\<lambda>t. gm_put (tName t) t) ts []"

text \<open>The arcs a foreign key of \<open>t\<close> contributes: none for a self-reference or a table outside the batch.\<close>

definition createGraph :: "Table list \<Rightarrow> graph" where
  "createGraph ts =
     fold (\<lambda>t g. fold (\<lambda>fk g. if RefTable fk = tName t \<or> RefTable fk \<notin> tName ` set ts then g
                                  else addArc (RefTable fk) (tName t) g) (sortedFKs t) g) ts []"

definition orderCreates :: "operation list \<Rightarrow> orderError + operation list" where
  "orderCreates creates =
     (if length creates \<le> 1 then Inr creates
      else
        let ts = opTables creates;
            names = sort (map tName ts)
        in case orderNodes (createGraph ts) names of
             Inl e \<Rightarrow> Inl e
           | Inr (order, _) \<Rightarrow> Inr (objectsOf (opsByName creates) order))"

definition dropGraph :: "Table gomap \<Rightarrow> string list \<Rightarrow> graph" where
  "dropGraph tableOf names =
     fold (\<lambda>n g. case gm_get tableOf n of
                   None \<Rightarrow> g
                 | Some t \<Rightarrow>
                     fold (\<lambda>fk g. if RefTable fk = n \<or> RefTable fk \<notin> set names then g
                                  else addArc n (RefTable fk) g) (sortedFKs t) g) names []"

definition cycleFKs :: "Table gomap \<Rightarrow> string list \<Rightarrow> operation list" where
  "cycleFKs tableOf scc =
     (if length scc \<le> 1 then []
      else concat (map (\<lambda>n. case gm_get tableOf n of
                              None \<Rightarrow> []
                            | Some t \<Rightarrow> map (DropForeignKey n)
                                (filter (\<lambda>fk. RefTable fk \<noteq> n \<and> RefTable fk \<in> set scc) (sortedFKs t)))
                       (sort scc)))"

definition orderDrops :: "operation list \<Rightarrow> orderError + (operation list \<times> operation list)" where
  "orderDrops drops =
     (if drops = [] then Inr ([], drops)
      else
        let ts = opTables drops;
            names = sort (map tName ts);
            tableOf = tablesByName ts
        in case orderNodes (dropGraph tableOf names) names of
             Inl e \<Rightarrow> Inl e
           | Inr (order, comps) \<Rightarrow>
               Inr (concat (map (cycleFKs tableOf) comps), objectsOf (opsByName drops) order))"

definition ofKind :: "OpKind \<Rightarrow> Plan \<Rightarrow> operation list" where
  "ofKind k p = filter (\<lambda>op. Kind op = k) (Ops p)"

definition OrderPlan :: "Plan \<Rightarrow> orderError + Plan" where
  "OrderPlan p =
     (case orderCreates (ofKind OpCreateTable p) of
        Inl e \<Rightarrow> Inl e
      | Inr orderedCreates \<Rightarrow>
          (case orderDrops (ofKind OpDropTable p) of
             Inl e \<Rightarrow> Inl e
           | Inr (cycleDropFK, orderedDrops) \<Rightarrow>
               Inr \<lparr>Ops =
                 ofKind OpRenameTable p @ ofKind OpRenameColumn p @
                 (ofKind OpDropForeignKey p @ cycleDropFK) @ ofKind OpDropPrimaryKey p @ ofKind OpDropUnique p @
                 ofKind OpDropCheck p @ ofKind OpDropExclusion p @ ofKind OpDropIndex p @ ofKind OpDropColumn p @
                 orderedDrops @ orderedCreates @ ofKind OpAddColumn p @ ofKind OpAlterColumn p @
                 ofKind OpAddPrimaryKey p @ ofKind OpAddUnique p @ ofKind OpAddCheck p @ ofKind OpAddIndex p @
                 ofKind OpAddForeignKey p @ ofKind OpAddExclusion p\<rparr>))"

section \<open>The dependency graphs\<close>

lemma neighbours_addArc:
  "x \<in> set (neighbours (addArc u v g) c) \<longleftrightarrow> x \<in> set (neighbours g c) \<or> (c = u \<and> x = v)"
  by (auto simp: addArc_def neighbours_put appendUnique_def)

lemma fold_arcs:
  "x \<in> set (neighbours (fold (\<lambda>fk g. if P fk then g else addArc (f fk) (h fk) g) fks g) c) \<longleftrightarrow>
     x \<in> set (neighbours g c) \<or> (\<exists>fk\<in>set fks. \<not> P fk \<and> c = f fk \<and> x = h fk)"
  by (induction fks arbitrary: g) (auto simp: neighbours_addArc)

lemma neighbours_Nil [simp]: "neighbours [] c = []"
  by (simp add: neighbours_def)

lemma createGraph_edge:
  "x \<in> set (neighbours (createGraph ts) c) \<longleftrightarrow>
     (\<exists>t\<in>set ts. \<exists>fk\<in>set (sortedFKs t). RefTable fk = c \<and> c \<noteq> tName t \<and> c \<in> tName ` set ts \<and> x = tName t)"
proof -
  have "x \<in> set (neighbours (fold (\<lambda>t g. fold (\<lambda>fk g. if RefTable fk = tName t \<or> RefTable fk \<notin> N then g
           else addArc (RefTable fk) (tName t) g) (sortedFKs t) g) us g) c) \<longleftrightarrow>
        x \<in> set (neighbours g c) \<or>
        (\<exists>t\<in>set us. \<exists>fk\<in>set (sortedFKs t). RefTable fk = c \<and> c \<noteq> tName t \<and> c \<in> N \<and> x = tName t)" for us g N
    by (induction us arbitrary: g) (auto simp: fold_arcs)
  then show ?thesis by (simp add: createGraph_def)
qed

lemma dropGraph_edge:
  "x \<in> set (neighbours (dropGraph tableOf names) c) \<longleftrightarrow>
     c \<in> set names \<and> (\<exists>t fk. gm_get tableOf c = Some t \<and> fk \<in> set (sortedFKs t) \<and>
        RefTable fk = x \<and> x \<noteq> c \<and> x \<in> set names)"
proof -
  have "x \<in> set (neighbours (fold (\<lambda>n g. case gm_get tableOf n of None \<Rightarrow> g
           | Some t \<Rightarrow> fold (\<lambda>fk g. if RefTable fk = n \<or> RefTable fk \<notin> N then g
                                else addArc n (RefTable fk) g) (sortedFKs t) g) ns g) c) \<longleftrightarrow>
        x \<in> set (neighbours g c) \<or>
        (c \<in> set ns \<and> (\<exists>t fk. gm_get tableOf c = Some t \<and> fk \<in> set (sortedFKs t) \<and>
           RefTable fk = x \<and> x \<noteq> c \<and> x \<in> N))" for ns g N
  proof (induction ns arbitrary: g)
    case (Cons n ns)
    show ?case
    proof (cases "gm_get tableOf n")
      case (Some t)
      then show ?thesis unfolding fold_simps(2) comp_apply Cons by (auto simp: fold_arcs)
    qed (auto simp: Cons)
  qed simp
  then show ?thesis by (simp add: dropGraph_def)
qed

lemma closed_createGraph: "closedUnder (createGraph ts) (tName ` set ts)"
  by (auto simp: closedUnder_def createGraph_edge)

lemma closed_dropGraph: "closedUnder (dropGraph tableOf names) (set names)"
  by (auto simp: closedUnder_def dropGraph_edge)

section \<open>Batches of tables\<close>

lemma fold_put_other:
  "k \<notin> f ` set xs \<Longrightarrow> gm_get (fold (\<lambda>x. gm_put (f x) (v x)) xs m) k = gm_get m k"
  by (induction xs arbitrary: m) (auto simp: gm_get_put)

lemma fold_put_get:
  assumes "distinct (map f xs)" "x \<in> set xs"
  shows "gm_get (fold (\<lambda>x. gm_put (f x) (v x)) xs m) (f x) = Some (v x)"
  using assms
proof (induction xs arbitrary: m)
  case (Cons y ys)
  then show ?case
    using fold_put_other [of "f x" f ys v "gm_put (f y) (v y) m"] by (cases "x = y") (auto simp: gm_get_put)
qed simp

lemma opTables_map [simp]: "opTables (map CreateTable ts) = ts" "opTables (map DropTable ts) = ts"
  by (induction ts) (simp_all add: opTables_def List.map_filter_simps)

lemma opTables_kind:
  "\<forall>op\<in>set ops. Kind op = OpCreateTable \<Longrightarrow> map CreateTable (opTables ops) = ops"
  "\<forall>op\<in>set ops. Kind op = OpDropTable \<Longrightarrow> map DropTable (opTables ops) = ops"
proof -
  show "\<forall>op\<in>set ops. Kind op = OpCreateTable \<Longrightarrow> map CreateTable (opTables ops) = ops"
  proof (induction ops)
    case (Cons op ops)
    then show ?case by (cases op) (simp_all add: opTables_def List.map_filter_simps)
  qed (simp add: opTables_def List.map_filter_simps)
  show "\<forall>op\<in>set ops. Kind op = OpDropTable \<Longrightarrow> map DropTable (opTables ops) = ops"
  proof (induction ops)
    case (Cons op ops)
    then show ?case by (cases op) (simp_all add: opTables_def List.map_filter_simps)
  qed (simp add: opTables_def List.map_filter_simps)
qed

lemma opsByName_map:
  "opsByName (map CreateTable ts) = fold (\<lambda>t. gm_put (tName t) (CreateTable t)) ts []"
  "opsByName (map DropTable ts) = fold (\<lambda>t. gm_put (tName t) (DropTable t)) ts []"
  by (simp_all add: opsByName_def fold_map comp_def)

text \<open>Reading a batch of uniquely named tables back along an order of their names.\<close>

lemma objects_along:
  assumes "distinct (map tName ts)" "mset order = mset (map tName ts)"
    and get: "\<And>t. t \<in> set ts \<Longrightarrow> gm_get m (tName t) = Some (mk t)"
  shows "objectsOf m order = map (\<lambda>n. the (gm_get m n)) order \<and> mset (objectsOf m order) = mset (map mk ts)"
proof -
  have names: "set order = tName ` set ts" using mset_eq_setD [OF assms(2)] by simp
  then have all: "\<forall>n\<in>set order. gm_get m n \<noteq> None" using get by auto
  have "mset (objectsOf m order) = image_mset (\<lambda>n. the (gm_get m n)) (mset (map tName ts))"
    unfolding objectsOf_all [OF all] using assms(2) by (metis mset_map)
  also have "\<dots> = mset (map (\<lambda>t. the (gm_get m (tName t))) ts)"
    by (simp add: multiset.map_comp comp_def)
  also have "map (\<lambda>t. the (gm_get m (tName t))) ts = map mk ts" using get by simp
  finally show ?thesis using objectsOf_all [OF all] by simp
qed

lemma before_objects:
  assumes "before order a b" "\<forall>n\<in>set order. gm_get m n \<noteq> None" "gm_get m a = Some x" "gm_get m b = Some y"
  shows "before (objectsOf m order) x y"
proof -
  obtain ys zs where o: "order = ys @ zs" "a \<in> set ys" "b \<in> set zs" using assms(1) by (auto simp: before_def)
  have "x \<in> set (objectsOf m ys)" "y \<in> set (objectsOf m zs)"
    using o assms(3,4) by (auto simp: set_objectsOf)
  moreover have "objectsOf m order = objectsOf m ys @ objectsOf m zs"
    using assms(2) o(1) by (simp add: objectsOf_all)
  ultimately show ?thesis unfolding before_def by blast
qed

section \<open>Safe drops\<close>

text \<open>The foreign keys of a table, whatever their symbols.\<close>

definition fksOf :: "Table \<Rightarrow> ForeignKey set" where
  "fksOf t = {fk. \<exists>k. gm_get (FKs t) k = Some fk}"

lemma set_sortedFKs: "set (sortedFKs t) = fksOf t"
  by (auto simp: sortedFKs_def set_objectsOf fksOf_def) (metis fst_conv map_of_SomeD)

lemma cycleFKs_mem:
  assumes "n \<in> set scc" "RefTable fk \<in> set scc" "RefTable fk \<noteq> n" "gm_get tableOf n = Some t" "fk \<in> fksOf t"
  shows "DropForeignKey n fk \<in> set (cycleFKs tableOf scc)"
proof -
  have "\<not> length scc \<le> 1"
    using assms(1-3) by (cases scc rule: remdups_adj.cases) auto
  then show ?thesis
    using assms by (force simp: cycleFKs_def set_sortedFKs)
qed

lemma orderDrops_spec:
  assumes dist: "distinct (map tName ts)" and res: "orderDrops (map DropTable ts) = Inr (cyc, drops)"
  shows "mset drops = mset (map DropTable ts) \<and>
         (\<forall>op\<in>set cyc. \<exists>n fk. op = DropForeignKey n fk) \<and>
         (\<forall>r\<in>set ts. \<forall>fk\<in>fksOf r. \<forall>t\<in>set ts. RefTable fk = tName t \<and> t \<noteq> r \<longrightarrow>
            DropForeignKey (tName r) fk \<in> set cyc \<or> before drops (DropTable r) (DropTable t))"
proof (cases "ts = []")
  case True
  then show ?thesis using res by (simp add: orderDrops_def)
next
  case False
  let ?names = "sort (map tName ts)" and ?tab = "tablesByName ts"
  let ?g = "dropGraph ?tab ?names" and ?m = "opsByName (map DropTable ts)"
  obtain order comps where ord: "orderNodes ?g ?names = Inr (order, comps)"
    and cyc: "cyc = concat (map (cycleFKs ?tab) comps)" and drops: "drops = objectsOf ?m order"
    using res False by (auto simp: orderDrops_def Let_def split: sum.splits prod.splits)
  have spec: "mset order = mset ?names" "mset (concat comps) = mset ?names"
    "\<forall>u\<in>set ?names. \<forall>v\<in>set (neighbours ?g u). sccOf comps u = sccOf comps v \<or> before order u v"
    using tarjan.order_respects [OF _ closed_dropGraph, of ?names ?tab order comps] ord dist
    by (simp_all add: orderNodes_def)
  have tab: "gm_get ?tab (tName t) = Some t" if "t \<in> set ts" for t
    using fold_put_get [OF dist that, of "\<lambda>t. t"] by (simp add: tablesByName_def)
  have get: "gm_get ?m (tName t) = Some (DropTable t)" if "t \<in> set ts" for t
    using fold_put_get [OF dist that, of DropTable] by (simp add: opsByName_map)
  have morder: "mset order = mset (map tName ts)" using spec(1) by simp
  note along = objects_along [OF dist morder get]
  have some: "\<forall>n\<in>set order. gm_get ?m n \<noteq> None"
    using mset_eq_setD [OF morder] get by fastforce
  have kinds: "\<forall>op\<in>set cyc. \<exists>n fk. op = DropForeignKey n fk"
    unfolding cyc by (auto simp: cycleFKs_def split: if_splits option.splits)
  have "DropForeignKey (tName r) fk \<in> set cyc \<or> before drops (DropTable r) (DropTable t)"
    if fk: "r \<in> set ts" "fk \<in> fksOf r" "t \<in> set ts" "RefTable fk = tName t" "t \<noteq> r" for r fk t
  proof -
    have ne: "tName t \<noteq> tName r" using dist fk by (metis distinct_map inj_on_eq_iff)
    have edge: "tName t \<in> set (neighbours ?g (tName r))"
      using fk ne tab by (auto simp: dropGraph_edge set_sortedFKs)
    have names: "tName r \<in> set (concat comps)" "tName t \<in> set (concat comps)"
      using mset_eq_setD [OF spec(2)] fk by auto
    consider "sccOf comps (tName r) = sccOf comps (tName t)" | "before order (tName r) (tName t)"
      using spec(3) edge fk(1) by auto
    then show ?thesis
    proof cases
      case 1
      then have "DropForeignKey (tName r) fk \<in> set (cycleFKs ?tab (comps ! sccOf comps (tName r)))"
        using sccOf_in [OF names(1)] sccOf_in [OF names(2)] fk ne tab by (intro cycleFKs_mem) auto
      then show ?thesis using sccOf_in [OF names(1)] unfolding cyc by force
    next
      case 2
      then show ?thesis using before_objects [OF _ some] get fk unfolding drops by blast
    qed
  qed
  then show ?thesis using along kinds drops by blast
qed

section \<open>Creates\<close>

lemma orderCreates_spec:
  assumes dist: "distinct (map tName ts)" and res: "orderCreates (map CreateTable ts) = Inr creates"
  shows "mset creates = mset (map CreateTable ts)"
proof (cases "length ts \<le> 1")
  case True
  then show ?thesis using res by (simp add: orderCreates_def)
next
  case False
  let ?names = "sort (map tName ts)"
  obtain order comps where ord: "orderNodes (createGraph ts) ?names = Inr (order, comps)"
    and creates: "creates = objectsOf (opsByName (map CreateTable ts)) order"
    using res False by (auto simp: orderCreates_def Let_def split: sum.splits prod.splits)
  have "closedUnder (createGraph ts) (set ?names)" using closed_createGraph by simp
  then have "mset order = mset ?names"
    using tarjan.order_respects [of ?names] ord dist by (simp add: orderNodes_def)
  then have "mset order = mset (map tName ts)" by simp
  moreover have "gm_get (opsByName (map CreateTable ts)) (tName t) = Some (CreateTable t)" if "t \<in> set ts" for t
    using fold_put_get [OF dist that, of CreateTable] by (simp add: opsByName_map)
  ultimately show ?thesis using objects_along [OF dist] creates by blast
qed

section \<open>The ordered plan\<close>

definition createdTables :: "Plan \<Rightarrow> Table list" where
  "createdTables p = opTables (ofKind OpCreateTable p)"

definition droppedOf :: "Plan \<Rightarrow> Table list" where
  "droppedOf p = opTables (ofKind OpDropTable p)"

definition uniquelyNamed :: "Plan \<Rightarrow> bool" where
  "uniquelyNamed p \<longleftrightarrow> distinct (map tName (createdTables p)) \<and> distinct (map tName (droppedOf p))"

lemma ofKind_tables:
  "ofKind OpCreateTable p = map CreateTable (createdTables p)"
  "ofKind OpDropTable p = map DropTable (droppedOf p)"
  unfolding createdTables_def droppedOf_def by (simp_all add: ofKind_def opTables_kind)

lemma droppedOf_iff: "t \<in> set (droppedOf p) \<longleftrightarrow> DropTable t \<in> set (Ops p)"
proof -
  have "t \<in> set (droppedOf p) \<longleftrightarrow> DropTable t \<in> set (ofKind OpDropTable p)"
    unfolding ofKind_tables by auto
  then show ?thesis by (simp add: ofKind_def)
qed

definition phaseKinds :: "OpKind list" where
  "phaseKinds =
     [OpRenameTable, OpRenameColumn, OpDropForeignKey, OpDropPrimaryKey, OpDropUnique, OpDropCheck,
      OpDropExclusion, OpDropIndex, OpDropColumn, OpDropTable, OpCreateTable, OpAddColumn, OpAlterColumn,
      OpAddPrimaryKey, OpAddUnique, OpAddCheck, OpAddIndex, OpAddForeignKey, OpAddExclusion]"

lemma phaseKinds_upt: "[0..<19] = map phaseOf phaseKinds"
  by (simp add: phaseKinds_def upt_conv_Cons)

lemma phase_kind: "phase op = phaseOf k \<longleftrightarrow> Kind op = k"
  by (cases k; cases "Kind op") simp_all

lemma ofKind_phases: "mset (Ops p) = mset (concat (map (\<lambda>k. ofKind k p) phaseKinds))"
proof -
  have "planOf (Ops p) = concat (map (\<lambda>k. ofKind k p) phaseKinds)"
    unfolding planOf_def phaseKinds_upt map_map comp_def phase_kind ofKind_def ..
  then show ?thesis by (metis mset_planOf)
qed

lemma OrderPlan_parts:
  assumes "uniquelyNamed p" "OrderPlan p = Inr q"
  obtains creates cyc drops pre post where
    "mset creates = mset (ofKind OpCreateTable p)"
    "orderDrops (map DropTable (droppedOf p)) = Inr (cyc, drops)"
    "Ops q = pre @ drops @ post" "set cyc \<subseteq> set pre"
    "\<forall>op\<in>set pre \<union> set post. Kind op \<noteq> OpDropTable"
    "mset (Ops q) = mset (Ops p) + mset cyc"
proof -
  obtain creates where c: "orderCreates (ofKind OpCreateTable p) = Inr creates"
    using assms(2) by (auto simp: OrderPlan_def split: sum.splits)
  obtain cyc drops where d: "orderDrops (ofKind OpDropTable p) = Inr (cyc, drops)"
    using assms(2) by (auto simp: OrderPlan_def split: sum.splits)
  have mc: "mset creates = mset (ofKind OpCreateTable p)"
    using orderCreates_spec [of "createdTables p"] c assms(1) by (simp add: uniquelyNamed_def ofKind_tables)
  have md: "mset drops = mset (ofKind OpDropTable p)" and kc: "\<forall>op\<in>set cyc. \<exists>n fk. op = DropForeignKey n fk"
    using orderDrops_spec [of "droppedOf p"] d assms(1) by (simp_all add: uniquelyNamed_def ofKind_tables)
  let ?pre = "ofKind OpRenameTable p @ ofKind OpRenameColumn p @
      (ofKind OpDropForeignKey p @ cyc) @ ofKind OpDropPrimaryKey p @ ofKind OpDropUnique p @
      ofKind OpDropCheck p @ ofKind OpDropExclusion p @ ofKind OpDropIndex p @ ofKind OpDropColumn p"
  let ?post = "creates @ ofKind OpAddColumn p @ ofKind OpAlterColumn p @
      ofKind OpAddPrimaryKey p @ ofKind OpAddUnique p @ ofKind OpAddCheck p @ ofKind OpAddIndex p @
      ofKind OpAddForeignKey p @ ofKind OpAddExclusion p"
  have q: "Ops q = ?pre @ drops @ ?post"
    using assms(2) c d by (auto simp: OrderPlan_def)
  have "set creates = set (ofKind OpCreateTable p)" using mset_eq_setD [OF mc] .
  then have "\<forall>op\<in>set ?pre \<union> set ?post. Kind op \<noteq> OpDropTable"
    using kc by (auto simp: ofKind_def)
  moreover have "mset (Ops q) = mset (Ops p) + mset cyc"
    unfolding q ofKind_phases [of p] using mc md by (simp add: phaseKinds_def)
  moreover have "set cyc \<subseteq> set ?pre" by auto
  ultimately show ?thesis using that [OF mc _ q] d by (simp add: ofKind_tables)
qed

lemma before_split:
  assumes "distinct xs" "before xs a b" "xs = pre @ b # post"
  shows "a \<in> set pre"
proof -
  obtain ys zs where o: "xs = ys @ zs" "a \<in> set ys" "b \<in> set zs" using assms(2) by (auto simp: before_def)
  then obtain z1 z2 where "zs = z1 @ b # z2" by (metis split_list)
  then have "pre = ys @ z1" using assms(1,3) o(1) by (simp add: append_eq_append_conv2) (auto simp: Cons_eq_append_conv append_eq_Cons_conv)
  then show ?thesis using o(2) by simp
qed

section \<open>Plans of \<open>Diff\<close> are uniquely named\<close>

lemma ofKind_planOf: "ofKind k \<lparr>Ops = planOf ops\<rparr> = filter (\<lambda>op. Kind op = k) ops"
proof -
  have "ofKind k \<lparr>Ops = planOf ops\<rparr> =
        concat (map (\<lambda>k'. filter (\<lambda>op. Kind op = k \<and> Kind op = k') ops) phaseKinds)"
    unfolding ofKind_def planOf_def phaseKinds_upt map_map comp_def phase_kind
    by (simp add: filter_concat comp_def conj_commute)
  also have "\<dots> = concat (map (\<lambda>k'. if k' = k then filter (\<lambda>op. Kind op = k) ops else []) phaseKinds)"
  proof -
    have "filter (\<lambda>op. Kind op = k \<and> Kind op = k') ops = (if k' = k then filter (\<lambda>op. Kind op = k) ops else [])" for k'
      by (auto intro!: filter_False)
    then show ?thesis by simp
  qed
  also have "\<dots> = filter (\<lambda>op. Kind op = k) ops"
    by (cases k) (simp_all add: phaseKinds_def)
  finally show ?thesis .
qed

lemma kind_contentOps:
  assumes "op \<in> set (contentOps dt ct)"
  shows "Kind op \<noteq> OpDropTable \<and> Kind op \<noteq> OpCreateTable"
proof -
  have ok: "contentOk dt ct"
    using assms diffTableContents_bad [of dt ct] by (cases "contentOk dt ct") (auto simp: contentOps_def)
  consider "op \<in> set (columnPart dt ct)" | "op \<in> set (diffPK dt ct)" | "op \<in> set (diffConstraints dt (Some ct))"
    using assms unfolding contentOps_ok [OF ok] by auto
  then show ?thesis
  proof cases
    case 1
    then show ?thesis
      by (auto simp: columnPart_def Let_def columnRenameOps_def columnMatchOps_def columnDropOps_def
          split: option.splits if_splits)
  qed (use kind_diffPK kind_diffConstraints in \<open>fastforce simp: constraintKinds_def\<close>)+
qed

lemma no_kind_filter: "\<forall>op\<in>set ops. Kind op \<noteq> k \<Longrightarrow> filter (\<lambda>op. Kind op = k) ops = []"
  by simp

lemma rename_part_kinds: "op \<in> set (tableRenameOps cur dt) \<Longrightarrow> Kind op \<noteq> OpDropTable \<and> Kind op \<noteq> OpCreateTable"
  using kind_contentOps by (fastforce simp: tableRenameOps_def split: option.splits)

lemma match_part_kinds: "op \<in> set (tableMatchOps des cur cons n) \<Longrightarrow> Kind op \<noteq> OpDropTable"
  using kind_contentOps kind_diffConstraints
  by (fastforce simp: tableMatchOps_def constraintKinds_def split: option.splits)

lemma create_part:
  "filter (\<lambda>op. Kind op = OpCreateTable) (tableMatchOps des cur cons n) =
     (case gm_get des n of
        Some dt \<Rightarrow> if matchedIn cur cons n = None then [CreateTable dt] else []
      | None \<Rightarrow> [])"
proof -
  have "filter (\<lambda>op. Kind op = OpCreateTable) (contentOps dt ct) = []" for dt ct
    using kind_contentOps by (blast intro: no_kind_filter)
  moreover have "filter (\<lambda>op. Kind op = OpCreateTable) (diffConstraints dt None) = []" for dt
    using kind_diffConstraints by (fastforce intro: no_kind_filter simp: constraintKinds_def)
  ultimately show ?thesis by (simp add: tableMatchOps_def split: option.splits)
qed

lemma map_filter_append: "List.map_filter f (xs @ ys) = List.map_filter f xs @ List.map_filter f ys"
  by (simp add: List.map_filter_def)

lemma created_names:
  assumes "keyed_by tName des"
  shows "map tName (opTables (filter (\<lambda>op. Kind op = OpCreateTable) (concat (map (tableMatchOps des cur cons) names))))
         = filter (\<lambda>n. gm_get des n \<noteq> None \<and> matchedIn cur cons n = None) names"
  using keyed_by_get [OF assms]
  by (induction names)
     (auto simp: create_part opTables_def map_filter_append List.map_filter_simps split: option.splits)

lemma dropped_names:
  assumes "keyed_by tName cur"
  shows "map tName (opTables (filter (\<lambda>op. Kind op = OpDropTable) (concat (map (tableDropOps cur cons matched) names))))
         = filter (\<lambda>n. n \<notin> set cons \<and> n \<notin> set matched \<and> gm_get cur n \<noteq> None) names"
  using keyed_by_get [OF assms]
  by (induction names)
     (auto simp: tableDropOps_def opTables_def map_filter_append List.map_filter_simps split: option.splits)

lemma drop_part_kinds: "op \<in> set (tableDropOps cur cons matched n) \<Longrightarrow> Kind op = OpDropTable"
  by (auto simp: tableDropOps_def split: if_splits option.splits)

lemma Diff_uniquelyNamed:
  assumes "wf_schema d" "wf_schema c" "Diff d c = Inr p"
  shows "uniquelyNamed p"
proof -
  obtain ops where ops: "DiffOps d c = Inr ops" and p: "p = \<lparr>Ops = planOf ops\<rparr>"
    using assms(3) by (auto simp: Diff_iff)
  let ?A = "concat (map (tableRenameOps (Tables c)) (renamersOf tRenamedFrom (Tables d)))"
  let ?B = "concat (map (tableMatchOps (Tables d) (Tables c) (consumedOf d)) (unhandledNames d))"
  let ?m = "rev (matchedNames (Tables d) (Tables c) (consumedOf d) (unhandledNames d))"
  let ?C = "concat (map (tableDropOps (Tables c) (consumedOf d) ?m) (sortedTableNames c))"
  have eq: "ops = ?A @ ?B @ ?C" using ops by (simp add: DiffOps_iff)
  have kd: "keyed_by tName (Tables d)" and kc: "keyed_by tName (Tables c)"
    using assms by (simp_all add: wf_schema_def)
  have "filter (\<lambda>op. Kind op = OpCreateTable) ?A = []" "filter (\<lambda>op. Kind op = OpDropTable) ?A = []"
    using rename_part_kinds by (fastforce intro: no_kind_filter)+
  moreover have "filter (\<lambda>op. Kind op = OpDropTable) ?B = []"
    using match_part_kinds by (fastforce intro: no_kind_filter)
  moreover have "filter (\<lambda>op. Kind op = OpCreateTable) ?C = []"
    using drop_part_kinds by (fastforce intro: no_kind_filter)
  ultimately have "createdTables p = opTables (filter (\<lambda>op. Kind op = OpCreateTable) ?B)"
    and "droppedOf p = opTables (filter (\<lambda>op. Kind op = OpDropTable) ?C)"
    unfolding createdTables_def droppedOf_def p ofKind_planOf eq by simp_all
  moreover have "distinct (unhandledNames d)" "distinct (sortedTableNames c)"
    using keyed_wf [OF kd] keyed_wf [OF kc]
    by (simp_all add: unhandledBy_def sortedTableNames_def distinct_sortedKeys)
  ultimately show ?thesis
    unfolding uniquelyNamed_def by (simp add: created_names [OF kd] dropped_names [OF kc])
qed

lemma cycleFKs_from:
  assumes "op \<in> set (cycleFKs (tablesByName ts) scc)"
  shows "\<exists>t\<in>set ts. \<exists>fk\<in>fksOf t. op = DropForeignKey (tName t) fk"
proof -
  have named: "gm_get (fold (\<lambda>t. gm_put (tName t) t) us m) n = Some t \<Longrightarrow>
        (t \<in> set us \<and> tName t = n) \<or> gm_get m n = Some t" for us m n t
  proof (induction us arbitrary: m)
    case (Cons u us)
    then show ?case using Cons.IH [of "gm_put (tName u) u m"] by (auto simp: gm_get_put split: if_splits)
  qed simp
  obtain n where n: "op \<in> set (case gm_get (tablesByName ts) n of None \<Rightarrow> []
      | Some t \<Rightarrow> map (DropForeignKey n) (filter (\<lambda>fk. RefTable fk \<noteq> n \<and> RefTable fk \<in> set scc) (sortedFKs t)))"
    using assms by (auto simp: cycleFKs_def split: if_splits)
  then obtain t fk where "gm_get (tablesByName ts) n = Some t" "fk \<in> fksOf t" "op = DropForeignKey n fk"
    by (cases "gm_get (tablesByName ts) n") (auto simp: set_sortedFKs)
  then show ?thesis using named [of ts "[]" n t] by (auto simp: tablesByName_def)
qed

lemma orderDrops_cycle:
  assumes "orderDrops (map DropTable ts) = Inr (cyc, drops)" "op \<in> set cyc"
  shows "\<exists>t\<in>set ts. \<exists>fk\<in>fksOf t. op = DropForeignKey (tName t) fk"
  using assms cycleFKs_from by (fastforce simp: orderDrops_def Let_def split: if_splits sum.splits prod.splits)

text \<open>C3: in the ordered plan a table is dropped only after every other dropped table that references it
  is gone or has had the referencing foreign key dropped, also when the dropped tables reference each
  other in a cycle, so no \<open>DROP TABLE\<close> meets a live reference from the batch.\<close>

theorem ordered_plan_drops_safely:
  assumes "uniquelyNamed p" "OrderPlan p = Inr q" "Ops q = pre @ DropTable t # post"
    and "DropTable r \<in> set (Ops p)" "r \<noteq> t" "fk \<in> fksOf r" "RefTable fk = tName t"
  shows "DropTable r \<in> set pre \<or> DropForeignKey (tName r) fk \<in> set pre"
proof -
  obtain cyc drops P Q where
    d: "orderDrops (map DropTable (droppedOf p)) = Inr (cyc, drops)" and q: "Ops q = P @ drops @ Q"
    and cyc: "set cyc \<subseteq> set P" and nodrop: "\<forall>op\<in>set P \<union> set Q. Kind op \<noteq> OpDropTable"
    using OrderPlan_parts [OF assms(1,2)] by metis
  have names: "distinct (map tName (droppedOf p))" using assms(1) by (simp add: uniquelyNamed_def)
  note spec = orderDrops_spec [OF names d]
  have "distinct (map DropTable (droppedOf p))"
    using names by (simp add: distinct_map inj_on_def)
  then have dist: "distinct drops" using spec mset_eq_imp_distinct_iff by blast
  have mem: "DropTable t \<in> set drops" "\<not> DropTable t \<in> set P" "\<not> DropTable t \<in> set Q"
  proof -
    show "\<not> DropTable t \<in> set P" "\<not> DropTable t \<in> set Q" using nodrop by (metis Kind.simps(2) UnCI)+
    then show "DropTable t \<in> set drops" using assms(3) q by (metis UnE in_set_conv_decomp set_append)
  qed
  then obtain d1 d2 where split: "drops = d1 @ DropTable t # d2" by (metis split_list)
  have "DropTable t \<notin> set (P @ d1)" "DropTable t \<notin> set (d2 @ Q)" using dist split mem by auto
  moreover have "pre @ DropTable t # post = (P @ d1) @ DropTable t # (d2 @ Q)" using assms(3) q split by simp
  ultimately have pre: "pre = P @ d1"
    using append_Cons_eq_iff [of "DropTable t" "P @ d1" "d2 @ Q" pre post] by metis
  have "set drops = DropTable ` set (droppedOf p)" using mset_eq_setD [OF conjunct1 [OF spec]] by simp
  then have "t \<in> set (droppedOf p)" using mem(1) by auto
  moreover have "r \<in> set (droppedOf p)" using assms(4) by (simp add: droppedOf_iff)
  ultimately have "DropForeignKey (tName r) fk \<in> set cyc \<or> before drops (DropTable r) (DropTable t)"
    using spec [THEN conjunct2, THEN conjunct2, rule_format, of r fk t] assms(5-7) by metis
  then show ?thesis using cyc pre before_split [OF dist _ split] by auto
qed

text \<open>Two tables that reference each other, both dropped.\<close>

definition exCycleA :: Table where
  "exCycleA = exTable ''a'' [exColumn ''id'' [] ''uuid''] [exReference ''a_b'' ''id'' ''b'']"

definition exCycleB :: Table where
  "exCycleB = exTable ''b'' [exColumn ''id'' [] ''uuid''] [exReference ''b_a'' ''id'' ''a'']"

definition exCycle :: Plan where
  "exCycle = \<lparr>Ops = [DropTable exCycleA, DropTable exCycleB]\<rparr>"

definition exCycleOrdered :: "operation list" where
  "exCycleOrdered = [DropForeignKey ''a'' (exReference ''a_b'' ''id'' ''b''),
                     DropForeignKey ''b'' (exReference ''b_a'' ''id'' ''a''), DropTable exCycleA, DropTable exCycleB]"

lemma exCycle_ordered: "OrderPlan exCycle = Inr \<lparr>Ops = exCycleOrdered\<rparr>" "uniquelyNamed exCycle"
  by code_simp+

lemma exCycle_references:
  "exReference ''b_a'' ''id'' ''a'' \<in> fksOf exCycleB" "tName exCycleA = ''a''" "tName exCycleB = ''b''"
proof -
  have "gm_get (FKs exCycleB) ''b_a'' = Some (exReference ''b_a'' ''id'' ''a'')" by code_simp
  then show "exReference ''b_a'' ''id'' ''a'' \<in> fksOf exCycleB" unfolding fksOf_def by blast
  show "tName exCycleA = ''a''" "tName exCycleB = ''b''" by code_simp+
qed

theorem ordered_plan_drops_safely_witness:
  "OrderPlan exCycle = Inr \<lparr>Ops = exCycleOrdered\<rparr> \<and>
   (DropTable exCycleB \<in> set (take 2 exCycleOrdered) \<or>
    DropForeignKey ''b'' (exReference ''b_a'' ''id'' ''a'') \<in> set (take 2 exCycleOrdered))"
proof -
  have "Ops \<lparr>Ops = exCycleOrdered\<rparr> = take 2 exCycleOrdered @ DropTable exCycleA # [DropTable exCycleB]"
    by (simp add: exCycleOrdered_def)
  moreover have "DropTable exCycleB \<in> set (Ops exCycle)" by (simp add: exCycle_def)
  moreover have "exCycleB \<noteq> exCycleA" using exCycle_references by auto
  ultimately show ?thesis
    using ordered_plan_drops_safely [OF exCycle_ordered(2,1), of "take 2 exCycleOrdered" exCycleA "[DropTable exCycleB]" exCycleB]
      exCycle_references exCycle_ordered(1) by (simp add: exReference_def)
qed

text \<open>Ordering loses nothing and adds nothing but the foreign-key drops that break cycles: every
  operation of the plan is in the ordered plan as often as before, and each extra operation drops a
  foreign key of a table the plan drops anyway.\<close>

theorem ordered_plan_keeps_operations:
  assumes "uniquelyNamed p" "OrderPlan p = Inr q"
  shows "\<exists>extra. mset (Ops q) = mset (Ops p) + mset extra \<and>
           (\<forall>op\<in>set extra. \<exists>t fk. op = DropForeignKey (tName t) fk \<and> fk \<in> fksOf t \<and> DropTable t \<in> set (Ops p))"
proof -
  obtain cyc drops where d: "orderDrops (map DropTable (droppedOf p)) = Inr (cyc, drops)"
    and m: "mset (Ops q) = mset (Ops p) + mset cyc"
    using OrderPlan_parts [OF assms] by metis
  show ?thesis using m orderDrops_cycle [OF d] droppedOf_iff by blast
qed

theorem ordered_plan_keeps_operations_witness:
  "\<exists>extra. mset exCycleOrdered = mset (Ops exCycle) + mset extra \<and> length extra = 2"
proof -
  obtain extra where "mset exCycleOrdered = mset (Ops exCycle) + mset extra"
    using ordered_plan_keeps_operations [OF exCycle_ordered(2,1)] by auto
  moreover from this have "size (mset exCycleOrdered) = size (mset (Ops exCycle)) + size (mset extra)"
    by (metis size_union)
  then have "length extra = 2" by (simp add: exCycleOrdered_def exCycle_def)
  ultimately show ?thesis by blast
qed

end
