(* ===== verification/Render.thy ===== *)
theory Render
  imports PlanOrder
begin

text \<open>
  The first half of \<open>pkg/schemadiff/render.go\<close>: a plan rendered to SQL statements and the planning
  concerns.  Quoting an identifier is pgx's \<open>Identifier.Sanitize\<close>, third-party code, so \<open>ident\<close> is a
  parameter.  A nil-pointer panic of the renderer is the value None.
\<close>

section \<open>Statements\<close>

record Statement =
  SQL :: string
  Concurrent :: bool
  CleanupSQL :: string
  Op :: "operation option"

definition txStmt :: "operation \<Rightarrow> string \<Rightarrow> Statement" where
  "txStmt op sql = \<lparr>SQL = sql, Concurrent = False, CleanupSQL = [], Op = Some op\<rparr>"

definition identCols :: "(string \<Rightarrow> string) \<Rightarrow> string list \<Rightarrow> string" where
  "identCols ident cols = join_with '', '' (map ident cols)"

definition identColsWithOpclass :: "(string \<Rightarrow> string) \<Rightarrow> string list \<Rightarrow> string \<Rightarrow> string" where
  "identColsWithOpclass ident cols opclass =
     (if opclass = [] then identCols ident cols
      else join_with '', '' (map (\<lambda>c. ident c @ '' '' @ opclass) cols))"

fun serialFor :: "BaseType \<Rightarrow> string" where
  "serialFor BaseBigint = ''bigserial''"
| "serialFor BaseSmallint = ''smallserial''"
| "serialFor _ = ''serial''"

definition renderColumnDef :: "(string \<Rightarrow> string) \<Rightarrow> Column \<Rightarrow> string" where
  "renderColumnDef ident c =
     (if cIdentity c = Some ''serial'' then ident (cName c) @ '' '' @ serialFor (Base (cType c))
      else let def = ident (cName c) @ '' '' @ TypeString (cType c)
           in if cIdentity c = Some ''always'' then def @ '' GENERATED ALWAYS AS IDENTITY''
              else if cIdentity c = Some ''by_default'' then def @ '' GENERATED BY DEFAULT AS IDENTITY''
              else def @ (if NotNull c then '' NOT NULL'' else [])
                       @ (case Default c of None \<Rightarrow> [] | Some raw \<Rightarrow> '' DEFAULT '' @ raw))"

definition renderCreateTable :: "(string \<Rightarrow> string) \<Rightarrow> Table \<Rightarrow> string option" where
  "renderCreateTable ident t =
     (case all_some (map (gm_get (Columns t)) (ColumnOrder t)) of
        None \<Rightarrow> None
      | Some cs \<Rightarrow>
          (let cols = map (renderColumnDef ident) cs @
                      (case PK t of None \<Rightarrow> [] | Some pk \<Rightarrow> [''PRIMARY KEY ('' @ identCols ident (pkColumns pk) @ '')''])
           in Some (''CREATE TABLE '' @ ident (tName t) @ '' ('' @ [CHR 0x0A] @ ''  ''
                    @ join_with ('','' @ [CHR 0x0A] @ ''  '') cols @ [CHR 0x0A] @ '')'')))"

definition renderAlterColumn :: "(string \<Rightarrow> string) \<Rightarrow> string \<Rightarrow> Column \<Rightarrow> Column \<Rightarrow> Statement list" where
  "renderAlterColumn ident table from to =
     (let tbl = ident table;
          c = ident (cName to);
          alter = ''ALTER TABLE '' @ tbl;
          ty = TypeString (cType to);
          chk = ident (table @ ''_'' @ cName to @ ''_nn_chk'')
      in map (txStmt (AlterColumn table from to))
           ((if TypeChanged from to
             then [alter @ '' ALTER COLUMN '' @ c @ '' TYPE '' @ ty @ '' USING '' @ c @ ''::'' @ ty] else []) @
            (if NullabilityAdded from to
             then [alter @ '' ADD CONSTRAINT '' @ chk @ '' CHECK ('' @ c @ '' IS NOT NULL) NOT VALID'',
                   alter @ '' VALIDATE CONSTRAINT '' @ chk,
                   alter @ '' ALTER COLUMN '' @ c @ '' SET NOT NULL'',
                   alter @ '' DROP CONSTRAINT '' @ chk] else []) @
            (if NullabilityDropped from to then [alter @ '' ALTER COLUMN '' @ c @ '' DROP NOT NULL''] else []) @
            (if DefaultChanged from to
             then (case Default to of
                     None \<Rightarrow> [alter @ '' ALTER COLUMN '' @ c @ '' DROP DEFAULT'']
                   | Some raw \<Rightarrow> [alter @ '' ALTER COLUMN '' @ c @ '' SET DEFAULT '' @ raw]) else [])))"

section \<open>One operation\<close>

definition addFKSQL :: "(string \<Rightarrow> string) \<Rightarrow> string \<Rightarrow> ForeignKey \<Rightarrow> string" where
  "addFKSQL ident t fk =
     ''ALTER TABLE '' @ ident t @ '' ADD CONSTRAINT '' @ ident (fkSymbol fk) @
     '' FOREIGN KEY ('' @ identCols ident (fkColumns fk) @ '') REFERENCES '' @ ident (RefTable fk) @
     '' ('' @ identCols ident (RefColumns fk) @ '')'' @
     (if OnDelete fk \<noteq> NoAction then '' ON DELETE '' @ RefActionString (OnDelete fk) else []) @
     (if OnUpdate fk \<noteq> NoAction then '' ON UPDATE '' @ RefActionString (OnUpdate fk) else []) @
     '' NOT VALID''"

definition addIndexSQL :: "(string \<Rightarrow> string) \<Rightarrow> string \<Rightarrow> Index \<Rightarrow> string" where
  "addIndexSQL ident t ix =
     ''CREATE '' @ (if ixUnique ix then ''UNIQUE '' else []) @ ''INDEX CONCURRENTLY '' @ ident (ixName ix) @
     '' ON '' @ ident t @
     (if ixMethod ix \<noteq> [] \<and> ixMethod ix \<noteq> ''btree'' then '' USING '' @ ixMethod ix else []) @
     '' ('' @ identColsWithOpclass ident (ixColumns ix) (ixOpclass ix) @ '')'' @
     (if ixPredicate ix \<noteq> [] then '' WHERE '' @ ixPredicate ix else [])"

definition dropIndexSQL :: "(string \<Rightarrow> string) \<Rightarrow> Index \<Rightarrow> string" where
  "dropIndexSQL ident ix = ''DROP INDEX CONCURRENTLY IF EXISTS '' @ ident (ixName ix)"

definition dropConstraintSQL :: "(string \<Rightarrow> string) \<Rightarrow> string \<Rightarrow> string \<Rightarrow> string" where
  "dropConstraintSQL ident t symbol = ''ALTER TABLE '' @ ident t @ '' DROP CONSTRAINT '' @ ident symbol"

definition validateSQL :: "(string \<Rightarrow> string) \<Rightarrow> string \<Rightarrow> string \<Rightarrow> string" where
  "validateSQL ident t symbol = ''ALTER TABLE '' @ ident t @ '' VALIDATE CONSTRAINT '' @ ident symbol"

definition addConstraintSQL :: "(string \<Rightarrow> string) \<Rightarrow> string \<Rightarrow> string \<Rightarrow> string \<Rightarrow> string" where
  "addConstraintSQL ident t symbol body = ''ALTER TABLE '' @ ident t @ '' ADD CONSTRAINT '' @ ident symbol @ body"

fun txSQL :: "(string \<Rightarrow> string) \<Rightarrow> operation \<Rightarrow> string list" where
  "txSQL ident (DropTable t) = [''DROP TABLE '' @ ident (tName t)]"
| "txSQL ident (RenameTable from to) = [''ALTER TABLE '' @ ident from @ '' RENAME TO '' @ ident to]"
| "txSQL ident (AddColumn t c) = [''ALTER TABLE '' @ ident t @ '' ADD COLUMN '' @ renderColumnDef ident c]"
| "txSQL ident (DropColumn t c) = [''ALTER TABLE '' @ ident t @ '' DROP COLUMN '' @ ident (cName c)]"
| "txSQL ident (RenameColumn t from to) =
     [''ALTER TABLE '' @ ident t @ '' RENAME COLUMN '' @ ident from @ '' TO '' @ ident to]"
| "txSQL ident (AddPrimaryKey t pk) =
     [addConstraintSQL ident t (pkName pk) ('' PRIMARY KEY ('' @ identCols ident (pkColumns pk) @ '')'')]"
| "txSQL ident (DropPrimaryKey t pk) = [dropConstraintSQL ident t (pkName pk)]"
| "txSQL ident (AddForeignKey t fk) = [addFKSQL ident t fk, validateSQL ident t (fkSymbol fk)]"
| "txSQL ident (DropForeignKey t fk) = [dropConstraintSQL ident t (fkSymbol fk)]"
| "txSQL ident (AddUnique t u) =
     [addConstraintSQL ident t (uqSymbol u) ('' UNIQUE ('' @ identCols ident (uqColumns u) @ '')'')]"
| "txSQL ident (DropUnique t u) = [dropConstraintSQL ident t (uqSymbol u)]"
| "txSQL ident (AddCheck t c) =
     [addConstraintSQL ident t (ckSymbol c) ('' CHECK '' @ ckExpression c @ '' NOT VALID''),
      validateSQL ident t (ckSymbol c)]"
| "txSQL ident (DropCheck t c) = [dropConstraintSQL ident t (ckSymbol c)]"
| "txSQL ident (AddExclusion t e) = [addConstraintSQL ident t (exSymbol e) ('' '' @ exDefinition e)]"
| "txSQL ident (DropExclusion t e) = [dropConstraintSQL ident t (exSymbol e)]"
| "txSQL ident _ = []"

fun renderOne :: "(string \<Rightarrow> string) \<Rightarrow> operation \<Rightarrow> Statement list option" where
  "renderOne ident (CreateTable t) =
     map_option (\<lambda>sql. [txStmt (CreateTable t) sql]) (renderCreateTable ident t)"
| "renderOne ident (AlterColumn t from to) = Some (renderAlterColumn ident t from to)"
| "renderOne ident (AddIndex t ix) =
     Some [\<lparr>SQL = addIndexSQL ident t ix, Concurrent = True, CleanupSQL = dropIndexSQL ident ix,
            Op = Some (AddIndex t ix)\<rparr>]"
| "renderOne ident (DropIndex t ix) =
     Some [\<lparr>SQL = dropIndexSQL ident ix, Concurrent = True, CleanupSQL = [], Op = Some (DropIndex t ix)\<rparr>]"
| "renderOne ident op = Some (map (txStmt op) (txSQL ident op))"

definition Render :: "(string \<Rightarrow> string) \<Rightarrow> Plan \<Rightarrow> Statement list option" where
  "Render ident p = map_option concat (all_some (map (renderOne ident) (Ops p)))"

section \<open>Planning concerns\<close>

record Concern =
  conOp :: operation
  conRisk :: RiskClass
  conMessage :: string

definition freshNullable :: "Plan \<Rightarrow> string \<Rightarrow> bool" where
  "freshNullable p key \<longleftrightarrow>
     list_ex (\<lambda>op. case op of AddColumn t c \<Rightarrow> \<not> NotNull c \<and> key = t @ ''.'' @ cName c | _ \<Rightarrow> False) (Ops p)"

definition allFresh :: "Plan \<Rightarrow> string \<Rightarrow> string list \<Rightarrow> bool" where
  "allFresh p table cols \<longleftrightarrow> cols \<noteq> [] \<and> list_all (\<lambda>c. freshNullable p (table @ ''.'' @ c)) cols"

fun triviallySatisfied :: "Plan \<Rightarrow> operation \<Rightarrow> bool" where
  "triviallySatisfied p (AddUnique t u) = allFresh p t (uqColumns u)"
| "triviallySatisfied p (AddForeignKey t fk) = allFresh p t (fkColumns fk)"
| "triviallySatisfied p _ = False"

definition mustSatisfy :: string where
  "mustSatisfy = '' requires existing rows to already satisfy it; on a populated table it will fail unless backfilled''"

definition backfillMessage :: "operation \<Rightarrow> string" where
  "backfillMessage op =
     (case op of
        AddColumn t c \<Rightarrow>
          if RequiresBackfill op
          then ''ADD COLUMN '' @ t @ ''.'' @ cName c @ '' is NOT NULL without a default '' @ emDash @
               '' on a non-empty table this fails; provide a default or a backfill value''
          else opString op @ mustSatisfy
      | _ \<Rightarrow> opString op @ mustSatisfy)"

definition concernsOf :: "Plan \<Rightarrow> operation \<Rightarrow> Concern list" where
  "concernsOf p op =
     (case Risk op of
        RiskDestructive \<Rightarrow>
          [\<lparr>conOp = op, conRisk = RiskDestructive, conMessage = opString op @ '' is destructive '' @ emDash @ '' it loses data''\<rparr>]
      | RiskBackfill \<Rightarrow>
          (if triviallySatisfied p op then []
           else [\<lparr>conOp = op, conRisk = RiskBackfill, conMessage = backfillMessage op\<rparr>])
      | RiskTransformational \<Rightarrow>
          [\<lparr>conOp = op, conRisk = RiskTransformational,
            conMessage = opString op @ '' rewrites the column data (type change) and may not be losslessly reversible''\<rparr>]
      | RiskSafe \<Rightarrow> [])"

definition Validate :: "Plan \<Rightarrow> Concern list" where
  "Validate p = concat (map (concernsOf p) (Ops p))"

section \<open>What the renderer guarantees\<close>

lemma all_some_iff: "(\<exists>ys. all_some xs = Some ys) \<longleftrightarrow> None \<notin> set xs"
  by (induction xs rule: all_some.induct) auto

lemma all_some_set: "all_some xs = Some ys \<Longrightarrow> set ys = {y. Some y \<in> set xs}"
  by (induction xs arbitrary: ys rule: all_some.induct) (auto split: option.splits)

lemma renderCreateTable_Some:
  assumes "wf_table t"
  shows "\<exists>sql. renderCreateTable ident t = Some sql"
proof -
  have "gm_get (Columns t) n \<noteq> None" if "n \<in> set (ColumnOrder t)" for n
    using assms that by (simp add: wf_table_def map_of_eq_None_iff)
  then have "None \<notin> set (map (gm_get (Columns t)) (ColumnOrder t))" by fastforce
  then show ?thesis unfolding renderCreateTable_def all_some_iff [symmetric] by (auto simp: Let_def)
qed

definition identityOnly :: "Column \<Rightarrow> Column \<Rightarrow> bool" where
  "identityOnly from to \<longleftrightarrow>
     cType from = cType to \<and> NotNull from = NotNull to \<and> exprEqual (Default from) (Default to) \<and>
     \<not> identityEqual (cIdentity from) (cIdentity to)"

lemma renderAlterColumn_Nil:
  "renderAlterColumn ident t from to = [] \<longleftrightarrow>
     cType from = cType to \<and> NotNull from = NotNull to \<and> exprEqual (Default from) (Default to)"
  by (auto simp: renderAlterColumn_def Let_def TypeChanged_def NullabilityAdded_def NullabilityDropped_def
      DefaultChanged_def split: option.splits)

lemma renderOne_Nil:
  "renderOne ident op = Some [] \<longleftrightarrow> (\<exists>t from to. op = AlterColumn t from to \<and> renderAlterColumn ident t from to = [])"
  by (cases op) auto

lemma renderOne_total: "(\<And>t. op = CreateTable t \<Longrightarrow> wf_table t) \<Longrightarrow> \<exists>stmts. renderOne ident op = Some stmts"
  using renderCreateTable_Some by (cases op) auto

text \<open>Every statement carries its operation, and exactly the index operations run outside a transaction.\<close>

lemma renderOne_statement:
  "renderOne ident op = Some stmts \<Longrightarrow> st \<in> set stmts \<Longrightarrow>
     Op st = Some op \<and> (Concurrent st \<longleftrightarrow> Kind op = OpAddIndex \<or> Kind op = OpDropIndex)"
  by (cases op) (auto simp: txStmt_def renderAlterColumn_def Let_def split: if_splits option.splits)

lemma Diff_creates_wf:
  assumes "wf_schema d" "wf_schema c" "Diff d c = Inr p" "CreateTable t \<in> set (Ops p)"
  shows "wf_table t"
proof -
  note ok = plan_ok [OF assms(1-3)]
  obtain n dt where dt: "(n, dt) \<in> set (Tables d)" "CreateTable t \<in> tableOps d c dt"
    using assms(4) unfolding ok(2) by auto
  have "wf_table dt" using wf_schema_table(3) [OF assms(1) dt(1)] .
  moreover have "t = dt"
  proof (cases "sourceTable d c dt")
    case None
    then show ?thesis
      using dt(2) kind_diffConstraints [of "CreateTable t" dt None]
      by (auto simp: tableOps_def constraintKinds_def split: if_splits)
  next
    case (Some ct)
    note so = sourced_ok [OF assms(1,2) ok(1) dt(1) Some]
    have "CreateTable t \<notin> set (contentOps dt ct)"
      using kind_diffPK [of "CreateTable t" dt ct] kind_diffConstraints [of "CreateTable t" dt "Some ct"]
        columnPart_set [OF so(1-3)] contentOps_ok [OF so(3)]
      by (auto simp: constraintKinds_def columnOps_def split: option.splits if_splits)
    then show ?thesis using dt(2) Some by (auto simp: tableOps_def split: if_splits)
  qed
  ultimately show ?thesis by simp
qed

lemma Diff_alters_differ:
  assumes "wf_schema d" "wf_schema c" "Diff d c = Inr p" "AlterColumn tb from to \<in> set (Ops p)"
  shows "\<not> columnAttrsEqual from to"
proof -
  note ok = plan_ok [OF assms(1-3)]
  obtain n dt where dt: "(n, dt) \<in> set (Tables d)" "AlterColumn tb from to \<in> tableOps d c dt"
    using assms(4) unfolding ok(2) by auto
  then obtain ct where ct: "sourceTable d c dt = Some ct" "AlterColumn tb from to \<in> set (contentOps dt ct)"
    using kind_diffConstraints [of "AlterColumn tb from to" dt None]
    by (auto simp: tableOps_def constraintKinds_def split: if_splits option.splits)
  note so = sourced_ok [OF assms(1,2) ok(1) dt(1) ct(1)]
  have "AlterColumn tb from to \<in> set (columnPart dt ct)"
    using ct(2) kind_diffPK [of "AlterColumn tb from to" dt ct]
      kind_diffConstraints [of "AlterColumn tb from to" dt "Some ct"] contentOps_ok [OF so(3)]
    by (auto simp: constraintKinds_def)
  then show ?thesis
    unfolding columnPart_set [OF so(1-3)] by (auto simp: columnOps_def split: option.splits if_splits)
qed

text \<open>A plan of \<open>Diff\<close> always renders, and every operation of it becomes at least one statement, with
  one exception: an \<open>AlterColumn\<close> that changes the identity of a column and nothing else renders to no SQL
  at all, so applying the plan leaves the column as it was.\<close>

theorem diff_plan_renders:
  assumes "wf_schema desired" "wf_schema current" "Diff desired current = Inr p"
  shows "(\<exists>stmts. Render ident p = Some stmts) \<and>
         (\<forall>op\<in>set (Ops p). (renderOne ident op = Some []) = (\<exists>t from to. op = AlterColumn t from to \<and> identityOnly from to))"
proof (intro conjI ballI)
  have "None \<notin> set (map (renderOne ident) (Ops p))"
  proof
    assume "None \<in> set (map (renderOne ident) (Ops p))"
    then obtain op where "op \<in> set (Ops p)" "renderOne ident op = None" by auto
    then show False using renderOne_total [of op ident] Diff_creates_wf [OF assms] by fastforce
  qed
  then show "\<exists>stmts. Render ident p = Some stmts"
    unfolding Render_def all_some_iff [symmetric] by auto
  fix op assume "op \<in> set (Ops p)"
  then show "(renderOne ident op = Some []) = (\<exists>t from to. op = AlterColumn t from to \<and> identityOnly from to)"
    unfolding renderOne_Nil renderAlterColumn_Nil identityOnly_def
    using Diff_alters_differ [OF assms, unfolded columnAttrsEqual_def] by metis
qed

fun isIdentityOnly :: "operation \<Rightarrow> bool" where
  "isIdentityOnly (AlterColumn t from to) = identityOnly from to"
| "isIdentityOnly _ = False"

lemma isIdentityOnly_iff: "isIdentityOnly op \<longleftrightarrow> (\<exists>t from to. op = AlterColumn t from to \<and> identityOnly from to)"
  by (cases op) auto

definition exSerial :: "string option \<Rightarrow> Schema" where
  "exSerial i = (NewSchema ''t'')\<lparr>Tables :=
     [(''n'', AddColumnT \<lparr>cName = ''id'', cRenamedFrom = [], cType = mkType BaseInteger, NotNull = True,
                          Default = None, cIdentity = i\<rparr> (NewTable ''n''))]\<rparr>"

theorem diff_plan_renders_witness:
  "\<exists>p. Diff (exSerial (Some ''always'')) (exSerial (Some ''by_default'')) = Inr p \<and> \<not> PlanEmpty p \<and>
     list_all (\<lambda>op. renderOne id op = Some []) (Ops p)"
proof -
  let ?d = "exSerial (Some ''always'')" and ?c = "exSerial (Some ''by_default'')"
  have wf: "wf_schema ?d" "wf_schema ?c" by code_simp+
  have "case Diff ?d ?c of Inl _ \<Rightarrow> False | Inr p \<Rightarrow> \<not> PlanEmpty p \<and> list_all isIdentityOnly (Ops p)"
    by code_simp
  then obtain p where p: "Diff ?d ?c = Inr p" "\<not> PlanEmpty p" and "list_all isIdentityOnly (Ops p)"
    by (auto split: sum.splits)
  then have only: "\<forall>op\<in>set (Ops p). \<exists>t from to. op = AlterColumn t from to \<and> identityOnly from to"
    unfolding list_all_iff isIdentityOnly_iff by blast
  show ?thesis unfolding list_all_iff using p only diff_plan_renders [OF wf p(1), of id, THEN conjunct2] by blast
qed

section \<open>What the concerns cover\<close>

lemma concernsOf_ops: "c \<in> set (concernsOf p op) \<Longrightarrow> conOp c = op \<and> conRisk c = Risk op"
  by (cases "Risk op") (auto simp: concernsOf_def split: if_splits)

lemma concernsOf_Nil: "concernsOf p op = [] \<longleftrightarrow> Risk op = RiskSafe \<or> (Risk op = RiskBackfill \<and> triviallySatisfied p op)"
  by (cases "Risk op") (auto simp: concernsOf_def)

lemma Validate_ops: "conOp ` set (Validate p) = {op \<in> set (Ops p). concernsOf p op \<noteq> []}"
proof -
  have "conOp ` set (Validate p) = (\<Union>op\<in>set (Ops p). conOp ` set (concernsOf p op))"
    by (auto simp: Validate_def)
  also have "\<dots> = {op \<in> set (Ops p). concernsOf p op \<noteq> []}"
    using concernsOf_ops by (fastforce simp: image_iff neq_Nil_conv)
  finally show ?thesis .
qed

definition dotless :: "string \<Rightarrow> bool" where
  "dotless s \<longleftrightarrow> CHR ''.'' \<notin> set s"

definition dotlessPlan :: "Plan \<Rightarrow> bool" where
  "dotlessPlan p \<longleftrightarrow> list_all (\<lambda>op. case op of AddColumn t c \<Rightarrow> dotless t | AddUnique t u \<Rightarrow> dotless t
                                       | AddForeignKey t fk \<Rightarrow> dotless t | _ \<Rightarrow> True) (Ops p)"

lemma dotted_inj:
  assumes "dotless a" "dotless b" "a @ ''.'' @ x = b @ ''.'' @ y"
  shows "a = b \<and> x = y"
  using assms
proof (induction a arbitrary: b)
  case Nil
  then show ?case by (cases b) (auto simp: dotless_def)
next
  case (Cons c a)
  from Cons.prems show ?case
    using Cons.IH [of "tl b"] by (cases b) (auto simp: dotless_def)
qed

lemma freshNullable_iff:
  "freshNullable p key \<longleftrightarrow> (\<exists>t c. AddColumn t c \<in> set (Ops p) \<and> \<not> NotNull c \<and> key = t @ ''.'' @ cName c)"
proof -
  have eq: "(case op of AddColumn t c \<Rightarrow> \<not> NotNull c \<and> key = t @ ''.'' @ cName c | _ \<Rightarrow> False) \<longleftrightarrow>
        (\<exists>t c. op = AddColumn t c \<and> \<not> NotNull c \<and> key = t @ ''.'' @ cName c)" for op
    by (cases op) auto
  show ?thesis unfolding freshNullable_def list_ex_iff eq by blast
qed

lemma allFresh_columns:
  assumes "allFresh p t cols" "dotlessPlan p" "dotless t"
  shows "cols \<noteq> [] \<and> (\<forall>n\<in>set cols. \<exists>c. AddColumn t c \<in> set (Ops p) \<and> cName c = n \<and> \<not> NotNull c)"
proof (intro conjI ballI)
  show "cols \<noteq> []" using assms(1) by (simp add: allFresh_def)
  fix n assume "n \<in> set cols"
  then obtain t' c where c: "AddColumn t' c \<in> set (Ops p)" "\<not> NotNull c" "t @ ''.'' @ n = t' @ ''.'' @ cName c"
    using assms(1) by (auto simp: allFresh_def list_all_iff freshNullable_iff)
  moreover have "dotless t'" using c(1) assms(2) by (auto simp: dotlessPlan_def list_all_iff)
  ultimately show "\<exists>c. AddColumn t c \<in> set (Ops p) \<and> cName c = n \<and> \<not> NotNull c"
    using dotted_inj [OF assms(3)] by metis
qed

definition overFreshColumns :: "Plan \<Rightarrow> operation \<Rightarrow> bool" where
  "overFreshColumns p op \<longleftrightarrow>
     (\<exists>t cols. ((\<exists>u. op = AddUnique t u \<and> cols = uqColumns u) \<or> (\<exists>fk. op = AddForeignKey t fk \<and> cols = fkColumns fk)) \<and>
        cols \<noteq> [] \<and> (\<forall>n\<in>set cols. \<exists>c. AddColumn t c \<in> set (Ops p) \<and> cName c = n \<and> \<not> NotNull c))"

lemma triviallySatisfied_fresh:
  assumes "triviallySatisfied p op" "op \<in> set (Ops p)" "dotlessPlan p"
  shows "overFreshColumns p op"
proof -
  consider (u) t u where "op = AddUnique t u" "allFresh p t (uqColumns u)"
    | (fk) t fk where "op = AddForeignKey t fk" "allFresh p t (fkColumns fk)"
    using assms(1) by (cases op) auto
  then show ?thesis
  proof cases
    case u
    then have "dotless t" using assms(2,3) by (auto simp: dotlessPlan_def list_all_iff)
    then show ?thesis using allFresh_columns [OF u(2) assms(3)] u(1) unfolding overFreshColumns_def by blast
  next
    case fk
    then have "dotless t" using assms(2,3) by (auto simp: dotlessPlan_def list_all_iff)
    then show ?thesis using allFresh_columns [OF fk(2) assms(3)] fk(1) unfolding overFreshColumns_def by blast
  qed
qed

text \<open>\<open>Validate\<close> raises a concern only for an operation of the plan, under its own risk class, never for a
  safe one; and an operation it stays silent about is safe, or a unique or foreign key whose columns are
  all added by the same plan as nullable, so that no existing row can violate it.  Nothing that destroys
  or rewrites data goes unreported.\<close>

theorem validate_reports_every_risk:
  assumes "dotlessPlan p"
  shows "(\<forall>c\<in>set (Validate p). conOp c \<in> set (Ops p) \<and> conRisk c = Risk (conOp c) \<and> conRisk c \<noteq> RiskSafe) \<and>
         (\<forall>op\<in>set (Ops p). op \<in> conOp ` set (Validate p) \<or> Risk op = RiskSafe \<or> overFreshColumns p op)"
proof (intro conjI ballI)
  fix c assume c: "c \<in> set (Validate p)"
  then obtain op where "op \<in> set (Ops p)" "c \<in> set (concernsOf p op)" by (auto simp: Validate_def)
  then show "conOp c \<in> set (Ops p)" "conRisk c = Risk (conOp c)" "conRisk c \<noteq> RiskSafe"
    using concernsOf_ops [of c p op] concernsOf_Nil [of p op] by auto
next
  fix op assume "op \<in> set (Ops p)"
  then show "op \<in> conOp ` set (Validate p) \<or> Risk op = RiskSafe \<or> overFreshColumns p op"
    unfolding Validate_ops using concernsOf_Nil [of p op] triviallySatisfied_fresh [OF _ _ assms] by blast
qed

definition exAdditions :: Plan where
  "exAdditions = \<lparr>Ops = [AddColumn ''notes'' (exColumn ''owner'' [] ''uuid''), DropColumn ''notes'' (exColumn ''body'' [] ''text''),
                        AddForeignKey ''notes'' (exReference ''fk'' ''owner'' ''people''),
                        AddForeignKey ''notes'' (exReference ''fk2'' ''author'' ''people'')]\<rparr>"

theorem validate_reports_every_risk_witness:
  "map conRisk (Validate exAdditions) = [RiskDestructive, RiskBackfill] \<and>
   overFreshColumns exAdditions (AddForeignKey ''notes'' (exReference ''fk'' ''owner'' ''people''))"
proof -
  let ?op = "AddForeignKey ''notes'' (exReference ''fk'' ''owner'' ''people'')"
  have "?op \<in> set (Ops exAdditions)" "?op \<notin> conOp ` set (Validate exAdditions)" "Risk ?op \<noteq> RiskSafe"
    and ok: "dotlessPlan exAdditions" and risks: "map conRisk (Validate exAdditions) = [RiskDestructive, RiskBackfill]"
    by code_simp+
  then show ?thesis using validate_reports_every_risk [OF ok, THEN conjunct2] risks by blast
qed

end
