(* ===== verification/Executor.thy ===== *)
theory Executor
  imports Render "HOL-Library.Word"
begin

text \<open>
  The second half of \<open>pkg/schemadiff/render.go\<close>: the executor that applies a plan in transactional batches,
  with lock timeouts, retries and backoff.  The connection pool, the transactions and the clock are pgx
  and the Go runtime, so they are parameters: a \<open>Pool\<close> is a record of functions on a world \<open>'w\<close>.
\<close>

section \<open>Errors\<close>

fun isLockTimeout :: "goError \<Rightarrow> bool" where
  "isLockTimeout (PgError e) = (peCode e = ''55P03'')"
| "isLockTimeout (WrapError _ err) = isLockTimeout err"
| "isLockTimeout (PlainError _) = False"

section \<open>The database as the executor sees it\<close>

text \<open>\<open>Wait\<close> is the \<open>select\<close> between the context and the timer: an error when the context ends first.\<close>

record 'w Pool =
  Begin :: "'w call"
  TxExec :: "string \<Rightarrow> 'w call"
  Commit :: "'w call"
  Rollback :: "'w \<Rightarrow> 'w"
  Acquire :: "'w call"
  ConnExec :: "string \<Rightarrow> 'w call"
  Release :: "'w \<Rightarrow> 'w"
  Wait :: "int \<Rightarrow> 'w call"

record 'w Executor =
  exPool :: "'w Pool option"
  exSchema :: string
  LockTimeout :: int
  MaxRetries :: int
  BackoffBase :: int
  OnRetry :: "(nat \<Rightarrow> goError \<Rightarrow> 'w \<Rightarrow> 'w) option"

text \<open>Durations are nanoseconds.\<close>

definition defaultLockTimeout :: int where "defaultLockTimeout = 5000000000"
definition defaultMaxRetries :: int where "defaultMaxRetries = 5"
definition defaultBackoffBase :: int where "defaultBackoffBase = 50000000"

definition lockTimeout :: "'w Executor \<Rightarrow> int" where
  "lockTimeout e = (if LockTimeout e > 0 then LockTimeout e else defaultLockTimeout)"

definition maxRetries :: "'w Executor \<Rightarrow> int" where
  "maxRetries e = (if MaxRetries e > 0 then MaxRetries e else defaultMaxRetries)"

definition backoffBase :: "'w Executor \<Rightarrow> int" where
  "backoffBase e = (if BackoffBase e > 0 then BackoffBase e else defaultBackoffBase)"

section \<open>Backoff\<close>

definition backoffCap :: int where "backoffCap = 2000000000"

definition backoffDelay :: "int \<Rightarrow> nat \<Rightarrow> int" where
  "backoffDelay base attempt =
     (let d = sint (push_bit attempt (word_of_int base :: 64 word))
      in if d \<le> 0 \<or> d > backoffCap then backoffCap else d)"

section \<open>Retries\<close>

definition onRetry :: "'w Executor \<Rightarrow> nat \<Rightarrow> goError \<Rightarrow> 'w \<Rightarrow> 'w" where
  "onRetry e attempt err w = (case OnRetry e of None \<Rightarrow> w | Some f \<Rightarrow> f attempt err w)"

definition lockNotAcquired :: "'w Executor \<Rightarrow> goError \<Rightarrow> goError" where
  "lockNotAcquired e err = WrapError (''lock not acquired after '' @ Itoa (maxRetries e + 1) @ '' attempts: '') err"

text \<open>The loop over \<open>attempt\<close>; the first number counts the retries that are left.\<close>

fun withRetryFrom :: "'w Executor \<Rightarrow> 'w Pool \<Rightarrow> 'w call \<Rightarrow> nat \<Rightarrow> nat \<Rightarrow> 'w call" where
  "withRetryFrom e P fn left attempt w =
     (case fn w of
        (None, w1) \<Rightarrow> (None, w1)
      | (Some err, w1) \<Rightarrow>
          if \<not> isLockTimeout err then (Some err, w1)
          else case left of
                 0 \<Rightarrow> (Some (lockNotAcquired e err), w1)
               | Suc n \<Rightarrow>
                   (case Wait P (backoffDelay (backoffBase e) attempt) (onRetry e (attempt + 1) err w1) of
                      (Some cancelled, w2) \<Rightarrow> (Some cancelled, w2)
                    | (None, w2) \<Rightarrow> withRetryFrom e P fn n (attempt + 1) w2))"

definition withRetry :: "'w Executor \<Rightarrow> 'w Pool \<Rightarrow> 'w call \<Rightarrow> 'w call" where
  "withRetry e P fn = withRetryFrom e P fn (nat (maxRetries e)) 0"

section \<open>Transactional batches\<close>

definition applyErr :: "string \<Rightarrow> goError \<Rightarrow> goError" where
  "applyErr sql err = WrapError (''apply '' @ goq sql @ '': '') err"

fun txExecAll :: "'w Pool \<Rightarrow> Statement list \<Rightarrow> 'w call" where
  "txExecAll P [] w = (None, w)"
| "txExecAll P (st # sts) w =
     (case TxExec P (SQL st) w of
        (Some err, w1) \<Rightarrow> (Some (applyErr (SQL st) err), w1)
      | (None, w1) \<Rightarrow> txExecAll P sts w1)"

definition setLocalPath :: "(string \<Rightarrow> string) \<Rightarrow> 'w Executor \<Rightarrow> string" where
  "setLocalPath ident e = ''SET LOCAL search_path TO '' @ ident (exSchema e)"

definition timeoutText :: "'w Executor \<Rightarrow> string" where
  "timeoutText e = [CHR 0x27] @ Itoa (lockTimeout e div 1000000) @ ''ms'' @ [CHR 0x27]"

definition setLocalTimeout :: "'w Executor \<Rightarrow> string" where
  "setLocalTimeout e = ''SET LOCAL lock_timeout = '' @ timeoutText e"

definition txnBody :: "(string \<Rightarrow> string) \<Rightarrow> 'w Executor \<Rightarrow> 'w Pool \<Rightarrow> Statement list \<Rightarrow> 'w call" where
  "txnBody ident e P batch w =
     (case TxExec P (setLocalPath ident e) w of
        (Some err, w1) \<Rightarrow> (Some err, w1)
      | (None, w1) \<Rightarrow>
          (case TxExec P (setLocalTimeout e) w1 of
             (Some err, w2) \<Rightarrow> (Some err, w2)
           | (None, w2) \<Rightarrow>
               (case txExecAll P batch w2 of
                  (Some err, w3) \<Rightarrow> (Some err, w3)
                | (None, w3) \<Rightarrow> Commit P w3)))"

text \<open>The deferred rollback runs on every path out of the closure.\<close>

definition txnAttempt :: "(string \<Rightarrow> string) \<Rightarrow> 'w Executor \<Rightarrow> 'w Pool \<Rightarrow> Statement list \<Rightarrow> 'w call" where
  "txnAttempt ident e P batch w =
     (case Begin P w of
        (Some err, w1) \<Rightarrow> (Some err, w1)
      | (None, w1) \<Rightarrow> (let (r, w2) = txnBody ident e P batch w1 in (r, Rollback P w2)))"

definition runTxnBatch :: "(string \<Rightarrow> string) \<Rightarrow> 'w Executor \<Rightarrow> 'w Pool \<Rightarrow> Statement list \<Rightarrow> 'w call" where
  "runTxnBatch ident e P batch = withRetry e P (txnAttempt ident e P batch)"

section \<open>Concurrent statements\<close>

fun concurrentLoop :: "'w Executor \<Rightarrow> 'w Pool \<Rightarrow> Statement \<Rightarrow> nat \<Rightarrow> nat \<Rightarrow> 'w call" where
  "concurrentLoop e P st left attempt w =
     (let w0 = (if attempt > 0 \<and> CleanupSQL st \<noteq> [] then snd (ConnExec P (CleanupSQL st) w) else w)
      in case ConnExec P (SQL st) w0 of
           (None, w1) \<Rightarrow> (None, w1)
         | (Some err, w1) \<Rightarrow>
             if \<not> isLockTimeout err then (Some (applyErr (SQL st) err), w1)
             else case left of
                    0 \<Rightarrow> (Some (WrapError (''apply '' @ goq (SQL st) @ '': lock not acquired after ''
                                           @ Itoa (maxRetries e + 1) @ '' attempts: '') err), w1)
                  | Suc n \<Rightarrow>
                      (case Wait P (backoffDelay (backoffBase e) attempt) (onRetry e (attempt + 1) err w1) of
                         (Some cancelled, w2) \<Rightarrow> (Some cancelled, w2)
                       | (None, w2) \<Rightarrow> concurrentLoop e P st n (attempt + 1) w2))"

definition setPath :: "(string \<Rightarrow> string) \<Rightarrow> 'w Executor \<Rightarrow> string" where
  "setPath ident e = ''SET search_path TO '' @ ident (exSchema e)"

definition setTimeout :: "'w Executor \<Rightarrow> string" where
  "setTimeout e = ''SET lock_timeout = '' @ timeoutText e"

definition concurrentBody :: "(string \<Rightarrow> string) \<Rightarrow> 'w Executor \<Rightarrow> 'w Pool \<Rightarrow> Statement \<Rightarrow> 'w call" where
  "concurrentBody ident e P st w =
     (case ConnExec P (setPath ident e) w of
        (Some err, w1) \<Rightarrow> (Some err, w1)
      | (None, w1) \<Rightarrow>
          (case ConnExec P (setTimeout e) w1 of
             (Some err, w2) \<Rightarrow> (Some err, w2)
           | (None, w2) \<Rightarrow> concurrentLoop e P st (nat (maxRetries e)) 0 w2))"

definition runConcurrent :: "(string \<Rightarrow> string) \<Rightarrow> 'w Executor \<Rightarrow> 'w Pool \<Rightarrow> Statement \<Rightarrow> 'w call" where
  "runConcurrent ident e P st w =
     (case Acquire P w of
        (Some err, w1) \<Rightarrow> (Some err, w1)
      | (None, w1) \<Rightarrow>
          (let (r, w2) = concurrentBody ident e P st w1
           in (r, Release P (snd (ConnExec P ''RESET ALL'' w2)))))"

section \<open>Applying a plan\<close>

definition flush :: "(string \<Rightarrow> string) \<Rightarrow> 'w Executor \<Rightarrow> 'w Pool \<Rightarrow> Statement list \<Rightarrow> 'w call" where
  "flush ident e P batch w = (if batch = [] then (None, w) else runTxnBatch ident e P batch w)"

fun applyStmts :: "(string \<Rightarrow> string) \<Rightarrow> 'w Executor \<Rightarrow> 'w Pool \<Rightarrow> Statement list \<Rightarrow> Statement list \<Rightarrow> 'w call" where
  "applyStmts ident e P [] batch w = flush ident e P batch w"
| "applyStmts ident e P (st # sts) batch w =
     (if Concurrent st
      then (case flush ident e P batch w of
              (Some err, w1) \<Rightarrow> (Some err, w1)
            | (None, w1) \<Rightarrow>
                (case runConcurrent ident e P st w1 of
                   (Some err, w2) \<Rightarrow> (Some err, w2)
                 | (None, w2) \<Rightarrow> applyStmts ident e P sts [] w2))
      else applyStmts ident e P sts (batch @ [st]) w)"

definition unusable :: goError where
  "unusable = PlainError ''schemadiff: Executor needs Pool and Schema''"

text \<open>The outcome None is the renderer's panic.\<close>

definition Apply :: "(string \<Rightarrow> string) \<Rightarrow> 'w Executor \<Rightarrow> Plan \<Rightarrow> 'w \<Rightarrow> (goError option \<times> 'w) option" where
  "Apply ident e p w =
     (case exPool e of
        None \<Rightarrow> Some (Some unusable, w)
      | Some P \<Rightarrow>
          if exSchema e = [] then Some (Some unusable, w)
          else case OrderPlan p of
                 Inl _ \<Rightarrow> Some (Some (PlainError ''schemadiff: cyclic SCC condensation (internal error)''), w)
               | Inr ordered \<Rightarrow> map_option (\<lambda>stmts. applyStmts ident e P stmts [] w) (Render ident ordered))"

definition sqlStatement :: "string \<Rightarrow> Statement" where
  "sqlStatement sql = \<lparr>SQL = sql, Concurrent = False, CleanupSQL = [], Op = None\<rparr>"

definition ExecOne :: "(string \<Rightarrow> string) \<Rightarrow> 'w Executor \<Rightarrow> string \<Rightarrow> 'w call" where
  "ExecOne ident e sql w =
     (case exPool e of
        None \<Rightarrow> (Some unusable, w)
      | Some P \<Rightarrow> if exSchema e = [] then (Some unusable, w) else runTxnBatch ident e P [sqlStatement sql] w)"

definition ExecBatch :: "(string \<Rightarrow> string) \<Rightarrow> 'w Executor \<Rightarrow> string list \<Rightarrow> 'w call" where
  "ExecBatch ident e sqls w =
     (case exPool e of
        None \<Rightarrow> (Some unusable, w)
      | Some P \<Rightarrow> if exSchema e = [] then (Some unusable, w)
                  else if sqls = [] then (None, w)
                  else runTxnBatch ident e P (map sqlStatement sqls) w)"

declare withRetryFrom.simps [simp del] concurrentLoop.simps [simp del]

section \<open>The backoff delay\<close>

lemma shifted_eq: "sint (push_bit n (word_of_int b :: 64 word)) = signed_take_bit 63 (b * 2 ^ n)"
proof -
  have "push_bit n (word_of_int b :: 64 word) = word_of_int (b * 2 ^ n)"
    by (simp add: push_bit_eq_mult)
  then show ?thesis using sint_sbintrunc' [of "b * 2 ^ n", where 'a = 64] by (simp del: of_int_mult of_int_power)
qed

lemma shifted_int:
  "\<exists>k. sint (push_bit n (word_of_int b :: 64 word)) = b * 2 ^ n - k * 2 ^ 64"
proof -
  have "sint (push_bit n (word_of_int b :: 64 word)) = signed_take_bit 63 (b * 2 ^ n)" by (rule shifted_eq)
  moreover have "take_bit 64 (signed_take_bit 63 (b * 2 ^ n) :: int) = take_bit 64 (b * 2 ^ n)"
    by (simp add: take_bit_signed_take_bit)
  ultimately have "sint (push_bit n (word_of_int b :: 64 word)) mod 2 ^ 64 = (b * 2 ^ n) mod 2 ^ 64"
    by (simp add: take_bit_eq_mod)
  then have "2 ^ 64 dvd b * 2 ^ n - sint (push_bit n (word_of_int b :: 64 word))"
    by (metis mod_eq_dvd_iff)
  then obtain k where "b * 2 ^ n - sint (push_bit n (word_of_int b :: 64 word)) = 2 ^ 64 * k" by (rule dvdE)
  then show ?thesis by (intro exI [of _ k]) (simp add: algebra_simps)
qed

lemma shifted_small:
  assumes "0 \<le> b" "b * 2 ^ n < 2 ^ 63"
  shows "sint (push_bit n (word_of_int b :: 64 word)) = b * 2 ^ n"
proof -
  have "sint (push_bit n (word_of_int b :: 64 word)) = signed_take_bit 63 (b * 2 ^ n)" by (rule shifted_eq)
  also have "\<dots> = b * 2 ^ n"
    using assms by (intro signed_take_bit_int_eq_self) (auto intro: order_trans [of _ 0])
  finally show ?thesis .
qed

lemma shifted_large:
  assumes "32 \<le> n"
  shows "sint (push_bit n (word_of_int b :: 64 word)) \<le> 0 \<or> 2 ^ 32 \<le> sint (push_bit n (word_of_int b :: 64 word))"
proof -
  obtain k where k: "sint (push_bit n (word_of_int b :: 64 word)) = b * 2 ^ n - k * 2 ^ 64"
    using shifted_int by blast
  have "(2::int) ^ 32 dvd 2 ^ n" using assms by (rule le_imp_power_dvd)
  moreover have "(2::int) ^ 32 dvd 2 ^ 64" by (rule le_imp_power_dvd) simp
  ultimately have "2 ^ 32 dvd sint (push_bit n (word_of_int b :: 64 word))"
    unfolding k by (intro dvd_diff dvd_mult)
  then show ?thesis using zdvd_imp_le by force
qed

lemma backoffDelay_bounds: "0 < backoffDelay base attempt \<and> backoffDelay base attempt \<le> backoffCap"
  by (simp add: backoffDelay_def Let_def backoffCap_def)

text \<open>The backoff before retry \<open>attempt\<close> is the base delay doubled \<open>attempt\<close> times and never more than two
  seconds.  The shift that computes it wraps around at 64 bits, and the guard catches every wrapped
  value: with a base of at most two seconds no overflow ever shortens a wait.\<close>

theorem backoff_is_capped_doubling:
  assumes "0 < base" "base \<le> backoffCap"
  shows "backoffDelay base attempt = min (base * 2 ^ attempt) backoffCap"
proof (cases "base * 2 ^ attempt < 2 ^ 63")
  case True
  then have "sint (push_bit attempt (word_of_int base :: 64 word)) = base * 2 ^ attempt"
    using assms by (intro shifted_small) auto
  moreover have "0 < base * 2 ^ attempt" using assms by simp
  ultimately show ?thesis by (simp add: backoffDelay_def Let_def min_def)
next
  case False
  have "32 \<le> attempt"
  proof (rule ccontr)
    assume "\<not> 32 \<le> attempt"
    then have "(2::int) ^ attempt \<le> 2 ^ 31" by (intro power_increasing) auto
    then have "base * 2 ^ attempt \<le> backoffCap * 2 ^ 31"
      using assms by (intro mult_mono) auto
    then show False using False by (simp add: backoffCap_def)
  qed
  then have "sint (push_bit attempt (word_of_int base :: 64 word)) \<le> 0 \<or>
             backoffCap < sint (push_bit attempt (word_of_int base :: 64 word))"
    using shifted_large [of attempt base] by (auto simp: backoffCap_def)
  moreover have "backoffCap \<le> base * 2 ^ attempt" using False by (simp add: backoffCap_def)
  ultimately show ?thesis by (auto simp: backoffDelay_def Let_def min_def)
qed

theorem backoff_is_capped_doubling_witness:
  "map (backoffDelay defaultBackoffBase) [0, 1, 5, 6, 70] = [50000000, 100000000, 1600000000, 2000000000, 2000000000]"
  using backoff_is_capped_doubling [of defaultBackoffBase] by (simp add: defaultBackoffBase_def backoffCap_def)

section \<open>Atomic batches\<close>

text \<open>What the executor relies on of PostgreSQL, over \<open>hist\<close>, the history of statements this executor has committed, and
  \<open>pend\<close>, those of the open transaction: only a successful commit makes a transaction's statements
  permanent, all of them at once, and an autocommitted statement is permanent when it succeeds.\<close>

definition transactional :: "'w Pool \<Rightarrow> ('w \<Rightarrow> string list) \<Rightarrow> ('w \<Rightarrow> string list) \<Rightarrow> bool" where
  "transactional P hist pend \<longleftrightarrow>
     (\<forall>w r w'. Begin P w = (r, w') \<longrightarrow> hist w' = hist w \<and> (r = None \<longrightarrow> pend w' = [])) \<and>
     (\<forall>sql w r w'. TxExec P sql w = (r, w') \<longrightarrow> hist w' = hist w \<and> (r = None \<longrightarrow> pend w' = pend w @ [sql])) \<and>
     (\<forall>w r w'. Commit P w = (r, w') \<longrightarrow> hist w' = hist w @ (if r = None then pend w else [])) \<and>
     (\<forall>w. hist (Rollback P w) = hist w) \<and>
     (\<forall>w r w'. Acquire P w = (r, w') \<longrightarrow> hist w' = hist w) \<and>
     (\<forall>sql w r w'. ConnExec P sql w = (r, w') \<longrightarrow> hist w' = hist w @ (if r = None then [sql] else [])) \<and>
     (\<forall>w. hist (Release P w) = hist w) \<and>
     (\<forall>d w r w'. Wait P d w = (r, w') \<longrightarrow> hist w' = hist w)"

definition quietRetry :: "'w Executor \<Rightarrow> ('w \<Rightarrow> string list) \<Rightarrow> bool" where
  "quietRetry e hist \<longleftrightarrow> (\<forall>n err w. hist (onRetry e n err w) = hist w)"

lemma transactionalD:
  assumes "transactional P hist pend"
  shows "Begin P w = (r, w') \<Longrightarrow> hist w' = hist w" "Begin P w = (None, w') \<Longrightarrow> pend w' = []"
    and "TxExec P sql w = (r, w') \<Longrightarrow> hist w' = hist w" "TxExec P sql w = (None, w') \<Longrightarrow> pend w' = pend w @ [sql]"
    and "Commit P w = (r, w') \<Longrightarrow> hist w' = hist w @ (if r = None then pend w else [])"
    and "hist (Rollback P w) = hist w" "Acquire P w = (r, w') \<Longrightarrow> hist w' = hist w"
    and "ConnExec P sql w = (r, w') \<Longrightarrow> hist w' = hist w @ (if r = None then [sql] else [])"
    and "hist (Release P w) = hist w" "Wait P d w = (r, w') \<Longrightarrow> hist w' = hist w"
  using assms by (auto simp: transactional_def)

text \<open>A call that commits \<open>l\<close> when it succeeds and nothing otherwise still does when it is retried.\<close>

definition atomicCall :: "('w \<Rightarrow> string list) \<Rightarrow> string list \<Rightarrow> 'w call \<Rightarrow> bool" where
  "atomicCall hist l fn \<longleftrightarrow> (\<forall>w r w'. fn w = (r, w') \<longrightarrow> hist w' = hist w @ (if r = None then l else []))"

lemma atomicCallD: "atomicCall hist l fn \<Longrightarrow> fn w = (r, w') \<Longrightarrow> hist w' = hist w @ (if r = None then l else [])"
  by (auto simp: atomicCall_def)

lemma withRetryFrom_atomic:
  assumes "transactional P hist pend" "quietRetry e hist" "atomicCall hist l fn"
  shows "atomicCall hist l (withRetryFrom e P fn left attempt)"
proof (induction left arbitrary: attempt)
  case 0
  then show ?case
    using atomicCallD [OF assms(3)]
    by (subst atomicCall_def) (auto simp: withRetryFrom.simps [of _ _ _ 0] split: prod.splits option.splits if_splits)
next
  case (Suc n)
  have "hist w' = hist w @ (if r = None then l else [])"
    if run: "withRetryFrom e P fn (Suc n) attempt w = (r, w')" for w r w'
  proof (cases "fn w")
    case (Pair r1 w1)
    note w1 = atomicCallD [OF assms(3) Pair]
    show ?thesis
    proof (cases "\<exists>err. r1 = Some err \<and> isLockTimeout err")
      case False
      then show ?thesis using run w1 Pair by (auto simp: withRetryFrom.simps [of _ _ _ "Suc n"] split: option.splits if_splits)
    next
      case True
      then obtain err where err: "r1 = Some err" "isLockTimeout err" by blast
      obtain r2 w2 where w2: "Wait P (backoffDelay (backoffBase e) attempt) (onRetry e (attempt + 1) err w1) = (r2, w2)"
        by fastforce
      have "hist w2 = hist w"
        using transactionalD(10) [OF assms(1) w2] assms(2) w1 err by (simp add: quietRetry_def)
      moreover have "(case r2 of Some c \<Rightarrow> (Some c, w2) | None \<Rightarrow> withRetryFrom e P fn n (attempt + 1) w2) = (r, w')"
        using run Pair err w2 by (auto simp: withRetryFrom.simps [of _ _ _ "Suc n"] split: option.splits)
      ultimately show ?thesis using atomicCallD [OF Suc.IH [of "attempt + 1"], of w2 r w'] by (auto split: option.splits)
    qed
  qed
  then show ?case by (auto simp: atomicCall_def)
qed

lemma txExecAll_log:
  assumes "transactional P hist pend"
  shows "txExecAll P sts w = (r, w') \<Longrightarrow> hist w' = hist w \<and> (r = None \<longrightarrow> pend w' = pend w @ map SQL sts)"
proof (induction sts arbitrary: w)
  case (Cons st sts)
  obtain r1 w1 where w1: "TxExec P (SQL st) w = (r1, w1)" by fastforce
  then show ?case
    using Cons.IH [of w1] Cons.prems transactionalD(3,4) [OF assms] by (fastforce split: option.splits)
qed simp

definition txnLog :: "(string \<Rightarrow> string) \<Rightarrow> 'w Executor \<Rightarrow> Statement list \<Rightarrow> string list" where
  "txnLog ident e batch = [setLocalPath ident e, setLocalTimeout e] @ map SQL batch"

lemma txnBody_log:
  assumes "transactional P hist pend" "txnBody ident e P batch w = (r, w')" "pend w = []"
  shows "hist w' = hist w @ (if r = None then txnLog ident e batch else [])"
proof -
  obtain r1 w1 where 1: "TxExec P (setLocalPath ident e) w = (r1, w1)" by fastforce
  obtain r2 w2 where 2: "TxExec P (setLocalTimeout e) w1 = (r2, w2)" by fastforce
  obtain r3 w3 where 3: "txExecAll P batch w2 = (r3, w3)" by fastforce
  obtain r4 w4 where 4: "Commit P w3 = (r4, w4)" by fastforce
  note laws = transactionalD(3,4) [OF assms(1)] and all = txExecAll_log [OF assms(1) 3]
  show ?thesis
    using assms(2,3) 1 2 3 4 laws(1) [OF 1] laws(1) [OF 2] all transactionalD(5) [OF assms(1) 4]
      laws(2) [of "setLocalPath ident e" w w1] laws(2) [of "setLocalTimeout e" w1 w2]
    by (auto simp: txnBody_def txnLog_def split: option.splits)
qed

lemma runTxnBatch_atomic:
  assumes "transactional P hist pend" "quietRetry e hist"
  shows "atomicCall hist (txnLog ident e batch) (runTxnBatch ident e P batch)"
proof -
  have "atomicCall hist (txnLog ident e batch) (txnAttempt ident e P batch)"
    unfolding atomicCall_def
  proof (intro allI impI)
    fix w r w' assume run: "txnAttempt ident e P batch w = (r, w')"
    obtain r1 w1 where 1: "Begin P w = (r1, w1)" by fastforce
    obtain r2 w2 where 2: "txnBody ident e P batch w1 = (r2, w2)" by fastforce
    show "hist w' = hist w @ (if r = None then txnLog ident e batch else [])"
      using run 1 2 transactionalD(1) [OF assms(1) 1] transactionalD(2) [OF assms(1), of w w1]
        transactionalD(6) [OF assms(1)] txnBody_log [OF assms(1) 2]
      by (auto simp: txnAttempt_def split: option.splits)
  qed
  then show ?thesis unfolding runTxnBatch_def withRetry_def by (rule withRetryFrom_atomic [OF assms])
qed

section \<open>Concurrent statements leave a trace of their own\<close>

definition isCleanup :: "Statement \<Rightarrow> string list \<Rightarrow> bool" where
  "isCleanup st l \<longleftrightarrow> set l \<subseteq> {CleanupSQL st}"

lemma concurrentLoop_log:
  assumes "transactional P hist pend" "quietRetry e hist"
  shows "concurrentLoop e P st left attempt w = (r, w') \<Longrightarrow>
     \<exists>l. isCleanup st l \<and> length l \<le> left + 1 \<and> hist w' = hist w @ l @ (if r = None then [SQL st] else [])"
proof (induction left arbitrary: attempt w)
  case (0 attempt w)
  obtain rc wc where c: "ConnExec P (CleanupSQL st) w = (rc, wc)" by fastforce
  define w0 where "w0 = (if attempt > 0 \<and> CleanupSQL st \<noteq> [] then wc else w)"
  obtain r1 w1 where 1: "ConnExec P (SQL st) w0 = (r1, w1)" by fastforce
  have "\<exists>l. isCleanup st l \<and> length l \<le> 1 \<and> hist w0 = hist w @ l"
    using transactionalD(8) [OF assms(1) c] by (cases rc) (auto simp: w0_def isCleanup_def)
  moreover have "r = None \<longleftrightarrow> r1 = None" "w' = w1"
    using "0.prems" c 1 by (auto simp: concurrentLoop.simps [of _ _ _ 0] w0_def Let_def split: option.splits if_splits)
  ultimately show ?case using transactionalD(8) [OF assms(1) 1] by fastforce
next
  case (Suc n attempt w)
  obtain rc wc where c: "ConnExec P (CleanupSQL st) w = (rc, wc)" by fastforce
  define w0 where "w0 = (if attempt > 0 \<and> CleanupSQL st \<noteq> [] then wc else w)"
  obtain r1 w1 where 1: "ConnExec P (SQL st) w0 = (r1, w1)" by fastforce
  have "\<exists>l. isCleanup st l \<and> length l \<le> 1 \<and> hist w0 = hist w @ l"
    using transactionalD(8) [OF assms(1) c] by (cases rc) (auto simp: w0_def isCleanup_def)
  then obtain l0 where l0: "isCleanup st l0" "length l0 \<le> 1" "hist w0 = hist w @ l0" by blast
  note w1 = transactionalD(8) [OF assms(1) 1]
  show ?case
  proof (cases "\<exists>err. r1 = Some err \<and> isLockTimeout err")
    case False
    then have "(r = None \<longleftrightarrow> r1 = None) \<and> w' = w1"
      using Suc.prems c 1 by (auto simp: concurrentLoop.simps [of _ _ _ "Suc n"] w0_def Let_def split: option.splits if_splits)
    then show ?thesis using l0 w1 by (intro exI [of _ l0]) auto
  next
    case True
    then obtain err where err: "r1 = Some err" "isLockTimeout err" by blast
    obtain r2 w2 where 2: "Wait P (backoffDelay (backoffBase e) attempt) (onRetry e (attempt + 1) err w1) = (r2, w2)"
      by fastforce
    have log2: "hist w2 = hist w @ l0"
      using transactionalD(10) [OF assms(1) 2] assms(2) w1 err l0(3) by (simp add: quietRetry_def)
    have rest: "(case r2 of Some x \<Rightarrow> (Some x, w2) | None \<Rightarrow> concurrentLoop e P st n (attempt + 1) w2) = (r, w')"
      using Suc.prems c 1 err 2
      by (auto simp: concurrentLoop.simps [of _ _ _ "Suc n"] w0_def Let_def split: option.splits if_splits)
    show ?thesis
    proof (cases r2)
      case (Some x)
      then show ?thesis using rest log2 l0 by (intro exI [of _ l0]) auto
    next
      case None
      then obtain l where "isCleanup st l" "length l \<le> n + 1"
          "hist w' = hist w2 @ l @ (if r = None then [SQL st] else [])"
        using Suc.IH [of "attempt + 1" w2] rest by auto
      then show ?thesis using l0 log2 by (intro exI [of _ "l0 @ l"]) (auto simp: isCleanup_def)
    qed
  qed
qed

section \<open>What a run commits\<close>

datatype step = Txn "Statement list" | Conc Statement

fun stepStatements :: "step \<Rightarrow> Statement list" where
  "stepStatements (Txn batch) = batch"
| "stepStatements (Conc st) = [st]"

fun okStep :: "step \<Rightarrow> bool" where
  "okStep (Txn batch) = (batch \<noteq> [] \<and> list_all (\<lambda>st. \<not> Concurrent st) batch)"
| "okStep (Conc st) = Concurrent st"

definition pendingStep :: "Statement list \<Rightarrow> step list" where
  "pendingStep batch = (if batch = [] then [] else [Txn batch])"

fun batchesOf :: "Statement list \<Rightarrow> Statement list \<Rightarrow> step list" where
  "batchesOf [] batch = pendingStep batch"
| "batchesOf (st # sts) batch =
     (if Concurrent st then pendingStep batch @ Conc st # batchesOf sts [] else batchesOf sts (batch @ [st]))"

lemma batchesOf_ok:
  "list_all (\<lambda>st. \<not> Concurrent st) batch \<Longrightarrow>
     concat (map stepStatements (batchesOf sts batch)) = batch @ sts \<and> list_all okStep (batchesOf sts batch)"
  by (induction sts batch rule: batchesOf.induct) (auto simp: pendingStep_def)

definition sessionSQL :: "(string \<Rightarrow> string) \<Rightarrow> 'w Executor \<Rightarrow> Statement \<Rightarrow> string set" where
  "sessionSQL ident e st = {setPath ident e, setTimeout e, ''RESET ALL'', CleanupSQL st}"

fun committedStep :: "(string \<Rightarrow> string) \<Rightarrow> 'w Executor \<Rightarrow> step \<Rightarrow> string list \<Rightarrow> bool" where
  "committedStep ident e (Txn batch) l = (l = txnLog ident e batch)"
| "committedStep ident e (Conc st) l =
     (\<exists>before after. l = before @ SQL st # after \<and> set before \<union> set after \<subseteq> sessionSQL ident e st)"

lemma concurrentBody_log:
  assumes "transactional P hist pend" "quietRetry e hist" "concurrentBody ident e P st w = (r, w')"
  shows "\<exists>l. set l \<subseteq> sessionSQL ident e st \<and> hist w' = hist w @ l @ (if r = None then [SQL st] else [])"
proof -
  note law = transactionalD(8) [OF assms(1)]
  obtain r1 w1 where 1: "ConnExec P (setPath ident e) w = (r1, w1)" by fastforce
  obtain r2 w2 where 2: "ConnExec P (setTimeout e) w1 = (r2, w2)" by fastforce
  obtain r3 w3 where 3: "concurrentLoop e P st (nat (maxRetries e)) 0 w2 = (r3, w3)" by fastforce
  obtain l where l: "set l \<subseteq> sessionSQL ident e st" "hist w3 = hist w2 @ l @ (if r3 = None then [SQL st] else [])"
    using concurrentLoop_log [OF assms(1,2) 3] by (auto simp: isCleanup_def sessionSQL_def)
  consider "r1 \<noteq> None" "r = r1" "w' = w1" | "r1 = None" "r2 \<noteq> None" "r = r2" "w' = w2"
    | "r1 = None" "r2 = None" "r = r3" "w' = w3"
    using assms(3) 1 2 3 by (auto simp: concurrentBody_def split: option.splits)
  then show ?thesis
  proof cases
    case 1
    then show ?thesis using law [OF \<open>ConnExec P (setPath ident e) w = (r1, w1)\<close>] by (intro exI [of _ "[]"]) auto
  next
    case 2
    then show ?thesis using law [OF 1] law [OF \<open>ConnExec P (setTimeout e) w1 = (r2, w2)\<close>]
      by (intro exI [of _ "[setPath ident e]"]) (auto simp: sessionSQL_def)
  next
    case 3
    then show ?thesis using law [OF 1] law [OF 2] l
      by (intro exI [of _ "[setPath ident e, setTimeout e] @ l"]) (auto simp: sessionSQL_def)
  qed
qed

lemma runConcurrent_log:
  assumes "transactional P hist pend" "quietRetry e hist" "runConcurrent ident e P st w = (r, w')"
  shows "\<exists>l. hist w' = hist w @ l \<and>
             (if r = None then committedStep ident e (Conc st) l else set l \<subseteq> sessionSQL ident e st)"
proof -
  obtain r1 w1 where 1: "Acquire P w = (r1, w1)" by fastforce
  obtain r2 w2 where 2: "concurrentBody ident e P st w1 = (r2, w2)" by fastforce
  obtain r3 w3 where 3: "ConnExec P ''RESET ALL'' w2 = (r3, w3)" by fastforce
  note h1 = transactionalD(7) [OF assms(1) 1] and h3 = transactionalD(8) [OF assms(1) 3]
  obtain l where l: "set l \<subseteq> sessionSQL ident e st" "hist w2 = hist w1 @ l @ (if r2 = None then [SQL st] else [])"
    using concurrentBody_log [OF assms(1,2) 2] by blast
  define reset where "reset = (if r3 = None then [''RESET ALL''] else [])"
  have reset: "set reset \<subseteq> sessionSQL ident e st" by (auto simp: reset_def sessionSQL_def)
  show ?thesis
  proof (cases r1)
    case (Some err)
    then have "r = Some err" "w' = w1" using assms(3) 1 by (auto simp: runConcurrent_def)
    then show ?thesis using h1 by auto
  next
    case None
    then have r: "r = r2" and "w' = Release P w3" using assms(3) 1 2 3 by (auto simp: runConcurrent_def)
    then have hist: "hist w' = hist w @ l @ (if r = None then [SQL st] else []) @ reset"
      using transactionalD(9) [OF assms(1)] h1 h3 l(2) by (simp add: reset_def)
    show ?thesis
    proof (cases r)
      case None
      then show ?thesis using hist l(1) reset
        by (intro exI [of _ "l @ [SQL st] @ reset"]) fastforce
    next
      case (Some err)
      then show ?thesis using hist l(1) reset by (intro exI [of _ "l @ reset"]) auto
    qed
  qed
qed

definition ranSteps :: "(string \<Rightarrow> string) \<Rightarrow> 'w Executor \<Rightarrow> step list \<Rightarrow> goError option \<Rightarrow> string list \<Rightarrow> bool" where
  "ranSteps ident e steps r l \<longleftrightarrow>
     (\<exists>ran rest logs junk. steps = ran @ rest \<and> list_all2 (committedStep ident e) ran logs \<and>
        l = concat logs @ junk \<and> (r = None \<longrightarrow> rest = []) \<and>
        (junk \<noteq> [] \<longrightarrow> (\<exists>st rest'. rest = Conc st # rest' \<and> set junk \<subseteq> sessionSQL ident e st)))"

lemma ranSteps_stopped: "ranSteps ident e steps (Some err) []"
  unfolding ranSteps_def by (intro exI [of _ "[]"] exI [of _ steps]) simp

lemma ranSteps_junk: "set l \<subseteq> sessionSQL ident e st \<Longrightarrow> ranSteps ident e (Conc st # steps) (Some err) l"
  unfolding ranSteps_def by (intro exI [of _ "[]"] exI [of _ "Conc st # steps"] exI [of _ l]) simp

lemma ranSteps_Nil: "ranSteps ident e [] r []"
  unfolding ranSteps_def by simp

lemma ranSteps_step:
  assumes "committedStep ident e s l0" "ranSteps ident e steps r l"
  shows "ranSteps ident e (s # steps) r (l0 @ l)"
proof -
  obtain ran rest logs junk where d: "steps = ran @ rest" "list_all2 (committedStep ident e) ran logs"
    "l = concat logs @ junk" "r = None \<longrightarrow> rest = []"
    "junk \<noteq> [] \<longrightarrow> (\<exists>st rest'. rest = Conc st # rest' \<and> set junk \<subseteq> sessionSQL ident e st)"
    using assms(2) unfolding ranSteps_def by blast
  then show ?thesis
    unfolding ranSteps_def using assms(1)
    by (intro exI [of _ "s # ran"] exI [of _ rest] exI [of _ "l0 # logs"] exI [of _ junk]) simp
qed

lemma flush_run:
  assumes "transactional P hist pend" "quietRetry e hist" "flush ident e P batch w = (r, w')"
  shows "if r = None then \<exists>l. hist w' = hist w @ l \<and> (\<forall>steps r' l'. ranSteps ident e steps r' l' \<longrightarrow> ranSteps ident e (pendingStep batch @ steps) r' (l @ l'))
         else hist w' = hist w"
proof (cases "batch = []")
  case True
  then show ?thesis using assms(3) by (auto simp: flush_def pendingStep_def)
next
  case False
  then have "hist w' = hist w @ (if r = None then txnLog ident e batch else [])"
    using assms(3) atomicCallD [OF runTxnBatch_atomic [OF assms(1,2)]] by (metis flush_def)
  moreover have "ranSteps ident e steps r' l' \<Longrightarrow> ranSteps ident e (pendingStep batch @ steps) r' (txnLog ident e batch @ l')"
    for steps r' l' using False ranSteps_step [of ident e "Txn batch"] by (simp add: pendingStep_def)
  ultimately show ?thesis by auto
qed

lemma applyStmts_run:
  assumes "transactional P hist pend" "quietRetry e hist"
  shows "applyStmts ident e P sts batch w = (r, w') \<Longrightarrow>
     \<exists>l. hist w' = hist w @ l \<and> ranSteps ident e (batchesOf sts batch) r l"
proof (induction sts batch arbitrary: w rule: batchesOf.induct)
  case (1 batch)
  then show ?case
    using flush_run [OF assms, of ident batch w r w'] ranSteps_Nil ranSteps_stopped
    by (cases r) (fastforce split: if_splits)+
next
  case (2 st sts batch)
  show ?case
  proof (cases "Concurrent st")
    case False
    then show ?thesis using 2 by simp
  next
    case True
    obtain r1 w1 where 1: "flush ident e P batch w = (r1, w1)" by fastforce
    obtain r2 w2 where c: "runConcurrent ident e P st w1 = (r2, w2)" by fastforce
    let ?rest = "Conc st # batchesOf sts []"
    show ?thesis
    proof (cases r1)
      case (Some err)
      then show ?thesis
        using flush_run [OF assms 1] "2.prems" True 1 ranSteps_stopped by (intro exI [of _ "[]"]) auto
    next
      case None
      then obtain l1 where l1: "hist w1 = hist w @ l1"
          "\<And>r' l'. ranSteps ident e ?rest r' l' \<Longrightarrow> ranSteps ident e (pendingStep batch @ ?rest) r' (l1 @ l')"
        using flush_run [OF assms 1] by auto
      obtain l2 where l2: "hist w2 = hist w1 @ l2"
          "if r2 = None then committedStep ident e (Conc st) l2 else set l2 \<subseteq> sessionSQL ident e st"
        using runConcurrent_log [OF assms c] by blast
      have "\<exists>l'. hist w' = hist w1 @ l' \<and> ranSteps ident e ?rest r l'"
      proof (cases r2)
        case (Some err)
        then show ?thesis using l2 "2.prems" True 1 None c ranSteps_junk by fastforce
      next
        case r2: None
        then have "applyStmts ident e P sts [] w2 = (r, w')" using "2.prems" True 1 None c by simp
        then obtain l3 where "hist w' = hist w2 @ l3" "ranSteps ident e (batchesOf sts []) r l3"
          using "2.IH"(1) [OF True] by blast
        then show ?thesis using l2 r2 ranSteps_step [of ident e "Conc st" l2] by fastforce
      qed
      then show ?thesis using l1 True by fastforce
    qed
  qed
qed


section \<open>A database in memory\<close>

text \<open>A small instance of the interface: the world holds the history, the open transaction and a list that
  says of the coming calls which ones meet a lock.\<close>

record exWorld =
  wHist :: "string list"
  wPend :: "string list"
  wLocks :: "bool list"

definition exLocked :: "(exWorld \<Rightarrow> exWorld) \<Rightarrow> exWorld call" where
  "exLocked f w =
     (case wLocks w of True # ls \<Rightarrow> (Some (sqlState ''55P03''), w\<lparr>wLocks := ls\<rparr>)
      | _ # ls \<Rightarrow> (None, f (w\<lparr>wLocks := ls\<rparr>)) | [] \<Rightarrow> (None, f (w\<lparr>wLocks := []\<rparr>)))"

definition exDb :: "exWorld Pool" where
  "exDb = \<lparr>Begin = (\<lambda>w. (None, w\<lparr>wPend := []\<rparr>)), TxExec = (\<lambda>sql. exLocked (\<lambda>w. w\<lparr>wPend := wPend w @ [sql]\<rparr>)),
           Commit = (\<lambda>w. (None, w\<lparr>wHist := wHist w @ wPend w, wPend := []\<rparr>)), Rollback = (\<lambda>w. w\<lparr>wPend := []\<rparr>),
           Acquire = (\<lambda>w. (None, w)), ConnExec = (\<lambda>sql. exLocked (\<lambda>w. w\<lparr>wHist := wHist w @ [sql]\<rparr>)),
           Release = (\<lambda>w. w), Wait = (\<lambda>_ w. (None, w))\<rparr>"

definition exExecutor :: "exWorld Executor" where
  "exExecutor = \<lparr>exPool = Some exDb, exSchema = ''t'', LockTimeout = 5000000, MaxRetries = 2, BackoffBase = 1, OnRetry = None\<rparr>"

lemma exLocked_cases:
  "exLocked f w = (r, w') \<Longrightarrow> (r = None \<and> (\<exists>ls. w' = f (w\<lparr>wLocks := ls\<rparr>))) \<or> (r \<noteq> None \<and> (\<exists>ls. w' = w\<lparr>wLocks := ls\<rparr>))"
  by (cases "wLocks w") (auto simp: exLocked_def split: bool.splits)

lemma exDb_transactional: "transactional exDb wHist wPend"
  unfolding transactional_def exDb_def by (auto dest!: exLocked_cases)

lemma exExecutor_quiet: "quietRetry exExecutor wHist"
  by (simp add: quietRetry_def onRetry_def exExecutor_def)

definition exPlan :: Plan where
  "exPlan = \<lparr>Ops = [RenameColumn ''notes'' ''body'' ''text'', DropColumn ''notes'' (exColumn ''old'' [] ''text'')]\<rparr>"

definition exRun :: "goError option \<times> exWorld" where
  "exRun = the (Apply id exExecutor exPlan \<lparr>wHist = [], wPend = [], wLocks = [False, False, True]\<rparr>)"


section \<open>Retries are bounded\<close>

text \<open>A counter that one call of \<open>fn\<close> moves by one and a clock that a wait moves by at most its delay.\<close>

definition counts :: "'w Executor \<Rightarrow> 'w Pool \<Rightarrow> 'w call \<Rightarrow> ('w \<Rightarrow> nat) \<Rightarrow> ('w \<Rightarrow> int) \<Rightarrow> bool" where
  "counts e P fn calls slept \<longleftrightarrow>
     (\<forall>w r w'. fn w = (r, w') \<longrightarrow> calls w' = calls w + 1 \<and> slept w' = slept w) \<and>
     (\<forall>d w r w'. Wait P d w = (r, w') \<longrightarrow> calls w' = calls w \<and> slept w' \<le> slept w + d) \<and>
     (\<forall>n err w. calls (onRetry e n err w) = calls w \<and> slept (onRetry e n err w) = slept w)"

lemma withRetryFrom_bounded:
  assumes "counts e P fn calls slept"
  shows "withRetryFrom e P fn left attempt w = (r, w') \<Longrightarrow>
     calls w < calls w' \<and> calls w' \<le> calls w + left + 1 \<and> slept w' \<le> slept w + int left * backoffCap"
proof (induction left arbitrary: attempt w)
  case 0
  obtain r1 w1 where 1: "fn w = (r1, w1)" by fastforce
  then have "calls w1 = calls w + 1 \<and> slept w1 = slept w" using assms by (auto simp: counts_def)
  moreover have "w' = w1" using 0 1 by (auto simp: withRetryFrom.simps [of _ _ _ 0] split: option.splits if_splits)
  ultimately show ?case by simp
next
  case (Suc n)
  obtain r1 w1 where 1: "fn w = (r1, w1)" by fastforce
  have c1: "calls w1 = calls w + 1 \<and> slept w1 = slept w" using assms 1 by (auto simp: counts_def)
  have cap: "0 \<le> backoffCap" by (simp add: backoffCap_def)
  show ?case
  proof (cases "\<exists>err. r1 = Some err \<and> isLockTimeout err")
    case False
    then have "w' = w1"
      using Suc.prems 1 by (auto simp: withRetryFrom.simps [of _ _ _ "Suc n"] split: option.splits if_splits)
    then show ?thesis using c1 cap by simp
  next
    case True
    then obtain err where err: "r1 = Some err" "isLockTimeout err" by blast
    let ?d = "backoffDelay (backoffBase e) attempt"
    obtain r2 w2 where 2: "Wait P ?d (onRetry e (attempt + 1) err w1) = (r2, w2)" by fastforce
    have "calls w2 = calls w1 \<and> slept w2 \<le> slept w1 + ?d"
      using assms 2 by (fastforce simp: counts_def)
    then have c2: "calls w2 = calls w + 1" "slept w2 \<le> slept w + backoffCap"
      using c1 backoffDelay_bounds [of "backoffBase e" attempt] by auto
    have rest: "(case r2 of Some c \<Rightarrow> (Some c, w2) | None \<Rightarrow> withRetryFrom e P fn n (attempt + 1) w2) = (r, w')"
      using Suc.prems 1 err 2 by (auto simp: withRetryFrom.simps [of _ _ _ "Suc n"] split: option.splits)
    show ?thesis
    proof (cases r2)
      case (Some c)
      moreover have "0 \<le> backoffCap * int n" using cap by simp
      ultimately show ?thesis using rest c2 by (auto simp: algebra_simps)
    next
      case None
      then show ?thesis using Suc.IH [of "attempt + 1" w2] rest c2 by (simp add: algebra_simps)
    qed
  qed
qed

text \<open>A retried call is made at least once and at most one time more than the configured number of
  retries, and the executor waits at most two seconds per retry in all, whatever the locks do: a migration
  never waits for a lock forever.\<close>

theorem retries_are_bounded:
  assumes "counts e P fn calls slept" "withRetry e P fn w = (r, w')"
  shows "calls w < calls w' \<and> calls w' \<le> calls w + nat (maxRetries e) + 1 \<and>
         slept w' \<le> slept w + maxRetries e * 2000000000"
proof -
  have "0 < maxRetries e" by (simp add: maxRetries_def defaultMaxRetries_def)
  then show ?thesis
    using withRetryFrom_bounded [OF assms(1) assms(2) [unfolded withRetry_def]] by (simp add: backoffCap_def)
qed

definition exStuck :: "(nat \<times> int) Pool" where
  "exStuck = \<lparr>Begin = (\<lambda>w. (None, w)), TxExec = (\<lambda>_ w. (None, w)), Commit = (\<lambda>w. (None, w)), Rollback = (\<lambda>w. w),
              Acquire = (\<lambda>w. (None, w)), ConnExec = (\<lambda>_ w. (None, w)), Release = (\<lambda>w. w),
              Wait = (\<lambda>d (n, s). (None, (n, s + d)))\<rparr>"

definition exImpatient :: "(nat \<times> int) Executor" where
  "exImpatient = \<lparr>exPool = Some exStuck, exSchema = ''t'', LockTimeout = 0, MaxRetries = 3, BackoffBase = 0, OnRetry = None\<rparr>"

definition exLockedCall :: "(nat \<times> int) call" where
  "exLockedCall = (\<lambda>(n, s). (Some (sqlState ''55P03''), (n + 1, s)))"

theorem retries_are_bounded_witness:
  "\<exists>r n s. withRetry exImpatient exStuck exLockedCall (0, 0) = (r, (n, s)) \<and> 0 < n \<and> n \<le> 4 \<and> s \<le> 6000000000"
proof -
  have c: "counts exImpatient exStuck exLockedCall fst snd"
    by (auto simp: counts_def exStuck_def exLockedCall_def onRetry_def exImpatient_def)
  obtain r n s where run: "withRetry exImpatient exStuck exLockedCall (0, 0) = (r, (n, s))"
    by (metis prod.exhaust)
  show ?thesis using retries_are_bounded [OF c run] run by (auto simp: maxRetries_def exImpatient_def)
qed

end
