(* ===== verification/ApiSchema.thy ===== *)
theory ApiSchema
  imports Rbac
begin

text \<open>
  The API schema of \<open>pkg/schema\<close>: the data of \<open>types.go\<close> and of \<open>ranges.go\<close>, the engine-managed fields of
  \<open>auto.go\<close> and \<open>governed.go\<close>, the file policy of a field and the lifecycle declared by a \<open>state_machine\<close>.
  JSON keys are matched exactly; the loader rejects any other key first (\<open>keys.go\<close>).  An empty list stands
  for Go's nil slice too; where the difference matters nil is None, or a flag says that an empty list was
  declared (\<open>EmptyEnum\<close>, \<open>impEmptyFields\<close>).
\<close>

section \<open>Schema records\<close>

type_synonym AutoValue = string

record StateMachine =
  Initial :: "string list"
  Transitions :: "string list gomap"
  Pending :: "string list option"

record FieldDef =
  fType :: string
  Required :: bool
  fUnique :: bool
  Auto :: AutoValue
  Enum :: "string list"
  Relation :: string
  fOnDelete :: string
  fOnUpdate :: string
  References :: string
  fRenamedFrom :: string
  fDefault :: goany
  fMin :: "rat option"
  fMax :: "rat option"
  MinLength :: "int option"
  MaxLength :: "int option"
  Pattern :: string
  Format :: string
  Accept :: "string list"
  MaxBytes :: int
  fStateMachine :: "StateMachine option"
  EmptyEnum :: bool
  fAliases :: "string list gomap option"

record HookConfig =
  hkType :: string
  Script :: string
  URL :: string
  HMACSecretEnv :: string
  WasmModule :: string
  WasmFn :: string
  Timeout :: string

record IndexDef =
  idFields :: "string list"
  idUnique :: bool
  idMethod :: string
  idOpclass :: string

record ForeignKeyDef =
  fdColumns :: "string list"
  fdTarget :: string
  fdRefColumns :: "string list"
  fdOnDelete :: string
  fdOnUpdate :: string

record RelationDef =
  relType :: string
  relTarget :: string
  relFK :: string
  Through :: string
  TargetFK :: string
  relLimit :: int

record ImportConfig =
  impRoles :: "string list"
  impFields :: "string list"
  impEmptyFields :: bool

record WhenDef =
  wnField :: string
  wnOp :: string
  wnVal :: goany

record NoOverlapDef =
  Scope :: "string list"
  When :: "WhenDef option"

record RangeDef =
  Start :: string
  End :: string
  NoOverlap :: "NoOverlapDef option"
  TimezoneField :: string
  DefaultDuration :: string

record ResourceSchema =
  Fields :: "FieldDef gomap"
  Hooks :: "HookConfig gomap"
  rsIndexes :: "IndexDef list"
  ForeignKeys :: "ForeignKeyDef list"
  rsRenamedFrom :: string
  Relations :: "RelationDef gomap"
  Events :: "string list"
  Import :: "ImportConfig option"
  rsAliases :: "string list option"
  Ranges :: "RangeDef gomap"

record WorkflowTrigger =
  trType :: string
  trEvent :: string
  trResource :: string
  trCron :: string
  trTimezone :: string
  trField :: string
  trBefore :: string
  trAfter :: string
  trGrace :: string
  trWhen :: "WhenDef option"

record WorkflowStep =
  stName :: string
  stType :: string
  stConfig :: "goany gomap"

record WorkflowSchema =
  wfTrigger :: WorkflowTrigger
  wfSteps :: "WorkflowStep list"
  wfOverlap :: string
  wfRole :: string

record SummaryConfig =
  sumResources :: "string list option"
  sumNotify :: string
  QuietDays :: "int option"

record APISchema =
  asSchema :: string
  asVersion :: string
  asName :: string
  asResources :: "ResourceSchema gomap"
  asRBAC :: plainPolicy
  Workflows :: "WorkflowSchema gomap"
  Summary :: "SummaryConfig option"

text \<open>The zero values of Go's structs.\<close>

definition zeroField :: "string \<Rightarrow> FieldDef" where
  "zeroField ty = \<lparr>fType = ty, Required = False, fUnique = False, Auto = [], Enum = [], Relation = [], fOnDelete = [],
     fOnUpdate = [], References = [], fRenamedFrom = [], fDefault = GNil, fMin = None, fMax = None, MinLength = None,
     MaxLength = None, Pattern = [], Format = [], Accept = [], MaxBytes = 0, fStateMachine = None,
     EmptyEnum = False, fAliases = None\<rparr>"

definition zeroResource :: "FieldDef gomap \<Rightarrow> ResourceSchema" where
  "zeroResource fs = \<lparr>Fields = fs, Hooks = [], rsIndexes = [], ForeignKeys = [], rsRenamedFrom = [], Relations = [],
     Events = [], Import = None, rsAliases = None, Ranges = []\<rparr>"

section \<open>Events\<close>

definition EmitsOn :: "ResourceSchema \<Rightarrow> string \<Rightarrow> bool" where
  "EmitsOn r action \<longleftrightarrow> action \<in> set (Events r)"

definition emitTopicSuffix :: "string gomap" where
  "emitTopicSuffix = [(''create'', ''created''), (''update'', ''updated''), (''delete'', ''deleted'')]"

definition EmitTopic :: "string \<Rightarrow> string \<Rightarrow> string" where
  "EmitTopic resource action =
     (case gm_get emitTopicSuffix action of None \<Rightarrow> [] | Some past \<Rightarrow> resource @ ''.'' @ past)"

section \<open>Files\<close>

definition ReferencedColumn :: "FieldDef \<Rightarrow> string" where
  "ReferencedColumn f = (if References f \<noteq> [] then References f else ''id'')"

definition UnmarshalStringList :: "goany \<Rightarrow> string list option" where
  "UnmarshalStringList j =
     (case unmarshal_string j of Some single \<Rightarrow> Some [single] | None \<Rightarrow> unmarshal_strings j)"

definition acceptFamilies :: "string list" where
  "acceptFamilies = [''image'', ''audio'', ''video'', ''text'']"

text \<open>\<open>strings.IndexByte\<close>.\<close>

definition IndexByte :: "string \<Rightarrow> char \<Rightarrow> int" where
  "IndexByte s c = (if c \<in> set s then int (length (takeWhile (\<lambda>x. x \<noteq> c) s)) else -1)"

definition validAcceptEntry :: "string \<Rightarrow> bool" where
  "validAcceptEntry entry \<longleftrightarrow>
     entry \<in> set acceptFamilies \<or> entry = ''pdf'' \<or>
     (let i = IndexByte entry (CHR ''/'')
      in i > 0 \<and> i < int (length entry) - 1 \<and> CHR '' '' \<notin> set entry \<and> CHR 0x09 \<notin> set entry)"

definition HasFilePolicy :: "FieldDef \<Rightarrow> bool" where
  "HasFilePolicy fd \<longleftrightarrow> fType fd = ''file'' \<and> (Accept fd \<noteq> [] \<or> MaxBytes fd > 0)"

definition bareContentType :: "string \<Rightarrow> string" where
  "bareContentType contentType =
     (let ct = ToLower (TrimSpace contentType)
      in if CHR '';'' \<in> set ct then TrimSpace (takeWhile (\<lambda>c. c \<noteq> CHR '';'') ct) else ct)"

definition acceptEntryMatches :: "string \<Rightarrow> string \<Rightarrow> bool" where
  "acceptEntryMatches ct entry =
     (let e = ToLower entry
      in if e \<in> set acceptFamilies then HasPrefix ct (e @ ''/'')
         else if e = ''pdf'' then ct = ''application/pdf''
         else ct = e)"

definition FileAcceptMatches :: "FieldDef \<Rightarrow> string \<Rightarrow> bool" where
  "FileAcceptMatches fd contentType =
     (if Accept fd = [] then True
      else let ct = bareContentType contentType
           in ct \<noteq> [] \<and> list_ex (acceptEntryMatches ct) (Accept fd))"

section \<open>Lifecycles\<close>

definition PendingDeclared :: "StateMachine \<Rightarrow> bool" where
  "PendingDeclared sm \<longleftrightarrow> Pending sm \<noteq> None"

definition transitionsOf :: "StateMachine \<Rightarrow> string \<Rightarrow> string list" where
  "transitionsOf sm s = (case gm_get (Transitions sm) s of None \<Rightarrow> [] | Some tos \<Rightarrow> tos)"

definition IsTerminal :: "StateMachine \<Rightarrow> string \<Rightarrow> bool" where
  "IsTerminal sm s \<longleftrightarrow> transitionsOf sm s = []"

definition IsInitial :: "StateMachine \<Rightarrow> string \<Rightarrow> bool" where
  "IsInitial sm s \<longleftrightarrow> s \<in> set (Initial sm)"

definition KnownStates :: "StateMachine \<Rightarrow> string list" where
  "KnownStates sm = remdups (Initial sm @ concat (map (\<lambda>(from, tos). from # tos) (Transitions sm)))"

definition OriginsOf :: "StateMachine \<Rightarrow> string \<Rightarrow> string list" where
  "OriginsOf sm target =
     filter (\<lambda>f. target \<in> set (transitionsOf sm f)) (sortedKeys (Transitions sm))"

definition marshalStrings :: "string list \<Rightarrow> goany" where
  "marshalStrings xs = GArr (map GStr xs)"

definition MarshalStateMachine :: "StateMachine \<Rightarrow> goany" where
  "MarshalStateMachine sm =
     GObj ([(''initial'', if Initial sm = [] then GNil else marshalStrings (Initial sm)),
            (''transitions'', GObj (map (\<lambda>k. (k, marshalStrings (transitionsOf sm k))) (sortedKeys (Transitions sm))))]
           @ (case Pending sm of None \<Rightarrow> [] | Some p \<Rightarrow> [(''pending'', marshalStrings p)]))"

fun unmarshalTransitions :: "goany \<Rightarrow> string list gomap option" where
  "unmarshalTransitions GNil = Some []"
| "unmarshalTransitions (GObj kvs) =
     map_option (\<lambda>ps. fold (\<lambda>(k, v). gm_put k v) ps [])
       (all_some (map (\<lambda>(k, v). map_option (Pair k) (unmarshal_strings v)) kvs))"
| "unmarshalTransitions _ = None"

definition jsonKey :: "goany gomap \<Rightarrow> string \<Rightarrow> goany" where
  "jsonKey kvs k = (case gm_get kvs k of None \<Rightarrow> GNil | Some v \<Rightarrow> v)"

text \<open>\<open>pending\<close> is a pointer to a slice: absent and null leave it nil.\<close>

definition unmarshalPending :: "goany \<Rightarrow> string list option option" where
  "unmarshalPending j = (if j = GNil then Some None else map_option Some (unmarshal_strings j))"

fun UnmarshalStateMachine :: "goany \<Rightarrow> StateMachine option" where
  "UnmarshalStateMachine GNil = Some \<lparr>Initial = [], Transitions = [], Pending = None\<rparr>"
| "UnmarshalStateMachine (GObj kvs) =
     (case (unmarshalTransitions (jsonKey kvs ''transitions''), unmarshalPending (jsonKey kvs ''pending'')) of
        (Some ts, Some p) \<Rightarrow>
          (case gm_get kvs ''initial'' of
             None \<Rightarrow> Some \<lparr>Initial = [], Transitions = ts, Pending = p\<rparr>
           | Some raw \<Rightarrow>
               map_option (\<lambda>i. \<lparr>Initial = i, Transitions = ts, Pending = p\<rparr>) (UnmarshalStringList raw))
      | _ \<Rightarrow> None)"
| "UnmarshalStateMachine _ = None"

section \<open>Engine-managed timestamps\<close>

definition AutoOff :: AutoValue where "AutoOff = []"
definition AutoLegacy :: AutoValue where "AutoLegacy = ''legacy''"
definition AutoCreate :: AutoValue where "AutoCreate = ''create''"
definition AutoUpdate :: AutoValue where "AutoUpdate = ''update''"

definition Enabled :: "AutoValue \<Rightarrow> bool" where
  "Enabled a \<longleftrightarrow> a \<noteq> AutoOff"

definition UnmarshalAuto :: "goany \<Rightarrow> AutoValue option" where
  "UnmarshalAuto j =
     (case unmarshal_bool j of
        Some b \<Rightarrow> Some (if b then AutoLegacy else AutoOff)
      | None \<Rightarrow> unmarshal_string j)"

definition MarshalAuto :: "AutoValue \<Rightarrow> goany" where
  "MarshalAuto a = (if a = AutoLegacy then GBool True else if a = AutoOff then GBool False else GStr a)"

definition RefreshesOnUpdate :: "AutoValue \<Rightarrow> string \<Rightarrow> bool" where
  "RefreshesOnUpdate a fieldName =
     (if a = AutoUpdate then True else if a = AutoLegacy then fieldName = ''updated_at'' else False)"

definition AutoRefreshColumns :: "ResourceSchema \<Rightarrow> string list" where
  "AutoRefreshColumns r =
     filter (\<lambda>n. case gm_get (Fields r) n of Some fd \<Rightarrow> RefreshesOnUpdate (Auto fd) n | None \<Rightarrow> False) (sortedKeys (Fields r))"

definition EffectiveAutoRole :: "FieldDef \<Rightarrow> string \<Rightarrow> string" where
  "EffectiveAutoRole fd fieldName =
     (if \<not> Enabled (Auto fd) then [] else if RefreshesOnUpdate (Auto fd) fieldName then ''update'' else ''create'')"

definition nameSuggestsUpdateIntent :: "string \<Rightarrow> bool" where
  "nameSuggestsUpdateIntent name =
     list_ex (\<lambda>m. ContainsStr (ToLower name) m)
       [''updated'', ''update'', ''modif'', ''actualiz'', ''changed'', ''edited'', ''editado'']"

section \<open>Governed fields\<close>

record FieldRuleError =
  freField :: string
  freRule :: string
  freMessage :: string

definition IsGovernedWriteField :: "ResourceSchema \<Rightarrow> string \<Rightarrow> bool" where
  "IsGovernedWriteField r name \<longleftrightarrow>
     name = ''id'' \<or> (case gm_get (Fields r) name of Some fd \<Rightarrow> Enabled (Auto fd) | None \<Rightarrow> False)"

definition GovernedWriteFields :: "ResourceSchema \<Rightarrow> string list" where
  "GovernedWriteFields r =
     sort (''id'' # filter (\<lambda>n. case gm_get (Fields r) n of Some fd \<Rightarrow> Enabled (Auto fd) | None \<Rightarrow> False) (map fst (Fields r)))"

definition ImportableOnCreate :: "ResourceSchema \<Rightarrow> string \<Rightarrow> string \<Rightarrow> bool" where
  "ImportableOnCreate r role field =
     (case Import r of
        None \<Rightarrow> False
      | Some imp \<Rightarrow>
          role \<noteq> [] \<and> role \<in> set (impRoles imp) \<and> (impFields imp = [] \<or> field \<in> set (impFields imp)))"

definition ImportDeclaredFields :: "ResourceSchema \<Rightarrow> string list" where
  "ImportDeclaredFields r =
     (case Import r of
        None \<Rightarrow> []
      | Some imp \<Rightarrow> if impFields imp = [] then GovernedWriteFields r else sort (impFields imp))"

datatype GovernedOp = GovernedCreate | GovernedUpdate

definition governedMessage :: "ResourceSchema \<Rightarrow> string \<Rightarrow> GovernedOp \<Rightarrow> string" where
  "governedMessage r field op =
     (if op = GovernedUpdate
      then (if field = ''id'' then ''field '' @ goq ''id'' @ '' cannot be set''
            else ''field '' @ goq field @ '' is set automatically and cannot be written'')
      else case Import r of
             None \<Rightarrow>
               if field = ''id''
               then ''field '' @ goq ''id'' @ '' is engine-generated and cannot be supplied on create; to import rows that keep their ids, declare '' @ goq ''import'' @ '' (with the granted roles) on this resource''
               else ''field '' @ goq field @ '' is engine-managed and cannot be supplied on create; to import rows that keep their timestamps, declare '' @ goq ''import'' @ '' (with the granted roles) on this resource''
           | Some imp \<Rightarrow>
               if impFields imp \<noteq> [] \<and> field \<notin> set (impFields imp)
               then ''field '' @ goq field @ '' is engine-managed and outside this resource'' @ [CHR 0x27] @ ''s declared '' @ goq ''import'' @ '' fields''
               else ''field '' @ goq field @ '' is engine-managed; this resource accepts it on create only from an import-granted role'')"

definition GovernedFieldViolations ::
  "ResourceSchema \<Rightarrow> goany gomap \<Rightarrow> GovernedOp \<Rightarrow> string \<Rightarrow> FieldRuleError list" where
  "GovernedFieldViolations r body op role =
     map (\<lambda>k. \<lparr>freField = k, freRule = ''read_only'', freMessage = governedMessage r k op\<rparr>)
       (filter (\<lambda>k. IsGovernedWriteField r k \<and> \<not> (op = GovernedCreate \<and> ImportableOnCreate r role k)) (sortedKeys body))"

section \<open>Facts about lifecycles\<close>

named_theorems lifecycle_simps "membership facts of the lifecycle operations"

lemma transitionsOf_key: "t \<in> set (transitionsOf sm f) \<Longrightarrow> f \<in> fst ` set (Transitions sm)"
  by (cases "gm_get (Transitions sm) f") (auto simp: transitionsOf_def dest: map_of_SomeD intro: rev_image_eqI)

lemma OriginsOf_iff [lifecycle_simps]: "f \<in> set (OriginsOf sm t) \<longleftrightarrow> t \<in> set (transitionsOf sm f)"
  by (auto simp: OriginsOf_def dest: transitionsOf_key)

lemma IsTerminal_iff [lifecycle_simps]: "IsTerminal sm f \<longleftrightarrow> (\<forall>t. f \<notin> set (OriginsOf sm t))"
  by (auto simp: IsTerminal_def OriginsOf_iff)

lemma KnownStates_Initial [lifecycle_simps]: "IsInitial sm s \<Longrightarrow> s \<in> set (KnownStates sm)"
  by (simp add: KnownStates_def IsInitial_def)

lemma KnownStates_step [lifecycle_simps]:
  assumes "t \<in> set (transitionsOf sm f)"
  shows "f \<in> set (KnownStates sm) \<and> t \<in> set (KnownStates sm)"
proof -
  obtain tos where "gm_get (Transitions sm) f = Some tos" "t \<in> set tos"
    using assms by (cases "gm_get (Transitions sm) f") (auto simp: transitionsOf_def)
  then have "(f, tos) \<in> set (Transitions sm)" "t \<in> set tos" by (auto dest: map_of_SomeD)
  then show ?thesis by (force simp: KnownStates_def)
qed

section \<open>Round trips\<close>

lemma fold_put_distinct:
  "distinct (map fst ps) \<Longrightarrow> gm_get (fold (\<lambda>(k, v). gm_put k v) ps acc) k =
     (case gm_get ps k of Some v \<Rightarrow> Some v | None \<Rightarrow> gm_get acc k)"
proof (induction ps arbitrary: acc)
  case (Cons p ps)
  obtain a v where p: "p = (a, v)" by (cases p)
  have "gm_get ps a = None" using Cons.prems p by (simp add: map_of_eq_None_iff)
  then show ?case
    using Cons.IH [of "gm_put a v acc"] Cons.prems p by (auto simp: gm_get_put split: option.splits)
qed simp

lemma all_some_strings [simp]: "all_some (map (unmarshal_string \<circ> GStr) xs) = Some xs"
  by (induction xs) auto

lemma map_of_map_key: "map_of (map (\<lambda>k. (k, f k)) ks) k = (if k \<in> set ks then Some (f k) else None)"
  by (induction ks) auto

lemma unmarshalTransitions_marshal:
  assumes "distinct ks"
  shows "\<exists>ts. unmarshalTransitions (GObj (map (\<lambda>k. (k, marshalStrings (f k))) ks)) = Some ts \<and>
              (\<forall>k. gm_get ts k = (if k \<in> set ks then Some (f k) else None))"
proof -
  have "map (\<lambda>(k, v). map_option (Pair k) (unmarshal_strings v)) (map (\<lambda>k. (k, marshalStrings (f k))) ks)
        = map Some (map (\<lambda>k. (k, f k)) ks)"
    by (simp add: marshalStrings_def)
  then have "unmarshalTransitions (GObj (map (\<lambda>k. (k, marshalStrings (f k))) ks))
             = Some (fold (\<lambda>(k, v). gm_put k v) (map (\<lambda>k. (k, f k)) ks) [])"
    by (simp del: map_map)
  moreover have "gm_get (fold (\<lambda>(k, v). gm_put k v) (map (\<lambda>k. (k, f k)) ks) []) k
                 = (if k \<in> set ks then Some (f k) else None)" for k
    using fold_put_distinct [of "map (\<lambda>k. (k, f k)) ks" "[]" k] assms by (simp add: comp_def map_of_map_key)
  ultimately show ?thesis by blast
qed

text \<open>a lifecycle survives being written to JSON and read back: the initial states, every transition
  list and the declared waiting states, an explicit empty \<open>pending\<close> included, come back as they were,
  for every lifecycle that names an initial state.\<close>

theorem state_machine_json_roundtrip:
  assumes "Initial sm \<noteq> []" "gm_wf (Transitions sm)"
  shows "\<exists>sm'. UnmarshalStateMachine (MarshalStateMachine sm) = Some sm' \<and> Initial sm' = Initial sm \<and>
               Pending sm' = Pending sm \<and> (\<forall>s. gm_get (Transitions sm') s = gm_get (Transitions sm) s)"
proof -
  let ?ks = "sortedKeys (Transitions sm)"
  obtain ts where ts: "unmarshalTransitions (GObj (map (\<lambda>k. (k, marshalStrings (transitionsOf sm k))) ?ks)) = Some ts"
    "\<And>k. gm_get ts k = (if k \<in> set ?ks then Some (transitionsOf sm k) else None)"
    using unmarshalTransitions_marshal [OF distinct_sortedKeys [OF assms(2)], of "transitionsOf sm"] by blast
  have eq: "gm_get ts k = gm_get (Transitions sm) k" for k
  proof (cases "gm_get (Transitions sm) k")
    case None
    then show ?thesis using map_of_eq_None_iff [of "Transitions sm" k] by (simp add: ts(2))
  next
    case (Some tos)
    then show ?thesis by (auto simp: ts(2) transitionsOf_def dest: map_of_SomeD intro: rev_image_eqI)
  qed
  have init: "UnmarshalStringList (marshalStrings (Initial sm)) = Some (Initial sm)"
    by (simp add: UnmarshalStringList_def marshalStrings_def)
  have pend: "unmarshalPending (marshalStrings p) = Some (Some p)" for p
    by (simp add: unmarshalPending_def marshalStrings_def)
  have "UnmarshalStateMachine (MarshalStateMachine sm)
             = Some \<lparr>Initial = Initial sm, Transitions = ts, Pending = Pending sm\<rparr>"
    using assms(1) ts(1) init pend
    by (cases "Pending sm")
       (simp_all add: MarshalStateMachine_def jsonKey_def unmarshalPending_def [of GNil] del: unmarshalTransitions.simps)
  then show ?thesis using eq by auto
qed

text \<open>An order's lifecycle.\<close>

definition exOrder :: StateMachine where
  "exOrder = \<lparr>Initial = [''draft''],
     Transitions = [(''draft'', [''paid'', ''void'']), (''paid'', [''sent'']), (''sent'', [])], Pending = Some []\<rparr>"

theorem state_machine_json_roundtrip_witness:
  "\<exists>sm'. UnmarshalStateMachine (MarshalStateMachine exOrder) = Some sm' \<and> Initial sm' = [''draft''] \<and> Pending sm' = Some []"
  using state_machine_json_roundtrip [of exOrder] by (auto simp: exOrder_def gm_wf_def)

text \<open>The engine-managed marker survives JSON too, whatever it says.\<close>

lemma auto_json_roundtrip: "UnmarshalAuto (MarshalAuto a) = Some a"
  by (simp add: UnmarshalAuto_def MarshalAuto_def AutoLegacy_def AutoOff_def)

section \<open>Governed fields\<close>

lemma IsGovernedWriteField_iff: "IsGovernedWriteField r name \<longleftrightarrow> name \<in> set (GovernedWriteFields r)"
proof (cases "gm_get (Fields r) name")
  case None
  then show ?thesis unfolding IsGovernedWriteField_def GovernedWriteFields_def set_sort by auto
next
  case (Some fd)
  then have "name \<in> fst ` set (Fields r)" by (metis domI dom_map_of_conv_image_fst)
  then show ?thesis using Some unfolding IsGovernedWriteField_def GovernedWriteFields_def set_sort by auto
qed

text \<open>The engine-governed fields of a resource, its \<open>id\<close> and every automatic timestamp, can never be
  written by an update, and by a create exactly when the resource declares an import for the caller's
  role that covers the field; each offending field of the body is reported once, sorted by name.\<close>

theorem governed_fields_protected:
  assumes "gm_wf body"
  shows "map freField (GovernedFieldViolations r body op role) =
           filter (\<lambda>k. k \<in> set (GovernedWriteFields r) \<and>
                       (op = GovernedUpdate \<or> \<not> ImportableOnCreate r role k)) (sortedKeys body) \<and>
         distinct (map freField (GovernedFieldViolations r body op role)) \<and>
         ((\<forall>imp. Import r = Some imp \<longrightarrow> role \<notin> set (impRoles imp)) \<longrightarrow>
            (GovernedFieldViolations r body op role = []) = (set (GovernedWriteFields r) \<inter> fst ` set body = {}))"
proof -
  have eq: "map freField (GovernedFieldViolations r body op role) =
           filter (\<lambda>k. k \<in> set (GovernedWriteFields r) \<and>
                       (op = GovernedUpdate \<or> \<not> ImportableOnCreate r role k)) (sortedKeys body)"
    by (cases op) (simp_all add: GovernedFieldViolations_def comp_def IsGovernedWriteField_iff)
  moreover have "(GovernedFieldViolations r body op role = []) = (set (GovernedWriteFields r) \<inter> fst ` set body = {})"
    if "\<forall>imp. Import r = Some imp \<longrightarrow> role \<notin> set (impRoles imp)"
  proof -
    have "\<not> ImportableOnCreate r role k" for k
      using that by (auto simp: ImportableOnCreate_def split: option.splits)
    then have "map freField (GovernedFieldViolations r body op role) =
               filter (\<lambda>k. k \<in> set (GovernedWriteFields r)) (sortedKeys body)" using eq by simp
    then have "GovernedFieldViolations r body op role = [] \<longleftrightarrow>
               (\<forall>k\<in>fst ` set body. k \<notin> set (GovernedWriteFields r))"
      by (metis (mono_tags, lifting) filter_False filter_empty_conv map_is_Nil_conv set_sortedKeys)
    then show ?thesis by blast
  qed
  ultimately show ?thesis using distinct_sortedKeys [OF assms] by simp
qed

definition exStamped :: ResourceSchema where
  "exStamped = (zeroResource [(''title'', zeroField ''string''), (''created_at'', (zeroField ''time'')\<lparr>Auto := AutoCreate\<rparr>)])
     \<lparr>Import := Some \<lparr>impRoles = [''loader''], impFields = [''id''], impEmptyFields = False\<rparr>\<rparr>"

theorem governed_fields_protected_witness:
  "map freField (GovernedFieldViolations exStamped [(''title'', GStr ''t''), (''id'', GStr ''x''), (''created_at'', GNil)]
      GovernedCreate ''loader'') = [''created_at'']"
proof -
  let ?body = "[(''title'', GStr ''t''), (''id'', GStr ''x''), (''created_at'', GNil)]"
  have "gm_wf ?body" by code_simp
  moreover have "filter (\<lambda>k. k \<in> set (GovernedWriteFields exStamped) \<and>
           (GovernedCreate = GovernedUpdate \<or> \<not> ImportableOnCreate exStamped ''loader'' k)) (sortedKeys ?body) = [''created_at'']"
    by code_simp
  ultimately show ?thesis using governed_fields_protected [of ?body exStamped GovernedCreate "''loader''"] by presburger
qed

end
