(* ===== verification/Values.thy ===== *)
theory Values
  imports ApiSchema
begin

text \<open>
  Numbers and literals of a write: \<open>AsFloat64\<close> and \<open>IsIntegral\<close> of \<open>pkg/schema/rules.go\<close>, the SQL text of
  \<open>pkg/schema/ranges.go\<close>, and the record of library functions the write path calls.
\<close>

section \<open>The library functions\<close>

text \<open>
  What the code calls and the model does not define: hashing, JSON text, number and value formatting,
  regular expressions, URL, UUID, time-zone and time parsing.  \<open>timeParse layout text\<close> is the instant the
  text denotes, \<open>instant\<close> the instant of a \<open>time.Time\<close>.
\<close>

record Std =
  sha256Hex8 :: "string \<Rightarrow> string"
  jsonMarshal :: "goany \<Rightarrow> string option"
  jsonValid :: "string \<Rightarrow> bool"
  jsonCompact :: "string \<Rightarrow> string"
  fmtG :: "rat \<Rightarrow> string"
  fmtV :: "goany \<Rightarrow> string"
  runeCount :: "string \<Rightarrow> int"
  reCompiles :: "string \<Rightarrow> bool"
  reMatch :: "string \<Rightarrow> string \<Rightarrow> bool"
  uuidOk :: "string \<Rightarrow> bool"
  urlOk :: "string \<Rightarrow> bool"
  zoneOk :: "string \<Rightarrow> bool"
  timeParse :: "string \<Rightarrow> string \<Rightarrow> int option"
  instant :: "string \<Rightarrow> int"

text \<open>\<open>%v\<close> prints a string as it is.\<close>

definition sprintV :: "Std \<Rightarrow> goany \<Rightarrow> string" where
  "sprintV std v = (case v of GStr s \<Rightarrow> s | _ \<Rightarrow> fmtV std v)"

section \<open>Numbers\<close>

text \<open>The conversion of an integer to \<open>float64\<close>: exact below \<open>2 ^ 53\<close>, else rounded to nearest, ties to even.\<close>

function f64Shift :: "nat \<Rightarrow> nat" where
  "f64Shift n = (if n < 2 ^ 53 then 0 else Suc (f64Shift (n div 2)))"
  by pat_completeness auto

termination by (relation "measure id") auto

declare f64Shift.simps [simp del]

definition float64OfNat :: "nat \<Rightarrow> nat" where
  "float64OfNat n =
     (let k = f64Shift n; q = n div 2 ^ k; r = n mod 2 ^ k; half = 2 ^ (k - 1)
      in if k > 0 \<and> (r > half \<or> (r = half \<and> odd q)) then (q + 1) * 2 ^ k else q * 2 ^ k)"

definition float64OfInt :: "int \<Rightarrow> rat" where
  "float64OfInt i = (if i < 0 then - of_nat (float64OfNat (nat (- i))) else of_nat (float64OfNat (nat i)))"

fun AsFloat64 :: "goany \<Rightarrow> rat option" where
  "AsFloat64 (GFloat f) = Some f"
| "AsFloat64 (GInt i) = Some (float64OfInt i)"
| "AsFloat64 _ = None"

fun IsIntegral :: "goany \<Rightarrow> bool" where
  "IsIntegral (GInt _) = True"
| "IsIntegral (GFloat f) = (f = of_int \<lfloor>f\<rfloor>)"
| "IsIntegral _ = False"

lemma f64Shift_small: "n < 2 ^ 53 \<Longrightarrow> f64Shift n = 0"
  by (simp add: f64Shift.simps)

text \<open>Validating an integer as a \<open>float64\<close> loses nothing up to \<open>2 ^ 53\<close> in magnitude.\<close>

lemma float64OfInt_exact: "\<bar>i\<bar> < 2 ^ 53 \<Longrightarrow> float64OfInt i = of_int i"
  by (auto simp: float64OfInt_def float64OfNat_def f64Shift_small Let_def nat_less_iff)

section \<open>SQL text\<close>

text \<open>\<open>strings.ReplaceAll\<close> that doubles a quote character.\<close>

definition doubleQuotes :: "char \<Rightarrow> string \<Rightarrow> string" where
  "doubleQuotes q s = concat (map (\<lambda>c. if c = q then [q, q] else [c]) s)"

definition quoted :: "char \<Rightarrow> string \<Rightarrow> string" where
  "quoted q s = [q] @ doubleQuotes q s @ [q]"

definition pgIdent :: "string \<Rightarrow> string" where
  "pgIdent s = quoted (CHR 0x22) s"

definition pgLiteral :: "Std \<Rightarrow> goany \<Rightarrow> FieldDef \<Rightarrow> string" where
  "pgLiteral std v fd =
     (case v of
        GBool b \<Rightarrow> if b then ''true'' else ''false''
      | GStr x \<Rightarrow>
          (let lit = quoted (CHR 0x27) x
           in if fType fd = ''uuid'' \<or> fType fd = ''file'' then lit @ ''::uuid'' else lit)
      | _ \<Rightarrow>
          (case AsFloat64 v of
             Some f \<Rightarrow> if IsIntegral (GFloat f) then Itoa \<lfloor>f\<rfloor> else fmtG std f
           | None \<Rightarrow> quoted (CHR 0x27) (sprintV std v)))"

definition RangeExprSQL :: "string \<Rightarrow> string \<Rightarrow> string" where
  "RangeExprSQL startIdent endIdent =
     ''tstzrange('' @ startIdent @ '', '' @ endIdent @ '', '' @ [CHR 0x27] @ ''[)'' @ [CHR 0x27] @ '')''"

definition RangeCheckName :: "string \<Rightarrow> string \<Rightarrow> string" where
  "RangeCheckName table rangeName = ''chk_'' @ table @ ''_'' @ rangeName @ ''_order''"

definition RangeCheckExpression :: "string \<Rightarrow> string \<Rightarrow> string" where
  "RangeCheckExpression start end' =
     ''((('' @ start @ '' IS NULL) OR ('' @ end' @ '' IS NULL) OR ('' @ start @ '' < '' @ end' @ '')))''"

definition rangeDefinitionKey :: "Std \<Rightarrow> RangeDef \<Rightarrow> string" where
  "rangeDefinitionKey std r =
     Start r @ ''|'' @ End r @ ''|'' @
     (case NoOverlap r of
        None \<Rightarrow> []
      | Some no \<Rightarrow>
          join_with '','' (Scope no) @
          (case When no of
             None \<Rightarrow> []
           | Some w \<Rightarrow> ''|'' @ wnField w @ ''|'' @ wnOp w @ ''|'' @
                        (case jsonMarshal std (wnVal w) of Some raw \<Rightarrow> raw | None \<Rightarrow> [])))"

definition RangeExclusionName :: "Std \<Rightarrow> string \<Rightarrow> string \<Rightarrow> RangeDef \<Rightarrow> string" where
  "RangeExclusionName std table rangeName r =
     ''excl_'' @ table @ ''_'' @ rangeName @ ''_'' @ sha256Hex8 std (rangeDefinitionKey std r)"

definition WhenSQLPrefixed :: "Std \<Rightarrow> WhenDef \<Rightarrow> FieldDef gomap \<Rightarrow> string \<Rightarrow> string" where
  "WhenSQLPrefixed std w fds pre =
     ''('' @ pre @ pgIdent (wnField w) @ '' '' @ (if wnOp w = ''ne'' then ''<>'' else ''='') @ '' '' @
     pgLiteral std (wnVal w) (case gm_get fds (wnField w) of Some fd \<Rightarrow> fd | None \<Rightarrow> zeroField []) @ '')''"

definition WhenSQL :: "Std \<Rightarrow> WhenDef \<Rightarrow> FieldDef gomap \<Rightarrow> string" where
  "WhenSQL std w fds = WhenSQLPrefixed std w fds []"

definition RangeExclusionDefinition :: "Std \<Rightarrow> RangeDef \<Rightarrow> FieldDef gomap \<Rightarrow> string" where
  "RangeExclusionDefinition std r fds =
     (let scope = (case NoOverlap r of None \<Rightarrow> [] | Some no \<Rightarrow> map (\<lambda>c. pgIdent c @ '' WITH ='') (Scope no));
          elems = scope @ [RangeExprSQL (pgIdent (Start r)) (pgIdent (End r)) @ '' WITH &&''];
          when' = (case NoOverlap r of None \<Rightarrow> [] | Some no \<Rightarrow>
                     (case When no of None \<Rightarrow> [] | Some w \<Rightarrow> '' AND '' @ WhenSQL std w fds))
      in ''EXCLUDE USING gist ('' @ join_with '', '' elems @ '') WHERE ('' @
         pgIdent (Start r) @ '' IS NOT NULL AND '' @ pgIdent (End r) @ '' IS NOT NULL'' @ when' @ '')'')"

section \<open>Ranges of a row\<close>

definition RangeNames :: "ResourceSchema \<Rightarrow> string list" where
  "RangeNames r = sortedKeys (Ranges r)"

definition HasNoOverlap :: "APISchema \<Rightarrow> bool" where
  "HasNoOverlap s =
     list_ex (\<lambda>(_, r). list_ex (\<lambda>(_, rg). NoOverlap rg \<noteq> None) (Ranges r)) (asResources s)"

definition literalEqual :: "Std \<Rightarrow> goany \<Rightarrow> goany \<Rightarrow> bool" where
  "literalEqual std a b =
     (case (AsFloat64 a, AsFloat64 b) of
        (Some fa, Some fb) \<Rightarrow> fa = fb
      | _ \<Rightarrow> sprintV std a = sprintV std b)"

definition WhenHolds :: "Std \<Rightarrow> WhenDef \<Rightarrow> goany gomap \<Rightarrow> bool" where
  "WhenHolds std w row =
     (case gm_get row (wnField w) of
        None \<Rightarrow> False
      | Some v \<Rightarrow>
          if v = GNil then False
          else let eq = literalEqual std v (wnVal w) in if wnOp w = ''ne'' then \<not> eq else eq)"

definition timeLayouts :: "string list" where
  "timeLayouts = [''2006-01-02T15:04:05.999999999Z07:00'', ''2006-01-02T15:04:05Z07:00'', ''2006-01-02T15:04:05'',
                  ''2006-01-02 15:04:05Z07:00'', ''2006-01-02 15:04:05'']"

fun firstSome :: "('a \<Rightarrow> 'b option) \<Rightarrow> 'a list \<Rightarrow> 'b option" where
  "firstSome f [] = None"
| "firstSome f (x # xs) = (case f x of Some y \<Rightarrow> Some y | None \<Rightarrow> firstSome f xs)"

definition parseTimeValue :: "Std \<Rightarrow> goany option \<Rightarrow> int option" where
  "parseTimeValue std v =
     (case v of
        Some (GTime t) \<Rightarrow> Some (instant std t)
      | Some (GStr x) \<Rightarrow> firstSome (\<lambda>layout. timeParse std layout x) timeLayouts
      | _ \<Rightarrow> None)"

definition rangeViolation :: "Std \<Rightarrow> goany gomap \<Rightarrow> string \<Rightarrow> RangeDef \<Rightarrow> FieldRuleError list" where
  "rangeViolation std body name r =
     (case (parseTimeValue std (gm_get body (Start r)), parseTimeValue std (gm_get body (End r))) of
        (Some st, Some en) \<Rightarrow>
          if \<not> en > st
          then [\<lparr>freField = End r, freRule = ''range_order'',
                 freMessage = ''must be after '' @ Start r @ '' (range '' @ goq name @ '')''\<rparr>]
          else []
      | _ \<Rightarrow> [])"

definition RangeOrderViolations :: "Std \<Rightarrow> ResourceSchema \<Rightarrow> goany gomap \<Rightarrow> FieldRuleError list" where
  "RangeOrderViolations std res body =
     concat (map (\<lambda>name. case gm_get (Ranges res) name of Some r \<Rightarrow> rangeViolation std body name r | None \<Rightarrow> [])
                 (RangeNames res))"

definition ValidateTimezoneName :: "Std \<Rightarrow> string \<Rightarrow> bool" where
  "ValidateTimezoneName std s =
     (if s = [] \<or> HasPrefix s ''+'' \<or> HasPrefix s ''-'' \<or> CHR '' '' \<in> set s \<or> CHR 0x09 \<in> set s then False
      else if HasPrefix s ''UTC+'' \<or> HasPrefix s ''UTC-'' \<or> HasPrefix s ''GMT+'' \<or> HasPrefix s ''GMT-'' then False
      else zoneOk std s)"

section \<open>A quoted text cannot end early\<close>

text \<open>How PostgreSQL reads a quoted identifier or literal: up to the first quote that is not doubled.\<close>

fun readBody :: "char \<Rightarrow> string \<Rightarrow> (string \<times> string) option" where
  "readBody q [] = None"
| "readBody q (c # cs) =
     (if c \<noteq> q then map_option (\<lambda>(s, rest). (c # s, rest)) (readBody q cs)
      else case cs of
             d # ds \<Rightarrow> if d = q then map_option (\<lambda>(s, rest). (q # s, rest)) (readBody q ds) else Some ([], cs)
           | [] \<Rightarrow> Some ([], []))"

fun readQuoted :: "char \<Rightarrow> string \<Rightarrow> (string \<times> string) option" where
  "readQuoted q [] = None"
| "readQuoted q (c # cs) = (if c = q then readBody q cs else None)"

lemma readBody_quoted:
  "\<not> HasPrefix rest [q] \<Longrightarrow> readBody q (doubleQuotes q s @ [q] @ rest) = Some (s, rest)"
proof (induction s)
  case Nil
  then show ?case by (cases rest) (auto simp: doubleQuotes_def HasPrefix_def)
qed (auto simp: doubleQuotes_def)

text \<open>C40: the SQL text of an identifier or of a string literal reads back as exactly the string it was made
  from, whatever quotes, semicolons or comments it holds, and whatever text follows: a value or a name can
  never break out of its quotes.\<close>

theorem sql_quoting_roundtrip:
  assumes "\<not> HasPrefix rest [CHR 0x22]" "\<not> HasPrefix rest' [CHR 0x27]" "fType fd \<noteq> ''uuid''" "fType fd \<noteq> ''file''"
  shows "readQuoted (CHR 0x22) (pgIdent name @ rest) = Some (name, rest) \<and>
         readQuoted (CHR 0x27) (pgLiteral std (GStr lit) fd @ rest') = Some (lit, rest')"
  using assms readBody_quoted [of rest "CHR 0x22" name] readBody_quoted [of rest' "CHR 0x27" lit]
  by (simp add: pgIdent_def pgLiteral_def quoted_def Let_def)

definition exStd :: Std where
  "exStd = \<lparr>sha256Hex8 = (\<lambda>_. ''0a1b2c3d''), jsonMarshal = (\<lambda>v. case v of GStr s \<Rightarrow> Some (goq s) | GBool b \<Rightarrow> Some (if b then ''true'' else ''false'') | _ \<Rightarrow> None),
     jsonValid = (\<lambda>s. s = ''true'' \<or> s = ''false'' \<or> s = ''null''), jsonCompact = (\<lambda>s. s), fmtG = (\<lambda>_. ''?''), fmtV = (\<lambda>_. ''?''),
     runeCount = (\<lambda>s. int (length s)), reCompiles = (\<lambda>_. True), reMatch = (\<lambda>_ _. True), uuidOk = (\<lambda>s. length s = 36),
     urlOk = (\<lambda>_. True), zoneOk = (\<lambda>_. True), timeParse = (\<lambda>_. Atoi), instant = (\<lambda>_. 0)\<rparr>"

theorem sql_quoting_roundtrip_witness:
  "readQuoted (CHR 0x27) (pgLiteral exStd (GStr [CHR 0x27, CHR '';'', CHR 0x27]) (zeroField ''string'') @ '' AND'')
     = Some ([CHR 0x27, CHR '';'', CHR 0x27], '' AND'')"
  using sql_quoting_roundtrip [of "[]" "'' AND''" "zeroField ''string''" "[]" exStd "[CHR 0x27, CHR '';'', CHR 0x27]"]
  by (simp add: HasPrefix_def zeroField_def)

end
