(* ===== verification/Desired.thy ===== *)
theory Desired
  imports SchemaModel Values
begin

text \<open>
  \<open>pkg/migration/desired.go\<close> (with \<open>addRanges\<close> of \<open>ranges.go\<close> and \<open>relationIndexTargets\<close> of \<open>runner.go\<close>): the
  relational schema a tenant's API schema asks for.  The Go code fills tables through pointers; here each
  pass is a fold that updates the table in the schema's map.
\<close>

section \<open>Passes over the tables\<close>

definition putTable :: "string \<Rightarrow> Table \<Rightarrow> Schema \<Rightarrow> Schema" where
  "putTable n t ds = ds\<lparr>Tables := gm_put n t (Tables ds)\<rparr>"

definition modTable :: "string \<Rightarrow> (Table \<Rightarrow> Table) \<Rightarrow> Schema \<Rightarrow> Schema" where
  "modTable n f ds = (case gm_get (Tables ds) n of None \<Rightarrow> ds | Some t \<Rightarrow> putTable n (f t) ds)"

text \<open>Reading a Go map at an absent key gives the zero value.\<close>

definition resourceOf :: "APISchema \<Rightarrow> string \<Rightarrow> ResourceSchema" where
  "resourceOf s n = (case gm_get (asResources s) n of Some r \<Rightarrow> r | None \<Rightarrow> zeroResource [])"

definition fieldOf :: "ResourceSchema \<Rightarrow> string \<Rightarrow> FieldDef" where
  "fieldOf r n = (case gm_get (Fields r) n of Some f \<Rightarrow> f | None \<Rightarrow> zeroField [])"

definition sortedResourceNames :: "APISchema \<Rightarrow> string list" where
  "sortedResourceNames s = sortedKeys (asResources s)"

definition sortedFieldNames :: "ResourceSchema \<Rightarrow> string list" where
  "sortedFieldNames r = sortedKeys (Fields r)"

section \<open>Columns\<close>

definition idColumn :: Column where
  "idColumn = \<lparr>cName = ''id'', cRenamedFrom = [], cType = mkType BaseUUID, NotNull = True,
               Default = Some ''gen_random_uuid()'', cIdentity = None\<rparr>"

definition regularColumn :: "string \<Rightarrow> FieldDef \<Rightarrow> Column" where
  "regularColumn name f = \<lparr>cName = name, cRenamedFrom = fRenamedFrom f, cType = TypeForAPIType (fType f),
                           NotNull = Required f, Default = None, cIdentity = None\<rparr>"

definition autoColumn :: "string \<Rightarrow> FieldDef \<Rightarrow> Column" where
  "autoColumn name f = \<lparr>cName = name, cRenamedFrom = fRenamedFrom f, cType = mkType BaseTimestamptz,
                        NotNull = False, Default = Some ''now()'', cIdentity = None\<rparr>"

definition uniqueSymbol :: "string \<Rightarrow> string \<Rightarrow> string" where
  "uniqueSymbol resName name = resName @ ''_'' @ name @ ''_key''"

definition addRegular :: "string \<Rightarrow> ResourceSchema \<Rightarrow> string \<Rightarrow> Table \<Rightarrow> Table" where
  "addRegular resName res name t =
     (let f = fieldOf res name; t' = AddColumnT (regularColumn name f) t; symb = uniqueSymbol resName name
      in if fUnique f
         then t'\<lparr>Uniques := gm_put symb \<lparr>uqSymbol = symb, uqColumns = [name]\<rparr> (Uniques t')\<rparr> else t')"

definition addAuto :: "ResourceSchema \<Rightarrow> string \<Rightarrow> Table \<Rightarrow> Table" where
  "addAuto res name t = AddColumnT (autoColumn name (fieldOf res name)) t"

definition regularFields :: "ResourceSchema \<Rightarrow> string list" where
  "regularFields res = filter (\<lambda>n. n \<noteq> ''id'' \<and> \<not> Enabled (Auto (fieldOf res n))) (sortedFieldNames res)"

definition autoFields :: "ResourceSchema \<Rightarrow> string list" where
  "autoFields res = filter (\<lambda>n. n \<noteq> ''id'' \<and> Enabled (Auto (fieldOf res n))) (sortedFieldNames res)"

definition baseTable :: "string \<Rightarrow> ResourceSchema \<Rightarrow> Table" where
  "baseTable resName res =
     (AddColumnT idColumn ((NewTable resName)\<lparr>tRenamedFrom := rsRenamedFrom res\<rparr>))
       \<lparr>PK := Some \<lparr>pkName = resName @ ''_pkey'', pkColumns = [''id'']\<rparr>\<rparr>"

definition desiredTable :: "string \<Rightarrow> ResourceSchema \<Rightarrow> Table" where
  "desiredTable resName res =
     fold (addAuto res) (autoFields res) (fold (addRegular resName res) (regularFields res) (baseTable resName res))"

definition desiredTables :: "string \<Rightarrow> APISchema \<Rightarrow> Schema" where
  "desiredTables pgSchema s =
     fold (\<lambda>n. putTable n (desiredTable n (resourceOf s n))) (sortedResourceNames s) (NewSchema pgSchema)"

section \<open>Foreign keys\<close>

definition refActionForOnDelete :: "string \<Rightarrow> RefAction" where
  "refActionForOnDelete onDelete =
     (if onDelete = ''cascade'' then Cascade else if onDelete = ''set_null'' then SetNull else Restrict)"

definition refActionForOnUpdate :: "string \<Rightarrow> RefAction" where
  "refActionForOnUpdate onUpdate =
     (if onUpdate = ''cascade'' then Cascade else if onUpdate = ''set_null'' then SetNull
      else if onUpdate = ''restrict'' then Restrict else NoAction)"

definition refColumnOrID :: "string \<Rightarrow> string" where
  "refColumnOrID refs = (if refs = [] then ''id'' else refs)"

definition fkConstraintName :: "string \<Rightarrow> string \<Rightarrow> string" where
  "fkConstraintName table column = ''fk_'' @ table @ ''_'' @ column"

definition compositeFKConstraintName :: "string \<Rightarrow> string list \<Rightarrow> string" where
  "compositeFKConstraintName table columns = ''fk_'' @ table @ ''_'' @ join_with ''_'' columns"

definition btreeIndex :: "string \<Rightarrow> string list \<Rightarrow> Index" where
  "btreeIndex name cols = \<lparr>ixName = name, ixColumns = cols, ixUnique = False, ixMethod = ''btree'', ixPredicate = [], ixOpclass = []\<rparr>"

definition putIndex :: "Index \<Rightarrow> Table \<Rightarrow> Table" where
  "putIndex ix t = t\<lparr>Indexes := gm_put (ixName ix) ix (Indexes t)\<rparr>"

definition ensureIndex :: "string \<Rightarrow> string list \<Rightarrow> Table \<Rightarrow> Table" where
  "ensureIndex idxName cols t = (if gm_has (Indexes t) idxName then t else putIndex (btreeIndex idxName cols) t)"

definition putFK :: "ForeignKey \<Rightarrow> Table \<Rightarrow> Table" where
  "putFK fk t = t\<lparr>FKs := gm_put (fkSymbol fk) fk (FKs t)\<rparr>"

definition fileFK :: "string \<Rightarrow> string \<Rightarrow> FieldDef \<Rightarrow> ForeignKey" where
  "fileFK resName fieldName f =
     \<lparr>fkSymbol = fkConstraintName resName fieldName, fkColumns = [fieldName], RefTable = ''files'', RefColumns = [''id''],
      OnDelete = refActionForOnDelete (fOnDelete f), OnUpdate = NoAction\<rparr>"

definition relationFK :: "string \<Rightarrow> string \<Rightarrow> FieldDef \<Rightarrow> ForeignKey" where
  "relationFK resName fieldName f =
     \<lparr>fkSymbol = fkConstraintName resName fieldName, fkColumns = [fieldName], RefTable = Relation f,
      RefColumns = [refColumnOrID (References f)], OnDelete = refActionForOnDelete (fOnDelete f),
      OnUpdate = refActionForOnUpdate (fOnUpdate f)\<rparr>"

definition addFieldFK :: "Schema \<Rightarrow> string \<Rightarrow> ResourceSchema \<Rightarrow> string \<Rightarrow> Table \<Rightarrow> Table" where
  "addFieldFK ds resName res fieldName t =
     (let f = fieldOf res fieldName; idxName = ''idx_'' @ resName @ ''_'' @ fieldName
      in if fType f = ''file'' then ensureIndex idxName [fieldName] (putFK (fileFK resName fieldName f) t)
         else if Relation f = [] then t
         else if \<not> gm_has (Tables ds) (Relation f) then t
         else ensureIndex idxName [fieldName] (putFK (relationFK resName fieldName f) t))"

definition addForeignKeys :: "Schema \<Rightarrow> APISchema \<Rightarrow> string list \<Rightarrow> Schema" where
  "addForeignKeys ds s names =
     fold (\<lambda>n ds'. modTable n (fold (addFieldFK ds n (resourceOf s n)) (sortedFieldNames (resourceOf s n))) ds') names ds"

definition compositeFK :: "string \<Rightarrow> ForeignKeyDef \<Rightarrow> ForeignKey" where
  "compositeFK resName fk =
     \<lparr>fkSymbol = compositeFKConstraintName resName (fdColumns fk), fkColumns = fdColumns fk, RefTable = fdTarget fk,
      RefColumns = fdRefColumns fk, OnDelete = refActionForOnDelete (fdOnDelete fk), OnUpdate = refActionForOnUpdate (fdOnUpdate fk)\<rparr>"

definition addCompositeFK :: "Schema \<Rightarrow> string \<Rightarrow> ForeignKeyDef \<Rightarrow> Table \<Rightarrow> Table" where
  "addCompositeFK ds resName fk t =
     (if \<not> gm_has (Tables ds) (fdTarget fk) then t
      else ensureIndex (''idx_'' @ resName @ ''_'' @ join_with ''_'' (fdColumns fk)) (fdColumns fk) (putFK (compositeFK resName fk) t))"

definition addCompositeForeignKeys :: "Schema \<Rightarrow> APISchema \<Rightarrow> string list \<Rightarrow> Schema" where
  "addCompositeForeignKeys ds s names =
     fold (\<lambda>n ds'. modTable n (fold (addCompositeFK ds n) (ForeignKeys (resourceOf s n))) ds') names ds"

section \<open>Indexes and ranges\<close>

definition relationTargetsOf :: "string \<Rightarrow> RelationDef \<Rightarrow> (string \<times> string) list" where
  "relationTargetsOf resName rel =
     (if relType rel = ''has_many'' then [(relTarget rel, relFK rel)]
      else if relType rel = ''belongs_to'' then [(resName, relFK rel)]
      else if relType rel = ''many_to_many'' then [(Through rel, relFK rel), (Through rel, TargetFK rel)]
      else [])"

definition relationIndexTargets :: "string \<Rightarrow> ResourceSchema \<Rightarrow> (string \<times> string) list" where
  "relationIndexTargets resName res = concat (map (\<lambda>(_, rel). relationTargetsOf resName rel) (Relations res))"

definition addRelationIndex :: "string \<times> string \<Rightarrow> string list \<times> Schema \<Rightarrow> string list \<times> Schema" where
  "addRelationIndex target st =
     (case (target, st) of
        ((table, column), (seen, ds)) \<Rightarrow>
          (let key = table @ ''.'' @ column
           in if key \<in> set seen then st
              else (key # seen,
                    modTable table (\<lambda>t. if gm_has (Columns t) column
                                        then putIndex (btreeIndex (''idx_'' @ table @ ''_'' @ column) [column]) t else t) ds)))"

definition addRelationIndexes :: "Schema \<Rightarrow> APISchema \<Rightarrow> string list \<Rightarrow> Schema" where
  "addRelationIndexes ds s names =
     snd (fold addRelationIndex (concat (map (\<lambda>n. relationIndexTargets n (resourceOf s n)) names)) ([], ds))"

definition declaredIndexName :: "string \<Rightarrow> IndexDef \<Rightarrow> string" where
  "declaredIndexName resName ix =
     (let meth = (if idMethod ix = [] then ''btree'' else idMethod ix)
      in (if idUnique ix then ''uniq'' else ''idx'') @ ''_'' @ resName @ ''_'' @ join_with ''_'' (idFields ix) @
         (if meth \<noteq> ''btree'' then ''_'' @ meth else []))"

definition addDeclaredIndex :: "string \<Rightarrow> IndexDef \<Rightarrow> Table \<Rightarrow> Table" where
  "addDeclaredIndex resName ix t =
     (if idFields ix = [] \<or> \<not> list_all (gm_has (Columns t)) (idFields ix) then t
      else putIndex \<lparr>ixName = declaredIndexName resName ix, ixColumns = idFields ix, ixUnique = idUnique ix,
                     ixMethod = (if idMethod ix = [] then ''btree'' else idMethod ix), ixPredicate = [], ixOpclass = idOpclass ix\<rparr> t)"

definition addDeclaredIndexes :: "Schema \<Rightarrow> APISchema \<Rightarrow> string list \<Rightarrow> Schema" where
  "addDeclaredIndexes ds s names =
     fold (\<lambda>n. modTable n (fold (addDeclaredIndex n) (rsIndexes (resourceOf s n)))) names ds"

definition addRange :: "Std \<Rightarrow> string \<Rightarrow> ResourceSchema \<Rightarrow> string \<Rightarrow> Table \<Rightarrow> Table" where
  "addRange std resName res rangeName t =
     (case gm_get (Ranges res) rangeName of
        None \<Rightarrow> t
      | Some r \<Rightarrow>
          if \<not> gm_has (Columns t) (Start r) \<or> \<not> gm_has (Columns t) (End r) then t
          else
            (let chk = RangeCheckName resName rangeName;
                 t' = t\<lparr>Checks := gm_put chk \<lparr>ckSymbol = chk, ckExpression = RangeCheckExpression (Start r) (End r)\<rparr> (Checks t)\<rparr>;
                 symb = RangeExclusionName std resName rangeName r
             in if NoOverlap r = None then t'
                else t'\<lparr>Exclusions := gm_put symb \<lparr>exSymbol = symb, exDefinition = RangeExclusionDefinition std r (Fields res)\<rparr>
                                               (Exclusions t')\<rparr>))"

definition addRanges :: "Std \<Rightarrow> Schema \<Rightarrow> APISchema \<Rightarrow> string list \<Rightarrow> Schema" where
  "addRanges std ds s names =
     fold (\<lambda>n. modTable n (fold (addRange std n (resourceOf s n)) (RangeNames (resourceOf s n)))) names ds"

definition buildDesiredSchema :: "Std \<Rightarrow> string \<Rightarrow> APISchema \<Rightarrow> Schema" where
  "buildDesiredSchema std pgSchema s =
     (let names = sortedResourceNames s;
          ds0 = desiredTables pgSchema s;
          ds1 = addForeignKeys ds0 s names;
          ds2 = addCompositeForeignKeys ds1 s names;
          ds3 = addRelationIndexes ds2 s names;
          ds4 = addDeclaredIndexes ds3 s names
      in addRanges std ds4 s names)"

section \<open>What the passes keep\<close>

text \<open>A pass changes a table outside a view of it, and keeps it well formed.\<close>

definition keeps :: "(Table \<Rightarrow> 'v) \<Rightarrow> (Table \<Rightarrow> Table) \<Rightarrow> bool" where
  "keeps v f \<longleftrightarrow> (\<forall>t. v (f t) = v t \<and> (wf_table t \<longrightarrow> wf_table (f t)))"

definition keepsS :: "(Table \<Rightarrow> 'v) \<Rightarrow> Schema \<Rightarrow> Schema \<Rightarrow> bool" where
  "keepsS v ds ds' \<longleftrightarrow>
     (\<forall>n. rel_option (\<lambda>t t'. v t' = v t \<and> (wf_table t \<longrightarrow> wf_table t')) (gm_get (Tables ds) n) (gm_get (Tables ds') n)) \<and>
     (gm_wf (Tables ds) \<longrightarrow> gm_wf (Tables ds'))"

abbreviation tableCore :: "Table \<Rightarrow> string \<times> string \<times> Column gomap \<times> string list \<times> PrimaryKey option \<times> UniqueConstraint gomap" where
  "tableCore t \<equiv> (tName t, tRenamedFrom t, Columns t, ColumnOrder t, PK t, Uniques t)"

abbreviation tableKeys :: "Table \<Rightarrow> (string \<times> string \<times> Column gomap \<times> string list \<times> PrimaryKey option \<times> UniqueConstraint gomap) \<times> ForeignKey gomap" where
  "tableKeys t \<equiv> (tableCore t, FKs t)"

lemma keeps_fold: "(\<And>x. keeps v (f x)) \<Longrightarrow> keeps v (fold f xs)"
  by (induction xs) (auto simp: keeps_def)

lemma keepsS_refl [simp]: "keepsS v ds ds"
  by (auto simp: keepsS_def option.rel_refl)

lemma keepsS_trans [trans]:
  assumes "keepsS v ds1 ds2" "keepsS v ds2 ds3"
  shows "keepsS v ds1 ds3"
proof -
  have "rel_option (\<lambda>t t'. v t' = v t \<and> (wf_table t \<longrightarrow> wf_table t')) (gm_get (Tables ds1) n) (gm_get (Tables ds3) n)" for n
  proof -
    have "rel_option (\<lambda>t t'. v t' = v t \<and> (wf_table t \<longrightarrow> wf_table t')) (gm_get (Tables ds1) n) (gm_get (Tables ds2) n)"
         "rel_option (\<lambda>t t'. v t' = v t \<and> (wf_table t \<longrightarrow> wf_table t')) (gm_get (Tables ds2) n) (gm_get (Tables ds3) n)"
      using assms by (auto simp: keepsS_def)
    then show ?thesis by (fastforce simp: option.rel_sel)
  qed
  then show ?thesis using assms by (auto simp: keepsS_def)
qed

lemma keepsS_get:
  assumes "keepsS v ds ds'"
  shows "gm_get (Tables ds') n = Some t' \<Longrightarrow> \<exists>t. gm_get (Tables ds) n = Some t \<and> v t' = v t \<and> (wf_table t \<longrightarrow> wf_table t')"
    and "gm_get (Tables ds) n = Some t \<Longrightarrow> \<exists>t'. gm_get (Tables ds') n = Some t' \<and> v t' = v t"
proof -
  have "rel_option (\<lambda>t t'. v t' = v t \<and> (wf_table t \<longrightarrow> wf_table t')) (gm_get (Tables ds) n) (gm_get (Tables ds') n)"
    using assms by (simp add: keepsS_def)
  then show "gm_get (Tables ds') n = Some t' \<Longrightarrow> \<exists>t. gm_get (Tables ds) n = Some t \<and> v t' = v t \<and> (wf_table t \<longrightarrow> wf_table t')"
    and "gm_get (Tables ds) n = Some t \<Longrightarrow> \<exists>t'. gm_get (Tables ds') n = Some t' \<and> v t' = v t"
    by (auto elim: option.rel_cases)
qed

lemma gm_get_modTable:
  "gm_get (Tables (modTable n f ds)) k = (if k = n then map_option f (gm_get (Tables ds) n) else gm_get (Tables ds) k)"
  by (auto simp: modTable_def putTable_def gm_get_put split: option.splits)

lemma keepsS_modTable:
  assumes "keeps v f"
  shows "keepsS v ds (modTable n f ds)"
proof -
  have "gm_wf (Tables (modTable n f ds))" if "gm_wf (Tables ds)"
    using that by (auto simp: modTable_def putTable_def split: option.splits)
  then show ?thesis
    using assms by (auto simp: keepsS_def keeps_def gm_get_modTable option.rel_sel option.map_sel)
qed

lemma keepsS_fold:
  assumes "\<And>x ds. keepsS v ds (f x ds)"
  shows "keepsS v ds (fold f xs ds)"
proof (induction xs arbitrary: ds)
  case (Cons x xs)
  then show ?case using keepsS_trans [OF assms [of ds x] Cons.IH [of "f x ds"]] by simp
qed simp

lemma keepsS_weaken: "keepsS tableKeys ds ds' \<Longrightarrow> keepsS tableCore ds ds'"
  by (auto simp: keepsS_def elim!: option.rel_mono_strong)

lemma keeps_putFK: "keeps tableCore (putFK fk)"
  by (auto simp: keeps_def putFK_def wf_table_def keyed_by_put)

lemma keeps_putIndex: "keeps tableKeys (putIndex ix)"
  by (auto simp: keeps_def putIndex_def wf_table_def keyed_by_put)

lemma keeps_ensureIndex: "keeps tableKeys (ensureIndex n cols)"
  using keeps_putIndex by (auto simp: keeps_def ensureIndex_def btreeIndex_def)

lemma keeps_core: "keeps tableKeys f \<Longrightarrow> keeps tableCore f"
  by (auto simp: keeps_def)

lemma keeps_comp: "keeps v f \<Longrightarrow> keeps v g \<Longrightarrow> keeps v (\<lambda>t. f (g t))"
  by (auto simp: keeps_def)

lemma keeps_if: "(b \<Longrightarrow> keeps v f) \<Longrightarrow> (\<not> b \<Longrightarrow> keeps v g) \<Longrightarrow> keeps v (\<lambda>t. if b then f t else g t)"
  by (cases b) simp_all

lemma keeps_if_table: "keeps v f \<Longrightarrow> keeps v (\<lambda>t. if b t then f t else t)"
  by (auto simp: keeps_def)

lemma keeps_id: "keeps v (\<lambda>t. t)"
  by (simp add: keeps_def)

lemma keeps_addFieldFK: "keeps tableCore (addFieldFK ds n res f)"
  unfolding addFieldFK_def Let_def
  by (intro keeps_if keeps_id keeps_comp [OF keeps_core [OF keeps_ensureIndex] keeps_putFK])

lemma keeps_addCompositeFK: "keeps tableCore (addCompositeFK ds n fk)"
  unfolding addCompositeFK_def
  by (intro keeps_if keeps_id keeps_comp [OF keeps_core [OF keeps_ensureIndex] keeps_putFK])

lemma keeps_addDeclaredIndex: "keeps tableKeys (addDeclaredIndex n ix)"
  using keeps_putIndex by (auto simp: keeps_def addDeclaredIndex_def)

lemma keeps_addRange: "keeps tableKeys (addRange std n res r)"
  by (cases "gm_get (Ranges res) r") (auto simp: keeps_def addRange_def Let_def wf_table_def keyed_by_put)

lemma keepsS_addRelationIndex: "keepsS tableKeys (snd st) (snd (addRelationIndex target st))"
proof -
  have "keepsS tableKeys ds (modTable table (\<lambda>t. if gm_has (Columns t) c then putIndex ix t else t) ds)" for ds table c ix
    by (intro keepsS_modTable keeps_if_table keeps_putIndex)
  then show ?thesis by (auto simp: addRelationIndex_def Let_def split: prod.splits)
qed

lemma keepsS_addRelationIndexes: "keepsS tableKeys ds (addRelationIndexes ds s names)"
proof -
  have "keepsS tableKeys (snd st) (snd (fold addRelationIndex ts st))" for ts st
  proof (induction ts arbitrary: st)
    case (Cons t ts)
    then show ?case using keepsS_trans [OF keepsS_addRelationIndex Cons.IH] by simp
  qed simp
  from this [of "([], ds)"] show ?thesis by (simp add: addRelationIndexes_def)
qed

lemma keepsS_foreign: "keepsS tableCore ds (addCompositeForeignKeys (addForeignKeys ds s names) s names)"
proof -
  have "keepsS tableCore ds (addForeignKeys ds s names)"
    unfolding addForeignKeys_def by (intro keepsS_fold keepsS_modTable keeps_fold keeps_addFieldFK)
  also have "keepsS tableCore (addForeignKeys ds s names) (addCompositeForeignKeys (addForeignKeys ds s names) s names)"
    unfolding addCompositeForeignKeys_def by (intro keepsS_fold keepsS_modTable keeps_fold keeps_addCompositeFK)
  finally show ?thesis .
qed

definition desiredKeys :: "string \<Rightarrow> APISchema \<Rightarrow> Schema" where
  "desiredKeys pgSchema s =
     addCompositeForeignKeys (addForeignKeys (desiredTables pgSchema s) s (sortedResourceNames s)) s (sortedResourceNames s)"

lemma keepsS_rest: "keepsS tableKeys (desiredKeys pgSchema s) (buildDesiredSchema std pgSchema s)"
proof -
  let ?n = "sortedResourceNames s" and ?ds = "desiredKeys pgSchema s"
  have "keepsS tableKeys ?ds (addRelationIndexes ?ds s ?n)" by (rule keepsS_addRelationIndexes)
  also have "keepsS tableKeys (addRelationIndexes ?ds s ?n) (addDeclaredIndexes (addRelationIndexes ?ds s ?n) s ?n)"
    unfolding addDeclaredIndexes_def by (intro keepsS_fold keepsS_modTable keeps_fold keeps_addDeclaredIndex)
  also have "keepsS tableKeys (addDeclaredIndexes (addRelationIndexes ?ds s ?n) s ?n) (buildDesiredSchema std pgSchema s)"
    unfolding buildDesiredSchema_def addRanges_def Let_def desiredKeys_def
    by (intro keepsS_fold keepsS_modTable keeps_fold keeps_addRange)
  finally show ?thesis .
qed

lemma keepsS_all: "keepsS tableCore (desiredTables pgSchema s) (buildDesiredSchema std pgSchema s)"
  using keepsS_trans [OF keepsS_foreign [of "desiredTables pgSchema s" s "sortedResourceNames s", folded desiredKeys_def]
      keepsS_weaken [OF keepsS_rest]] .

section \<open>The tables themselves\<close>

lemma gm_get_fold_put:
  "gm_get (Tables (fold (\<lambda>n. putTable n (g n)) ns ds)) k = (if k \<in> set ns then Some (g k) else gm_get (Tables ds) k)"
  by (induction ns arbitrary: ds) (auto simp: putTable_def gm_get_put)

lemma desiredTables_get:
  "gm_get (Tables (desiredTables pgSchema s)) n = map_option (desiredTable n) (gm_get (asResources s) n)"
proof (cases "gm_get (asResources s) n")
  case None
  then have "n \<notin> set (sortedResourceNames s)" by (simp add: sortedResourceNames_def map_of_eq_None_iff)
  then show ?thesis using None by (simp add: desiredTables_def gm_get_fold_put NewSchema_def)
next
  case (Some r)
  then have "n \<in> set (sortedResourceNames s)"
    by (metis domI dom_map_of_conv_image_fst set_sortedKeys sortedResourceNames_def)
  then show ?thesis using Some by (simp add: desiredTables_def gm_get_fold_put resourceOf_def)
qed

lemma gm_wf_desiredTables: "gm_wf (Tables (desiredTables pgSchema s))"
proof -
  have "gm_wf (Tables ds) \<Longrightarrow> gm_wf (Tables (fold (\<lambda>n. putTable n (g n)) ns ds))" for g ns ds
    by (induction ns arbitrary: ds) (simp_all add: putTable_def gm_wf_put)
  then show ?thesis by (simp add: desiredTables_def NewSchema_def gm_wf_def)
qed

lemma AddColumnT_view [simp]:
  "tName (AddColumnT c t) = tName t" "tRenamedFrom (AddColumnT c t) = tRenamedFrom t" "PK (AddColumnT c t) = PK t"
  "FKs (AddColumnT c t) = FKs t" "Uniques (AddColumnT c t) = Uniques t"
  "Columns (AddColumnT c t) = gm_put (cName c) c (Columns t)"
  by (simp_all add: AddColumnT_def)

lemma wf_addRegular: "wf_table t \<Longrightarrow> wf_table (addRegular n res f t)"
  using wf_AddColumnT [of t "regularColumn f (fieldOf res f)"]
  by (auto simp: addRegular_def Let_def wf_table_def keyed_by_put)

lemma wf_addAuto: "wf_table t \<Longrightarrow> wf_table (addAuto res f t)"
  by (simp add: addAuto_def wf_AddColumnT)

lemma addRegular_view [simp]:
  "tName (addRegular n res f t) = tName t" "tRenamedFrom (addRegular n res f t) = tRenamedFrom t"
  "PK (addRegular n res f t) = PK t" "FKs (addRegular n res f t) = FKs t"
  "Columns (addRegular n res f t) = gm_put f (regularColumn f (fieldOf res f)) (Columns t)"
  by (simp_all add: addRegular_def Let_def regularColumn_def)

lemma addAuto_view [simp]:
  "tName (addAuto res f t) = tName t" "tRenamedFrom (addAuto res f t) = tRenamedFrom t"
  "PK (addAuto res f t) = PK t" "FKs (addAuto res f t) = FKs t"
  "Columns (addAuto res f t) = gm_put f (autoColumn f (fieldOf res f)) (Columns t)"
  by (simp_all add: addAuto_def autoColumn_def)

lemma baseTable_view [simp]:
  "tName (baseTable n res) = n" "tRenamedFrom (baseTable n res) = rsRenamedFrom res" "FKs (baseTable n res) = []"
  "PK (baseTable n res) = Some \<lparr>pkName = n @ ''_pkey'', pkColumns = [''id'']\<rparr>" "Columns (baseTable n res) = [(''id'', idColumn)]"
  by (simp_all add: baseTable_def NewTable_def idColumn_def gm_put_def)

lemma wf_baseTable: "wf_table (baseTable n res)"
proof -
  have "wf_table ((NewTable n)\<lparr>tRenamedFrom := rsRenamedFrom res\<rparr>)" by (simp add: NewTable_def wf_table_def)
  then have "wf_table (AddColumnT idColumn ((NewTable n)\<lparr>tRenamedFrom := rsRenamedFrom res\<rparr>))" by (rule wf_AddColumnT)
  then show ?thesis by (simp add: baseTable_def wf_table_def)
qed

lemma fold_view: "(\<And>x t. v (f x t) = v t) \<Longrightarrow> v (fold f xs t) = v t"
  by (induction xs arbitrary: t) auto

lemma desiredTable_view:
  "tName (desiredTable n res) = n" "tRenamedFrom (desiredTable n res) = rsRenamedFrom res" "FKs (desiredTable n res) = []"
  "PK (desiredTable n res) = Some \<lparr>pkName = n @ ''_pkey'', pkColumns = [''id'']\<rparr>"
  by (simp_all add: desiredTable_def fold_view [where v = tName, OF addAuto_view(1)] fold_view [where v = tName, OF addRegular_view(1)]
      fold_view [where v = tRenamedFrom, OF addAuto_view(2)] fold_view [where v = tRenamedFrom, OF addRegular_view(2)]
      fold_view [where v = PK, OF addAuto_view(3)] fold_view [where v = PK, OF addRegular_view(3)]
      fold_view [where v = FKs, OF addAuto_view(4)] fold_view [where v = FKs, OF addRegular_view(4)])

lemma wf_desiredTable: "wf_table (desiredTable n res)"
  unfolding desiredTable_def
  by (rule fold_invariant [where Q = "\<lambda>_. True"], simp, rule fold_invariant [where Q = "\<lambda>_. True"])
     (simp_all add: wf_baseTable wf_addRegular wf_addAuto)

lemma wf_schema_get_iff:
  "wf_schema ds \<longleftrightarrow> gm_wf (Tables ds) \<and> (\<forall>n t. gm_get (Tables ds) n = Some t \<longrightarrow> tName t = n \<and> wf_table t)"
proof (cases "gm_wf (Tables ds)")
  case True
  then have all: "(\<forall>(k, t)\<in>set (Tables ds). P k t) \<longleftrightarrow> (\<forall>n t. gm_get (Tables ds) n = Some t \<longrightarrow> P n t)" for P
    by (auto simp: gm_get_iff)
  show ?thesis unfolding wf_schema_def keyed_by_def all using True by blast
qed (simp add: wf_schema_def keyed_by_def)

lemma wf_buildDesired: "wf_schema (buildDesiredSchema std pgSchema s)"
proof -
  let ?d = "desiredTables pgSchema s" and ?b = "buildDesiredSchema std pgSchema s"
  have k: "keepsS tableCore ?d ?b" by (rule keepsS_all)
  have "gm_wf (Tables ?b)" using k gm_wf_desiredTables by (auto simp: keepsS_def)
  moreover have "tName t = n \<and> wf_table t" if got: "gm_get (Tables ?b) n = Some t" for n t
  proof -
    obtain t0 where "gm_get (Tables ?d) n = Some t0" "tName t = tName t0" "wf_table t0 \<longrightarrow> wf_table t"
      using keepsS_get(1) [OF k got] by auto
    then obtain res where "tName t = tName (desiredTable n res)" "wf_table (desiredTable n res) \<longrightarrow> wf_table t"
      by (auto simp: desiredTables_get)
    then show ?thesis using wf_desiredTable desiredTable_view(1) by simp
  qed
  ultimately show ?thesis by (simp add: wf_schema_get_iff)
qed


section \<open>What a desired table holds\<close>

lemma fold_put_columns:
  "(\<And>x t. Columns (f x t) = gm_put x (g x) (Columns t)) \<Longrightarrow>
     gm_get (Columns (fold f xs t)) k = (if k \<in> set xs then Some (g k) else gm_get (Columns t) k)"
  by (induction xs arbitrary: t) (auto simp: gm_get_put)

lemma desiredTable_columns:
  "gm_get (Columns (desiredTable n res)) k =
     (if k = ''id'' then Some idColumn
      else map_option (\<lambda>f. if Enabled (Auto f) then autoColumn k f else regularColumn k f) (gm_get (Fields res) k))"
proof -
  have mem: "k \<in> set (regularFields res) \<longleftrightarrow> k \<noteq> ''id'' \<and> (\<exists>f. gm_get (Fields res) k = Some f \<and> \<not> Enabled (Auto f))"
    "k \<in> set (autoFields res) \<longleftrightarrow> k \<noteq> ''id'' \<and> (\<exists>f. gm_get (Fields res) k = Some f \<and> Enabled (Auto f))"
  proof -
    have "k \<in> fst ` set (Fields res) \<longleftrightarrow> gm_get (Fields res) k \<noteq> None" by (simp add: map_of_eq_None_iff)
    then show "k \<in> set (regularFields res) \<longleftrightarrow> k \<noteq> ''id'' \<and> (\<exists>f. gm_get (Fields res) k = Some f \<and> \<not> Enabled (Auto f))"
      "k \<in> set (autoFields res) \<longleftrightarrow> k \<noteq> ''id'' \<and> (\<exists>f. gm_get (Fields res) k = Some f \<and> Enabled (Auto f))"
      by (auto simp: regularFields_def autoFields_def sortedFieldNames_def fieldOf_def)
  qed
  have "gm_get (Columns (desiredTable n res)) k =
          (if k \<in> set (autoFields res) then Some (autoColumn k (fieldOf res k))
           else if k \<in> set (regularFields res) then Some (regularColumn k (fieldOf res k))
           else gm_get [(''id'', idColumn)] k)"
    unfolding desiredTable_def
    using fold_put_columns [of "addAuto res" "\<lambda>k. autoColumn k (fieldOf res k)"]
      fold_put_columns [of "addRegular n res" "\<lambda>k. regularColumn k (fieldOf res k)"] by simp
  then show ?thesis unfolding mem by (cases "gm_get (Fields res) k") (auto simp: fieldOf_def)
qed

text \<open>A tenant has exactly one table per declared resource, under its name and with its rename intent;
  its columns are exactly \<open>id\<close> (a UUID primary key with a generated default, whatever the schema says of a
  field of that name), one column per plain field with the type of its API type, required meaning not
  null and no database default, and one nullable \<open>timestamptz\<close> defaulting to \<open>now()\<close> per automatic field.\<close>

theorem desired_tables_faithful:
  "map_option (\<lambda>t. (tName t, tRenamedFrom t, PK t)) (gm_get (Tables (buildDesiredSchema std pgSchema s)) n) =
     map_option (\<lambda>res. (n, rsRenamedFrom res, Some \<lparr>pkName = n @ ''_pkey'', pkColumns = [''id'']\<rparr>)) (gm_get (asResources s) n) \<and>
   (\<forall>t res k. gm_get (Tables (buildDesiredSchema std pgSchema s)) n = Some t \<longrightarrow> gm_get (asResources s) n = Some res \<longrightarrow>
      gm_get (Columns t) k =
        (if k = ''id'' then Some idColumn
         else map_option (\<lambda>f. if Enabled (Auto f) then autoColumn k f else regularColumn k f) (gm_get (Fields res) k)))"
proof -
  let ?d = "desiredTables pgSchema s" and ?b = "buildDesiredSchema std pgSchema s"
  note k = keepsS_get [OF keepsS_all [of pgSchema s std], of n]
  have view: "tName t = n \<and> tRenamedFrom t = rsRenamedFrom res \<and>
              PK t = Some \<lparr>pkName = n @ ''_pkey'', pkColumns = [''id'']\<rparr> \<and> Columns t = Columns (desiredTable n res)"
    if "gm_get (Tables ?b) n = Some t" "gm_get (asResources s) n = Some res" for t res
    using k(1) [OF that(1)] that(2) by (auto simp: desiredTables_get desiredTable_view)
  have "gm_get (Tables ?b) n = None \<longleftrightarrow> gm_get (asResources s) n = None"
  proof (cases "gm_get (asResources s) n")
    case None
    then have "gm_get (Tables ?d) n = None" by (simp add: desiredTables_get)
    then show ?thesis using None k(1) by (cases "gm_get (Tables ?b) n") auto
  next
    case (Some res)
    then have "gm_get (Tables ?d) n = Some (desiredTable n res)" by (simp add: desiredTables_get)
    then show ?thesis using Some k(2) by fastforce
  qed
  note none = this
  show ?thesis
  proof (cases "gm_get (asResources s) n")
    case None
    then show ?thesis using none by simp
  next
    case (Some res)
    then obtain t where t: "gm_get (Tables ?b) n = Some t" using none by fastforce
    show ?thesis using view [OF t Some] by (simp add: t Some desiredTable_columns)
  qed
qed

definition exApi :: APISchema where
  "exApi = \<lparr>asSchema = [], asVersion = ''1'', asName = ''shop'',
     asResources = [(''orders'', zeroResource [(''total'', (zeroField ''int64'')\<lparr>Required := True\<rparr>), (''buyer'', (zeroField ''uuid'')\<lparr>Relation := ''people''\<rparr>),
                                             (''at'', (zeroField ''time'')\<lparr>Auto := AutoCreate\<rparr>)]),
                    (''people'', zeroResource [(''name'', zeroField ''string'')])],
     asRBAC = \<lparr>plainRoles = [], plainPublic = []\<rparr>, Workflows = [], Summary = None\<rparr>"

theorem desired_tables_faithful_witness:
  "\<exists>t. gm_get (Tables (buildDesiredSchema exStd ''t'' exApi)) ''orders'' = Some t \<and>
       gm_get (Columns t) ''total'' = Some (regularColumn ''total'' ((zeroField ''int64'')\<lparr>Required := True\<rparr>))"
proof -
  have "gm_get (asResources exApi) ''orders'' \<noteq> None" by code_simp
  then obtain res where res: "gm_get (asResources exApi) ''orders'' = Some res" by auto
  then obtain t where t: "gm_get (Tables (buildDesiredSchema exStd ''t'' exApi)) ''orders'' = Some t"
    using desired_tables_faithful [of exStd "''t''" exApi "''orders''", THEN conjunct1] by auto
  have "gm_get (Fields res) ''total'' = Some ((zeroField ''int64'')\<lparr>Required := True\<rparr>)"
    using res by (auto simp: exApi_def zeroResource_def)
  then show ?thesis
    using t desired_tables_faithful [of exStd "''t''" exApi "''orders''", THEN conjunct2, rule_format, OF t res, of "''total''"]
    by (simp add: Enabled_def AutoOff_def zeroField_def)
qed

section \<open>Foreign keys\<close>

lemma fold_modTable:
  "distinct names \<Longrightarrow> gm_get (Tables (fold (\<lambda>n. modTable n (g n)) names ds)) k =
     (if k \<in> set names then map_option (g k) (gm_get (Tables ds) k) else gm_get (Tables ds) k)"
  by (induction names arbitrary: ds) (auto simp: gm_get_modTable)

definition fieldFKof :: "Schema \<Rightarrow> string \<Rightarrow> ResourceSchema \<Rightarrow> string \<Rightarrow> ForeignKey option" where
  "fieldFKof ds n res k =
     (let f = fieldOf res k
      in if fType f = ''file'' then Some (fileFK n k f)
         else if Relation f = [] \<or> \<not> gm_has (Tables ds) (Relation f) then None else Some (relationFK n k f))"

lemma FKs_ensureIndex [simp]: "FKs (ensureIndex i cols t) = FKs t"
  by (simp add: ensureIndex_def putIndex_def)

lemma FKs_addFieldFK:
  "FKs (addFieldFK ds n res k t) = (case fieldFKof ds n res k of None \<Rightarrow> FKs t | Some fk \<Rightarrow> gm_put (fkSymbol fk) fk (FKs t))"
  by (simp add: addFieldFK_def fieldFKof_def putFK_def Let_def)

lemma fieldFKof_symbol: "fieldFKof ds n res k = Some fk \<Longrightarrow> fkSymbol fk = fkConstraintName n k"
  by (auto simp: fieldFKof_def Let_def fileFK_def relationFK_def split: if_splits)

lemma FKs_fold_fields:
  "gm_get (FKs (fold (addFieldFK ds n res) ks t)) (fkConstraintName n k) =
     (if k \<in> set ks \<and> fieldFKof ds n res k \<noteq> None then fieldFKof ds n res k else gm_get (FKs t) (fkConstraintName n k))"
proof (induction ks arbitrary: t)
  case (Cons x ks)
  have "fkConstraintName n x = fkConstraintName n k \<longleftrightarrow> x = k" by (simp add: fkConstraintName_def)
  then show ?case
    using Cons.IH [of "addFieldFK ds n res x t"]
    by (cases "fieldFKof ds n res x") (auto simp: FKs_addFieldFK gm_get_put fieldFKof_symbol)
qed simp

lemma FKs_addCompositeFK:
  "FKs (addCompositeFK ds n fk t) =
     (if gm_has (Tables ds) (fdTarget fk) then gm_put (fkSymbol (compositeFK n fk)) (compositeFK n fk) (FKs t) else FKs t)"
  by (simp add: addCompositeFK_def putFK_def)

lemma FKs_fold_composite:
  "(\<forall>fk\<in>set fks. join_with ''_'' (fdColumns fk) \<noteq> k) \<Longrightarrow>
     gm_get (FKs (fold (addCompositeFK ds n) fks t)) (fkConstraintName n k) = gm_get (FKs t) (fkConstraintName n k)"
  by (induction fks arbitrary: t)
     (auto simp: FKs_addCompositeFK gm_get_put compositeFK_def compositeFKConstraintName_def fkConstraintName_def)

text \<open>The tables a foreign key may point at.\<close>

definition targetsIn :: "string set \<Rightarrow> Table \<Rightarrow> bool" where
  "targetsIn ns t \<longleftrightarrow> (\<forall>symb fk. gm_get (FKs t) symb = Some fk \<longrightarrow> RefTable fk = ''files'' \<or> RefTable fk \<in> ns)"

lemma targetsIn_field: "targetsIn ns t \<Longrightarrow> fst ` set (Tables ds) = ns \<Longrightarrow> targetsIn ns (addFieldFK ds n res k t)"
  by (auto simp: targetsIn_def FKs_addFieldFK gm_get_put fieldFKof_def Let_def fileFK_def relationFK_def gm_has_iff
      split: option.splits if_splits)

lemma targetsIn_composite: "targetsIn ns t \<Longrightarrow> fst ` set (Tables ds) = ns \<Longrightarrow> targetsIn ns (addCompositeFK ds n fk t)"
  by (auto simp: targetsIn_def FKs_addCompositeFK gm_get_put compositeFK_def gm_has_iff split: if_splits)

lemma keepsS_keys: "keepsS v ds ds' \<Longrightarrow> fst ` set (Tables ds') = fst ` set (Tables ds)"
proof -
  assume k: "keepsS v ds ds'"
  have "gm_get (Tables ds') n = None \<longleftrightarrow> gm_get (Tables ds) n = None" for n
    using keepsS_get [OF k, of n] by (metis not_None_eq)
  then show ?thesis by (metis map_of_eq_None_iff set_eqI)
qed

lemma desiredKeys_table:
  assumes "gm_wf (asResources s)" "gm_get (asResources s) n = Some res"
  shows "\<exists>ds1 ds2. fst ` set (Tables ds1) = fst ` set (asResources s) \<and> fst ` set (Tables ds2) = fst ` set (asResources s) \<and>
     gm_get (Tables (desiredKeys pgSchema s)) n =
       Some (fold (addCompositeFK ds2 n) (ForeignKeys res) (fold (addFieldFK ds1 n res) (sortedFieldNames res) (desiredTable n res)))"
proof -
  let ?names = "sortedResourceNames s" and ?d = "desiredTables pgSchema s"
  let ?d2 = "addForeignKeys ?d s ?names"
  have names: "distinct ?names" "n \<in> set ?names"
    using assms by (auto simp: sortedResourceNames_def distinct_sortedKeys dest: map_of_SomeD intro: rev_image_eqI)
  have res: "resourceOf s n = res" using assms(2) by (simp add: resourceOf_def)
  have "gm_get (Tables ?d) k = None \<longleftrightarrow> gm_get (asResources s) k = None" for k by (simp add: desiredTables_get)
  then have keys: "fst ` set (Tables ?d) = fst ` set (asResources s)" by (metis map_of_eq_None_iff set_eqI)
  have "keepsS tableCore ?d ?d2"
    unfolding addForeignKeys_def by (intro keepsS_fold keepsS_modTable keeps_fold keeps_addFieldFK)
  from keepsS_keys [OF this] have keys2: "fst ` set (Tables ?d2) = fst ` set (asResources s)" using keys by simp
  have "gm_get (Tables ?d2) n = Some (fold (addFieldFK ?d n res) (sortedFieldNames res) (desiredTable n res))"
    using fold_modTable [OF names(1), of "\<lambda>n. fold (addFieldFK ?d n (resourceOf s n)) (sortedFieldNames (resourceOf s n))" ?d n]
      names(2) assms(2) by (simp add: addForeignKeys_def desiredTables_get res)
  then have "gm_get (Tables (desiredKeys pgSchema s)) n =
       Some (fold (addCompositeFK ?d2 n) (ForeignKeys res) (fold (addFieldFK ?d n res) (sortedFieldNames res) (desiredTable n res)))"
    using fold_modTable [OF names(1), of "\<lambda>n. fold (addCompositeFK ?d2 n) (ForeignKeys (resourceOf s n))" ?d2 n]
      names(2) by (simp add: desiredKeys_def addCompositeForeignKeys_def res)
  then show ?thesis using keys keys2 by blast
qed

text \<open>Every foreign key of a desired table points at a declared resource or at the tenant's files, and
  every field that declares a relation to a declared resource, and every file field, gets its foreign key
  with the declared column and actions, deletion being restricted unless declared otherwise, as long as
  the field's name is not the joined column list of a composite key.\<close>

theorem desired_foreign_keys:
  assumes "gm_wf (asResources s)" "gm_get (asResources s) n = Some res"
    and "gm_get (Tables (buildDesiredSchema std pgSchema s)) n = Some t"
  shows "(\<forall>symb fk. gm_get (FKs t) symb = Some fk \<longrightarrow> RefTable fk = ''files'' \<or> RefTable fk \<in> fst ` set (asResources s)) \<and>
         (\<forall>k f. gm_get (Fields res) k = Some f \<longrightarrow> (\<forall>fk\<in>set (ForeignKeys res). join_with ''_'' (fdColumns fk) \<noteq> k) \<longrightarrow>
            (fType f = ''file'' \<longrightarrow> gm_get (FKs t) (fkConstraintName n k) = Some (fileFK n k f)) \<and>
            (fType f \<noteq> ''file'' \<longrightarrow> Relation f \<noteq> [] \<longrightarrow> Relation f \<in> fst ` set (asResources s) \<longrightarrow>
               gm_get (FKs t) (fkConstraintName n k) = Some (relationFK n k f)))"
proof -
  let ?N = "fst ` set (asResources s)"
  obtain ds1 ds2 where keys: "fst ` set (Tables ds1) = ?N" "fst ` set (Tables ds2) = ?N"
    and t0: "gm_get (Tables (desiredKeys pgSchema s)) n =
       Some (fold (addCompositeFK ds2 n) (ForeignKeys res) (fold (addFieldFK ds1 n res) (sortedFieldNames res) (desiredTable n res)))"
    using desiredKeys_table [OF assms(1,2)] by metis
  let ?t1 = "fold (addFieldFK ds1 n res) (sortedFieldNames res) (desiredTable n res)"
  have fks: "FKs t = FKs (fold (addCompositeFK ds2 n) (ForeignKeys res) ?t1)"
    using keepsS_get(1) [OF keepsS_rest assms(3)] t0 by auto
  have "targetsIn ?N (desiredTable n res)" by (simp add: targetsIn_def desiredTable_view)
  then have "targetsIn ?N ?t1"
    by (rule fold_invariant [where Q = "\<lambda>_. True" and P = "targetsIn ?N", rotated]) (simp_all add: targetsIn_field keys)
  then have "targetsIn ?N (fold (addCompositeFK ds2 n) (ForeignKeys res) ?t1)"
    by (rule fold_invariant [where Q = "\<lambda>_. True" and P = "targetsIn ?N", rotated]) (simp_all add: targetsIn_composite keys)
  then have one: "\<forall>symb fk. gm_get (FKs t) symb = Some fk \<longrightarrow> RefTable fk = ''files'' \<or> RefTable fk \<in> ?N"
    by (simp add: targetsIn_def fks)
  have two: "gm_get (FKs t) (fkConstraintName n k) = fieldFKof ds1 n res k"
    if "gm_get (Fields res) k = Some f" "\<forall>fk\<in>set (ForeignKeys res). join_with ''_'' (fdColumns fk) \<noteq> k"
      "fieldFKof ds1 n res k \<noteq> None" for k f
  proof -
    have "k \<in> set (sortedFieldNames res)"
      using that(1) by (auto simp: sortedFieldNames_def dest: map_of_SomeD intro: rev_image_eqI)
    then show ?thesis using FKs_fold_composite [OF that(2), of ds2 n ?t1] FKs_fold_fields that(3) by (simp add: fks)
  qed
  show ?thesis
  proof (intro conjI allI impI)
    fix k f assume a: "gm_get (Fields res) k = Some f" "\<forall>fk\<in>set (ForeignKeys res). join_with ''_'' (fdColumns fk) \<noteq> k"
    have f: "fieldOf res k = f" using a(1) by (simp add: fieldOf_def)
    show "gm_get (FKs t) (fkConstraintName n k) = Some (fileFK n k f)" if "fType f = ''file''"
      using two [OF a] that by (simp add: fieldFKof_def f)
    show "gm_get (FKs t) (fkConstraintName n k) = Some (relationFK n k f)"
      if "fType f \<noteq> ''file''" "Relation f \<noteq> []" "Relation f \<in> ?N"
      using two [OF a] that keys(1) by (simp add: fieldFKof_def f gm_has_iff)
  qed (use one in blast)
qed

theorem desired_foreign_keys_witness:
  "\<exists>t. gm_get (Tables (buildDesiredSchema exStd ''t'' exApi)) ''orders'' = Some t \<and>
       gm_get (FKs t) ''fk_orders_buyer'' = Some (relationFK ''orders'' ''buyer'' ((zeroField ''uuid'')\<lparr>Relation := ''people''\<rparr>))"
proof -
  have "gm_get (Tables (buildDesiredSchema exStd ''t'' exApi)) ''orders'' \<noteq> None" by code_simp
  then obtain t where t: "gm_get (Tables (buildDesiredSchema exStd ''t'' exApi)) ''orders'' = Some t" by auto
  have wf: "gm_wf (asResources exApi)" by code_simp
  have f: "gm_get (Fields (resourceOf exApi ''orders'')) ''buyer'' = Some ((zeroField ''uuid'')\<lparr>Relation := ''people''\<rparr>)"
    "ForeignKeys (resourceOf exApi ''orders'') = []" "''people'' \<in> fst ` set (asResources exApi)" by code_simp+
  have res: "gm_get (asResources exApi) ''orders'' = Some (resourceOf exApi ''orders'')"
    by (simp add: resourceOf_def exApi_def)
  show ?thesis
    using t desired_foreign_keys [OF wf res t, THEN conjunct2, rule_format, OF f(1)] f(2,3)
    by (simp add: fkConstraintName_def zeroField_def)
qed

text \<open>A composite key over \<open>a\<close> and \<open>b\<close> beside a relation field \<open>a_b\<close>.\<close>

definition exClash :: APISchema where
  "exClash = exApi\<lparr>asResources :=
     [(''lines'', (zeroResource [(''a'', zeroField ''uuid''), (''b'', zeroField ''uuid''), (''a_b'', (zeroField ''uuid'')\<lparr>Relation := ''people''\<rparr>)])
        \<lparr>ForeignKeys := [\<lparr>fdColumns = [''a'', ''b''], fdTarget = ''people'', fdRefColumns = [''x'', ''y''], fdOnDelete = [], fdOnUpdate = []\<rparr>]\<rparr>),
      (''people'', zeroResource [(''x'', zeroField ''uuid''), (''y'', zeroField ''uuid'')])]\<rparr>"

text \<open>The symbol of a field's foreign key and that of a composite key can coincide, and then the composite
  key replaces the field's: the declared relation of the field has no constraint in the desired schema.\<close>

theorem composite_key_shadows_relation:
  "map_option (\<lambda>t. map (\<lambda>(symb, fk). (symb, fkColumns fk)) (FKs t)) (gm_get (Tables (buildDesiredSchema exStd ''t'' exClash)) ''lines'')
     = Some [(''fk_lines_a_b'', [''a'', ''b''])] \<and>
   Relation (fieldOf (resourceOf exClash ''lines'') ''a_b'') = ''people''"
  by (rule conjI; code_simp)

end
