(* ===== verification/MigrationGate.thy ===== *)
theory MigrationGate
  imports Executor Desired
begin

text \<open>
  \<open>pkg/migration\<close>: the gate between a diff and the database (\<open>runner.go\<close>, \<open>external.go\<close>, the exclusion part
  of \<open>ranges.go\<close>).  The pure half, from an introspected schema to the operations that run, is in this
  theory with its theorems; \<open>Migration\<close> runs it against a database.  Logging is left out.
\<close>

section \<open>Ownership\<close>

text \<open>A schema document as \<open>addSchemaJSON\<close> decodes it: resource, previous name, fields with previous names;
  None is a document that does not decode.\<close>

type_synonym schemaDoc = "((string \<times> string gomap) gomap) option"

record ownedObjects =
  ownTables :: "string list"
  ownColumns :: "string list gomap"

definition ownsTable :: "ownedObjects \<Rightarrow> string \<Rightarrow> bool" where
  "ownsTable o' t \<longleftrightarrow> t \<in> set (ownTables o')"

definition ownsColumn :: "ownedObjects \<Rightarrow> string \<Rightarrow> string \<Rightarrow> bool" where
  "ownsColumn o' t c = (case gm_get (ownColumns o') t of None \<Rightarrow> False | Some cols \<Rightarrow> c \<in> set cols)"

definition docColumns :: "string gomap \<Rightarrow> string list" where
  "docColumns fs = ''id'' # concat (map (\<lambda>(fname, from). fname # (if from \<noteq> [] then [from] else [])) fs)"

definition ownTable :: "string gomap \<Rightarrow> string \<Rightarrow> ownedObjects \<Rightarrow> ownedObjects" where
  "ownTable fs tn o' =
     o'\<lparr>ownTables := tn # ownTables o',
        ownColumns := gm_put tn ((case gm_get (ownColumns o') tn of Some cols \<Rightarrow> cols | None \<Rightarrow> []) @ docColumns fs) (ownColumns o')\<rparr>"

definition addResource :: "string \<times> string \<times> string gomap \<Rightarrow> ownedObjects \<Rightarrow> ownedObjects" where
  "addResource r o' =
     (case r of (rname, from, fs) \<Rightarrow> fold (ownTable fs) (rname # (if from \<noteq> [] then [from] else [])) o')"

definition addSchemaJSON :: "schemaDoc \<Rightarrow> ownedObjects \<Rightarrow> ownedObjects \<times> bool" where
  "addSchemaJSON doc o' =
     (case doc of
        None \<Rightarrow> (o', False)
      | Some rs \<Rightarrow> if rs = [] then (o', False) else (fold addResource rs o', True))"

definition foldDocs :: "schemaDoc list \<Rightarrow> ownedObjects \<times> bool \<Rightarrow> ownedObjects \<times> bool" where
  "foldDocs docs st =
     fold (\<lambda>doc (o', found). let (o'', ok) = addSchemaJSON doc o' in (o'', found \<or> ok)) docs st"

text \<open>\<open>tenant\<close> is the tenant row's current document, None when there is no row; \<open>history\<close> the readable
  versions.\<close>

definition loadOwnedObjects :: "schemaDoc option \<Rightarrow> schemaDoc list \<Rightarrow> ownedObjects option" where
  "loadOwnedObjects tenant history =
     (case tenant of
        None \<Rightarrow> None
      | Some current \<Rightarrow>
          (let (o', found) = foldDocs (current # history) (\<lparr>ownTables = [], ownColumns = []\<rparr>, False)
           in if found then Some o' else None))"

definition isExternal :: "ownedObjects \<Rightarrow> operation \<Rightarrow> bool" where
  "isExternal owned op =
     (case op of
        DropTable t \<Rightarrow> \<not> ownsTable owned (tName t)
      | DropColumn t c \<Rightarrow> \<not> ownsColumn owned t (cName c)
      | _ \<Rightarrow> False)"

definition splitExternalDrops :: "Plan \<Rightarrow> ownedObjects option \<Rightarrow> Plan \<times> operation list" where
  "splitExternalDrops p owned =
     (case owned of
        None \<Rightarrow> (p, [])
      | Some o' \<Rightarrow> (\<lparr>Ops = filter (\<lambda>op. \<not> isExternal o' op) (Ops p)\<rparr>, filter (isExternal o') (Ops p)))"

section \<open>Renames against the live database\<close>

definition isEngineManagedTable :: "string \<Rightarrow> bool" where
  "isEngineManagedTable name \<longleftrightarrow> HasPrefix name ''auth_'' \<or> name = ''files''"

definition replCols :: "string \<Rightarrow> string \<Rightarrow> string list \<Rightarrow> string list" where
  "replCols old new cols = map (\<lambda>c. if c = old then new else c) cols"

definition gm_map :: "('v \<Rightarrow> 'v) \<Rightarrow> 'v gomap \<Rightarrow> 'v gomap" where
  "gm_map f m = map (\<lambda>(k, v). (k, f v)) m"

definition rewriteRefTable :: "string \<Rightarrow> string \<Rightarrow> Schema \<Rightarrow> Schema" where
  "rewriteRefTable old new s =
     s\<lparr>Tables := gm_map (\<lambda>t. t\<lparr>FKs := gm_map (\<lambda>fk. if RefTable fk = old then fk\<lparr>RefTable := new\<rparr> else fk) (FKs t)\<rparr>) (Tables s)\<rparr>"

definition rewriteColumnRefs :: "string \<Rightarrow> string \<Rightarrow> Table \<Rightarrow> Table" where
  "rewriteColumnRefs old new t =
     t\<lparr>PK := map_option (\<lambda>pk. pk\<lparr>pkColumns := replCols old new (pkColumns pk)\<rparr>) (PK t),
       FKs := gm_map (\<lambda>fk. fk\<lparr>fkColumns := replCols old new (fkColumns fk)\<rparr>) (FKs t),
       Uniques := gm_map (\<lambda>u. u\<lparr>uqColumns := replCols old new (uqColumns u)\<rparr>) (Uniques t),
       Indexes := gm_map (\<lambda>ix. ix\<lparr>ixColumns := replCols old new (ixColumns ix)\<rparr>) (Indexes t)\<rparr>"

definition tableBlocked :: "Table \<Rightarrow> string" where
  "tableBlocked dt =
     ''table '' @ goq (tRenamedFrom dt) @ '' was to be renamed to '' @ goq (tName dt) @ '', but '' @ goq (tName dt) @
     '' already exists '' @ emDash @ '' the rename was NOT done and the data is still in '' @ goq (tRenamedFrom dt)"

definition columnBlocked :: "string \<Rightarrow> Column \<Rightarrow> string" where
  "columnBlocked table col =
     ''column '' @ goq table @ ''.'' @ goq (cRenamedFrom col) @ '' was to be renamed to '' @ goq (cName col) @ '', but '' @ goq (cName col) @
     '' already exists '' @ emDash @ '' the rename was NOT done and the values are still in '' @ goq (cRenamedFrom col)"

text \<open>The table half of one iteration: the resolved table, the real schema with its references aligned, the
  sources to keep and the renames that cannot run.\<close>

definition resolveTableRename :: "Table \<Rightarrow> Schema \<Rightarrow> Table \<times> Schema \<times> string list \<times> string list" where
  "resolveTableRename dt live =
     (if tRenamedFrom dt = [] then (dt, live, [], [])
      else let oldExists = gm_has (Tables live) (tRenamedFrom dt); newExists = gm_has (Tables live) (tName dt)
           in if oldExists \<and> \<not> newExists
              then (dt, rewriteRefTable (tRenamedFrom dt) (tName dt) live, [tRenamedFrom dt], [])
              else (dt\<lparr>tRenamedFrom := []\<rparr>, live, [], if oldExists \<and> newExists then [tableBlocked dt] else []))"

text \<open>The column half: the columns with their intents resolved, and what that does to the real table.\<close>

definition columnPending :: "Table option \<Rightarrow> Column \<Rightarrow> bool" where
  "columnPending realTbl col =
     (case realTbl of None \<Rightarrow> False
      | Some t \<Rightarrow> gm_has (Columns t) (cRenamedFrom col) \<and> \<not> gm_has (Columns t) (cName col))"

definition resolveColumn :: "Table option \<Rightarrow> Column \<Rightarrow> Column" where
  "resolveColumn realTbl col =
     (if cRenamedFrom col = [] \<or> columnPending realTbl col then col else col\<lparr>cRenamedFrom := []\<rparr>)"

definition columnWarnings :: "Table option \<Rightarrow> Column \<Rightarrow> string list" where
  "columnWarnings realTbl col =
     (case realTbl of
        None \<Rightarrow> []
      | Some t \<Rightarrow> if cRenamedFrom col \<noteq> [] \<and> gm_has (Columns t) (cRenamedFrom col) \<and> gm_has (Columns t) (cName col)
                  then [columnBlocked (tName t) col] else [])"

definition columnRewrite :: "Table option \<Rightarrow> Column \<Rightarrow> Table \<Rightarrow> Table" where
  "columnRewrite realTbl col t =
     (if cRenamedFrom col \<noteq> [] \<and> columnPending realTbl col then rewriteColumnRefs (cRenamedFrom col) (cName col) t else t)"

definition realKey :: "Table \<Rightarrow> string" where
  "realKey dt = (if tRenamedFrom dt \<noteq> [] then tRenamedFrom dt else tName dt)"

definition resolveOne :: "Table \<Rightarrow> Schema \<Rightarrow> Table \<times> Schema \<times> string list \<times> string list" where
  "resolveOne dt live =
     (case resolveTableRename dt live of
        (dt1, real1, keep, blocked) \<Rightarrow>
          (let realTbl = gm_get (Tables real1) (realKey dt1); cols = map snd (Columns dt1)
           in (dt1\<lparr>Columns := gm_map (resolveColumn realTbl) (Columns dt1)\<rparr>,
               modTable (realKey dt1) (fold (columnRewrite realTbl) cols) real1,
               keep, blocked @ concat (map (columnWarnings realTbl) cols))))"

fun resolveTables :: "Table gomap \<Rightarrow> Schema \<Rightarrow> Table gomap \<times> Schema \<times> string list \<times> string list" where
  "resolveTables [] live = ([], live, [], [])"
| "resolveTables ((n, dt) # ts) live =
     (case resolveOne dt live of
        (dt', real1, keep, blocked) \<Rightarrow>
          (case resolveTables ts real1 of
             (ts', real2, keep', blocked') \<Rightarrow> ((n, dt') # ts', real2, keep @ keep', blocked @ blocked')))"

definition resolveRenames :: "Schema \<Rightarrow> Schema \<Rightarrow> Schema \<times> Schema \<times> string list \<times> string list" where
  "resolveRenames desired live =
     (case resolveTables (Tables desired) live of
        (ts, live', keep, blocked) \<Rightarrow> (desired\<lparr>Tables := ts\<rparr>, live', keep, blocked))"

definition isManaged :: "Schema \<Rightarrow> string list \<Rightarrow> bool \<Rightarrow> string \<Rightarrow> bool" where
  "isManaged desired keepSources includeOrphans name =
     (if isEngineManagedTable name then False
      else if name \<in> set keepSources then True
      else if gm_has (Tables desired) name then True
      else includeOrphans)"

definition managedSubset :: "Schema \<Rightarrow> Schema \<Rightarrow> string list \<Rightarrow> bool \<Rightarrow> Schema" where
  "managedSubset live desired keepSources includeOrphans =
     (NewSchema (sName live))\<lparr>Tables := filter (\<lambda>(name, _). isManaged desired keepSources includeOrphans name) (Tables live)\<rparr>"

text \<open>\<open>diffTenant\<close> on an introspected schema.\<close>

definition diffReal :: "Schema \<Rightarrow> Schema \<Rightarrow> bool \<Rightarrow> diffError + (Plan \<times> string list)" where
  "diffReal desired live includeOrphans =
     (case resolveRenames desired live of
        (desired', live', keep, blocked) \<Rightarrow>
          (case Diff desired' (managedSubset live' desired' keep includeOrphans) of
             Inl e \<Rightarrow> Inl e
           | Inr p \<Rightarrow> Inr (p, blocked)))"

section \<open>The policy\<close>

fun isDropOp :: "OpKind \<Rightarrow> bool" where
  "isDropOp OpDropTable = True"
| "isDropOp OpDropColumn = True"
| "isDropOp OpDropIndex = True"
| "isDropOp OpDropUnique = True"
| "isDropOp OpDropCheck = True"
| "isDropOp OpDropPrimaryKey = True"
| "isDropOp OpDropForeignKey = True"
| "isDropOp OpDropExclusion = True"
| "isDropOp _ = False"

definition fkColumnsKey :: "string \<Rightarrow> string list \<Rightarrow> string" where
  "fkColumnsKey table cols = table @ ''('' @ join_with '','' cols @ '')''"

text \<open>\<open>strings.LastIndex(symbol, "_")\<close> splits the symbol; an eight-byte tail is the definition's hash.\<close>

definition exclusionFamily :: "string \<Rightarrow> string" where
  "exclusionFamily symbol =
     (let tail = rev (takeWhile (\<lambda>c. c \<noteq> CHR ''_'') (rev symbol));
          i = int (length symbol) - int (length tail) - 1
      in if i > 0 \<and> length tail = 8 then take (nat i) symbol else symbol)"

definition exclusionKey :: "string \<Rightarrow> Exclusion \<Rightarrow> string" where
  "exclusionKey table e = table @ ''.'' @ exclusionFamily (exSymbol e)"

definition isExclusionReplacement :: "Plan \<Rightarrow> string \<Rightarrow> Exclusion \<Rightarrow> bool" where
  "isExclusionReplacement p table e =
     list_ex (\<lambda>op. case op of AddExclusion t a \<Rightarrow> exclusionKey t a = exclusionKey table e | _ \<Rightarrow> False) (Ops p)"

definition approvedDropTables :: "Plan \<Rightarrow> string list \<Rightarrow> string list" where
  "approvedDropTables p approved =
     concat (map (\<lambda>op. case op of DropTable t \<Rightarrow> if tName t \<in> set approved then [tName t] else [] | _ \<Rightarrow> []) (Ops p))"

definition replacedFKs :: "Plan \<Rightarrow> string list" where
  "replacedFKs p = concat (map (\<lambda>op. case op of AddForeignKey t fk \<Rightarrow> [fkColumnsKey t (fkColumns fk)] | _ \<Rightarrow> []) (Ops p))"

definition keepsOp :: "Plan \<Rightarrow> string list \<Rightarrow> operation \<Rightarrow> bool" where
  "keepsOp p approved op =
     (if \<not> isDropOp (Kind op) then True
      else case DestructiveKey op of
             Some key \<Rightarrow> key \<in> set approved
           | None \<Rightarrow>
               (case op of
                  DropForeignKey t fk \<Rightarrow>
                    RefTable fk \<in> set (approvedDropTables p approved) \<or> fkColumnsKey t (fkColumns fk) \<in> set (replacedFKs p)
                | DropExclusion t e \<Rightarrow> isExclusionReplacement p t e
                | _ \<Rightarrow> False))"

definition destructiveKeys :: "operation list \<Rightarrow> string list" where
  "destructiveKeys ops = concat (map (\<lambda>op. case DestructiveKey op of Some k \<Rightarrow> [k] | None \<Rightarrow> []) ops)"

definition partitionByPolicyApproved :: "Plan \<Rightarrow> string list \<Rightarrow> Plan \<times> operation list \<times> string list" where
  "partitionByPolicyApproved p approved =
     (let keep = filter (keepsOp p approved) (Ops p)
      in (\<lparr>Ops = keep\<rparr>, filter (\<lambda>op. \<not> keepsOp p approved op) (Ops p), destructiveKeys keep))"

fun opTableName :: "operation \<Rightarrow> string" where
  "opTableName (CreateTable t) = tName t"
| "opTableName (DropTable t) = tName t"
| "opTableName (RenameTable from to) = to"
| "opTableName (AddColumn t _) = t"
| "opTableName (DropColumn t _) = t"
| "opTableName (AlterColumn t _ _) = t"
| "opTableName (RenameColumn t _ _) = t"
| "opTableName (AddPrimaryKey t _) = t"
| "opTableName (DropPrimaryKey t _) = t"
| "opTableName (AddForeignKey t _) = t"
| "opTableName (DropForeignKey t _) = t"
| "opTableName (AddUnique t _) = t"
| "opTableName (DropUnique t _) = t"
| "opTableName (AddCheck t _) = t"
| "opTableName (DropCheck t _) = t"
| "opTableName (AddExclusion t _) = t"
| "opTableName (DropExclusion t _) = t"
| "opTableName (AddIndex t _) = t"
| "opTableName (DropIndex t _) = t"

definition createdNames :: "Plan \<Rightarrow> string list" where
  "createdNames p = concat (map (\<lambda>op. case op of CreateTable t \<Rightarrow> [tName t] | _ \<Rightarrow> []) (Ops p))"

definition concernsOnExistingTables :: "Plan \<Rightarrow> Concern list" where
  "concernsOnExistingTables p =
     filter (\<lambda>c. \<not> (opTableName (conOp c) \<noteq> [] \<and> opTableName (conOp c) \<in> set (createdNames p))) (Validate p)"

section \<open>Foreign keys and exclusions apart\<close>

record fkApply =
  fkAdd :: operation
  fkDrop :: "operation option"

fun dropFKKey :: "operation \<Rightarrow> string option" where
  "dropFKKey (DropForeignKey t fk) = Some (fkColumnsKey t (fkColumns fk))"
| "dropFKKey _ = None"

fun addFKKey :: "operation \<Rightarrow> string option" where
  "addFKKey (AddForeignKey t fk) = Some (fkColumnsKey t (fkColumns fk))"
| "addFKKey _ = None"

definition dropsByKey :: "(operation \<Rightarrow> string option) \<Rightarrow> operation list \<Rightarrow> operation gomap" where
  "dropsByKey key ops = fold (\<lambda>op m. case key op of Some k \<Rightarrow> gm_put k op m | None \<Rightarrow> m) ops []"

fun pairAdds :: "operation gomap \<Rightarrow> operation list \<Rightarrow> string list \<Rightarrow> fkApply list \<times> string list" where
  "pairAdds drops [] claimed = ([], claimed)"
| "pairAdds drops (op # ops) claimed =
     (case addFKKey op of
        None \<Rightarrow> pairAdds drops ops claimed
      | Some key \<Rightarrow>
          (case (if key \<in> set claimed then None else gm_get drops key) of
             Some d \<Rightarrow> (let (items, cl) = pairAdds drops ops (key # claimed) in (\<lparr>fkAdd = op, fkDrop = Some d\<rparr> # items, cl))
           | None \<Rightarrow> (let (items, cl) = pairAdds drops ops claimed in (\<lparr>fkAdd = op, fkDrop = None\<rparr> # items, cl))))"

definition splitForeignKeyOps :: "Plan \<Rightarrow> Plan \<times> fkApply list" where
  "splitForeignKeyOps p =
     (let (items, claimed) = pairAdds (dropsByKey dropFKKey (Ops p)) (Ops p) []
      in (\<lparr>Ops = filter (\<lambda>op. addFKKey op = None \<and>
                              (case dropFKKey op of Some k \<Rightarrow> k \<notin> set claimed | None \<Rightarrow> True)) (Ops p)\<rparr>, items))"

record exclusionApply =
  exAdd :: "string \<times> Exclusion"
  exDrop :: "operation option"

fun dropExKey :: "operation \<Rightarrow> string option" where
  "dropExKey (DropExclusion t e) = Some (exclusionKey t e)"
| "dropExKey _ = None"

fun addExOf :: "operation \<Rightarrow> (string \<times> Exclusion) option" where
  "addExOf (AddExclusion t e) = Some (t, e)"
| "addExOf _ = None"

definition exclusionItems :: "operation gomap \<Rightarrow> operation list \<Rightarrow> exclusionApply list" where
  "exclusionItems drops ops =
     concat (map (\<lambda>op. case addExOf op of
                         Some (t, e) \<Rightarrow> [\<lparr>exAdd = (t, e), exDrop = gm_get drops (exclusionKey t e)\<rparr>]
                       | None \<Rightarrow> []) ops)"

definition pairedExclusions :: "operation gomap \<Rightarrow> operation list \<Rightarrow> string list" where
  "pairedExclusions drops ops =
     concat (map (\<lambda>op. case addExOf op of
                         Some (t, e) \<Rightarrow> if gm_has drops (exclusionKey t e) then [exclusionKey t e] else []
                       | None \<Rightarrow> []) ops)"

text \<open>The two passes of the code remove every paired drop, whichever side of its add it stands on.\<close>

definition splitExclusionOps :: "Plan \<Rightarrow> Plan \<times> exclusionApply list" where
  "splitExclusionOps p =
     (let drops = dropsByKey dropExKey (Ops p); paired = pairedExclusions drops (Ops p)
      in (\<lparr>Ops = filter (\<lambda>op. addExOf op = None \<and>
                              (case dropExKey op of Some k \<Rightarrow> k \<notin> set paired | None \<Rightarrow> True)) (Ops p)\<rparr>,
          exclusionItems drops (Ops p)))"

end
