(* ===== verification/GateFacts.thy ===== *)
theory GateFacts
  imports MigrationGate
begin

text \<open>
  Properties of the migration gate: what rename resolution does to the two schemas, which drops a tenant's
  diff can hold, what the policy lets through, and that splitting a plan loses none of its work.
\<close>

section \<open>Resolving renames\<close>

text \<open>Whether a rename is pending depends on the names of the live tables and columns alone, which resolving
  does not change: each desired table is resolved against the live schema as it was introspected, and
  the order in which Go visits the map does not matter.\<close>

abbreviation tableShape :: "Table \<Rightarrow> string \<times> string \<times> Column gomap \<times> string list" where
  "tableShape t \<equiv> (tName t, tRenamedFrom t, Columns t, ColumnOrder t)"

definition resolvedFrom :: "Schema \<Rightarrow> Table \<Rightarrow> string" where
  "resolvedFrom live dt =
     (if gm_has (Tables live) (tRenamedFrom dt) \<and> \<not> gm_has (Tables live) (tName dt) then tRenamedFrom dt else [])"

definition resolvedTable :: "Schema \<Rightarrow> Table \<Rightarrow> Table" where
  "resolvedTable live dt =
     (let src = resolvedFrom live dt; liveTbl = gm_get (Tables live) (if src \<noteq> [] then src else tName dt)
      in dt\<lparr>tRenamedFrom := src, Columns := gm_map (resolveColumn liveTbl) (Columns dt)\<rparr>)"

lemma gm_get_map: "gm_get (gm_map f m) k = map_option f (gm_get m k)"
  by (induction m) (auto simp: gm_map_def)

lemma gm_keys_map [simp]: "fst ` set (gm_map f m) = fst ` set m"
  by (force simp: gm_map_def)

lemma gm_wf_map [simp]: "gm_wf (gm_map f m) = gm_wf m"
  by (simp add: gm_wf_def gm_map_def comp_def case_prod_beta)

lemma in_gm_map: "(k, v) \<in> set (gm_map f m) \<longleftrightarrow> (\<exists>v0. (k, v0) \<in> set m \<and> v = f v0)"
  by (auto simp: gm_map_def)

lemma keyed_gm_map: "(\<And>v. nm (f v) = nm v) \<Longrightarrow> keyed_by nm m \<Longrightarrow> keyed_by nm (gm_map f m)"
  by (auto simp: keyed_by_def gm_map_def gm_wf_def comp_def case_prod_beta)

lemma keeps_rewriteColumnRefs: "keeps tableShape (rewriteColumnRefs old new)"
  by (auto simp: keeps_def rewriteColumnRefs_def wf_table_def intro: keyed_gm_map)

lemma keeps_columnRewrite: "keeps tableShape (columnRewrite lt c)"
  using keeps_rewriteColumnRefs keeps_id by (auto simp: keeps_def columnRewrite_def)

lemma keepsS_gm_map:
  assumes "keeps v f"
  shows "keepsS v s (s\<lparr>Tables := gm_map f (Tables s)\<rparr>)"
  using assms by (auto simp: keepsS_def keeps_def gm_get_map option.rel_sel option.map_sel)

lemma keepsS_rewriteRefTable: "keepsS tableShape s (rewriteRefTable old new s)"
  unfolding rewriteRefTable_def
  by (rule keepsS_gm_map) (auto simp: keeps_def wf_table_def intro!: keyed_gm_map)

lemma resolve_same_shape:
  assumes "keepsS tableShape live live1"
  shows "gm_has (Tables live1) n = gm_has (Tables live) n"
    and "resolveColumn (gm_get (Tables live1) n) = resolveColumn (gm_get (Tables live) n)"
    and "resolvedFrom live1 dt = resolvedFrom live dt"
    and "resolvedTable live1 dt = resolvedTable live dt"
proof -
  have rel: "rel_option (\<lambda>t t'. tableShape t' = tableShape t \<and> (wf_table t \<longrightarrow> wf_table t')) (gm_get (Tables live) n) (gm_get (Tables live1) n)" for n
    using assms by (simp add: keepsS_def)
  show has: "gm_has (Tables live1) n = gm_has (Tables live) n" for n
    using rel [of n] by (auto simp: gm_has_def option.rel_sel)
  show col: "resolveColumn (gm_get (Tables live1) n) = resolveColumn (gm_get (Tables live) n)" for n
    using rel [of n] by (auto simp: fun_eq_iff resolveColumn_def columnPending_def elim!: option.rel_cases)
  show src: "resolvedFrom live1 dt = resolvedFrom live dt" by (simp add: resolvedFrom_def has)
  show "resolvedTable live1 dt = resolvedTable live dt" by (simp add: resolvedTable_def src col)
qed

lemma resolveOne_spec:
  assumes "resolveOne dt live = (dt', live', keep, blocked)"
  shows "dt' = resolvedTable live dt" "keepsS tableShape live live'"
    "keep = (if tRenamedFrom dt' \<noteq> [] then [tRenamedFrom dt'] else [])"
proof -
  obtain dt1 live1 where 1: "fst (resolveTableRename dt live) = dt1" "fst (snd (resolveTableRename dt live)) = live1"
    by (cases "resolveTableRename dt live") auto
  have l1: "keepsS tableShape live live1"
    using 1(2) keepsS_rewriteRefTable [of live] by (auto simp: resolveTableRename_def Let_def)
  have d1: "dt1 = dt\<lparr>tRenamedFrom := resolvedFrom live dt\<rparr>"
    using 1(1) by (auto simp: resolveTableRename_def Let_def resolvedFrom_def)
  have k1: "fst (snd (snd (resolveTableRename dt live))) = (if tRenamedFrom dt1 \<noteq> [] then [tRenamedFrom dt1] else [])"
    unfolding d1 by (auto simp: resolveTableRename_def Let_def resolvedFrom_def)
  have eq: "dt' = dt1\<lparr>Columns := gm_map (resolveColumn (gm_get (Tables live1) (realKey dt1))) (Columns dt1)\<rparr>"
    "live' = modTable (realKey dt1) (fold (columnRewrite (gm_get (Tables live1) (realKey dt1))) (map snd (Columns dt1))) live1"
    "keep = fst (snd (snd (resolveTableRename dt live)))"
    using assms 1 by (auto simp: resolveOne_def Let_def split: prod.splits)
  show "dt' = resolvedTable live dt"
    unfolding eq(1) d1 by (simp add: resolvedTable_def realKey_def Let_def resolve_same_shape(2) [OF l1])
  show "keepsS tableShape live live'"
    unfolding eq(2) using l1 by (rule keepsS_trans) (intro keepsS_modTable keeps_fold keeps_columnRewrite)
  show "keep = (if tRenamedFrom dt' \<noteq> [] then [tRenamedFrom dt'] else [])"
    unfolding eq(3) k1 eq(1) by simp
qed

lemma resolveTables_spec:
  assumes "resolveTables ts live = (ts', live', keep, blocked)"
  shows "ts' = gm_map (resolvedTable live) ts" "keepsS tableShape live live'" "keep = renameSources tRenamedFrom ts'"
proof -
  have "ts' = gm_map (resolvedTable live) ts \<and> keepsS tableShape live live' \<and> keep = renameSources tRenamedFrom ts'"
    using assms
  proof (induction ts live arbitrary: ts' live' keep blocked rule: resolveTables.induct)
    case (2 n dt ts live)
    obtain dt1 live1 k1 b1 where one: "resolveOne dt live = (dt1, live1, k1, b1)" by (cases "resolveOne dt live")
    obtain ts2 live2 k2 b2 where rest: "resolveTables ts live1 = (ts2, live2, k2, b2)" by (cases "resolveTables ts live1")
    note IH = 2(1) [OF one [symmetric] refl refl rest]
    note spec = resolveOne_spec [OF one]
    have "gm_map (resolvedTable live1) ts = gm_map (resolvedTable live) ts"
      by (simp add: gm_map_def resolve_same_shape(4) [OF spec(2)])
    then show ?case
      using 2(2) one rest IH spec keepsS_trans [OF spec(2)] by (auto simp: gm_map_def renameSources_def)
  qed (auto simp: gm_map_def renameSources_def)
  then show "ts' = gm_map (resolvedTable live) ts" "keepsS tableShape live live'" "keep = renameSources tRenamedFrom ts'"
    by auto
qed

section \<open>The diff of a tenant\<close>

abbreviation resolvedSchema :: "Schema \<Rightarrow> Schema \<Rightarrow> Schema" where
  "resolvedSchema desired live \<equiv> desired\<lparr>Tables := gm_map (resolvedTable live) (Tables desired)\<rparr>"

lemma diffReal_cases:
  obtains live' keep blocked where
    "keepsS tableShape live live'" "keep = renameSources tRenamedFrom (Tables (resolvedSchema desired live))"
    "diffReal desired live includeOrphans =
       (case Diff (resolvedSchema desired live) (managedSubset live' (resolvedSchema desired live) keep includeOrphans) of
          Inl e \<Rightarrow> Inl e | Inr p \<Rightarrow> Inr (p, blocked))"
proof -
  obtain ts live' keep blocked where r: "resolveTables (Tables desired) live = (ts, live', keep, blocked)"
    by (cases "resolveTables (Tables desired) live")
  show ?thesis
    by (rule that [of live' keep blocked])
       (use resolveTables_spec [OF r] in \<open>simp_all add: diffReal_def resolveRenames_def r\<close>)
qed

lemma resolveColumn_name [simp]: "cName (resolveColumn lt c) = cName c"
  by (simp add: resolveColumn_def)

lemma resolvedTable_view [simp]:
  "tName (resolvedTable live dt) = tName dt"
  "tRenamedFrom (resolvedTable live dt) = resolvedFrom live dt"
  by (simp_all add: resolvedTable_def Let_def)

lemma wf_resolvedTable: "wf_table dt \<Longrightarrow> wf_table (resolvedTable live dt)"
  by (auto simp: wf_table_def resolvedTable_def Let_def intro: keyed_gm_map)

lemma wf_resolvedSchema: "wf_schema desired \<Longrightarrow> wf_schema (resolvedSchema desired live)"
  by (fastforce simp: wf_schema_def in_gm_map intro: keyed_gm_map wf_resolvedTable)

lemma wf_keepsS:
  assumes "keepsS tableShape s s'" "wf_schema s"
  shows "wf_schema s'"
proof -
  have "tName t = k \<and> wf_table t" if got: "gm_get (Tables s') k = Some t" for k t
    using keepsS_get(1) [OF assms(1) got] assms(2) by (auto simp: wf_schema_get_iff)
  then show ?thesis using assms by (auto simp: wf_schema_get_iff keepsS_def)
qed

lemma gm_get_filter: "gm_wf m \<Longrightarrow> gm_get (filter (\<lambda>(n, _). Q n) m) k = (if Q k then gm_get m k else None)"
  by (induction m) (auto simp: gm_wf_def map_of_eq_None_iff image_iff)

lemma wf_managedSubset:
  assumes "wf_schema s"
  shows "wf_schema (managedSubset s d keep orphans)"
proof -
  have "distinct (map fst (filter (\<lambda>(n, _). isManaged d keep orphans n) (Tables s)))"
    using assms by (auto simp: wf_schema_def keyed_by_def gm_wf_def intro: distinct_map_filter)
  then show ?thesis using assms by (auto simp: wf_schema_def keyed_by_def gm_wf_def managedSubset_def)
qed

lemma gm_get_managedSubset:
  "wf_schema s \<Longrightarrow> gm_get (Tables (managedSubset s d keep orphans)) k
     = (if isManaged d keep orphans k then gm_get (Tables s) k else None)"
  by (simp add: managedSubset_def gm_get_filter wf_schema_def keyed_by_def)

text \<open>What a tenant's diff drops: only a table that the engine does not manage, that no resource declares,
  and only when the caller asked to see removed resources.\<close>

lemma DropTable_in_plan:
  assumes "wf_schema d" "wf_schema c" "Diff d c = Inr p" "DropTable t \<in> set (Ops p)"
  shows "t \<in> droppedTables d c"
proof -
  note ok = plan_ok [OF assms(1-3)]
  have "DropTable t \<notin> tableOps d c dt" if "(n, dt) \<in> set (Tables d)" for n dt
    using DropTable_content sourced_ok [OF assms(1,2) ok(1) that] kind_diffConstraints [of "DropTable t" dt None]
    by (auto simp: tableOps_def constraintKinds_def split: option.splits)
  then show ?thesis using assms(4) ok(2) by auto
qed

lemma unsourced_not_declared:
  assumes "wf_schema d" "wf_schema c" "t \<in> droppedTables d c"
  shows "(tName t, t) \<in> set (Tables c)"
    and "tName t \<notin> set (renameSources tRenamedFrom (Tables d))"
    and "gm_get (Tables d) (tName t) = Some dt \<Longrightarrow> tRenamedFrom dt \<noteq> []"
proof -
  show t: "(tName t, t) \<in> set (Tables c)" using assms(3) by (simp add: unsourced_def)
  have no: "sourceTable d c dt \<noteq> Some t" if "(n, dt) \<in> set (Tables d)" for n dt
    using assms(3) that by (auto simp: unsourced_def)
  have get: "gm_get (Tables c) (tName t) = Some t" using t wf_schema_get [OF assms(2)] by blast
  show src: "tName t \<notin> set (renameSources tRenamedFrom (Tables d))"
  proof
    assume "tName t \<in> set (renameSources tRenamedFrom (Tables d))"
    then obtain n dt where "(n, dt) \<in> set (Tables d)" "tRenamedFrom dt = tName t" "tName t \<noteq> []"
      by (auto simp: renameSources_def)
    then show False using no [of n dt] get by (simp add: sourceOf_def)
  qed
  assume "gm_get (Tables d) (tName t) = Some dt"
  then have dt: "(tName t, dt) \<in> set (Tables d)" "tName dt = tName t"
    using wf_schema_get [OF assms(1)] wf_schema_table(1) [OF assms(1)] by blast+
  show "tRenamedFrom dt \<noteq> []" using no [OF dt(1)] dt(2) src get by (auto simp: sourceOf_def)
qed

lemma droppable:
  assumes "wf_schema live" "diffReal (buildDesiredSchema std pgSchema s) live includeOrphans = Inr (p, blocked)"
    "DropTable t \<in> set (Ops p)"
  shows "includeOrphans \<and> gm_has (Tables live) (tName t) \<and> \<not> isEngineManagedTable (tName t) \<and>
         \<not> gm_has (Tables (buildDesiredSchema std pgSchema s)) (tName t)"
proof -
  let ?d = "buildDesiredSchema std pgSchema s"
  obtain live' keep bl where k: "keepsS tableShape live live'"
      "keep = renameSources tRenamedFrom (Tables (resolvedSchema ?d live))"
    and eq: "diffReal ?d live includeOrphans =
       (case Diff (resolvedSchema ?d live) (managedSubset live' (resolvedSchema ?d live) keep includeOrphans) of
          Inl e \<Rightarrow> Inl e | Inr p \<Rightarrow> Inr (p, bl))"
    by (rule diffReal_cases)
  let ?r = "resolvedSchema ?d live" let ?m = "managedSubset live' ?r keep includeOrphans"
  have wf: "wf_schema ?r" "wf_schema live'" "wf_schema ?m"
    using wf_resolvedSchema [OF wf_buildDesired] wf_keepsS [OF k(1) assms(1)] wf_managedSubset by blast+
  have "Diff ?r ?m = Inr p" using assms(2) eq by (auto split: sum.splits)
  note un = unsourced_not_declared [OF wf(1,3) DropTable_in_plan [OF wf(1,3) this assms(3)]]
  have "gm_get (Tables ?m) (tName t) = Some t" using un(1) wf_schema_get [OF wf(3)] by blast
  then have m: "isManaged ?r keep includeOrphans (tName t)" "gm_get (Tables live') (tName t) = Some t"
    by (auto simp: gm_get_managedSubset [OF wf(2)] split: if_splits)
  have inlive: "gm_has (Tables live) (tName t)"
    using m(2) resolve_same_shape(1) [OF k(1), of "tName t"] by (simp add: gm_has_def)
  have "gm_get (Tables ?d) (tName t) = None"
  proof (rule ccontr)
    assume "gm_get (Tables ?d) (tName t) \<noteq> None"
    then obtain dt where dt: "gm_get (Tables ?d) (tName t) = Some dt" by blast
    then have "resolvedFrom live dt \<noteq> []" using un(3) [of "resolvedTable live dt"] by (simp add: gm_get_map)
    moreover have "tName dt = tName t" using dt wf_buildDesired by (auto simp: wf_schema_get_iff)
    ultimately show False using inlive by (simp add: resolvedFrom_def split: if_splits)
  qed
  then show ?thesis
    using m(1) inlive un(2) k(2) by (simp add: isManaged_def gm_has_def gm_get_map split: if_splits)
qed

text \<open>A tenant's diff proposes to drop a table only when the caller asked to see removed resources, the
  table is in the database, no resource of the schema declares it, and it is not one of the engine's own
  tables (\<open>auth_*\<close>, \<open>files\<close>).  The additive path therefore never drops a table.\<close>

theorem migration_drops_only_orphans:
  assumes "wf_schema live" "diffReal (buildDesiredSchema std pgSchema s) live includeOrphans = Inr (p, blocked)"
    "DropTable t \<in> set (Ops p)"
  shows "includeOrphans \<and> gm_has (Tables live) (tName t) \<and> \<not> isEngineManagedTable (tName t) \<and>
         \<not> gm_has (Tables (buildDesiredSchema std pgSchema s)) (tName t)"
  using assms by (rule droppable)

text \<open>A live tenant with a removed resource beside an engine table.\<close>

definition exLive :: Schema where
  "exLive = (NewSchema ''t'')\<lparr>Tables :=
     [(''gone'', exTable ''gone'' [exColumn ''id'' [] ''uuid''] []),
      (''auth_users'', exTable ''auth_users'' [exColumn ''id'' [] ''uuid''] [])]\<rparr>"

theorem migration_drops_only_orphans_witness:
  "case diffReal (buildDesiredSchema exStd ''t'' exApi) exLive True of
     Inl _ \<Rightarrow> False
   | Inr (p, _) \<Rightarrow> DropTable (exTable ''gone'' [exColumn ''id'' [] ''uuid''] []) \<in> set (Ops p) \<and>
                  \<not> isEngineManagedTable ''gone''"
proof -
  have wf: "wf_schema exLive" by code_simp
  have "case diffReal (buildDesiredSchema exStd ''t'' exApi) exLive True of
     Inl _ \<Rightarrow> False | Inr (p, _) \<Rightarrow> DropTable (exTable ''gone'' [exColumn ''id'' [] ''uuid''] []) \<in> set (Ops p)"
    by code_simp
  then obtain p b where p: "diffReal (buildDesiredSchema exStd ''t'' exApi) exLive True = Inr (p, b)"
    and d: "DropTable (exTable ''gone'' [exColumn ''id'' [] ''uuid''] []) \<in> set (Ops p)"
    by (auto split: sum.splits)
  have "tName (exTable ''gone'' [exColumn ''id'' [] ''uuid''] []) = ''gone''" by code_simp
  then show ?thesis using migration_drops_only_orphans [OF wf p d] p d by simp
qed

text \<open>The renames a schema declares make sense on their own: no two objects claim one source, and no table
  is renamed from a table of the engine.\<close>

definition declaredRenamesOk :: "Schema \<Rightarrow> bool" where
  "declaredRenamesOk d \<longleftrightarrow>
     distinct (renameSources tRenamedFrom (Tables d)) \<and>
     list_all (\<lambda>src. \<not> isEngineManagedTable src) (renameSources tRenamedFrom (Tables d)) \<and>
     list_all (\<lambda>(_, dt). distinct (renameSources cRenamedFrom (Columns dt))) (Tables d)"

lemma distinct_renameSources_map:
  assumes "\<And>v. src (f v) \<noteq> [] \<Longrightarrow> src (f v) = src v"
  shows "distinct (renameSources src m) \<Longrightarrow> distinct (renameSources src (gm_map f m))"
    and "set (renameSources src (gm_map f m)) \<subseteq> set (renameSources src m)"
proof -
  have "set (renameSources src (gm_map f m)) \<subseteq> set (renameSources src m) \<and>
        (distinct (renameSources src m) \<longrightarrow> distinct (renameSources src (gm_map f m)))"
  proof (induction m)
    case (Cons x m)
    then show ?case using assms [of "snd x"]
      by (cases "src (f (snd x)) = []"; cases "src (snd x) = []")
         (auto simp: renameSources_def gm_map_def case_prod_beta)
  qed (simp add: renameSources_def gm_map_def)
  then show "distinct (renameSources src m) \<Longrightarrow> distinct (renameSources src (gm_map f m))"
    and "set (renameSources src (gm_map f m)) \<subseteq> set (renameSources src m)" by blast+
qed

lemma resolved_tables_sourced:
  assumes "src \<in> set (renameSources tRenamedFrom (gm_map (resolvedTable live) ts))"
  shows "gm_has (Tables live) src"
  using assms by (auto simp: renameSources_def gm_map_def resolvedFrom_def split: if_splits)

lemma resolved_columns_sourced:
  assumes "src \<in> set (renameSources cRenamedFrom (gm_map (resolveColumn lt) cols))"
  shows "\<exists>t. lt = Some t \<and> gm_has (Columns t) src"
  using assms
  by (auto simp: renameSources_def gm_map_def resolveColumn_def columnPending_def split: if_splits option.splits)

text \<open>C39: with declarations that make sense, planning a migration never fails, whatever the database holds:
  a rename that is already done, cannot run or has no source is set aside before the diff sees it.\<close>

theorem migration_diff_total:
  assumes "wf_schema live" "declaredRenamesOk (buildDesiredSchema std pgSchema s)"
  shows "\<exists>p blocked. diffReal (buildDesiredSchema std pgSchema s) live includeOrphans = Inr (p, blocked)"
proof -
  let ?d = "buildDesiredSchema std pgSchema s"
  obtain live' keep bl where k: "keepsS tableShape live live'"
      "keep = renameSources tRenamedFrom (Tables (resolvedSchema ?d live))"
    and eq: "diffReal ?d live includeOrphans =
       (case Diff (resolvedSchema ?d live) (managedSubset live' (resolvedSchema ?d live) keep includeOrphans) of
          Inl e \<Rightarrow> Inl e | Inr p \<Rightarrow> Inr (p, bl))"
    by (rule diffReal_cases)
  let ?r = "resolvedSchema ?d live" let ?m = "managedSubset live' ?r keep includeOrphans"
  have wf: "wf_schema ?r" "wf_schema live'" using wf_resolvedSchema [OF wf_buildDesired] wf_keepsS [OF k(1) assms(1)] by blast+
  have sub: "set (renameSources tRenamedFrom (Tables ?r)) \<subseteq> set (renameSources tRenamedFrom (Tables ?d))"
    "distinct (renameSources tRenamedFrom (Tables ?r))"
    using assms(2) distinct_renameSources_map [of tRenamedFrom "resolvedTable live" "Tables ?d"]
    by (auto simp: declaredRenamesOk_def resolvedFrom_def split: if_splits)
  have tabs: "src \<in> fst ` set (Tables ?m)" if src: "src \<in> set (renameSources tRenamedFrom (Tables ?r))" for src
  proof -
    have "\<not> isEngineManagedTable src" using src sub(1) assms(2) by (auto simp: declaredRenamesOk_def list_all_iff)
    moreover have "gm_has (Tables live') src"
      using resolved_tables_sourced src resolve_same_shape(1) [OF k(1), of src] by simp
    ultimately have "gm_has (Tables ?m) src"
      using src gm_get_managedSubset [OF wf(2), of ?r keep includeOrphans src] k(2)
      by (auto simp: isManaged_def gm_has_def)
    then show ?thesis by (simp add: gm_has_iff)
  qed
  have cols: "sourcesWf (Columns ct) (renameSources cRenamedFrom (Columns dt'))"
    if mem: "(n, dt') \<in> set (Tables ?r)" and ct: "sourceTable ?r ?m dt' = Some ct" for n dt' ct
  proof -
    obtain dt where dt: "(n, dt) \<in> set (Tables ?d)" "dt' = resolvedTable live dt" using mem by (auto simp: in_gm_map)
    let ?k = "if resolvedFrom live dt \<noteq> [] then resolvedFrom live dt else tName dt"
    have "gm_get (Tables ?m) ?k = Some ct" using ct dt(2) by (auto simp: sourceOf_def split: if_splits)
    then have "gm_get (Tables live') ?k = Some ct" by (auto simp: gm_get_managedSubset [OF wf(2)] split: if_splits)
    then obtain lt where lt: "gm_get (Tables live) ?k = Some lt" "Columns ct = Columns lt"
      using keepsS_get(1) [OF k(1)] by blast
    have cols: "Columns dt' = gm_map (resolveColumn (Some lt)) (Columns dt)"
      using lt(1) dt(2) by (simp add: resolvedTable_def Let_def)
    have "distinct (renameSources cRenamedFrom (Columns dt))"
      using assms(2) dt(1) by (auto simp: declaredRenamesOk_def list_all_iff)
    then have "distinct (renameSources cRenamedFrom (gm_map (resolveColumn (Some lt)) (Columns dt)))"
      by (rule distinct_renameSources_map(1) [rotated]) (simp add: resolveColumn_def split: if_splits)
    then show ?thesis
      using resolved_columns_sourced [of _ "Some lt" "Columns dt"] lt(2) by (auto simp: sourcesWf_def cols gm_has_iff)
  qed
  have "sourcesWf (Tables ?m) (renameSources tRenamedFrom (Tables ?r))" using tabs sub(2) by (auto simp: sourcesWf_def)
  then have "wellFormedRenames ?r ?m" using cols by (auto simp: wellFormedRenames_def split: option.splits)
  then have "\<exists>p. Diff ?r ?m = Inr p" unfolding Diff_iff DiffOps_iff using renamesOk_iff [OF wf(1)] by blast
  then show ?thesis using eq by auto
qed

theorem migration_diff_total_witness:
  "declaredRenamesOk (buildDesiredSchema exStd ''t'' exApi) \<and>
   (\<exists>p blocked. diffReal (buildDesiredSchema exStd ''t'' exApi) exLive True = Inr (p, blocked))"
proof -
  have wf: "wf_schema exLive" by code_simp
  have ok: "declaredRenamesOk (buildDesiredSchema exStd ''t'' exApi)" by code_simp
  show ?thesis using migration_diff_total [OF wf ok, of True] ok by blast
qed

section \<open>What the policy lets through\<close>

lemma partition_apply: "Ops (fst (partitionByPolicyApproved p approved)) = filter (keepsOp p approved) (Ops p)"
  by (simp add: partitionByPolicyApproved_def Let_def)

lemma keepsOp_key: "DestructiveKey op = Some key \<Longrightarrow> keepsOp p approved op \<longleftrightarrow> key \<in> set approved"
  by (cases op) (auto simp: keepsOp_def)

lemma set_picked: "x \<in> set (concat (map (\<lambda>y. case g y of Some k \<Rightarrow> [k] | None \<Rightarrow> []) ys)) \<longleftrightarrow> (\<exists>y\<in>set ys. g y = Some x)"
  by (induction ys) (auto split: option.splits)

lemma set_approvedDropTables:
  "n \<in> set (approvedDropTables p approved) \<longleftrightarrow> (\<exists>t. DropTable t \<in> set (Ops p) \<and> tName t = n \<and> n \<in> set approved)"
proof -
  define g where "g op = (if isDropOp (Kind op) \<and> (\<exists>t. op = DropTable t \<and> tName t \<in> set approved) then Some (opTableName op) else None)" for op
  have 1: "(case op of DropTable t \<Rightarrow> if tName t \<in> set approved then [tName t] else [] | _ \<Rightarrow> [])
        = (case g op of Some k \<Rightarrow> [k] | None \<Rightarrow> [])" for op
    by (cases op) (auto simp: g_def)
  have 2: "g op = Some n \<longleftrightarrow> (\<exists>t. op = DropTable t \<and> tName t = n \<and> n \<in> set approved)" for op
    by (cases op) (auto simp: g_def)
  show ?thesis unfolding approvedDropTables_def 1 set_picked 2 by blast
qed

lemma set_replacedFKs:
  "k \<in> set (replacedFKs p) \<longleftrightarrow> (\<exists>t fk. AddForeignKey t fk \<in> set (Ops p) \<and> k = fkColumnsKey t (fkColumns fk))"
proof -
  have 1: "(case op of AddForeignKey t fk \<Rightarrow> [fkColumnsKey t (fkColumns fk)] | _ \<Rightarrow> [])
        = (case addFKKey op of Some k \<Rightarrow> [k] | None \<Rightarrow> [])" for op
    by (cases op) auto
  have 2: "addFKKey op = Some k \<longleftrightarrow> (\<exists>t fk. op = AddForeignKey t fk \<and> k = fkColumnsKey t (fkColumns fk))" for op
    by (cases op) auto
  show ?thesis unfolding replacedFKs_def 1 set_picked 2 by blast
qed

lemma isExclusionReplacement_iff:
  "isExclusionReplacement p table e \<longleftrightarrow>
     (\<exists>t a. AddExclusion t a \<in> set (Ops p) \<and> exclusionKey t a = exclusionKey table e)"
proof -
  have "(case op of AddExclusion t a \<Rightarrow> exclusionKey t a = exclusionKey table e | _ \<Rightarrow> False) \<longleftrightarrow>
        (\<exists>t a. op = AddExclusion t a \<and> exclusionKey t a = exclusionKey table e)" for op
    by (cases op) auto
  then show ?thesis by (auto simp: isExclusionReplacement_def list_ex_iff)
qed

text \<open>The drops the policy may let through: those of data by consent, a foreign key into a table dropped by
  consent, and the first half of a replacement.\<close>

definition consented :: "Plan \<Rightarrow> string list \<Rightarrow> operation \<Rightarrow> bool" where
  "consented p approved op =
     (case op of
        DropTable t \<Rightarrow> tName t \<in> set approved
      | DropColumn t c \<Rightarrow> t @ ''.'' @ cName c \<in> set approved
      | DropForeignKey t fk \<Rightarrow>
          (\<exists>dt. DropTable dt \<in> set (Ops p) \<and> tName dt = RefTable fk \<and> RefTable fk \<in> set approved) \<or>
          (\<exists>ta a. AddForeignKey ta a \<in> set (Ops p) \<and> fkColumnsKey t (fkColumns fk) = fkColumnsKey ta (fkColumns a))
      | DropExclusion t e \<Rightarrow> \<exists>ta a. AddExclusion ta a \<in> set (Ops p) \<and> exclusionKey ta a = exclusionKey t e
      | _ \<Rightarrow> False)"

lemma keepsOp_iff: "keepsOp p approved op \<longleftrightarrow> \<not> isDropOp (Kind op) \<or> consented p approved op"
  by (cases op) (auto simp: keepsOp_def consented_def set_approvedDropTables set_replacedFKs isExclusionReplacement_iff)

lemma destructiveKeys_iff: "key \<in> set (destructiveKeys ops) \<longleftrightarrow> (\<exists>op\<in>set ops. DestructiveKey op = Some key)"
  unfolding destructiveKeys_def by (rule set_picked)

text \<open>C21: the policy partitions a plan: every operation is applied or gated and none is lost or reordered;
  whatever is not a drop is applied; a drop is applied only by consent to it, as a consequence of
  consent to the table it points to, or as the first half of a replacement in the same plan; and the
  keys reported as applied are exactly the approved keys of data-losing drops in the plan.\<close>

theorem drops_need_consent:
  assumes "partitionByPolicyApproved p approved = (apply, gated, keys)"
  shows "Ops apply = filter (\<lambda>op. \<not> isDropOp (Kind op) \<or> consented p approved op) (Ops p) \<and>
         gated = filter (\<lambda>op. isDropOp (Kind op) \<and> \<not> consented p approved op) (Ops p) \<and>
         mset (Ops apply) + mset gated = mset (Ops p) \<and>
         (\<forall>key. key \<in> set keys \<longleftrightarrow> key \<in> set approved \<and> (\<exists>op\<in>set (Ops p). DestructiveKey op = Some key))"
proof -
  have a: "Ops apply = filter (keepsOp p approved) (Ops p)"
    and g: "gated = filter (\<lambda>op. \<not> keepsOp p approved op) (Ops p)" and k: "keys = destructiveKeys (Ops apply)"
    using assms by (auto simp: partitionByPolicyApproved_def Let_def)
  show ?thesis
    unfolding k a g using keepsOp_key [of _ _ p approved]
    by (auto simp: keepsOp_iff [abs_def] destructiveKeys_iff simp flip: keepsOp_iff)
qed

text \<open>A plan that drops a table, re-points a relation and drops an index.\<close>

definition exDropPlan :: Plan where
  "exDropPlan = \<lparr>Ops = [DropForeignKey ''notes'' (exReference ''fk_old'' ''owner'' ''people''),
                        DropTable (exTable ''old'' [] []), DropTable (exTable ''log'' [] []),
                        AddForeignKey ''notes'' (exReference ''fk_new'' ''owner'' ''users'')]\<rparr>"

theorem drops_need_consent_witness:
  "case partitionByPolicyApproved exDropPlan [''old''] of
     (apply, gated, keys) \<Rightarrow> gated = [DropTable (exTable ''log'' [] [])] \<and> keys = [''old''] \<and>
                            mset (Ops apply) + mset gated = mset (Ops exDropPlan)"
proof -
  obtain ap gated keys where p: "partitionByPolicyApproved exDropPlan [''old''] = (ap, gated, keys)"
    by (cases "partitionByPolicyApproved exDropPlan [''old'']")
  have "snd (partitionByPolicyApproved exDropPlan [''old'']) = ([DropTable (exTable ''log'' [] [])], [''old''])" by code_simp
  then have "gated = [DropTable (exTable ''log'' [] [])]" "keys = [''old'']" using p by simp_all
  then show ?thesis using drops_need_consent [OF p, THEN conjunct2, THEN conjunct2, THEN conjunct1] p by simp
qed

end
