(* ===== verification/Migration.thy ===== *)
theory Migration
  imports GateFacts
begin

text \<open>
  \<open>pkg/migration\<close> against a database: \<open>applyMigration\<close> and its dry run (\<open>runner.go\<close>, \<open>preview.go\<close>, the exclusion
  part of \<open>ranges.go\<close>).  PostgreSQL is a record of functions on a world, as in \<open>Executor\<close>; the
  catalogue queries of \<open>introspect.go\<close>, the files table and the reading of schema documents are
  part of it.  An outcome None is a panic of the renderer.  Logging is left out.
\<close>

section \<open>The database\<close>

record 'w Backend =
  bPool :: "'w Pool"
  EnsureMetaTable :: "string \<Rightarrow> 'w call"
  PoolExec :: "string \<Rightarrow> 'w call"
  Introspect :: "string \<Rightarrow> 'w \<Rightarrow> (goError + Schema) \<times> 'w"
  TenantDoc :: "string \<Rightarrow> 'w \<Rightarrow> (string \<times> schemaDoc) option \<times> 'w"
  HistoryDocs :: "string \<Rightarrow> 'w \<Rightarrow> schemaDoc list \<times> 'w"
  QueryCount :: "string \<Rightarrow> 'w \<Rightarrow> (goError + int) \<times> 'w"
  QueryPairs :: "string \<Rightarrow> 'w \<Rightarrow> (goError + (string \<times> string) list) \<times> 'w"
  ErrorText :: "goError \<Rightarrow> string"
  Sanitize :: "string list \<Rightarrow> string"

definition ident1 :: "'w Backend \<Rightarrow> string \<Rightarrow> string" where
  "ident1 B name = Sanitize B [name]"

text \<open>\<open>&schemadiff.Executor{Pool: pool, Schema: pgSchema}\<close>.\<close>

definition executorOf :: "'w Backend \<Rightarrow> string \<Rightarrow> 'w Executor" where
  "executorOf B pgSchema =
     \<lparr>exPool = Some (bPool B), exSchema = pgSchema, LockTimeout = 0, MaxRetries = 0, BackoffBase = 0, OnRetry = None\<rparr>"

section \<open>Planning\<close>

fun diffErrorText :: "diffError \<Rightarrow> string" where
  "diffErrorText (TableRenameSourceMissing t from) =
     ''schemadiff: table '' @ goq t @ '' declares RenamedFrom '' @ goq from @ '', which does not exist in the current schema''"
| "diffErrorText (TableRenameSourceTwice from) =
     ''schemadiff: current table '' @ goq from @ '' is the rename source of more than one desired table''"
| "diffErrorText (ColumnRenameSourceMissing t c from) =
     ''schemadiff: column '' @ t @ ''.'' @ c @ '' declares RenamedFrom '' @ goq from @ '', which does not exist in the current table''"
| "diffErrorText (ColumnRenameSourceTwice t from) =
     ''schemadiff: current column '' @ t @ ''.'' @ from @ '' is the rename source of more than one desired column''"

definition diffTenant :: "Std \<Rightarrow> 'w Backend \<Rightarrow> string \<Rightarrow> APISchema \<Rightarrow> bool \<Rightarrow> 'w \<Rightarrow> (goError + Plan \<times> string list) \<times> 'w" where
  "diffTenant std B pgSchema s includeOrphans w =
     (case Introspect B pgSchema w of
        (Inl err, w1) \<Rightarrow> (Inl (WrapError (''introspect '' @ pgSchema @ '': '') err), w1)
      | (Inr live, w1) \<Rightarrow>
          (case diffReal (buildDesiredSchema std pgSchema s) live includeOrphans of
             Inl e \<Rightarrow> (Inl (WrapError (''diff '' @ pgSchema @ '': '') (PlainError (diffErrorText e))), w1)
           | Inr r \<Rightarrow> (Inr r, w1)))"

definition ownedOf :: "'w Backend \<Rightarrow> string \<Rightarrow> 'w \<Rightarrow> ownedObjects option \<times> 'w" where
  "ownedOf B pgSchema w =
     (case TenantDoc B pgSchema w of
        (None, w1) \<Rightarrow> (loadOwnedObjects None [], w1)
      | (Some (tenantID, current), w1) \<Rightarrow>
          (let (docs, w2) = HistoryDocs B tenantID w1 in (loadOwnedObjects (Some current) docs, w2)))"

definition schemaHasFileFields :: "APISchema \<Rightarrow> bool" where
  "schemaHasFileFields s =
     list_ex (\<lambda>(_, res). list_ex (\<lambda>(_, f). fType f = ''file'') (Fields res)) (asResources s)"

definition TrimPrefix :: "string \<Rightarrow> string \<Rightarrow> string" where
  "TrimPrefix s pre = (if HasPrefix s pre then drop (length pre) s else s)"

definition ensureRangeExtensions :: "'w Backend \<Rightarrow> APISchema \<Rightarrow> 'w call" where
  "ensureRangeExtensions B s w =
     (if \<not> HasNoOverlap s then (None, w)
      else case PoolExec B ''CREATE EXTENSION IF NOT EXISTS btree_gist'' w of
             (Some err, w1) \<Rightarrow>
               (Some (PlainError (''btree_gist is required by a no_overlap rule and could not be installed ('' @ ErrorText B err @
                  '') '' @ emDash @ '' as a superuser run: CREATE EXTENSION btree_gist; (scripts/install.sh does it at setup)'')), w1)
           | (None, w1) \<Rightarrow> (None, w1))"

section \<open>Foreign keys\<close>

text \<open>One item: whether the constraint was left unvalidated, once for each statement after the first that
  fails.  A render with no statement skips the item.\<close>

fun validateFK :: "(string \<Rightarrow> string) \<Rightarrow> 'w Executor \<Rightarrow> operation \<Rightarrow> Statement list \<Rightarrow> 'w \<Rightarrow> string list \<times> 'w" where
  "validateFK ident ex op [] w = ([], w)"
| "validateFK ident ex op (st # sts) w =
     (case ExecOne ident ex (SQL st) w of
        (r, w1) \<Rightarrow> (let (more, w2) = validateFK ident ex op sts w1
                    in ((if r = None then [] else [opString op]) @ more, w2)))"

definition applyForeignKey :: "(string \<Rightarrow> string) \<Rightarrow> 'w Executor \<Rightarrow> fkApply \<Rightarrow> 'w \<Rightarrow> (string list \<times> 'w) option" where
  "applyForeignKey ident ex item w =
     (case Render ident \<lparr>Ops = [fkAdd item]\<rparr> of
        None \<Rightarrow> None
      | Some [] \<Rightarrow> Some ([], w)
      | Some (st # sts) \<Rightarrow>
          (case (case fkDrop item of
                   None \<Rightarrow> Some (Some [SQL st])
                 | Some d \<Rightarrow> (case Render ident \<lparr>Ops = [d]\<rparr> of
                               None \<Rightarrow> None
                             | Some [] \<Rightarrow> Some None
                             | Some (dst # _) \<Rightarrow> Some (Some [SQL dst, SQL st]))) of
             None \<Rightarrow> None
           | Some None \<Rightarrow> Some ([], w)
           | Some (Some add) \<Rightarrow>
               (case ExecBatch ident ex add w of
                  (Some err, w1) \<Rightarrow> Some ([], w1)
                | (None, w1) \<Rightarrow> Some (validateFK ident ex (fkAdd item) sts w1))))"

fun applyForeignKeys :: "(string \<Rightarrow> string) \<Rightarrow> 'w Executor \<Rightarrow> fkApply list \<Rightarrow> 'w \<Rightarrow> (string list \<times> 'w) option" where
  "applyForeignKeys ident ex [] w = Some ([], w)"
| "applyForeignKeys ident ex (item # items) w =
     (case applyForeignKey ident ex item w of
        None \<Rightarrow> None
      | Some (un, w1) \<Rightarrow> map_option (\<lambda>(rest, w2). (un @ rest, w2)) (applyForeignKeys ident ex items w1))"

section \<open>Exclusions\<close>

definition rangeOf :: "Std \<Rightarrow> APISchema \<Rightarrow> string \<Rightarrow> string \<Rightarrow> (RangeDef \<times> string) option" where
  "rangeOf std s table symbol =
     (case gm_get (asResources s) table of
        None \<Rightarrow> None
      | Some res \<Rightarrow>
          firstSome (\<lambda>name. case gm_get (Ranges res) name of
                              None \<Rightarrow> None
                            | Some r \<Rightarrow> if NoOverlap r \<noteq> None \<and> RangeExclusionName std table name r = symbol
                                        then Some (r, name) else None)
                    (RangeNames res))"

definition overlapConds :: "Std \<Rightarrow> 'w Backend \<Rightarrow> RangeDef \<Rightarrow> FieldDef gomap \<Rightarrow> string list" where
  "overlapConds std B r fds =
     (let q1 = (\<lambda>col. ''a.'' @ ident1 B col); q2 = (\<lambda>col. ''b.'' @ ident1 B col)
      in [''a.id < b.id'',
          q1 (Start r) @ '' IS NOT NULL'', q1 (End r) @ '' IS NOT NULL'',
          q2 (Start r) @ '' IS NOT NULL'', q2 (End r) @ '' IS NOT NULL'',
          RangeExprSQL (q1 (Start r)) (q1 (End r)) @ '' && '' @ RangeExprSQL (q2 (Start r)) (q2 (End r))] @
         (case NoOverlap r of
            None \<Rightarrow> []
          | Some no \<Rightarrow>
              map (\<lambda>c. q1 c @ '' = '' @ q2 c) (Scope no) @
              (case When no of
                 None \<Rightarrow> []
               | Some wh \<Rightarrow> [WhenSQLPrefixed std wh fds ''a.'', WhenSQLPrefixed std wh fds ''b.''])))"

definition existingOverlaps ::
  "Std \<Rightarrow> 'w Backend \<Rightarrow> string \<Rightarrow> string \<Rightarrow> RangeDef \<Rightarrow> FieldDef gomap \<Rightarrow> int \<Rightarrow> 'w
     \<Rightarrow> (goError + (string \<times> string) list \<times> int) \<times> 'w" where
  "existingOverlaps std B pgSchema table r fds limit w =
     (let tbl = Sanitize B [pgSchema, table];
          base = '' FROM '' @ tbl @ '' a JOIN '' @ tbl @ '' b ON '' @ join_with '' AND '' (overlapConds std B r fds)
      in case QueryCount B (''SELECT count(*)'' @ base) w of
           (Inl err, w1) \<Rightarrow> (Inl err, w1)
         | (Inr total', w1) \<Rightarrow>
             if total' = 0 then (Inr ([], 0), w1)
             else case QueryPairs B (''SELECT a.id::text, b.id::text'' @ base @ '' ORDER BY a.id, b.id LIMIT '' @ Itoa limit) w1 of
                    (Inl err, w2) \<Rightarrow> (Inl err, w2)
                  | (Inr pairs, w2) \<Rightarrow> (Inr (pairs, total'), w2))"

text \<open>The multiplication sign, as its UTF-8 bytes.\<close>

definition timesSign :: string where
  "timesSign = [CHR 0xC3, CHR 0x97]"

definition describeOverlapBlock :: "string \<Rightarrow> string \<Rightarrow> (string \<times> string) list \<Rightarrow> int \<Rightarrow> string" where
  "describeOverlapBlock table rangeName pairs total' =
     (let names = map (\<lambda>(a, b). a @ '' '' @ timesSign @ '' '' @ b) pairs;
          more = (if int (length pairs) < total' then '' (+'' @ Itoa (total' - int (length pairs)) @ '' more)'' else [])
      in ''no_overlap '' @ goq rangeName @ '' on '' @ table @ '': '' @ Itoa total' @ '' existing row pair(s) already overlap '' @ emDash @
         '' '' @ join_with '', '' names @ more @ ''; the rule cannot be enforced until they are resolved '' @
         ''(move, cancel or mark them as not blocking), nothing was half-applied'')"

definition safeErr :: "string \<Rightarrow> string" where
  "safeErr text = (let line = takeWhile (\<lambda>c. c \<noteq> CHR 10) text in if line = [] then text else line)"

text \<open>The pre-check of one rule: the message that blocks it, if the check runs and finds pairs.\<close>

definition overlapBlock :: "Std \<Rightarrow> 'w Backend \<Rightarrow> string \<Rightarrow> APISchema \<Rightarrow> string \<Rightarrow> Exclusion \<Rightarrow> 'w \<Rightarrow> string option \<times> 'w" where
  "overlapBlock std B pgSchema s table e w =
     (case rangeOf std s table (exSymbol e) of
        None \<Rightarrow> (None, w)
      | Some (r, rangeName) \<Rightarrow>
          (case existingOverlaps std B pgSchema table r (Fields (resourceOf s table)) 5 w of
             (Inl _, w1) \<Rightarrow> (None, w1)
           | (Inr (pairs, total'), w1) \<Rightarrow>
               (if total' > 0 then Some (describeOverlapBlock table rangeName pairs total') else None, w1)))"

definition refusedText :: "'w Backend \<Rightarrow> operation \<Rightarrow> goError \<Rightarrow> string" where
  "refusedText B op err =
     opString op @ '': the database refused the no-overlap rule ('' @ safeErr (ErrorText B err) @ '') '' @ emDash @
     '' existing rows overlap; nothing was half-applied''"

definition exclusionBatch :: "'w Backend \<Rightarrow> exclusionApply \<Rightarrow> (string + string list) option" where
  "exclusionBatch B item =
     (let ident = ident1 B; op = AddExclusion (fst (exAdd item)) (snd (exAdd item))
      in case Render ident \<lparr>Ops = [op]\<rparr> of
           None \<Rightarrow> None
         | Some [] \<Rightarrow> Some (Inl (opString op @ '': could not be rendered''))
         | Some (st # _) \<Rightarrow>
             (case exDrop item of
                None \<Rightarrow> Some (Inr [SQL st])
              | Some d \<Rightarrow> (case Render ident \<lparr>Ops = [d]\<rparr> of
                            None \<Rightarrow> None
                          | Some [] \<Rightarrow> Some (Inl (opString op @ '': replacement could not be rendered''))
                          | Some (dst # _) \<Rightarrow> Some (Inr [SQL dst, SQL st]))))"

definition applyExclusion ::
  "Std \<Rightarrow> 'w Backend \<Rightarrow> string \<Rightarrow> APISchema \<Rightarrow> exclusionApply \<Rightarrow> 'w \<Rightarrow> (string list \<times> 'w) option" where
  "applyExclusion std B pgSchema s item w =
     (let op = AddExclusion (fst (exAdd item)) (snd (exAdd item))
      in case overlapBlock std B pgSchema s (fst (exAdd item)) (snd (exAdd item)) w of
           (Some msg, w1) \<Rightarrow> Some ([msg], w1)
         | (None, w1) \<Rightarrow>
             (case exclusionBatch B item of
                None \<Rightarrow> None
              | Some (Inl msg) \<Rightarrow> Some ([msg], w1)
              | Some (Inr batch) \<Rightarrow>
                  (case ExecBatch (ident1 B) (executorOf B pgSchema) batch w1 of
                     (Some err, w2) \<Rightarrow> Some ([refusedText B op err], w2)
                   | (None, w2) \<Rightarrow> Some ([], w2))))"

fun applyExclusions ::
  "Std \<Rightarrow> 'w Backend \<Rightarrow> string \<Rightarrow> APISchema \<Rightarrow> exclusionApply list \<Rightarrow> 'w \<Rightarrow> (string list \<times> 'w) option" where
  "applyExclusions std B pgSchema s [] w = Some ([], w)"
| "applyExclusions std B pgSchema s (item # items) w =
     (case applyExclusion std B pgSchema s item w of
        None \<Rightarrow> None
      | Some (bl, w1) \<Rightarrow> map_option (\<lambda>(rest, w2). (bl @ rest, w2)) (applyExclusions std B pgSchema s items w1))"

section \<open>Applying\<close>

record ApplyOutcome =
  AppliedDrops :: "string list"
  GatedDrops :: "string list"
  UnmatchedApprovals :: "string list"
  ExternalDrift :: "string list"
  Unapplied :: "string list"
  UnvalidatedFKs :: "string list"
  NoChange :: bool
  BlockedExclusions :: "string list"

definition emptyOutcome :: ApplyOutcome where
  "emptyOutcome = \<lparr>AppliedDrops = [], GatedDrops = [], UnmatchedApprovals = [], ExternalDrift = [], Unapplied = [],
                   UnvalidatedFKs = [], NoChange = False, BlockedExclusions = []\<rparr>"

definition Partial :: "ApplyOutcome option \<Rightarrow> bool" where
  "Partial oc = (case oc of None \<Rightarrow> False | Some out \<Rightarrow> Unapplied out \<noteq> [])"

definition verifyApplied :: "Std \<Rightarrow> 'w Backend \<Rightarrow> string \<Rightarrow> APISchema \<Rightarrow> bool \<Rightarrow> 'w \<Rightarrow> string list \<times> 'w" where
  "verifyApplied std B pgSchema s includeOrphans w =
     (case diffTenant std B pgSchema s includeOrphans w of
        (Inl _, w1) \<Rightarrow> ([], w1)
      | (Inr (p, blockedRenames), w1) \<Rightarrow>
          (blockedRenames @ map opString (filter (\<lambda>op. \<not> isDropOp (Kind op)) (Ops p)), w1))"

text \<open>The report with blocked no-overlap rules worded by their pairs.\<close>

definition reword :: "string list \<Rightarrow> string list \<Rightarrow> string list" where
  "reword blocked un = (if blocked = [] then un else blocked @ filter (\<lambda>u. \<not> HasPrefix u ''ADD EXCLUSION '') un)"

text \<open>What the policy makes of the planned operations, before anything runs.\<close>

definition decideOutcome :: "Plan \<Rightarrow> string list \<Rightarrow> ApplyOutcome \<Rightarrow> ApplyOutcome" where
  "decideOutcome p approved out =
     (case partitionByPolicyApproved p approved of
        (_, gated, keys) \<Rightarrow>
          out\<lparr>GatedDrops := destructiveKeys gated, AppliedDrops := keys,
              UnmatchedApprovals := filter (\<lambda>k. k \<notin> set keys) approved\<rparr>)"

definition runPlan ::
  "Std \<Rightarrow> 'w Backend \<Rightarrow> string \<Rightarrow> APISchema \<Rightarrow> bool \<Rightarrow> Plan \<Rightarrow> ApplyOutcome \<Rightarrow> 'w
     \<Rightarrow> ((goError + ApplyOutcome) \<times> 'w) option" where
  "runPlan std B pgSchema s includeOrphans applyPlan out w =
     (let (nonFK0, fkAdds) = splitForeignKeyOps applyPlan;
          (nonFK, exclusions) = splitExclusionOps nonFK0;
          ex = executorOf B pgSchema
      in case Apply (ident1 B) ex nonFK w of
           None \<Rightarrow> None
         | Some (Some err, w1) \<Rightarrow> Some (Inl (WrapError (''apply migration '' @ pgSchema @ '': '') err), w1)
         | Some (None, w1) \<Rightarrow>
             (case applyForeignKeys (ident1 B) ex fkAdds w1 of
                None \<Rightarrow> None
              | Some (unvalidated, w2) \<Rightarrow>
                  (case applyExclusions std B pgSchema s exclusions w2 of
                     None \<Rightarrow> None
                   | Some (blocked, w3) \<Rightarrow>
                       (let (un, w4) = verifyApplied std B pgSchema s includeOrphans w3
                        in Some (Inr (out\<lparr>UnvalidatedFKs := unvalidated, BlockedExclusions := blocked,
                                          Unapplied := reword blocked un\<rparr>), w4)))))"

definition applyPlanned ::
  "Std \<Rightarrow> 'w Backend \<Rightarrow> string \<Rightarrow> APISchema \<Rightarrow> string list \<Rightarrow> bool \<Rightarrow> Plan \<Rightarrow> string list \<Rightarrow> 'w
     \<Rightarrow> ((goError + ApplyOutcome) \<times> 'w) option" where
  "applyPlanned std B pgSchema s approved includeOrphans p0 blockedRenames w =
     (let (owned, w1) = ownedOf B pgSchema w;
          (p, external) = splitExternalDrops p0 owned;
          out0 = emptyOutcome\<lparr>Unapplied := blockedRenames, ExternalDrift := map opString external\<rparr>
      in if Ops p = [] then Some (Inr (out0\<lparr>NoChange := True, UnmatchedApprovals := approved\<rparr>), w1)
         else let (applyPlan, gated, keys) = partitionByPolicyApproved p approved;
                  out1 = decideOutcome p approved out0
              in if Ops applyPlan = [] then Some (Inr (out1\<lparr>NoChange := True\<rparr>), w1)
                 else runPlan std B pgSchema s includeOrphans applyPlan out1 w1)"

definition applyMigration ::
  "Std \<Rightarrow> 'w Backend \<Rightarrow> string \<Rightarrow> APISchema \<Rightarrow> string list \<Rightarrow> bool \<Rightarrow> 'w \<Rightarrow> ((goError + ApplyOutcome) \<times> 'w) option" where
  "applyMigration std B pgSchema s approved includeOrphans w =
     (case (if schemaHasFileFields s then EnsureMetaTable B (TrimPrefix pgSchema ''tenant_'') w else (None, w)) of
        (Some err, w1) \<Rightarrow> Some (Inl (WrapError (''ensure files table for '' @ pgSchema @ '': '') err), w1)
      | (None, w1) \<Rightarrow>
          (case ensureRangeExtensions B s w1 of
             (Some err, w2) \<Rightarrow> Some (Inl err, w2)
           | (None, w2) \<Rightarrow>
               (case diffTenant std B pgSchema s includeOrphans w2 of
                  (Inl err, w3) \<Rightarrow> Some (Inl err, w3)
                | (Inr (p, blockedRenames), w3) \<Rightarrow>
                    applyPlanned std B pgSchema s approved includeOrphans p blockedRenames w3)))"

definition ApplyTenantMigration :: "Std \<Rightarrow> 'w Backend \<Rightarrow> string \<Rightarrow> APISchema \<Rightarrow> 'w \<Rightarrow> (goError option \<times> 'w) option" where
  "ApplyTenantMigration std B pgSchema s w =
     map_option (\<lambda>(r, w'). (case r of Inl err \<Rightarrow> Some err | Inr _ \<Rightarrow> None, w')) (applyMigration std B pgSchema s [] False w)"

definition ApplyTenantMigrationApproved ::
  "Std \<Rightarrow> 'w Backend \<Rightarrow> string \<Rightarrow> APISchema \<Rightarrow> string list \<Rightarrow> 'w \<Rightarrow> ((goError + ApplyOutcome) \<times> 'w) option" where
  "ApplyTenantMigrationApproved std B pgSchema s approved = applyMigration std B pgSchema s approved True"

section \<open>The dry run\<close>

record DestructiveOp =
  dKey :: string
  dKind :: string
  dTable :: string
  dColumn :: string
  RowsLost :: int
  TableRows :: int
  dApproved :: bool
  dSummary :: string

record Preview =
  pvSchema :: string
  pvEmpty :: bool
  pvApply :: "string list"
  Destructive :: "DestructiveOp list"
  Drift :: "string list"
  Concerns :: "string list"
  pvUnmatched :: "string list"
  External :: "string list"

definition HasDestructive :: "Preview \<Rightarrow> bool" where
  "HasDestructive pv \<longleftrightarrow> Destructive pv \<noteq> []"

definition PendingDestructive :: "Preview \<Rightarrow> bool" where
  "PendingDestructive pv = list_ex (\<lambda>d. \<not> dApproved d) (Destructive pv)"

definition countRowsAll :: "'w Backend \<Rightarrow> string \<Rightarrow> string \<Rightarrow> 'w \<Rightarrow> (goError + int) \<times> 'w" where
  "countRowsAll B pgSchema table w = QueryCount B (''SELECT count(*) FROM '' @ Sanitize B [pgSchema, table]) w"

definition countRowsNonNull :: "'w Backend \<Rightarrow> string \<Rightarrow> string \<Rightarrow> string \<Rightarrow> 'w \<Rightarrow> (goError + int) \<times> 'w" where
  "countRowsNonNull B pgSchema table col w =
     QueryCount B (''SELECT count(*) FROM '' @ Sanitize B [pgSchema, table] @ '' WHERE '' @ Sanitize B [col] @ '' IS NOT NULL'') w"

text \<open>\<open>physical[rt.To] = rt.From\<close> over the plan: the last rename to a name wins.\<close>

definition physName :: "Plan \<Rightarrow> string \<Rightarrow> string" where
  "physName p t =
     (case gm_get (fold (\<lambda>op m. case op of RenameTable from to \<Rightarrow> gm_put to from m | _ \<Rightarrow> m) (Ops p) []) t of
        Some from \<Rightarrow> from | None \<Rightarrow> t)"

definition impactErr :: "string \<Rightarrow> goError \<Rightarrow> goError" where
  "impactErr key err = WrapError (''impact count for '' @ key @ '': '') err"

definition describeColumn ::
  "'w Backend \<Rightarrow> string \<Rightarrow> string \<Rightarrow> string \<Rightarrow> string \<Rightarrow> string \<Rightarrow> bool \<Rightarrow> 'w \<Rightarrow> (goError + DestructiveOp) \<times> 'w" where
  "describeColumn B pgSchema phys table col key ok w =
     (case countRowsAll B pgSchema phys w of
        (Inl err, w1) \<Rightarrow> (Inl (impactErr key err), w1)
      | (Inr total', w1) \<Rightarrow>
          (case countRowsNonNull B pgSchema phys col w1 of
             (Inl err, w2) \<Rightarrow> (Inl (impactErr key err), w2)
           | (Inr lost, w2) \<Rightarrow>
               (Inr \<lparr>dKey = key, dKind = ''column'', dTable = table, dColumn = col, RowsLost = lost, TableRows = total', dApproved = ok,
                     dSummary = ''DROP COLUMN '' @ table @ ''.'' @ col @ '' '' @ emDash @ '' '' @ Itoa lost @ '' of '' @ Itoa total' @
                                '' row(s) hold a value that will be permanently lost''\<rparr>, w2)))"

definition describeTable ::
  "'w Backend \<Rightarrow> string \<Rightarrow> string \<Rightarrow> string \<Rightarrow> bool \<Rightarrow> 'w \<Rightarrow> (goError + DestructiveOp) \<times> 'w" where
  "describeTable B pgSchema table key ok w =
     (case countRowsAll B pgSchema table w of
        (Inl err, w1) \<Rightarrow> (Inl (impactErr key err), w1)
      | (Inr total', w1) \<Rightarrow>
          (Inr \<lparr>dKey = key, dKind = ''table'', dTable = table, dColumn = [], RowsLost = total', TableRows = total', dApproved = ok,
                dSummary = ''DROP TABLE '' @ table @ '' '' @ emDash @ '' '' @ Itoa total' @ '' row(s) will be permanently deleted''\<rparr>, w1))"

definition describeDestructive ::
  "'w Backend \<Rightarrow> string \<Rightarrow> operation \<Rightarrow> string \<Rightarrow> (string \<Rightarrow> string) \<Rightarrow> bool \<Rightarrow> 'w \<Rightarrow> (goError + DestructiveOp) \<times> 'w" where
  "describeDestructive B pgSchema op key phys ok w =
     (case op of
        DropColumn t c \<Rightarrow> describeColumn B pgSchema (phys t) t (cName c) key ok w
      | DropTable t \<Rightarrow> describeTable B pgSchema (tName t) key ok w
      | _ \<Rightarrow> (Inl (PlainError ''describeDestructive: not a destructive op''), w))"

fun describeAll ::
  "'w Backend \<Rightarrow> string \<Rightarrow> (string \<Rightarrow> string) \<Rightarrow> string list \<Rightarrow> operation list \<Rightarrow> 'w \<Rightarrow> (goError + DestructiveOp list) \<times> 'w" where
  "describeAll B pgSchema phys keys [] w = (Inr [], w)"
| "describeAll B pgSchema phys keys (op # ops) w =
     (case DestructiveKey op of
        None \<Rightarrow> describeAll B pgSchema phys keys ops w
      | Some key \<Rightarrow>
          (case describeDestructive B pgSchema op key phys (key \<in> set keys) w of
             (Inl err, w1) \<Rightarrow> (Inl err, w1)
           | (Inr d, w1) \<Rightarrow>
               (case describeAll B pgSchema phys keys ops w1 of
                  (Inl err, w2) \<Rightarrow> (Inl err, w2)
                | (Inr ds, w2) \<Rightarrow> (Inr (d # ds), w2))))"

fun exclusionConcerns :: "Std \<Rightarrow> 'w Backend \<Rightarrow> string \<Rightarrow> APISchema \<Rightarrow> string list \<Rightarrow> operation list \<Rightarrow> 'w \<Rightarrow> string list \<times> 'w" where
  "exclusionConcerns std B pgSchema s created [] w = ([], w)"
| "exclusionConcerns std B pgSchema s created (op # ops) w =
     (case addExOf op of
        None \<Rightarrow> exclusionConcerns std B pgSchema s created ops w
      | Some (table, e) \<Rightarrow>
          if table \<in> set created then exclusionConcerns std B pgSchema s created ops w
          else case rangeOf std s table (exSymbol e) of
                 None \<Rightarrow> exclusionConcerns std B pgSchema s created ops w
               | Some (r, rangeName) \<Rightarrow>
                   (case existingOverlaps std B pgSchema table r (Fields (resourceOf s table)) 5 w of
                      (res, w1) \<Rightarrow>
                        (let line = (case res of
                               Inl err \<Rightarrow> [''[unknown] no_overlap '' @ goq rangeName @ '' on '' @ table @
                                           '': the overlap pre-check could not run ('' @ safeErr (ErrorText B err) @ '')'']
                             | Inr (pairs, total') \<Rightarrow>
                                 if total' > 0 then [''[blocked] '' @ describeOverlapBlock table rangeName pairs total'] else []);
                             (more, w2) = exclusionConcerns std B pgSchema s created ops w1
                         in (line @ more, w2))))"

definition externalText :: "operation \<Rightarrow> string" where
  "externalText op =
     opString op @ '' '' @ emDash @ '' consumer-owned (no schema version ever declared it); out of migration scope, left untouched''"

definition previewPlanned ::
  "Std \<Rightarrow> 'w Backend \<Rightarrow> string \<Rightarrow> APISchema \<Rightarrow> string list \<Rightarrow> Plan \<Rightarrow> Preview \<Rightarrow> 'w \<Rightarrow> (goError + Preview) \<times> 'w" where
  "previewPlanned std B pgSchema s approved p pv w =
     (let (applyPlan, gated, keys) = partitionByPolicyApproved p approved
      in case describeAll B pgSchema (physName p) keys (Ops p) w of
           (Inl err, w1) \<Rightarrow> (Inl err, w1)
         | (Inr ds, w1) \<Rightarrow>
             (let (blocked, w2) = exclusionConcerns std B pgSchema s (createdNames p) (Ops p) w1
              in (Inr (pv\<lparr>pvApply := map opString (filter (\<lambda>op. \<not> IsDestructive op) (Ops applyPlan)),
                          Destructive := ds,
                          Drift := map opString (filter (\<lambda>op. \<not> IsDestructive op) gated),
                          Concerns := Concerns pv @
                            map (\<lambda>c. ''['' @ RiskString (conRisk c) @ ''] '' @ conMessage c) (concernsOnExistingTables p) @ blocked,
                          pvUnmatched := filter (\<lambda>k. k \<notin> set keys) approved\<rparr>), w2)))"

definition PreviewTenantMigration ::
  "Std \<Rightarrow> 'w Backend \<Rightarrow> string \<Rightarrow> APISchema \<Rightarrow> string list \<Rightarrow> 'w \<Rightarrow> (goError + Preview) \<times> 'w" where
  "PreviewTenantMigration std B pgSchema s approved w =
     (case diffTenant std B pgSchema s True w of
        (Inl err, w1) \<Rightarrow> (Inl err, w1)
      | (Inr (p0, blockedRenames), w1) \<Rightarrow>
          (let (owned, w2) = ownedOf B pgSchema w1;
               (p, external) = splitExternalDrops p0 owned;
               pv = \<lparr>pvSchema = pgSchema, pvEmpty = (Ops p = []), pvApply = [], Destructive = [], Drift = [],
                     Concerns = map (\<lambda>r. ''[blocked] '' @ r) blockedRenames, pvUnmatched = [],
                     External = map externalText external\<rparr>
           in if Ops p = [] then (Inr pv, w2)
              else previewPlanned std B pgSchema s approved p pv w2))"

end
