(* ===== verification/SplitFacts.thy ===== *)
theory SplitFacts
  imports GateFacts
begin

text \<open>
  Foreign keys and exclusions are taken out of a plan and each addition is paired with the drop it replaces.
  The accounting is the same for both, so it is done once, over the identity under which a drop and an
  addition meet, and interpreted for the two splits.
\<close>

section \<open>Pairing drops with additions\<close>

definition picked :: "('a \<Rightarrow> 'b option) \<Rightarrow> 'a list \<Rightarrow> 'b list" where
  "picked g xs = concat (map (\<lambda>x. case g x of Some k \<Rightarrow> [k] | None \<Rightarrow> []) xs)"

lemma picked_simps [simp]:
  "picked g [] = []"
  "picked g (x # xs) = (case g x of Some k \<Rightarrow> k # picked g xs | None \<Rightarrow> picked g xs)"
  "picked g (xs @ ys) = picked g xs @ picked g ys"
  by (simp_all add: picked_def split: option.splits)

lemma set_picked_iff: "k \<in> set (picked g xs) \<longleftrightarrow> (\<exists>x\<in>set xs. g x = Some k)"
  unfolding picked_def by (rule set_picked)

lemma picked_eq_map: "picked g xs = map (\<lambda>x. the (g x)) (filter (\<lambda>x. g x \<noteq> None) xs)"
  by (induction xs) auto

lemma picked_filter: "picked g (filter (\<lambda>x. case g x of Some k \<Rightarrow> Q k | None \<Rightarrow> R x) xs) = filter Q (picked g xs)"
  by (induction xs) (auto split: option.splits)

lemma dropsByKey_snoc:
  "dropsByKey key (ops @ [op]) = (case key op of Some k \<Rightarrow> gm_put k op (dropsByKey key ops) | None \<Rightarrow> dropsByKey key ops)"
  by (simp add: dropsByKey_def split: option.split)

lemma dropsByKey_has: "gm_has (dropsByKey key ops) k \<longleftrightarrow> k \<in> set (picked key ops)"
  by (induction ops rule: rev_induct)
     (auto simp: dropsByKey_snoc gm_has_iff gm_keys_put dropsByKey_def [of _ "[]"] split: option.splits)

lemma dropsByKey_keys: "fst ` set (dropsByKey key ops) = set (picked key ops)"
  using dropsByKey_has [of key ops] by (auto simp: gm_has_iff)

lemma dropsByKey_key: "gm_get (dropsByKey key ops) k = Some op \<Longrightarrow> key op = Some k \<and> op \<in> set ops"
  by (induction ops arbitrary: k op rule: rev_induct)
     (auto simp: dropsByKey_snoc gm_get_put dropsByKey_def [of _ "[]"] split: option.splits if_splits)

lemma dropsByKey_unique:
  "distinct (picked key ops) \<Longrightarrow> op \<in> set ops \<Longrightarrow> key op = Some k \<Longrightarrow> gm_get (dropsByKey key ops) k = Some op"
proof (induction ops rule: rev_induct)
  case (snoc x ops)
  then show ?case
    by (auto simp: dropsByKey_snoc gm_get_put set_picked_iff split: option.splits if_splits)
qed simp

locale replacement_split =
  fixes dropKey addKey :: "operation \<Rightarrow> string option"
  assumes apart: "dropKey op = None \<or> addKey op = None"
begin

definition rest :: "string list \<Rightarrow> operation list \<Rightarrow> operation list" where
  "rest claimed ops =
     filter (\<lambda>op. addKey op = None \<and> (case dropKey op of Some k \<Rightarrow> k \<notin> set claimed | None \<Rightarrow> True)) ops"

definition adds :: "operation list \<Rightarrow> operation list" where
  "adds ops = filter (\<lambda>op. addKey op \<noteq> None) ops"

definition drops :: "string list \<Rightarrow> operation list \<Rightarrow> operation list" where
  "drops claimed ops = filter (\<lambda>op. case dropKey op of Some k \<Rightarrow> k \<in> set claimed | None \<Rightarrow> False) ops"

lemma three_ways: "mset (rest claimed ops) + mset (adds ops) + mset (drops claimed ops) = mset ops"
proof (induction ops)
  case (Cons op ops)
  then show ?case using apart [of op] by (auto simp: rest_def adds_def drops_def split: option.splits)
qed (simp add: rest_def adds_def drops_def)

lemma claimed_drops:
  assumes "distinct (picked dropKey ops)" "distinct claimed" "set claimed \<subseteq> set (picked dropKey ops)"
  shows "mset (map (\<lambda>k. the (gm_get (dropsByKey dropKey ops) k)) claimed) = mset (drops claimed ops)"
proof -
  let ?D = "drops claimed ops"
  have picked: "picked dropKey ?D = filter (\<lambda>k. k \<in> set claimed) (picked dropKey ops)"
    unfolding drops_def by (rule picked_filter)
  then have "mset (picked dropKey ?D) = mset claimed"
    using assms by (intro set_eq_iff_mset_eq_distinct [THEN iffD1]) auto
  moreover have "picked dropKey ?D = map (\<lambda>op. the (dropKey op)) ?D"
    unfolding picked_eq_map by (rule arg_cong [where f = "map _"]) (auto simp: drops_def filter_id_conv split: option.splits)
  ultimately have keys: "mset claimed = image_mset (\<lambda>op. the (dropKey op)) (mset ?D)" by (metis mset_map)
  have "the (gm_get (dropsByKey dropKey ops) (the (dropKey op))) = op" if "op \<in> set ?D" for op
    using that dropsByKey_unique [OF assms(1)] by (auto simp: drops_def split: option.splits)
  then have "image_mset (\<lambda>op. the (gm_get (dropsByKey dropKey ops) (the (dropKey op)))) (mset ?D) = image_mset (\<lambda>op. op) (mset ?D)"
    by (intro image_mset_cong) simp
  then show ?thesis unfolding mset_map keys by (simp add: multiset.map_comp comp_def)
qed

lemma accounted:
  assumes "distinct (picked dropKey ops)" "distinct claimed" "set claimed \<subseteq> set (picked dropKey ops)"
  shows "mset (rest claimed ops) + mset (adds ops)
         + mset (map (\<lambda>k. the (gm_get (dropsByKey dropKey ops) k)) claimed) = mset ops"
  unfolding claimed_drops [OF assms] by (rule three_ways)

end

interpretation fks: replacement_split dropFKKey addFKKey
proof
  fix op show "dropFKKey op = None \<or> addFKKey op = None" by (cases op) auto
qed

abbreviation addExKey :: "operation \<Rightarrow> string option" where
  "addExKey op \<equiv> map_option (\<lambda>(t, e). exclusionKey t e) (addExOf op)"

interpretation exs: replacement_split dropExKey addExKey
proof
  fix op show "dropExKey op = None \<or> addExKey op = None" by (cases op) auto
qed

section \<open>Foreign keys\<close>

lemma pairAdds_spec:
  assumes "pairAdds drops ops claimed = (items, cl)" "distinct claimed"
  shows "map fkAdd items = filter (\<lambda>op. addFKKey op \<noteq> None) ops"
    and "\<exists>new. cl = new @ claimed \<and> distinct cl \<and> set new \<subseteq> fst ` set drops \<and>
               mset (picked fkDrop items) = mset (map (\<lambda>k. the (gm_get drops k)) new)"
    and "item \<in> set items \<Longrightarrow> fkDrop item = Some d \<Longrightarrow> \<exists>k. addFKKey (fkAdd item) = Some k \<and> gm_get drops k = Some d"
proof -
  have "map fkAdd items = filter (\<lambda>op. addFKKey op \<noteq> None) ops \<and>
        (\<exists>new. cl = new @ claimed \<and> distinct cl \<and> set new \<subseteq> fst ` set drops \<and>
               mset (picked fkDrop items) = mset (map (\<lambda>k. the (gm_get drops k)) new)) \<and>
        (\<forall>item\<in>set items. \<forall>d. fkDrop item = Some d \<longrightarrow> (\<exists>k. addFKKey (fkAdd item) = Some k \<and> gm_get drops k = Some d))"
    using assms
  proof (induction drops ops claimed arbitrary: items cl rule: pairAdds.induct)
    case (2 drops op ops claimed)
    show ?case
    proof (cases "addFKKey op")
      case None
      then show ?thesis using 2 by auto
    next
      case (Some key)
      show ?thesis
      proof (cases "if key \<in> set claimed then None else gm_get drops key")
        case None
        obtain items1 cl1 where r: "pairAdds drops ops claimed = (items1, cl1)" by (cases "pairAdds drops ops claimed")
        show ?thesis using 2(2) [OF Some None r 2(5)] 2(4) r Some None by (auto simp: Let_def)
      next
        case d: (Some d)
        then have key: "key \<notin> set claimed" "gm_get drops key = Some d" by (auto split: if_splits)
        obtain items1 cl1 where r: "pairAdds drops ops (key # claimed) = (items1, cl1)" by (cases "pairAdds drops ops (key # claimed)")
        have dist: "distinct (key # claimed)" using key 2(5) by simp
        note IH = 2(3) [OF Some d r dist]
        then obtain new where new: "cl1 = new @ key # claimed" "distinct cl1" "set new \<subseteq> fst ` set drops"
          "mset (picked fkDrop items1) = mset (map (\<lambda>k. the (gm_get drops k)) new)" by blast
        have eq: "items = \<lparr>fkAdd = op, fkDrop = Some d\<rparr> # items1" "cl = cl1" using 2(4) Some d r by (auto simp: Let_def)
        have "key \<in> fst ` set drops" using key(2) by (force dest: gm_get_in)
        then have "\<exists>new. cl = new @ claimed \<and> distinct cl \<and> set new \<subseteq> fst ` set drops \<and>
               mset (picked fkDrop items) = mset (map (\<lambda>k. the (gm_get drops k)) new)"
          unfolding eq using new key(2) by (intro exI [of _ "new @ [key]"]) auto
        then show ?thesis unfolding eq using IH Some key(2) by auto
      qed
    qed
  qed simp
  then show "map fkAdd items = filter (\<lambda>op. addFKKey op \<noteq> None) ops"
    and "\<exists>new. cl = new @ claimed \<and> distinct cl \<and> set new \<subseteq> fst ` set drops \<and>
               mset (picked fkDrop items) = mset (map (\<lambda>k. the (gm_get drops k)) new)"
    and "item \<in> set items \<Longrightarrow> fkDrop item = Some d \<Longrightarrow> \<exists>k. addFKKey (fkAdd item) = Some k \<and> gm_get drops k = Some d"
    by blast+
qed

text \<open>when no two foreign-key drops of a plan constrain the same columns, taking the foreign keys apart loses
  nothing: the rest of the plan, the additions and the drops paired with them are the plan; every
  addition stands in its own item, and the drop beside it is over the same table and columns.\<close>

theorem foreign_key_split_accounts:
  assumes "splitForeignKeyOps p = (rest, items)" "distinct (picked dropFKKey (Ops p))"
  shows "mset (Ops rest) + mset (map fkAdd items) + mset (picked fkDrop items) = mset (Ops p) \<and>
         (\<forall>op\<in>set (Ops rest). addFKKey op = None) \<and>
         (\<forall>item\<in>set items. \<forall>d. fkDrop item = Some d \<longrightarrow> dropFKKey d = addFKKey (fkAdd item) \<and> d \<in> set (Ops p))"
proof -
  obtain cl where cl: "pairAdds (dropsByKey dropFKKey (Ops p)) (Ops p) [] = (items, cl)"
    and rest: "Ops rest = fks.rest cl (Ops p)"
    using assms(1) by (auto simp: splitForeignKeyOps_def fks.rest_def Let_def split: prod.splits)
  note spec = pairAdds_spec [OF cl]
  have sub: "set cl \<subseteq> set (picked dropFKKey (Ops p))"
    using spec(2) dropsByKey_keys [of dropFKKey "Ops p"] by auto
  have "mset (picked fkDrop items) = mset (map (\<lambda>k. the (gm_get (dropsByKey dropFKKey (Ops p)) k)) cl)" "distinct cl"
    using spec(2) by auto
  then have "mset (Ops rest) + mset (map fkAdd items) + mset (picked fkDrop items) = mset (Ops p)"
    using fks.accounted [OF assms(2) _ sub] spec(1) rest by (simp add: fks.adds_def)
  moreover have "dropFKKey d = addFKKey (fkAdd item) \<and> d \<in> set (Ops p)"
    if "item \<in> set items" "fkDrop item = Some d" for item d
    using spec(3) [OF _ that] dropsByKey_key [of dropFKKey "Ops p"] by auto
  ultimately show ?thesis unfolding rest by (auto simp: fks.rest_def)
qed

text \<open>A relation of \<open>orders\<close> re-pointed: the old constraint is dropped, the new one added.\<close>

definition exRepoint :: Plan where
  "exRepoint = \<lparr>Ops = [DropForeignKey ''orders'' (exReference ''fk_old'' ''buyer'' ''people''),
                       AddForeignKey ''orders'' (exReference ''fk_new'' ''buyer'' ''users'')]\<rparr>"

theorem foreign_key_split_accounts_witness:
  "mset (Ops (fst (splitForeignKeyOps exRepoint))) + mset (map fkAdd (snd (splitForeignKeyOps exRepoint)))
     + mset (picked fkDrop (snd (splitForeignKeyOps exRepoint))) = mset (Ops exRepoint) \<and>
   picked fkDrop (snd (splitForeignKeyOps exRepoint)) = [DropForeignKey ''orders'' (exReference ''fk_old'' ''buyer'' ''people'')]"
proof -
  have dist: "distinct (picked dropFKKey (Ops exRepoint))" by code_simp
  have "picked fkDrop (snd (splitForeignKeyOps exRepoint)) = [DropForeignKey ''orders'' (exReference ''fk_old'' ''buyer'' ''people'')]"
    by code_simp
  then show ?thesis using foreign_key_split_accounts [OF prod.collapse [symmetric] dist] by blast
qed

text \<open>Without that condition the split loses work: of two constraints dropped over the columns of one
  addition, one is paired and the other is in no part of the result.\<close>

theorem duplicate_key_drop_is_lost:
  "case splitForeignKeyOps \<lparr>Ops = [DropForeignKey ''orders'' (exReference ''fk_a'' ''buyer'' ''people''),
                                 DropForeignKey ''orders'' (exReference ''fk_b'' ''buyer'' ''people''),
                                 AddForeignKey ''orders'' (exReference ''fk_new'' ''buyer'' ''users'')]\<rparr> of
     (rest, items) \<Rightarrow> DropForeignKey ''orders'' (exReference ''fk_a'' ''buyer'' ''people'') \<notin> set (Ops rest) \<and>
                      DropForeignKey ''orders'' (exReference ''fk_a'' ''buyer'' ''people'') \<notin> set (picked fkDrop items)"
  by code_simp

section \<open>Exclusions\<close>

lemma exclusionItems_spec:
  "map exAdd (exclusionItems drops ops) = picked addExOf ops"
  "picked exDrop (exclusionItems drops ops) = map (\<lambda>k. the (gm_get drops k)) (pairedExclusions drops ops)"
  "pairedExclusions drops ops = filter (gm_has drops) (picked addExKey ops)"
  by (induction ops) (auto simp: exclusionItems_def pairedExclusions_def gm_has_def split: option.splits)

lemma addEx_adds: "map (\<lambda>(t, e). AddExclusion t e) (picked addExOf ops) = exs.adds ops"
proof (induction ops)
  case (Cons op ops)
  then show ?case by (cases op) (simp_all add: exs.adds_def)
qed (simp add: exs.adds_def)

text \<open>When the no-overlap rules a plan drops are of different families, and so are those it adds, taking
  the exclusions apart loses nothing: the rest, the additions and the paired drops are the plan.\<close>

theorem exclusion_split_accounts:
  assumes "splitExclusionOps p = (rest, items)" "distinct (picked dropExKey (Ops p))" "distinct (picked addExKey (Ops p))"
  shows "mset (Ops rest) + mset (map (\<lambda>item. AddExclusion (fst (exAdd item)) (snd (exAdd item))) items)
         + mset (picked exDrop items) = mset (Ops p)"
proof -
  let ?drops = "dropsByKey dropExKey (Ops p)"
  let ?cl = "pairedExclusions ?drops (Ops p)"
  have rest: "Ops rest = exs.rest ?cl (Ops p)" and items: "items = exclusionItems ?drops (Ops p)"
    using assms(1) by (auto simp: splitExclusionOps_def exs.rest_def Let_def)
  have cl: "distinct ?cl" "set ?cl \<subseteq> set (picked dropExKey (Ops p))"
    using assms(3) by (auto simp: exclusionItems_spec(3) dropsByKey_has)
  have "map (\<lambda>item. AddExclusion (fst (exAdd item)) (snd (exAdd item))) items
        = map (\<lambda>(t, e). AddExclusion t e) (map exAdd items)" by (simp add: case_prod_beta)
  also have "\<dots> = exs.adds (Ops p)" unfolding items exclusionItems_spec(1) by (rule addEx_adds)
  finally show ?thesis
    using exs.accounted [OF assms(2) cl] unfolding rest items exclusionItems_spec(2) by simp
qed

definition exNewRule :: Plan where
  "exNewRule = \<lparr>Ops = [DropExclusion ''rooms'' \<lparr>exSymbol = ''excl_rooms_stay_0a1b2c3d'', exDefinition = ''d''\<rparr>,
                       AddExclusion ''rooms'' \<lparr>exSymbol = ''excl_rooms_stay_4e5f6a7b'', exDefinition = ''e''\<rparr>]\<rparr>"

theorem exclusion_split_accounts_witness:
  "mset (Ops (fst (splitExclusionOps exNewRule)))
     + mset (map (\<lambda>item. AddExclusion (fst (exAdd item)) (snd (exAdd item))) (snd (splitExclusionOps exNewRule)))
     + mset (picked exDrop (snd (splitExclusionOps exNewRule))) = mset (Ops exNewRule) \<and>
   Ops (fst (splitExclusionOps exNewRule)) = []"
proof -
  have dist: "distinct (picked dropExKey (Ops exNewRule))" "distinct (picked addExKey (Ops exNewRule))" by code_simp+
  have "Ops (fst (splitExclusionOps exNewRule)) = []" by code_simp
  then show ?thesis using exclusion_split_accounts [OF prod.collapse [symmetric] dist] by blast
qed

end
