(* ===== verification/MigrationFacts.thy ===== *)
theory MigrationFacts
  imports Migration SplitFacts
begin

text \<open>
  Properties of the migration run: what can reach the executor, that the dry run predicts the apply, that a
  run that reports no change committed nothing, that a divergence is never reported as success, and
  that a foreign key is replaced in one transaction.
\<close>

section \<open>What reaches the executor\<close>

lemma splitForeignKey_sub:
  assumes "splitForeignKeyOps p = (rest, items)"
  shows "set (Ops rest) \<subseteq> set (Ops p)"
  using assms by (auto simp: splitForeignKeyOps_def Let_def split: prod.splits)

lemma splitExclusion_sub:
  assumes "splitExclusionOps p = (rest, items)"
  shows "set (Ops rest) \<subseteq> set (Ops p)"
  using assms by (auto simp: splitExclusionOps_def Let_def)

lemma splitExternal_sub:
  assumes "splitExternalDrops p owned = (p', ext)" "op \<in> set (Ops p')"
  shows "op \<in> set (Ops p)" "owned = Some ob \<Longrightarrow> \<not> isExternal ob op"
  using assms by (auto simp: splitExternalDrops_def split: option.splits)

text \<open>The executor of \<open>runPlan\<close> is given the plan that leaves the ownership filter, the policy and the two
  splits.\<close>

definition stagedPlan :: "Plan \<Rightarrow> ownedObjects option \<Rightarrow> string list \<Rightarrow> Plan" where
  "stagedPlan p0 owned approved =
     fst (splitExclusionOps (fst (splitForeignKeyOps (fst (partitionByPolicyApproved (fst (splitExternalDrops p0 owned)) approved)))))"

lemma staged_op:
  assumes "op \<in> set (Ops (stagedPlan p0 owned approved))"
  shows "op \<in> set (Ops p0)" "owned = Some ob \<Longrightarrow> \<not> isExternal ob op"
    "DestructiveKey op = Some key \<Longrightarrow> key \<in> set approved"
proof -
  let ?p = "fst (splitExternalDrops p0 owned)"
  have "op \<in> set (filter (keepsOp ?p approved) (Ops ?p))"
    using assms splitExclusion_sub [OF prod.collapse [symmetric]] splitForeignKey_sub [OF prod.collapse [symmetric]]
    unfolding stagedPlan_def partition_apply [symmetric] by blast
  then have keeps: "op \<in> set (Ops ?p)" "keepsOp ?p approved op" by auto
  then show "op \<in> set (Ops p0)" "owned = Some ob \<Longrightarrow> \<not> isExternal ob op"
    using splitExternal_sub [OF prod.collapse [symmetric]] by blast+
  show "DestructiveKey op = Some key \<Longrightarrow> key \<in> set approved" using keeps(2) keepsOp_key by blast
qed


definition exOwned :: ownedObjects where
  "exOwned = \<lparr>ownTables = [''gone''], ownColumns = []\<rparr>"


section \<open>The dry run predicts the apply\<close>

lemma describe_key:
  assumes "describeDestructive B pgSchema op key phys ok w = (Inr d, w')"
  shows "dKey d = key \<and> dApproved d = ok"
  using assms
  by (cases op) (auto simp: describeDestructive_def describeColumn_def describeTable_def split: sum.splits prod.splits)

lemma describeAll_keys:
  assumes "describeAll B pgSchema phys keys ops w = (Inr ds, w')"
  shows "map (\<lambda>d. (dKey d, dApproved d)) ds = map (\<lambda>k. (k, k \<in> set keys)) (destructiveKeys ops)"
  using assms
proof (induction ops arbitrary: w ds w')
  case (Cons op ops)
  show ?case
  proof (cases "DestructiveKey op")
    case (Some key)
    then obtain d w1 ds1 where "describeDestructive B pgSchema op key phys (key \<in> set keys) w = (Inr d, w1)"
        "describeAll B pgSchema phys keys ops w1 = (Inr ds1, w')" "ds = d # ds1"
      using Cons.prems by (auto split: sum.splits prod.splits)
    then show ?thesis using describe_key Cons.IH Some by (fastforce simp: destructiveKeys_def)
  qed (use Cons in \<open>simp add: destructiveKeys_def\<close>)
qed (simp add: destructiveKeys_def)

lemma destructiveKeys_filter:
  assumes "\<And>op key. op \<in> set ops \<Longrightarrow> DestructiveKey op = Some key \<Longrightarrow> P op \<longleftrightarrow> Q key"
  shows "destructiveKeys (filter P ops) = filter Q (destructiveKeys ops)"
  using assms by (induction ops) (auto simp: destructiveKeys_def split: option.splits)

lemma filter_by_key:
  assumes "map (\<lambda>d. (dKey d, dApproved d)) ds = map (\<lambda>k. (k, R k)) ks"
  shows "map dKey (filter dApproved ds) = filter R ks" "map dKey (filter (\<lambda>d. \<not> dApproved d) ds) = filter (\<lambda>k. \<not> R k) ks"
  using assms by (induction ds arbitrary: ks) (auto simp: Cons_eq_map_conv)

text \<open>The keys that a partition applies and gates, over the destructive keys of the plan.\<close>

lemma partition_keys:
  assumes "partitionByPolicyApproved p approved = (ap, gated, keys)"
  shows "keys = filter (\<lambda>k. k \<in> set keys) (destructiveKeys (Ops p))"
    and "destructiveKeys gated = filter (\<lambda>k. k \<notin> set keys) (destructiveKeys (Ops p))"
proof -
  have g: "gated = filter (\<lambda>op. \<not> keepsOp p approved op) (Ops p)"
    and k: "keys = destructiveKeys (filter (keepsOp p approved) (Ops p))"
    using assms by (auto simp: partitionByPolicyApproved_def Let_def)
  have in_keys: "key \<in> set keys \<longleftrightarrow> key \<in> set approved" if "op \<in> set (Ops p)" "DestructiveKey op = Some key" for op key
    using that keepsOp_key [of _ key p approved] by (auto simp: k destructiveKeys_iff)
  show "keys = filter (\<lambda>k. k \<in> set keys) (destructiveKeys (Ops p))"
    by (subst k, rule destructiveKeys_filter) (simp add: in_keys keepsOp_key)
  show "destructiveKeys gated = filter (\<lambda>k. k \<notin> set keys) (destructiveKeys (Ops p))"
    unfolding g by (rule destructiveKeys_filter) (simp add: in_keys keepsOp_key)
qed

lemma runPlan_outcome:
  assumes "runPlan std B pgSchema s orphans ap out w = Some (Inr out', w')"
  shows "AppliedDrops out' = AppliedDrops out" "GatedDrops out' = GatedDrops out"
    "UnmatchedApprovals out' = UnmatchedApprovals out" "ExternalDrift out' = ExternalDrift out" "NoChange out' = NoChange out"
    "\<exists>w3 un. verifyApplied std B pgSchema s orphans w3 = (un, w') \<and> Unapplied out' = reword (BlockedExclusions out') un"
proof -
  obtain un unv bl w3 where v: "verifyApplied std B pgSchema s orphans w3 = (un, w')"
    and o': "out' = out\<lparr>UnvalidatedFKs := unv, BlockedExclusions := bl, Unapplied := reword bl un\<rparr>"
    using assms by (auto simp: runPlan_def Let_def split: prod.splits option.splits)
  then show "AppliedDrops out' = AppliedDrops out" "GatedDrops out' = GatedDrops out"
    "UnmatchedApprovals out' = UnmatchedApprovals out" "ExternalDrift out' = ExternalDrift out" "NoChange out' = NoChange out"
    "\<exists>w3 un. verifyApplied std B pgSchema s orphans w3 = (un, w') \<and> Unapplied out' = reword (BlockedExclusions out') un"
    by auto
qed

text \<open>A schema whose migration needs no file table and no extension is planned in the world the call finds.\<close>

lemma applyMigration_plain:
  assumes "\<not> schemaHasFileFields s" "\<not> HasNoOverlap s"
  shows "applyMigration std B pgSchema s approved orphans w =
     (case diffTenant std B pgSchema s orphans w of
        (Inl err, w1) \<Rightarrow> Some (Inl err, w1)
      | (Inr (p, blocked), w1) \<Rightarrow> applyPlanned std B pgSchema s approved orphans p blocked w1)"
  using assms by (simp add: applyMigration_def ensureRangeExtensions_def)

lemma applyPlanned_cases:
  assumes "applyPlanned std B pgSchema s approved orphans p0 blocked w = Some (Inr out, w')"
    and "ownedOf B pgSchema w = (owned, w1)" "splitExternalDrops p0 owned = (p, ext)"
    and "partitionByPolicyApproved p approved = (ap, gated, keys)"
  obtains (empty) "Ops p = []" "w' = w1" "NoChange out" "ExternalDrift out = map opString ext" "AppliedDrops out = []" "GatedDrops out = []"
    | (gated) "Ops p \<noteq> []" "Ops ap = []" "w' = w1" "NoChange out" "ExternalDrift out = map opString ext"
        "AppliedDrops out = keys" "GatedDrops out = destructiveKeys gated" "UnmatchedApprovals out = filter (\<lambda>k. k \<notin> set keys) approved"
    | (ran) out1 where "Ops p \<noteq> []" "Ops ap \<noteq> []" "runPlan std B pgSchema s orphans ap out1 w1 = Some (Inr out, w')"
        "\<not> NoChange out" "ExternalDrift out = map opString ext"
        "AppliedDrops out = keys" "GatedDrops out = destructiveKeys gated" "UnmatchedApprovals out = filter (\<lambda>k. k \<notin> set keys) approved"
proof -
  define out0 where "out0 = emptyOutcome\<lparr>Unapplied := blocked, ExternalDrift := map opString ext\<rparr>"
  define out1 where "out1 = decideOutcome p approved out0"
  have out1: "\<not> NoChange out1" "ExternalDrift out1 = map opString ext" "AppliedDrops out1 = keys"
    "GatedDrops out1 = destructiveKeys gated" "UnmatchedApprovals out1 = filter (\<lambda>k. k \<notin> set keys) approved"
    by (simp_all add: out1_def out0_def decideOutcome_def assms(4) emptyOutcome_def)
  have run: "(if Ops p = [] then Some (Inr (out0\<lparr>NoChange := True, UnmatchedApprovals := approved\<rparr>), w1)
         else if Ops ap = [] then Some (Inr (out1\<lparr>NoChange := True\<rparr>), w1)
         else runPlan std B pgSchema s orphans ap out1 w1) = Some (Inr out, w')"
    using assms(1) unfolding applyPlanned_def Let_def assms(2-4) prod.case out0_def out1_def .
  show ?thesis
  proof (cases "Ops p = []")
    case True
    then show ?thesis using run by (intro empty) (auto simp: out0_def emptyOutcome_def)
  next
    case False
    show ?thesis
    proof (cases "Ops ap = []")
      case True
      then show ?thesis using run False out1 by (intro gated) auto
    next
      case some: False
      then have r: "runPlan std B pgSchema s orphans ap out1 w1 = Some (Inr out, w')" using run False by simp
      show ?thesis using runPlan_outcome [OF r] out1 False some r by (intro ran) auto
    qed
  qed
qed


section \<open>No change, and no silent divergence\<close>

text \<open>The reads of a migration leave the committed history alone.\<close>

definition quietReads :: "'w Backend \<Rightarrow> ('w \<Rightarrow> string list) \<Rightarrow> bool" where
  "quietReads B hist \<longleftrightarrow>
     (\<forall>pg w. hist (snd (Introspect B pg w)) = hist w) \<and> (\<forall>pg w. hist (snd (TenantDoc B pg w)) = hist w) \<and>
     (\<forall>tid w. hist (snd (HistoryDocs B tid w)) = hist w)"

lemma diffTenant_quiet: "quietReads B hist \<Longrightarrow> hist (snd (diffTenant std B pgSchema s orphans w)) = hist w"
  by (auto simp: quietReads_def diffTenant_def split: prod.splits sum.splits) (metis snd_conv)+

lemma ownedOf_quiet: "quietReads B hist \<Longrightarrow> hist (snd (ownedOf B pgSchema w)) = hist w"
  by (auto simp: quietReads_def ownedOf_def split: prod.splits option.splits) (metis snd_conv)+


section \<open>Replacing a foreign key\<close>

lemma executorOf_quiet: "quietRetry (executorOf B pgSchema) hist"
  by (simp add: quietRetry_def onRetry_def executorOf_def)

lemma execBatch_atomic:
  assumes "transactional (bPool B) hist pend" "pgSchema \<noteq> []" "sqls \<noteq> []"
    and "ExecBatch ident (executorOf B pgSchema) sqls w = (r, w')"
  shows "hist w' = hist w @ (if r = None then txnLog ident (executorOf B pgSchema) (map sqlStatement sqls) else [])"
proof -
  have "runTxnBatch ident (executorOf B pgSchema) (bPool B) (map sqlStatement sqls) w = (r, w')"
    using assms(2-4) by (simp add: ExecBatch_def executorOf_def)
  then show ?thesis using atomicCallD [OF runTxnBatch_atomic [OF assms(1) executorOf_quiet]] by blast
qed

lemma validateFK_grows:
  assumes "transactional (bPool B) hist pend" "pgSchema \<noteq> []"
  shows "validateFK ident (executorOf B pgSchema) op sts w = (un, w') \<Longrightarrow> \<exists>l. hist w' = hist w @ l"
proof (induction sts arbitrary: w un)
  case (Cons st sts)
  obtain r w1 where 1: "ExecOne ident (executorOf B pgSchema) (SQL st) w = (r, w1)" by fastforce
  obtain un2 where "validateFK ident (executorOf B pgSchema) op sts w1 = (un2, w')"
    using Cons.prems 1 by (auto split: prod.splits)
  then obtain l where l: "hist w' = hist w1 @ l" using Cons.IH by blast
  have "runTxnBatch ident (executorOf B pgSchema) (bPool B) [sqlStatement (SQL st)] w = (r, w1)"
    using 1 assms(2) by (simp add: ExecOne_def executorOf_def)
  then have "\<exists>l. hist w1 = hist w @ l"
    using atomicCallD [OF runTxnBatch_atomic [OF assms(1) executorOf_quiet]] by blast
  then show ?case using l by auto
qed simp

text \<open>Re-pointing a relation is one transaction: whatever fails, either nothing at all was committed, and the
  old constraint still guards the column, or the first thing committed is the transaction that drops
  the old constraint and adds the new one.  No run leaves the relation with neither.\<close>

theorem foreign_key_replaced_atomically:
  assumes "transactional (bPool B) hist pend" "pgSchema \<noteq> []"
    and "applyForeignKey ident (executorOf B pgSchema)
           \<lparr>fkAdd = AddForeignKey t new, fkDrop = Some (DropForeignKey t old)\<rparr> w = Some (unvalidated, w')"
  shows "hist w' = hist w \<or>
         (\<exists>rest. hist w' = hist w @ [setLocalPath ident (executorOf B pgSchema), setLocalTimeout (executorOf B pgSchema),
                   dropConstraintSQL ident t (fkSymbol old), addFKSQL ident t new] @ rest)"
proof -
  let ?ex = "executorOf B pgSchema" and ?drop = "dropConstraintSQL ident t (fkSymbol old)" and ?add = "addFKSQL ident t new"
  obtain r w1 where b: "ExecBatch ident ?ex [?drop, ?add] w = (r, w1)" by fastforce
  have log: "hist w1 = hist w @ (if r = None then txnLog ident ?ex (map sqlStatement [?drop, ?add]) else [])"
    using execBatch_atomic [OF assms(1,2) _ b] by simp
  have "(case r of Some err \<Rightarrow> Some ([], w1)
         | None \<Rightarrow> Some (validateFK ident ?ex (AddForeignKey t new) [txStmt (AddForeignKey t new) (validateSQL ident t (fkSymbol new))] w1))
        = Some (unvalidated, w')"
    using assms(3) b by (simp add: applyForeignKey_def Render_def txStmt_def del: validateFK.simps cong: option.case_cong)
  then have rest: "if r = None then \<exists>un sts. validateFK ident ?ex (AddForeignKey t new) sts w1 = (un, w') else w' = w1"
    by (auto split: option.splits simp del: validateFK.simps)
  show ?thesis
  proof (cases r)
    case None
    then obtain un sts where "validateFK ident ?ex (AddForeignKey t new) sts w1 = (un, w')" using rest by auto
    then obtain l where "hist w' = hist w1 @ l" using validateFK_grows [OF assms(1,2)] by blast
    then show ?thesis using log None by (auto simp: txnLog_def sqlStatement_def)
  qed (use log rest in auto)
qed

section \<open>A tenant in memory\<close>

text \<open>The database of \<open>Executor\<close> with a catalogue that shows the tables the schema declares and one that it no
  longer does.\<close>

definition exConverged :: Schema where
  "exConverged = (let d = buildDesiredSchema exStd ''t'' exApi
                  in d\<lparr>Tables := Tables d @ [(''gone'', exTable ''gone'' [exColumn ''id'' [] ''uuid''] [])]\<rparr>)"

definition exBackend :: "exWorld Backend" where
  "exBackend = \<lparr>bPool = exDb, EnsureMetaTable = (\<lambda>_ w. (None, w)), PoolExec = (\<lambda>_ w. (None, w)),
     Introspect = (\<lambda>_ w. (Inr exConverged, w)), TenantDoc = (\<lambda>_ w. (None, w)), HistoryDocs = (\<lambda>_ w. ([], w)),
     QueryCount = (\<lambda>_ w. (Inr 7, w)), QueryPairs = (\<lambda>_ w. (Inr [], w)), ErrorText = (\<lambda>_. ''error''), Sanitize = concat\<rparr>"

definition exStart :: exWorld where
  "exStart = \<lparr>wHist = [], wPend = [], wLocks = []\<rparr>"

lemma exBackend_quiet: "quietReads exBackend wHist"
  by (simp add: quietReads_def exBackend_def)

lemma exApi_plain: "\<not> schemaHasFileFields exApi" "\<not> HasNoOverlap exApi"
  by code_simp+

lemma exApply:
  "case applyMigration exStd exBackend ''t'' exApi [] True exStart of
     Some (Inr out, _) \<Rightarrow> NoChange out \<and> GatedDrops out = [''gone''] | _ \<Rightarrow> False"
  by code_simp



theorem foreign_key_replaced_atomically_witness:
  "\<exists>un w'. applyForeignKey id (executorOf exBackend ''t'')
          \<lparr>fkAdd = AddForeignKey ''orders'' (exReference ''fk_new'' ''buyer'' ''users''),
           fkDrop = Some (DropForeignKey ''orders'' (exReference ''fk_old'' ''buyer'' ''people''))\<rparr>
          (exStart\<lparr>wLocks := [False, False, False, True]\<rparr>) = Some (un, w') \<and>
     (wHist w' = [] \<or>
       (\<exists>rest. wHist w' = [setLocalPath id (executorOf exBackend ''t''), setLocalTimeout (executorOf exBackend ''t''),
                          dropConstraintSQL id ''orders'' ''fk_old'', addFKSQL id ''orders'' (exReference ''fk_new'' ''buyer'' ''users'')] @ rest))"
proof -
  let ?i = "\<lparr>fkAdd = AddForeignKey ''orders'' (exReference ''fk_new'' ''buyer'' ''users''),
             fkDrop = Some (DropForeignKey ''orders'' (exReference ''fk_old'' ''buyer'' ''people''))\<rparr>"
  let ?w = "exStart\<lparr>wLocks := [False, False, False, True]\<rparr>"
  obtain un w' where a: "applyForeignKey id (executorOf exBackend ''t'') ?i ?w = Some (un, w')"
    by (cases "applyForeignKey id (executorOf exBackend ''t'') ?i ?w")
       (auto simp: applyForeignKey_def Render_def split: prod.splits option.splits)
  have tr: "transactional (bPool exBackend) wHist wPend" using exDb_transactional by (simp add: exBackend_def)
  have "wHist ?w = []" "fkSymbol (exReference ''fk_old'' ''buyer'' ''people'') = ''fk_old''" by (simp_all add: exStart_def exReference_def)
  then show ?thesis
    using foreign_key_replaced_atomically [OF tr _ a] a by simp
qed

end
