(* ===== verification/Fanout.thy ===== *)
theory Fanout
  imports MigrationFacts "HOL-Library.Word"
begin

text \<open>
  \<open>pkg/migration/orchestrator.go\<close>: one schema applied to many tenants, each under its advisory lock, and
  \<open>tenantLockKey\<close> of \<open>worker.go\<close>.  The control plane (tenant rows, locks, history, log, clock) is a record of
  functions on the world.  Row counts stay far below \<open>2 ^ 63\<close> and are integers here.
\<close>

unbundle bit_operations_syntax

section \<open>The control plane\<close>

record tenantRow =
  trId :: string
  trSchema :: string

record 'w Control =
  cBackend :: "'w Backend"
  ListTenants :: "string list \<Rightarrow> 'w \<Rightarrow> (goError + tenantRow list) \<times> 'w"
  AcquireConn :: "'w call"
  ReleaseConn :: "'w \<Rightarrow> 'w"
  TryLock :: "int \<Rightarrow> 'w \<Rightarrow> (goError + bool) \<times> 'w"
  Unlock :: "int \<Rightarrow> 'w \<Rightarrow> 'w"
  Sleep :: "int \<Rightarrow> 'w call"
  MarshalSchema :: "APISchema \<Rightarrow> goError + string"
  EnsureSeeded :: "string \<Rightarrow> 'w \<Rightarrow> 'w"
  SaveSchema :: "string \<Rightarrow> string \<Rightarrow> 'w call"
  AppendHistory :: "string \<Rightarrow> string \<Rightarrow> string \<Rightarrow> string \<Rightarrow> 'w \<Rightarrow> 'w"
  InsertLog :: "string \<Rightarrow> string \<Rightarrow> string \<Rightarrow> string \<Rightarrow> 'w \<Rightarrow> 'w"
  Millis :: "'w \<Rightarrow> int \<times> 'w"

section \<open>The per-tenant lock\<close>

text \<open>FNV-64a over the bytes of the name, read as a signed integer.\<close>

definition tenantLockKey :: "string \<Rightarrow> int" where
  "tenantLockKey pgSchema =
     sint (foldl (\<lambda>h c. (h XOR of_nat (of_char c)) * 1099511628211) (14695981039346656037 :: 64 word) pgSchema)"

definition fanoutLockAttempts :: nat where "fanoutLockAttempts = 3"
definition fanoutLockBackoff :: int where "fanoutLockBackoff = 1000000000"

fun lockLoop :: "'w Control \<Rightarrow> int \<Rightarrow> nat \<Rightarrow> 'w \<Rightarrow> (goError + bool) \<times> 'w" where
  "lockLoop C key 0 w = (Inr False, w)"
| "lockLoop C key (Suc n) w =
     (case TryLock C key w of
        (Inl err, w1) \<Rightarrow> (Inl err, w1)
      | (Inr locked, w1) \<Rightarrow>
          if locked then (Inr True, w1)
          else if n = 0 then (Inr False, w1)
          else case Sleep C fanoutLockBackoff w1 of
                 (Some err, w2) \<Rightarrow> (Inl err, w2)
               | (None, w2) \<Rightarrow> lockLoop C key n w2)"

text \<open>\<open>(acquired, err)\<close>, with the value of the closure; the deferred unlock and release run last.\<close>

datatype 'a lockResult = NotAcquired "goError option" | Acquired "goError + 'a"

definition withTenantLock ::
  "'w Control \<Rightarrow> string \<Rightarrow> ('w \<Rightarrow> ((goError + 'a) \<times> 'w) option) \<Rightarrow> 'w \<Rightarrow> ('a lockResult \<times> 'w) option" where
  "withTenantLock C pgSchema fn w =
     (case AcquireConn C w of
        (Some err, w1) \<Rightarrow> Some (NotAcquired (Some err), w1)
      | (None, w1) \<Rightarrow>
          (case lockLoop C (tenantLockKey pgSchema) fanoutLockAttempts w1 of
             (Inl err, w2) \<Rightarrow> Some (NotAcquired (Some err), ReleaseConn C w2)
           | (Inr False, w2) \<Rightarrow> Some (NotAcquired None, ReleaseConn C w2)
           | (Inr True, w2) \<Rightarrow>
               map_option (\<lambda>(r, w3). (Acquired r, ReleaseConn C (Unlock C (tenantLockKey pgSchema) w3))) (fn w2)))"

section \<open>Recording the schema\<close>

definition persistTenantSchemaSource :: "'w Control \<Rightarrow> string \<Rightarrow> APISchema \<Rightarrow> string \<Rightarrow> string \<Rightarrow> 'w call" where
  "persistTenantSchemaSource C tenantID s source runID w =
     (case MarshalSchema C s of
        Inl err \<Rightarrow> (Some err, w)
      | Inr b \<Rightarrow>
          (case SaveSchema C tenantID b (EnsureSeeded C tenantID w) of
             (Some err, w1) \<Rightarrow> (Some err, w1)
           | (None, w1) \<Rightarrow> (None, AppendHistory C tenantID b source runID w1)))"

definition persistTenantSchema :: "'w Control \<Rightarrow> string \<Rightarrow> APISchema \<Rightarrow> string \<Rightarrow> 'w call" where
  "persistTenantSchema C tenantID s runID = persistTenantSchemaSource C tenantID s ''fanout'' runID"

definition PersistTenantSchema :: "'w Control \<Rightarrow> string \<Rightarrow> APISchema \<Rightarrow> 'w call" where
  "PersistTenantSchema C tenantID s = persistTenantSchemaSource C tenantID s ''deploy'' ''migrate-cli''"

definition logFanout :: "'w Control \<Rightarrow> string \<Rightarrow> string \<Rightarrow> string \<Rightarrow> string \<Rightarrow> 'w \<Rightarrow> 'w" where
  "logFanout C tenantID status runID detail w =
     (let changes = ''fanout:'' @ runID
      in if status = ''failed'' then InsertLog C tenantID status (changes @ '' | failed'') detail w
         else InsertLog C tenantID status (if detail \<noteq> [] then changes @ '' | '' @ detail else changes) [] w)"

section \<open>One tenant\<close>

datatype FanoutStatus = FanoutApplied | FanoutNoop | FanoutFailed

record TenantFanoutResult =
  tfId :: string
  tfSchema :: string
  tfStatus :: FanoutStatus
  tfApplied :: "string list"
  tfGated :: "string list"
  tfError :: string
  DurationMS :: int
  tfPreview :: "Preview option"

record 'w FanoutOptions =
  foSchema :: "APISchema option"
  TenantIDs :: "string list"
  ApprovedDrops' :: "string list"
  DryRun :: bool
  OnTenant :: "(TenantFanoutResult \<Rightarrow> 'w \<Rightarrow> 'w) option"

definition partialErr :: "ApplyOutcome \<Rightarrow> goError" where
  "partialErr out = PlainError (''PARTIAL '' @ emDash @ '' the database does not have everything the schema declares; NOT applied: '' @
                                join_with ''; '' (Unapplied out))"

definition tenantJob ::
  "Std \<Rightarrow> 'w Control \<Rightarrow> tenantRow \<Rightarrow> APISchema \<Rightarrow> string list \<Rightarrow> string \<Rightarrow> 'w \<Rightarrow> ((goError + ApplyOutcome) \<times> 'w) option" where
  "tenantJob std C t s approved runID w =
     (case ApplyTenantMigrationApproved std (cBackend C) (trSchema t) s approved w of
        None \<Rightarrow> None
      | Some (Inl err, w1) \<Rightarrow> Some (Inl err, w1)
      | Some (Inr out, w1) \<Rightarrow>
          if Partial (Some out) then Some (Inl (partialErr out), w1)
          else case persistTenantSchema C (trId t) s runID w1 of
                 (Some err, w2) \<Rightarrow> Some (Inl (WrapError ''persist schema: '' err), w2)
               | (None, w2) \<Rightarrow> Some (Inr out, w2))"

definition lockMsg :: string where
  "lockMsg = ''could not acquire the tenant'' @ [CHR 0x27] @ ''s migration advisory lock (another migration in progress) '' @ emDash @ '' will retry on resume''"

text \<open>The outcome of a tenant before the clock is read.\<close>

definition tenantResult :: "tenantRow \<Rightarrow> FanoutStatus \<Rightarrow> string \<Rightarrow> TenantFanoutResult" where
  "tenantResult t status err =
     \<lparr>tfId = trId t, tfSchema = trSchema t, tfStatus = status, tfApplied = [], tfGated = [], tfError = err, DurationMS = 0, tfPreview = None\<rparr>"

definition runTenant ::
  "Std \<Rightarrow> 'w Control \<Rightarrow> tenantRow \<Rightarrow> APISchema \<Rightarrow> 'w FanoutOptions \<Rightarrow> string \<Rightarrow> 'w \<Rightarrow> (TenantFanoutResult \<times> 'w) option" where
  "runTenant std C t s opts runID w =
     (if DryRun opts
      then case PreviewTenantMigration std (cBackend C) (trSchema t) s (ApprovedDrops' opts) w of
             (Inl err, w1) \<Rightarrow> Some (tenantResult t FanoutFailed (ErrorText (cBackend C) err), w1)
           | (Inr pv, w1) \<Rightarrow>
               Some ((tenantResult t (if pvEmpty pv then FanoutNoop else FanoutApplied) [])\<lparr>tfPreview := Some pv\<rparr>, w1)
      else case withTenantLock C (trSchema t) (tenantJob std C t s (ApprovedDrops' opts) runID) w of
             None \<Rightarrow> None
           | Some (NotAcquired _, w1) \<Rightarrow> Some (tenantResult t FanoutFailed lockMsg, logFanout C (trId t) ''failed'' runID lockMsg w1)
           | Some (Acquired (Inl err), w1) \<Rightarrow>
               (let msg = ErrorText (cBackend C) err
                in Some (tenantResult t FanoutFailed msg, logFanout C (trId t) ''failed'' runID msg w1))
           | Some (Acquired (Inr out), w1) \<Rightarrow>
               Some ((tenantResult t (if NoChange out then FanoutNoop else FanoutApplied) [])
                       \<lparr>tfApplied := AppliedDrops out, tfGated := GatedDrops out\<rparr>,
                     logFanout C (trId t) ''ok'' runID (if NoChange out then ''no-op (already converged)'' else ''applied'') w1))"

definition applyToTenant ::
  "Std \<Rightarrow> 'w Control \<Rightarrow> tenantRow \<Rightarrow> APISchema \<Rightarrow> 'w FanoutOptions \<Rightarrow> string \<Rightarrow> 'w \<Rightarrow> (TenantFanoutResult \<times> 'w) option" where
  "applyToTenant std C t s opts runID w =
     (let (start, w1) = Millis C w
      in map_option (\<lambda>(tr, w2). let (now, w3) = Millis C w2 in (tr\<lparr>DurationMS := now - start\<rparr>, w3)) (runTenant std C t s opts runID w1))"

section \<open>All tenants\<close>

record FanoutResult =
  RunID :: string
  frDryRun :: bool
  Total :: int
  Applied :: int
  Noop :: int
  Failed :: int
  MissingTenants :: "string list"
  Results :: "TenantFanoutResult list"

definition enumerateTenants :: "'w Control \<Rightarrow> string list \<Rightarrow> 'w \<Rightarrow> (goError + tenantRow list \<times> string list) \<times> 'w" where
  "enumerateTenants C ids w =
     (case ListTenants C ids w of
        (Inl err, w1) \<Rightarrow> (Inl err, w1)
      | (Inr rows, w1) \<Rightarrow> (Inr (rows, filter (\<lambda>i. i \<notin> set (map trId rows)) ids), w1))"

definition recordResult :: "TenantFanoutResult \<Rightarrow> FanoutResult \<Rightarrow> FanoutResult" where
  "recordResult tr res =
     (let res1 = res\<lparr>Results := Results res @ [tr], Total := Total res + 1\<rparr>
      in case tfStatus tr of
           FanoutApplied \<Rightarrow> res1\<lparr>Applied := Applied res + 1\<rparr>
         | FanoutNoop \<Rightarrow> res1\<lparr>Noop := Noop res + 1\<rparr>
         | FanoutFailed \<Rightarrow> res1\<lparr>Failed := Failed res + 1\<rparr>)"

fun fanoutLoop ::
  "Std \<Rightarrow> 'w Control \<Rightarrow> APISchema \<Rightarrow> 'w FanoutOptions \<Rightarrow> string \<Rightarrow> tenantRow list \<Rightarrow> FanoutResult \<Rightarrow> 'w \<Rightarrow> (FanoutResult \<times> 'w) option" where
  "fanoutLoop std C s opts runID [] res w = Some (res, w)"
| "fanoutLoop std C s opts runID (t # ts) res w =
     (case applyToTenant std C t s opts runID w of
        None \<Rightarrow> None
      | Some (tr, w1) \<Rightarrow>
          fanoutLoop std C s opts runID ts (recordResult tr res) (case OnTenant opts of None \<Rightarrow> w1 | Some f \<Rightarrow> f tr w1))"

text \<open>\<open>stamp\<close> is the formatted time of the run.\<close>

definition RunFanout ::
  "Std \<Rightarrow> 'w Control \<Rightarrow> string \<Rightarrow> 'w FanoutOptions \<Rightarrow> 'w \<Rightarrow> ((goError + FanoutResult) \<times> 'w) option" where
  "RunFanout std C stamp opts w =
     (case foSchema opts of
        None \<Rightarrow> Some (Inl (PlainError ''RunFanout: a schema is required''), w)
      | Some s \<Rightarrow>
          (case enumerateTenants C (TenantIDs opts) w of
             (Inl err, w1) \<Rightarrow> Some (Inl (WrapError ''enumerate tenants: '' err), w1)
           | (Inr (tenants, missing), w1) \<Rightarrow>
               (let runID = ''fanout-'' @ stamp;
                    res = \<lparr>RunID = runID, frDryRun = DryRun opts, Total = 0, Applied = 0, Noop = 0, Failed = 0,
                           MissingTenants = missing, Results = []\<rparr>
                in map_option (\<lambda>(r, w2). (Inr r, w2)) (fanoutLoop std C s opts runID tenants res w1))))"

section \<open>The aggregate of a dry run\<close>

record DestructiveImpact =
  diKey :: string
  diKind :: string
  Tenants :: int
  diRowsLost :: int

definition previewDrops :: "FanoutResult \<Rightarrow> DestructiveOp list" where
  "previewDrops r = concat (map (\<lambda>tr. case tfPreview tr of None \<Rightarrow> [] | Some pv \<Rightarrow> Destructive pv) (Results r))"

text \<open>\<open>byKey\<close> and \<open>order\<close>, over the drops of every preview in turn.\<close>

definition addImpact :: "DestructiveOp \<Rightarrow> DestructiveImpact gomap \<times> string list \<Rightarrow> DestructiveImpact gomap \<times> string list" where
  "addImpact d st =
     (case st of (byKey, order) \<Rightarrow>
        (let (imp, order') = (case gm_get byKey (dKey d) of
               Some imp \<Rightarrow> (imp, order)
             | None \<Rightarrow> (\<lparr>diKey = dKey d, diKind = dKind d, Tenants = 0, diRowsLost = 0\<rparr>, order @ [dKey d]))
         in (gm_put (dKey d) (imp\<lparr>Tenants := Tenants imp + 1, diRowsLost := diRowsLost imp + RowsLost d\<rparr>) byKey, order')))"

definition AggregateDestructive :: "FanoutResult \<Rightarrow> DestructiveImpact list" where
  "AggregateDestructive r =
     (case fold addImpact (previewDrops r) ([], []) of (byKey, order) \<Rightarrow> map (\<lambda>k. the (gm_get byKey k)) order)"

section \<open>Every tenant is answered for\<close>

lemma applyToTenant_run:
  assumes "applyToTenant std C t s opts runID w = Some (tr, w')"
  obtains w1 tr0 w2 d where "runTenant std C t s opts runID w1 = Some (tr0, w2)" "tr = tr0\<lparr>DurationMS := d\<rparr>"
  using assms by (auto simp: applyToTenant_def Let_def case_prod_beta)

lemma applyToTenant_id:
  assumes "applyToTenant std C t s opts runID w = Some (tr, w')"
  shows "tfId tr = trId t"
proof -
  have "tfId tr' = trId t" if "runTenant std C t s opts runID w1 = Some (tr', w2)" for w1 tr' w2
    using that by (auto simp: runTenant_def tenantResult_def Let_def split: if_splits prod.splits sum.splits option.splits lockResult.splits)
  moreover obtain w1 tr0 w2 d where "runTenant std C t s opts runID w1 = Some (tr0, w2)" "tr = tr0\<lparr>DurationMS := d\<rparr>"
    by (rule applyToTenant_run [OF assms])
  ultimately show ?thesis by simp
qed

definition balanced :: "FanoutResult \<Rightarrow> bool" where
  "balanced r \<longleftrightarrow>
     Total r = int (length (Results r)) \<and>
     Applied r = int (length (filter (\<lambda>t. tfStatus t = FanoutApplied) (Results r))) \<and>
     Noop r = int (length (filter (\<lambda>t. tfStatus t = FanoutNoop) (Results r))) \<and>
     Failed r = int (length (filter (\<lambda>t. tfStatus t = FanoutFailed) (Results r)))"

lemma balanced_record: "balanced r \<Longrightarrow> balanced (recordResult tr r)"
  by (cases "tfStatus tr") (auto simp: balanced_def recordResult_def Let_def)

lemma Results_record: "Results (recordResult tr r) = Results r @ [tr]" "MissingTenants (recordResult tr r) = MissingTenants r"
  by (cases "tfStatus tr"; simp add: recordResult_def Let_def)+

lemma fanoutLoop_spec:
  assumes "fanoutLoop std C s opts runID ts res w = Some (res', w')" "balanced res"
  shows "balanced res' \<and> map tfId (Results res') = map tfId (Results res) @ map trId ts \<and> MissingTenants res' = MissingTenants res"
  using assms
proof (induction ts arbitrary: res w)
  case (Cons t ts)
  then obtain tr w1 where "applyToTenant std C t s opts runID w = Some (tr, w1)"
      "fanoutLoop std C s opts runID ts (recordResult tr res) (case OnTenant opts of None \<Rightarrow> w1 | Some f \<Rightarrow> f tr w1) = Some (res', w')"
    by (auto split: option.splits)
  then show ?case using Cons.IH balanced_record [OF Cons.prems(2)] applyToTenant_id by (fastforce simp: Results_record)
qed simp

section \<open>The aggregate\<close>

definition impactOf :: "DestructiveOp list \<Rightarrow> string \<Rightarrow> DestructiveImpact" where
  "impactOf ds k =
     (let mine = filter (\<lambda>d. dKey d = k) ds
      in \<lparr>diKey = k, diKind = dKind (hd mine), Tenants = int (length mine), diRowsLost = sum_list (map RowsLost mine)\<rparr>)"

lemma fold_addImpact:
  "case fold addImpact ds ([], []) of (byKey, order) \<Rightarrow>
     set order = dKey ` set ds \<and> distinct order \<and>
     (\<forall>k. gm_get byKey k = (if k \<in> dKey ` set ds then Some (impactOf ds k) else None))"
proof (induction ds rule: rev_induct)
  case (snoc d ds)
  obtain byKey order where st: "fold addImpact ds ([], []) = (byKey, order)" by fastforce
  have IH: "set order = dKey ` set ds" "distinct order" "\<And>k. gm_get byKey k = (if k \<in> dKey ` set ds then Some (impactOf ds k) else None)"
    using snoc.IH st by auto
  have other: "impactOf (ds @ [d]) k = impactOf ds k" if "k \<noteq> dKey d" for k
    using that by (simp add: impactOf_def Let_def)
  have mine: "filter (\<lambda>x. dKey x = dKey d) ds = [] \<longleftrightarrow> dKey d \<notin> dKey ` set ds" by (simp add: filter_empty_conv image_iff) metis
  show ?case
  proof (cases "dKey d \<in> dKey ` set ds")
    case True
    then have "filter (\<lambda>x. dKey x = dKey d) ds \<noteq> []" using mine by simp
    then have "impactOf (ds @ [d]) (dKey d) = (impactOf ds (dKey d))\<lparr>Tenants := Tenants (impactOf ds (dKey d)) + 1,
        diRowsLost := diRowsLost (impactOf ds (dKey d)) + RowsLost d\<rparr>"
      by (simp add: impactOf_def Let_def)
    moreover have "addImpact d (byKey, order) = (gm_put (dKey d) ((impactOf ds (dKey d))\<lparr>Tenants := Tenants (impactOf ds (dKey d)) + 1,
        diRowsLost := diRowsLost (impactOf ds (dKey d)) + RowsLost d\<rparr>) byKey, order)"
      using True IH(3) by (simp add: addImpact_def)
    ultimately show ?thesis using True IH other by (auto simp: st gm_get_put)
  next
    case False
    then have "impactOf (ds @ [d]) (dKey d) = \<lparr>diKey = dKey d, diKind = dKind d, Tenants = 1, diRowsLost = RowsLost d\<rparr>"
      using mine by (simp add: impactOf_def Let_def)
    moreover have "addImpact d (byKey, order) =
        (gm_put (dKey d) \<lparr>diKey = dKey d, diKind = dKind d, Tenants = 1, diRowsLost = RowsLost d\<rparr> byKey, order @ [dKey d])"
      using False IH(3) by (simp add: addImpact_def)
    ultimately show ?thesis using False IH other by (auto simp: st gm_get_put)
  qed
qed simp

text \<open>The informed-consent view of a mass change adds up: the aggregate lists every data-losing drop of every
  preview exactly once, with the number of tenants it appears in and the sum of the rows they lose.\<close>

theorem aggregate_impact_adds_up:
  "distinct (map diKey (AggregateDestructive r)) \<and>
   set (AggregateDestructive r) = impactOf (previewDrops r) ` dKey ` set (previewDrops r)"
proof -
  obtain byKey order where st: "fold addImpact (previewDrops r) ([], []) = (byKey, order)" by fastforce
  have f: "set order = dKey ` set (previewDrops r)" "distinct order"
    "\<And>k. gm_get byKey k = (if k \<in> dKey ` set (previewDrops r) then Some (impactOf (previewDrops r) k) else None)"
    using fold_addImpact [of "previewDrops r"] st by auto
  have "AggregateDestructive r = map (impactOf (previewDrops r)) order"
    using f by (simp add: AggregateDestructive_def st)
  moreover have "map diKey (map (impactOf (previewDrops r)) order) = order"
    by (simp add: impactOf_def Let_def comp_def)
  ultimately show ?thesis using f by simp
qed

end
