(* ===== verification/MigrationTotal.thy ===== *)
theory MigrationTotal
  imports Fanout SplitFacts
begin

text \<open>
  A migration always ends: the renderer's panic, the outcome None of \<open>applyMigration\<close>, cannot happen on the
  plan of a diff, so a run of one tenant, of a fan-out or of the worker ends whatever the database
  answers.  The only thing asked of the database is that the catalogue it shows is well formed.
\<close>

section \<open>Plans that render\<close>

definition creatable :: "operation \<Rightarrow> bool" where
  "creatable op \<longleftrightarrow> (\<forall>t. op = CreateTable t \<longrightarrow> wf_table t)"

lemma creatable_other: "Kind op \<noteq> OpCreateTable \<Longrightarrow> creatable op"
  by (auto simp: creatable_def)

lemma Render_total:
  assumes "\<forall>op\<in>set (Ops p). creatable op"
  shows "\<exists>stmts. Render ident p = Some stmts"
proof -
  have "None \<notin> set (map (renderOne ident) (Ops p))"
  proof
    assume "None \<in> set (map (renderOne ident) (Ops p))"
    then obtain op where "op \<in> set (Ops p)" "renderOne ident op = None" by auto
    then show False using renderOne_total [of op ident] assms by (fastforce simp: creatable_def)
  qed
  then show ?thesis unfolding Render_def all_some_iff [symmetric] by auto
qed

lemma opsByName_sub: "gm_get (opsByName ops) n = Some op \<Longrightarrow> op \<in> set ops"
proof -
  have "gm_get (fold (\<lambda>op m. case opTable op of Some t \<Rightarrow> gm_put (tName t) op m | None \<Rightarrow> m) ops m) n = Some op \<Longrightarrow>
        op \<in> set ops \<or> gm_get m n = Some op" for m
  proof (induction ops arbitrary: m)
    case (Cons a ops)
    then show ?case
      by (cases "opTable a") (auto simp: gm_get_put split: if_splits dest: Cons.IH)
  qed simp
  from this [of "[]"] show "gm_get (opsByName ops) n = Some op \<Longrightarrow> op \<in> set ops" by (simp add: opsByName_def)
qed

lemma orderCreates_sub: "orderCreates ops = Inr ops' \<Longrightarrow> set ops' \<subseteq> set ops"
  by (auto simp: orderCreates_def Let_def set_objectsOf split: if_splits sum.splits dest: opsByName_sub)

lemma orderDrops_sub:
  assumes "orderDrops ops = Inr (cyc, drops)"
  shows "set drops \<subseteq> set ops" "\<forall>op\<in>set cyc. Kind op = OpDropForeignKey"
  using assms
  by (auto simp: orderDrops_def Let_def set_objectsOf cycleFKs_def split: if_splits sum.splits option.splits dest: opsByName_sub)

lemma OrderPlan_creatable:
  assumes "OrderPlan p = Inr q" "\<forall>op\<in>set (Ops p). creatable op"
  shows "\<forall>op\<in>set (Ops q). creatable op"
proof
  fix op assume op: "op \<in> set (Ops q)"
  obtain creates where c: "orderCreates (ofKind OpCreateTable p) = Inr creates"
    using assms(1) by (auto simp: OrderPlan_def split: sum.splits)
  obtain cyc drops where d: "orderDrops (ofKind OpDropTable p) = Inr (cyc, drops)"
    using assms(1) by (auto simp: OrderPlan_def split: sum.splits)
  have "op \<in> set creates \<or> op \<in> set drops \<or> op \<in> set cyc \<or> op \<in> set (Ops p)"
    using assms(1) op c d by (auto simp: OrderPlan_def ofKind_def)
  then show "creatable op"
    using orderCreates_sub [OF c] orderDrops_sub [OF d] assms(2) by (auto simp: ofKind_def intro: creatable_other)
qed

lemma Apply_total: "\<forall>op\<in>set (Ops p). creatable op \<Longrightarrow> \<exists>r w'. Apply ident e p w = Some (r, w')"
proof (cases "exPool e = None \<or> exSchema e = [] \<or> isl (OrderPlan p)")
  case True
  then show ?thesis by (auto simp: Apply_def split: option.splits sum.splits)
next
  case False
  then obtain P q where q: "exPool e = Some P" "exSchema e \<noteq> []" "OrderPlan p = Inr q"
    by (cases "OrderPlan p") auto
  assume "\<forall>op\<in>set (Ops p). creatable op"
  then obtain stmts where "Render ident q = Some stmts" using Render_total OrderPlan_creatable [OF q(3)] by blast
  then show ?thesis using q by (simp add: Apply_def)
qed

section \<open>A tenant's run\<close>

definition catalogueOk :: "'w Backend \<Rightarrow> bool" where
  "catalogueOk B \<longleftrightarrow> (\<forall>pgSchema w live w'. Introspect B pgSchema w = (Inr live, w') \<longrightarrow> wf_schema live)"

lemma diffReal_creatable:
  assumes "wf_schema desired" "wf_schema live" "diffReal desired live includeOrphans = Inr (p, blocked)"
  shows "\<forall>op\<in>set (Ops p). creatable op"
proof -
  obtain live' keep bl where k: "keepsS tableShape live live'"
    and d: "diffReal desired live includeOrphans =
       (case Diff (resolvedSchema desired live) (managedSubset live' (resolvedSchema desired live) keep includeOrphans) of
          Inl e \<Rightarrow> Inl e | Inr p \<Rightarrow> Inr (p, bl))"
    by (rule diffReal_cases [of live desired includeOrphans])
  have "Diff (resolvedSchema desired live) (managedSubset live' (resolvedSchema desired live) keep includeOrphans) = Inr p"
    using d assms(3) by (simp split: sum.splits)
  from Diff_creates_wf [OF wf_resolvedSchema [OF assms(1)] wf_managedSubset [OF wf_keepsS [OF k assms(2)]] this]
  show ?thesis by (auto simp: creatable_def)
qed

lemma diffTenant_creatable:
  assumes "catalogueOk B" "diffTenant std B pgSchema s includeOrphans w = (Inr (p, blocked), w')"
  shows "\<forall>op\<in>set (Ops p). creatable op"
proof -
  obtain live w1 where "Introspect B pgSchema w = (Inr live, w1)"
    "diffReal (buildDesiredSchema std pgSchema s) live includeOrphans = Inr (p, blocked)"
    using assms(2) by (auto simp: diffTenant_def split: prod.splits sum.splits)
  then show ?thesis using diffReal_creatable [OF wf_buildDesired] assms(1) unfolding catalogueOk_def by blast
qed

lemma applyForeignKey_total:
  assumes "creatable (fkAdd item)" "\<And>d. fkDrop item = Some d \<Longrightarrow> creatable d"
  shows "\<exists>un w'. applyForeignKey ident ex item w = Some (un, w')"
proof -
  obtain stmts where a: "Render ident \<lparr>Ops = [fkAdd item]\<rparr> = Some stmts"
    using Render_total [of "\<lparr>Ops = [fkAdd item]\<rparr>" ident] assms(1) by auto
  have "\<exists>ds. Render ident \<lparr>Ops = [d]\<rparr> = Some ds" if "fkDrop item = Some d" for d
    using Render_total [of "\<lparr>Ops = [d]\<rparr>" ident] assms(2) [OF that] by auto
  then show ?thesis
    unfolding applyForeignKey_def a by (fastforce split: list.splits option.splits prod.splits)
qed

lemma applyForeignKeys_total:
  assumes "\<forall>item\<in>set items. creatable (fkAdd item) \<and> (\<forall>d. fkDrop item = Some d \<longrightarrow> creatable d)"
  shows "\<exists>un w'. applyForeignKeys ident ex items w = Some (un, w')"
  using assms
proof (induction items arbitrary: w)
  case (Cons item items)
  obtain un w1 where "applyForeignKey ident ex item w = Some (un, w1)"
    using applyForeignKey_total [of item ident ex w] Cons.prems by auto
  then show ?case using Cons.IH [of w1] Cons.prems by auto
qed simp

lemma splitForeignKey_items:
  assumes "splitForeignKeyOps p = (rest, items)" "\<forall>op\<in>set (Ops p). creatable op"
  shows "\<forall>item\<in>set items. creatable (fkAdd item) \<and> (\<forall>d. fkDrop item = Some d \<longrightarrow> creatable d)"
proof -
  obtain cl where c: "pairAdds (dropsByKey dropFKKey (Ops p)) (Ops p) [] = (items, cl)"
    using assms(1) by (auto simp: splitForeignKeyOps_def split: prod.splits)
  have adds: "set (map fkAdd items) \<subseteq> set (Ops p)" using pairAdds_spec(1) [OF c] by auto
  have "d \<in> set (Ops p)" if "item \<in> set items" "fkDrop item = Some d" for item d
    using pairAdds_spec(3) [OF c _ that] dropsByKey_key by fastforce
  then show ?thesis using adds assms(2) by auto
qed

lemma exclusionBatch_total:
  assumes "\<And>d. exDrop item = Some d \<Longrightarrow> creatable d"
  shows "\<exists>b. exclusionBatch B item = Some b"
proof -
  let ?op = "AddExclusion (fst (exAdd item)) (snd (exAdd item))"
  obtain stmts where a: "Render (ident1 B) \<lparr>Ops = [?op]\<rparr> = Some stmts"
    using Render_total [of "\<lparr>Ops = [?op]\<rparr>" "ident1 B"] creatable_other [of ?op] by auto
  have "\<exists>ds. Render (ident1 B) \<lparr>Ops = [d]\<rparr> = Some ds" if "exDrop item = Some d" for d
    using Render_total [of "\<lparr>Ops = [d]\<rparr>" "ident1 B"] assms [OF that] by auto
  then show ?thesis
    unfolding exclusionBatch_def Let_def a by (fastforce split: list.splits option.splits)
qed

lemma applyExclusions_total:
  assumes "\<forall>item\<in>set items. \<forall>d. exDrop item = Some d \<longrightarrow> creatable d"
  shows "\<exists>bl w'. applyExclusions std B pgSchema s items w = Some (bl, w')"
  using assms
proof (induction items arbitrary: w)
  case (Cons item items)
  obtain b where "exclusionBatch B item = Some b" using exclusionBatch_total [of item B] Cons.prems by auto
  then have "\<exists>bl w1. applyExclusion std B pgSchema s item w = Some (bl, w1)"
    by (fastforce simp: applyExclusion_def Let_def split: prod.splits option.splits sum.splits)
  then show ?case using Cons.IH Cons.prems by fastforce
qed simp

lemma splitExclusion_items:
  assumes "splitExclusionOps p = (rest, items)" "\<forall>op\<in>set (Ops p). creatable op"
  shows "\<forall>item\<in>set items. \<forall>d. exDrop item = Some d \<longrightarrow> creatable d"
proof -
  have "d \<in> set (Ops p)" if "item \<in> set items" "exDrop item = Some d" for item d
    using assms(1) that dropsByKey_key by (fastforce simp: splitExclusionOps_def exclusionItems_def Let_def split: option.splits)
  then show ?thesis using assms(2) by auto
qed

lemma runPlan_total:
  assumes "\<forall>op\<in>set (Ops p). creatable op"
  shows "\<exists>r w'. runPlan std B pgSchema s includeOrphans p out w = Some (r, w')"
proof -
  obtain p1 fks where f: "splitForeignKeyOps p = (p1, fks)" by fastforce
  obtain p2 exs where e: "splitExclusionOps p1 = (p2, exs)" by fastforce
  have c1: "\<forall>op\<in>set (Ops p1). creatable op" using splitForeignKey_sub [OF f] assms by auto
  then have c2: "\<forall>op\<in>set (Ops p2). creatable op" using splitExclusion_sub [OF e] by auto
  obtain r1 w1 where 1: "Apply (ident1 B) (executorOf B pgSchema) p2 w = Some (r1, w1)" 
    using Apply_total [OF c2, of "ident1 B" "executorOf B pgSchema" w] by auto
  obtain un w2 where 2: "applyForeignKeys (ident1 B) (executorOf B pgSchema) fks w1 = Some (un, w2)"
    using applyForeignKeys_total [OF splitForeignKey_items [OF f assms], of "ident1 B" "executorOf B pgSchema" w1] by auto
  obtain bl w3 where 3: "applyExclusions std B pgSchema s exs w2 = Some (bl, w3)"
    using applyExclusions_total [OF splitExclusion_items [OF e c1], of std B pgSchema s w2] by auto
  show ?thesis by (cases r1) (simp_all add: runPlan_def f e 1 2 3 Let_def case_prod_beta)
qed

lemma applyPlanned_total:
  assumes "\<forall>op\<in>set (Ops p). creatable op"
  shows "\<exists>r w'. applyPlanned std B pgSchema s approved includeOrphans p blocked w = Some (r, w')"
proof -
  obtain owned w1 where o': "ownedOf B pgSchema w = (owned, w1)" by fastforce
  obtain p1 ext where e: "splitExternalDrops p owned = (p1, ext)" by fastforce
  obtain p2 gated keys where g: "partitionByPolicyApproved p1 approved = (p2, gated, keys)" by (metis prod_cases3)
  have "set (Ops p2) \<subseteq> set (Ops p1)" using partition_apply [of p1 approved] g by auto
  then have "\<forall>op\<in>set (Ops p2). creatable op" using splitExternal_sub(1) [OF e] assms by blast
  then show ?thesis
    using runPlan_total [of p2 std B pgSchema s includeOrphans _ w1] by (auto simp: applyPlanned_def o' e g Let_def)
qed

lemma applyMigration_total:
  assumes "catalogueOk B"
  shows "\<exists>r w'. applyMigration std B pgSchema s approved includeOrphans w = Some (r, w')"
proof -
  have "\<exists>r w'. applyPlanned std B pgSchema s approved includeOrphans p bl w2 = Some (r, w')"
    if "diffTenant std B pgSchema s includeOrphans w1 = (Inr (p, bl), w2)" for w1 p bl w2
    using applyPlanned_total [OF diffTenant_creatable [OF assms that]] .
  then show ?thesis unfolding applyMigration_def by (auto split: prod.splits option.splits sum.splits)
qed

section \<open>All tenants\<close>

lemma tenantJob_total:
  assumes "catalogueOk (cBackend C)"
  shows "\<exists>r w'. tenantJob std C t s approved runID w = Some (r, w')"
proof -
  obtain r w1 where "ApplyTenantMigrationApproved std (cBackend C) (trSchema t) s approved w = Some (r, w1)"
    using applyMigration_total [OF assms, of std "trSchema t" s approved True w] by (auto simp: ApplyTenantMigrationApproved_def)
  then show ?thesis by (auto simp: tenantJob_def split: sum.splits prod.splits option.splits)
qed

lemma runTenant_total:
  assumes "catalogueOk (cBackend C)"
  shows "\<exists>tr w'. runTenant std C t s opts runID w = Some (tr, w')"
proof -
  have "\<exists>r w'. withTenantLock C (trSchema t) (tenantJob std C t s (ApprovedDrops' opts) runID) w = Some (r, w')"
    using tenantJob_total [OF assms, of std t s "ApprovedDrops' opts" runID]
    by (fastforce simp: withTenantLock_def split: prod.splits sum.splits option.splits bool.splits)
  then show ?thesis
    by (auto simp: runTenant_def Let_def split: prod.splits sum.splits lockResult.splits)
qed

lemma applyToTenant_total:
  assumes "catalogueOk (cBackend C)"
  shows "\<exists>tr w'. applyToTenant std C t s opts runID w = Some (tr, w')"
proof -
  obtain st w1 where m: "Millis C w = (st, w1)" by fastforce
  obtain tr w2 where "runTenant std C t s opts runID w1 = Some (tr, w2)" using runTenant_total [OF assms, of std t s opts runID w1] by auto
  then show ?thesis by (simp add: applyToTenant_def m case_prod_beta Let_def)
qed

lemma fanoutLoop_total:
  assumes "catalogueOk (cBackend C)"
  shows "\<exists>res' w'. fanoutLoop std C s opts runID ts res w = Some (res', w')"
proof (induction ts arbitrary: res w)
  case (Cons t ts)
  obtain tr w1 where "applyToTenant std C t s opts runID w = Some (tr, w1)" using applyToTenant_total [OF assms, of std t s opts runID w] by auto
  then show ?case using Cons.IH by simp
qed simp

end
