(* ===== verification/FanoutFacts.thy ===== *)
theory FanoutFacts
  imports MigrationTotal
begin

text \<open>
  What a migration leaves alone: a view of the world that no database primitive changes is unchanged by every
  operation built from them.  The lemmas follow the call graph from one statement up to \<open>applyMigration\<close>.
  With them: what a fan-out promises for its tenants.
\<close>

definition same :: "('w \<Rightarrow> 'v) \<Rightarrow> ('w \<Rightarrow> 'a \<times> 'w) \<Rightarrow> bool" where
  "same v f \<longleftrightarrow> (\<forall>w r w'. f w = (r, w') \<longrightarrow> v w' = v w)"

definition sameO :: "('w \<Rightarrow> 'v) \<Rightarrow> ('w \<Rightarrow> ('a \<times> 'w) option) \<Rightarrow> bool" where
  "sameO v f \<longleftrightarrow> (\<forall>w r w'. f w = Some (r, w') \<longrightarrow> v w' = v w)"

definition sameWorld :: "('w \<Rightarrow> 'v) \<Rightarrow> ('w \<Rightarrow> 'w) \<Rightarrow> bool" where
  "sameWorld v f \<longleftrightarrow> (\<forall>w. v (f w) = v w)"

text \<open>The primitives of the pool and of the backend leave \<open>v\<close> alone.\<close>

definition poolLeaves :: "'w Pool \<Rightarrow> ('w \<Rightarrow> 'v) \<Rightarrow> bool" where
  "poolLeaves P v \<longleftrightarrow>
     same v (Begin P) \<and> (\<forall>sql. same v (TxExec P sql)) \<and> same v (Commit P) \<and> sameWorld v (Rollback P) \<and>
     same v (Acquire P) \<and> (\<forall>sql. same v (ConnExec P sql)) \<and> sameWorld v (Release P) \<and> (\<forall>d. same v (Wait P d))"

definition backendLeaves :: "'w Backend \<Rightarrow> ('w \<Rightarrow> 'v) \<Rightarrow> bool" where
  "backendLeaves B v \<longleftrightarrow>
     poolLeaves (bPool B) v \<and> (\<forall>n. same v (EnsureMetaTable B n)) \<and> (\<forall>sql. same v (PoolExec B sql)) \<and>
     (\<forall>pg. same v (Introspect B pg)) \<and> (\<forall>pg. same v (TenantDoc B pg)) \<and> (\<forall>i. same v (HistoryDocs B i)) \<and>
     (\<forall>sql. same v (QueryCount B sql)) \<and> (\<forall>sql. same v (QueryPairs B sql))"

lemma sameD: "same v f \<Longrightarrow> f w = (r, w') \<Longrightarrow> v w' = v w"
  by (auto simp: same_def)

lemma sameOD: "sameO v f \<Longrightarrow> f w = Some (r, w') \<Longrightarrow> v w' = v w"
  by (auto simp: sameO_def)

lemma same_snd: "same v f \<Longrightarrow> v (snd (f w)) = v w"
  by (metis same_def prod.collapse)

lemma sameI: "(\<And>w r w'. f w = (r, w') \<Longrightarrow> v w' = v w) \<Longrightarrow> same v f"
  by (simp add: same_def)

lemma sameOI: "(\<And>w r w'. f w = Some (r, w') \<Longrightarrow> v w' = v w) \<Longrightarrow> sameO v f"
  by (simp add: sameO_def)

lemma poolD:
  assumes "poolLeaves P v"
  shows "same v (Begin P)" "same v (TxExec P sql)" "same v (Commit P)" "v (Rollback P w) = v w" "same v (Acquire P)"
    "same v (ConnExec P sql)" "v (Release P w) = v w" "same v (Wait P d)"
  using assms by (auto simp: poolLeaves_def sameWorld_def)

lemma backendD:
  assumes "backendLeaves B v"
  shows "poolLeaves (bPool B) v" "same v (EnsureMetaTable B n)" "same v (PoolExec B sql)" "same v (Introspect B pg)"
    "same v (TenantDoc B pg)" "same v (HistoryDocs B i)" "same v (QueryCount B sql)" "same v (QueryPairs B sql)"
  using assms by (auto simp: backendLeaves_def)

text \<open>Sequencing: the second call starts where the first one stopped.\<close>

lemma same_bind:
  assumes "same v f" "\<And>r. same v (g r)"
  shows "same v (\<lambda>w. case f w of (r, w1) \<Rightarrow> g r w1)"
  using assms by (fastforce simp: same_def split: prod.splits)

lemma same_return: "same v (\<lambda>w. (r, w))"
  by (simp add: same_def)

lemma same_opt:
  assumes "same v f" "same v g" "\<And>e. same v (h e)"
  shows "same v (\<lambda>w. case f w of (None, w1) \<Rightarrow> g w1 | (Some e, w1) \<Rightarrow> h e w1)"
proof (rule sameI)
  fix w r w' assume run: "(case f w of (None, w1) \<Rightarrow> g w1 | (Some e, w1) \<Rightarrow> h e w1) = (r, w')"
  obtain x w1 where f: "f w = (x, w1)" by fastforce
  show "v w' = v w"
  proof (cases x)
    case None
    then show ?thesis using run f sameD [OF assms(1) f] sameD [OF assms(2)] by auto
  next
    case (Some e)
    then show ?thesis using run f sameD [OF assms(1) f] sameD [OF assms(3)] by auto
  qed
qed

lemma same_sum:
  assumes "same v f" "\<And>a. same v (g a)" "\<And>e. same v (h e)"
  shows "same v (\<lambda>w. case f w of (Inl e, w1) \<Rightarrow> h e w1 | (Inr a, w1) \<Rightarrow> g a w1)"
proof (rule sameI)
  fix w r w' assume run: "(case f w of (Inl e, w1) \<Rightarrow> h e w1 | (Inr a, w1) \<Rightarrow> g a w1) = (r, w')"
  obtain x w1 where f: "f w = (x, w1)" by fastforce
  show "v w' = v w"
  proof (cases x)
    case (Inl e)
    then show ?thesis using run f sameD [OF assms(1) f] sameD [OF assms(3)] by auto
  next
    case (Inr a)
    then show ?thesis using run f sameD [OF assms(1) f] sameD [OF assms(2)] by auto
  qed
qed

lemma same_if: "(b \<Longrightarrow> same v f) \<Longrightarrow> (\<not> b \<Longrightarrow> same v g) \<Longrightarrow> same v (\<lambda>w. if b then f w else g w)"
  by (auto simp: same_def)

lemmas frame_intros = same_return same_opt same_sum same_if

section \<open>The executor\<close>

lemma onRetry_none: "OnRetry e = None \<Longrightarrow> onRetry e n err w = w"
  by (simp add: onRetry_def)

lemma same_world: "(\<And>w. v (f w) = v w) \<Longrightarrow> same v (\<lambda>w. (r, f w))"
  by (simp add: same_def)

lemma same_let: "same v f \<Longrightarrow> (\<And>r. same v (\<lambda>w. g r w)) \<Longrightarrow> same v (\<lambda>w. let (r, w1) = f w in g r w1)"
  unfolding Let_def by (rule same_bind)

lemma withRetryFrom_same:
  assumes "poolLeaves P v" "OnRetry e = None" "same v fn"
  shows "same v (withRetryFrom e P fn left attempt)"
proof (induction left arbitrary: attempt)
  case 0
  have "withRetryFrom e P fn 0 attempt = (\<lambda>w. case fn w of (None, w1) \<Rightarrow> (None, w1)
      | (Some err, w1) \<Rightarrow> if \<not> isLockTimeout err then (Some err, w1) else (Some (lockNotAcquired e err), w1))"
    by (rule ext) (simp add: withRetryFrom.simps [of _ _ _ 0] cong: option.case_cong if_cong)
  then show ?case by (simp only:) (intro frame_intros assms)
next
  case (Suc n)
  have "withRetryFrom e P fn (Suc n) attempt = (\<lambda>w. case fn w of (None, w1) \<Rightarrow> (None, w1)
      | (Some err, w1) \<Rightarrow> if \<not> isLockTimeout err then (Some err, w1)
          else case Wait P (backoffDelay (backoffBase e) attempt) w1 of
                 (Some cancelled, w2) \<Rightarrow> (Some cancelled, w2)
               | (None, w2) \<Rightarrow> withRetryFrom e P fn n (attempt + 1) w2)"
    by (rule ext) (simp add: withRetryFrom.simps [of _ _ _ "Suc n"] onRetry_none [OF assms(2)] cong: option.case_cong if_cong)
  then show ?case by (simp only:) (intro frame_intros assms poolD [OF assms(1)] Suc.IH)
qed

lemma txExecAll_same: "poolLeaves P v \<Longrightarrow> same v (txExecAll P sts)"
proof (induction sts)
  case Nil
  have "txExecAll P [] = (\<lambda>w. (None, w))" by (rule ext) simp
  then show ?case by (simp only:) (rule same_return)
next
  case (Cons st sts)
  have "txExecAll P (st # sts) = (\<lambda>w. case TxExec P (SQL st) w of
        (Some err, w1) \<Rightarrow> (Some (applyErr (SQL st) err), w1) | (None, w1) \<Rightarrow> txExecAll P sts w1)"
    by (rule ext) simp
  then show ?case by (simp only:) (intro frame_intros Cons poolD [OF Cons.prems])
qed

lemma runTxnBatch_same:
  assumes "poolLeaves P v" "OnRetry e = None"
  shows "same v (runTxnBatch ident e P batch)"
proof -
  have body: "same v (txnBody ident e P batch)"
    unfolding txnBody_def [abs_def] by (intro frame_intros poolD [OF assms(1)] txExecAll_same [OF assms(1)])
  have "same v (txnAttempt ident e P batch)"
    unfolding txnAttempt_def [abs_def]
    by (intro frame_intros same_let same_world poolD [OF assms(1)] body)
  then show ?thesis unfolding runTxnBatch_def withRetry_def by (intro withRetryFrom_same assms)
qed

lemma concurrentLoop_same:
  assumes "poolLeaves P v" "OnRetry e = None"
  shows "same v (concurrentLoop e P st left attempt)"
proof (induction left arbitrary: attempt)
  case 0
  show ?case
    using same_snd [OF poolD(6) [OF assms(1)]] sameD [OF poolD(6) [OF assms(1)]]
    by (intro sameI) (fastforce simp: concurrentLoop.simps [of _ _ _ 0] Let_def split: prod.splits option.splits if_splits)
next
  case (Suc n)
  have "concurrentLoop e P st (Suc n) attempt = (\<lambda>w.
      case ConnExec P (SQL st) (if attempt > 0 \<and> CleanupSQL st \<noteq> [] then snd (ConnExec P (CleanupSQL st) w) else w) of
           (None, w1) \<Rightarrow> (None, w1)
         | (Some err, w1) \<Rightarrow>
             if \<not> isLockTimeout err then (Some (applyErr (SQL st) err), w1)
             else case Wait P (backoffDelay (backoffBase e) attempt) w1 of
                    (Some cancelled, w2) \<Rightarrow> (Some cancelled, w2)
                  | (None, w2) \<Rightarrow> concurrentLoop e P st n (attempt + 1) w2)"
    by (rule ext) (simp add: concurrentLoop.simps [of _ _ _ "Suc n"] onRetry_none [OF assms(2)] Let_def cong: option.case_cong if_cong)
  moreover have "same v (\<lambda>w. ConnExec P (SQL st) (if attempt > 0 \<and> CleanupSQL st \<noteq> [] then snd (ConnExec P (CleanupSQL st) w) else w))"
  proof (rule sameI)
    fix w r w' assume "ConnExec P (SQL st) (if attempt > 0 \<and> CleanupSQL st \<noteq> [] then snd (ConnExec P (CleanupSQL st) w) else w) = (r, w')"
    from sameD [OF poolD(6) [OF assms(1)] this] show "v w' = v w" by (simp add: same_snd [OF poolD(6) [OF assms(1)]])
  qed
  ultimately show ?case by (simp only:) (intro frame_intros poolD [OF assms(1)] Suc.IH)
qed

lemma runConcurrent_same:
  assumes "poolLeaves P v" "OnRetry e = None"
  shows "same v (runConcurrent ident e P st)"
proof -
  have body: "same v (concurrentBody ident e P st)"
    unfolding concurrentBody_def [abs_def] by (intro frame_intros poolD [OF assms(1)] concurrentLoop_same assms)
  show ?thesis
    unfolding runConcurrent_def [abs_def]
    by (intro frame_intros same_let same_world poolD(5) [OF assms(1)] body)
       (simp add: poolD(7) [OF assms(1)] same_snd [OF poolD(6) [OF assms(1)]])
qed

lemma flush_same: "poolLeaves P v \<Longrightarrow> OnRetry e = None \<Longrightarrow> same v (flush ident e P batch)"
  unfolding flush_def [abs_def] by (intro frame_intros runTxnBatch_same)

lemma applyStmts_same:
  assumes "poolLeaves P v" "OnRetry e = None"
  shows "same v (applyStmts ident e P sts batch)"
proof (induction sts arbitrary: batch)
  case Nil
  have "applyStmts ident e P [] batch = flush ident e P batch" by (rule ext) simp
  then show ?case by (simp only:) (intro flush_same assms)
next
  case (Cons st sts)
  have "applyStmts ident e P (st # sts) batch = (\<lambda>w. if Concurrent st
      then (case flush ident e P batch w of
              (Some err, w1) \<Rightarrow> (Some err, w1)
            | (None, w1) \<Rightarrow> (case runConcurrent ident e P st w1 of
                   (Some err, w2) \<Rightarrow> (Some err, w2) | (None, w2) \<Rightarrow> applyStmts ident e P sts [] w2))
      else applyStmts ident e P sts (batch @ [st]) w)"
    by (rule ext) simp
  then show ?case by (simp only:) (intro frame_intros flush_same runConcurrent_same assms Cons.IH)
qed

lemma Apply_same:
  assumes "poolLeaves P v" "OnRetry e = None" "exPool e = Some P"
  shows "sameO v (Apply ident e p)"
  using sameD [OF applyStmts_same [OF assms(1,2)]]
  by (intro sameOI) (auto simp: Apply_def assms(3) split: if_splits sum.splits)

lemma ExecOne_same: "poolLeaves P v \<Longrightarrow> OnRetry e = None \<Longrightarrow> exPool e = Some P \<Longrightarrow> same v (ExecOne ident e sql)"
  unfolding ExecOne_def [abs_def] by (simp only: option.case) (intro frame_intros runTxnBatch_same)

lemma ExecBatch_same: "poolLeaves P v \<Longrightarrow> OnRetry e = None \<Longrightarrow> exPool e = Some P \<Longrightarrow> same v (ExecBatch ident e sqls)"
  unfolding ExecBatch_def [abs_def] by (simp only: option.case) (intro frame_intros runTxnBatch_same)

section \<open>The migration\<close>

lemma executorOf_view [simp]: "exPool (executorOf B pg) = Some (bPool B)" "OnRetry (executorOf B pg) = None"
  by (simp_all add: executorOf_def)

lemma exec_same:
  assumes "backendLeaves B v"
  shows "same v (ExecOne ident (executorOf B pg) sql)" "same v (ExecBatch ident (executorOf B pg) sqls)"
    "sameO v (Apply ident (executorOf B pg) p)"
  by (rule ExecOne_same ExecBatch_same Apply_same; simp add: backendD(1) [OF assms])+

lemma validateFK_same: "backendLeaves B v \<Longrightarrow> same v (validateFK ident (executorOf B pg) op sts)"
proof (induction sts)
  case Nil
  have "validateFK ident (executorOf B pg) op [] = (\<lambda>w. ([], w))" by (rule ext) simp
  then show ?case by (simp only:) (rule same_return)
next
  case (Cons st sts)
  have "validateFK ident (executorOf B pg) op (st # sts) =
      (\<lambda>w. case ExecOne ident (executorOf B pg) (SQL st) w of (r, w1) \<Rightarrow>
             (let (more, w2) = validateFK ident (executorOf B pg) op sts w1 in ((if r = None then [] else [opString op]) @ more, w2)))"
    by (rule ext) simp
  then show ?case by (simp only:) (intro same_bind same_let same_return exec_same Cons)
qed

lemma applyForeignKey_same:
  assumes "backendLeaves B v"
  shows "sameO v (applyForeignKey ident (executorOf B pg) item)"
proof (rule sameOI)
  fix w un w' assume run: "applyForeignKey ident (executorOf B pg) item w = Some (un, w')"
  show "v w' = v w"
    using run sameD [OF exec_same(2) [OF assms]] sameD [OF validateFK_same [OF assms]]
    by (auto simp: applyForeignKey_def split: option.splits list.splits prod.splits)
qed

lemma applyForeignKeys_same: "backendLeaves B v \<Longrightarrow> applyForeignKeys ident (executorOf B pg) items w = Some (un, w') \<Longrightarrow> v w' = v w"
proof (induction items arbitrary: w un)
  case (Cons item items)
  then obtain u1 w1 u2 where 1: "applyForeignKey ident (executorOf B pg) item w = Some (u1, w1)"
      "applyForeignKeys ident (executorOf B pg) items w1 = Some (u2, w')"
    by (auto split: option.splits)
  then show ?case using Cons.IH [OF Cons.prems(1) 1(2)] sameOD [OF applyForeignKey_same [OF Cons.prems(1)] 1(1)] by simp
qed simp

lemma existingOverlaps_same: "backendLeaves B v \<Longrightarrow> same v (existingOverlaps std B pg table r fds limit)"
  unfolding existingOverlaps_def [abs_def] Let_def by (intro frame_intros backendD)

lemma overlapBlock_same:
  assumes "backendLeaves B v"
  shows "same v (overlapBlock std B pg s table e)"
  using sameD [OF existingOverlaps_same [OF assms]]
  by (intro sameI) (fastforce simp: overlapBlock_def split: option.splits prod.splits sum.splits)

lemma applyExclusion_same:
  assumes "backendLeaves B v"
  shows "sameO v (applyExclusion std B pg s item)"
proof (rule sameOI)
  fix w bl w' assume run: "applyExclusion std B pg s item w = Some (bl, w')"
  obtain m w1 where 1: "overlapBlock std B pg s (fst (exAdd item)) (snd (exAdd item)) w = (m, w1)" by fastforce
  have "v w' = v w1"
    using run 1 sameD [OF exec_same(2) [OF assms]]
    by (auto simp: applyExclusion_def Let_def split: option.splits sum.splits prod.splits)
  then show "v w' = v w" using sameD [OF overlapBlock_same [OF assms] 1] by simp
qed

lemma applyExclusions_same: "backendLeaves B v \<Longrightarrow> applyExclusions std B pg s items w = Some (bl, w') \<Longrightarrow> v w' = v w"
proof (induction items arbitrary: w bl)
  case (Cons item items)
  then obtain u1 w1 u2 where 1: "applyExclusion std B pg s item w = Some (u1, w1)"
      "applyExclusions std B pg s items w1 = Some (u2, w')"
    by (auto split: option.splits)
  then show ?case using Cons.IH [OF Cons.prems(1) 1(2)] sameOD [OF applyExclusion_same [OF Cons.prems(1)] 1(1)] by simp
qed simp

lemma diffTenant_same:
  assumes "backendLeaves B v"
  shows "same v (diffTenant std B pg s orphans)"
  using sameD [OF backendD(4) [OF assms]]
  by (intro sameI) (fastforce simp: diffTenant_def split: prod.splits sum.splits)

lemma verifyApplied_same:
  assumes "backendLeaves B v"
  shows "same v (verifyApplied std B pg s orphans)"
  using sameD [OF diffTenant_same [OF assms]]
  by (intro sameI) (fastforce simp: verifyApplied_def split: prod.splits sum.splits)

lemma ownedOf_same:
  assumes "backendLeaves B v"
  shows "same v (ownedOf B pg)"
  using sameD [OF backendD(5) [OF assms]] sameD [OF backendD(6) [OF assms]]
  by (intro sameI) (fastforce simp: ownedOf_def Let_def split: prod.splits option.splits)

lemma runPlan_same:
  assumes "backendLeaves B v" "runPlan std B pg s orphans ap out w = Some (r, w')"
  shows "v w' = v w"
proof -
  obtain n0 fks n exs where sp: "splitForeignKeyOps ap = (n0, fks)" "splitExclusionOps n0 = (n, exs)" by fastforce
  obtain r1 w1 where 1: "Apply (ident1 B) (executorOf B pg) n w = Some (r1, w1)"
    using assms(2) sp by (auto simp: runPlan_def Let_def split: option.splits)
  have v1: "v w1 = v w" using sameOD [OF exec_same(3) [OF assms(1)] 1] .
  show ?thesis
  proof (cases r1)
    case (Some err)
    then show ?thesis using assms(2) sp 1 v1 by (auto simp: runPlan_def Let_def)
  next
    case None
    obtain un w2 where 2: "applyForeignKeys (ident1 B) (executorOf B pg) fks w1 = Some (un, w2)"
      using assms(2) sp 1 None by (auto simp: runPlan_def Let_def split: option.splits)
    obtain bl w3 where 3: "applyExclusions std B pg s exs w2 = Some (bl, w3)"
      using assms(2) sp 1 None 2 by (auto simp: runPlan_def Let_def split: option.splits)
    obtain u w4 where 4: "verifyApplied std B pg s orphans w3 = (u, w4)" by fastforce
    have "w' = w4" using assms(2) sp 1 None 2 3 4 by (auto simp: runPlan_def Let_def)
    then show ?thesis
      using v1 applyForeignKeys_same [OF assms(1) 2] applyExclusions_same [OF assms(1) 3] sameD [OF verifyApplied_same [OF assms(1)] 4] by simp
  qed
qed

lemma applyPlanned_same:
  assumes "backendLeaves B v" "applyPlanned std B pg s approved orphans p0 bl w = Some (r, w')"
  shows "v w' = v w"
proof -
  obtain owned w1 where 1: "ownedOf B pg w = (owned, w1)" by fastforce
  have "w' = w1 \<or> (\<exists>ap out. runPlan std B pg s orphans ap out w1 = Some (r, w'))"
    using assms(2) 1 by (auto simp: applyPlanned_def Let_def split: prod.splits if_splits)
  then show ?thesis using sameD [OF ownedOf_same [OF assms(1)] 1] runPlan_same [OF assms(1)] by metis
qed

lemma applyMigration_same:
  assumes "backendLeaves B v" "applyMigration std B pg s approved orphans w = Some (r, w')"
  shows "v w' = v w"
proof -
  let ?meta = "\<lambda>w. if schemaHasFileFields s then EnsureMetaTable B (TrimPrefix pg ''tenant_'') w else (None, w)"
  have meta: "same v ?meta" by (intro frame_intros backendD [OF assms(1)])
  have ext: "same v (ensureRangeExtensions B s)"
    unfolding ensureRangeExtensions_def [abs_def] by (intro frame_intros backendD [OF assms(1)])
  obtain r1 w1 where 1: "?meta w = (r1, w1)" by fastforce
  obtain r2 w2 where 2: "ensureRangeExtensions B s w1 = (r2, w2)" by fastforce
  obtain r3 w3 where 3: "diffTenant std B pg s orphans w2 = (r3, w3)" by fastforce
  have "w' = w1 \<or> w' = w2 \<or> w' = w3 \<or> (\<exists>p bl. applyPlanned std B pg s approved orphans p bl w3 = Some (r, w'))"
    using assms(2) 1 2 3 by (auto simp: applyMigration_def split: option.splits sum.splits prod.splits)
  then show ?thesis
    using sameD [OF meta 1] sameD [OF ext 2] sameD [OF diffTenant_same [OF assms(1)] 3] applyPlanned_same [OF assms(1)] by metis
qed

section \<open>The dry run\<close>

lemma describeDestructive_same:
  assumes "backendLeaves B v"
  shows "same v (describeDestructive B pg op key phys ok)"
proof -
  have count: "same v (countRowsAll B pg t)" "same v (countRowsNonNull B pg t c)" for t c
    unfolding countRowsAll_def [abs_def] countRowsNonNull_def [abs_def] by (rule backendD(7) [OF assms])+
  have "same v (describeColumn B pg a t c key ok)" "same v (describeTable B pg t key ok)" for a t c
    unfolding describeColumn_def [abs_def] describeTable_def [abs_def] by (intro frame_intros count)+
  then show ?thesis
    by (cases op) (simp_all add: describeDestructive_def [abs_def] same_return)
qed

lemma describeAll_same: "backendLeaves B v \<Longrightarrow> same v (describeAll B pg phys keys ops)"
proof (induction ops)
  case Nil
  have "describeAll B pg phys keys [] = (\<lambda>w. (Inr [], w))" by (rule ext) simp
  then show ?case by (simp only:) (rule same_return)
next
  case (Cons op ops)
  show ?case
  proof (cases "DestructiveKey op")
    case None
    then have "describeAll B pg phys keys (op # ops) = describeAll B pg phys keys ops" by (intro ext) simp
    then show ?thesis using Cons by simp
  next
    case (Some key)
    then have "describeAll B pg phys keys (op # ops) = (\<lambda>w. case describeDestructive B pg op key phys (key \<in> set keys) w of
             (Inl err, w1) \<Rightarrow> (Inl err, w1)
           | (Inr d, w1) \<Rightarrow> (case describeAll B pg phys keys ops w1 of (Inl err, w2) \<Rightarrow> (Inl err, w2) | (Inr ds, w2) \<Rightarrow> (Inr (d # ds), w2)))"
      by (intro ext) simp
    then show ?thesis by (simp only:) (intro frame_intros describeDestructive_same Cons)
  qed
qed

lemma exclusionConcerns_same:
  assumes "backendLeaves B v"
  shows "exclusionConcerns std B pg s created ops w = (ls, w') \<Longrightarrow> v w' = v w"
proof (induction ops arbitrary: w ls w')
  case (Cons op ops)
  show ?case
  proof (cases "exclusionConcerns std B pg s created (op # ops) w = exclusionConcerns std B pg s created ops w")
    case True
    then show ?thesis using Cons by simp
  next
    case False
    then obtain table e r name where op: "addExOf op = Some (table, e)" "table \<notin> set created" "rangeOf std s table (exSymbol e) = Some (r, name)"
      by (auto split: option.splits if_splits)
    obtain res w1 where 1: "existingOverlaps std B pg table r (Fields (resourceOf s table)) 5 w = (res, w1)" by fastforce
    obtain more w2 where 2: "exclusionConcerns std B pg s created ops w1 = (more, w2)" by fastforce
    have "w' = w2" using Cons.prems op 1 2 by simp
    then show ?thesis using Cons.IH [OF 2] sameD [OF existingOverlaps_same [OF assms] 1] by simp
  qed
qed simp

lemma PreviewTenantMigration_same:
  assumes "backendLeaves B v"
  shows "same v (PreviewTenantMigration std B pg s approved)"
proof (rule sameI)
  fix w r w' assume run: "PreviewTenantMigration std B pg s approved w = (r, w')"
  obtain d w1 where 1: "diffTenant std B pg s True w = (d, w1)" by fastforce
  obtain owned w2 where 2: "ownedOf B pg w1 = (owned, w2)" by fastforce
  have pl: "v wb = v wa" if planned: "previewPlanned std B pg s approved p pv wa = (x, wb)" for p pv wa x wb
  proof -
    obtain ap g keys where pa: "partitionByPolicyApproved p approved = (ap, g, keys)" by (cases "partitionByPolicyApproved p approved")
    obtain ds w3 where 3: "describeAll B pg (physName p) keys (Ops p) wa = (ds, w3)" by fastforce
    obtain ls w4 where 4: "exclusionConcerns std B pg s (createdNames p) (Ops p) w3 = (ls, w4)" by fastforce
    have "wb = w3 \<or> wb = w4" using planned pa 3 4 by (auto simp: previewPlanned_def Let_def split: sum.splits)
    then show ?thesis using sameD [OF describeAll_same [OF assms] 3] exclusionConcerns_same [OF assms 4] by auto
  qed
  have "w' = w1 \<or> w' = w2 \<or> (\<exists>p pv. previewPlanned std B pg s approved p pv w2 = (r, w'))"
    using run 1 2 by (auto simp: PreviewTenantMigration_def Let_def split: sum.splits prod.splits if_splits)
  then show "v w' = v w"
    using sameD [OF diffTenant_same [OF assms] 1] sameD [OF ownedOf_same [OF assms] 2] pl by metis
qed

section \<open>Failures are isolated\<close>

text \<open>\<open>rec\<close> reads the recorded schema of every tenant; only the \<open>UPDATE\<close> of \<open>SaveSchema\<close> changes it, when it
  succeeds and for its tenant alone.\<close>

definition recordLaws :: "'w Control \<Rightarrow> ('w \<Rightarrow> string \<Rightarrow> string option) \<Rightarrow> bool" where
  "recordLaws C rec \<longleftrightarrow>
     backendLeaves (cBackend C) rec \<and> same rec (AcquireConn C) \<and> sameWorld rec (ReleaseConn C) \<and>
     (\<forall>k. same rec (TryLock C k)) \<and> (\<forall>k. sameWorld rec (Unlock C k)) \<and> (\<forall>d. same rec (Sleep C d)) \<and>
     (\<forall>i. sameWorld rec (EnsureSeeded C i)) \<and> (\<forall>i b a r. sameWorld rec (AppendHistory C i b a r)) \<and>
     (\<forall>i a b c. sameWorld rec (InsertLog C i a b c)) \<and> same rec (Millis C) \<and>
     (\<forall>i b w r w'. SaveSchema C i b w = (r, w') \<longrightarrow> rec w' = (if r = None then (rec w)(i := Some b) else rec w))"

lemma recordD:
  assumes "recordLaws C rec"
  shows "backendLeaves (cBackend C) rec" "same rec (AcquireConn C)" "rec (ReleaseConn C w) = rec w" "same rec (TryLock C k)"
    "rec (Unlock C k w) = rec w" "same rec (Sleep C d)" "rec (EnsureSeeded C i w) = rec w" "rec (AppendHistory C i b a u w) = rec w"
    "rec (InsertLog C i a b c w) = rec w" "same rec (Millis C)"
    "SaveSchema C i b w = (r, w') \<Longrightarrow> rec w' = (if r = None then (rec w)(i := Some b) else rec w)"
  using assms by (auto simp: recordLaws_def sameWorld_def)

lemma lockLoop_same: "recordLaws C rec \<Longrightarrow> same rec (lockLoop C key n)"
proof (induction n)
  case 0
  have "lockLoop C key 0 = (\<lambda>w. (Inr False, w))" by (rule ext) simp
  then show ?case by (simp only:) (rule same_return)
next
  case (Suc n)
  have "lockLoop C key (Suc n) = (\<lambda>w. case TryLock C key w of (Inl err, w1) \<Rightarrow> (Inl err, w1)
      | (Inr locked, w1) \<Rightarrow> if locked then (Inr True, w1) else if n = 0 then (Inr False, w1)
          else case Sleep C fanoutLockBackoff w1 of (Some err, w2) \<Rightarrow> (Inl err, w2) | (None, w2) \<Rightarrow> lockLoop C key n w2)"
    by (rule ext) simp
  then show ?case by (simp only:) (intro frame_intros Suc recordD [OF Suc.prems])
qed

lemma persist_record:
  assumes "recordLaws C rec" "persistTenantSchema C i s runID w = (r, w')"
  shows "rec w' = (case (r, MarshalSchema C s) of (None, Inr b) \<Rightarrow> (rec w)(i := Some b) | _ \<Rightarrow> rec w)"
proof (cases "MarshalSchema C s")
  case (Inl err)
  then show ?thesis using assms(2) by (auto simp: persistTenantSchema_def persistTenantSchemaSource_def)
next
  case (Inr b)
  obtain r1 w1 where 1: "SaveSchema C i b (EnsureSeeded C i w) = (r1, w1)" by fastforce
  then show ?thesis
    using assms(2) Inr recordD(11) [OF assms(1) 1] recordD(7,8) [OF assms(1)]
    by (auto simp: persistTenantSchema_def persistTenantSchemaSource_def split: option.splits)
qed

lemma tenantJob_record:
  assumes "recordLaws C rec" "tenantJob std C t s approved runID w = Some (r, w')"
  shows "rec w' = (case (r, MarshalSchema C s) of (Inr _, Inr b) \<Rightarrow> (rec w)(trId t := Some b) | _ \<Rightarrow> rec w)"
proof -
  obtain r1 w1 where 1: "ApplyTenantMigrationApproved std (cBackend C) (trSchema t) s approved w = Some (r1, w1)"
    using assms(2) by (auto simp: tenantJob_def split: option.splits)
  have v1: "rec w1 = rec w"
    using applyMigration_same [OF recordD(1) [OF assms(1)]] 1 by (simp add: ApplyTenantMigrationApproved_def)
  obtain r2 w2 where 2: "persistTenantSchema C (trId t) s runID w1 = (r2, w2)" by fastforce
  consider "w' = w1" "\<exists>e. r = Inl e" | "w' = w2" "r2 \<noteq> None" "\<exists>e. r = Inl e" | "w' = w2" "r2 = None" "\<exists>out. r = Inr out"
    using assms(2) 1 2 by (auto simp: tenantJob_def split: sum.splits if_splits option.splits)
  then show ?thesis
    using v1 persist_record [OF assms(1) 2] by cases (auto split: option.splits sum.splits)
qed

lemma withTenantLock_record:
  assumes "recordLaws C rec" "withTenantLock C pg fn w = Some (lr, w')"
    and "\<And>wa r wb. fn wa = Some (r, wb) \<Longrightarrow> rec wb = g r (rec wa)"
  shows "rec w' = (case lr of Acquired r \<Rightarrow> g r (rec w) | NotAcquired _ \<Rightarrow> rec w)"
proof -
  obtain r1 w1 where 1: "AcquireConn C w = (r1, w1)" by fastforce
  obtain r2 w2 where 2: "lockLoop C (tenantLockKey pg) fanoutLockAttempts w1 = (r2, w2)" by fastforce
  have v: "rec w1 = rec w" "rec w2 = rec w"
    using sameD [OF recordD(2) [OF assms(1)] 1] sameD [OF lockLoop_same [OF assms(1)] 2] by simp_all
  consider "w' = w1" "\<exists>e. lr = NotAcquired e" | "w' = ReleaseConn C w2" "\<exists>e. lr = NotAcquired e"
    | r w3 where "fn w2 = Some (r, w3)" "lr = Acquired r" "w' = ReleaseConn C (Unlock C (tenantLockKey pg) w3)"
    using assms(2) 1 2 by (auto simp: withTenantLock_def split: option.splits sum.splits bool.splits)
  then show ?thesis
    by cases (use v recordD(3,5) [OF assms(1)] assms(3) in auto)
qed

text \<open>A tenant that fails keeps its recorded schema, and no tenant's run changes the record of another: after
  one tenant of a fan-out the recorded schemas differ only in that tenant's, and only when its result
  is not a failure and the run is not a dry run; then the new schema is recorded.\<close>

theorem fanout_failures_are_isolated:
  assumes "recordLaws C rec" "MarshalSchema C s = Inr b"
    and "applyToTenant std C t s opts runID w = Some (tr, w')"
  shows "rec w' = (if DryRun opts \<or> tfStatus tr = FanoutFailed then rec w else (rec w)(trId t := Some b))"
proof -
  obtain start w1 where m1: "Millis C w = (start, w1)" by fastforce
  obtain tr0 w2 where r: "runTenant std C t s opts runID w1 = Some (tr0, w2)" using assms(3) m1 by (auto simp: applyToTenant_def)
  obtain now w3 where m2: "Millis C w2 = (now, w3)" by fastforce
  have tr: "tfStatus tr = tfStatus tr0" "rec w' = rec w2" "rec w1 = rec w"
    using assms(3) m1 r m2 sameD [OF recordD(10) [OF assms(1)]] by (auto simp: applyToTenant_def)
  have log: "rec (logFanout C i st rid d w) = rec w" for i st rid d w
    by (simp add: logFanout_def Let_def recordD(9) [OF assms(1)])
  show ?thesis
  proof (cases "DryRun opts")
    case True
    then show ?thesis
      using r tr sameD [OF PreviewTenantMigration_same [OF recordD(1) [OF assms(1)]]]
      by (auto simp: runTenant_def split: prod.splits sum.splits)
  next
    case False
    obtain lr w4 where l: "withTenantLock C (trSchema t) (tenantJob std C t s (ApprovedDrops' opts) runID) w1 = Some (lr, w4)"
      using r False by (auto simp: runTenant_def split: option.splits)
    have w4: "rec w4 = (case lr of Acquired (Inr _) \<Rightarrow> (rec w1)(trId t := Some b) | _ \<Rightarrow> rec w1)"
      using withTenantLock_record [OF assms(1) l, of "\<lambda>r f. case r of Inr _ \<Rightarrow> f(trId t := Some b) | Inl _ \<Rightarrow> f"]
        tenantJob_record [OF assms(1), of std t s] assms(2)
      by (auto split: lockResult.splits sum.splits)
    show ?thesis
      using r False l w4 tr log
      by (auto simp: runTenant_def tenantResult_def Let_def split: lockResult.splits sum.splits if_splits)
  qed
qed

section \<open>Every tenant is answered for\<close>

text \<open>C4: a fan-out always ends and answers for every tenant it enumerated, in order and whatever happened to the
  others: with a schema, a list of tenants and a catalogue that is well formed it returns one result per
  tenant, the totals are those of the results and add up, and the requested tenants that do not exist
  are reported as missing.\<close>

theorem fanout_answers_every_tenant:
  assumes "catalogueOk (cBackend C)" "foSchema opts = Some s" "ListTenants C (TenantIDs opts) w = (Inr rows, w1)"
  shows "\<exists>res w'. RunFanout std C stamp opts w = Some (Inr res, w') \<and>
           map tfId (Results res) = map trId rows \<and> Total res = int (length rows) \<and>
           Applied res + Noop res + Failed res = Total res \<and>
           Failed res = int (length (filter (\<lambda>t. tfStatus t = FanoutFailed) (Results res))) \<and>
           (\<forall>i. i \<in> set (MissingTenants res) \<longleftrightarrow> i \<in> set (TenantIDs opts) \<and> i \<notin> trId ` set rows)"
proof -
  let ?res0 = "\<lparr>RunID = ''fanout-'' @ stamp, frDryRun = DryRun opts, Total = 0, Applied = 0, Noop = 0, Failed = 0,
                MissingTenants = filter (\<lambda>i. i \<notin> set (map trId rows)) (TenantIDs opts), Results = []\<rparr>"
  obtain res w' where run: "fanoutLoop std C s opts (''fanout-'' @ stamp) rows ?res0 w1 = Some (res, w')"
    using fanoutLoop_total [OF assms(1), of std s opts "''fanout-'' @ stamp" rows ?res0 w1] by auto
  have ret: "RunFanout std C stamp opts w = Some (Inr res, w')"
    using assms(2,3) run by (simp add: RunFanout_def enumerateTenants_def Let_def)
  have b: "balanced res" and ids: "map tfId (Results res) = map trId rows"
    and miss: "MissingTenants res = filter (\<lambda>i. i \<notin> set (map trId rows)) (TenantIDs opts)"
    using fanoutLoop_spec [OF run] by (auto simp: balanced_def)
  have "length (filter (\<lambda>t. tfStatus t = FanoutApplied) xs) + length (filter (\<lambda>t. tfStatus t = FanoutNoop) xs)
        + length (filter (\<lambda>t. tfStatus t = FanoutFailed) xs) = length xs" for xs
    by (induction xs) (auto, metis FanoutStatus.exhaust)
  then have "Applied res + Noop res + Failed res = Total res"
    using b by (simp add: balanced_def flip: of_nat_add)
  moreover have "length (Results res) = length rows" using ids by (metis length_map)
  ultimately show ?thesis using ret b ids miss by (auto simp: balanced_def)
qed

text \<open>A tenant is reported as migrated only after a complete migration: in an applying run, a result that is
  not a failure means the migration of this tenant returned an outcome that is not partial, and its
  schema was recorded after it.\<close>

theorem tenant_success_is_complete:
  assumes "applyToTenant std C t s opts runID w = Some (tr, w')" "\<not> DryRun opts" "tfStatus tr \<noteq> FanoutFailed"
  shows "\<exists>wa wb wc out. ApplyTenantMigrationApproved std (cBackend C) (trSchema t) s (ApprovedDrops' opts) wa = Some (Inr out, wb) \<and>
           \<not> Partial (Some out) \<and> persistTenantSchema C (trId t) s runID wb = (None, wc) \<and>
           tfApplied tr = AppliedDrops out \<and> tfGated tr = GatedDrops out \<and> (tfStatus tr = FanoutNoop) = NoChange out"
proof -
  obtain w1 tr0 w2 d where r: "runTenant std C t s opts runID w1 = Some (tr0, w2)" and "tr = tr0\<lparr>DurationMS := d\<rparr>"
    by (rule applyToTenant_run [OF assms(1)])
  then have tr: "tfStatus tr = tfStatus tr0" "tfApplied tr = tfApplied tr0" "tfGated tr = tfGated tr0" by simp_all
  obtain out w3 where l: "withTenantLock C (trSchema t) (tenantJob std C t s (ApprovedDrops' opts) runID) w1 = Some (Acquired (Inr out), w3)"
    and o': "tfApplied tr0 = AppliedDrops out" "tfGated tr0 = GatedDrops out" "(tfStatus tr0 = FanoutNoop) = NoChange out"
    using r assms(2,3) tr
    by (auto simp: runTenant_def tenantResult_def Let_def split: prod.splits sum.splits option.splits lockResult.splits)
  obtain wa wc where j: "tenantJob std C t s (ApprovedDrops' opts) runID wa = Some (Inr out, wc)"
    using l by (auto simp: withTenantLock_def split: prod.splits sum.splits option.splits bool.splits)
  then show ?thesis
    using tr o' by (auto simp: tenantJob_def split: prod.splits sum.splits option.splits if_splits)
qed

section \<open>A control plane in memory\<close>

text \<open>One tenant, \<open>t\<close>, over the backend that is already converged; the world carries the recorded schemas.\<close>

type_synonym exCp = "exWorld \<times> string gomap"

definition onFst :: "('a \<Rightarrow> 'r \<times> 'a) \<Rightarrow> 'a \<times> 'b \<Rightarrow> 'r \<times> ('a \<times> 'b)" where
  "onFst f w = (let (r, a) = f (fst w) in (r, (a, snd w)))"

definition exCpPool :: "exCp Pool" where
  "exCpPool = \<lparr>Begin = onFst (Begin exDb), TxExec = (\<lambda>sql. onFst (TxExec exDb sql)), Commit = onFst (Commit exDb),
     Rollback = (\<lambda>w. (Rollback exDb (fst w), snd w)), Acquire = onFst (Acquire exDb), ConnExec = (\<lambda>sql. onFst (ConnExec exDb sql)),
     Release = (\<lambda>w. w), Wait = (\<lambda>d. onFst (Wait exDb d))\<rparr>"

definition exCpBackend :: "exCp Backend" where
  "exCpBackend = \<lparr>bPool = exCpPool, EnsureMetaTable = (\<lambda>_ w. (None, w)), PoolExec = (\<lambda>_ w. (None, w)),
     Introspect = (\<lambda>_ w. (Inr exConverged, w)), TenantDoc = (\<lambda>_ w. (None, w)), HistoryDocs = (\<lambda>_ w. ([], w)),
     QueryCount = (\<lambda>_ w. (Inr 7, w)), QueryPairs = (\<lambda>_ w. (Inr [], w)), ErrorText = (\<lambda>_. ''error''), Sanitize = concat\<rparr>"

definition exControl :: "bool \<Rightarrow> exCp Control" where
  "exControl free = \<lparr>cBackend = exCpBackend, ListTenants = (\<lambda>_ w. (Inr [\<lparr>trId = ''t'', trSchema = []\<rparr>], w)),
     AcquireConn = (\<lambda>w. (None, w)), ReleaseConn = (\<lambda>w. w), TryLock = (\<lambda>_ w. (Inr free, w)), Unlock = (\<lambda>_ w. w),
     Sleep = (\<lambda>_ w. (None, w)), MarshalSchema = (\<lambda>_. Inr ''doc''), EnsureSeeded = (\<lambda>_ w. w),
     SaveSchema = (\<lambda>i b w. (None, (fst w, gm_put i b (snd w)))), AppendHistory = (\<lambda>_ _ _ _ w. w), InsertLog = (\<lambda>_ _ _ _ w. w),
     Millis = (\<lambda>w. (0, w))\<rparr>"

definition exOpts :: "exCp FanoutOptions" where
  "exOpts = \<lparr>foSchema = Some exApi, TenantIDs = [''t'', ''x''], ApprovedDrops' = [], DryRun = False, OnTenant = None\<rparr>"

lemma onFst_same: "same (gm_get \<circ> snd) (onFst f)"
  by (auto simp: same_def onFst_def Let_def split: prod.splits)

lemma exControl_laws: "recordLaws (exControl free) (gm_get \<circ> snd)"
  by (simp add: recordLaws_def exControl_def backendLeaves_def exCpBackend_def poolLeaves_def exCpPool_def onFst_same same_return)
     (auto simp: same_def sameWorld_def gm_get_put fun_eq_iff)

lemma exTenant:
  "map_option (\<lambda>(tr, w). (tfStatus tr, snd w))
     (applyToTenant exStd (exControl True) \<lparr>trId = ''t'', trSchema = []\<rparr> exApi exOpts ''r'' (exStart, [])) = Some (FanoutNoop, [(''t'', ''doc'')])"
  by code_simp

lemma exTenantLocked:
  "map_option (tfStatus \<circ> fst)
     (applyToTenant exStd (exControl False) \<lparr>trId = ''t'', trSchema = []\<rparr> exApi exOpts ''r'' (exStart, [])) = Some FanoutFailed"
  by code_simp

lemma exControl_catalogue: "catalogueOk (cBackend (exControl free))"
proof -
  have "wf_schema exConverged" by code_simp
  then show ?thesis by (simp add: catalogueOk_def exControl_def exCpBackend_def)
qed

theorem fanout_answers_every_tenant_witness:
  "case RunFanout exStd (exControl False) ''now'' exOpts (exStart, []) of
     Some (Inr res, _) \<Rightarrow> map tfId (Results res) = [''t''] \<and> Total res = 1 \<and> set (MissingTenants res) = {''x''}
   | _ \<Rightarrow> False"
proof -
  have ids: "TenantIDs exOpts = [''t'', ''x'']" by (simp add: exOpts_def)
  have "foSchema exOpts = Some exApi"
    "ListTenants (exControl False) (TenantIDs exOpts) (exStart, []) = (Inr [\<lparr>trId = ''t'', trSchema = []\<rparr>], (exStart, []))"
    by (simp_all add: exControl_def exOpts_def)
  from fanout_answers_every_tenant [OF exControl_catalogue this, of exStd "''now''"]
  obtain res w where r: "RunFanout exStd (exControl False) ''now'' exOpts (exStart, []) = Some (Inr res, w)"
    and ids': "map tfId (Results res) = map trId [\<lparr>trId = ''t'', trSchema = []\<rparr>]"
    and tot: "Total res = int (length [\<lparr>trId = ''t'', trSchema = []\<rparr>])"
    and miss: "\<forall>i. i \<in> set (MissingTenants res) \<longleftrightarrow> i \<in> set (TenantIDs exOpts) \<and> i \<notin> trId ` set [\<lparr>trId = ''t'', trSchema = []\<rparr>]"
    by (elim exE conjE)
  have "set (MissingTenants res) = {''x''}" using miss unfolding ids by (auto simp: set_eq_iff)
  then show ?thesis unfolding r using ids' tot by simp
qed

theorem tenant_success_is_complete_witness:
  "\<exists>wa wb wc out. ApplyTenantMigrationApproved exStd exCpBackend [] exApi [] wa = Some (Inr out, wb) \<and> \<not> Partial (Some out) \<and>
     persistTenantSchema (exControl True) ''t'' exApi ''r'' wb = (None, wc) \<and> NoChange out"
proof -
  obtain tr w where r: "applyToTenant exStd (exControl True) \<lparr>trId = ''t'', trSchema = []\<rparr> exApi exOpts ''r'' (exStart, []) = Some (tr, w)"
    and st: "tfStatus tr = FanoutNoop"
    using exTenant by auto
  have "\<not> DryRun exOpts" "cBackend (exControl True) = exCpBackend" "ApprovedDrops' exOpts = []"
    by (simp_all add: exOpts_def exControl_def)
  then show ?thesis using tenant_success_is_complete [OF r] st by fastforce
qed

theorem fanout_failures_are_isolated_witness:
  "map_option (\<lambda>(tr, w). (tfStatus tr, gm_get (snd w) ''t''))
     (applyToTenant exStd (exControl True) \<lparr>trId = ''t'', trSchema = []\<rparr> exApi exOpts ''r'' (exStart, [])) = Some (FanoutNoop, Some ''doc'') \<and>
   map_option (\<lambda>(tr, w). (tfStatus tr, gm_get (snd w) ''t''))
     (applyToTenant exStd (exControl False) \<lparr>trId = ''t'', trSchema = []\<rparr> exApi exOpts ''r'' (exStart, [])) = Some (FanoutFailed, None)"
proof -
  have m: "MarshalSchema (exControl free) exApi = Inr ''doc''" for free by (simp add: exControl_def)
  obtain tr w where r: "applyToTenant exStd (exControl True) \<lparr>trId = ''t'', trSchema = []\<rparr> exApi exOpts ''r'' (exStart, []) = Some (tr, w)"
    and st: "tfStatus tr = FanoutNoop"
    using exTenant by auto
  obtain tr' w' where r': "applyToTenant exStd (exControl False) \<lparr>trId = ''t'', trSchema = []\<rparr> exApi exOpts ''r'' (exStart, []) = Some (tr', w')"
    and st': "tfStatus tr' = FanoutFailed"
    using exTenantLocked by auto
  show ?thesis
    using fanout_failures_are_isolated [OF exControl_laws m r] fanout_failures_are_isolated [OF exControl_laws m r'] r r' st st'
    by (simp add: exOpts_def)
qed

end
