(* ===== verification/Worker.thy ===== *)
theory Worker
  imports FanoutFacts
begin

text \<open>
  \<open>pkg/migration/worker.go\<close>: the consumer of the migration stream.  One message is one job; \<open>process\<close> decodes
  it, takes the tenant's lock, runs the additive migration and acknowledges, re-enqueues or gives up.
  Redis, the schema cache and the log table are parameters.  The receive loop of \<open>Run\<close> is not modelled.
\<close>

section \<open>A job\<close>

record XMessage =
  xmId :: string
  xmValues :: "goany gomap"

record 'w Stream =
  XAdd :: "string \<times> string \<times> string \<Rightarrow> 'w \<Rightarrow> 'w"
  XAck :: "string \<Rightarrow> 'w \<Rightarrow> 'w"
  DecodeSchema :: "string \<Rightarrow> goError + APISchema"
  InvalidateCache :: "(string \<Rightarrow> 'w \<Rightarrow> 'w) option"
  LogMigration :: "string \<Rightarrow> string \<Rightarrow> string \<Rightarrow> 'w \<Rightarrow> 'w"

record MigrationWorker =
  wkBackoffBase :: int
  LockRetryDelay :: int

definition maxJobRetries :: int where "maxJobRetries = 3"

definition strValue :: "XMessage \<Rightarrow> string \<Rightarrow> string" where
  "strValue msg k = (case gm_get (xmValues msg) k of Some (GStr s) \<Rightarrow> s | _ \<Rightarrow> [])"

text \<open>The value of \<open>strconv.Atoi\<close> when its error is ignored: zero for a malformed number, the nearest bound for
  one that does not fit.\<close>

definition atoiValue :: "string \<Rightarrow> int" where
  "atoiValue s =
     (case Atoi s of
        Some i \<Rightarrow> i
      | None \<Rightarrow>
          (let neg = (case s of c # _ \<Rightarrow> c = CHR ''-'' | [] \<Rightarrow> False);
               ds = (case s of c # cs \<Rightarrow> if c = CHR ''-'' \<or> c = CHR ''+'' then cs else s | [] \<Rightarrow> [])
           in if ds = [] \<or> \<not> list_all is_digit ds then 0 else if neg then - (2 ^ 63) else 2 ^ 63 - 1))"

definition jobAttempt :: "XMessage \<Rightarrow> int" where
  "jobAttempt msg = atoiValue (strValue msg ''retry_count'')"

text \<open>\<open>time.Duration(1<<uint(attempt)) * w.BackoffBase\<close>: a negative count shifts everything out.\<close>

definition retryDelay :: "MigrationWorker \<Rightarrow> int \<Rightarrow> int" where
  "retryDelay wk attempt =
     sint ((if attempt < 0 then 0 else push_bit (nat attempt) 1) * word_of_int (wkBackoffBase wk) :: 64 word)"

text \<open>After a wait that the context may end: the job is put back with retry count \<open>n\<close> and acknowledged, or only
  acknowledged.\<close>

definition requeue :: "'w Control \<Rightarrow> 'w Stream \<Rightarrow> XMessage \<Rightarrow> int \<Rightarrow> int \<Rightarrow> 'w \<Rightarrow> 'w" where
  "requeue C R msg delay n w =
     (case Sleep C delay w of
        (Some _, w1) \<Rightarrow> XAck R (xmId msg) w1
      | (None, w1) \<Rightarrow> XAck R (xmId msg) (XAdd R (strValue msg ''tenant_id'', strValue msg ''schema'', Itoa n) w1))"

definition finishJob :: "'w Control \<Rightarrow> 'w Stream \<Rightarrow> MigrationWorker \<Rightarrow> XMessage \<Rightarrow> goError option \<Rightarrow> 'w \<Rightarrow> 'w" where
  "finishJob C R wk msg migErr w =
     (let tenantID = strValue msg ''tenant_id''; attempt = jobAttempt msg
      in case migErr of
           Some err \<Rightarrow>
             if attempt \<ge> maxJobRetries
             then LogMigration R tenantID ''failed'' (ErrorText (cBackend C) err) (XAck R (xmId msg) w)
             else requeue C R msg (retryDelay wk attempt) (attempt + 1) w
         | None \<Rightarrow>
             (let w1 = LogMigration R tenantID ''ok'' [] (XAck R (xmId msg) w)
              in case InvalidateCache R of None \<Rightarrow> w1 | Some f \<Rightarrow> f tenantID w1))"

definition process :: "Std \<Rightarrow> 'w Control \<Rightarrow> 'w Stream \<Rightarrow> MigrationWorker \<Rightarrow> XMessage \<Rightarrow> 'w \<Rightarrow> 'w option" where
  "process std C R wk msg w =
     (case DecodeSchema R (strValue msg ''schema'') of
        Inl _ \<Rightarrow> Some (XAck R (xmId msg) w)
      | Inr s \<Rightarrow>
          (let pgSchema = ''tenant_'' @ strValue msg ''tenant_id''; key = tenantLockKey pgSchema
           in case AcquireConn C w of
                (Some _, w1) \<Rightarrow> Some w1
              | (None, w1) \<Rightarrow>
                  (case TryLock C key w1 of
                     (Inl _, w2) \<Rightarrow> Some (ReleaseConn C w2)
                   | (Inr locked, w2) \<Rightarrow>
                       if \<not> locked
                       then Some (requeue C R msg (LockRetryDelay wk) (jobAttempt msg) (ReleaseConn C w2))
                       else map_option (\<lambda>(r, w3). ReleaseConn C (Unlock C key (finishJob C R wk msg r w3)))
                              (ApplyTenantMigration std (cBackend C) pgSchema s w2))))"

section \<open>The life of a job\<close>

text \<open>\<open>jobs\<close> are the entries added to the stream, \<open>acks\<close> the messages acknowledged; only the stream changes them.
  Both stream calls may fail, and the worker goes on.\<close>

definition streamLaws :: "'w Control \<Rightarrow> 'w Stream \<Rightarrow> ('w \<Rightarrow> (string \<times> string \<times> string) list) \<Rightarrow> ('w \<Rightarrow> string list) \<Rightarrow> bool" where
  "streamLaws C R jobs acks \<longleftrightarrow>
     (let v = (\<lambda>w. (jobs w, acks w))
      in backendLeaves (cBackend C) v \<and> same v (AcquireConn C) \<and> sameWorld v (ReleaseConn C) \<and> (\<forall>k. same v (TryLock C k)) \<and>
         (\<forall>k. sameWorld v (Unlock C k)) \<and> (\<forall>d. same v (Sleep C d)) \<and> (\<forall>i s e. sameWorld v (LogMigration R i s e)) \<and>
         (case InvalidateCache R of None \<Rightarrow> True | Some f \<Rightarrow> \<forall>i. sameWorld v (f i)) \<and>
         (\<forall>j w. v (XAdd R j w) \<in> {(jobs w @ [j], acks w), v w}) \<and> (\<forall>i w. v (XAck R i w) \<in> {(jobs w, acks w @ [i]), v w}))"

text \<open>What handling a message with retry count \<open>n\<close> may do to the stream.\<close>

inductive jobStep :: "int \<Rightarrow> XMessage \<Rightarrow> (string \<times> string \<times> string) list \<Rightarrow> string list \<Rightarrow> bool" for n msg where
  settled: "acked = [] \<or> acked = [xmId msg] \<Longrightarrow> jobStep n msg [] acked"
| locked: "acked = [] \<or> acked = [xmId msg] \<Longrightarrow>
    jobStep n msg [(strValue msg ''tenant_id'', strValue msg ''schema'', Itoa n)] acked"
| failed: "acked = [] \<or> acked = [xmId msg] \<Longrightarrow> n < maxJobRetries \<Longrightarrow>
    jobStep n msg [(strValue msg ''tenant_id'', strValue msg ''schema'', Itoa (n + 1))] acked"

inductive_simps jobStep_simps: "jobStep n msg added acked"

definition addsStep :: "'w \<Rightarrow> 'w \<Rightarrow> ('w \<Rightarrow> (string \<times> string \<times> string) list) \<Rightarrow> ('w \<Rightarrow> string list) \<Rightarrow> XMessage \<Rightarrow> bool" where
  "addsStep w w' jobs acks msg \<longleftrightarrow>
     (\<exists>added acked. jobs w' = jobs w @ added \<and> acks w' = acks w @ acked \<and> jobStep (jobAttempt msg) msg added acked)"

lemma streamD:
  assumes "streamLaws C R jobs acks"
  shows "jobs (XAck R i w) = jobs w" "acks (XAck R i w) = acks w \<or> acks (XAck R i w) = acks w @ [i]"
    "jobs (XAdd R j w) = jobs w \<or> jobs (XAdd R j w) = jobs w @ [j]" "acks (XAdd R j w) = acks w"
    "jobs (LogMigration R a b c w) = jobs w" "acks (LogMigration R a b c w) = acks w"
proof -
  have add: "(jobs (XAdd R j w), acks (XAdd R j w)) \<in> {(jobs w @ [j], acks w), (jobs w, acks w)}"
    and ack: "(jobs (XAck R i w), acks (XAck R i w)) \<in> {(jobs w, acks w @ [i]), (jobs w, acks w)}"
    and lg: "(jobs (LogMigration R a b c w), acks (LogMigration R a b c w)) = (jobs w, acks w)"
    using assms unfolding streamLaws_def Let_def sameWorld_def by blast+
  show "jobs (XAck R i w) = jobs w" "acks (XAck R i w) = acks w \<or> acks (XAck R i w) = acks w @ [i]" using ack by auto
  show "jobs (XAdd R j w) = jobs w \<or> jobs (XAdd R j w) = jobs w @ [j]" "acks (XAdd R j w) = acks w" using add by auto
  show "jobs (LogMigration R a b c w) = jobs w" "acks (LogMigration R a b c w) = acks w" using lg by auto
qed

lemma streamViews:
  assumes "streamLaws C R jobs acks"
  defines "v \<equiv> \<lambda>w. (jobs w, acks w)"
  shows "backendLeaves (cBackend C) v" "same v (AcquireConn C)" "v (ReleaseConn C w) = v w" "same v (TryLock C k)"
    "v (Unlock C k w) = v w" "same v (Sleep C d)"
  using assms by (auto simp: streamLaws_def Let_def sameWorld_def)

lemma addsStep_from: "jobs w1 = jobs w \<Longrightarrow> acks w1 = acks w \<Longrightarrow> addsStep w1 w' jobs acks msg \<Longrightarrow> addsStep w w' jobs acks msg"
  by (simp add: addsStep_def)

lemma addsStep_to: "addsStep w w1 jobs acks msg \<Longrightarrow> jobs w' = jobs w1 \<Longrightarrow> acks w' = acks w1 \<Longrightarrow> addsStep w w' jobs acks msg"
  by (simp add: addsStep_def)

lemma addsStep_quiet: "jobs w' = jobs w \<Longrightarrow> acks w' = acks w \<or> acks w' = acks w @ [xmId msg] \<Longrightarrow> addsStep w w' jobs acks msg"
  by (auto simp: addsStep_def jobStep_simps)

lemma requeue_step:
  assumes "streamLaws C R jobs acks" "m = jobAttempt msg \<or> (m = jobAttempt msg + 1 \<and> jobAttempt msg < maxJobRetries)"
  shows "addsStep w (requeue C R msg d m w) jobs acks msg"
proof -
  let ?job = "(strValue msg ''tenant_id'', strValue msg ''schema'', Itoa m)"
  obtain r w1 where s: "Sleep C d w = (r, w1)" by fastforce
  then have v: "jobs w1 = jobs w" "acks w1 = acks w" using sameD [OF streamViews(6) [OF assms(1)]] by auto
  show ?thesis
  proof (cases r)
    case None
    then have "requeue C R msg d m w = XAck R (xmId msg) (XAdd R ?job w1)" by (simp add: requeue_def s)
    then show ?thesis
      using v assms(2) streamD(1,2) [OF assms(1), of "xmId msg" "XAdd R ?job w1"] streamD(3,4) [OF assms(1), of ?job w1]
      by (auto simp: addsStep_def jobStep_simps)
  next
    case (Some err)
    then have "requeue C R msg d m w = XAck R (xmId msg) w1" by (simp add: requeue_def s)
    then show ?thesis using v streamD(1,2) [OF assms(1), of "xmId msg" w1] by (intro addsStep_quiet) auto
  qed
qed

lemma finishJob_step:
  assumes "streamLaws C R jobs acks"
  shows "addsStep w (finishJob C R wk msg r w) jobs acks msg"
proof (cases "\<exists>err. r = Some err \<and> jobAttempt msg < maxJobRetries")
  case True
  then have "finishJob C R wk msg r w = requeue C R msg (retryDelay wk (jobAttempt msg)) (jobAttempt msg + 1) w"
    by (auto simp: finishJob_def Let_def)
  then show ?thesis using requeue_step [OF assms] True by auto
next
  case False
  have inv: "jobs (case InvalidateCache R of None \<Rightarrow> w | Some f \<Rightarrow> f i w) = jobs w \<and>
             acks (case InvalidateCache R of None \<Rightarrow> w | Some f \<Rightarrow> f i w) = acks w" for i w
    using assms by (auto simp: streamLaws_def Let_def sameWorld_def split: option.splits)
  show ?thesis
    using False inv streamD [OF assms] by (intro addsStep_quiet) (auto simp: finishJob_def Let_def split: option.splits)
qed

lemma process_total:
  assumes "catalogueOk (cBackend C)"
  shows "\<exists>w'. process std C R wk msg w = Some w'"
proof -
  have "\<exists>r w'. ApplyTenantMigration std (cBackend C) pg s w = Some (r, w')" for pg s w
    using applyMigration_total [OF assms, of std pg s "[]" False w] by (auto simp: ApplyTenantMigration_def)
  then show ?thesis by (fastforce simp: process_def Let_def split: sum.splits prod.splits option.splits)
qed

lemma process_step:
  assumes "streamLaws C R jobs acks" "process std C R wk msg w = Some w'"
  shows "addsStep w w' jobs acks msg"
proof -
  let ?v = "\<lambda>w. (jobs w, acks w)" and ?key = "tenantLockKey (''tenant_'' @ strValue msg ''tenant_id'')"
  note laws = streamViews [OF assms(1)]
  obtain r1 w1 where 1: "AcquireConn C w = (r1, w1)" by fastforce
  obtain r2 w2 where 2: "TryLock C ?key w1 = (r2, w2)" by fastforce
  have v: "jobs w1 = jobs w" "acks w1 = acks w" "jobs w2 = jobs w" "acks w2 = acks w" "jobs (ReleaseConn C x) = jobs x"
    "acks (ReleaseConn C x) = acks x" for x
    using sameD [OF laws(2) 1] sameD [OF laws(4) 2] laws(3) [of x] by auto
  consider (bad) "w' = XAck R (xmId msg) w" | (conn) "w' = w1" | (query) "w' = ReleaseConn C w2"
    | (locked) "w' = requeue C R msg (LockRetryDelay wk) (jobAttempt msg) (ReleaseConn C w2)"
    | (ran) s r w3 where "ApplyTenantMigration std (cBackend C) (''tenant_'' @ strValue msg ''tenant_id'') s w2 = Some (r, w3)"
        "w' = ReleaseConn C (Unlock C ?key (finishJob C R wk msg r w3))"
    using assms(2) 1 2 by (auto simp: process_def Let_def split: sum.splits option.splits if_splits)
  then show ?thesis
  proof cases
    case bad
    then show ?thesis using streamD(1,2) [OF assms(1)] by (intro addsStep_quiet) auto
  next
    case locked
    then show ?thesis
      using addsStep_from [OF _ _ requeue_step [OF assms(1)], of "ReleaseConn C w2" w] v by auto
  next
    case ran
    have "?v w3 = ?v w2"
      using ran(1) applyMigration_same [OF laws(1)] by (auto simp: ApplyTenantMigration_def)
    then have "addsStep w (finishJob C R wk msg r w3) jobs acks msg"
      using addsStep_from [OF _ _ finishJob_step [OF assms(1)], of w3 w] v by auto
    then show ?thesis using addsStep_to [of w _ jobs acks msg w'] ran(2) v(5,6) laws(5) [of ?key] by auto
  qed (use v in \<open>auto intro: addsStep_quiet\<close>)
qed

text \<open>C36: handling a job always ends and gives up in the end: whatever the database and the stream answer, the
  handler returns; it acknowledges the message at most once and adds at most one entry, for the same
  tenant and schema.  A job met under a peer's lock goes back with its retry count unchanged, a failed
  one with the count plus one and only below three, so no entry carries a count above three.\<close>

theorem jobs_are_retried_boundedly:
  assumes "streamLaws C R jobs acks" "catalogueOk (cBackend C)" "0 \<le> jobAttempt msg" "jobAttempt msg \<le> maxJobRetries"
  shows "\<exists>w' added acked. process std C R wk msg w = Some w' \<and> jobs w' = jobs w @ added \<and> acks w' = acks w @ acked \<and>
           jobStep (jobAttempt msg) msg added acked \<and> (\<forall>(_, _, n)\<in>set added. atoiValue n \<le> maxJobRetries)"
proof -
  obtain w' where p: "process std C R wk msg w = Some w'" using process_total [OF assms(2)] by blast
  then obtain added acked where step: "jobs w' = jobs w @ added" "acks w' = acks w @ acked" "jobStep (jobAttempt msg) msg added acked"
    using process_step [OF assms(1)] unfolding addsStep_def by blast
  have "atoiValue (Itoa n) = n" if "0 \<le> n" "n \<le> 3" for n
    using that Atoi_Itoa [of n] by (simp add: atoiValue_def in_int64_def)
  then have "\<forall>(_, _, n)\<in>set added. atoiValue n \<le> maxJobRetries"
    using step(3) assms(3,4) by (auto simp: jobStep_simps maxJobRetries_def)
  then show ?thesis using p step by blast
qed

section \<open>A stream in memory\<close>

text \<open>The world is the stream, the acknowledged messages and the migration log; \<open>live\<close> is what the catalogue shows.\<close>

type_synonym exQ = "(string \<times> string \<times> string) list \<times> string list \<times> (string \<times> string) list"

definition exQPool :: "exQ Pool" where
  "exQPool = \<lparr>Begin = Pair None, TxExec = (\<lambda>_. Pair None), Commit = Pair None, Rollback = id, Acquire = Pair None,
     ConnExec = (\<lambda>_. Pair None), Release = id, Wait = (\<lambda>_. Pair None)\<rparr>"

definition exQBackend :: "goError + Schema \<Rightarrow> exQ Backend" where
  "exQBackend live = \<lparr>bPool = exQPool, EnsureMetaTable = (\<lambda>_. Pair None), PoolExec = (\<lambda>_. Pair None),
     Introspect = (\<lambda>_. Pair live), TenantDoc = (\<lambda>_. Pair None), HistoryDocs = (\<lambda>_. Pair []),
     QueryCount = (\<lambda>_. Pair (Inr 0)), QueryPairs = (\<lambda>_. Pair (Inr [])), ErrorText = (\<lambda>_. ''error''), Sanitize = concat\<rparr>"

definition exQControl :: "goError + Schema \<Rightarrow> exQ Control" where
  "exQControl live = \<lparr>cBackend = exQBackend live, ListTenants = (\<lambda>_. Pair (Inr [])), AcquireConn = Pair None, ReleaseConn = id,
     TryLock = (\<lambda>_. Pair (Inr True)), Unlock = (\<lambda>_. id), Sleep = (\<lambda>_. Pair None), MarshalSchema = (\<lambda>_. Inr []),
     EnsureSeeded = (\<lambda>_. id), SaveSchema = (\<lambda>_ _. Pair None), AppendHistory = (\<lambda>_ _ _ _. id), InsertLog = (\<lambda>_ _ _ _. id),
     Millis = Pair 0\<rparr>"

definition exStream :: "APISchema \<Rightarrow> exQ Stream" where
  "exStream s = \<lparr>XAdd = (\<lambda>j (q, a, l). (q @ [j], a, l)), XAck = (\<lambda>i (q, a, l). (q, a @ [i], l)), DecodeSchema = (\<lambda>_. Inr s),
     InvalidateCache = None, LogMigration = (\<lambda>i st e (q, a, l). (q, a, l @ [(i, st)]))\<rparr>"

definition exMessage :: XMessage where
  "exMessage = \<lparr>xmId = ''1-0'', xmValues = [(''tenant_id'', GStr []), (''schema'', GStr ''doc''), (''retry_count'', GStr ''2'')]\<rparr>"

definition exWorker :: MigrationWorker where
  "exWorker = \<lparr>wkBackoffBase = 1, LockRetryDelay = 2\<rparr>"

lemma exStream_laws: "streamLaws (exQControl live) (exStream s) fst (fst \<circ> snd)"
  by (simp add: streamLaws_def exQControl_def exQBackend_def exQPool_def backendLeaves_def poolLeaves_def Let_def
      same_def sameWorld_def exStream_def case_prod_beta)

text \<open>With an unreadable catalogue every migration fails: the third attempt is re-enqueued as the fourth.\<close>

lemma exDown_catalogue: "catalogueOk (cBackend (exQControl (Inl e)))"
  by (simp add: catalogueOk_def exQControl_def exQBackend_def)

theorem jobs_are_retried_boundedly_witness:
  "\<exists>q a l. process exStd (exQControl (Inl (PlainError ''down''))) (exStream exApi) exWorker exMessage ([], [], []) = Some (q, a, l) \<and>
     q = [([], ''doc'', ''3'')] \<and> jobStep 2 exMessage q a \<and> list_all (\<lambda>(_, _, n). atoiValue n \<le> 3) q"
proof -
  let ?run = "process exStd (exQControl (Inl (PlainError ''down''))) (exStream exApi) exWorker exMessage ([], [], [])"
  have "?run = Some ([([], ''doc'', ''3'')], [''1-0''], [])"
    by (simp add: process_def exQControl_def exStream_def exMessage_def strValue_def)
       (simp add: ApplyTenantMigration_def applyMigration_plain [OF exApi_plain] diffTenant_def exQBackend_def finishJob_def
         jobAttempt_def atoiValue_def strValue_def requeue_def Let_def maxJobRetries_def, code_simp)
  moreover have "jobAttempt exMessage = 2" by code_simp
  ultimately show ?thesis
    using jobs_are_retried_boundedly [OF exStream_laws exDown_catalogue, of exMessage exStd "PlainError ''down''" exApi exWorker "([], [], [])"]
    by (auto simp: maxJobRetries_def)
qed

section \<open>Partial migrations\<close>

text \<open>A resource renamed while a table of the new name already exists: the rename cannot run.\<close>

definition exRenamed :: APISchema where
  "exRenamed = exApi\<lparr>asResources := [(''people'', (zeroResource [(''name'', zeroField ''string'')])\<lparr>rsRenamedFrom := ''persons''\<rparr>)]\<rparr>"

definition exBothNames :: Schema where
  "exBothNames = (let d = buildDesiredSchema exStd ''t'' exRenamed
                  in d\<lparr>Tables := Tables d @ [(''persons'', exTable ''persons'' [exColumn ''id'' [] ''uuid''] [])]\<rparr>)"

text \<open>The worker can report success over a divergence: the migration is partial, the schema declares a
  rename that was not done, and yet the additive entry point returns no error and the worker logs the
  job as ok.\<close>

theorem worker_logs_partial_as_ok:
  "(case applyMigration exStd (exQBackend (Inr exBothNames)) ''tenant_'' exRenamed [] False ([], [], []) of
      Some (Inr out, _) \<Rightarrow> Partial (Some out) | _ \<Rightarrow> False) \<and>
   map_option (\<lambda>(q, a, l). l) (process exStd (exQControl (Inr exBothNames)) (exStream exRenamed) exWorker exMessage ([], [], []))
     = Some [([], ''ok'')]"
  by (rule conjI) code_simp+

end
