(* ===== verification/WriteRules.thy ===== *)
theory WriteRules
  imports Values
begin

text \<open>
  What a write body must satisfy: the compiled rules of \<open>pkg/schema/rules.go\<close>, the JSON columns of
  \<open>pkg/schema/jsonvalue.go\<close>, the type check of \<open>pkg/codegen/create_types.go\<close> and \<open>builder.go\<close>, and the two
  preparations of \<open>pkg/codegen/write_core.go\<close>.  A body is a Go map; a function that changes it in place
  returns it.  Go iterates over a map in any order and then sorts the errors by field; here the keys are
  visited in sorted order.  Byte slices are not values of the model, and a validator is always given: every
  caller compiles one.
\<close>

section \<open>Compiled rules\<close>

type_synonym ruleFn = "goany \<Rightarrow> FieldRuleError option"

definition MaxPatternLength :: nat where
  "MaxPatternLength = 200"

definition FormatTimezone :: string where
  "FormatTimezone = ''timezone''"

definition ruleError :: "string \<Rightarrow> string \<Rightarrow> string \<Rightarrow> FieldRuleError" where
  "ruleError field rule msg = \<lparr>freField = field, freRule = rule, freMessage = msg\<rparr>"

record compiledSM =
  smInitial :: "string list"
  smKnown :: "string list"

record defaultSpec =
  literal :: goany
  dynamicNow :: bool

record ResourceValidator =
  rvRequired :: "string list"
  rvRules :: "ruleFn list gomap"
  rvDefaults :: "defaultSpec gomap"
  rvStates :: "compiledSM gomap"
  rvRanges :: "RangeDef gomap"

definition emailRe :: string where
  "emailRe = ''^[a-zA-Z0-9.!#$%&'' @ [CHR 0x27] @ ''*+/=?^_'' @ [CHR 0x60] @ ''{|}~-]+@[a-zA-Z0-9](?:[a-zA-Z0-9-]{0,61}[a-zA-Z0-9])?'' @
     ''(?:'' @ [CHR 0x5C] @ ''.[a-zA-Z0-9](?:[a-zA-Z0-9-]{0,61}[a-zA-Z0-9])?)+$''"

definition formatChecker :: "Std \<Rightarrow> string \<Rightarrow> ((string \<Rightarrow> bool) \<times> string) option" where
  "formatChecker std format =
     (if format = ''email'' then Some (reMatch std emailRe, ''must be a valid email'')
      else if format = ''uuid'' then Some (uuidOk std, ''must be a valid UUID'')
      else if format = FormatTimezone
      then Some (ValidateTimezoneName std, ''must be an IANA time zone name such as America/Bogota (never a fixed offset)'')
      else if format = ''url'' then Some (urlOk std, ''must be a valid http(s) URL'')
      else if format = ''date''
      then Some (\<lambda>s. timeParse std ''2006-01-02T15:04:05Z07:00'' s \<noteq> None \<or> timeParse std ''2006-01-02'' s \<noteq> None,
                 ''must be an ISO-8601 date (YYYY-MM-DD or RFC 3339)'')
      else None)"

definition strRule :: "string \<Rightarrow> string \<Rightarrow> string \<Rightarrow> (string \<Rightarrow> bool) \<Rightarrow> ruleFn" where
  "strRule field rule msg ok v =
     (case v of
        GStr s \<Rightarrow> if ok s then None else Some (ruleError field rule msg)
      | _ \<Rightarrow> Some (ruleError field rule ''must be a string''))"

definition numRule :: "string \<Rightarrow> string \<Rightarrow> string \<Rightarrow> (rat \<Rightarrow> bool) \<Rightarrow> ruleFn" where
  "numRule field rule msg ok v =
     (case AsFloat64 v of
        Some f \<Rightarrow> if ok f then None else Some (ruleError field rule msg)
      | None \<Rightarrow> Some (ruleError field rule ''must be a number''))"

definition enumRule :: "string \<Rightarrow> string list \<Rightarrow> ruleFn" where
  "enumRule field allowed v =
     (case v of
        GStr s \<Rightarrow> if s \<in> set allowed then None else Some (ruleError field ''enum'' (''must be one of: '' @ join_with '', '' allowed))
      | _ \<Rightarrow> Some (ruleError field ''enum'' (''must be one of: '' @ join_with '', '' allowed)))"

text \<open>A pattern that does not compile, or is too long, rejects every value.\<close>

definition patternRule :: "Std \<Rightarrow> string \<Rightarrow> string \<Rightarrow> ruleFn" where
  "patternRule std field pat =
     (if \<not> reCompiles std pat \<or> length pat > MaxPatternLength
      then (\<lambda>_. Some (ruleError field ''pattern'' ''schema declares an invalid pattern for this field''))
      else strRule field ''pattern'' (''must match pattern '' @ pat) (reMatch std pat))"

definition isStringType :: "string \<Rightarrow> bool" where
  "isStringType ty \<longleftrightarrow> ty = ''string'' \<or> ty = ''text''"

definition isNumberType :: "string \<Rightarrow> bool" where
  "isNumberType ty \<longleftrightarrow> ty = ''int'' \<or> ty = ''int64'' \<or> ty = ''float64''"

definition opt :: "'a option \<Rightarrow> ('a \<Rightarrow> 'b) \<Rightarrow> 'b list" where
  "opt x f = (case x of None \<Rightarrow> [] | Some a \<Rightarrow> [f a])"

definition fieldRules :: "Std \<Rightarrow> string \<Rightarrow> FieldDef \<Rightarrow> ruleFn list" where
  "fieldRules std name fd =
     (if Enum fd \<noteq> [] then [enumRule name (Enum fd)] else []) @
     (if isStringType (fType fd)
      then opt (MinLength fd) (\<lambda>m. strRule name ''minLength'' (''must be at least '' @ Itoa m @ '' characters'') (\<lambda>s. runeCount std s \<ge> m)) @
           opt (MaxLength fd) (\<lambda>m. strRule name ''maxLength'' (''must be at most '' @ Itoa m @ '' characters'') (\<lambda>s. runeCount std s \<le> m)) @
           (if Pattern fd \<noteq> [] then [patternRule std name (Pattern fd)] else []) @
           (if Format fd \<noteq> [] then opt (formatChecker std (Format fd)) (\<lambda>(check, msg). strRule name ''format'' msg check) else [])
      else []) @
     (if isNumberType (fType fd)
      then opt (fMin fd) (\<lambda>m. numRule name ''min'' (''must be >= '' @ fmtV std (GFloat m)) (\<lambda>f. f \<ge> m)) @
           opt (fMax fd) (\<lambda>m. numRule name ''max'' (''must be <= '' @ fmtV std (GFloat m)) (\<lambda>f. f \<le> m))
      else [])"

definition isNowDefault :: "goany \<Rightarrow> bool" where
  "isNowDefault v = (case v of GStr s \<Rightarrow> ToLower s = ''now'' | _ \<Rightarrow> False)"

text \<open>One entry per field for which \<open>f\<close> gives one, in the order of the names.\<close>

definition eachField :: "(string \<Rightarrow> FieldDef \<Rightarrow> 'a option) \<Rightarrow> ResourceSchema \<Rightarrow> 'a gomap" where
  "eachField f res =
     concat (map (\<lambda>n. case gm_get (Fields res) n of
                        None \<Rightarrow> []
                      | Some fd \<Rightarrow> (case f n fd of None \<Rightarrow> [] | Some x \<Rightarrow> [(n, x)])) (sortedKeys (Fields res)))"

definition CompileRules :: "Std \<Rightarrow> ResourceSchema \<Rightarrow> ResourceValidator" where
  "CompileRules std res =
     \<lparr>rvRequired = map fst (eachField (\<lambda>_ fd. if Required fd \<and> \<not> Enabled (Auto fd) then Some () else None) res),
      rvRules = eachField (\<lambda>n fd. if fieldRules std n fd = [] then None else Some (fieldRules std n fd)) res,
      rvDefaults =
        eachField (\<lambda>_ fd. if fDefault fd \<noteq> GNil \<and> \<not> Enabled (Auto fd)
                          then Some (if fType fd = ''time'' \<and> isNowDefault (fDefault fd)
                                     then \<lparr>literal = GNil, dynamicNow = True\<rparr>
                                     else \<lparr>literal = fDefault fd, dynamicNow = False\<rparr>)
                          else None) res,
      rvStates =
        eachField (\<lambda>_ fd. map_option (\<lambda>sm. \<lparr>smInitial = Initial sm, smKnown = KnownStates sm\<rparr>) (fStateMachine fd)) res,
      rvRanges = Ranges res\<rparr>"

text \<open>\<open>now\<close> is the instant of the call.\<close>

definition applyDefault :: "string \<Rightarrow> string \<times> defaultSpec \<Rightarrow> goany gomap \<Rightarrow> goany gomap" where
  "applyDefault now nd body =
     (case nd of (name, ds) \<Rightarrow>
        if gm_has body name then body
        else gm_put name (if dynamicNow ds then GTime now else literal ds) body)"

definition ApplyDefaults :: "string \<Rightarrow> ResourceValidator \<Rightarrow> goany gomap \<Rightarrow> goany gomap" where
  "ApplyDefaults now rv body = fold (applyDefault now) (rvDefaults rv) body"

definition stateField :: "(string \<Rightarrow> compiledSM \<Rightarrow> goany \<Rightarrow> FieldRuleError list) \<Rightarrow> ResourceValidator \<Rightarrow> goany gomap \<Rightarrow> FieldRuleError list" where
  "stateField f rv body =
     concat (map (\<lambda>n. case (gm_get (rvStates rv) n, gm_get body n) of
                        (Some sm, Some v) \<Rightarrow> if v = GNil then [] else f n sm v
                      | _ \<Rightarrow> []) (sortedKeys (rvStates rv)))"

definition checkKnownStates :: "ResourceValidator \<Rightarrow> goany gomap \<Rightarrow> FieldRuleError list" where
  "checkKnownStates rv body =
     stateField (\<lambda>n sm v. case v of
         GStr s \<Rightarrow> if s \<in> set (smKnown sm) then [] else [ruleError n ''state'' (''unknown state '' @ goq s)]
       | _ \<Rightarrow> [ruleError n ''state'' ''must be a string'']) rv body"

definition ValidateInitialStates :: "ResourceValidator \<Rightarrow> goany gomap \<Rightarrow> FieldRuleError list" where
  "ValidateInitialStates rv body =
     stateField (\<lambda>n sm v. case v of
         GStr s \<Rightarrow> if s \<in> set (smKnown sm) \<and> s \<notin> set (smInitial sm)
                   then [ruleError n ''state'' (''cannot be created in state '' @ goq s @ '' (must be an initial state)'')] else []
       | _ \<Rightarrow> []) rv body"

definition missing :: "goany gomap \<Rightarrow> string \<Rightarrow> bool" where
  "missing body f \<longleftrightarrow> (case gm_get body f of None \<Rightarrow> True | Some v \<Rightarrow> v = GNil)"

definition ruleErrors :: "ResourceValidator \<Rightarrow> goany gomap \<Rightarrow> FieldRuleError list" where
  "ruleErrors rv body =
     concat (map (\<lambda>k. case (gm_get (rvRules rv) k, gm_get body k) of
                        (Some rules, Some v) \<Rightarrow>
                          if v = GNil then [] else concat (map (\<lambda>rule. case rule v of None \<Rightarrow> [] | Some e \<Rightarrow> [e]) rules)
                      | _ \<Rightarrow> []) (sortedKeys body))"

definition ValidateWrite :: "Std \<Rightarrow> ResourceValidator \<Rightarrow> goany gomap \<Rightarrow> bool \<Rightarrow> FieldRuleError list" where
  "ValidateWrite std rv body requireAll =
     (if requireAll then map (\<lambda>f. ruleError f ''required'' ''is required'') (filter (missing body) (rvRequired rv)) else []) @
     ruleErrors rv body @
     checkKnownStates rv body @
     RangeOrderViolations std ((zeroResource [])\<lparr>Ranges := rvRanges rv\<rparr>) body"

section \<open>JSON columns\<close>

definition JSONValueMessage :: string where
  "JSONValueMessage = ''must be a JSON value (object, array, number, boolean, or a string containing valid JSON text '' @ emDash @
     '' a string is read as JSON text, and this one is not valid JSON)''"

definition JSONTextColumns :: "ResourceSchema \<Rightarrow> string list" where
  "JSONTextColumns r = map fst (eachField (\<lambda>_ fd. if fType fd = ''json'' then Some () else None) r)"

definition HasJSONFields :: "ResourceSchema \<Rightarrow> bool" where
  "HasJSONFields r = list_ex (\<lambda>(_, fd). fType fd = ''json'' \<or> fType fd = ''jsonb'') (Fields r)"

definition CanonicalJSONText :: "Std \<Rightarrow> goany \<Rightarrow> string option" where
  "CanonicalJSONText std v =
     (case v of
        GStr x \<Rightarrow> if jsonValid std x then Some (jsonCompact std x) else None
      | GRaw x \<Rightarrow> if jsonValid std x then Some (jsonCompact std x) else None
      | _ \<Rightarrow> jsonMarshal std v)"

text \<open>Reading: the stored text of a JSON column becomes the value it is the text of.\<close>

definition PromoteJSONText :: "Std \<Rightarrow> string list \<Rightarrow> goany gomap \<Rightarrow> goany gomap" where
  "PromoteJSONText std cols row =
     map (\<lambda>(c, v). (c, case v of GStr s \<Rightarrow> if c \<in> set cols \<and> jsonValid std s then GRaw s else v | _ \<Rightarrow> v)) row"

definition PromoteJSONTextRows :: "Std \<Rightarrow> string list \<Rightarrow> goany gomap list \<Rightarrow> goany gomap list" where
  "PromoteJSONTextRows std cols rows = (if cols = [] then rows else map (PromoteJSONText std cols) rows)"

text \<open>One field: the value the column takes, None when it is not a JSON value.\<close>

definition coerceJSON :: "Std \<Rightarrow> ResourceSchema \<Rightarrow> string \<Rightarrow> goany \<Rightarrow> goany option" where
  "coerceJSON std res name v =
     (if v = GNil then Some v
      else case gm_get (Fields res) name of
             None \<Rightarrow> Some v
           | Some fd \<Rightarrow>
               if fType fd = ''json'' then map_option GStr (CanonicalJSONText std v)
               else if fType fd = ''jsonb''
               then (case v of GStr s \<Rightarrow> if jsonValid std s then Some v else None | _ \<Rightarrow> Some v)
               else Some v)"

definition CoerceJSONFields :: "Std \<Rightarrow> ResourceSchema \<Rightarrow> goany gomap \<Rightarrow> FieldRuleError list \<times> goany gomap" where
  "CoerceJSONFields std res body =
     (concat (map (\<lambda>n. case gm_get body n of
                          Some v \<Rightarrow> if coerceJSON std res n v = None
                                    then [ruleError n ''type'' (''field '' @ goq n @ '' '' @ JSONValueMessage)] else []
                        | None \<Rightarrow> []) (sortedKeys body)),
      map (\<lambda>(n, v). (n, case coerceJSON std res n v of Some v' \<Rightarrow> v' | None \<Rightarrow> v)) body)"

section \<open>Types of values\<close>

definition mustBe :: "string \<Rightarrow> string \<Rightarrow> string" where
  "mustBe name what = ''field '' @ goq name @ '' must be '' @ what"

definition isStr :: "goany \<Rightarrow> bool" where
  "isStr v = (case v of GStr _ \<Rightarrow> True | _ \<Rightarrow> False)"

definition isUuid :: "Std \<Rightarrow> goany \<Rightarrow> bool" where
  "isUuid std v = (case v of GStr s \<Rightarrow> uuidOk std s | _ \<Rightarrow> False)"

text \<open>None is a valid value, Some its message.\<close>

definition validateFieldValue :: "Std \<Rightarrow> string \<Rightarrow> FieldDef \<Rightarrow> goany \<Rightarrow> string option" where
  "validateFieldValue std name fd v =
     (if Enum fd \<noteq> []
      then (case v of
              GStr s \<Rightarrow> if s \<in> set (Enum fd) then None else Some (''field '' @ goq name @ '': invalid enum value'')
            | _ \<Rightarrow> Some (mustBe name ''one of the allowed values''))
      else if isStringType (fType fd) then (if isStr v then None else Some (mustBe name ''a string''))
      else if fType fd = ''uuid'' then (if isUuid std v then None else Some (mustBe name ''a uuid''))
      else if fType fd = ''file'' then (if isUuid std v then None else Some (mustBe name ''a file id (a uuid)''))
      else if fType fd = ''int'' \<or> fType fd = ''int64''
      then (if AsFloat64 v = None \<or> \<not> IsIntegral v then Some (mustBe name ''an integer'') else None)
      else if fType fd = ''float64'' then (if AsFloat64 v = None then Some (mustBe name ''a number'') else None)
      else if fType fd = ''bool'' then (case v of GBool _ \<Rightarrow> None | _ \<Rightarrow> Some (mustBe name ''a boolean''))
      else if fType fd = ''time'' then (if isStr v then None else Some (mustBe name ''a timestamp string''))
      else None)"

definition fromJSONBody :: "goany \<Rightarrow> bool" where
  "fromJSONBody v = (case v of GTime _ \<Rightarrow> False | GRaw _ \<Rightarrow> False | GInt _ \<Rightarrow> AsFloat64 v \<noteq> None | _ \<Rightarrow> True)"

definition validateCreateTypes :: "Std \<Rightarrow> ResourceSchema \<Rightarrow> goany gomap \<Rightarrow> FieldRuleError list" where
  "validateCreateTypes std res body =
     concat (map (\<lambda>k. case (gm_get (Fields res) k, gm_get body k) of
                        (Some fd, Some v) \<Rightarrow>
                          if v = GNil \<or> \<not> fromJSONBody v \<or> isStr v then []
                          else (case validateFieldValue std k fd v of None \<Rightarrow> [] | Some msg \<Rightarrow> [ruleError k ''type'' msg])
                      | _ \<Rightarrow> []) (sortedKeys body))"

section \<open>Preparing a body\<close>

definition StateFieldNullViolations :: "ResourceSchema \<Rightarrow> goany gomap \<Rightarrow> bool \<Rightarrow> FieldRuleError list" where
  "StateFieldNullViolations res body put =
     map snd (eachField (\<lambda>name fd.
       if fStateMachine fd = None then None
       else case gm_get body name of
              Some v \<Rightarrow> if v = GNil \<and> \<not> Required fd
                        then Some (ruleError name ''state'' (''field '' @ goq name @ '' is a state-machine field and cannot be null: a row is always in a declared state''))
                        else None
            | None \<Rightarrow> if put
                      then Some (ruleError name ''state'' (''field '' @ goq name @ '' is a state-machine field and must be present on a full replacement (PUT): re-send its current value, or use PATCH''))
                      else None) res)"

definition PrepareCreate :: "Std \<Rightarrow> string \<Rightarrow> ResourceSchema \<Rightarrow> ResourceValidator \<Rightarrow> goany gomap \<Rightarrow> string \<Rightarrow> FieldRuleError list \<times> goany gomap" where
  "PrepareCreate std now res rv body role =
     (let body1 = ApplyDefaults now rv body;
          (jsonErrs, body2) = CoerceJSONFields std res body1;
          errs = GovernedFieldViolations res body1 GovernedCreate role @ ValidateWrite std rv body1 True @
                 validateCreateTypes std res body1 @ jsonErrs
      in if errs \<noteq> [] then (errs, body2) else (ValidateInitialStates rv body2, body2))"

definition PrepareUpdate :: "Std \<Rightarrow> ResourceSchema \<Rightarrow> ResourceValidator \<Rightarrow> goany gomap \<Rightarrow> FieldRuleError list \<times> goany gomap" where
  "PrepareUpdate std res rv body =
     (let (jsonErrs, body1) = CoerceJSONFields std res body
      in (GovernedFieldViolations res body GovernedUpdate [] @ ValidateWrite std rv body False @
          validateCreateTypes std res body @ jsonErrs @ StateFieldNullViolations res body1 False, body1))"

end
