(* ===== verification/DbErrors.thy ===== *)
theory DbErrors
  imports Values
begin

text \<open>
  Database errors and what a client is told of them: the SQLSTATE predicates of \<open>pkg/db/tenant.go\<close>, the one
  classifier of \<open>pkg/handlers/errors.go\<close> with its range branch (\<open>rangeconflict.go\<close>), and its REST rendering.
  \<open>unav\<close> and \<open>brk\<close> tell, by its text, an error of the transport, a deadline or the breaker from others, and
  the breaker's refusals among those.  The errors a describer has enriched with the colliding rows are left out.
\<close>

section \<open>Submatches\<close>

definition splits :: "string \<Rightarrow> string \<Rightarrow> (string \<times> string) list" where
  "splits sub s = map (\<lambda>i. (take i s, drop (i + length sub) s)) (filter (\<lambda>i. HasPrefix (drop i s) sub) [0..<Suc (length s)])"

text \<open>The group of the expression \<open>pre([^stop]+)post\<close>, where \<open>post\<close> begins with \<open>stop\<close>.\<close>

definition runBefore :: "char \<Rightarrow> string \<Rightarrow> string \<Rightarrow> string option" where
  "runBefore stop post s =
     (let run = takeWhile (\<lambda>c. c \<noteq> stop) s
      in if run \<noteq> [] \<and> HasPrefix (drop (length run) s) post then Some run else None)"

definition submatch :: "string \<Rightarrow> char \<Rightarrow> string \<Rightarrow> string \<Rightarrow> string option" where
  "submatch pre stop post s = firstSome (\<lambda>(_, rest). runBefore stop post rest) (splits pre s)"

definition quotedAfter :: "string \<Rightarrow> string \<Rightarrow> string option" where
  "quotedAfter pre s = submatch (pre @ [CHR 0x22]) (CHR 0x22) [CHR 0x22] s"

text \<open>The two groups of \<open>conflicts with existing key \((.+)\)=\((.+)\)\.?$\<close>.\<close>

definition oneLine :: "string \<Rightarrow> bool" where
  "oneLine s \<longleftrightarrow> s \<noteq> [] \<and> CHR 0x0A \<notin> set s"

definition keyEnd :: "string \<Rightarrow> string option" where
  "keyEnd s =
     (let v = (if HasSuffix s '').'' then TrimSuffix s '').'' else if HasSuffix s '')'' then TrimSuffix s '')'' else [])
      in if oneLine v then Some v else None)"

definition existingKey :: "string \<Rightarrow> (string \<times> string) option" where
  "existingKey s =
     firstSome (\<lambda>(_, rest).
       firstSome (\<lambda>(cols, vals). case keyEnd vals of Some v \<Rightarrow> if oneLine cols then Some (cols, v) else None | None \<Rightarrow> None)
         (rev (splits '')=('' rest)))
       (splits ''conflicts with existing key ('' s)"

section \<open>Predicates on an error\<close>

text \<open>\<open>errors.As\<close> for a \<open>pgconn.PgError\<close>, and the innermost error otherwise.\<close>

fun asPgError :: "goError \<Rightarrow> pgErr option" where
  "asPgError (PgError e) = Some e"
| "asPgError (WrapError _ err) = asPgError err"
| "asPgError (PlainError _) = None"

fun leafText :: "goError \<Rightarrow> string" where
  "leafText (PgError e) = []"
| "leafText (WrapError _ err) = leafText err"
| "leafText (PlainError msg) = msg"

definition pgCode :: "goError \<Rightarrow> string option" where
  "pgCode err = map_option peCode (asPgError err)"

definition IsMissingTenant :: "goError \<Rightarrow> bool" where
  "IsMissingTenant err = (case pgCode err of Some c \<Rightarrow> c = ''42P01'' \<or> c = ''3F000'' | None \<Rightarrow> False)"

definition badInputCode :: "string \<Rightarrow> bool" where
  "badInputCode code \<longleftrightarrow> code \<in> {''22P02'', ''22007'', ''22008'', ''22003''}"

definition IsBadInput :: "goError \<Rightarrow> bool" where
  "IsBadInput err = (case pgCode err of Some c \<Rightarrow> badInputCode c | None \<Rightarrow> False)"

definition isUnavailableCause :: "(string \<Rightarrow> bool) \<Rightarrow> goError \<Rightarrow> bool" where
  "isUnavailableCause unav err =
     (case pgCode err of
        Some c \<Rightarrow> HasPrefix c ''08'' \<or> HasPrefix c ''53'' \<or> c = ''57P01'' \<or> c = ''57P02'' \<or> c = ''57P03''
      | None \<Rightarrow> unav (leafText err))"

text \<open>The sentinel \<open>ErrUnavailable\<close> is the prefix it wraps an error with.\<close>

definition unavailablePrefix :: string where
  "unavailablePrefix = ''database unavailable: ''"

fun isErrUnavailable :: "goError \<Rightarrow> bool" where
  "isErrUnavailable (WrapError pre err) = (pre = unavailablePrefix \<or> isErrUnavailable err)"
| "isErrUnavailable _ = False"

definition IsUnavailable :: "(string \<Rightarrow> bool) \<Rightarrow> goError \<Rightarrow> bool" where
  "IsUnavailable unav err \<longleftrightarrow> isErrUnavailable err \<or> isUnavailableCause unav err"

definition classifyErr :: "(string \<Rightarrow> bool) \<Rightarrow> goError \<Rightarrow> goError" where
  "classifyErr unav err = (if isUnavailableCause unav err then WrapError unavailablePrefix err else err)"

definition withCode :: "string \<Rightarrow> (pgErr \<Rightarrow> 'a option) \<Rightarrow> goError \<Rightarrow> 'a option" where
  "withCode code f err = (case asPgError err of Some e \<Rightarrow> if peCode e = code then f e else None | None \<Rightarrow> None)"

definition UniqueViolationField :: "goError \<Rightarrow> string option" where
  "UniqueViolationField =
     withCode ''23505'' (\<lambda>e. case submatch ''Key ('' (CHR '')'') '')='' (peDetail e) of Some f \<Rightarrow> Some f | None \<Rightarrow> Some (peConstraint e))"

definition notPresentTable :: "pgErr \<Rightarrow> string option" where
  "notPresentTable e = quotedAfter ''is not present in table '' (peDetail e)"

definition keyColumns :: "string \<Rightarrow> string option" where
  "keyColumns s = (if HasPrefix s ''Key ('' then runBefore (CHR '')'') '')='' (drop 5 s) else None)"

definition FileReferenceViolation :: "goError \<Rightarrow> string option" where
  "FileReferenceViolation =
     withCode ''23503'' (\<lambda>e. if notPresentTable e \<noteq> Some ''files'' then None
                           else case keyColumns (peDetail e) of Some c \<Rightarrow> Some c | None \<Rightarrow> Some [])"

definition ForeignKeyViolation :: "goError \<Rightarrow> string option" where
  "ForeignKeyViolation =
     withCode ''23503'' (\<lambda>e. case quotedAfter ''is still referenced from table '' (peDetail e) of
          Some t \<Rightarrow> Some (''cannot delete: still referenced by '' @ goq t @ '' record(s)'')
        | None \<Rightarrow> (case notPresentTable e of
              Some t \<Rightarrow> Some (''invalid reference: no matching '' @ goq t @ '' record'')
            | None \<Rightarrow> Some ''referential integrity violation''))"

definition UndefinedColumnField :: "goError \<Rightarrow> string option" where
  "UndefinedColumnField =
     withCode ''42703'' (\<lambda>e. case quotedAfter ''column '' (peMessage e) of Some c \<Rightarrow> Some c | None \<Rightarrow> Some [])"

text \<open>The constraint, and the existing key where the detail shows it (else two empty texts).\<close>

definition ExclusionViolation :: "goError \<Rightarrow> (string \<times> string \<times> string) option" where
  "ExclusionViolation =
     withCode ''23P01'' (\<lambda>e. if \<not> HasPrefix (peConstraint e) ''excl_'' then None
                           else case existingKey (peDetail e) of
                                  Some (cols, vals) \<Rightarrow> Some (peConstraint e, cols, vals)
                                | None \<Rightarrow> Some (peConstraint e, [], []))"

definition RangeOrderViolation :: "goError \<Rightarrow> string option" where
  "RangeOrderViolation =
     withCode ''23514'' (\<lambda>e. if HasPrefix (peConstraint e) ''chk_'' \<and> HasSuffix (peConstraint e) ''_order''
                           then Some (peConstraint e) else None)"

section \<open>Time-range conflicts\<close>

record RangeConflict =
  rcConstraint :: string
  ExistingScope :: "string gomap"
  ExistingStart :: string
  ExistingEnd :: string

text \<open>\<open>splitTopLevel\<close>: the current piece is kept reversed; depth and the quote flag are the loop's variables.\<close>

fun splitTop :: "int \<Rightarrow> bool \<Rightarrow> string \<Rightarrow> string \<Rightarrow> string list" where
  "splitTop depth inQ cur [] = [rev cur]"
| "splitTop depth inQ cur (ch # cs) =
     (if ch = CHR 0x22 then splitTop depth (\<not> inQ) (ch # cur) cs
      else if inQ then splitTop depth inQ (ch # cur) cs
      else if ch = CHR ''('' \<or> ch = CHR ''['' then splitTop (depth + 1) inQ (ch # cur) cs
      else if ch = CHR '')'' \<or> ch = CHR '']'' then splitTop (depth - 1) inQ (ch # cur) cs
      else if ch = CHR '','' \<and> depth = 0 then rev cur # splitTop depth inQ [] cs
      else splitTop depth inQ (ch # cur) cs)"

definition splitTopLevel :: "string \<Rightarrow> string list" where
  "splitTopLevel s = splitTop 0 False [] s"

definition trimQuotes :: "string \<Rightarrow> string" where
  "trimQuotes s = (let t = dropWhile (\<lambda>c. c = CHR 0x22) s in rev (dropWhile (\<lambda>c. c = CHR 0x22) (rev t)))"

definition rangeParts :: "string \<Rightarrow> string list" where
  "rangeParts v = splitTopLevel (TrimSuffix (TrimSuffix (TrimPrefix (TrimPrefix v ''['') ''('') '')'') '']'')"

fun keyPairs :: "(string \<times> string) list \<Rightarrow> string gomap \<Rightarrow> string \<Rightarrow> string \<Rightarrow> (string gomap \<times> string \<times> string) option" where
  "keyPairs [] scope start end' = Some (scope, start, end')"
| "keyPairs ((c, v) # rest) scope start end' =
     (if HasPrefix (TrimSpace c) ''tstzrange(''
      then (case rangeParts (TrimSpace v) of
              [a, b] \<Rightarrow> keyPairs rest scope (trimQuotes (TrimSpace a)) (trimQuotes (TrimSpace b))
            | _ \<Rightarrow> None)
      else keyPairs rest (gm_put (TrimSpace c) (TrimSpace v) scope) start end')"

definition parseExclusionKey :: "string \<Rightarrow> string \<Rightarrow> (string gomap \<times> string \<times> string) option" where
  "parseExclusionKey cols vals =
     (let colNames = splitTopLevel cols; values = splitTopLevel vals
      in if length colNames \<noteq> length values then None
         else case keyPairs (zip colNames values) [] [] [] of
                Some (scope, start, end') \<Rightarrow> if start = [] \<or> end' = [] then None else Some (scope, start, end')
              | None \<Rightarrow> None)"

definition pgTimestampToRFC3339 :: "string \<Rightarrow> string" where
  "pgTimestampToRFC3339 s =
     (if length s < 19 \<or> s ! 10 \<noteq> CHR '' '' then s
      else let out = take 10 s @ ''T'' @ drop 11 s; sign = out ! (length out - 3)
           in if sign = CHR ''+'' \<or> sign = CHR ''-'' then out @ '':00'' else out)"

text \<open>The dash between the bounds is the en dash of the source, in UTF-8.\<close>

definition enDash :: string where
  "enDash = [CHR 0xE2, CHR 0x80, CHR 0x93]"

definition hasBounds :: "RangeConflict \<Rightarrow> bool" where
  "hasBounds c \<longleftrightarrow> ExistingStart c \<noteq> [] \<and> ExistingEnd c \<noteq> []"

definition RangeConflictMessage :: "RangeConflict \<Rightarrow> string" where
  "RangeConflictMessage c =
     ''time range '' @ rcConstraint c @ '' overlaps an existing row'' @
     (if hasBounds c then '' ('' @ pgTimestampToRFC3339 (ExistingStart c) @ '' '' @ enDash @ '' '' @ pgTimestampToRFC3339 (ExistingEnd c) @ '')'' else [])"

definition RangeConflictBody :: "RangeConflict \<Rightarrow> goany gomap" where
  "RangeConflictBody c =
     [(''error'', GStr ''time_range_conflict''), (''message'', GStr (RangeConflictMessage c))] @
     (if hasBounds c
      then [(''existing'', GObj [(''start'', GStr (pgTimestampToRFC3339 (ExistingStart c))), (''end'', GStr (pgTimestampToRFC3339 (ExistingEnd c)))])]
      else []) @
     [(''conflicts'', GArr [])]"

definition RangeOrderRule :: string where "RangeOrderRule = ''range_order''"

definition RangeOrderMessage :: string where "RangeOrderMessage = ''must be after the range's start''"

definition rangeOrderField :: "string \<Rightarrow> string" where
  "rangeOrderField constraint =
     (let s = TrimSuffix (TrimPrefix constraint ''chk_'') ''_order''; i = IndexByte s (CHR ''_'')
      in if i > 0 \<and> i < int (length s) - 1 then drop (nat i + 1) s else s)"

section \<open>The classifier\<close>

datatype WriteErrorKind =
  WriteErrNone | WriteErrUnique | WriteErrUnknownColumn | WriteErrFileRef | WriteErrForeignKey | WriteErrMissingTenant
| WriteErrBadInput | WriteErrUnavailable | WriteErrRangeConflict | WriteErrRangeOrder

record WriteErrorVerdict =
  Kind :: WriteErrorKind
  vField :: string
  vMessage :: string
  Conflict :: "RangeConflict option"

definition verdict :: "WriteErrorKind \<Rightarrow> string \<Rightarrow> string \<Rightarrow> WriteErrorVerdict" where
  "verdict k f m = \<lparr>Kind = k, vField = f, vMessage = m, Conflict = None\<rparr>"

definition BreakerOpenMessage :: string where
  "BreakerOpenMessage = ''service unavailable: circuit breaker open (the database was not serving; the breaker re-probes within 8s '' @
     emDash @ '' see appximo_breaker_state on /metrics)''"

definition FileRefMessage :: string where
  "FileRefMessage = ''does not reference an existing file of this tenant''"

definition UnknownFieldMessage :: string where
  "UnknownFieldMessage = ''is not a field of this resource''"

definition exclusionConflict :: "string \<times> string \<times> string \<Rightarrow> RangeConflict" where
  "exclusionConflict ex =
     (case ex of (constraint, keyCols, keyVals) \<Rightarrow>
        (case parseExclusionKey keyCols keyVals of
           Some (scope, start, end') \<Rightarrow> \<lparr>rcConstraint = constraint, ExistingScope = scope, ExistingStart = start, ExistingEnd = end'\<rparr>
         | None \<Rightarrow> \<lparr>rcConstraint = constraint, ExistingScope = [], ExistingStart = [], ExistingEnd = []\<rparr>))"

definition ClassifyWriteError :: "(string \<Rightarrow> bool) \<Rightarrow> (string \<Rightarrow> bool) \<Rightarrow> goError \<Rightarrow> WriteErrorVerdict" where
  "ClassifyWriteError unav brk err =
     (case ExclusionViolation err of
        Some ex \<Rightarrow> (let c = exclusionConflict ex
                   in \<lparr>Kind = WriteErrRangeConflict, vField = rcConstraint c, vMessage = RangeConflictMessage c, Conflict = Some c\<rparr>)
      | None \<Rightarrow>
     (case RangeOrderViolation err of
        Some constraint \<Rightarrow> verdict WriteErrRangeOrder (rangeOrderField constraint) RangeOrderMessage
      | None \<Rightarrow>
     (case UniqueViolationField err of
        Some f \<Rightarrow> verdict WriteErrUnique f []
      | None \<Rightarrow>
     (case UndefinedColumnField err of
        Some f \<Rightarrow> verdict WriteErrUnknownColumn f []
      | None \<Rightarrow>
     (case FileReferenceViolation err of
        Some column \<Rightarrow> verdict WriteErrFileRef (if column = [] then ''file'' else column) []
      | None \<Rightarrow>
     (case ForeignKeyViolation err of
        Some msg \<Rightarrow> verdict WriteErrForeignKey [] msg
      | None \<Rightarrow>
          if IsMissingTenant err then verdict WriteErrMissingTenant [] []
          else if IsBadInput err then verdict WriteErrBadInput [] []
          else if IsUnavailable unav err
          then verdict WriteErrUnavailable [] (if asPgError err = None \<and> brk (leafText err) then BreakerOpenMessage else [])
          else verdict WriteErrNone [] []))))))"

definition IsServerError :: "(string \<Rightarrow> bool) \<Rightarrow> (string \<Rightarrow> bool) \<Rightarrow> goError option \<Rightarrow> bool" where
  "IsServerError unav brk erro = (case erro of None \<Rightarrow> False | Some err \<Rightarrow> Kind (ClassifyWriteError unav brk err) = WriteErrNone)"

text \<open>A response: status, the \<open>Retry-After\<close> header where it is set, the JSON body.\<close>

record httpReply =
  hrStatus :: int
  hrRetryAfter :: "string option"
  hrBody :: "goany gomap"

definition writeJSONError :: "int \<Rightarrow> string \<Rightarrow> httpReply" where
  "writeJSONError status msg = \<lparr>hrStatus = status, hrRetryAfter = None, hrBody = [(''error'', GStr msg)]\<rparr>"

definition writeFieldError :: "string \<Rightarrow> string \<Rightarrow> string \<Rightarrow> httpReply" where
  "writeFieldError f rule msg =
     \<lparr>hrStatus = 422, hrRetryAfter = None,
      hrBody = [(''error'', GStr ''validation_failed''),
                (''fields'', GArr [GObj [(''field'', GStr f), (''message'', GStr msg), (''rule'', GStr rule)]])]\<rparr>"

definition WriteDBError :: "(string \<Rightarrow> bool) \<Rightarrow> (string \<Rightarrow> bool) \<Rightarrow> goError \<Rightarrow> httpReply" where
  "WriteDBError unav brk err =
     (let v = ClassifyWriteError unav brk err
      in case Kind v of
           WriteErrUnique \<Rightarrow> writeJSONError 409 (''field '' @ goq (vField v) @ '': value already exists'')
         | WriteErrUnknownColumn \<Rightarrow> writeFieldError (vField v) ''unknown_field'' UnknownFieldMessage
         | WriteErrFileRef \<Rightarrow> writeFieldError (vField v) ''file_not_found'' FileRefMessage
         | WriteErrForeignKey \<Rightarrow> writeJSONError 409 (vMessage v)
         | WriteErrRangeConflict \<Rightarrow>
             \<lparr>hrStatus = 409, hrRetryAfter = None, hrBody = (case Conflict v of Some c \<Rightarrow> RangeConflictBody c | None \<Rightarrow> [])\<rparr>
         | WriteErrRangeOrder \<Rightarrow> writeFieldError (vField v) RangeOrderRule RangeOrderMessage
         | WriteErrMissingTenant \<Rightarrow> writeJSONError 400 ''invalid tenant''
         | WriteErrBadInput \<Rightarrow> writeJSONError 400 ''invalid request''
         | WriteErrUnavailable \<Rightarrow>
             if vMessage v \<noteq> [] then (writeJSONError 503 (vMessage v))\<lparr>hrRetryAfter := Some ''8''\<rparr>
             else (writeJSONError 503 ''service unavailable'')\<lparr>hrRetryAfter := Some ''1''\<rparr>
         | WriteErrNone \<Rightarrow> writeJSONError 500 ''internal error'')"

end
