(* ===== verification/WriteSql.thy ===== *)
theory WriteSql
  imports WriteRules DbErrors
begin

text \<open>
  The statements of a write and the transaction they run in: \<open>pkg/db/tenant.go\<close>, \<open>pkg/outbox/outbox.go\<close>,
  \<open>BuildInsertArgs\<close> of \<open>pkg/handlers/rows.go\<close>, \<open>AppendRowCondition\<close> of \<open>pkg/query/builder.go\<close>, the write cores
  of \<open>pkg/codegen/builder.go\<close> and the batch's \<open>buildUpdateSQL\<close> of \<open>transaction.go\<close>.  pgx, its quoting of
  identifiers, PostgreSQL and the circuit breaker are parameters.
\<close>

section \<open>The database as a write sees it\<close>

datatype sqlArg = Arg goany | ArgStrings "string list"

type_synonym row = "goany gomap"

text \<open>\<open>brAllow\<close> and \<open>brDone\<close> are the two halves of the breaker's \<open>Execute\<close>: it may refuse a call, and it is told
  how an admitted one ended.  \<open>leafUnavailable\<close> tells the errors of the transport, the deadline and the
  breaker from others, \<open>breakerOpen\<close> the breaker's refusals among them.\<close>

record 'w TenantPool =
  pBegin :: "'w call"
  pExec :: "string \<Rightarrow> sqlArg list \<Rightarrow> 'w \<Rightarrow> (goError + int) \<times> 'w"
  pQuery :: "string \<Rightarrow> sqlArg list \<Rightarrow> 'w \<Rightarrow> (goError + row list) \<times> 'w"
  pCommit :: "'w call"
  pRollback :: "'w \<Rightarrow> 'w"
  brAllow :: "'w call"
  brDone :: "goError option \<Rightarrow> 'w \<Rightarrow> 'w"
  leafUnavailable :: "string \<Rightarrow> bool"
  breakerOpen :: "string \<Rightarrow> bool"
  pIdent :: "string \<Rightarrow> string"

definition validateSchemaName :: "string \<Rightarrow> goError option" where
  "validateSchemaName name =
     (if bareIdent name then None
      else Some (PlainError (''invalid schema name '' @ goq name @ '': must match ^[a-z][a-z0-9_]*$'')))"

section \<open>One tenant transaction\<close>

text \<open>The function a transaction runs may have errors of its own beside those of the database: \<open>ofGo\<close> takes a
  database error to one, \<open>asGo\<close> is the \<open>error\<close> that the breaker and the classification see.\<close>

record 'e errors =
  ofGo :: "goError \<Rightarrow> 'e"
  asGo :: "'e \<Rightarrow> goError"

definition plainErrors :: "goError errors" where
  "plainErrors = \<lparr>ofGo = id, asGo = id\<rparr>"

text \<open>\<open>tdb.exec\<close>.\<close>

definition breakerExec :: "'e errors \<Rightarrow> 'w TenantPool \<Rightarrow> ('w \<Rightarrow> ('e + 'a) \<times> 'w) \<Rightarrow> 'w \<Rightarrow> ('e + 'a) \<times> 'w" where
  "breakerExec J P fn w =
     (case brAllow P w of
        (Some err, w1) \<Rightarrow> (Inl (ofGo J err), w1)
      | (None, w1) \<Rightarrow> (let (r, w2) = fn w1 in (r, brDone P (case r of Inl err \<Rightarrow> Some (asGo J err) | Inr _ \<Rightarrow> None) w2)))"

definition setPathSQL :: "'w TenantPool \<Rightarrow> string \<Rightarrow> string" where
  "setPathSQL P schemaName = ''SET LOCAL search_path TO '' @ pIdent P schemaName @ '', public''"

definition txScope :: "'e errors \<Rightarrow> 'w TenantPool \<Rightarrow> string \<Rightarrow> ('w \<Rightarrow> ('e + 'a) \<times> 'w) \<Rightarrow> 'w \<Rightarrow> ('e + 'a) \<times> 'w" where
  "txScope J P schemaName fn w =
     (case pExec P (setPathSQL P schemaName) [] w of
        (Inl err, w1) \<Rightarrow> (Inl (ofGo J (WrapError ''set search_path: '' err)), w1)
      | (Inr _, w1) \<Rightarrow>
          (case fn w1 of
             (Inl err, w2) \<Rightarrow> (Inl err, w2)
           | (Inr x, w2) \<Rightarrow>
               (case pCommit P w2 of
                  (Some err, w3) \<Rightarrow> (Inl (ofGo J (WrapError ''commit: '' err)), w3)
                | (None, w3) \<Rightarrow> (Inr x, w3))))"

definition runTx :: "'e errors \<Rightarrow> 'w TenantPool \<Rightarrow> string \<Rightarrow> ('w \<Rightarrow> ('e + 'a) \<times> 'w) \<Rightarrow> 'w \<Rightarrow> ('e + 'a) \<times> 'w" where
  "runTx J P schemaName fn w =
     (case pBegin P w of
        (Some err, w1) \<Rightarrow> (Inl (ofGo J (WrapError ''begin tx: '' err)), w1)
      | (None, w1) \<Rightarrow> (let (r, w2) = txScope J P schemaName fn w1 in (r, pRollback P w2)))"

definition classifyAs :: "'e errors \<Rightarrow> 'w TenantPool \<Rightarrow> 'e \<Rightarrow> 'e" where
  "classifyAs J P err =
     (if isUnavailableCause (leafUnavailable P) (asGo J err) then ofGo J (classifyErr (leafUnavailable P) (asGo J err)) else err)"

definition WithTenantTx :: "'e errors \<Rightarrow> 'w TenantPool \<Rightarrow> string \<Rightarrow> ('w \<Rightarrow> ('e + 'a) \<times> 'w) \<Rightarrow> 'w \<Rightarrow> ('e + 'a) \<times> 'w" where
  "WithTenantTx J P schemaName fn w =
     (case validateSchemaName schemaName of
        Some err \<Rightarrow> (Inl (ofGo J err), w)
      | None \<Rightarrow>
          (case breakerExec J P (runTx J P schemaName fn) w of
             (Inl err, w1) \<Rightarrow> (Inl (classifyAs J P err), w1)
           | (Inr x, w1) \<Rightarrow> (Inr x, w1)))"

text \<open>A statement and the emission after it; without an emission the two \<open>Emit\<close> variants are the plain ones.\<close>

definition execEmit :: "'w TenantPool \<Rightarrow> string \<Rightarrow> sqlArg list \<Rightarrow> (int \<Rightarrow> 'w call) option \<Rightarrow> 'w \<Rightarrow> (goError + int) \<times> 'w" where
  "execEmit P q args emit w =
     (case pExec P q args w of
        (Inl err, w1) \<Rightarrow> (Inl (WrapError ''exec: '' err), w1)
      | (Inr n, w1) \<Rightarrow>
          (case emit of
             None \<Rightarrow> (Inr n, w1)
           | Some f \<Rightarrow> (case f n w1 of (Some err, w2) \<Rightarrow> (Inl (WrapError ''emit: '' err), w2) | (None, w2) \<Rightarrow> (Inr n, w2))))"

definition queryEmit :: "'w TenantPool \<Rightarrow> string \<Rightarrow> sqlArg list \<Rightarrow> (row list \<Rightarrow> 'w call) option \<Rightarrow> 'w \<Rightarrow> (goError + row list) \<times> 'w" where
  "queryEmit P q args emit w =
     (case pQuery P q args w of
        (Inl err, w1) \<Rightarrow> (Inl (WrapError ''query: '' err), w1)
      | (Inr rows, w1) \<Rightarrow>
          (case emit of
             None \<Rightarrow> (Inr rows, w1)
           | Some f \<Rightarrow> (case f rows w1 of (Some err, w2) \<Rightarrow> (Inl (WrapError ''emit: '' err), w2) | (None, w2) \<Rightarrow> (Inr rows, w2))))"

definition ExecTenant :: "'w TenantPool \<Rightarrow> string \<Rightarrow> string \<Rightarrow> sqlArg list \<Rightarrow> 'w \<Rightarrow> (goError + int) \<times> 'w" where
  "ExecTenant P schemaName q args = WithTenantTx plainErrors P schemaName (execEmit P q args None)"

definition ExecTenantEmit :: "'w TenantPool \<Rightarrow> string \<Rightarrow> string \<Rightarrow> (int \<Rightarrow> 'w call) \<Rightarrow> sqlArg list \<Rightarrow> 'w \<Rightarrow> (goError + int) \<times> 'w" where
  "ExecTenantEmit P schemaName q emit args = WithTenantTx plainErrors P schemaName (execEmit P q args (Some emit))"

definition ExecRowsTenant :: "'w TenantPool \<Rightarrow> string \<Rightarrow> string \<Rightarrow> sqlArg list \<Rightarrow> 'w \<Rightarrow> (goError + row list) \<times> 'w" where
  "ExecRowsTenant P schemaName q args = WithTenantTx plainErrors P schemaName (queryEmit P q args None)"

definition ExecRowsTenantEmit :: "'w TenantPool \<Rightarrow> string \<Rightarrow> string \<Rightarrow> (row list \<Rightarrow> 'w call) \<Rightarrow> sqlArg list \<Rightarrow> 'w \<Rightarrow> (goError + row list) \<times> 'w" where
  "ExecRowsTenantEmit P schemaName q emit args = WithTenantTx plainErrors P schemaName (queryEmit P q args (Some emit))"

section \<open>The outbox\<close>

definition NotifyChannel :: string where
  "NotifyChannel = ''outbox_notify''"

definition outboxSQL :: string where
  "outboxSQL = ''INSERT INTO public.outbox (tenant_id, topic, payload) VALUES ($1, $2, $3) RETURNING id''"

definition scanId :: "row list \<Rightarrow> goError + int" where
  "scanId rows =
     (case rows of
        r # _ \<Rightarrow> (case gm_get r ''id'' of Some (GInt i) \<Rightarrow> Inr i | _ \<Rightarrow> Inl (PlainError ''cannot scan id''))
      | [] \<Rightarrow> Inl (PlainError ''no rows in result set''))"

definition Enqueue :: "Std \<Rightarrow> 'w TenantPool \<Rightarrow> string \<Rightarrow> string \<Rightarrow> goany \<Rightarrow> 'w call" where
  "Enqueue std P tenantID topic payload w =
     (case jsonMarshal std payload of
        None \<Rightarrow> (Some (PlainError ''outbox: marshal payload''), w)
      | Some b \<Rightarrow>
          (case pQuery P outboxSQL [Arg (GStr tenantID), Arg (GStr topic), Arg (GStr b)] w of
             (Inl err, w1) \<Rightarrow> (Some (WrapError ''outbox: insert: '' err), w1)
           | (Inr rows, w1) \<Rightarrow>
               (case scanId rows of
                  Inl err \<Rightarrow> (Some (WrapError ''outbox: insert: '' err), w1)
                | Inr i \<Rightarrow>
                    (case pExec P ''SELECT pg_notify($1, $2)'' [Arg (GStr NotifyChannel), Arg (GStr (Itoa i))] w1 of
                       (Inl err, w2) \<Rightarrow> (Some (WrapError ''outbox: notify: '' err), w2)
                     | (Inr _, w2) \<Rightarrow> (None, w2)))))"

definition eventPayload :: "string \<Rightarrow> string \<Rightarrow> string \<Rightarrow> goany \<Rightarrow> goany" where
  "eventPayload tenantID resource topic id' =
     GObj [(''action'', GStr (TrimPrefix topic (resource @ ''.''))), (''id'', id'), (''resource'', GStr resource), (''tenant_id'', GStr tenantID)]"

definition enqueueCRUDEvent :: "Std \<Rightarrow> 'w TenantPool \<Rightarrow> string \<Rightarrow> string \<Rightarrow> string \<Rightarrow> goany \<Rightarrow> 'w call" where
  "enqueueCRUDEvent std P tenantID resource action id' =
     (let topic = EmitTopic resource action in Enqueue std P tenantID topic (eventPayload tenantID resource topic id'))"

section \<open>Statements\<close>

definition placeholder :: "nat \<Rightarrow> string" where
  "placeholder n = ''$'' @ Itoa (int n)"

definition BuildInsertArgs :: "'w TenantPool \<Rightarrow> row \<Rightarrow> string \<times> string \<times> sqlArg list" where
  "BuildInsertArgs P body =
     (let keys = sortedKeys body
      in (join_with '', '' (map (pIdent P) keys), join_with '', '' (map (\<lambda>i. placeholder (i + 1)) [0..<length keys]),
          map (\<lambda>k. Arg (the (gm_get body k))) keys))"

definition insertSQL :: "'w TenantPool \<Rightarrow> string \<Rightarrow> row \<Rightarrow> string \<times> sqlArg list" where
  "insertSQL P tbl body =
     (let (cols, ph, args) = BuildInsertArgs P body
      in (''INSERT INTO '' @ tbl @ '' ('' @ cols @ '') VALUES ('' @ ph @ '') RETURNING *'', args))"

definition AppendRowCondition :: "string \<Rightarrow> sqlArg list \<Rightarrow> WhereCondition option \<Rightarrow> goError + string \<times> sqlArg list" where
  "AppendRowCondition sql args cond =
     (case cond of
        None \<Rightarrow> Inr (sql, args)
      | Some c \<Rightarrow>
          if \<not> bareIdent (wField c) then Inl (PlainError (''invalid rbac condition field: '' @ goq (wField c)))
          else Inr (sql @ '' AND '' @ wField c @ '' = '' @ placeholder (length args + 1), args @ [Arg (GStr (wValue c))]))"

definition stateMachineOf :: "ResourceSchema \<Rightarrow> string \<Rightarrow> StateMachine option" where
  "stateMachineOf res f = (case gm_get (Fields res) f of None \<Rightarrow> None | Some fd \<Rightarrow> fStateMachine fd)"

fun guardFields ::
  "'w TenantPool \<Rightarrow> ResourceSchema \<Rightarrow> row \<Rightarrow> string list \<Rightarrow> string \<Rightarrow> sqlArg list \<Rightarrow> goError + string \<times> sqlArg list" where
  "guardFields P res sets [] sql args = Inr (sql, args)"
| "guardFields P res sets (f # fs) sql args =
     (case stateMachineOf res f of
        None \<Rightarrow> guardFields P res sets fs sql args
      | Some sm \<Rightarrow>
          (case gm_get sets f of
             Some (GStr newState) \<Rightarrow>
               guardFields P res sets fs
                 (sql @ '' AND ('' @ pIdent P f @ '' = '' @ placeholder (length args + 1) @ '' OR '' @ pIdent P f @
                  '' = ANY('' @ placeholder (length args + 2) @ ''))'')
                 (args @ [Arg (GStr newState), ArgStrings (OriginsOf sm newState)])
           | _ \<Rightarrow> Inl (PlainError (''state field '' @ goq f @ '' must be a string''))))"

definition AppendStateTransitionGuard ::
  "'w TenantPool \<Rightarrow> string \<Rightarrow> sqlArg list \<Rightarrow> ResourceSchema \<Rightarrow> row \<Rightarrow> goError + string \<times> sqlArg list" where
  "AppendStateTransitionGuard P sql args res sets = guardFields P res sets (sortedKeys sets) sql args"

text \<open>The SET list, in the order of its arguments: the given columns, then the refreshed timestamps.\<close>

definition setColumns :: "string \<Rightarrow> ResourceSchema \<Rightarrow> row \<Rightarrow> (string \<times> goany) list" where
  "setColumns now res sets =
     map (\<lambda>c. (c, the (gm_get sets c))) (sortedKeys sets) @ map (\<lambda>c. (c, GTime now)) (AutoRefreshColumns res)"

definition setClauses :: "'w TenantPool \<Rightarrow> (string \<times> goany) list \<Rightarrow> string list" where
  "setClauses P cols = map (\<lambda>(i, c, _). pIdent P c @ '' = '' @ placeholder (i + 1)) (enumerate 0 cols)"

definition ErrNoWritableUpdate :: goError where
  "ErrNoWritableUpdate = PlainError ''no writable fields in request''"

text \<open>The text and the arguments \<open>RunUpdate\<close> executes.\<close>

definition runUpdateSQL ::
  "'w TenantPool \<Rightarrow> string \<Rightarrow> ResourceSchema \<Rightarrow> string \<Rightarrow> string \<Rightarrow> row \<Rightarrow> WhereCondition option \<Rightarrow> goError + string \<times> sqlArg list" where
  "runUpdateSQL P now res tbl id' sets cond =
     (let cols = setColumns now res sets
      in if cols = [] then Inl ErrNoWritableUpdate
         else case AppendRowCondition
                     (''UPDATE '' @ tbl @ '' SET '' @ join_with '', '' (setClauses P cols) @ '' WHERE id = '' @ placeholder (length cols + 1))
                     (map (Arg \<circ> snd) cols @ [Arg (GStr id')]) cond of
                Inl err \<Rightarrow> Inl err
              | Inr (q, args) \<Rightarrow>
                  (case AppendStateTransitionGuard P q args res sets of
                     Inl err \<Rightarrow> Inl err
                   | Inr (q', args') \<Rightarrow> Inr (q' @ '' RETURNING *'', args')))"

definition runDeleteSQL :: "string \<Rightarrow> string \<Rightarrow> WhereCondition option \<Rightarrow> goError + string \<times> sqlArg list" where
  "runDeleteSQL tbl id' cond = AppendRowCondition (''DELETE FROM '' @ tbl @ '' WHERE id = $1'') [Arg (GStr id')] cond"

section \<open>The write cores\<close>

definition idOf :: "row \<Rightarrow> goany" where
  "idOf r = (case gm_get r ''id'' of Some v \<Rightarrow> v | None \<Rightarrow> GNil)"

definition emitRows :: "Std \<Rightarrow> 'w TenantPool \<Rightarrow> string \<Rightarrow> string \<Rightarrow> string \<Rightarrow> row list \<Rightarrow> 'w call" where
  "emitRows std P tenantID name action rows w =
     (case rows of [] \<Rightarrow> (None, w) | r # _ \<Rightarrow> enqueueCRUDEvent std P tenantID name action (idOf r) w)"

definition emitAffected :: "Std \<Rightarrow> 'w TenantPool \<Rightarrow> string \<Rightarrow> string \<Rightarrow> string \<Rightarrow> int \<Rightarrow> 'w call" where
  "emitAffected std P tenantID name id' n w =
     (if n = 0 then (None, w) else enqueueCRUDEvent std P tenantID name ''delete'' (GStr id') w)"

definition runRows ::
  "Std \<Rightarrow> 'w TenantPool \<Rightarrow> string \<Rightarrow> string \<Rightarrow> string \<Rightarrow> string \<Rightarrow> bool \<Rightarrow> string \<times> sqlArg list \<Rightarrow> 'w \<Rightarrow> (goError + row list) \<times> 'w" where
  "runRows std P name tenantID pgSchema action emit q =
     (if emit then ExecRowsTenantEmit P pgSchema (fst q) (emitRows std P tenantID name action) (snd q)
      else ExecRowsTenant P pgSchema (fst q) (snd q))"

definition RunInsert ::
  "Std \<Rightarrow> 'w TenantPool \<Rightarrow> string \<Rightarrow> string \<Rightarrow> string \<Rightarrow> string \<Rightarrow> row \<Rightarrow> bool \<Rightarrow> 'w \<Rightarrow> (goError + row list) \<times> 'w" where
  "RunInsert std P tbl name tenantID pgSchema body emitCreate =
     runRows std P name tenantID pgSchema ''create'' emitCreate (insertSQL P tbl body)"

definition RunUpdate ::
  "Std \<Rightarrow> 'w TenantPool \<Rightarrow> string \<Rightarrow> ResourceSchema \<Rightarrow> string \<Rightarrow> string \<Rightarrow> string \<Rightarrow> string \<Rightarrow> string \<Rightarrow> row
     \<Rightarrow> WhereCondition option \<Rightarrow> bool \<Rightarrow> 'w \<Rightarrow> (goError + row list) \<times> 'w" where
  "RunUpdate std P now res tbl name tenantID pgSchema id' sets cond emitUpdate w =
     (case runUpdateSQL P now res tbl id' sets cond of
        Inl err \<Rightarrow> (Inl err, w)
      | Inr q \<Rightarrow> runRows std P name tenantID pgSchema ''update'' emitUpdate q w)"

definition RunDelete ::
  "Std \<Rightarrow> 'w TenantPool \<Rightarrow> string \<Rightarrow> string \<Rightarrow> string \<Rightarrow> string \<Rightarrow> string \<Rightarrow> WhereCondition option \<Rightarrow> bool \<Rightarrow> 'w \<Rightarrow> (goError + int) \<times> 'w" where
  "RunDelete std P tbl name tenantID pgSchema id' cond emitDelete w =
     (case runDeleteSQL tbl id' cond of
        Inl err \<Rightarrow> (Inl err, w)
      | Inr (q, args) \<Rightarrow>
          if emitDelete then ExecTenantEmit P pgSchema q (emitAffected std P tenantID name id') args w
          else ExecTenant P pgSchema q args w)"

end
