(* ===== verification/FileAccess.thy ===== *)
theory FileAccess
  imports WriteSql
begin

text \<open>
  Files in rows: the attach policy of a file field (\<open>pkg/codegen/filepolicy.go\<close>) and the rule that a referenced
  file is reachable only through a row the caller may read (\<open>filereach.go\<close>).  Each check has two transports, the
  pool and an open transaction; both run one core, given here the way it asks the database.
\<close>

section \<open>Reading outside a transaction\<close>

text \<open>\<open>QueryTenant\<close> and reading its rows: a transaction that is rolled back when the rows are closed.\<close>

definition readTenant :: "'w TenantPool \<Rightarrow> string \<Rightarrow> string \<Rightarrow> sqlArg list \<Rightarrow> 'w \<Rightarrow> (goError + row list) \<times> 'w" where
  "readTenant P schemaName q args w =
     (case validateSchemaName schemaName of
        Some err \<Rightarrow> (Inl err, w)
      | None \<Rightarrow>
          (case breakerExec plainErrors P (\<lambda>w. case pBegin P w of
                    (Some err, w1) \<Rightarrow> (Inl (WrapError ''begin tx: '' err), w1)
                  | (None, w1) \<Rightarrow>
                      (case pExec P (setPathSQL P schemaName) [] w1 of
                         (Inl err, w2) \<Rightarrow> (Inl (WrapError ''set search_path: '' err), pRollback P w2)
                       | (Inr _, w2) \<Rightarrow>
                           (case pQuery P q args w2 of
                              (Inl err, w3) \<Rightarrow> (Inl (WrapError ''query: '' err), pRollback P w3)
                            | (Inr rows, w3) \<Rightarrow> (Inr rows, pRollback P w3)))) w of
             (Inl err, w1) \<Rightarrow> (Inl (classifyAs plainErrors P err), w1)
           | (Inr rows, w1) \<Rightarrow> (Inr rows, w1)))"

definition existsTenant :: "'w TenantPool \<Rightarrow> string \<Rightarrow> string \<Rightarrow> sqlArg list \<Rightarrow> 'w \<Rightarrow> (goError + bool) \<times> 'w" where
  "existsTenant P pgSchema sql args w = (case readTenant P pgSchema sql args w of (r, w1) \<Rightarrow> (map_sum id (\<lambda>rows. rows \<noteq> []) r, w1))"

text \<open>\<open>QueryRow\<close> and \<open>Scan\<close> on the open transaction; \<open>ErrNoRows\<close> is the answer no.\<close>

definition existsTx :: "'w TenantPool \<Rightarrow> string \<Rightarrow> sqlArg list \<Rightarrow> 'w \<Rightarrow> (goError + bool) \<times> 'w" where
  "existsTx P sql args w = (case pQuery P sql args w of (r, w1) \<Rightarrow> (map_sum id (\<lambda>rows. rows \<noteq> []) r, w1))"

section \<open>Reach\<close>

record FileRefColumn =
  frResource :: string
  frColumn :: string

definition FileRefColumns :: "APISchema \<Rightarrow> FileRefColumn list" where
  "FileRefColumns s =
     concat (map (\<lambda>name. case gm_get (asResources s) name of
         None \<Rightarrow> []
       | Some res \<Rightarrow> map (\<lambda>(f, _). \<lparr>frResource = name, frColumn = f\<rparr>) (eachField (\<lambda>_ fd. if fType fd = ''file'' then Some () else None) res))
       (sortedKeys (asResources s)))"

text \<open>Who uploaded a file, where the request carries a store to ask; the empty string when it is not known.\<close>

type_synonym 'w FileUploader = "string \<Rightarrow> 'w \<Rightarrow> (goError + string) \<times> 'w"

definition uploadedByCaller :: "'w FileUploader option \<Rightarrow> EvalContext \<Rightarrow> string \<Rightarrow> 'w \<Rightarrow> (goError + bool) \<times> 'w" where
  "uploadedByCaller up ev fileID w =
     (case up of
        None \<Rightarrow> (Inr True, w)
      | Some fn \<Rightarrow> (case fn fileID w of (r, w1) \<Rightarrow> (map_sum id (\<lambda>who. who = [] \<or> who = UserID ev) r, w1)))"

definition anySQL :: "string \<Rightarrow> string \<Rightarrow> string" where
  "anySQL tbl col = ''SELECT 1 FROM '' @ tbl @ '' WHERE '' @ col @ '' = $1 LIMIT 1''"

definition mineSQL :: "string \<Rightarrow> string \<Rightarrow> string" where
  "mineSQL tbl col = ''SELECT 1 FROM '' @ tbl @ '' WHERE '' @ col @ '' = $1''"

text \<open>The loop over the columns that can hold a file id: \<open>Some\<close> is its verdict, None says no row references the file.\<close>

fun reachLoop ::
  "(string \<Rightarrow> string) \<Rightarrow> (string \<Rightarrow> string) \<Rightarrow> (string \<Rightarrow> sqlArg list \<Rightarrow> 'w \<Rightarrow> (goError + bool) \<times> 'w) \<Rightarrow> Policy \<Rightarrow> EvalContext \<Rightarrow> string
     \<Rightarrow> FileRefColumn list \<Rightarrow> bool \<Rightarrow> 'w \<Rightarrow> (goError + bool option) \<times> 'w" where
  "reachLoop ident tbl ask pol ev fileID [] referenced w = (Inr (if referenced then Some False else None), w)"
| "reachLoop ident tbl ask pol ev fileID (c # cs) referenced w =
     (case ask (anySQL (tbl (frResource c)) (ident (frColumn c))) [Arg (GStr fileID)] w of
        (Inl err, w1) \<Rightarrow> (Inl err, w1)
      | (Inr hit, w1) \<Rightarrow>
          if \<not> hit then reachLoop ident tbl ask pol ev fileID cs referenced w1
          else let res = Evaluate pol ev (frResource c) ''read''
               in if \<not> Allowed res then reachLoop ident tbl ask pol ev fileID cs True w1
                  else case AppendRowCondition (mineSQL (tbl (frResource c)) (ident (frColumn c))) [Arg (GStr fileID)] (evCondition res) of
                         Inl err \<Rightarrow> (Inl err, w1)
                       | Inr (q, args) \<Rightarrow>
                           (case ask (q @ '' LIMIT 1'') args w1 of
                              (Inl err, w2) \<Rightarrow> (Inl err, w2)
                            | (Inr mine, w2) \<Rightarrow> if mine then (Inr (Some True), w2) else reachLoop ident tbl ask pol ev fileID cs True w2))"

definition reachable_with ::
  "(string \<Rightarrow> string) \<Rightarrow> (string \<Rightarrow> string) \<Rightarrow> (string \<Rightarrow> sqlArg list \<Rightarrow> 'w \<Rightarrow> (goError + bool) \<times> 'w) \<Rightarrow> 'w FileUploader option
     \<Rightarrow> FileRefColumn list \<Rightarrow> Policy \<Rightarrow> EvalContext \<Rightarrow> string \<Rightarrow> 'w \<Rightarrow> (goError + bool) \<times> 'w" where
  "reachable_with ident tbl ask up cols pol ev fileID w =
     (if cols = [] then (Inr True, w)
      else case reachLoop ident tbl ask pol ev fileID cols False w of
             (Inl err, w1) \<Rightarrow> (Inl err, w1)
           | (Inr (Some b), w1) \<Rightarrow> (Inr b, w1)
           | (Inr None, w1) \<Rightarrow> uploadedByCaller up ev fileID w1)"

definition FileReachable ::
  "'w TenantPool \<Rightarrow> 'w FileUploader option \<Rightarrow> string \<Rightarrow> FileRefColumn list \<Rightarrow> Policy \<Rightarrow> EvalContext \<Rightarrow> string \<Rightarrow> 'w \<Rightarrow> (goError + bool) \<times> 'w" where
  "FileReachable P up pgSchema = reachable_with (pIdent P) (\<lambda>t. pIdent P pgSchema @ ''.'' @ pIdent P t) (existsTenant P pgSchema) up"

definition FileReachableTx ::
  "'w TenantPool \<Rightarrow> 'w FileUploader option \<Rightarrow> FileRefColumn list \<Rightarrow> Policy \<Rightarrow> EvalContext \<Rightarrow> string \<Rightarrow> 'w \<Rightarrow> (goError + bool) \<times> 'w" where
  "FileReachableTx P up = reachable_with (pIdent P) (pIdent P) (existsTx P) up"

definition fileNotFound :: "string \<Rightarrow> FieldRuleError" where
  "fileNotFound name = \<lparr>freField = name, freRule = ''file_not_found'', freMessage = ''no such file for this tenant (or not yours)''\<rparr>"

text \<open>The loop over the fields, in the order the map gives them.\<close>

fun attachLoop :: "(string \<Rightarrow> 'w \<Rightarrow> (goError + bool) \<times> 'w) \<Rightarrow> row \<Rightarrow> FieldDef gomap \<Rightarrow> 'w \<Rightarrow> (goError + FieldRuleError list) \<times> 'w" where
  "attachLoop reach vals [] w = (Inr [], w)"
| "attachLoop reach vals ((name, fd) # fs) w =
     (case (if fType fd = ''file'' then gm_get vals name else None) of
        Some (GStr (c # cs)) \<Rightarrow>
          (case reach (c # cs) w of
             (Inl err, w1) \<Rightarrow> (Inl err, w1)
           | (Inr ok, w1) \<Rightarrow>
               (case attachLoop reach vals fs w1 of
                  (Inl err, w2) \<Rightarrow> (Inl err, w2)
                | (Inr errs, w2) \<Rightarrow> (Inr (if ok then errs else fileNotFound name # errs), w2)))
      | _ \<Rightarrow> attachLoop reach vals fs w)"

definition CheckFileAttachReach ::
  "'w TenantPool \<Rightarrow> 'w FileUploader option \<Rightarrow> string \<Rightarrow> FileRefColumn list \<Rightarrow> Policy \<Rightarrow> EvalContext \<Rightarrow> ResourceSchema \<Rightarrow> row \<Rightarrow> 'w
     \<Rightarrow> (goError + FieldRuleError list) \<times> 'w" where
  "CheckFileAttachReach P up pgSchema cols pol ev res vals w =
     (if cols = [] \<or> vals = [] then (Inr [], w) else attachLoop (FileReachable P up pgSchema cols pol ev) vals (Fields res) w)"

definition CheckFileAttachReachTx ::
  "'w TenantPool \<Rightarrow> 'w FileUploader option \<Rightarrow> FileRefColumn list \<Rightarrow> Policy \<Rightarrow> EvalContext \<Rightarrow> ResourceSchema \<Rightarrow> row \<Rightarrow> 'w
     \<Rightarrow> (goError + FieldRuleError list) \<times> 'w" where
  "CheckFileAttachReachTx P up cols pol ev res vals w =
     (if cols = [] \<or> vals = [] then (Inr [], w) else attachLoop (FileReachableTx P up cols pol ev) vals (Fields res) w)"

section \<open>Attach policies\<close>

definition resourceHasFilePolicy :: "ResourceSchema \<Rightarrow> bool" where
  "resourceHasFilePolicy res = list_ex (\<lambda>(_, fd). HasFilePolicy fd) (Fields res)"

definition policyError :: "string \<Rightarrow> string \<Rightarrow> FieldRuleError" where
  "policyError name msg = \<lparr>freField = name, freRule = ''file_policy'', freMessage = msg\<rparr>"

text \<open>The verdict on a stored file's size and type.\<close>

definition policyViolation :: "string \<Rightarrow> FieldDef \<Rightarrow> int \<Rightarrow> string \<Rightarrow> FieldRuleError list" where
  "policyViolation name fd size' ct =
     (if MaxBytes fd > 0 \<and> size' > MaxBytes fd
      then [policyError name (''references a '' @ Itoa size' @ ''-byte file; this field accepts at most '' @ Itoa (MaxBytes fd) @ '' bytes (max_bytes)'')]
      else if \<not> FileAcceptMatches fd ct
      then [policyError name (''references a file of type '' @ (if ct = [] then ''an undetected content type'' else ct) @ ''; this field accepts: '' @ join_with '', '' (Accept fd))]
      else [])"

type_synonym 'w fileMetaFetch = "string \<Rightarrow> 'w \<Rightarrow> (goError + (int \<times> string) option) \<times> 'w"

fun policyLoop :: "Std \<Rightarrow> 'w fileMetaFetch \<Rightarrow> row \<Rightarrow> (string \<times> FieldDef) list \<Rightarrow> 'w \<Rightarrow> (goError + FieldRuleError list) \<times> 'w" where
  "policyLoop std fetch vals [] w = (Inr [], w)"
| "policyLoop std fetch vals ((name, fd) # fs) w =
     (case gm_get vals name of
        Some (GStr s) \<Rightarrow>
          if \<not> uuidOk std (TrimSpace s) then policyLoop std fetch vals fs w
          else (case fetch (TrimSpace s) w of
                  (Inl err, w1) \<Rightarrow> (Inl err, w1)
                | (Inr found, w1) \<Rightarrow>
                    (case policyLoop std fetch vals fs w1 of
                       (Inl err, w2) \<Rightarrow> (Inl err, w2)
                     | (Inr errs, w2) \<Rightarrow> (Inr ((case found of None \<Rightarrow> [] | Some (size', ct) \<Rightarrow> policyViolation name fd size' ct) @ errs), w2)))
      | _ \<Rightarrow> policyLoop std fetch vals fs w)"

definition checkFilePolicies :: "Std \<Rightarrow> ResourceSchema \<Rightarrow> row \<Rightarrow> 'w fileMetaFetch \<Rightarrow> 'w \<Rightarrow> (goError + FieldRuleError list) \<times> 'w" where
  "checkFilePolicies std res vals fetch =
     policyLoop std fetch vals (eachField (\<lambda>_ fd. if HasFilePolicy fd then Some fd else None) res)"

definition fileMetaQuery :: string where
  "fileMetaQuery = ''SELECT size, COALESCE(content_type, '' @ [CHR 0x27, CHR 0x27] @ '') FROM files WHERE id = $1''"

text \<open>\<open>Scan\<close> into the size and the type; PostgreSQL names the second column \<open>coalesce\<close>.\<close>

definition scanMeta :: "row list \<Rightarrow> goError + (int \<times> string) option" where
  "scanMeta rows =
     (case rows of
        [] \<Rightarrow> Inr None
      | r # _ \<Rightarrow> (case (gm_get r ''size'', gm_get r ''coalesce'') of
                    (Some (GInt n), Some (GStr ct)) \<Rightarrow> Inr (Some (n, ct))
                  | _ \<Rightarrow> Inl (PlainError ''cannot scan file metadata'')))"

definition fetched :: "(goError + row list) \<times> 'w \<Rightarrow> (goError + (int \<times> string) option) \<times> 'w" where
  "fetched rw = (case rw of (Inl err, w1) \<Rightarrow> (Inl err, w1) | (Inr rows, w1) \<Rightarrow> (scanMeta rows, w1))"

definition CheckFilePoliciesTenant :: "Std \<Rightarrow> 'w TenantPool \<Rightarrow> string \<Rightarrow> ResourceSchema \<Rightarrow> row \<Rightarrow> 'w \<Rightarrow> (goError + FieldRuleError list) \<times> 'w" where
  "CheckFilePoliciesTenant std P pgSchema res vals w =
     (if \<not> resourceHasFilePolicy res then (Inr [], w)
      else checkFilePolicies std res vals (\<lambda>i w1. fetched (readTenant P pgSchema fileMetaQuery [Arg (GStr i)] w1)) w)"

definition CheckFilePoliciesTx :: "Std \<Rightarrow> 'w TenantPool \<Rightarrow> ResourceSchema \<Rightarrow> row \<Rightarrow> 'w \<Rightarrow> (goError + FieldRuleError list) \<times> 'w" where
  "CheckFilePoliciesTx std P res vals w =
     (if \<not> resourceHasFilePolicy res then (Inr [], w)
      else checkFilePolicies std res vals (\<lambda>i w1. fetched (pQuery P fileMetaQuery [Arg (GStr i)] w1)) w)"

end
