(* ===== verification/WritePath.thy ===== *)
theory WritePath
  imports FileAccess "HOL-Library.Product_Lexorder"
begin

text \<open>
  The write handlers: the row-condition rule of \<open>pkg/codegen/rbac_write.go\<close>, \<open>CollectUpdate\<close>, the create,
  update and delete handlers of \<open>builder.go\<close>.  The hook runtimes, the
  event hub, the after-hooks, the response cache and the store that knows a file's uploader are functions of the environment;
  a \<open>DBReply\<close> is rendered by \<open>WriteDBError\<close>; logging, tracing and the naming of a colliding time range after an error are left out.
\<close>

section \<open>The row-condition rule\<close>

definition principalMismatch :: "string \<Rightarrow> string" where
  "principalMismatch col = ''field '' @ goq col @ '' must match the authenticated principal''"

definition conditionField :: "EvalResult \<Rightarrow> string" where
  "conditionField ev = (case evCondition ev of Some c \<Rightarrow> wField c | None \<Rightarrow> [])"

definition dropUnlisted :: "EvalResult \<Rightarrow> row \<Rightarrow> row" where
  "dropUnlisted ev body =
     (if AllowedFields ev = [] then body
      else filter (\<lambda>(k, _). k = conditionField ev \<or> k \<in> set (AllowedFields ev)) body)"

text \<open>A refusal is its status and message; the body comes back as it is written.\<close>

definition EnforceCreateRBAC :: "Std \<Rightarrow> row \<Rightarrow> EvalResult option \<Rightarrow> (int \<times> string) + row" where
  "EnforceCreateRBAC std body evo =
     (case evo of
        None \<Rightarrow> Inr body
      | Some ev \<Rightarrow>
          (let body1 = dropUnlisted ev body
           in case evCondition ev of
                None \<Rightarrow> Inr body1
              | Some c \<Rightarrow>
                  (case gm_get body1 (wField c) of
                     Some cur \<Rightarrow>
                       if cur \<noteq> GNil \<and> sprintV std cur \<noteq> wValue c then Inl (403, principalMismatch (wField c))
                       else Inr (gm_put (wField c) (GStr (wValue c)) body1)
                   | None \<Rightarrow> Inr (gm_put (wField c) (GStr (wValue c)) body1))))"

definition EnforceUpdateRBAC :: "Std \<Rightarrow> row \<Rightarrow> row \<Rightarrow> EvalResult option \<Rightarrow> (int \<times> string) + row" where
  "EnforceUpdateRBAC std body sets evo =
     (case (case evo of None \<Rightarrow> None | Some ev \<Rightarrow> evCondition ev) of
        None \<Rightarrow> Inr sets
      | Some c \<Rightarrow>
          if \<not> Identity c then Inr sets
          else case gm_get body (wField c) of
                 Some cur \<Rightarrow>
                   if cur = GNil \<or> sprintV std cur \<noteq> wValue c then Inl (403, principalMismatch (wField c)) else Inr sets
               | None \<Rightarrow>
                   if gm_get sets (wField c) = Some GNil then Inr (gm_put (wField c) (GStr (wValue c)) sets) else Inr sets)"

section \<open>Collecting an update\<close>

definition updateFieldErrors :: "Std \<Rightarrow> ResourceSchema \<Rightarrow> row \<Rightarrow> FieldRuleError list" where
  "updateFieldErrors std res body =
     concat (map (\<lambda>k.
       if IsGovernedWriteField res k then []
       else case gm_get (Fields res) k of
              None \<Rightarrow> [ruleError k ''unknown_field'' (''unknown field: '' @ goq k)]
            | Some fd \<Rightarrow>
                (case gm_get body k of
                   Some v \<Rightarrow>
                     if v = GNil
                     then (if Required fd then [ruleError k ''required'' (''field '' @ goq k @ '' is required and cannot be null'')] else [])
                     else (case validateFieldValue std k fd v of None \<Rightarrow> [] | Some msg \<Rightarrow> [ruleError k ''type'' msg])
                 | None \<Rightarrow> [])) (sortedKeys body))"

definition missingRequired :: "ResourceSchema \<Rightarrow> row \<Rightarrow> FieldRuleError list" where
  "missingRequired res body =
     map snd (eachField (\<lambda>name fd. if Enabled (Auto fd) \<or> \<not> Required fd \<or> gm_has body name then None
                                   else Some (ruleError name ''required'' (''missing required field: '' @ goq name))) res)"

definition updateErrors :: "Std \<Rightarrow> ResourceSchema \<Rightarrow> row \<Rightarrow> bool \<Rightarrow> FieldRuleError list" where
  "updateErrors std res body put =
     sort_key (\<lambda>e. (freField e, freRule e))
       (GovernedFieldViolations res body GovernedUpdate [] @ fst (CoerceJSONFields std res body) @
        (let body1 = snd (CoerceJSONFields std res body)
         in updateFieldErrors std res body1 @ StateFieldNullViolations res body1 put @ (if put then missingRequired res body1 else [])))"

text \<open>The columns to write, and the body with its JSON columns in their stored form.\<close>

definition CollectUpdate ::
  "Std \<Rightarrow> ResourceSchema \<Rightarrow> row \<Rightarrow> bool \<Rightarrow> (string \<Rightarrow> bool) \<Rightarrow> (FieldRuleError list + row) \<times> row" where
  "CollectUpdate std res body put writable =
     (let body1 = snd (CoerceJSONFields std res body)
      in (if updateErrors std res body put \<noteq> [] then Inl (updateErrors std res body put)
          else if put
          then Inr (eachField (\<lambda>name fd. if Enabled (Auto fd) \<or> \<not> writable name then None
                                         else Some (case gm_get body1 name of Some v \<Rightarrow> v | None \<Rightarrow> GNil)) res)
          else Inr (filter (\<lambda>(name, _). writable name) body1), body1))"

definition writableFn :: "string list \<Rightarrow> string \<Rightarrow> bool" where
  "writableFn allowed f \<longleftrightarrow> allowed = [] \<or> f \<in> set allowed"

section \<open>The handlers\<close>

datatype decoded = TooLarge | Malformed | Decoded row

datatype reply =
  ErrReply int string
| ValidationReply "FieldRuleError list"
| DBReply goError
| RowReply int "row option"
| NoContent

record hookResult =
  Proceed :: bool
  hookError :: string
  hookData :: row

text \<open>\<open>RejectParams\<close> is the rejection of list parameters on a single-record route.\<close>

record 'w WriteEnv =
  wePool :: "'w TenantPool"
  BeforeHook :: "HookConfig \<Rightarrow> row \<Rightarrow> 'w \<Rightarrow> (goError + hookResult) \<times> 'w"
  wePolicy :: Policy
  weFileCols :: "FileRefColumn list"
  Uploader :: "'w FileUploader option"
  Publish :: "string \<Rightarrow> row option \<Rightarrow> string \<Rightarrow> 'w \<Rightarrow> 'w"
  Invalidate :: "'w \<Rightarrow> 'w"
  AfterHook :: "HookConfig \<Rightarrow> string \<Rightarrow> row option \<Rightarrow> 'w \<Rightarrow> 'w"
  RejectParams :: "string option"
  weNow :: string
  ErrText :: "goError \<Rightarrow> string"

text \<open>A request: tenant, its PostgreSQL schema, the caller's role, the verdict of the policy and the identity it was given for.\<close>

record writeReq =
  rqTenant :: string
  rqSchema :: string
  rqRole :: string
  rqEval :: "EvalResult option"
  rqCtx :: EvalContext
  rqId :: string
  rqBody :: decoded

definition requestBody :: "writeReq \<Rightarrow> reply + row" where
  "requestBody rq =
     (case rqBody rq of
        TooLarge \<Rightarrow> Inl (ErrReply 413 ''request body too large'')
      | Malformed \<Rightarrow> Inl (ErrReply 400 ''invalid JSON body'')
      | Decoded body \<Rightarrow> if body = [] then Inl (ErrReply 400 ''empty body'') else Inr body)"

definition RunBeforeHook :: "'w WriteEnv \<Rightarrow> HookConfig option \<Rightarrow> row \<Rightarrow> 'w \<Rightarrow> (goError + hookResult) \<times> 'w" where
  "RunBeforeHook E hook payload w =
     (case hook of
        None \<Rightarrow> (Inr \<lparr>Proceed = True, hookError = [], hookData = payload\<rparr>, w)
      | Some hc \<Rightarrow>
          if hkType hc = ''js'' \<or> hkType hc = ''wasm'' then BeforeHook E hc payload w
          else (Inr \<lparr>Proceed = True, hookError = [], hookData = payload\<rparr>, w))"

definition condOf :: "writeReq \<Rightarrow> WhereCondition option" where
  "condOf rq = (case rqEval rq of None \<Rightarrow> None | Some ev \<Rightarrow> evCondition ev)"

definition allowedOf :: "writeReq \<Rightarrow> string list" where
  "allowedOf rq = (case rqEval rq of None \<Rightarrow> [] | Some ev \<Rightarrow> AllowedFields ev)"

definition FilterFields :: "row \<Rightarrow> string list \<Rightarrow> row" where
  "FilterFields record' allowed =
     (if allowed = [] then record'
      else concat (map (\<lambda>f. case gm_get record' f of Some v \<Rightarrow> [(f, v)] | None \<Rightarrow> []) (remdups allowed)))"

text \<open>A check that asks the database: its errors, then the next step.\<close>

definition checked :: "('w \<Rightarrow> (goError + FieldRuleError list) \<times> 'w) \<Rightarrow> ('w \<Rightarrow> reply \<times> 'w) \<Rightarrow> 'w \<Rightarrow> reply \<times> 'w" where
  "checked check next w =
     (case check w of
        (Inl err, w1) \<Rightarrow> (DBReply err, w1)
      | (Inr errs, w1) \<Rightarrow> if errs \<noteq> [] then (ValidationReply errs, w1) else next w1)"

definition firstRow :: "row list \<Rightarrow> row option" where
  "firstRow rows = (case rows of [] \<Rightarrow> None | r # _ \<Rightarrow> Some r)"

definition afterCreate :: "'w WriteEnv \<Rightarrow> ResourceSchema \<Rightarrow> row option \<Rightarrow> 'w \<Rightarrow> 'w" where
  "afterCreate E res out w =
     (let w1 = (if out = None then w else Publish E ''create'' out [] w)
      in case gm_get (Hooks res) ''after_create'' of None \<Rightarrow> w1 | Some hc \<Rightarrow> AfterHook E hc ''after_create'' out w1)"

text \<open>From the body a create hook returned to the answer.\<close>

definition insertBody ::
  "Std \<Rightarrow> 'w WriteEnv \<Rightarrow> string \<Rightarrow> ResourceSchema \<Rightarrow> ResourceSchema \<Rightarrow> writeReq \<Rightarrow> row \<Rightarrow> 'w \<Rightarrow> reply \<times> 'w" where
  "insertBody std E name res wres rq body w =
     (case EnforceCreateRBAC std body (rqEval rq) of
        Inl (status, msg) \<Rightarrow> (ErrReply status msg, w)
      | Inr body1 \<Rightarrow>
          checked (CheckFilePoliciesTenant std (wePool E) (rqSchema rq) wres body1)
            (checked (CheckFileAttachReach (wePool E) (Uploader E) (rqSchema rq) (weFileCols E) (wePolicy E) (rqCtx rq) wres body1)
              (\<lambda>w1. case RunInsert std (wePool E) (pIdent (wePool E) name) name (rqTenant rq) (rqSchema rq) body1 (EmitsOn res ''create'') w1 of
                      (Inl err, w2) \<Rightarrow> (DBReply err, w2)
                    | (Inr rows, w2) \<Rightarrow>
                        (let out = map_option (PromoteJSONText std (JSONTextColumns res)) (firstRow rows)
                         in (RowReply 201 out, afterCreate E res out w2)))) w)"

definition createHandler ::
  "Std \<Rightarrow> 'w WriteEnv \<Rightarrow> string \<Rightarrow> ResourceSchema \<Rightarrow> ResourceSchema \<Rightarrow> ResourceValidator \<Rightarrow> writeReq \<Rightarrow> 'w \<Rightarrow> reply \<times> 'w" where
  "createHandler std E name res wres wrv rq w =
     (case requestBody rq of
        Inl r \<Rightarrow> (r, w)
      | Inr body \<Rightarrow>
          (let (verrs, body1) = PrepareCreate std (weNow E) wres wrv body (rqRole rq)
           in if verrs \<noteq> [] then (ValidationReply verrs, w)
              else let hook = gm_get (Hooks res) ''before_create''
                   in case RunBeforeHook E hook body1 w of
                        (Inl err, w1) \<Rightarrow> (ErrReply 500 (ErrText E err), w1)
                      | (Inr h, w1) \<Rightarrow>
                          if \<not> Proceed h then (ErrReply 422 (hookError h), w1)
                          else if hook = None then insertBody std E name res wres rq (hookData h) w1
                          else let (errs2, body2) = CoerceJSONFields std wres (hookData h)
                               in if errs2 \<noteq> [] then (ValidationReply errs2, w1)
                                  else insertBody std E name res wres rq body2 w1))"

definition idReply :: "Std \<Rightarrow> 'w WriteEnv \<Rightarrow> writeReq \<Rightarrow> reply option" where
  "idReply std E rq =
     (if \<not> uuidOk std (rqId rq) then Some (ErrReply 400 ''invalid id format'')
      else map_option (ErrReply 400) (RejectParams E))"

definition deleteHandler :: "Std \<Rightarrow> 'w WriteEnv \<Rightarrow> string \<Rightarrow> ResourceSchema \<Rightarrow> writeReq \<Rightarrow> 'w \<Rightarrow> reply \<times> 'w" where
  "deleteHandler std E name res rq w =
     (case idReply std E rq of
        Some r \<Rightarrow> (r, w)
      | None \<Rightarrow>
          (case RunDelete std (wePool E) (pIdent (wePool E) name) name (rqTenant rq) (rqSchema rq) (rqId rq) (condOf rq) (EmitsOn res ''delete'') w of
             (Inl err, w1) \<Rightarrow> (DBReply err, w1)
           | (Inr n, w1) \<Rightarrow>
               if n = 0 then (ErrReply 404 ''not found'', w1)
               else (NoContent, Publish E ''delete'' None (rqId rq) w1)))"

section \<open>Updates\<close>

definition stateFieldsUpdated :: "ResourceSchema \<Rightarrow> row \<Rightarrow> string list" where
  "stateFieldsUpdated res sets = filter (\<lambda>f. stateMachineOf res f \<noteq> None) (sortedKeys sets)"

definition strOf :: "goany option \<Rightarrow> string" where
  "strOf v = (case v of Some (GStr s) \<Rightarrow> s | _ \<Rightarrow> [])"

text \<open>The current values arrive as a row keyed by the state fields.\<close>

definition retryMsg :: string where
  "retryMsg = ''the resource changed during the update; retry''"

fun classifyTransitionFailure :: "row \<Rightarrow> string list \<Rightarrow> row \<Rightarrow> int \<times> string" where
  "classifyTransitionFailure vals [] sets = (409, retryMsg)"
| "classifyTransitionFailure vals (f # fs) sets =
     (let cur = strOf (gm_get vals f); want = strOf (gm_get sets f)
      in if cur \<noteq> want
         then (422, ''invalid transition for '' @ goq f @ '': from '' @ goq cur @ '' to '' @ goq want @ '' is not allowed'')
         else classifyTransitionFailure vals fs sets)"

definition ExplainTransitionFailure ::
  "'w TenantPool \<Rightarrow> string \<Rightarrow> string \<Rightarrow> string \<Rightarrow> ResourceSchema \<Rightarrow> row \<Rightarrow> 'w \<Rightarrow> (int \<times> string) \<times> 'w" where
  "ExplainTransitionFailure P pgSchema tbl id' res sets w =
     (let fs = stateFieldsUpdated res sets
      in if fs = [] then ((404, ''not found''), w)
         else case readTenant P pgSchema (''SELECT '' @ join_with '', '' (map (pIdent P) fs) @ '' FROM '' @ tbl @ '' WHERE id = $1'') [Arg (GStr id')] w of
                (Inl _, w1) \<Rightarrow> ((404, ''not found''), w1)
              | (Inr [], w1) \<Rightarrow> ((404, ''not found''), w1)
              | (Inr (vals # _), w1) \<Rightarrow> (classifyTransitionFailure vals fs sets, w1))"

definition existsSQL :: "string \<Rightarrow> string \<Rightarrow> WhereCondition option \<Rightarrow> goError + string \<times> sqlArg list" where
  "existsSQL tbl id' cond = AppendRowCondition (''SELECT 1 FROM '' @ tbl @ '' WHERE id = $1'') [Arg (GStr id')] cond"

text \<open>A hook may change the values of the columns that are written, and only those.\<close>

definition adoptHook :: "row \<Rightarrow> row \<Rightarrow> row" where
  "adoptHook sets data = map (\<lambda>(col, v). (col, case gm_get data col of Some nv \<Rightarrow> nv | None \<Rightarrow> v)) sets"

definition finishUpdate ::
  "Std \<Rightarrow> 'w WriteEnv \<Rightarrow> string \<Rightarrow> ResourceSchema \<Rightarrow> writeReq \<Rightarrow> row \<Rightarrow> 'w \<Rightarrow> reply \<times> 'w" where
  "finishUpdate std E name res rq sets w =
     (let P = wePool E; tbl = pIdent P name
      in case RunUpdate std P (weNow E) res tbl name (rqTenant rq) (rqSchema rq) (rqId rq) sets (condOf rq) (EmitsOn res ''update'') w of
           (Inl err, w1) \<Rightarrow> (if err = ErrNoWritableUpdate then ErrReply 422 ''no writable fields in request'' else DBReply err, w1)
         | (Inr [], w1) \<Rightarrow>
             (case ExplainTransitionFailure P (rqSchema rq) tbl (rqId rq) res sets w1 of ((status, msg), w2) \<Rightarrow> (ErrReply status msg, w2))
         | (Inr (r0 # _), w1) \<Rightarrow>
             (let r = PromoteJSONText std (JSONTextColumns res) r0;
                  w2 = Invalidate E (Publish E ''update'' (Some r) [] w1);
                  w3 = (case gm_get (Hooks res) ''after_update'' of None \<Rightarrow> w2 | Some hc \<Rightarrow> AfterHook E hc ''after_update'' (Some r) w2)
              in (RowReply 200 (Some (FilterFields r (allowedOf rq))), w3)))"

definition hookedUpdate ::
  "Std \<Rightarrow> 'w WriteEnv \<Rightarrow> string \<Rightarrow> ResourceSchema \<Rightarrow> ResourceSchema \<Rightarrow> writeReq \<Rightarrow> row \<Rightarrow> row \<Rightarrow> 'w \<Rightarrow> reply \<times> 'w" where
  "hookedUpdate std E name res wres rq body sets w =
     (let hook = gm_get (Hooks res) ''before_update'';
          next = (\<lambda>sets. checked (CheckFileAttachReach (wePool E) (Uploader E) (rqSchema rq) (weFileCols E) (wePolicy E) (rqCtx rq) wres sets)
                          (checked (CheckFilePoliciesTenant std (wePool E) (rqSchema rq) wres sets) (finishUpdate std E name res rq sets)))
      in case RunBeforeHook E hook body w of
           (Inl err, w1) \<Rightarrow> (ErrReply 500 ''internal error'', w1)
         | (Inr h, w1) \<Rightarrow>
             if \<not> Proceed h then (ErrReply 422 (hookError h), w1)
             else if hook = None then next sets w1
             else let (errs, sets1) = CoerceJSONFields std wres (adoptHook sets (hookData h))
                  in if errs \<noteq> [] then (ValidationReply errs, w1) else next sets1 w1)"

definition updateHandler ::
  "Std \<Rightarrow> 'w WriteEnv \<Rightarrow> string \<Rightarrow> ResourceSchema \<Rightarrow> ResourceSchema \<Rightarrow> ResourceValidator \<Rightarrow> bool \<Rightarrow> writeReq \<Rightarrow> 'w \<Rightarrow> reply \<times> 'w" where
  "updateHandler std E name res wres wrv put rq w =
     (case idReply std E rq of
        Some r \<Rightarrow> (r, w)
      | None \<Rightarrow>
     (case requestBody rq of
        Inl r \<Rightarrow> (r, w)
      | Inr body \<Rightarrow>
          if ValidateWrite std wrv body put \<noteq> [] then (ValidationReply (ValidateWrite std wrv body put), w)
          else case CollectUpdate std wres body put (writableFn (allowedOf rq)) of
                 (Inl errs, _) \<Rightarrow> (ValidationReply errs, w)
               | (Inr sets, body1) \<Rightarrow>
                   (case EnforceUpdateRBAC std body1 sets (rqEval rq) of
                      Inl (status, msg) \<Rightarrow> (ErrReply status msg, w)
                    | Inr sets1 \<Rightarrow>
                        (case existsSQL (pIdent (wePool E) name) (rqId rq) (condOf rq) of
                           Inl err \<Rightarrow> (DBReply (PlainError ''invalid rbac condition field''), w)
                         | Inr (q, args) \<Rightarrow>
                             (case readTenant (wePool E) (rqSchema rq) q args w of
                                (Inl err, w1) \<Rightarrow> (DBReply err, w1)
                              | (Inr rows, w1) \<Rightarrow>
                                  if rows = [] then (ErrReply 404 ''not found'', w1)
                                  else hookedUpdate std E name res wres rq body1 sets1 w1)))))"

end
