(* ===== verification/WriteBatch.thy ===== *)
theory WriteBatch
  imports WritePath
begin

text \<open>
  The atomic batch \<open>POST /api/transaction\<close> and the one confirmed write of the question interface, which share
  their cores: \<open>pkg/codegen/transaction.go\<close> and \<open>askwrite.go\<close>.  Every operation is authorised, validated and
  compiled to SQL before the transaction opens; then all of them run in it.
\<close>

section \<open>Operations\<close>

definition DefaultMaxTxOps :: int where
  "DefaultMaxTxOps = 100"

definition txGuardOps :: "string gomap" where
  "txGuardOps = [(''eq'', ''=''), (''ne'', ''<>''), (''gt'', ''>''), (''gte'', ''>=''), (''lt'', ''<''), (''lte'', ''<='')]"

record txGuard =
  gdField :: string
  gdOp :: string
  gdValue :: goany

record txOp =
  opKind :: string
  opResource :: string
  opID :: string
  opData :: row
  opGuard :: "txGuard list"

text \<open>\<open>txCause\<close> is the database error behind a verdict, \<open>txExtra\<close> the further keys of the answer.\<close>

record txError =
  txIndex :: nat
  txStatus :: int
  txMsg :: string
  txResource :: string
  txOpName :: string
  txFields :: "FieldRuleError list"
  txCause :: "goError option"
  txExtra :: "goany gomap"

definition txFail :: "int \<Rightarrow> string \<Rightarrow> txError" where
  "txFail status msg =
     \<lparr>txIndex = 0, txStatus = status, txMsg = msg, txResource = [], txOpName = [], txFields = [], txCause = None, txExtra = []\<rparr>"

definition txInvalid :: "FieldRuleError list \<Rightarrow> txError" where
  "txInvalid errs = (txFail 422 ''validation_failed'')\<lparr>txFields := errs\<rparr>"

definition named :: "string \<Rightarrow> string \<Rightarrow> txError \<Rightarrow> txError" where
  "named op resource e = e\<lparr>txOpName := op, txResource := resource\<rparr>"

text \<open>What a transaction returns: the batch's own error or one of the database layer.\<close>

datatype batchError = Infra goError | Tx txError

fun batchGo :: "batchError \<Rightarrow> goError" where
  "batchGo (Infra err) = err"
| "batchGo (Tx e) = PlainError (txMsg e)"

definition batchErrors :: "batchError errors" where
  "batchErrors = \<lparr>ofGo = Infra, asGo = batchGo\<rparr>"

record txResource =
  xrRes :: ResourceSchema
  xrTbl :: string
  xrValidator :: ResourceValidator

definition txRefs :: "Std \<Rightarrow> 'w TenantPool \<Rightarrow> APISchema \<Rightarrow> txResource gomap" where
  "txRefs std P s =
     map (\<lambda>(name, res). (name, \<lparr>xrRes = res, xrTbl = pIdent P name, xrValidator = CompileRules std res\<rparr>)) (asResources s)"

definition maxTxOps :: "string \<Rightarrow> int" where
  "maxTxOps v = (case Atoi v of Some n \<Rightarrow> if v \<noteq> [] \<and> n > 0 then n else DefaultMaxTxOps | None \<Rightarrow> DefaultMaxTxOps)"

definition fileColsOfRefs :: "txResource gomap \<Rightarrow> FileRefColumn list" where
  "fileColsOfRefs refs =
     concat (map (\<lambda>n. case gm_get refs n of
         None \<Rightarrow> []
       | Some ref \<Rightarrow> map (\<lambda>(f, _). \<lparr>frResource = n, frColumn = f\<rparr>) (eachField (\<lambda>_ fd. if fType fd = ''file'' then Some () else None) (xrRes ref))) (sortedKeys refs))"

text \<open>The file checks run on \<open>poRes\<close> and \<open>poVals\<close>: \<open>poPolicy\<close> says whether the attach policy does, \<open>poFileCols\<close> the columns for the reach
  under \<open>poFilePolicy\<close> and \<open>poFileEval\<close>.\<close>

record preparedOp =
  poKind :: string
  poSql :: string
  poArgs :: "sqlArg list"
  poResource :: string
  poEmit :: bool
  poAllowed :: "string list"
  poId :: string
  poRes :: ResourceSchema
  poVals :: row
  poPolicy :: bool
  poFileCols :: "FileRefColumn list"
  poFilePolicy :: Policy
  poFileEval :: EvalContext
  poJson :: "string list"

section \<open>Guards and statements\<close>

fun appendGuards :: "Std \<Rightarrow> ResourceSchema \<Rightarrow> string \<Rightarrow> sqlArg list \<Rightarrow> txGuard list \<Rightarrow> txError + string \<times> sqlArg list" where
  "appendGuards std res sql args [] = Inr (sql, args)"
| "appendGuards std res sql args (g # gs) =
     (case gm_get txGuardOps (gdOp g) of
        None \<Rightarrow> Inl (txFail 400 (''invalid guard op '' @ goq (gdOp g) @ '': must be one of eq, ne, gt, gte, lt, lte''))
      | Some opSQL \<Rightarrow>
          (case gm_get (Fields res) (gdField g) of
             None \<Rightarrow> Inl (txFail 400 (''unknown guard field '' @ goq (gdField g)))
           | Some fd \<Rightarrow>
               if \<not> bareIdent (gdField g) then Inl (txFail 400 (''unknown guard field '' @ goq (gdField g)))
               else if gdValue g = GNil then Inl (txFail 400 (''guard on '' @ goq (gdField g) @ '' requires a value''))
               else (case validateFieldValue std (gdField g) fd (gdValue g) of
                       Some msg \<Rightarrow> Inl (txFail 422 (''guard '' @ msg))
                     | None \<Rightarrow>
                         appendGuards std res (sql @ '' AND '' @ gdField g @ '' '' @ opSQL @ '' '' @ placeholder (length args + 1))
                           (args @ [Arg (gdValue g)]) gs)))"

definition buildUpdateSQL ::
  "Std \<Rightarrow> 'w TenantPool \<Rightarrow> string \<Rightarrow> ResourceSchema \<Rightarrow> string \<Rightarrow> string \<Rightarrow> row \<Rightarrow> WhereCondition option \<Rightarrow> txGuard list
     \<Rightarrow> txError + string \<times> sqlArg list" where
  "buildUpdateSQL std P now res tbl id' sets cond guards =
     (let cols = setColumns now res sets
      in if cols = [] then Inl (txFail 422 ''no writable fields in request'')
         else case AppendRowCondition
                     (''UPDATE '' @ tbl @ '' SET '' @ join_with '', '' (setClauses P cols) @ '' WHERE id = '' @ placeholder (length cols + 1))
                     (map (Arg \<circ> snd) cols @ [Arg (GStr id')]) cond of
                Inl err \<Rightarrow> Inl (txFail 500 ''invalid rbac condition'')
              | Inr (q, args) \<Rightarrow>
                  (case appendGuards std res q args guards of
                     Inl e \<Rightarrow> Inl e
                   | Inr (q1, args1) \<Rightarrow>
                       (case AppendStateTransitionGuard P q1 args1 res sets of
                          Inl err \<Rightarrow> Inl (txFail 422 (leafText err))
                        | Inr (q2, args2) \<Rightarrow> Inr (q2 @ '' RETURNING *'', args2))))"

definition validateOpID :: "Std \<Rightarrow> string \<Rightarrow> string option" where
  "validateOpID std i = (if i = [] then Some ''id is required'' else if uuidOk std i then None else Some ''invalid id format'')"

section \<open>Preparing an operation\<close>

text \<open>The adapter from a hook's result to data, status and message.\<close>

definition hookEval :: "'w WriteEnv \<Rightarrow> HookConfig \<Rightarrow> row \<Rightarrow> 'w \<Rightarrow> (txError + row) \<times> 'w" where
  "hookEval E hook body w =
     (case RunBeforeHook E (Some hook) body w of
        (Inl err, w1) \<Rightarrow> (Inl (txFail 500 ''internal error''), w1)
      | (Inr h, w1) \<Rightarrow> (if \<not> Proceed h then Inl (txFail 422 (hookError h)) else Inr (hookData h), w1))"

text \<open>A hook where there is one, and the JSON columns again after it.\<close>

definition hooked :: "Std \<Rightarrow> 'w WriteEnv \<Rightarrow> ResourceSchema \<Rightarrow> string \<Rightarrow> row \<Rightarrow> (row \<Rightarrow> row) \<Rightarrow> row \<Rightarrow> 'w \<Rightarrow> (txError + row) \<times> 'w" where
  "hooked std E res point body adopt vals w =
     (case gm_get (Hooks res) point of
        None \<Rightarrow> (Inr vals, w)
      | Some hc \<Rightarrow>
          (case hookEval E hc body w of
             (Inl e, w1) \<Rightarrow> (Inl e, w1)
           | (Inr nd, w1) \<Rightarrow>
               (let (errs, vals1) = CoerceJSONFields std res (adopt nd) in (if errs \<noteq> [] then Inl (txInvalid errs) else Inr vals1, w1))))"

definition prepared :: "txResource gomap \<Rightarrow> Policy \<Rightarrow> EvalContext \<Rightarrow> txOp \<Rightarrow> EvalResult \<Rightarrow> ResourceSchema \<Rightarrow> row \<Rightarrow> bool \<Rightarrow> string \<times> sqlArg list \<Rightarrow> preparedOp" where
  "prepared refs policy ctx op ev res vals emit q =
     \<lparr>poKind = opKind op, poSql = fst q, poArgs = snd q, poResource = opResource op, poEmit = emit, poAllowed = AllowedFields ev,
      poId = [], poRes = res, poVals = vals, poPolicy = resourceHasFilePolicy res, poFileCols = fileColsOfRefs refs,
      poFilePolicy = policy, poFileEval = ctx,
      poJson = JSONTextColumns res\<rparr>"

definition prepareCreateOp ::
  "Std \<Rightarrow> 'w WriteEnv \<Rightarrow> txResource gomap \<Rightarrow> Policy \<Rightarrow> EvalContext \<Rightarrow> txOp \<Rightarrow> txResource \<Rightarrow> EvalResult \<Rightarrow> 'w \<Rightarrow> (txError + preparedOp) \<times> 'w" where
  "prepareCreateOp std E refs policy ctx op ref ev w =
     (if opData op = [] then (Inl (txFail 400 ''create requires a non-empty data object''), w)
      else if opID op \<noteq> []
      then (Inl (txFail 400 (''create does not take '' @ goq ''id'' @ '': the row does not exist yet (the engine generates the id)'')), w)
      else if opGuard op \<noteq> []
      then (Inl (txFail 400 (''guard is not supported on create: a guard compares an EXISTING row'' @ [CHR 0x27] @ ''s values, and there is no row yet (guards apply to update and delete)'')), w)
      else let (verrs, data) = PrepareCreate std (weNow E) (xrRes ref) (xrValidator ref) (opData op) (Role ctx)
           in if verrs \<noteq> [] then (Inl (txInvalid verrs), w)
              else case hooked std E (xrRes ref) ''before_create'' data id data w of
                     (Inl e, w1) \<Rightarrow> (Inl e, w1)
                   | (Inr data1, w1) \<Rightarrow>
                       (case EnforceCreateRBAC std data1 (Some ev) of
                          Inl (status, msg) \<Rightarrow> (Inl (txFail status msg), w1)
                        | Inr data2 \<Rightarrow>
                            (Inr (prepared refs policy ctx op ev (xrRes ref) data2 (EmitsOn (xrRes ref) ''create'') (insertSQL (wePool E) (xrTbl ref) data2)), w1)))"

definition prepareUpdateOp ::
  "Std \<Rightarrow> 'w WriteEnv \<Rightarrow> txResource gomap \<Rightarrow> Policy \<Rightarrow> EvalContext \<Rightarrow> txOp \<Rightarrow> txResource \<Rightarrow> EvalResult \<Rightarrow> 'w \<Rightarrow> (txError + preparedOp) \<times> 'w" where
  "prepareUpdateOp std E refs policy ctx op ref ev w =
     (case validateOpID std (opID op) of
        Some msg \<Rightarrow> (Inl (txFail 400 msg), w)
      | None \<Rightarrow>
          if opData op = [] then (Inl (txFail 400 ''update requires a non-empty data object''), w)
          else if ValidateWrite std (xrValidator ref) (opData op) False \<noteq> []
          then (Inl (txInvalid (ValidateWrite std (xrValidator ref) (opData op) False)), w)
          else case CollectUpdate std (xrRes ref) (opData op) False (writableFn (AllowedFields ev)) of
                 (Inl cerrs, _) \<Rightarrow> (Inl (txInvalid cerrs), w)
               | (Inr sets, data) \<Rightarrow>
                   (case EnforceUpdateRBAC std data sets (Some ev) of
                      Inl (status, msg) \<Rightarrow> (Inl (txFail status msg), w)
                    | Inr sets1 \<Rightarrow>
                        (case hooked std E (xrRes ref) ''before_update'' data (adoptHook sets1) sets1 w of
                           (Inl e, w1) \<Rightarrow> (Inl e, w1)
                         | (Inr sets2, w1) \<Rightarrow>
                             (case buildUpdateSQL std (wePool E) (weNow E) (xrRes ref) (xrTbl ref) (opID op) sets2 (evCondition ev) (opGuard op) of
                                Inl e \<Rightarrow> (Inl e, w1)
                              | Inr q \<Rightarrow> (Inr (prepared refs policy ctx op ev (xrRes ref) sets2 (EmitsOn (xrRes ref) ''update'') q), w1)))))"

definition prepareDeleteOp ::
  "Std \<Rightarrow> txResource gomap \<Rightarrow> Policy \<Rightarrow> EvalContext \<Rightarrow> txOp \<Rightarrow> txResource \<Rightarrow> EvalResult \<Rightarrow> txError + preparedOp" where
  "prepareDeleteOp std refs policy ctx op ref ev =
     (case validateOpID std (opID op) of
        Some msg \<Rightarrow> Inl (txFail 400 msg)
      | None \<Rightarrow>
          if opData op \<noteq> []
          then Inl (txFail 400 (''delete does not take '' @ goq ''data'' @ '': it removes the row by id (to change values use update; to make the delete conditional use guard)''))
          else case runDeleteSQL (xrTbl ref) (opID op) (evCondition ev) of
                 Inl err \<Rightarrow> Inl (txFail 500 ''invalid rbac condition'')
               | Inr (q, args) \<Rightarrow>
                   (case appendGuards std (xrRes ref) q args (opGuard op) of
                      Inl e \<Rightarrow> Inl e
                    | Inr q1 \<Rightarrow>
                        Inr ((prepared refs policy ctx op ev (xrRes ref) [] (EmitsOn (xrRes ref) ''delete'') q1)
                               \<lparr>poAllowed := [], poId := opID op, poPolicy := False, poFileCols := [], poJson := []\<rparr>)))"

definition prepareTxOp ::
  "Std \<Rightarrow> 'w WriteEnv \<Rightarrow> txResource gomap \<Rightarrow> Policy \<Rightarrow> EvalContext \<Rightarrow> txOp \<Rightarrow> 'w \<Rightarrow> (txError + preparedOp) \<times> 'w" where
  "prepareTxOp std E refs policy ctx op w =
     (let fail = (\<lambda>e. Inl (named (opKind op) (opResource op) e));
          named' = (\<lambda>(r, w1). (case r of Inl e \<Rightarrow> fail e | Inr p \<Rightarrow> Inr p, w1))
      in if opKind op \<notin> {''create'', ''update'', ''delete''}
         then (fail (txFail 400 (''unknown op '' @ goq (opKind op) @ '': must be create, update or delete'')), w)
         else case gm_get refs (opResource op) of
                None \<Rightarrow> (fail (txFail 400 (''unknown resource '' @ goq (opResource op))), w)
              | Some ref \<Rightarrow>
                  (let ev = Evaluate policy ctx (opResource op) (opKind op)
                   in if \<not> Allowed ev then (fail (txFail 403 ''forbidden''), w)
                      else if opKind op = ''create'' then named' (prepareCreateOp std E refs policy ctx op ref ev w)
                      else if opKind op = ''update'' then named' (prepareUpdateOp std E refs policy ctx op ref ev w)
                      else named' (prepareDeleteOp std refs policy ctx op ref ev, w)))"

section \<open>Executing a prepared operation\<close>

definition stateGuarded :: "string \<Rightarrow> bool" where
  "stateGuarded sql = ContainsStr sql '' = ANY($''"

definition notFoundMsg :: "preparedOp \<Rightarrow> string" where
  "notFoundMsg p =
     (if stateGuarded (poSql p) then ''not found, excluded by access policy, or an invalid state transition''
      else if ContainsStr (poSql p) '' AND '' \<and> list_ex (ContainsStr (poSql p)) ['' <> '', '' >= '', '' <= '', '' > '', '' < '']
      then ''not found, excluded by access policy, or a guard condition was not met''
      else ''not found or excluded by access policy'')"

definition unavailableRule :: string where
  "unavailableRule = ''__unavailable__''"

definition dbUnavailableMarker :: "'w TenantPool \<Rightarrow> goError \<Rightarrow> FieldRuleError list" where
  "dbUnavailableMarker P err =
     (if IsUnavailable (leafUnavailable P) err \<or> IsMissingTenant err then [ruleError [] unavailableRule []] else [])"

definition rangeConflictTxError :: "RangeConflict \<Rightarrow> goError \<Rightarrow> txError" where
  "rangeConflictTxError c cause =
     (txFail 409 ''time_range_conflict'')\<lparr>txCause := Some cause, txExtra := filter (\<lambda>(k, _). k \<noteq> ''error'') (RangeConflictBody c)\<rparr>"

definition dbTxError :: "'w TenantPool \<Rightarrow> goError \<Rightarrow> txError" where
  "dbTxError P err =
     (let v = ClassifyWriteError (leafUnavailable P) (breakerOpen P) err;
          internal = (txFail 500 ''internal error'')\<lparr>txFields := dbUnavailableMarker P err\<rparr>
      in case Kind v of
           WriteErrRangeConflict \<Rightarrow> (case Conflict v of Some c \<Rightarrow> rangeConflictTxError c err | None \<Rightarrow> internal)
         | WriteErrRangeOrder \<Rightarrow> (txInvalid [ruleError (vField v) RangeOrderRule RangeOrderMessage])\<lparr>txCause := Some err\<rparr>
         | WriteErrUnique \<Rightarrow> txFail 409 (''field '' @ goq (vField v) @ '': value already exists'')
         | WriteErrUnknownColumn \<Rightarrow> txFail 422 (''unknown field: '' @ goq (vField v))
         | WriteErrFileRef \<Rightarrow> txInvalid [ruleError (vField v) ''file_not_found'' FileRefMessage]
         | WriteErrForeignKey \<Rightarrow> txFail 409 (vMessage v)
         | WriteErrBadInput \<Rightarrow> txFail 400 ''invalid request''
         | _ \<Rightarrow> internal)"

definition emitEvent :: "Std \<Rightarrow> 'w TenantPool \<Rightarrow> string \<Rightarrow> preparedOp \<Rightarrow> goany \<Rightarrow> row \<Rightarrow> 'w \<Rightarrow> (txError + row) \<times> 'w" where
  "emitEvent std P tenantID p i out w =
     (if \<not> poEmit p then (Inr out, w)
      else case enqueueCRUDEvent std P tenantID (poResource p) (poKind p) i w of
             (Some err, w1) \<Rightarrow> (Inl (named (poKind p) (poResource p) (txFail 500 ''event emission failed'')), w1)
           | (None, w1) \<Rightarrow> (Inr out, w1))"

text \<open>A file check on the open transaction, when the operation has it.\<close>

definition fileCheck ::
  "'w TenantPool \<Rightarrow> preparedOp \<Rightarrow> bool \<Rightarrow> ('w \<Rightarrow> (goError + FieldRuleError list) \<times> 'w) \<Rightarrow> ('w \<Rightarrow> (txError + row) \<times> 'w) \<Rightarrow> 'w \<Rightarrow> (txError + row) \<times> 'w" where
  "fileCheck P p needed check next w =
     (if \<not> needed then next w
      else case check w of
             (Inl err, w1) \<Rightarrow> (Inl (dbTxError P err), w1)
           | (Inr errs, w1) \<Rightarrow> if errs \<noteq> [] then (Inl (named (poKind p) (poResource p) (txInvalid errs)), w1) else next w1)"

definition execDelete :: "Std \<Rightarrow> 'w TenantPool \<Rightarrow> string \<Rightarrow> preparedOp \<Rightarrow> 'w \<Rightarrow> (txError + row) \<times> 'w" where
  "execDelete std P tenantID p w =
     (case pExec P (poSql p) (poArgs p) w of
        (Inl err, w1) \<Rightarrow> (Inl (dbTxError P err), w1)
      | (Inr n, w1) \<Rightarrow>
          if n = 0 then (Inl (named (poKind p) (poResource p) (txFail 404 (notFoundMsg p))), w1)
          else emitEvent std P tenantID p (GStr (poId p)) [(''deleted'', GBool True), (''id'', GStr (poId p))] w1)"

definition execRows :: "Std \<Rightarrow> 'w TenantPool \<Rightarrow> string \<Rightarrow> preparedOp \<Rightarrow> 'w \<Rightarrow> (txError + row) \<times> 'w" where
  "execRows std P tenantID p w =
     (case pQuery P (poSql p) (poArgs p) w of
        (Inl err, w1) \<Rightarrow> (Inl (dbTxError P err), w1)
      | (Inr rows, w1) \<Rightarrow>
          (case PromoteJSONTextRows std (poJson p) rows of
             [] \<Rightarrow> (Inl (named (poKind p) (poResource p)
                      (if poKind p = ''update''
                       then txFail (if stateGuarded (poSql p) then 422 else 404) (notFoundMsg p)
                       else txFail 500 ''insert returned no row'')), w1)
           | r # _ \<Rightarrow> emitEvent std P tenantID p (idOf r) (FilterFields r (poAllowed p)) w1))"

definition execPreparedOp :: "Std \<Rightarrow> 'w WriteEnv \<Rightarrow> string \<Rightarrow> preparedOp \<Rightarrow> 'w \<Rightarrow> (txError + row) \<times> 'w" where
  "execPreparedOp std E tenantID p w =
     (let P = wePool E
      in if poKind p = ''delete'' then execDelete std P tenantID p w
         else fileCheck P p (poFileCols p \<noteq> []) (CheckFileAttachReachTx P (Uploader E) (poFileCols p) (poFilePolicy p) (poFileEval p) (poRes p) (poVals p))
                (fileCheck P p (poPolicy p) (CheckFilePoliciesTx std P (poRes p) (poVals p)) (execRows std P tenantID p)) w)"

section \<open>The batch\<close>

text \<open>The two loops of the handler: an error carries the index of its operation.\<close>

fun mapOps :: "('x \<Rightarrow> 'w \<Rightarrow> (txError + 'y) \<times> 'w) \<Rightarrow> nat \<Rightarrow> 'x list \<Rightarrow> 'w \<Rightarrow> (txError + 'y list) \<times> 'w" where
  "mapOps step i [] w = (Inr [], w)"
| "mapOps step i (x # xs) w =
     (case step x w of
        (Inl e, w1) \<Rightarrow> (Inl (e\<lparr>txIndex := i\<rparr>), w1)
      | (Inr y, w1) \<Rightarrow>
          (case mapOps step (i + 1) xs w1 of
             (Inl e, w2) \<Rightarrow> (Inl e, w2)
           | (Inr ys, w2) \<Rightarrow> (Inr (y # ys), w2)))"

definition runBatch :: "Std \<Rightarrow> 'w WriteEnv \<Rightarrow> string \<Rightarrow> string \<Rightarrow> preparedOp list \<Rightarrow> 'w \<Rightarrow> (batchError + row list) \<times> 'w" where
  "runBatch std E tenantID pgSchema ps =
     WithTenantTx batchErrors (wePool E) pgSchema
       (\<lambda>w. case mapOps (execPreparedOp std E tenantID) 0 ps w of (r, w1) \<Rightarrow> (map_sum Tx id r, w1))"

datatype batchReply = BatchErr int string | BatchFailed txError | BatchOk "row list"

datatype batchBody = BodyTooLarge | BodyMalformed | BodyOps "txOp list"

definition writeTxError :: "'w TenantPool \<Rightarrow> batchError \<Rightarrow> batchReply" where
  "writeTxError P e =
     (case e of
        Infra err \<Rightarrow> if IsUnavailable (leafUnavailable P) err \<or> IsMissingTenant err then BatchErr 503 ''database unavailable'' else BatchErr 500 ''internal error''
      | Tx te \<Rightarrow> (case txFields te of
                  [f] \<Rightarrow> if freRule f = unavailableRule then BatchErr 503 ''database unavailable'' else BatchFailed te
                | _ \<Rightarrow> BatchFailed te))"

definition transactionHandler ::
  "Std \<Rightarrow> 'w WriteEnv \<Rightarrow> txResource gomap \<Rightarrow> Policy \<Rightarrow> int \<Rightarrow> string \<Rightarrow> string \<Rightarrow> EvalContext option \<Rightarrow> batchBody \<Rightarrow> 'w \<Rightarrow> batchReply \<times> 'w" where
  "transactionHandler std E refs policy maxOps tenantID pgSchema claims body w =
     (case claims of
        None \<Rightarrow> (BatchErr 401 ''unauthorized'', w)
      | Some ctx \<Rightarrow>
     (case body of
        BodyTooLarge \<Rightarrow> (BatchErr 413 ''request body too large'', w)
      | BodyMalformed \<Rightarrow> (BatchErr 400 ''invalid JSON body'', w)
      | BodyOps ops \<Rightarrow>
          if ops = [] then (BatchErr 400 (''no operations: provide a non-empty '' @ goq ''operations'' @ '' array''), w)
          else if int (length ops) > maxOps
          then (BatchErr 400 (''too many operations: '' @ Itoa (int (length ops)) @ '' (max '' @ Itoa maxOps @ '') '' @ emDash @ '' split into smaller transactions''), w)
          else case mapOps (prepareTxOp std E refs policy ctx) 0 ops w of
                 (Inl e, w1) \<Rightarrow> (writeTxError (wePool E) (Tx e), w1)
               | (Inr ps, w1) \<Rightarrow>
                   (case runBatch std E tenantID pgSchema ps w1 of
                      (Inl e, w2) \<Rightarrow> (writeTxError (wePool E) e, w2)
                    | (Inr results, w2) \<Rightarrow> (BatchOk results, Invalidate E w2))))"

section \<open>One confirmed write\<close>

definition toWriteError :: "txError \<Rightarrow> int \<times> string \<times> FieldRuleError list" where
  "toWriteError te =
     (if list_ex (\<lambda>f. freRule f = unavailableRule) (txFields te) then (503, ''database unavailable'', [])
      else (txStatus te, txMsg te, txFields te))"

definition askWrite ::
  "Std \<Rightarrow> 'w WriteEnv \<Rightarrow> txResource gomap \<Rightarrow> Policy \<Rightarrow> EvalContext \<Rightarrow> string \<Rightarrow> string \<Rightarrow> string \<Rightarrow> string \<Rightarrow> string \<Rightarrow> row \<Rightarrow> 'w
     \<Rightarrow> ((goError + int \<times> string \<times> FieldRuleError list) + row) \<times> 'w" where
  "askWrite std E refs policy ctx tenantID pgSchema kind resource i data w =
     (case prepareTxOp std E refs policy ctx \<lparr>opKind = kind, opResource = resource, opID = i, opData = data, opGuard = []\<rparr> w of
        (Inl te, w1) \<Rightarrow> (Inl (Inr (toWriteError te)), w1)
      | (Inr p, w1) \<Rightarrow>
          (case WithTenantTx batchErrors (wePool E) pgSchema
                  (\<lambda>w. case execPreparedOp std E tenantID p w of (r, w2) \<Rightarrow> (map_sum Tx id r, w2)) w1 of
             (Inl (Tx te), w2) \<Rightarrow> (Inl (Inr (toWriteError te)), w2)
           | (Inl (Infra err), w2) \<Rightarrow> (Inl (Inl err), w2)
           | (Inr out, w2) \<Rightarrow> (Inr out, Invalidate E w2)))"

definition askWritesEnabled :: "string \<Rightarrow> bool" where
  "askWritesEnabled v \<longleftrightarrow> ToLower (TrimSpace v) \<noteq> ''off''"

end
