(* ===== verification/SqlMeaning.thy ===== *)
theory SqlMeaning
  imports WriteSql
begin

text \<open>
  How PostgreSQL reads the statements the code builds, independently of the functions that build them: a lexer
  for the SQL text, a reader of its FROM, SET and WHERE clauses, and the rows a WHERE clause is true of.  The
  properties of writes and of file reach are stated on the text through this reader.  It covers comparisons with
  a parameter, \<open>= ANY\<close>, AND, OR and parentheses; a text it does not cover is unreadable (None), and the theorems
  conclude that the text is readable.
\<close>

section \<open>Lexemes\<close>

datatype lexeme = Word string | Ident string | Opr string | Sym char | Junk

text \<open>Where the lexer stands: between lexemes, in a word, in an operator, in a quoted identifier, or after a quote
  that may end it or be doubled.\<close>

datatype lexMode = Between | InWord string | InOpr string | InIdent string | IdentEnd string

definition wordChar :: "char \<Rightarrow> bool" where
  "wordChar c \<longleftrightarrow> identPart c \<or> is_upper c \<or> c = CHR ''$''"

definition oprChar :: "char \<Rightarrow> bool" where
  "oprChar c \<longleftrightarrow> c \<in> {CHR ''='', CHR ''<'', CHR ''>'', CHR ''!''}"

definition lexStart :: "char \<Rightarrow> lexeme list \<times> lexMode" where
  "lexStart c =
     (if c = CHR '' '' then ([], Between)
      else if c = CHR 0x22 then ([], InIdent [])
      else if wordChar c then ([], InWord [c])
      else if oprChar c then ([], InOpr [c])
      else if c \<in> {CHR ''('', CHR '')'', CHR '','', CHR ''.'', CHR ''*''} then ([Sym c], Between)
      else ([Junk], Between))"

fun lexStep :: "lexMode \<Rightarrow> char \<Rightarrow> lexeme list \<times> lexMode" where
  "lexStep Between c = lexStart c"
| "lexStep (InWord w) c = (if wordChar c then ([], InWord (w @ [c])) else apfst ((#) (Word w)) (lexStart c))"
| "lexStep (InOpr w) c = (if oprChar c then ([], InOpr (w @ [c])) else apfst ((#) (Opr w)) (lexStart c))"
| "lexStep (InIdent s) c = (if c = CHR 0x22 then ([], IdentEnd s) else ([], InIdent (s @ [c])))"
| "lexStep (IdentEnd s) c = (if c = CHR 0x22 then ([], InIdent (s @ [c])) else apfst ((#) (Ident s)) (lexStart c))"

fun lexEnd :: "lexMode \<Rightarrow> lexeme list" where
  "lexEnd Between = []"
| "lexEnd (InWord w) = [Word w]"
| "lexEnd (InOpr w) = [Opr w]"
| "lexEnd (InIdent s) = [Junk]"
| "lexEnd (IdentEnd s) = [Ident s]"

fun lexFrom :: "lexMode \<Rightarrow> string \<Rightarrow> lexeme list" where
  "lexFrom m [] = lexEnd m"
| "lexFrom m (c # cs) = (case lexStep m c of (ls, m') \<Rightarrow> ls @ lexFrom m' cs)"

definition lexSQL :: "string \<Rightarrow> lexeme list" where
  "lexSQL = lexFrom Between"

section \<open>Tokens\<close>

text \<open>The words PostgreSQL does not take for a column unless they are quoted: its reserved key words, those that may
  only be a function or a type included.\<close>

definition sqlReserved :: "string list" where
  "sqlReserved =
     [''all'', ''analyse'', ''analyze'', ''and'', ''any'', ''array'', ''as'', ''asc'', ''asymmetric'', ''authorization'', ''binary'', ''both'',
      ''case'', ''cast'', ''check'', ''collate'', ''collation'', ''column'', ''concurrently'', ''constraint'', ''create'', ''cross'',
      ''current_catalog'', ''current_date'', ''current_role'', ''current_schema'', ''current_time'', ''current_timestamp'', ''current_user'',
      ''default'', ''deferrable'', ''desc'', ''distinct'', ''do'', ''else'', ''end'', ''except'', ''false'', ''fetch'', ''for'', ''foreign'', ''freeze'',
      ''from'', ''full'', ''grant'', ''group'', ''having'', ''ilike'', ''in'', ''initially'', ''inner'', ''intersect'', ''into'', ''is'', ''isnull'',
      ''join'', ''lateral'', ''leading'', ''left'', ''like'', ''limit'', ''localtime'', ''localtimestamp'', ''natural'', ''not'', ''notnull'',
      ''null'', ''offset'', ''on'', ''only'', ''or'', ''order'', ''outer'', ''overlaps'', ''placing'', ''primary'', ''references'', ''returning'',
      ''right'', ''select'', ''session_user'', ''similar'', ''some'', ''symmetric'', ''system_user'', ''table'', ''tablesample'', ''then'', ''to'',
      ''trailing'', ''true'', ''union'', ''unique'', ''user'', ''using'', ''variadic'', ''verbose'', ''when'', ''where'', ''window'', ''with'']"

text \<open>A condition column that PostgreSQL reads as a column although the code does not quote it.\<close>

definition plainColumn :: "string \<Rightarrow> bool" where
  "plainColumn c \<longleftrightarrow> bareIdent c \<and> c \<notin> set sqlReserved"

datatype token = Col string | Par nat | Op string | Key string | Pun char | Bad

fun tokenOf :: "lexeme \<Rightarrow> token" where
  "tokenOf (Ident s) = Col s"
| "tokenOf (Opr s) = Op s"
| "tokenOf (Sym c) = Pun c"
| "tokenOf Junk = Bad"
| "tokenOf (Word w) =
     (case w of
        [] \<Rightarrow> Bad
      | c # cs \<Rightarrow>
          if c = CHR ''$'' then (if cs \<noteq> [] \<and> list_all is_digit cs then Par (digits_val cs) else Bad)
          else if ToLower w \<in> set sqlReserved then Key (ToLower w)
          else if bareIdent (ToLower w) then Col (ToLower w) else Bad)"

definition isWord :: "string \<Rightarrow> lexeme \<Rightarrow> bool" where
  "isWord k l = (case l of Word w \<Rightarrow> ToLower w = k | _ \<Rightarrow> False)"

definition afterWord :: "string \<Rightarrow> lexeme list \<Rightarrow> lexeme list" where
  "afterWord k ls = drop 1 (dropWhile (\<lambda>l. \<not> isWord k l) ls)"

section \<open>The WHERE clause\<close>

datatype sqlExpr = Compare string string nat | AnyOf string nat | SqlAnd sqlExpr sqlExpr | SqlOr sqlExpr sqlExpr

datatype item = Open | Close | AndT | OrT | Operand sqlExpr

fun items :: "token list \<Rightarrow> item list option" where
  "items [] = Some []"
| "items (t # ts) =
     (case t of
        Pun c \<Rightarrow> if c = CHR ''('' then map_option ((#) Open) (items ts)
                 else if c = CHR '')'' then map_option ((#) Close) (items ts) else None
      | Key k \<Rightarrow> if k = ''and'' then map_option ((#) AndT) (items ts)
                 else if k = ''or'' then map_option ((#) OrT) (items ts) else None
      | Col c \<Rightarrow>
          (case ts of
             Op q # Par n # us \<Rightarrow> map_option ((#) (Operand (Compare c q n))) (items us)
           | Op q # Key k # Pun l # Par n # Pun r # us \<Rightarrow>
               if q = ''='' \<and> k = ''any'' \<and> l = CHR ''('' \<and> r = CHR '')''
               then map_option ((#) (Operand (AnyOf c n))) (items us) else None
           | _ \<Rightarrow> None)
      | _ \<Rightarrow> None)"

text \<open>One open parenthesis: the alternatives already read, the conjunction under way, and whether an operand is due.
  AND binds tighter than OR.\<close>

type_synonym frame = "sqlExpr option \<times> sqlExpr option"

definition joinOr :: "sqlExpr option \<Rightarrow> sqlExpr \<Rightarrow> sqlExpr" where
  "joinOr d e = (case d of None \<Rightarrow> e | Some d' \<Rightarrow> SqlOr d' e)"

definition joinAnd :: "sqlExpr option \<Rightarrow> sqlExpr \<Rightarrow> sqlExpr" where
  "joinAnd d e = (case d of None \<Rightarrow> e | Some d' \<Rightarrow> SqlAnd d' e)"

fun readItems :: "frame list \<Rightarrow> bool \<Rightarrow> item list \<Rightarrow> sqlExpr option" where
  "readItems fs due [] = (case fs of [(d, Some e)] \<Rightarrow> if due then None else Some (joinOr d e) | _ \<Rightarrow> None)"
| "readItems fs due (Operand e # is) =
     (case fs of (d, c) # up \<Rightarrow> if due then readItems ((d, Some (joinAnd c e)) # up) False is else None | [] \<Rightarrow> None)"
| "readItems fs due (AndT # is) = (if due then None else readItems fs True is)"
| "readItems fs due (OrT # is) =
     (case fs of (d, Some e) # up \<Rightarrow> if due then None else readItems ((Some (joinOr d e), None) # up) True is | _ \<Rightarrow> None)"
| "readItems fs due (Open # is) = (if due then readItems ((None, None) # fs) True is else None)"
| "readItems fs due (Close # is) =
     (case fs of
        (d, Some e) # (d', c') # up \<Rightarrow> if due then None else readItems ((d', Some (joinAnd c' (joinOr d e))) # up) False is
      | _ \<Rightarrow> None)"

definition clauseEnd :: "lexeme \<Rightarrow> bool" where
  "clauseEnd l \<longleftrightarrow> isWord ''returning'' l \<or> isWord ''limit'' l \<or> isWord ''order'' l \<or> isWord ''group'' l"

definition sqlWhere :: "string \<Rightarrow> sqlExpr option" where
  "sqlWhere q =
     (let ls = lexSQL q
      in if Junk \<in> set ls then None
         else Option.bind (items (map tokenOf (takeWhile (\<lambda>l. \<not> clauseEnd l) (afterWord ''where'' ls)))) (readItems [(None, None)] True))"

section \<open>The other clauses\<close>

text \<open>The table after a word, with the schema that qualifies it, if any.\<close>

definition tableAfter :: "string \<Rightarrow> string \<Rightarrow> (string option \<times> string) option" where
  "tableAfter k q =
     (case map tokenOf (afterWord k (lexSQL q)) of
        Col s # Pun d # Col t # _ \<Rightarrow> if d = CHR ''.'' then Some (Some s, t) else None
      | Col t # _ \<Rightarrow> Some (None, t)
      | _ \<Rightarrow> None)"

text \<open>The assignments of an UPDATE: a column and the parameter it takes.\<close>

fun readSets :: "token list \<Rightarrow> (string \<times> nat) list option" where
  "readSets (Col c # Op q # Par n # ts) =
     (if q \<noteq> ''='' then None
      else case ts of
             [] \<Rightarrow> Some [(c, n)]
           | Pun p # us \<Rightarrow> if p = CHR '','' then map_option ((#) (c, n)) (readSets us) else None
           | _ \<Rightarrow> None)"
| "readSets _ = None"

definition sqlSets :: "string \<Rightarrow> (string \<times> nat) list option" where
  "sqlSets q = readSets (map tokenOf (takeWhile (\<lambda>l. \<not> isWord ''where'' l) (afterWord ''set'' (lexSQL q))))"

section \<open>Meaning on rows\<close>

definition argAt :: "sqlArg list \<Rightarrow> nat \<Rightarrow> sqlArg option" where
  "argAt args n = (if 0 < n \<and> n \<le> length args then Some (args ! (n - 1)) else None)"

text \<open>SQL equality of a stored value and a parameter: neither is null and they print the same.\<close>

definition sqlEq :: "Std \<Rightarrow> goany option \<Rightarrow> goany \<Rightarrow> bool" where
  "sqlEq std cell v = (case cell of None \<Rightarrow> False | Some c \<Rightarrow> c \<noteq> GNil \<and> v \<noteq> GNil \<and> sprintV std c = sprintV std v)"

text \<open>Whether the clause is true of a row; the meaning of the other comparison operators is the parameter \<open>cmp\<close>.
  There is no negation, so false and unknown need not be told apart.\<close>

type_synonym comparison = "string \<Rightarrow> goany option \<Rightarrow> goany \<Rightarrow> bool"

fun sqlTrue :: "Std \<Rightarrow> comparison \<Rightarrow> sqlArg list \<Rightarrow> row \<Rightarrow> sqlExpr \<Rightarrow> bool" where
  "sqlTrue std cmp args r (Compare c q n) =
     (case argAt args n of Some (Arg v) \<Rightarrow> if q = ''='' then sqlEq std (gm_get r c) v else cmp q (gm_get r c) v | _ \<Rightarrow> False)"
| "sqlTrue std cmp args r (AnyOf c n) =
     (case argAt args n of Some (ArgStrings ss) \<Rightarrow> list_ex (\<lambda>s. sqlEq std (gm_get r c) (GStr s)) ss | _ \<Rightarrow> False)"
| "sqlTrue std cmp args r (SqlAnd a b) = (sqlTrue std cmp args r a \<and> sqlTrue std cmp args r b)"
| "sqlTrue std cmp args r (SqlOr a b) = (sqlTrue std cmp args r a \<or> sqlTrue std cmp args r b)"

text \<open>The rows a statement touches, and the row an UPDATE leaves, both read from the text.\<close>

definition touches :: "Std \<Rightarrow> comparison \<Rightarrow> string \<Rightarrow> sqlArg list \<Rightarrow> row \<Rightarrow> bool" where
  "touches std cmp q args r = (case sqlWhere q of Some e \<Rightarrow> sqlTrue std cmp args r e | None \<Rightarrow> False)"

definition assign :: "sqlArg list \<Rightarrow> string \<times> nat \<Rightarrow> row \<Rightarrow> row" where
  "assign args = (\<lambda>(c, n) r. case argAt args n of Some (Arg v) \<Rightarrow> gm_put c v r | _ \<Rightarrow> r)"

definition rowAfter :: "string \<Rightarrow> sqlArg list \<Rightarrow> row \<Rightarrow> row" where
  "rowAfter q args r = (case sqlSets q of Some cs \<Rightarrow> fold (assign args) cs r | None \<Rightarrow> r)"

text \<open>pgx quotes an identifier and doubles the quotes inside it.\<close>

definition quotesNames :: "'w TenantPool \<Rightarrow> bool" where
  "quotesNames P \<longleftrightarrow> (\<forall>s. bareIdent s \<longrightarrow> pIdent P s = pgIdent s)"

section \<open>Reading text back\<close>

text \<open>Text that no word, operator or identifier can run on into.\<close>

definition apart :: "string \<Rightarrow> bool" where
  "apart s \<longleftrightarrow> s = [] \<or> hd s \<in> {CHR '' '', CHR '','', CHR ''.'', CHR ''('', CHR '')''}"

lemma apart_simps [simp]:
  "apart []" "apart (CHR '' '' # s)" "apart (CHR '','' # s)" "apart (CHR ''.'' # s)" "apart (CHR ''('' # s)" "apart (CHR '')'' # s)"
  by (simp_all add: apart_def)

lemma lex_word:
  assumes "list_all wordChar xs" "apart rest"
  shows "lexFrom (InWord w) (xs @ rest) = Word (w @ xs) # lexFrom Between rest"
  using assms
proof (induction xs arbitrary: w)
  case Nil
  then show ?case
    by (cases rest) (auto simp: apart_def wordChar_def identPart_def identStart_def is_digit_def is_upper_def split: prod.split)
qed auto

lemma lex_opr:
  assumes "list_all oprChar xs" "apart rest"
  shows "lexFrom (InOpr w) (xs @ rest) = Opr (w @ xs) # lexFrom Between rest"
  using assms
proof (induction xs arbitrary: w)
  case Nil
  then show ?case by (cases rest) (auto simp: apart_def oprChar_def split: prod.split)
qed auto

lemma lex_identBody: "apart rest \<Longrightarrow> lexFrom (InIdent w) (doubleQuotes (CHR 0x22) s @ CHR 0x22 # rest) = Ident (w @ s) # lexFrom Between rest"
proof (induction s arbitrary: w)
  case Nil
  then show ?case by (cases rest) (auto simp: doubleQuotes_def apart_def split: prod.split)
qed (auto simp: doubleQuotes_def)

lemma lex_words:
  assumes "w \<noteq> []" "list_all wordChar w" "apart rest"
  shows "lexFrom Between (w @ rest) = Word w # lexFrom Between rest"
proof (cases w)
  case (Cons c cs)
  then have "c \<noteq> CHR '' ''" "c \<noteq> CHR 0x22"
    using assms(2) by (auto simp: wordChar_def identPart_def identStart_def is_digit_def is_upper_def)
  then show ?thesis using lex_word [of cs rest "[c]"] assms Cons by (simp add: lexStart_def)
qed (use assms in simp)

lemma lex_oprs:
  assumes "w \<noteq> []" "list_all oprChar w" "apart rest"
  shows "lexFrom Between (w @ rest) = Opr w # lexFrom Between rest"
proof (cases w)
  case (Cons c cs)
  then have "c \<noteq> CHR '' ''" "c \<noteq> CHR 0x22" "\<not> wordChar c"
    using assms(2) by (auto simp: oprChar_def wordChar_def identPart_def identStart_def is_digit_def is_upper_def)
  then show ?thesis using lex_opr [of cs rest "[c]"] assms Cons by (simp add: lexStart_def)
qed (use assms in simp)

lemma lex_pgIdent: "apart rest \<Longrightarrow> lexFrom Between (pgIdent s @ rest) = Ident s # lexFrom Between rest"
  using lex_identBody [of rest "[]" s] by (simp add: pgIdent_def quoted_def lexStart_def)

lemma lex_punct [simp]:
  "lexFrom Between (CHR '' '' # rest) = lexFrom Between rest"
  "lexFrom Between (CHR '','' # rest) = Sym (CHR '','') # lexFrom Between rest"
  "lexFrom Between (CHR ''.'' # rest) = Sym (CHR ''.'') # lexFrom Between rest"
  "lexFrom Between (CHR ''('' # rest) = Sym (CHR ''('') # lexFrom Between rest"
  "lexFrom Between (CHR '')'' # rest) = Sym (CHR '')'') # lexFrom Between rest"
  by (simp_all add: lexStart_def wordChar_def oprChar_def identPart_def identStart_def is_digit_def is_upper_def)

declare lexFrom.simps(2) [simp del]

lemma bare_word: "bareIdent c \<Longrightarrow> c \<noteq> [] \<and> list_all wordChar c \<and> ToLower c = c \<and> hd c \<noteq> CHR ''$''"
proof (cases c)
  case (Cons x xs)
  assume "bareIdent c"
  then have part: "identPart y" if "y \<in> set c" for y using that Cons by (auto simp: identPart_def list_all_iff)
  have "wordChar y \<and> \<not> is_upper y" if "y \<in> set c" for y
    using part [OF that] by (auto simp: wordChar_def identPart_def identStart_def is_digit_def is_upper_def)
  moreover have "x \<noteq> CHR ''$''" using \<open>bareIdent c\<close> Cons by (auto simp: identStart_def)
  ultimately show ?thesis using Cons by (auto simp: list_all_iff ToLower_id)
qed simp

lemma digits_word: "list_all wordChar (nat_digits n)" "nat_digits n \<noteq> []"
  using nat_digits_all [of n] by (auto simp: list_all_iff wordChar_def identPart_def)

definition paramWord :: "nat \<Rightarrow> lexeme" where
  "paramWord n = Word (CHR ''$'' # nat_digits n)"

lemma lex_placeholder: "apart rest \<Longrightarrow> lexFrom Between (placeholder n @ rest) = paramWord n # lexFrom Between rest"
  using lex_words [of "CHR ''$'' # nat_digits n" rest] digits_word [of n]
  by (simp add: placeholder_def Itoa_def paramWord_def wordChar_def)

lemma tokenOf_param [simp]: "tokenOf (paramWord n) = Par n"
  using nat_digits_all [of n] by (simp add: paramWord_def digits_val_nat_digits)

lemma lex_bare: "bareIdent c \<Longrightarrow> apart rest \<Longrightarrow> lexFrom Between (c @ rest) = Word c # lexFrom Between rest"
  using lex_words [of c rest] bare_word [of c] by simp

lemma tokenOf_plain: "plainColumn c \<Longrightarrow> tokenOf (Word c) = Col c"
  using bare_word [of c] by (cases c) (auto simp: plainColumn_def)

declare tokenOf.simps(5) [simp del]

lemma isWord_simps [simp]:
  "\<not> isWord k (Ident s)" "\<not> isWord k (Opr s)" "\<not> isWord k (Sym c)" "isWord k (Word w) = (ToLower w = k)"
  by (simp_all add: isWord_def)

lemma isWord_param: "k = [] \<or> hd k \<noteq> CHR ''$'' \<Longrightarrow> \<not> isWord k (paramWord n)"
  by (auto simp: paramWord_def ToLower_def lower_char_def is_upper_def)

lemma clauseEnd_plain: "plainColumn c \<Longrightarrow> \<not> clauseEnd (Word c)"
proof -
  have "''returning'' \<in> set sqlReserved" "''limit'' \<in> set sqlReserved" "''order'' \<in> set sqlReserved" "''group'' \<in> set sqlReserved"
    by code_simp+
  then show "plainColumn c \<Longrightarrow> \<not> clauseEnd (Word c)"
    using bare_word [of c] by (auto simp: plainColumn_def clauseEnd_def)
qed

lemma clauseEnd_simps [simp]:
  "\<not> clauseEnd (Ident s)" "\<not> clauseEnd (Opr s)" "\<not> clauseEnd (Sym c)" "\<not> clauseEnd (paramWord n)"
  "\<not> clauseEnd (Word ''AND'')" "\<not> clauseEnd (Word ''OR'')" "\<not> clauseEnd (Word ''ANY'')"
  by (simp_all add: clauseEnd_def isWord_param ToLower_def)

lemma paramWord_word [simp]: "paramWord n \<noteq> Junk"
  by (simp add: paramWord_def)

end
