(* ===== verification/WriteFacts.thy ===== *)
theory WriteFacts
  imports WriteBatch SqlMeaning
begin

text \<open>
  What the statements of a write mean.  The WHERE clause of an update or a delete is a list of conjuncts; the
  text the code assembles is shown to be its print, and its meaning on a row is evaluated here.  On that rest the
  lifecycle of state fields, the ownership of rows, and the agreement of the batch with the single write.
\<close>

section \<open>Conjuncts and their meaning\<close>

text \<open>A comparison with a parameter, and the transition guard: equal to one parameter or among the list in
  another.  Parameters are numbered from one.\<close>

datatype conjunct = Cmp string string nat | OneOf string nat nat

fun printConjunct :: "'w TenantPool \<Rightarrow> conjunct \<Rightarrow> string" where
  "printConjunct P (Cmp c op n) = c @ '' '' @ op @ '' '' @ placeholder n"
| "printConjunct P (OneOf f i j) =
     ''('' @ pIdent P f @ '' = '' @ placeholder i @ '' OR '' @ pIdent P f @ '' = ANY('' @ placeholder j @ ''))''"

definition printWhere :: "'w TenantPool \<Rightarrow> string \<Rightarrow> conjunct list \<Rightarrow> string" where
  "printWhere P head cs = head @ '' WHERE '' @ join_with '' AND '' (map (printConjunct P) cs)"

text \<open>The meaning of the other comparison operators is the parameter \<open>cmp\<close>.\<close>

fun holdsOne :: "Std \<Rightarrow> (string \<Rightarrow> goany option \<Rightarrow> goany \<Rightarrow> bool) \<Rightarrow> sqlArg list \<Rightarrow> row \<Rightarrow> conjunct \<Rightarrow> bool" where
  "holdsOne std cmp args r (Cmp c op n) =
     (case argAt args n of
        Some (Arg v) \<Rightarrow> if op = ''='' then sqlEq std (gm_get r c) v else cmp op (gm_get r c) v
      | _ \<Rightarrow> False)"
| "holdsOne std cmp args r (OneOf f i j) =
     ((case argAt args i of Some (Arg v) \<Rightarrow> sqlEq std (gm_get r f) v | _ \<Rightarrow> False) \<or>
      (case argAt args j of Some (ArgStrings ss) \<Rightarrow> list_ex (\<lambda>s. sqlEq std (gm_get r f) (GStr s)) ss | _ \<Rightarrow> False))"

definition holds :: "Std \<Rightarrow> (string \<Rightarrow> goany option \<Rightarrow> goany \<Rightarrow> bool) \<Rightarrow> sqlArg list \<Rightarrow> conjunct list \<Rightarrow> row \<Rightarrow> bool" where
  "holds std cmp args cs r = list_all (holdsOne std cmp args r) cs"

section \<open>The printed text reads back\<close>

fun conjExpr :: "conjunct \<Rightarrow> sqlExpr" where
  "conjExpr (Cmp c op n) = Compare c op n"
| "conjExpr (OneOf f i j) = SqlOr (Compare f ''='' i) (AnyOf f j)"

definition whereExpr :: "conjunct list \<Rightarrow> sqlExpr" where
  "whereExpr cs = foldl SqlAnd (conjExpr (hd cs)) (map conjExpr (tl cs))"

fun okConjunct :: "conjunct \<Rightarrow> bool" where
  "okConjunct (Cmp c op n) = (plainColumn c \<and> op \<noteq> [] \<and> list_all oprChar op)"
| "okConjunct (OneOf f i j) = bareIdent f"

fun conjLex :: "conjunct \<Rightarrow> lexeme list" where
  "conjLex (Cmp c op n) = [Word c, Opr op, paramWord n]"
| "conjLex (OneOf f i j) =
     [Sym (CHR ''(''), Ident f, Opr ''='', paramWord i, Word ''OR'', Ident f, Opr ''='', Word ''ANY'', Sym (CHR ''(''), paramWord j,
      Sym (CHR '')''), Sym (CHR '')'')]"

fun joinLex :: "conjunct list \<Rightarrow> lexeme list" where
  "joinLex [] = []"
| "joinLex [c] = conjLex c"
| "joinLex (c # d # cs) = conjLex c @ Word ''AND'' # joinLex (d # cs)"

lemma keyword_words: "list_all wordChar ''WHERE''" "list_all wordChar ''AND''" "list_all wordChar ''OR''" "list_all wordChar ''ANY''"
  "list_all oprChar ''=''"
  by code_simp+

lemmas lex_keywords =
  lex_words [OF _ keyword_words(1), simplified] lex_words [OF _ keyword_words(2), simplified] lex_words [OF _ keyword_words(3), simplified]
  lex_words [OF _ keyword_words(4), simplified] lex_oprs [OF _ keyword_words(5), simplified]

lemma lex_conjunct:
  assumes "quotesNames P" "okConjunct c" "apart rest"
  shows "lexFrom Between (printConjunct P c @ rest) = conjLex c @ lexFrom Between rest"
  using assms
  by (cases c) (auto simp: plainColumn_def quotesNames_def lex_bare lex_oprs lex_placeholder lex_pgIdent lex_keywords)

lemma lex_conjuncts:
  assumes "quotesNames P" "list_all okConjunct cs" "apart rest"
  shows "lexFrom Between (join_with '' AND '' (map (printConjunct P) cs) @ rest) = joinLex cs @ lexFrom Between rest"
  using assms(2,3)
  by (induction cs rule: joinLex.induct) (auto simp: lex_conjunct [OF assms(1)] lex_keywords)

lemma tokens_keyword [simp]: "tokenOf (Word ''AND'') = Key ''and''" "tokenOf (Word ''OR'') = Key ''or''" "tokenOf (Word ''ANY'') = Key ''any''"
  by code_simp+

fun conjItems :: "conjunct \<Rightarrow> item list" where
  "conjItems (Cmp c op n) = [Operand (Compare c op n)]"
| "conjItems (OneOf f i j) = [Open, Operand (Compare f ''='' i), OrT, Operand (AnyOf f j), Close]"

fun joinItems :: "conjunct list \<Rightarrow> item list" where
  "joinItems [] = []"
| "joinItems [c] = conjItems c"
| "joinItems (c # d # cs) = conjItems c @ AndT # joinItems (d # cs)"

lemma items_conjunct: "okConjunct c \<Longrightarrow> items (map tokenOf (conjLex c) @ ts) = map_option ((@) (conjItems c)) (items ts)"
  by (cases c; cases "items ts") (auto simp: tokenOf_plain)

lemma items_conjuncts: "list_all okConjunct cs \<Longrightarrow> items (map tokenOf (joinLex cs)) = Some (joinItems cs)"
proof (induction cs rule: joinLex.induct)
  case (2 c)
  then show ?case using items_conjunct [of c "[]"] by simp
qed (auto simp: items_conjunct)

lemma readItems_conjunct:
  "readItems ((d, e) # up) True (conjItems c @ is) = readItems ((d, Some (joinAnd e (conjExpr c))) # up) False is"
  by (cases c) (auto simp: joinOr_def joinAnd_def)

lemma readItems_conjuncts:
  "cs \<noteq> [] \<Longrightarrow> readItems [(None, e)] True (joinItems cs) = Some (foldl SqlAnd (joinAnd e (conjExpr (hd cs))) (map conjExpr (tl cs)))"
proof (induction cs arbitrary: e rule: joinItems.induct)
  case (2 c)
  then show ?case using readItems_conjunct [of None e "[]" c "[]"] by (simp add: joinOr_def)
next
  case (3 c d cs)
  then show ?case by (simp add: readItems_conjunct joinAnd_def)
qed simp

lemma conjLex_clean: "okConjunct c \<Longrightarrow> l \<in> set (conjLex c) \<Longrightarrow> l \<noteq> Junk \<and> \<not> clauseEnd l"
  by (cases c) (auto simp: clauseEnd_plain)

lemma joinLex_clean: "list_all okConjunct cs \<Longrightarrow> l \<in> set (joinLex cs) \<Longrightarrow> l \<noteq> Junk \<and> \<not> clauseEnd l"
proof (induction cs rule: joinLex.induct)
  case (3 c d cs)
  then show ?case using conjLex_clean [of c l] by auto
qed (auto dest: conjLex_clean)

lemma lex_print:
  assumes "quotesNames P" "list_all okConjunct cs" "apart tail" "\<And>rest. lexFrom Between (head @ CHR '' '' # rest) = hl @ lexFrom Between rest"
  shows "lexSQL (printWhere P head cs @ tail) = hl @ Word ''WHERE'' # joinLex cs @ lexFrom Between tail"
  by (simp add: lexSQL_def printWhere_def assms(4) lex_keywords lex_conjuncts [OF assms(1-3)])

lemma where_word: "isWord ''where'' (Word ''WHERE'')"
  by code_simp

lemma sqlWhere_print:
  assumes "quotesNames P" "cs \<noteq> []" "list_all okConjunct cs"
    and head: "\<And>rest. lexFrom Between (head @ CHR '' '' # rest) = hl @ lexFrom Between rest" "\<forall>l \<in> set hl. l \<noteq> Junk \<and> \<not> isWord ''where'' l"
    and tail: "apart tail" "Junk \<notin> set (lexFrom Between tail)" "lexFrom Between tail = [] \<or> clauseEnd (hd (lexFrom Between tail))"
  shows "sqlWhere (printWhere P head cs @ tail) = Some (whereExpr cs)"
proof -
  let ?t = "lexFrom Between tail"
  note lex = lex_print [OF assms(1,3) tail(1) head(1)]
  have "dropWhile (\<lambda>l. \<not> isWord ''where'' l) (hl @ Word ''WHERE'' # joinLex cs @ ?t) = Word ''WHERE'' # joinLex cs @ ?t"
    using head(2) where_word by (subst dropWhile_append2) auto
  then have after: "afterWord ''where'' (lexSQL (printWhere P head cs @ tail)) = joinLex cs @ ?t"
    by (simp add: afterWord_def lex)
  have "takeWhile (\<lambda>l. \<not> clauseEnd l) (joinLex cs @ ?t) = joinLex cs"
    using joinLex_clean [OF assms(3)] tail(3) by (cases ?t) (simp_all add: takeWhile_append2 takeWhile_eq_all_conv)
  moreover have "Junk \<notin> set (lexSQL (printWhere P head cs @ tail))"
    using joinLex_clean [OF assms(3)] head(2) tail(2) by (auto simp: lex)
  ultimately show ?thesis
    using readItems_conjuncts [OF assms(2), of None]
    by (simp add: sqlWhere_def after items_conjuncts [OF assms(3)] whereExpr_def joinAnd_def)
qed

lemma sqlTrue_whereExpr: "cs \<noteq> [] \<Longrightarrow> sqlTrue std cmp args r (whereExpr cs) = holds std cmp args cs r"
proof -
  have one: "sqlTrue std cmp args r (conjExpr c) = holdsOne std cmp args r c" for c
    by (cases c) (auto split: option.splits sqlArg.splits)
  have "sqlTrue std cmp args r (foldl SqlAnd e (map conjExpr ds)) = (sqlTrue std cmp args r e \<and> list_all (holdsOne std cmp args r) ds)" for e ds
    by (induction ds arbitrary: e) (auto simp: one)
  then show "cs \<noteq> [] \<Longrightarrow> sqlTrue std cmp args r (whereExpr cs) = holds std cmp args cs r"
    by (cases cs) (simp_all add: whereExpr_def holds_def one)
qed

section \<open>The clauses of the statements\<close>

definition condClause :: "WhereCondition option \<Rightarrow> nat \<Rightarrow> conjunct list" where
  "condClause cond n = (case cond of None \<Rightarrow> [] | Some c \<Rightarrow> [Cmp (wField c) ''='' (n + 1)])"

definition condArgs :: "WhereCondition option \<Rightarrow> sqlArg list" where
  "condArgs cond = (case cond of None \<Rightarrow> [] | Some c \<Rightarrow> [Arg (GStr (wValue c))])"

fun guardClauses :: "txGuard list \<Rightarrow> nat \<Rightarrow> conjunct list" where
  "guardClauses [] n = []"
| "guardClauses (g # gs) n = Cmp (gdField g) (the (gm_get txGuardOps (gdOp g))) (n + 1) # guardClauses gs (n + 1)"

definition guardArgs :: "txGuard list \<Rightarrow> sqlArg list" where
  "guardArgs gs = map (Arg \<circ> gdValue) gs"

fun stateClauses :: "ResourceSchema \<Rightarrow> string list \<Rightarrow> nat \<Rightarrow> conjunct list" where
  "stateClauses res [] n = []"
| "stateClauses res (f # fs) n =
     (if stateMachineOf res f = None then stateClauses res fs n else OneOf f (n + 1) (n + 2) # stateClauses res fs (n + 2))"

fun stateArgs :: "ResourceSchema \<Rightarrow> row \<Rightarrow> string list \<Rightarrow> sqlArg list" where
  "stateArgs res sets [] = []"
| "stateArgs res sets (f # fs) =
     (case (stateMachineOf res f, gm_get sets f) of
        (Some sm, Some (GStr s)) \<Rightarrow> Arg (GStr s) # ArgStrings (OriginsOf sm s) # stateArgs res sets fs
      | _ \<Rightarrow> stateArgs res sets fs)"

definition updateWhere :: "ResourceSchema \<Rightarrow> row \<Rightarrow> WhereCondition option \<Rightarrow> txGuard list \<Rightarrow> nat \<Rightarrow> conjunct list" where
  "updateWhere res sets cond guards n =
     Cmp ''id'' ''='' (n + 1) # condClause cond (n + 1) @
     guardClauses guards (n + 1 + length (condArgs cond)) @
     stateClauses res (sortedKeys sets) (n + 1 + length (condArgs cond) + length guards)"

definition updateHead :: "'w TenantPool \<Rightarrow> string \<Rightarrow> (string \<times> goany) list \<Rightarrow> string" where
  "updateHead P tbl cols = ''UPDATE '' @ tbl @ '' SET '' @ join_with '', '' (setClauses P cols)"

definition updateArgs :: "ResourceSchema \<Rightarrow> (string \<times> goany) list \<Rightarrow> string \<Rightarrow> row \<Rightarrow> WhereCondition option \<Rightarrow> txGuard list \<Rightarrow> sqlArg list" where
  "updateArgs res cols i sets cond guards =
     map (Arg \<circ> snd) cols @ [Arg (GStr i)] @ condArgs cond @ guardArgs guards @ stateArgs res sets (sortedKeys sets)"

section \<open>The assembled text is their print\<close>

lemma join_with_snoc: "xs \<noteq> [] \<Longrightarrow> join_with sep (xs @ [y]) = join_with sep xs @ sep @ y"
  by (induction sep xs rule: join_with.induct) auto

lemma printWhere_snoc: "cs \<noteq> [] \<Longrightarrow> printWhere P head (cs @ [c]) = printWhere P head cs @ '' AND '' @ printConjunct P c"
  by (simp add: printWhere_def join_with_snoc)

lemma AppendRowCondition_prints:
  assumes "cs \<noteq> []" "AppendRowCondition (printWhere P head cs) args cond = Inr (q, args')"
  shows "q = printWhere P head (cs @ condClause cond (length args)) \<and> args' = args @ condArgs cond"
  using assms
  by (auto simp: AppendRowCondition_def condClause_def condArgs_def printWhere_snoc split: option.splits if_splits)

lemma appendGuards_prints:
  assumes "appendGuards std res (printWhere P head cs) args gs = Inr (q, args')" "cs \<noteq> []"
  shows "q = printWhere P head (cs @ guardClauses gs (length args)) \<and> args' = args @ guardArgs gs"
  using assms
proof (induction gs arbitrary: cs args)
  case Nil
  then show ?case by (simp add: guardArgs_def)
next
  case (Cons g gs)
  let ?c = "Cmp (gdField g) (the (gm_get txGuardOps (gdOp g))) (length args + 1)"
  from Cons.prems have "appendGuards std res (printWhere P head (cs @ [?c])) (args @ [Arg (gdValue g)]) gs = Inr (q, args')"
    by (auto simp: printWhere_snoc split: option.splits if_splits)
  from Cons.IH [OF this] show ?case by (simp add: guardArgs_def)
qed

lemma guardFields_prints:
  assumes "guardFields P res sets fs (printWhere P head cs) args = Inr (q, args')" "cs \<noteq> []"
  shows "q = printWhere P head (cs @ stateClauses res fs (length args)) \<and> args' = args @ stateArgs res sets fs"
  using assms
proof (induction fs arbitrary: cs args)
  case Nil
  then show ?case by simp
next
  case (Cons f fs)
  show ?case
  proof (cases "stateMachineOf res f")
    case None
    then show ?thesis using Cons by simp
  next
    case (Some sm)
    let ?c = "OneOf f (length args + 1) (length args + 2)"
    from Some Cons.prems obtain s where s: "gm_get sets f = Some (GStr s)"
      by (auto split: option.splits goany.splits)
    with Some Cons.prems
    have "guardFields P res sets fs (printWhere P head (cs @ [?c])) (args @ [Arg (GStr s), ArgStrings (OriginsOf sm s)]) = Inr (q, args')"
      by (simp add: printWhere_snoc)
    from Cons.IH [OF this] show ?thesis by (simp add: Some s)
  qed
qed

lemma update_start:
  "''UPDATE '' @ tbl @ '' SET '' @ join_with '', '' (setClauses P cols) @ '' WHERE id = '' @ placeholder n =
   printWhere P (updateHead P tbl cols) [Cmp ''id'' ''='' n]"
  by (simp add: printWhere_def updateHead_def)

text \<open>The batch's update statement, and the single one as the case without guards.\<close>

lemma buildUpdateSQL_prints:
  assumes "buildUpdateSQL std P now res tbl i sets cond guards = Inr (q, args)"
  shows "q = printWhere P (updateHead P tbl (setColumns now res sets)) (updateWhere res sets cond guards (length (setColumns now res sets))) @ '' RETURNING *''
         \<and> args = updateArgs res (setColumns now res sets) i sets cond guards"
proof -
  let ?cols = "setColumns now res sets"
  let ?h = "updateHead P tbl ?cols" and ?c0 = "[Cmp ''id'' ''='' (length ?cols + 1)]"
  from assms [unfolded buildUpdateSQL_def Let_def update_start] obtain q1 a1 q2 a2 q3 where
    1: "AppendRowCondition (printWhere P ?h ?c0) (map (Arg \<circ> snd) ?cols @ [Arg (GStr i)]) cond = Inr (q1, a1)" and
    2: "appendGuards std res q1 a1 guards = Inr (q2, a2)" and
    3: "AppendStateTransitionGuard P q2 a2 res sets = Inr (q3, args)" and q: "q = q3 @ '' RETURNING *''"
    by (auto split: if_splits sum.splits prod.splits)
  note s1 = AppendRowCondition_prints [OF _ 1, simplified]
  note s2 = appendGuards_prints [OF 2 [unfolded s1 [THEN conjunct1]], simplified]
  show ?thesis
    using guardFields_prints [OF 3 [unfolded AppendStateTransitionGuard_def s2 [THEN conjunct1]]] s1 s2 q
    by (simp add: updateWhere_def updateArgs_def condArgs_def guardArgs_def add.commute add.left_commute split: option.splits)
qed

text \<open>A single update and a batched one without guards are the same statement, or both are refused.\<close>

lemma single_batch_same:
  "runUpdateSQL P now res tbl i sets cond = Inr (q, args) \<longleftrightarrow> buildUpdateSQL std P now res tbl i sets cond [] = Inr (q, args)"
  unfolding runUpdateSQL_def buildUpdateSQL_def Let_def by (auto split: sum.splits prod.splits)

definition updateIssued ::
  "Std \<Rightarrow> 'w TenantPool \<Rightarrow> string \<Rightarrow> ResourceSchema \<Rightarrow> string \<Rightarrow> string \<Rightarrow> row \<Rightarrow> WhereCondition option \<Rightarrow> txGuard list
     \<Rightarrow> string \<Rightarrow> sqlArg list \<Rightarrow> bool" where
  "updateIssued std P now res tbl i sets cond guards q args \<longleftrightarrow>
     guards = [] \<and> runUpdateSQL P now res tbl i sets cond = Inr (q, args) \<or>
     buildUpdateSQL std P now res tbl i sets cond guards = Inr (q, args)"

lemma updateIssued_build:
  "updateIssued std P now res tbl i sets cond guards q args \<longleftrightarrow> buildUpdateSQL std P now res tbl i sets cond guards = Inr (q, args)"
  using single_batch_same [of P now res tbl i sets cond q args std] by (auto simp: updateIssued_def)

section \<open>Looking into the bodies\<close>

lemma gm_get_absent: "k \<notin> fst ` set m \<Longrightarrow> gm_get m k = None"
  by (simp add: map_of_eq_None_iff)

lemma gm_get_map_val: "gm_get (map (\<lambda>(n, v). (n, g n v)) m) k = map_option (g k) (gm_get m k)"
  by (induction m) auto

lemma gm_get_filter_key: "gm_get (filter (\<lambda>(k, _). Q k) m) k = (if Q k then gm_get m k else None)"
  by (induction m) auto

lemma gm_get_entries:
  "gm_get (concat (map (\<lambda>n. case g n of None \<Rightarrow> [] | Some x \<Rightarrow> [(n, x)]) ns)) n = (if n \<in> set ns then g n else None)"
  by (induction ns) (auto split: option.splits)

lemma gm_get_eachField: "gm_get (eachField h res) n = (case gm_get (Fields res) n of None \<Rightarrow> None | Some fd \<Rightarrow> h n fd)"
proof -
  have *: "eachField h res =
           concat (map (\<lambda>n. case (case gm_get (Fields res) n of None \<Rightarrow> None | Some fd \<Rightarrow> h n fd) of None \<Rightarrow> [] | Some x \<Rightarrow> [(n, x)])
                       (sortedKeys (Fields res)))"
    unfolding eachField_def by (rule arg_cong [where f = concat], rule map_cong) (auto split: option.splits)
  show ?thesis
    unfolding * gm_get_entries
    by (auto simp: gm_get_absent split: option.splits)
qed

lemma gm_get_fold_puts:
  "gm_get (fold (\<lambda>(c, v). gm_put c v) cols r) f = (case map_of (rev cols) f of Some v \<Rightarrow> Some v | None \<Rightarrow> gm_get r f)"
  by (induction cols arbitrary: r) (auto simp: gm_get_put map_add_def split: option.splits)

text \<open>A row after an update: the given columns and the refreshed timestamps.\<close>

definition applySets :: "(string \<times> goany) list \<Rightarrow> row \<Rightarrow> row" where
  "applySets cols r = fold (\<lambda>(c, v). gm_put c v) cols r"

lemma gm_get_applySets:
  assumes "f \<notin> set (AutoRefreshColumns res)"
  shows "gm_get (applySets (setColumns now res sets) r) f = (case gm_get sets f of Some v \<Rightarrow> Some v | None \<Rightarrow> gm_get r f)"
proof -
  have "gm_get sets f = (if f \<in> fst ` set sets then Some (the (gm_get sets f)) else None)"
    by (auto simp: map_of_eq_None_iff)
  then have "map_of (rev (setColumns now res sets)) f = gm_get sets f"
    using assms by (simp add: setColumns_def rev_map map_of_map_key map_add_def)
  then show ?thesis by (simp add: applySets_def gm_get_fold_puts split: option.splits)
qed

section \<open>Reading an update\<close>

definition bareColumns :: "ResourceSchema \<Rightarrow> bool" where
  "bareColumns res \<longleftrightarrow> (\<forall>k \<in> fst ` set (Fields res). bareIdent k)"

text \<open>No condition column and no guard column of the write is a reserved word.\<close>

definition unreserved :: "WhereCondition option \<Rightarrow> txGuard list \<Rightarrow> bool" where
  "unreserved cond guards \<longleftrightarrow>
     (\<forall>c. cond = Some c \<longrightarrow> wField c \<notin> set sqlReserved) \<and> (\<forall>g \<in> set guards. gdField g \<notin> set sqlReserved)"

fun setsLex :: "(nat \<times> string \<times> goany) list \<Rightarrow> lexeme list" where
  "setsLex [] = []"
| "setsLex [(i, c, v)] = [Ident c, Opr ''='', paramWord (i + 1)]"
| "setsLex ((i, c, v) # x # xs) = Ident c # Opr ''='' # paramWord (i + 1) # Sym (CHR '','') # setsLex (x # xs)"

lemma lex_sets:
  assumes "quotesNames P" "\<forall>c \<in> (fst \<circ> snd) ` set ics. bareIdent c" "apart rest"
  shows "lexFrom Between (join_with '', '' (map (\<lambda>(i, c, _). pIdent P c @ '' = '' @ placeholder (i + 1)) ics) @ rest) =
         setsLex ics @ lexFrom Between rest"
  using assms(2,3)
  by (induction ics rule: setsLex.induct) (use assms(1) in \<open>auto simp: quotesNames_def lex_pgIdent lex_keywords lex_placeholder\<close>)

lemma readSets_lex: "ics \<noteq> [] \<Longrightarrow> readSets (map tokenOf (setsLex ics)) = Some (map (\<lambda>(i, c, v). (c, i + 1)) ics)"
  by (induction ics rule: setsLex.induct) auto

lemma setsLex_clean: "l \<in> set (setsLex ics) \<Longrightarrow> l \<noteq> Junk \<and> \<not> isWord ''where'' l"
  by (induction ics rule: setsLex.induct) (auto simp: isWord_param)

lemma update_head_lex:
  assumes "quotesNames P" "bareIdent name" "\<forall>c \<in> fst ` set cols. bareIdent c"
  shows "lexFrom Between (updateHead P (pIdent P name) cols @ CHR '' '' # rest) =
         (Word ''UPDATE'' # Ident name # Word ''SET'' # setsLex (enumerate 0 cols)) @ lexFrom Between rest"
proof -
  have "(fst \<circ> snd) ` set (enumerate 0 cols) = fst ` set cols"
    by (metis list.set_map map_map map_snd_enumerate)
  then have "\<forall>c \<in> (fst \<circ> snd) ` set (enumerate 0 cols). bareIdent c"
    using assms(3) by simp
  note sets = lex_sets [OF assms(1) this apart_simps(2), of rest]
  have words: "list_all wordChar ''UPDATE''" "list_all wordChar ''SET''" by code_simp+
  note heads = lex_words [OF _ words(1), simplified] lex_words [OF _ words(2), simplified]
  show ?thesis
    using sets assms(1,2) by (simp add: updateHead_def setClauses_def heads quotesNames_def lex_pgIdent)
qed

lemma fold_assign:
  "fold (assign args) (map (\<lambda>(i, c, v). (c, i + 1)) (enumerate (length pre) cols)) r = applySets cols r"
  if "args = map (Arg \<circ> snd) pre @ map (Arg \<circ> snd) cols @ post" for pre :: "(string \<times> goany) list"
  using that
proof (induction cols arbitrary: pre r)
  case Nil
  then show ?case by (simp add: applySets_def)
next
  case (Cons x cols)
  obtain c v where x: "x = (c, v)" by fastforce
  have "argAt args (Suc (length pre)) = Some (Arg v)" using Cons.prems by (simp add: argAt_def nth_append x)
  then show ?case
    using Cons.IH [of "pre @ [x]" "gm_put c v r"] Cons.prems by (simp add: x assign_def applySets_def)
qed

lemma condClause_ok:
  assumes "AppendRowCondition sql as cond = Inr qa" "unreserved cond guards"
  shows "list_all okConjunct (condClause cond n)"
  using assms by (auto simp: AppendRowCondition_def condClause_def unreserved_def plainColumn_def oprChar_def split: option.splits if_splits)

lemma guardClauses_ok:
  assumes "appendGuards std res sql as guards = Inr qa" "unreserved cond guards"
  shows "list_all okConjunct (guardClauses guards n)"
  using assms
proof (induction guards arbitrary: sql as n)
  case (Cons g gs)
  have ops: "op \<noteq> [] \<and> list_all oprChar op" if "gm_get txGuardOps k = Some op" for k op
    using that by (auto simp: txGuardOps_def oprChar_def split: if_splits)
  from Cons.prems(2) have "unreserved cond gs" by (simp add: unreserved_def)
  then show ?case
    using Cons ops [of "gdOp g"] by (fastforce simp: plainColumn_def unreserved_def split: option.splits if_splits)
qed simp

lemma stateClauses_ok: "\<forall>f \<in> set fs. bareIdent f \<Longrightarrow> list_all okConjunct (stateClauses res fs n)"
  by (induction fs arbitrary: n) auto

lemma id_ok: "okConjunct (Cmp ''id'' ''='' n)"
proof -
  have "plainColumn ''id''" by code_simp
  then show ?thesis by (simp add: oprChar_def)
qed

lemma setColumns_bare:
  assumes "bareColumns res" "fst ` set sets \<subseteq> fst ` set (Fields res)"
  shows "\<forall>c \<in> fst ` set (setColumns now res sets). bareIdent c"
proof -
  have "set (AutoRefreshColumns res) \<subseteq> fst ` set (Fields res)"
    by (auto simp: AutoRefreshColumns_def)
  then show ?thesis using assms by (fastforce simp: setColumns_def bareColumns_def)
qed

lemma returning_tail: "lexFrom Between ''RETURNING *'' = [Word ''RETURNING'', Sym (CHR ''*'')]" "clauseEnd (Word ''RETURNING'')"
  by code_simp+

text \<open>What PostgreSQL reads in an update the code issues: the table, the conjuncts, the assignments.\<close>

lemma update_reads:
  assumes "updateIssued std P now res (pIdent P name) i sets cond guards q args"
    and "quotesNames P" "bareIdent name" "bareColumns res" "fst ` set sets \<subseteq> fst ` set (Fields res)" "unreserved cond guards"
  shows "tableAfter ''update'' q = Some (None, name) \<and>
         sqlWhere q = Some (whereExpr (updateWhere res sets cond guards (length (setColumns now res sets)))) \<and>
         rowAfter q args r = applySets (setColumns now res sets) r"
proof -
  let ?cols = "setColumns now res sets"
  let ?cs = "updateWhere res sets cond guards (length ?cols)" and ?hl = "Word ''UPDATE'' # Ident name # Word ''SET'' # setsLex (enumerate 0 ?cols)"
  from assms(1) have b: "buildUpdateSQL std P now res (pIdent P name) i sets cond guards = Inr (q, args)" by (simp add: updateIssued_build)
  note print = buildUpdateSQL_prints [OF b]
  from b obtain q1 a1 qa where parts: "AppendRowCondition (''UPDATE '' @ pIdent P name @ '' SET '' @ join_with '', '' (setClauses P ?cols) @ '' WHERE id = '' @
      placeholder (length ?cols + 1)) (map (Arg \<circ> snd) ?cols @ [Arg (GStr i)]) cond = Inr (q1, a1)"
    "appendGuards std res q1 a1 guards = Inr qa" and ne: "?cols \<noteq> []"
    unfolding buildUpdateSQL_def Let_def by (auto split: if_splits sum.splits prod.splits)
  have "\<forall>f \<in> set (sortedKeys sets). bareIdent f" using assms(4,5) unfolding bareColumns_def set_sortedKeys by blast
  then have ok: "list_all okConjunct ?cs" "?cs \<noteq> []"
    using condClause_ok [OF parts(1) assms(6)] guardClauses_ok [OF parts(2) assms(6)] id_ok stateClauses_ok
    by (simp_all add: updateWhere_def)
  note head = update_head_lex [OF assms(2,3) setColumns_bare [OF assms(4,5)]]
  have "\<not> isWord ''where'' (Word ''UPDATE'')" "\<not> isWord ''where'' (Word ''SET'')" by code_simp+
  then have clean: "\<forall>l \<in> set ?hl. l \<noteq> Junk \<and> \<not> isWord ''where'' l" using setsLex_clean by auto
  have w: "sqlWhere q = Some (whereExpr ?cs)"
    unfolding print [THEN conjunct1] by (rule sqlWhere_print [OF assms(2) ok(2,1) head clean]) (simp_all add: returning_tail)
  have lex: "lexSQL q = ?hl @ Word ''WHERE'' # joinLex ?cs @ lexFrom Between '' RETURNING *''"
    unfolding print [THEN conjunct1] by (rule lex_print [OF assms(2) ok(1) _ head]) simp
  have kw: "isWord ''update'' (Word ''UPDATE'')" "\<not> isWord ''set'' (Word ''UPDATE'')" "isWord ''set'' (Word ''SET'')"
    "tokenOf (Word ''SET'') = Col ''set''" by code_simp+
  have t: "tableAfter ''update'' q = Some (None, name)"
    unfolding tableAfter_def lex afterWord_def using kw by simp
  have "takeWhile (\<lambda>l. \<not> isWord ''where'' l) (setsLex (enumerate 0 ?cols) @ Word ''WHERE'' # us) = setsLex (enumerate 0 ?cols)" for us
    using setsLex_clean where_word by (subst takeWhile_append2) auto
  then have "sqlSets q = Some (map (\<lambda>(i, c, v). (c, i + 1)) (enumerate 0 ?cols))"
    unfolding sqlSets_def lex afterWord_def using kw readSets_lex [of "enumerate 0 ?cols"] ne
    by (cases ?cols) simp_all
  moreover have "args = map (Arg \<circ> snd) [] @ map (Arg \<circ> snd) ?cols @ [Arg (GStr i)] @ condArgs cond @ guardArgs guards @ stateArgs res sets (sortedKeys sets)"
    using print by (simp add: updateArgs_def)
  note fold_assign [OF this, simplified]
  ultimately show ?thesis using t w by (simp add: rowAfter_def)
qed

lemma update_touches:
  assumes "updateIssued std P now res (pIdent P name) i sets cond guards q args"
    and "quotesNames P" "bareIdent name" "bareColumns res" "fst ` set sets \<subseteq> fst ` set (Fields res)" "unreserved cond guards"
  shows "touches std cmp q args r = holds std cmp args (updateWhere res sets cond guards (length (setColumns now res sets))) r"
  using update_reads [OF assms, of r] by (simp add: touches_def sqlTrue_whereExpr updateWhere_def)

section \<open>The transition guard\<close>

lemma argAt_pair:
  "argAt (pre @ x # y # post) (Suc (length pre)) = Some x" "argAt (pre @ x # y # post) (Suc (Suc (length pre))) = Some y"
  by (auto simp: argAt_def nth_append)

lemma guardFields_strings:
  assumes "guardFields P res sets fs sql args = Inr qa" "f \<in> set fs" "stateMachineOf res f \<noteq> None"
  shows "\<exists>s. gm_get sets f = Some (GStr s)"
  using assms by (induction fs arbitrary: sql args) (auto split: option.splits goany.splits)

lemma stateClauses_hold:
  assumes "\<And>g. g \<in> set fs \<Longrightarrow> stateMachineOf res g \<noteq> None \<Longrightarrow> \<exists>s. gm_get sets g = Some (GStr s)"
    and "list_all (holdsOne std cmp (pre @ stateArgs res sets fs) r) (stateClauses res fs (length pre))"
    and "f \<in> set fs" "stateMachineOf res f = Some sm" "gm_get sets f = Some (GStr s)"
  shows "sqlEq std (gm_get r f) (GStr s) \<or> (\<exists>t \<in> set (OriginsOf sm s). sqlEq std (gm_get r f) (GStr t))"
  using assms
proof (induction fs arbitrary: pre)
  case Nil
  then show ?case by simp
next
  case (Cons g fs)
  show ?case
  proof (cases "stateMachineOf res g")
    case None
    then show ?thesis using Cons by (intro Cons.IH [of pre]) auto
  next
    case (Some gm)
    obtain gs where gs: "gm_get sets g = Some (GStr gs)" using Cons.prems(1) [of g] Some by auto
    have here: "holdsOne std cmp (pre @ Arg (GStr gs) # ArgStrings (OriginsOf gm gs) # stateArgs res sets fs) r
                  (OneOf g (Suc (length pre)) (Suc (Suc (length pre))))"
      using Cons.prems(2) by (simp add: Some gs)
    have rest: "list_all (holdsOne std cmp ((pre @ [Arg (GStr gs), ArgStrings (OriginsOf gm gs)]) @ stateArgs res sets fs) r)
                  (stateClauses res fs (length (pre @ [Arg (GStr gs), ArgStrings (OriginsOf gm gs)])))"
      using Cons.prems(2) by (simp add: Some gs)
    show ?thesis
    proof (cases "f = g")
      case True
      then show ?thesis using here Cons.prems(4,5) Some gs by (auto simp: argAt_pair list_ex_iff)
    next
      case False
      then show ?thesis using Cons.IH [OF _ rest] Cons.prems by auto
    qed
  qed
qed

text \<open>A row an update statement matches moves along a declared transition of every state field it writes, or
  keeps its state.\<close>

lemma update_moves_along:
  assumes "updateIssued std P now res tbl i sets cond guards q args"
    and "holds std cmp args (updateWhere res sets cond guards (length (setColumns now res sets))) r"
    and "stateMachineOf res f = Some sm" "f \<in> fst ` set sets"
  obtains s where "gm_get sets f = Some (GStr s)"
    and "sqlEq std (gm_get r f) (GStr s) \<or> (\<exists>t. s \<in> set (transitionsOf sm t) \<and> sqlEq std (gm_get r f) (GStr t))"
proof -
  let ?cols = "setColumns now res sets"
  from assms(1) have b: "buildUpdateSQL std P now res tbl i sets cond guards = Inr (q, args)" by (simp add: updateIssued_build)
  then obtain q1 a1 qa where "guardFields P res sets (sortedKeys sets) q1 a1 = Inr qa"
    unfolding buildUpdateSQL_def Let_def AppendStateTransitionGuard_def by (auto split: if_splits sum.splits prod.splits)
  then have strs: "\<exists>s. gm_get sets g = Some (GStr s)" if "g \<in> set (sortedKeys sets)" "stateMachineOf res g \<noteq> None" for g
    using guardFields_strings that by blast
  then obtain s where s: "gm_get sets f = Some (GStr s)" using assms(3,4) by fastforce
  define pre where "pre = map (Arg \<circ> snd) ?cols @ [Arg (GStr i)] @ condArgs cond @ guardArgs guards"
  have args: "args = pre @ stateArgs res sets (sortedKeys sets)"
    using buildUpdateSQL_prints [OF b] by (simp add: updateArgs_def pre_def)
  have len: "length pre = length ?cols + 1 + length (condArgs cond) + length guards"
    by (simp add: pre_def guardArgs_def)
  have "list_all (holdsOne std cmp (pre @ stateArgs res sets (sortedKeys sets)) r) (stateClauses res (sortedKeys sets) (length pre))"
    using assms(2) unfolding holds_def updateWhere_def args len by simp
  from stateClauses_hold [OF strs this _ assms(3) s] assms(4)
  have "sqlEq std (gm_get r f) (GStr s) \<or> (\<exists>t \<in> set (OriginsOf sm s). sqlEq std (gm_get r f) (GStr t))" by auto
  then show thesis by (intro that [OF s]) (auto simp: OriginsOf_iff)
qed

section \<open>The lifecycle of a row\<close>

inductive reachable :: "StateMachine \<Rightarrow> string \<Rightarrow> bool" for sm where
  start: "IsInitial sm s \<Longrightarrow> reachable sm s"
| move: "reachable sm s \<Longrightarrow> t \<in> set (transitionsOf sm s) \<Longrightarrow> reachable sm t"

text \<open>What an insert stores: the values of the body, and null in a state column the body leaves out.\<close>

definition storedRow :: "ResourceSchema \<Rightarrow> row \<Rightarrow> row \<Rightarrow> bool" where
  "storedRow res body r \<longleftrightarrow>
     (\<forall>k. gm_get body k \<noteq> None \<longrightarrow> gm_get r k = gm_get body k) \<and>
     (\<forall>k. gm_get body k = None \<longrightarrow> stateMachineOf res k \<noteq> None \<longrightarrow> gm_get r k = None \<or> gm_get r k = Some GNil)"

text \<open>The rows that creates and updates produce, in any order and number.  \<open>hook\<close> relates the body a create prepared to
  the one its before-hook gives back, \<open>scoped\<close> holds of the verdicts creates ran under.  An update is any
  statement the code issues, whatever its hook made of the values, on a row that the text of the statement
  touches, and the row it leaves is read from that text.\<close>

inductive liveRow ::
  "Std \<Rightarrow> comparison \<Rightarrow> 'w TenantPool \<Rightarrow> string \<Rightarrow> ResourceSchema \<Rightarrow> (row \<Rightarrow> row \<Rightarrow> bool) \<Rightarrow> (EvalResult option \<Rightarrow> bool) \<Rightarrow> row \<Rightarrow> bool"
  for std cmp P name res hook scoped where
  created: "PrepareCreate std now res (CompileRules std res) body role = ([], body1) \<Longrightarrow> hook body1 body2 \<Longrightarrow> scoped evo \<Longrightarrow>
            EnforceCreateRBAC std body2 evo = Inr body3 \<Longrightarrow> storedRow res body3 r \<Longrightarrow> liveRow std cmp P name res hook scoped r"
| updated: "liveRow std cmp P name res hook scoped r \<Longrightarrow> updateIssued std P now res (pIdent P name) i sets cond guards q args \<Longrightarrow>
            fst ` set sets \<subseteq> fst ` set (Fields res) \<Longrightarrow> unreserved cond guards \<Longrightarrow> touches std cmp q args r \<Longrightarrow>
            liveRow std cmp P name res hook scoped (rowAfter q args r)"

definition inLifecycle :: "StateMachine \<Rightarrow> goany option \<Rightarrow> bool" where
  "inLifecycle sm cell \<longleftrightarrow> cell = None \<or> cell = Some GNil \<or> (\<exists>s. cell = Some (GStr s) \<and> reachable sm s)"

definition plainStates :: "ResourceSchema \<Rightarrow> bool" where
  "plainStates res = list_all (\<lambda>(n, fd). fStateMachine fd \<noteq> None \<longrightarrow> isStringType (fType fd) \<and> \<not> Enabled (Auto fd)) (Fields res)"

lemma plainStates_field:
  assumes "plainStates res" "stateMachineOf res f = Some sm"
  obtains fd where "gm_get (Fields res) f = Some fd" "fStateMachine fd = Some sm" "isStringType (fType fd)" "\<not> Enabled (Auto fd)"
  using assms by (auto simp: plainStates_def stateMachineOf_def list_all_iff split: option.splits dest!: gm_get_in)

lemma state_not_refreshed: "plainStates res \<Longrightarrow> stateMachineOf res f = Some sm \<Longrightarrow> f \<notin> set (AutoRefreshColumns res)"
  by (erule (1) plainStates_field)
     (auto simp: AutoRefreshColumns_def RefreshesOnUpdate_def Enabled_def AutoUpdate_def AutoLegacy_def AutoOff_def split: if_splits)

lemma state_not_coerced:
  assumes "plainStates res" "stateMachineOf res f = Some sm"
  shows "gm_get (snd (CoerceJSONFields std res body)) f = gm_get body f"
proof -
  from assms obtain fd where "gm_get (Fields res) f = Some fd" "isStringType (fType fd)" by (rule plainStates_field)
  then have "coerceJSON std res f v = Some v" for v by (auto simp: coerceJSON_def isStringType_def)
  then show ?thesis by (simp add: CoerceJSONFields_def gm_get_map_val option.map_ident)
qed

lemma stateField_clean:
  assumes "stateField g rv body = []" "gm_get (rvStates rv) n = Some sm" "gm_get body n = Some v" "v \<noteq> GNil"
  shows "g n sm v = []"
proof -
  have "n \<in> set (sortedKeys (rvStates rv))" using assms(2) by (force dest: gm_get_in)
  with assms show ?thesis unfolding stateField_def by (fastforce simp: concat_eq_Nil_conv)
qed

text \<open>A state field of an accepted create is null or in an initial state.\<close>

lemma accepted_state_initial:
  assumes "plainStates res" "stateMachineOf res f = Some sm"
    and "PrepareCreate std now res (CompileRules std res) body role = ([], body1)" "gm_get body1 f = Some v" "v \<noteq> GNil"
  shows "\<exists>s. v = GStr s \<and> IsInitial sm s"
proof -
  let ?rv = "CompileRules std res" and ?body0 = "ApplyDefaults now (CompileRules std res) body"
  obtain fd where fd: "gm_get (Fields res) f = Some fd" "fStateMachine fd = Some sm"
    using assms(1,2) by (rule plainStates_field)
  then have st: "gm_get (rvStates ?rv) f = Some \<lparr>smInitial = Initial sm, smKnown = KnownStates sm\<rparr>"
    by (simp add: CompileRules_def gm_get_eachField)
  from assms(3) have known: "checkKnownStates ?rv ?body0 = []" and init: "ValidateInitialStates ?rv body1 = []"
    and b1: "body1 = snd (CoerceJSONFields std res ?body0)"
    by (auto simp: PrepareCreate_def ValidateWrite_def Let_def split: prod.splits if_splits)
  have v0: "gm_get ?body0 f = Some v" using assms(4) state_not_coerced [OF assms(1,2)] b1 by simp
  show ?thesis
    using stateField_clean [OF known [unfolded checkKnownStates_def] st v0 assms(5)]
      stateField_clean [OF init [unfolded ValidateInitialStates_def] st assms(4,5)]
    by (auto simp: IsInitial_def split: goany.splits if_splits)
qed

lemma EnforceCreateRBAC_keeps:
  assumes "EnforceCreateRBAC std body evo = Inr body'"
    and "\<forall>ev c. evo = Some ev \<longrightarrow> evCondition ev = Some c \<longrightarrow> wField c \<noteq> f"
  shows "gm_get body' f = gm_get body f \<or> gm_get body' f = None"
  using assms
  by (auto simp: EnforceCreateRBAC_def dropUnlisted_def gm_get_filter_key gm_get_put Let_def split: option.splits if_splits)

text \<open>One update: a state field keeps its value or takes one declared transition; a null state never moves.\<close>

lemma update_step:
  assumes "plainStates res" "stateMachineOf res f = Some sm" "inLifecycle sm (gm_get r f)"
    and "updateIssued std P now res tbl i sets cond guards q args"
    and "holds std cmp args (updateWhere res sets cond guards (length (setColumns now res sets))) r"
  shows "gm_get (applySets (setColumns now res sets) r) f = gm_get r f \<or>
         (\<exists>s t. gm_get r f = Some (GStr s) \<and> t \<in> set (transitionsOf sm s) \<and> gm_get (applySets (setColumns now res sets) r) f = Some (GStr t))"
proof -
  have get: "gm_get (applySets (setColumns now res sets) r) f = (case gm_get sets f of Some v \<Rightarrow> Some v | None \<Rightarrow> gm_get r f)"
    by (rule gm_get_applySets) (rule state_not_refreshed [OF assms(1,2)])
  show ?thesis
  proof (cases "f \<in> fst ` set sets")
    case False
    then show ?thesis by (simp add: get gm_get_absent)
  next
    case True
    obtain s where s: "gm_get sets f = Some (GStr s)"
      and from_where: "sqlEq std (gm_get r f) (GStr s) \<or> (\<exists>t. s \<in> set (transitionsOf sm t) \<and> sqlEq std (gm_get r f) (GStr t))"
      by (rule update_moves_along [OF assms(4,5,2) True])
    have "\<exists>t. gm_get r f = Some (GStr t) \<and> (t = s \<or> s \<in> set (transitionsOf sm t))"
      using assms(3) from_where by (auto simp: inLifecycle_def sqlEq_def sprintV_def split: option.splits)
    then show ?thesis using s by (auto simp: get)
  qed
qed

text \<open>The hooks of creates leave the state fields as they were, and no row condition is on a state field.\<close>

definition statesLeft :: "ResourceSchema \<Rightarrow> (row \<Rightarrow> row \<Rightarrow> bool) \<Rightarrow> (EvalResult option \<Rightarrow> bool) \<Rightarrow> bool" where
  "statesLeft res hook scoped \<longleftrightarrow>
     (\<forall>b b' k. hook b b' \<longrightarrow> stateMachineOf res k \<noteq> None \<longrightarrow> gm_get b' k = gm_get b k) \<and>
     (\<forall>ev c. scoped (Some ev) \<longrightarrow> evCondition ev = Some c \<longrightarrow> stateMachineOf res (wField c) = None)"

lemma liveRow_inLifecycle:
  assumes "plainStates res" "stateMachineOf res f = Some sm" "statesLeft res hook scoped"
    and "quotesNames P" "bareIdent name" "bareColumns res"
    and "liveRow std cmp P name res hook scoped r"
  shows "inLifecycle sm (gm_get r f)"
  using assms(7)
proof (induction rule: liveRow.induct)
  case (created now body role body1 body2 evo body3 r)
  have "gm_get body2 f = gm_get body1 f" using created(2) assms(2,3) by (simp add: statesLeft_def)
  moreover have "gm_get body3 f = gm_get body2 f \<or> gm_get body3 f = None"
    using created(3,4) assms(2,3) by (intro EnforceCreateRBAC_keeps) (auto simp: statesLeft_def)
  ultimately have keep: "gm_get body3 f = gm_get body1 f \<or> gm_get body3 f = None" by simp
  show ?case
  proof (cases "gm_get body3 f")
    case None
    then show ?thesis using created(5) assms(2) unfolding storedRow_def inLifecycle_def by (metis option.distinct(1))
  next
    case (Some v)
    then have "gm_get r f = Some v" using created(5) unfolding storedRow_def by (metis option.distinct(1))
    moreover have "gm_get body1 f = Some v" using keep Some by auto
    ultimately show ?thesis
      using accepted_state_initial [OF assms(1,2) created(1)] by (auto simp: inLifecycle_def intro: reachable.start)
  qed
next
  case (updated r now i sets cond guards q args)
  note env = updated(2) assms(4-6) updated(3,4)
  show ?case
    using update_step [OF assms(1,2) updated(6,2) updated(5) [unfolded update_touches [OF env]]] update_reads [OF env, of r] updated(6)
    by (auto simp: inLifecycle_def dest: reachable.move)
qed

section \<open>Ownership\<close>

lemma EnforceCreateRBAC_owner:
  assumes "EnforceCreateRBAC std body (Some ev) = Inr body'" "evCondition ev = Some c"
  shows "gm_get body' (wField c) = Some (GStr (wValue c))"
  using assms by (auto simp: EnforceCreateRBAC_def gm_get_put Let_def split: option.splits if_splits)

lemma CollectUpdate_sets:
  assumes "CollectUpdate std res body put wr = (Inr sets, body1)" "gm_get sets k = Some v"
  shows "gm_get body1 k = Some v \<or> gm_get body1 k = None \<and> v = GNil"
  using assms
  by (auto simp: CollectUpdate_def gm_get_filter_key gm_get_eachField Let_def split: if_splits option.splits)

lemma EnforceUpdateRBAC_owner:
  assumes "CollectUpdate std res body put wr = (Inr sets, body1)" "EnforceUpdateRBAC std body1 sets (Some ev) = Inr sets1"
    and "evCondition ev = Some c" "Identity c" "gm_get sets1 (wField c) = Some v"
  shows "v \<noteq> GNil \<and> sprintV std v = wValue c"
  using assms CollectUpdate_sets [OF assms(1), of "wField c"]
  by (auto simp: EnforceUpdateRBAC_def gm_get_put sprintV_def split: option.splits if_splits)

text \<open>The row condition stands in the WHERE clause with the caller's value as its parameter.\<close>

lemma cond_clause_holds:
  assumes "argAt args (n + 1) = Some (Arg (GStr (wValue c)))" "list_all (holdsOne std cmp args r) (condClause (Some c) n)"
  shows "sqlEq std (gm_get r (wField c)) (GStr (wValue c))"
  using assms by (simp add: condClause_def)

lemma update_touches_scope:
  assumes "updateIssued std P now res tbl i sets (Some c) guards q args"
    and "holds std cmp args (updateWhere res sets (Some c) guards (length (setColumns now res sets))) r"
  shows "sqlEq std (gm_get r (wField c)) (GStr (wValue c)) \<and> sqlEq std (gm_get r ''id'') (GStr i)"
proof
  let ?n = "length (setColumns now res sets) + 1"
  have args: "args = updateArgs res (setColumns now res sets) i sets (Some c) guards"
    by (rule buildUpdateSQL_prints [OF assms(1) [unfolded updateIssued_build], THEN conjunct2])
  show "sqlEq std (gm_get r (wField c)) (GStr (wValue c))"
  proof (rule cond_clause_holds)
    show "argAt args (?n + 1) = Some (Arg (GStr (wValue c)))"
      by (simp add: args updateArgs_def condArgs_def argAt_def nth_append)
    show "list_all (holdsOne std cmp args r) (condClause (Some c) ?n)"
      using assms(2) by (simp add: holds_def updateWhere_def)
  qed
  show "sqlEq std (gm_get r ''id'') (GStr i)"
    using assms(2) by (simp add: holds_def updateWhere_def args updateArgs_def argAt_def nth_append)
qed

text \<open>A delete, with the guards a batch may add.\<close>

definition deleteIssued ::
  "Std \<Rightarrow> 'w TenantPool \<Rightarrow> ResourceSchema \<Rightarrow> string \<Rightarrow> string \<Rightarrow> WhereCondition option \<Rightarrow> txGuard list \<Rightarrow> string \<Rightarrow> sqlArg list \<Rightarrow> bool" where
  "deleteIssued std P res tbl i cond guards q args \<longleftrightarrow>
     (\<exists>q0 args0. runDeleteSQL tbl i cond = Inr (q0, args0) \<and> appendGuards std res q0 args0 guards = Inr (q, args))"

definition deleteWhere :: "WhereCondition option \<Rightarrow> txGuard list \<Rightarrow> conjunct list" where
  "deleteWhere cond guards = Cmp ''id'' ''='' 1 # condClause cond 1 @ guardClauses guards (1 + length (condArgs cond))"

lemma placeholder_one: "placeholder 1 = ''$1''"
  by code_simp

lemma delete_start: "''DELETE FROM '' @ tbl @ '' WHERE id = $1'' = printWhere P (''DELETE FROM '' @ tbl) [Cmp ''id'' ''='' 1]"
  by (simp add: printWhere_def placeholder_one [simplified])

lemma delete_prints:
  assumes "deleteIssued std P res tbl i cond guards q args"
  shows "q = printWhere P (''DELETE FROM '' @ tbl) (deleteWhere cond guards) \<and> args = Arg (GStr i) # condArgs cond @ guardArgs guards"
proof -
  from assms obtain q0 a0 where 1: "runDeleteSQL tbl i cond = Inr (q0, a0)" and 2: "appendGuards std res q0 a0 guards = Inr (q, args)"
    by (auto simp: deleteIssued_def)
  note s1 = AppendRowCondition_prints [OF _ 1 [unfolded runDeleteSQL_def delete_start [of tbl P]], simplified]
  show ?thesis
    using appendGuards_prints [OF 2 [unfolded s1 [THEN conjunct1]]] s1 by (simp add: deleteWhere_def)
qed

lemma delete_head_lex:
  assumes "quotesNames P" "bareIdent name"
  shows "lexFrom Between ((''DELETE FROM '' @ pIdent P name) @ CHR '' '' # rest) = [Word ''DELETE'', Word ''FROM'', Ident name] @ lexFrom Between rest"
proof -
  have words: "list_all wordChar ''DELETE''" "list_all wordChar ''FROM''" by code_simp+
  note heads = lex_words [OF _ words(1), simplified] lex_words [OF _ words(2), simplified]
  show ?thesis using assms by (simp add: heads quotesNames_def lex_pgIdent)
qed

lemma delete_reads:
  assumes "deleteIssued std P res (pIdent P name) i cond guards q args" "quotesNames P" "bareIdent name" "unreserved cond guards"
  shows "tableAfter ''from'' q = Some (None, name) \<and> sqlWhere q = Some (whereExpr (deleteWhere cond guards))"
proof -
  note print = delete_prints [OF assms(1), THEN conjunct1]
  from assms(1) obtain q0 a0 where "runDeleteSQL (pIdent P name) i cond = Inr (q0, a0)" "appendGuards std res q0 a0 guards = Inr (q, args)"
    by (auto simp: deleteIssued_def)
  then have ok: "deleteWhere cond guards \<noteq> []" "list_all okConjunct (deleteWhere cond guards)"
    using condClause_ok [OF _ assms(4)] guardClauses_ok [OF _ assms(4)] id_ok [of 1] by (auto simp: deleteWhere_def runDeleteSQL_def simp del: okConjunct.simps)
  have kw: "\<not> isWord ''where'' (Word ''DELETE'')" "\<not> isWord ''where'' (Word ''FROM'')" "\<not> isWord ''from'' (Word ''DELETE'')"
    "isWord ''from'' (Word ''FROM'')" "tokenOf (Word ''WHERE'') = Key ''where''" by code_simp+
  then have clean: "\<forall>l \<in> set [Word ''DELETE'', Word ''FROM'', Ident name]. l \<noteq> Junk \<and> \<not> isWord ''where'' l" by auto
  note w = sqlWhere_print [OF assms(2) ok delete_head_lex [OF assms(2,3)] clean, of "[]"]
  note lex = lex_print [OF assms(2) ok(2) _ delete_head_lex [OF assms(2,3)], of "[]"]
  show ?thesis using w lex kw by (simp add: print tableAfter_def afterWord_def)
qed

lemma delete_touches:
  assumes "deleteIssued std P res (pIdent P name) i cond guards q args" "quotesNames P" "bareIdent name" "unreserved cond guards"
  shows "touches std cmp q args r = holds std cmp args (deleteWhere cond guards) r"
  using delete_reads [OF assms] by (simp add: touches_def sqlTrue_whereExpr deleteWhere_def)

lemma delete_touches_scope:
  assumes "deleteIssued std P res tbl i (Some c) guards q args" "holds std cmp args (deleteWhere (Some c) guards) r"
  shows "sqlEq std (gm_get r (wField c)) (GStr (wValue c)) \<and> sqlEq std (gm_get r ''id'') (GStr i)"
proof
  have args: "args = Arg (GStr i) # Arg (GStr (wValue c)) # guardArgs guards"
    using delete_prints [OF assms(1), THEN conjunct2] by (simp add: condArgs_def)
  show "sqlEq std (gm_get r (wField c)) (GStr (wValue c))"
  proof (rule cond_clause_holds)
    show "argAt args (1 + 1) = Some (Arg (GStr (wValue c)))" by (simp add: args argAt_def)
    show "list_all (holdsOne std cmp args r) (condClause (Some c) 1)" using assms(2) by (simp add: holds_def deleteWhere_def)
  qed
  show "sqlEq std (gm_get r ''id'') (GStr i)" using assms(2) by (simp add: holds_def deleteWhere_def args argAt_def)
qed

lemma governed_clean:
  assumes "GovernedFieldViolations res body op role = []" "gm_has body f" "IsGovernedWriteField res f"
  shows "op = GovernedCreate \<and> ImportableOnCreate res role f"
  using assms by (auto simp: GovernedFieldViolations_def filter_empty_conv gm_has_iff)

lemma CollectUpdate_declared:
  assumes "CollectUpdate std res body put wr = (Inr sets, body1)"
  shows "fst ` set sets \<subseteq> fst ` set (Fields res)"
proof (cases put)
  case True
  have "fst ` set (eachField h res) \<subseteq> fst ` set (Fields res)" for h :: "string \<Rightarrow> FieldDef \<Rightarrow> goany option"
    by (force simp: eachField_def split: option.splits)
  then show ?thesis using assms True by (auto simp: CollectUpdate_def Let_def split: if_splits)
next
  case False
  let ?b = "snd (CoerceJSONFields std res body)"
  from assms False have clean: "updateErrors std res body put = []" and sets: "sets = filter (\<lambda>(name, _). wr name) ?b"
    by (auto simp: CollectUpdate_def Let_def split: if_splits)
  have keys: "fst ` set ?b = fst ` set body" by (force simp: CoerceJSONFields_def)
  have "k \<in> fst ` set (Fields res)" if "k \<in> fst ` set ?b" for k
  proof -
    have "GovernedFieldViolations res body GovernedUpdate [] = []" "updateFieldErrors std res ?b = []"
      using arg_cong [OF clean, of set] by (auto simp: updateErrors_def Let_def)
    then have un: "\<not> IsGovernedWriteField res k" "k \<in> set (sortedKeys ?b)"
      using governed_clean [of res body GovernedUpdate "[]" k] that keys unfolding gm_has_iff set_sortedKeys by auto
    have "gm_get (Fields res) k \<noteq> None"
    proof
      assume none: "gm_get (Fields res) k = None"
      note all = \<open>updateFieldErrors std res ?b = []\<close> [unfolded updateFieldErrors_def concat_eq_Nil_conv set_map ball_simps(9)]
      from bspec [OF all un(2)] show False using un(1) none by simp
    qed
    then show ?thesis by (auto dest: gm_get_in intro: rev_image_eqI)
  qed
  then show ?thesis by (auto simp: sets)
qed

lemma EnforceUpdateRBAC_keys:
  assumes "EnforceUpdateRBAC std body sets evo = Inr sets1"
  shows "fst ` set sets1 = fst ` set sets"
proof -
  from assms have "sets1 = sets \<or> (\<exists>k v. gm_get sets k = Some GNil \<and> sets1 = gm_put k v sets)"
    by (auto simp: EnforceUpdateRBAC_def split: option.splits if_splits)
  moreover have "k \<in> fst ` set sets" if "gm_get sets k = Some GNil" for k using gm_get_in [OF that] by (rule rev_image_eqI) simp
  ultimately show ?thesis by (metis gm_keys_put insert_absorb)
qed

section \<open>Accepted bodies\<close>

lemma ruleErrors_clean:
  assumes "ruleErrors rv body = []" "gm_get (rvRules rv) k = Some rules" "gm_get body k = Some v" "v \<noteq> GNil" "rule \<in> set rules"
  shows "rule v = None"
proof -
  have "k \<in> set (sortedKeys body)" using assms(3) by (force dest: gm_get_in)
  with assms have "concat (map (\<lambda>rule. case rule v of None \<Rightarrow> [] | Some e \<Rightarrow> [e]) rules) = []"
    unfolding ruleErrors_def by (fastforce simp: concat_eq_Nil_conv)
  with assms(5) show ?thesis by (auto simp: concat_eq_Nil_conv split: option.splits)
qed

lemma fieldRules_clean:
  assumes "ruleErrors (CompileRules std res) body = []" "gm_get (Fields res) k = Some fd" "gm_get body k = Some v" "v \<noteq> GNil"
    and "rule \<in> set (fieldRules std k fd)"
  shows "rule v = None"
proof (rule ruleErrors_clean [OF assms(1) _ assms(3,4,5)])
  show "gm_get (rvRules (CompileRules std res)) k = Some (fieldRules std k fd)"
    using assms(2,5) by (auto simp: CompileRules_def gm_get_eachField)
qed

lemma coerce_plain:
  assumes "gm_get (Fields res) f = Some fd" "fType fd \<noteq> ''json''"
  shows "gm_get (snd (CoerceJSONFields std res body)) f = gm_get body f"
proof -
  have "(case coerceJSON std res f v of Some v' \<Rightarrow> v' | None \<Rightarrow> v) = v" for v
    using assms by (auto simp: coerceJSON_def split: goany.splits)
  then show ?thesis by (simp add: CoerceJSONFields_def gm_get_map_val option.map_ident)
qed

lemma coerce_missing: "missing (snd (CoerceJSONFields std res body)) f = missing body f"
  by (auto simp: missing_def CoerceJSONFields_def gm_get_map_val coerceJSON_def split: option.splits goany.splits if_splits)

lemma ApplyDefaults_has: "gm_has body f \<Longrightarrow> gm_has (ApplyDefaults now rv body) f"
proof -
  have "gm_has body f \<Longrightarrow> gm_has (fold (applyDefault now) ds body) f" for ds
    by (induction ds arbitrary: body) (auto simp: applyDefault_def gm_has_iff gm_keys_put split: prod.splits)
  then show "gm_has body f \<Longrightarrow> gm_has (ApplyDefaults now rv body) f" by (simp add: ApplyDefaults_def)
qed

text \<open>The rules of a field, read back from the values they accept.\<close>

lemma fieldRules_accept:
  assumes "\<And>rule. rule \<in> set (fieldRules std f fd) \<Longrightarrow> rule v = None"
  shows "(Enum fd \<noteq> [] \<longrightarrow> (\<exists>s \<in> set (Enum fd). v = GStr s)) \<and>
         (isStringType (fType fd) \<longrightarrow>
            (\<forall>m. MinLength fd = Some m \<longrightarrow> (\<exists>s. v = GStr s \<and> m \<le> runeCount std s)) \<and>
            (\<forall>m. MaxLength fd = Some m \<longrightarrow> (\<exists>s. v = GStr s \<and> runeCount std s \<le> m)) \<and>
            (Pattern fd \<noteq> [] \<longrightarrow> (\<exists>s. v = GStr s \<and> reCompiles std (Pattern fd) \<and> reMatch std (Pattern fd) s)) \<and>
            (\<forall>check msg. Format fd \<noteq> [] \<longrightarrow> formatChecker std (Format fd) = Some (check, msg) \<longrightarrow> (\<exists>s. v = GStr s \<and> check s))) \<and>
         (isNumberType (fType fd) \<longrightarrow>
            (\<forall>m. fMin fd = Some m \<longrightarrow> (\<exists>x. AsFloat64 v = Some x \<and> m \<le> x)) \<and>
            (\<forall>m. fMax fd = Some m \<longrightarrow> (\<exists>x. AsFloat64 v = Some x \<and> x \<le> m)))"
proof -
  have str: "strRule g k msg ok v = None \<longleftrightarrow> (\<exists>s. v = GStr s \<and> ok s)" for g k msg ok
    by (auto simp: strRule_def split: goany.splits)
  have num: "numRule g k msg ok v = None \<longleftrightarrow> (\<exists>x. AsFloat64 v = Some x \<and> ok x)" for g k msg ok
    by (auto simp: numRule_def split: option.splits)
  have enum: "enumRule g allowed v = None \<longleftrightarrow> (\<exists>s \<in> set allowed. v = GStr s)" for g allowed
    by (auto simp: enumRule_def split: goany.splits)
  have "\<exists>s \<in> set (Enum fd). v = GStr s" if "Enum fd \<noteq> []"
    using assms [of "enumRule f (Enum fd)"] that by (simp add: fieldRules_def enum)
  moreover have "\<exists>s. v = GStr s \<and> m \<le> runeCount std s" if "isStringType (fType fd)" "MinLength fd = Some m" for m
    using assms [of "strRule f ''minLength'' (''must be at least '' @ Itoa m @ '' characters'') (\<lambda>s. runeCount std s \<ge> m)"] that
    by (simp add: fieldRules_def opt_def str)
  moreover have "\<exists>s. v = GStr s \<and> runeCount std s \<le> m" if "isStringType (fType fd)" "MaxLength fd = Some m" for m
    using assms [of "strRule f ''maxLength'' (''must be at most '' @ Itoa m @ '' characters'') (\<lambda>s. runeCount std s \<le> m)"] that
    by (simp add: fieldRules_def opt_def str)
  moreover have "\<exists>s. v = GStr s \<and> reCompiles std (Pattern fd) \<and> reMatch std (Pattern fd) s" if "isStringType (fType fd)" "Pattern fd \<noteq> []"
    using assms [of "patternRule std f (Pattern fd)"] that by (simp add: fieldRules_def patternRule_def str split: if_splits)
  moreover have "\<exists>s. v = GStr s \<and> check s"
    if "isStringType (fType fd)" "Format fd \<noteq> []" "formatChecker std (Format fd) = Some (check, msg)" for check msg
    using assms [of "strRule f ''format'' msg check"] that by (simp add: fieldRules_def opt_def str)
  moreover have "\<exists>x. AsFloat64 v = Some x \<and> m \<le> x" if "isNumberType (fType fd)" "fMin fd = Some m" for m
    using assms [of "numRule f ''min'' (''must be >= '' @ fmtV std (GFloat m)) (\<lambda>f. f \<ge> m)"] that
    by (simp add: fieldRules_def opt_def num)
  moreover have "\<exists>x. AsFloat64 v = Some x \<and> x \<le> m" if "isNumberType (fType fd)" "fMax fd = Some m" for m
    using assms [of "numRule f ''max'' (''must be <= '' @ fmtV std (GFloat m)) (\<lambda>f. f \<le> m)"] that
    by (simp add: fieldRules_def opt_def num)
  ultimately show ?thesis by blast
qed

lemma coerced_json:
  assumes "fst (CoerceJSONFields std res body) = []" "gm_get (Fields res) f = Some fd"
    and "gm_get (snd (CoerceJSONFields std res body)) f = Some v" "v \<noteq> GNil"
  shows "(fType fd = ''json'' \<longrightarrow> (\<exists>w t. gm_get body f = Some w \<and> CanonicalJSONText std w = Some t \<and> v = GStr t)) \<and>
         (fType fd = ''jsonb'' \<longrightarrow> (\<forall>t. v = GStr t \<longrightarrow> jsonValid std t))"
proof -
  from assms(3) obtain w where w: "gm_get body f = Some w" "v = (case coerceJSON std res f w of Some v' \<Rightarrow> v' | None \<Rightarrow> w)"
    by (auto simp: CoerceJSONFields_def gm_get_map_val)
  have k: "f \<in> set (sortedKeys body)" using gm_get_in [OF w(1)] by (auto intro: rev_image_eqI)
  note all = assms(1) [unfolded CoerceJSONFields_def fst_conv concat_eq_Nil_conv set_map ball_simps(9)]
  from bspec [OF all k] obtain v' where "coerceJSON std res f w = Some v'" using w(1) by (auto split: if_splits)
  then show ?thesis using w assms(2,4) by (auto simp: coerceJSON_def split: if_splits goany.splits)
qed

lemma typeCheck_accepts:
  assumes "validateFieldValue std f fd v = None" "Enum fd = []"
  shows "(fType fd \<in> {''string'', ''text'', ''uuid'', ''file'', ''time''} \<longrightarrow> (\<exists>s. v = GStr s)) \<and>
         (fType fd \<in> {''int'', ''int64''} \<longrightarrow> AsFloat64 v \<noteq> None \<and> IsIntegral v) \<and>
         (fType fd = ''float64'' \<longrightarrow> AsFloat64 v \<noteq> None) \<and> (fType fd = ''bool'' \<longrightarrow> (\<exists>b. v = GBool b))"
  using assms by (auto simp: validateFieldValue_def isStringType_def isStr_def isUuid_def split: if_splits goany.splits)

lemma createTypes_clean:
  assumes "validateCreateTypes std res body = []" "gm_get (Fields res) f = Some fd" "gm_get body f = Some v" "v \<noteq> GNil"
    and "\<not> isStr v" "\<forall>t. v \<noteq> GTime t \<and> v \<noteq> GRaw t"
  shows "validateFieldValue std f fd v = None"
proof -
  have k: "f \<in> set (sortedKeys body)" using gm_get_in [OF assms(3)] by (auto intro: rev_image_eqI)
  have j: "fromJSONBody v" using assms(6) by (cases v) (auto simp: fromJSONBody_def)
  note all = assms(1) [unfolded validateCreateTypes_def concat_eq_Nil_conv set_map ball_simps(9)]
  from bspec [OF all k] show ?thesis using assms(2-5) j by (simp split: option.splits)
qed

section \<open>Properties\<close>

text \<open>A state field only ever holds a state reachable from an initial one by declared transitions, or null:
  the rows that creates and updates produce, in any order, keep it, and one more update that touches the row,
  single or batched, keeps the value or takes exactly one declared transition, so a terminal state is never
  left.  A null state, which a create that omits the field gives, never moves either.\<close>

lemma live_row_moves:
  assumes "plainStates res" "stateMachineOf res f = Some sm" "statesLeft res hook scoped"
    and "quotesNames P" "bareIdent name" "bareColumns res" "liveRow std cmp P name res hook scoped r"
    and "updateIssued std P now res (pIdent P name) i sets cond guards q args" "fst ` set sets \<subseteq> fst ` set (Fields res)"
    and "unreserved cond guards" "touches std cmp q args r"
  shows "inLifecycle sm (gm_get r f) \<and>
         (gm_get (rowAfter q args r) f = gm_get r f \<or>
          (\<exists>s t. gm_get r f = Some (GStr s) \<and> t \<in> set (transitionsOf sm s) \<and> \<not> IsTerminal sm s \<and>
                 gm_get (rowAfter q args r) f = Some (GStr t)))"
proof -
  note env = assms(8,4,5,6,9,10)
  show ?thesis
    using liveRow_inLifecycle [OF assms(1-7)] update_reads [OF env, of r]
      update_step [OF assms(1,2) _ assms(8) assms(11) [unfolded update_touches [OF env]]]
    by (fastforce simp: IsTerminal_def)
qed


text \<open>A batched update without guards sends exactly the statement and the parameters of the single update,
  and is refused exactly when that one is; with guards too, the text is the print of the identifier, the row
  condition, the guards and the transition guards, in that order, and the values are parameters only.\<close>

theorem batch_update_is_single_update:
  "(runUpdateSQL P now res tbl i sets cond = Inr (q, args)) = (buildUpdateSQL std P now res tbl i sets cond [] = Inr (q, args)) \<and>
   (buildUpdateSQL std P now res tbl i sets cond guards = Inr (q, args) \<longrightarrow>
      q = printWhere P (updateHead P tbl (setColumns now res sets))
            (updateWhere res sets cond guards (length (setColumns now res sets))) @ '' RETURNING *'' \<and>
      args = updateArgs res (setColumns now res sets) i sets cond guards)"
  using single_batch_same [of P now res tbl i sets cond q args std] buildUpdateSQL_prints [of std P now res tbl i sets cond guards q args]
  by blast


section \<open>An order and its owner\<close>

definition exOrders :: ResourceSchema where
  "exOrders = zeroResource
     [(''status'', (zeroField ''string'')\<lparr>fStateMachine := Some exOrder, fDefault := GStr ''draft''\<rparr>),
      (''owner'', zeroField ''string''),
      (''qty'', (zeroField ''int'')\<lparr>Required := True, fMin := Some 1\<rparr>)]"

definition exTenantPool :: "unit TenantPool" where
  "exTenantPool =
     \<lparr>pBegin = Pair None, pExec = (\<lambda>_ _. Pair (Inr 1)), pQuery = (\<lambda>_ _. Pair (Inr [])), pCommit = Pair None, pRollback = id,
      brAllow = Pair None, brDone = (\<lambda>_. id), leafUnavailable = (\<lambda>_. False), breakerOpen = (\<lambda>_. False), pIdent = pgIdent\<rparr>"

definition exBody :: row where
  "exBody = [(''qty'', GFloat 2), (''owner'', GStr ''u1'')]"

definition exRow :: row where
  "exRow = [(''qty'', GFloat 2), (''owner'', GStr ''u1''), (''status'', GStr ''draft''), (''id'', GStr ''r1'')]"

definition exMove :: row where
  "exMove = [(''status'', GStr ''paid'')]"

definition exMine :: WhereCondition where
  "exMine = \<lparr>wField = ''owner'', wOp = ''eq'', wValue = ''u1'', Identity = True\<rparr>"

definition exScoped :: EvalResult where
  "exScoped = \<lparr>Allowed = True, AllowedFields = [], evCondition = Some exMine\<rparr>"

definition exUpdateSQL :: "string \<times> sqlArg list" where
  "exUpdateSQL = projr (runUpdateSQL exTenantPool ''t'' exOrders (pIdent exTenantPool ''orders'') ''r1'' exMove (Some exMine))"

lemma exUpdate_issued:
  "updateIssued exStd exTenantPool ''t'' exOrders (pIdent exTenantPool ''orders'') ''r1'' exMove (Some exMine) [] (fst exUpdateSQL) (snd exUpdateSQL)"
proof -
  have "\<not> isl (runUpdateSQL exTenantPool ''t'' exOrders (pIdent exTenantPool ''orders'') ''r1'' exMove (Some exMine))" by code_simp
  then show ?thesis by (simp add: updateIssued_def exUpdateSQL_def)
qed

lemma exUpdate_touches: "touches exStd (\<lambda>_ _ _. False) (fst exUpdateSQL) (snd exUpdateSQL) exRow"
  by code_simp

lemma exUpdate_after: "gm_get (rowAfter (fst exUpdateSQL) (snd exUpdateSQL) exRow) ''status'' = Some (GStr ''paid'')"
  by code_simp

lemma exCreate_accepted:
  "PrepareCreate exStd ''t'' exOrders (CompileRules exStd exOrders) exBody ''user'' = ([], butlast exRow)"
  by code_simp

lemma exOrders_plain: "quotesNames exTenantPool" "bareIdent ''orders''" "bareColumns exOrders"
  by (simp_all add: quotesNames_def exTenantPool_def bareColumns_def exOrders_def zeroResource_def identStart_def identPart_def)

lemma exMine_unreserved: "unreserved (Some exMine) []"
proof -
  have "''owner'' \<notin> set sqlReserved" by code_simp
  then show ?thesis by (simp add: unreserved_def exMine_def)
qed

lemma exMove_declared: "fst ` set exMove \<subseteq> fst ` set (Fields exOrders)"
  by code_simp

abbreviation exHook :: "row \<Rightarrow> row \<Rightarrow> bool" where
  "exHook b b' \<equiv> b' = b"

abbreviation exScopedTo :: "EvalResult option \<Rightarrow> bool" where
  "exScopedTo evo \<equiv> evo = Some exScoped"

lemma exOrders_states: "statesLeft exOrders exHook exScopedTo"
  by (simp add: statesLeft_def exScoped_def exMine_def stateMachineOf_def exOrders_def zeroResource_def zeroField_def)

lemma exRow_live: "liveRow exStd (\<lambda>_ _ _. False) exTenantPool ''orders'' exOrders exHook exScopedTo exRow"
proof (rule liveRow.created [OF exCreate_accepted refl refl])
  show "EnforceCreateRBAC exStd (butlast exRow) (Some exScoped) = Inr (butlast exRow)" by code_simp
  show "storedRow exOrders (butlast exRow) exRow"
    by (auto simp: storedRow_def exRow_def stateMachineOf_def exOrders_def zeroResource_def zeroField_def)
qed


theorem batch_update_is_single_update_witness:
  "buildUpdateSQL exStd exTenantPool ''t'' exOrders (pIdent exTenantPool ''orders'') ''r1'' exMove (Some exMine) [] = Inr (fst exUpdateSQL, snd exUpdateSQL) \<and>
   snd exUpdateSQL = updateArgs exOrders (setColumns ''t'' exOrders exMove) ''r1'' exMove (Some exMine) []"
  using batch_update_is_single_update [of exTenantPool "''t''" exOrders "pIdent exTenantPool ''orders''" "''r1''" exMove "Some exMine"
      "fst exUpdateSQL" "snd exUpdateSQL" exStd "[]"] exUpdate_issued [unfolded updateIssued_build]
  by blast


end
