(* ===== verification/FileFacts.thy ===== *)
theory FileFacts
  imports WriteFacts
begin

text \<open>
  What the file checks of \<open>FileAccess\<close> enforce.  The hypothesis on the database is that a probe has a row exactly when
  its WHERE clause, read from the text by \<open>SqlMeaning\<close>, is true of a row of the table the text names.
\<close>

section \<open>The rule\<close>

type_synonym tenantRows = "string \<Rightarrow> row list"

definition refersTo :: "Std \<Rightarrow> FileRefColumn \<Rightarrow> string \<Rightarrow> row \<Rightarrow> bool" where
  "refersTo std c f r = sqlEq std (gm_get r (frColumn c)) (GStr f)"

definition inScope :: "Std \<Rightarrow> WhereCondition option \<Rightarrow> row \<Rightarrow> bool" where
  "inScope std cond r = (case cond of None \<Rightarrow> True | Some k \<Rightarrow> sqlEq std (gm_get r (wField k)) (GStr (wValue k)))"

text \<open>A row that refers to the file, and one of those the caller may read.\<close>

definition referenced :: "Std \<Rightarrow> tenantRows \<Rightarrow> FileRefColumn list \<Rightarrow> string \<Rightarrow> bool" where
  "referenced std db cols f = list_ex (\<lambda>c. list_ex (refersTo std c f) (db (frResource c))) cols"

definition readable :: "Std \<Rightarrow> tenantRows \<Rightarrow> Policy \<Rightarrow> EvalContext \<Rightarrow> string \<Rightarrow> FileRefColumn \<Rightarrow> bool" where
  "readable std db pol ev f c =
     (let res = Evaluate pol ev (frResource c) ''read''
      in Allowed res \<and> list_ex (\<lambda>r. refersTo std c f r \<and> inScope std (evCondition res) r) (db (frResource c)))"

definition mayReach :: "Std \<Rightarrow> tenantRows \<Rightarrow> string \<Rightarrow> FileRefColumn list \<Rightarrow> Policy \<Rightarrow> EvalContext \<Rightarrow> string \<Rightarrow> bool" where
  "mayReach std db who cols pol ev f =
     (cols = [] \<or> (if referenced std db cols f then list_ex (readable std db pol ev f) cols else who = [] \<or> who = UserID ev))"

section \<open>What the queries answer\<close>

text \<open>What PostgreSQL keeps, as far as the reach check can see it: the rows of each table of each schema, the rows a
  rollback returns to, and the schema an unqualified name is looked up in.\<close>

record 'w Database =
  dbRows :: "'w \<Rightarrow> string \<Rightarrow> string \<Rightarrow> row list"
  dbSaved :: "'w \<Rightarrow> string \<Rightarrow> string \<Rightarrow> row list"
  dbPath :: "'w \<Rightarrow> string"

definition keeps :: "'w Database \<Rightarrow> 'w \<Rightarrow> 'w \<Rightarrow> bool" where
  "keeps D w w' \<longleftrightarrow> dbRows D w' = dbRows D w \<and> dbSaved D w' = dbSaved D w \<and> dbPath D w' = dbPath D w"

text \<open>A query \<open>SELECT 1 FROM\<close> a table \<open>WHERE\<close> a condition, with \<open>LIMIT 1\<close> or nothing after it.\<close>

definition isProbe :: "string \<Rightarrow> bool" where
  "isProbe q \<longleftrightarrow>
     (case lexSQL q of Word a # Word b # Word c # _ \<Rightarrow> ToLower a = ''select'' \<and> b = ''1'' \<and> ToLower c = ''from'' | _ \<Rightarrow> False) \<and>
     dropWhile (\<lambda>l. \<not> clauseEnd l) (afterWord ''where'' (lexSQL q)) \<in> {[], [Word ''LIMIT'', Word ''1'']}"

definition tableRows :: "'w Database \<Rightarrow> 'w \<Rightarrow> string option \<times> string \<Rightarrow> row list" where
  "tableRows D w t = dbRows D w (case fst t of None \<Rightarrow> dbPath D w | Some s \<Rightarrow> s) (snd t)"

text \<open>PostgreSQL: such a query has a row exactly when the condition, read from its text, is true of some row of the
  table it names; it changes nothing, and neither does SET change rows; a rollback returns to the rows at the
  beginning of the transaction.  The breaker does not touch the database.\<close>

definition isPostgres :: "Std \<Rightarrow> comparison \<Rightarrow> 'w Database \<Rightarrow> 'w TenantPool \<Rightarrow> bool" where
  "isPostgres std cmp D P \<longleftrightarrow>
     (\<forall>q args w r w1. isProbe q \<longrightarrow> pQuery P q args w = (r, w1) \<longrightarrow> keeps D w w1 \<and>
        (\<forall>rows t e. r = Inr rows \<longrightarrow> tableAfter ''from'' q = Some t \<longrightarrow> sqlWhere q = Some e \<longrightarrow>
           (rows \<noteq> [] \<longleftrightarrow> list_ex (\<lambda>x. sqlTrue std cmp args x e) (tableRows D w t)))) \<and>
     (\<forall>q w r w1. isWord ''set'' (hd (lexSQL q)) \<longrightarrow> pExec P q [] w = (r, w1) \<longrightarrow> dbRows D w1 = dbRows D w \<and> dbSaved D w1 = dbSaved D w) \<and>
     (\<forall>w r w1. pBegin P w = (r, w1) \<longrightarrow> dbRows D w1 = dbRows D w \<and> (r = None \<longrightarrow> dbSaved D w1 = dbRows D w)) \<and>
     (\<forall>w. dbRows D (pRollback P w) = dbSaved D w) \<and>
     (\<forall>w r w1. brAllow P w = (r, w1) \<longrightarrow> keeps D w w1) \<and> (\<forall>r w. keeps D w (brDone P r w))"

text \<open>The store that tells who uploaded a file.\<close>

definition uploads :: "'w Database \<Rightarrow> 'w FileUploader option \<Rightarrow> (string \<Rightarrow> string) \<Rightarrow> bool" where
  "uploads D up who \<longleftrightarrow>
     (case up of
        None \<Rightarrow> \<forall>f. who f = []
      | Some fn \<Rightarrow> \<forall>f w r w1. fn f w = (r, w1) \<longrightarrow> keeps D w w1 \<and> (\<forall>x. r = Inr x \<longrightarrow> x = who f))"

text \<open>No table, file column or condition column of the check has a name that needs quoting where the code does not quote.\<close>

definition plainReach :: "Policy \<Rightarrow> EvalContext \<Rightarrow> FileRefColumn list \<Rightarrow> bool" where
  "plainReach pol ev cols \<longleftrightarrow>
     (\<forall>c \<in> set cols. bareIdent (frResource c) \<and> bareIdent (frColumn c) \<and>
        (\<forall>k. evCondition (Evaluate pol ev (frResource c) ''read'') = Some k \<longrightarrow> wField k \<notin> set sqlReserved))"

section \<open>The text of the queries\<close>

lemma probe_words:
  "list_all wordChar ''SELECT''" "list_all wordChar ''1''" "list_all wordChar ''FROM''" "list_all wordChar ''LIMIT''"
  by code_simp+

lemmas lex_probe =
  lex_words [OF _ probe_words(1), simplified] lex_words [OF _ probe_words(2), simplified] lex_words [OF _ probe_words(3), simplified]
  lex_words [OF _ probe_words(4), simplified] lex_keywords

lemma probe_tokens:
  "ToLower ''SELECT'' = ''select''" "ToLower ''FROM'' = ''from''" "ToLower ''WHERE'' = ''where''" "ToLower ''1'' = ''1''"
  "ToLower ''LIMIT'' = ''limit''" "tokenOf (Word ''WHERE'') = Key ''where''" "clauseEnd (Word ''LIMIT'')" "\<not> clauseEnd (Word ''WHERE'')"
  by code_simp+

definition tableLex :: "string option \<times> string \<Rightarrow> lexeme list" where
  "tableLex t = (case fst t of None \<Rightarrow> [] | Some s \<Rightarrow> [Ident s, Sym (CHR ''.'')]) @ [Ident (snd t)]"

text \<open>A text of this shape is a probe of the table with the condition, whatever the conjuncts after the first.\<close>

lemma probe_reads:
  assumes lex: "lexSQL q = Word ''SELECT'' # Word ''1'' # Word ''FROM'' # tableLex t @ Word ''WHERE'' # Ident c # Opr ''='' # paramWord 1 # ls @
      [Word ''LIMIT'', Word ''1'']"
    and ls: "ls = [] \<and> e = Compare c ''='' 1 \<or>
      (\<exists>k. plainColumn k \<and> ls = [Word ''AND'', Word k, Opr ''='', paramWord 2] \<and> e = SqlAnd (Compare c ''='' 1) (Compare k ''='' 2))"
  shows "isProbe q \<and> tableAfter ''from'' q = Some t \<and> sqlWhere q = Some e"
proof -
  have clean: "Junk \<notin> set ls" "\<forall>l \<in> set ls. \<not> clauseEnd l" using ls clauseEnd_plain by (auto simp: paramWord_word [THEN not_sym])
  have after: "afterWord ''where'' (lexSQL q) = Ident c # Opr ''='' # paramWord 1 # ls @ [Word ''LIMIT'', Word ''1'']"
    by (cases "fst t") (simp_all add: lex afterWord_def tableLex_def probe_tokens)
  have "takeWhile (\<lambda>l. \<not> clauseEnd l) (ls @ [Word ''LIMIT'', Word ''1'']) = ls"
    using clean(2) probe_tokens(7) by (subst takeWhile_append2) auto
  moreover have "dropWhile (\<lambda>l. \<not> clauseEnd l) (ls @ [Word ''LIMIT'', Word ''1'']) = [Word ''LIMIT'', Word ''1'']"
    using clean(2) probe_tokens(7) by (subst dropWhile_append2) auto
  moreover have "Junk \<notin> set (lexSQL q)" using clean(1) by (auto simp: lex tableLex_def paramWord_word [THEN not_sym] split: option.splits)
  moreover have "tableAfter ''from'' q = Some t"
    by (cases t; cases "fst t") (simp_all add: tableAfter_def lex afterWord_def tableLex_def probe_tokens)
  ultimately show ?thesis
    using ls by (auto simp: isProbe_def sqlWhere_def after tokenOf_plain joinAnd_def joinOr_def) (simp_all add: lex probe_tokens)
qed

lemma any_reads:
  assumes "quotesNames P" "bareIdent c" "\<And>rest. apart rest \<Longrightarrow> lexFrom Between (tbl @ rest) = tableLex t @ lexFrom Between rest"
  shows "isProbe (anySQL tbl (pIdent P c)) \<and> tableAfter ''from'' (anySQL tbl (pIdent P c)) = Some t \<and>
         sqlWhere (anySQL tbl (pIdent P c)) = Some (Compare c ''='' 1)"
proof (rule probe_reads [where ls = "[]"])
  have "lexFrom Between (placeholder 1 @ CHR '' '' # rest) = paramWord 1 # lexFrom Between rest" for rest by (simp add: lex_placeholder)
  note p = this [unfolded placeholder_one, simplified]
  show "lexSQL (anySQL tbl (pIdent P c)) = Word ''SELECT'' # Word ''1'' # Word ''FROM'' # tableLex t @ Word ''WHERE'' # Ident c # Opr ''='' # paramWord 1 # [] @
      [Word ''LIMIT'', Word ''1'']"
    using assms(1,2) lex_probe(2) [of "[]"]
    by (simp add: anySQL_def lexSQL_def lex_probe assms(3) quotesNames_def lex_pgIdent p)
qed simp

lemma mine_reads:
  assumes "quotesNames P" "bareIdent c" "\<And>rest. apart rest \<Longrightarrow> lexFrom Between (tbl @ rest) = tableLex t @ lexFrom Between rest"
    and "AppendRowCondition (mineSQL tbl (pIdent P c)) [Arg (GStr f)] cond = Inr (q, args)" "\<forall>k. cond = Some k \<longrightarrow> wField k \<notin> set sqlReserved"
  shows "isProbe (q @ '' LIMIT 1'') \<and> tableAfter ''from'' (q @ '' LIMIT 1'') = Some t \<and>
         (\<exists>e. sqlWhere (q @ '' LIMIT 1'') = Some e \<and>
            (\<forall>r. sqlTrue std cmp args r e \<longleftrightarrow> sqlEq std (gm_get r c) (GStr f) \<and> inScope std cond r))"
proof -
  have two: "placeholder 2 = ''$2''" by code_simp
  have "lexFrom Between (placeholder n @ CHR '' '' # rest) = paramWord n # lexFrom Between rest" for n rest by (simp add: lex_placeholder)
  note p = this [of 1, unfolded placeholder_one, simplified] this [of 2, unfolded two, simplified]
  have start: "lexFrom Between (mineSQL tbl (pIdent P c) @ CHR '' '' # rest) =
      Word ''SELECT'' # Word ''1'' # Word ''FROM'' # tableLex t @ Word ''WHERE'' # Ident c # Opr ''='' # paramWord 1 # lexFrom Between rest" for rest
    using assms(1,2) by (simp add: mineSQL_def lex_probe assms(3) quotesNames_def lex_pgIdent p)
  have limit: "lexFrom Between ''LIMIT 1'' = [Word ''LIMIT'', Word ''1'']" by code_simp
  show ?thesis
  proof (cases cond)
    case None
    then have q: "q = mineSQL tbl (pIdent P c)" "args = [Arg (GStr f)]" using assms(4) by (simp_all add: AppendRowCondition_def)
    have "isProbe (q @ '' LIMIT 1'') \<and> tableAfter ''from'' (q @ '' LIMIT 1'') = Some t \<and> sqlWhere (q @ '' LIMIT 1'') = Some (Compare c ''='' 1)"
      using start [of "''LIMIT 1''"] by (intro probe_reads [where ls = "[]"]) (simp_all add: lexSQL_def q limit)
    then show ?thesis by (simp add: q None inScope_def argAt_def)
  next
    case (Some k)
    then have k: "plainColumn (wField k)" and q: "q = mineSQL tbl (pIdent P c) @ '' AND '' @ wField k @ '' = '' @ placeholder 2"
      and args: "args = [Arg (GStr f), Arg (GStr (wValue k))]"
      using assms(4,5) by (auto simp: AppendRowCondition_def plainColumn_def numeral_2_eq_2 split: if_splits)
    let ?ls = "[Word ''AND'', Word (wField k), Opr ''='', paramWord 2]"
    have "isProbe (q @ '' LIMIT 1'') \<and> tableAfter ''from'' (q @ '' LIMIT 1'') = Some t \<and>
        sqlWhere (q @ '' LIMIT 1'') = Some (SqlAnd (Compare c ''='' 1) (Compare (wField k) ''='' 2))"
    proof (rule probe_reads [where ls = ?ls])
      have "lexFrom Between (wField k @ CHR '' '' # rest) = Word (wField k) # lexFrom Between rest" for rest
        using lex_bare [of "wField k" "CHR '' '' # rest"] k by (simp add: plainColumn_def)
      then show "lexSQL (q @ '' LIMIT 1'') = Word ''SELECT'' # Word ''1'' # Word ''FROM'' # tableLex t @ Word ''WHERE'' # Ident c # Opr ''='' #
          paramWord 1 # ?ls @ [Word ''LIMIT'', Word ''1'']"
        using start [of "''AND '' @ wField k @ '' = '' @ placeholder 2 @ '' LIMIT 1''"]
        by (simp add: lexSQL_def q lex_probe limit two p)
    qed (use k in blast)
    then show ?thesis by (simp add: args Some inScope_def argAt_def)
  qed
qed

section \<open>The checks decide the rule\<close>

lemma readable_referenced: "readable std db pol ev f c \<Longrightarrow> list_ex (refersTo std c f) (db (frResource c))"
  by (auto simp: readable_def Let_def list_ex_iff)

text \<open>A way of asking the two questions of the reach check, given by the pool and by an open transaction: as long as
  \<open>ok\<close> holds, the answers are about the rows \<open>db\<close>, and asking keeps it so.\<close>

locale existence_query =
  fixes std :: Std and P :: "'w TenantPool" and D :: "'w Database" and db :: tenantRows
    and tbl :: "string \<Rightarrow> string" and ask :: "string \<Rightarrow> sqlArg list \<Rightarrow> 'w \<Rightarrow> (goError + bool) \<times> 'w" and ok :: "'w \<Rightarrow> bool"
  assumes any: "ok w \<Longrightarrow> bareIdent t \<Longrightarrow> bareIdent c \<Longrightarrow> ask (anySQL (tbl t) (pIdent P c)) [Arg (GStr f)] w = (Inr b, w') \<Longrightarrow>
      ok w' \<and> b = list_ex (\<lambda>r. sqlEq std (gm_get r c) (GStr f)) (db t)"
    and mine: "ok w \<Longrightarrow> bareIdent t \<Longrightarrow> bareIdent c \<Longrightarrow> \<forall>k. cond = Some k \<longrightarrow> wField k \<notin> set sqlReserved \<Longrightarrow>
      AppendRowCondition (mineSQL (tbl t) (pIdent P c)) [Arg (GStr f)] cond = Inr (q, args) \<Longrightarrow> ask (q @ '' LIMIT 1'') args w = (Inr b, w') \<Longrightarrow>
      ok w' \<and> b = list_ex (\<lambda>r. sqlEq std (gm_get r c) (GStr f) \<and> inScope std cond r) (db t)"
    and still: "ok w \<Longrightarrow> keeps D w w' \<Longrightarrow> ok w'"
begin

lemma reachLoop_decides:
  assumes "plainReach pol ev cols" "ok w" "reachLoop (pIdent P) tbl ask pol ev f cols b w = (Inr v, w')"
  shows "ok w' \<and> v = (if list_ex (readable std db pol ev f) cols then Some True else if b \<or> referenced std db cols f then Some False else None)"
  using assms
proof (induction cols arbitrary: b w)
  case Nil
  then show ?case by (simp add: referenced_def)
next
  case (Cons c cs)
  let ?t = "tbl (frResource c)" and ?c = "pIdent P (frColumn c)" and ?res = "Evaluate pol ev (frResource c) ''read''"
  have bare: "bareIdent (frResource c)" "bareIdent (frColumn c)" "\<forall>k. evCondition ?res = Some k \<longrightarrow> wField k \<notin> set sqlReserved"
    and rest: "plainReach pol ev cs"
    using Cons.prems(1) by (auto simp: plainReach_def)
  obtain r2 w2 where 2: "ask (anySQL ?t ?c) [Arg (GStr f)] w = (r2, w2)" by fastforce
  with Cons.prems(3) obtain hit where hit: "r2 = Inr hit" by (cases r2) auto
  have h: "ok w2" "hit = list_ex (refersTo std c f) (db (frResource c))"
    using any [OF Cons.prems(2) bare(1,2) 2 [unfolded hit]] by (simp_all add: refersTo_def [abs_def])
  show ?case
  proof (cases "hit \<and> Allowed ?res")
    case False
    then have nr: "\<not> readable std db pol ev f c" using h readable_referenced by (auto simp: readable_def Let_def)
    from False have "reachLoop (pIdent P) tbl ask pol ev f cs (b \<or> hit) w2 = (Inr v, w')"
      using Cons.prems by (auto simp: 2 hit Let_def split: if_splits)
    from Cons.IH [OF rest h(1) this] show ?thesis using nr h by (simp add: referenced_def)
  next
    case True
    with Cons.prems obtain q args where q: "AppendRowCondition (mineSQL ?t ?c) [Arg (GStr f)] (evCondition ?res) = Inr (q, args)"
      by (auto simp: 2 hit Let_def split: sum.splits)
    obtain r3 w3 where 3: "ask (q @ '' LIMIT 1'') args w2 = (r3, w3)" by fastforce
    with Cons.prems True q obtain own where own: "r3 = Inr own" by (cases r3) (auto simp: 2 hit Let_def)
    have m: "ok w3" "own \<longleftrightarrow> readable std db pol ev f c"
      using mine [OF h(1) bare q 3 [unfolded own]] True by (simp_all add: readable_def refersTo_def Let_def)
    show ?thesis
    proof (cases own)
      case True
      then show ?thesis using Cons.prems \<open>hit \<and> Allowed ?res\<close> q m by (simp add: 2 3 hit own Let_def)
    next
      case False
      then have "reachLoop (pIdent P) tbl ask pol ev f cs True w3 = (Inr v, w')" using Cons.prems \<open>hit \<and> Allowed ?res\<close> q by (simp add: 2 3 hit own Let_def)
      from Cons.IH [OF rest m(1) this] show ?thesis using False m h \<open>hit \<and> Allowed ?res\<close> by (simp add: referenced_def)
    qed
  qed
qed

lemma reachable_decides:
  assumes "plainReach pol ev cols" "uploads D up who" "ok w" "reachable_with (pIdent P) tbl ask up cols pol ev f w = (Inr b, w')"
  shows "ok w' \<and> b = mayReach std db (who f) cols pol ev f"
proof (cases "cols = []")
  case True
  then show ?thesis using assms(3,4) by (simp add: reachable_with_def mayReach_def)
next
  case False
  obtain r2 w2 where 2: "reachLoop (pIdent P) tbl ask pol ev f cols False w = (r2, w2)" by fastforce
  with assms(4) False obtain v where v: "r2 = Inr v" by (cases r2) (auto simp: reachable_with_def)
  note d = reachLoop_decides [OF assms(1,3) 2 [unfolded v]]
  have rr: "list_ex (readable std db pol ev f) cols \<Longrightarrow> referenced std db cols f"
    by (auto simp: referenced_def list_ex_iff [of _ cols] dest: readable_referenced)
  show ?thesis
  proof (cases v)
    case None
    then have u: "uploadedByCaller up ev f w2 = (Inr b, w')" using assms(4) False by (simp add: reachable_with_def 2 v)
    have "ok w' \<and> b = (who f = [] \<or> who f = UserID ev)"
    proof (cases up)
      case None
      then show ?thesis using u d assms(2) by (simp add: uploadedByCaller_def uploads_def)
    next
      case (Some fn)
      then obtain x where x: "fn f w2 = (Inr x, w')" "b = (x = [] \<or> x = UserID ev)"
        using u by (cases "fst (fn f w2)") (auto simp: uploadedByCaller_def split: prod.splits)
      then have "keeps D w2 w'" "x = who f" using assms(2) Some by (auto simp: uploads_def)
      then show ?thesis using still [OF d [THEN conjunct1]] x(2) by simp
    qed
    then show ?thesis using None d False by (auto simp: mayReach_def split: if_splits)
  next
    case (Some x)
    then have "b = x \<and> w' = w2" using assms(4) False by (simp add: reachable_with_def 2 v)
    then show ?thesis using Some d False rr by (auto simp: mayReach_def split: if_splits)
  qed
qed

lemma attach_decides:
  assumes "plainReach pol ev cols" "uploads D up who" "ok w"
    and "attachLoop (reachable_with (pIdent P) tbl ask up cols pol ev) vals fs w = (Inr [], w')"
    and "(name, fd) \<in> set fs" "fType fd = ''file''" "gm_get vals name = Some (GStr f)" "f \<noteq> []"
  shows "mayReach std db (who f) cols pol ev f"
  using assms(3-8)
proof (induction fs arbitrary: w)
  case Nil
  then show ?case by simp
next
  case (Cons nf fs)
  obtain n d where nf: "nf = (n, d)" by fastforce
  show ?case
  proof (cases "\<exists>g gs. d = fd \<and> n = name \<and> f = g # gs")
    case True
    then obtain g gs where f: "f = g # gs" "d = fd" "n = name" by blast
    with Cons.prems nf obtain w1 where "reachable_with (pIdent P) tbl ask up cols pol ev f w = (Inr True, w1)"
      by (auto split: prod.splits sum.splits if_splits)
    from reachable_decides [OF assms(1,2) Cons.prems(1) this] show ?thesis by simp
  next
    case False
    then have "(name, fd) \<in> set fs" using Cons.prems nf by (cases f) auto
    moreover obtain w1 where "ok w1" "attachLoop (reachable_with (pIdent P) tbl ask up cols pol ev) vals fs w1 = (Inr [], w')"
    proof (cases "\<exists>g gs. fType d = ''file'' \<and> gm_get vals n = Some (GStr (g # gs))")
      case True
      then obtain g gs where g: "fType d = ''file''" "gm_get vals n = Some (GStr (g # gs))" by blast
      with Cons.prems(2) nf obtain b w1 where "reachable_with (pIdent P) tbl ask up cols pol ev (g # gs) w = (Inr b, w1)"
        "attachLoop (reachable_with (pIdent P) tbl ask up cols pol ev) vals fs w1 = (Inr [], w')"
        by (auto split: prod.splits sum.splits if_splits)
      with reachable_decides [OF assms(1,2) Cons.prems(1)] that show ?thesis by blast
    next
      case False
      then have "attachLoop (reachable_with (pIdent P) tbl ask up cols pol ev) vals fs w = (Inr [], w')"
        using Cons.prems(2) nf by (auto split: option.splits goany.splits list.splits if_splits)
      then show ?thesis using that Cons.prems(1) by blast
    qed
    ultimately show ?thesis using Cons.IH Cons.prems(4-6) by blast
  qed
qed

end

section \<open>The pool and the transaction\<close>

lemma postgres_probe:
  assumes "isPostgres std cmp D P" "isProbe q" "pQuery P q args w = (Inr rows, w1)" "tableAfter ''from'' q = Some t" "sqlWhere q = Some e"
  shows "keeps D w w1" "rows \<noteq> [] \<longleftrightarrow> list_ex (\<lambda>x. sqlTrue std cmp args x e) (tableRows D w t)"
  using assms(1) [unfolded isPostgres_def, THEN conjunct1, rule_format, OF assms(2,3)] assms(4,5) by simp_all

lemma postgres_steps:
  assumes "isPostgres std cmp D P"
  shows "isWord ''set'' (hd (lexSQL q)) \<Longrightarrow> pExec P q [] w = (r, w1) \<Longrightarrow> dbRows D w1 = dbRows D w \<and> dbSaved D w1 = dbSaved D w"
    and "pBegin P w = (None, w1) \<Longrightarrow> dbRows D w1 = dbRows D w \<and> dbSaved D w1 = dbRows D w"
    and "dbRows D (pRollback P w) = dbSaved D w" and "brAllow P w = (ro, w1) \<Longrightarrow> keeps D w w1" and "keeps D w (brDone P ro w)"
  using assms unfolding isPostgres_def by (elim conjE; simp)+

lemma readTenant_probe:
  assumes pg: "isPostgres std cmp D P" and q: "isProbe q" "tableAfter ''from'' q = Some (Some s, t)" "sqlWhere q = Some e"
    and run: "readTenant P sch q args w = (Inr rows, w')"
  shows "dbRows D w' = dbRows D w \<and> (rows \<noteq> [] \<longleftrightarrow> list_ex (\<lambda>x. sqlTrue std cmp args x e) (dbRows D w s t))"
proof -
  have set_path: "isWord ''set'' (hd (lexSQL (setPathSQL P sch)))"
  proof -
    have "list_all wordChar ''SET''" by code_simp
    from lex_words [OF _ this, of "'' LOCAL search_path TO '' @ pIdent P sch @ '', public''"] show ?thesis
      by (simp add: setPathSQL_def lexSQL_def) code_simp
  qed
  from run obtain w0 w1 w2 w3 n where 1: "brAllow P w = (None, w0)" "pBegin P w0 = (None, w1)" "pExec P (setPathSQL P sch) [] w1 = (Inr n, w2)"
    "pQuery P q args w2 = (Inr rows, w3)" "w' = brDone P None (pRollback P w3)"
    by (auto simp: readTenant_def breakerExec_def Let_def split: option.splits prod.splits sum.splits)
  note steps = postgres_steps [OF pg]
  note a = steps(4) [OF 1(1)] and b = steps(2) [OF 1(2)] and c = steps(1) [OF set_path 1(3)] and d = postgres_probe [OF pg q(1) 1(4) q(2,3)]
  have "dbRows D (pRollback P w3) = dbSaved D w3" "keeps D (pRollback P w3) w'" using steps(3,5) 1(5) by simp_all
  then show ?thesis using a b c d by (simp add: keeps_def tableRows_def)
qed

definition poolOk :: "Std \<Rightarrow> comparison \<Rightarrow> 'w Database \<Rightarrow> 'w TenantPool \<Rightarrow> string \<Rightarrow> tenantRows \<Rightarrow> 'w \<Rightarrow> bool" where
  "poolOk std cmp D P s db w \<longleftrightarrow> isPostgres std cmp D P \<and> quotesNames P \<and> bareIdent s \<and> dbRows D w s = db"

definition txOk :: "Std \<Rightarrow> comparison \<Rightarrow> 'w Database \<Rightarrow> 'w TenantPool \<Rightarrow> string \<Rightarrow> tenantRows \<Rightarrow> 'w \<Rightarrow> bool" where
  "txOk std cmp D P s db w \<longleftrightarrow> isPostgres std cmp D P \<and> quotesNames P \<and> dbPath D w = s \<and> dbRows D w s = db"

lemma pool_table:
  assumes "quotesNames P" "bareIdent s" "bareIdent t" "apart rest"
  shows "lexFrom Between ((pIdent P s @ ''.'' @ pIdent P t) @ rest) = tableLex (Some s, t) @ lexFrom Between rest"
  using assms by (simp add: quotesNames_def lex_pgIdent tableLex_def)

lemma existsTenant_Inr: "existsTenant P s q args w = (Inr b, w') \<Longrightarrow> \<exists>rows. readTenant P s q args w = (Inr rows, w') \<and> b = (rows \<noteq> [])"
  unfolding existsTenant_def by (cases "fst (readTenant P s q args w)") (auto split: prod.splits)

lemma existsTx_Inr: "existsTx P q args w = (Inr b, w') \<Longrightarrow> \<exists>rows. pQuery P q args w = (Inr rows, w') \<and> b = (rows \<noteq> [])"
  unfolding existsTx_def by (cases "fst (pQuery P q args w)") (auto split: prod.splits)

lemma pool_answer:
  assumes "poolOk std cmp D P s db w" "isProbe q" "tableAfter ''from'' q = Some (Some s, t)" "sqlWhere q = Some e"
    and "existsTenant P s q args w = (Inr b, w')"
  shows "poolOk std cmp D P s db w' \<and> b = list_ex (\<lambda>x. sqlTrue std cmp args x e) (db t)"
  using existsTenant_Inr [OF assms(5)] readTenant_probe [OF _ assms(2-4)] assms(1) by (fastforce simp: poolOk_def)

lemma tx_answer:
  assumes "txOk std cmp D P s db w" "isProbe q" "tableAfter ''from'' q = Some (None, t)" "sqlWhere q = Some e"
    and "existsTx P q args w = (Inr b, w')"
  shows "txOk std cmp D P s db w' \<and> b = list_ex (\<lambda>x. sqlTrue std cmp args x e) (db t)"
proof -
  obtain rows where r: "pQuery P q args w = (Inr rows, w')" "b = (rows \<noteq> [])" using existsTx_Inr [OF assms(5)] by blast
  have "isPostgres std cmp D P" using assms(1) by (simp add: txOk_def)
  note postgres_probe [OF this assms(2) r(1) assms(3,4)]
  then show ?thesis using assms(1) r(2) by (auto simp: txOk_def keeps_def tableRows_def)
qed

interpretation pool_query: existence_query std P D db "\<lambda>t. pIdent P s @ ''.'' @ pIdent P t" "existsTenant P s" "poolOk std cmp D P s db"
  for std cmp P D s db
proof (unfold_locales, goal_cases)
  case (1 w t c f b w')
  then have "quotesNames P" "bareIdent s" by (simp_all add: poolOk_def)
  note reads = any_reads [OF this(1) 1(3) pool_table [OF this 1(2)]]
  show ?case using pool_answer [OF 1(1) _ _ _ 1(4)] reads by (simp add: argAt_def)
next
  case (2 w t c cond f q args b w')
  then have "quotesNames P" "bareIdent s" by (simp_all add: poolOk_def)
  from mine_reads [OF this(1) 2(3) pool_table [OF this 2(2)] 2(5,4)] obtain e where
    "isProbe (q @ '' LIMIT 1'')" "tableAfter ''from'' (q @ '' LIMIT 1'') = Some (Some s, t)" "sqlWhere (q @ '' LIMIT 1'') = Some e"
    "\<forall>r. sqlTrue std cmp args r e \<longleftrightarrow> sqlEq std (gm_get r c) (GStr f) \<and> inScope std cond r" by blast
  with pool_answer [OF 2(1) _ _ _ 2(6)] show ?case by simp
next
  case (3 w w')
  then show ?case by (simp add: poolOk_def keeps_def)
qed

interpretation tx_query: existence_query std P D db "pIdent P" "existsTx P" "txOk std cmp D P s db"
  for std cmp P D s db
proof (unfold_locales, goal_cases)
  case (1 w t c f b w')
  then have q: "quotesNames P" by (simp add: txOk_def)
  have "lexFrom Between (pIdent P t @ rest) = tableLex (None, t) @ lexFrom Between rest" if "apart rest" for rest
    using q 1(2) that by (simp add: quotesNames_def lex_pgIdent tableLex_def)
  note reads = any_reads [OF q 1(3) this]
  show ?case using tx_answer [OF 1(1) _ _ _ 1(4)] reads by (simp add: argAt_def)
next
  case (2 w t c cond f q args b w')
  then have n: "quotesNames P" by (simp add: txOk_def)
  have "lexFrom Between (pIdent P t @ rest) = tableLex (None, t) @ lexFrom Between rest" if "apart rest" for rest
    using n 2(2) that by (simp add: quotesNames_def lex_pgIdent tableLex_def)
  from mine_reads [OF n 2(3) this 2(5,4)] obtain e where
    "isProbe (q @ '' LIMIT 1'')" "tableAfter ''from'' (q @ '' LIMIT 1'') = Some (None, t)" "sqlWhere (q @ '' LIMIT 1'') = Some e"
    "\<forall>r. sqlTrue std cmp args r e \<longleftrightarrow> sqlEq std (gm_get r c) (GStr f) \<and> inScope std cond r" by blast
  with tx_answer [OF 2(1) _ _ _ 2(6)] show ?case by simp
next
  case (3 w w')
  then show ?case by (simp add: txOk_def keeps_def)
qed

section \<open>Attaching a file\<close>


text \<open>Two users, one document of the first with a photo: the second may not attach it, the first may.\<close>

definition exDocs :: ResourceSchema where
  "exDocs = zeroResource [(''photo'', zeroField ''file''), (''owner'', zeroField ''string'')]"

definition exShelf :: tenantRows where
  "exShelf t = (if t = ''docs'' then [[(''photo'', GStr ''f1''), (''owner'', GStr ''u1'')]] else [])"

definition exOwners :: Policy where
  "exOwners = UnmarshalPolicy \<lparr>plainRoles = [(''user'', emptyRolePolicy\<lparr>Permissions :=
     [(''docs'', \<lparr>permActions = [''*''], permConditions = Some \<lparr>Field = ''owner'', Op = ''eq'', Val = ''$user_id''\<rparr>,
       ConditionActions = [], permFields = []\<rparr>)]\<rparr>)], plainPublic = []\<rparr>"

definition exPhoto :: "FileRefColumn list" where
  "exPhoto = [\<lparr>frResource = ''docs'', frColumn = ''photo''\<rparr>]"

definition exUser :: "string \<Rightarrow> EvalContext" where
  "exUser u = \<lparr>Role = ''user'', UserID = u, ExternalClientID = []\<rparr>"

text \<open>A database that reads the text of its queries.\<close>

definition exFiles :: "unit Database" where
  "exFiles = \<lparr>dbRows = (\<lambda>_ s t. if s = ''tenant_a'' then exShelf t else []), dbSaved = (\<lambda>_ s t. if s = ''tenant_a'' then exShelf t else []),
     dbPath = (\<lambda>_. ''tenant_a'')\<rparr>"

definition exFileDB :: "unit TenantPool" where
  "exFileDB = exTenantPool\<lparr>
     pQuery := \<lambda>q args w.
       (Inr (case (tableAfter ''from'' q, sqlWhere q) of
               (Some t, Some e) \<Rightarrow> filter (\<lambda>r. sqlTrue exStd (\<lambda>_ _ _. False) args r e) (tableRows exFiles w t)
             | _ \<Rightarrow> []), w)\<rparr>"

lemma exFileDB_postgres: "isPostgres exStd (\<lambda>_ _ _. False) exFiles exFileDB" "quotesNames exFileDB"
proof -
  have keep: "keeps exFiles w w'" for w w' by (simp add: keeps_def)
  show "isPostgres exStd (\<lambda>_ _ _. False) exFiles exFileDB"
    unfolding isPostgres_def
    by (simp add: keep exFileDB_def exTenantPool_def list_ex_iff filter_empty_conv) (simp add: exFiles_def)
  show "quotesNames exFileDB" by (simp add: quotesNames_def exFileDB_def exTenantPool_def)
qed

lemma exOwners_read:
  "Evaluate exOwners (exUser u) ''docs'' ''read'' =
     \<lparr>Allowed = True, AllowedFields = [], evCondition = Some \<lparr>wField = ''owner'', wOp = ''eq'', wValue = u, Identity = True\<rparr>\<rparr>"
  by (simp add: exOwners_def exUser_def Evaluate_def UnmarshalPolicy_def routeGrantFor_def emptyRolePolicy_def resolveCondition_def
      resolveVar_def IsIdentityVar_def conditionAppliesToAction_def)

lemma exPhoto_plain: "plainReach exOwners (exUser u) exPhoto"
proof -
  have "bareIdent ''docs''" "bareIdent ''photo''" "''owner'' \<notin> set sqlReserved" by code_simp+
  then show ?thesis by (simp add: plainReach_def exPhoto_def exOwners_read)
qed

abbreviation exMineSQL :: "string \<Rightarrow> string" where
  "exMineSQL tbl \<equiv> mineSQL tbl (pIdent exFileDB ''photo'') @ '' AND owner = $2''"

lemma exMine_appended:
  "AppendRowCondition (mineSQL tbl (pIdent exFileDB ''photo'')) [Arg (GStr ''f1'')]
     (Some \<lparr>wField = ''owner'', wOp = ''eq'', wValue = u, Identity = True\<rparr>) = Inr (exMineSQL tbl, [Arg (GStr ''f1''), Arg (GStr u)])"
proof -
  have "bareIdent ''owner''" "placeholder (Suc (Suc 0)) = ''$2''" by code_simp+
  then show ?thesis by (simp add: AppendRowCondition_def del: bareIdent.simps)
qed

lemma exReach_asked:
  "existsTenant exFileDB ''tenant_a'' (anySQL (pIdent exFileDB ''tenant_a'' @ ''.'' @ pIdent exFileDB ''docs'') (pIdent exFileDB ''photo'')) [Arg (GStr ''f1'')] () = (Inr True, ())"
  "existsTx exFileDB (anySQL (pIdent exFileDB ''docs'') (pIdent exFileDB ''photo'')) [Arg (GStr ''f1'')] () = (Inr True, ())"
  "existsTenant exFileDB ''tenant_a'' (exMineSQL (pIdent exFileDB ''tenant_a'' @ ''.'' @ pIdent exFileDB ''docs'') @ '' LIMIT 1'')
     [Arg (GStr ''f1''), Arg (GStr ''u1'')] () = (Inr True, ())"
  "existsTx exFileDB (exMineSQL (pIdent exFileDB ''docs'') @ '' LIMIT 1'') [Arg (GStr ''f1''), Arg (GStr ''u2'')] () = (Inr False, ())"
  by code_simp+

lemma exReach_answers:
  "FileReachable exFileDB None ''tenant_a'' exPhoto exOwners (exUser ''u1'') ''f1'' () = (Inr True, ())"
  "FileReachableTx exFileDB None exPhoto exOwners (exUser ''u2'') ''f1'' () = (Inr False, ())"
  unfolding FileReachable_def FileReachableTx_def reachable_with_def exPhoto_def
  by (simp_all only: reachLoop.simps FileRefColumn.simps exReach_asked exOwners_read exMine_appended Let_def list.distinct if_False if_True
      prod.case sum.case EvalResult.simps option.case simp_thms)


end
