(* ===== verification/WriteAtomic.thy ===== *)
theory WriteAtomic
  imports WriteBatch
begin

text \<open>
  What a tenant transaction commits.  \<open>hist\<close> is the list of statements the database has committed, \<open>pend\<close> those
  of the open transaction; \<open>txLaws\<close> is what PostgreSQL promises of them, with the outcome of a failed commit left
  open.  A batch then commits every operation with its event or none, and a single write commits with its event.
\<close>

section \<open>The laws of transactions\<close>

type_synonym stmt = "string \<times> sqlArg list"

definition txLaws :: "'w TenantPool \<Rightarrow> ('w \<Rightarrow> stmt list) \<Rightarrow> ('w \<Rightarrow> stmt list) \<Rightarrow> bool" where
  "txLaws P hist pend \<longleftrightarrow>
     (\<forall>w r w1. pBegin P w = (r, w1) \<longrightarrow> hist w1 = hist w \<and> (r = None \<longrightarrow> pend w1 = [])) \<and>
     (\<forall>q a w r w1. pExec P q a w = (r, w1) \<longrightarrow> hist w1 = hist w \<and> (\<forall>n. r = Inr n \<longrightarrow> pend w1 = pend w @ [(q, a)])) \<and>
     (\<forall>q a w r w1. pQuery P q a w = (r, w1) \<longrightarrow> hist w1 = hist w \<and> (\<forall>rows. r = Inr rows \<longrightarrow> pend w1 = pend w @ [(q, a)])) \<and>
     (\<forall>w r w1. pCommit P w = (r, w1) \<longrightarrow> hist w1 = hist w @ pend w \<or> r \<noteq> None \<and> hist w1 = hist w) \<and>
     (\<forall>w. hist (pRollback P w) = hist w) \<and>
     (\<forall>w r w1. brAllow P w = (r, w1) \<longrightarrow> hist w1 = hist w) \<and>
     (\<forall>e w. hist (brDone P e w) = hist w)"

lemma txLaws_D:
  assumes "txLaws P hist pend"
  shows "pBegin P w = (r, w1) \<Longrightarrow> hist w1 = hist w" "pBegin P w = (r, w1) \<Longrightarrow> r = None \<Longrightarrow> pend w1 = []"
    "pExec P q a w = (re, w1) \<Longrightarrow> hist w1 = hist w" "pQuery P q a w = (rq, w1) \<Longrightarrow> hist w1 = hist w"
    "hist (pRollback P w) = hist w" "brAllow P w = (r, w1) \<Longrightarrow> hist w1 = hist w" "hist (brDone P e w) = hist w"
    "pExec P q a w = (Inr n, w1) \<Longrightarrow> pend w1 = pend w @ [(q, a)]" "pQuery P q a w = (Inr rows, w1) \<Longrightarrow> pend w1 = pend w @ [(q, a)]"
    "pCommit P w = (r, w1) \<Longrightarrow> hist w1 = hist w @ pend w \<or> r \<noteq> None \<and> hist w1 = hist w"
proof -
  note begin' = assms [unfolded txLaws_def, THEN conjunct1]
  note rest2 = assms [unfolded txLaws_def, THEN conjunct2]
  note exec = rest2 [THEN conjunct1] and query = rest2 [THEN conjunct2, THEN conjunct1]
  note rest4 = rest2 [THEN conjunct2, THEN conjunct2]
  note commit = rest4 [THEN conjunct1] and ends = rest4 [THEN conjunct2]
  show "pBegin P w = (r, w1) \<Longrightarrow> hist w1 = hist w" "pBegin P w = (r, w1) \<Longrightarrow> r = None \<Longrightarrow> pend w1 = []" using begin' by blast+
  show "pExec P q a w = (re, w1) \<Longrightarrow> hist w1 = hist w" "pExec P q a w = (Inr n, w1) \<Longrightarrow> pend w1 = pend w @ [(q, a)]" using exec by blast+
  show "pQuery P q a w = (rq, w1) \<Longrightarrow> hist w1 = hist w" "pQuery P q a w = (Inr rows, w1) \<Longrightarrow> pend w1 = pend w @ [(q, a)]" using query by blast+
  show "pCommit P w = (r, w1) \<Longrightarrow> hist w1 = hist w @ pend w \<or> r \<noteq> None \<and> hist w1 = hist w" using commit by blast
  show "hist (pRollback P w) = hist w" "brAllow P w = (r, w1) \<Longrightarrow> hist w1 = hist w" "hist (brDone P e w) = hist w" using ends by blast+
qed

text \<open>Outside the transaction nothing is committed; the store that knows uploaders has its own connection.\<close>

definition envLaws :: "'w WriteEnv \<Rightarrow> ('w \<Rightarrow> stmt list) \<Rightarrow> ('w \<Rightarrow> stmt list) \<Rightarrow> bool" where
  "envLaws E hist pend \<longleftrightarrow>
     txLaws (wePool E) hist pend \<and>
     (\<forall>hc d w r w1. BeforeHook E hc d w = (r, w1) \<longrightarrow> hist w1 = hist w) \<and>
     (\<forall>up f w r w1. Uploader E = Some up \<longrightarrow> up f w = (r, w1) \<longrightarrow> hist w1 = hist w \<and> pend w1 = pend w) \<and>
     (\<forall>w. hist (Invalidate E w) = hist w)"

text \<open>A step inside a transaction: it commits nothing, and when it succeeds it has added statements as \<open>Spec\<close> says.\<close>

definition inTx :: "('w \<Rightarrow> stmt list) \<Rightarrow> ('w \<Rightarrow> stmt list) \<Rightarrow> ('w \<Rightarrow> ('e + 'a) \<times> 'w) \<Rightarrow> ('a \<Rightarrow> stmt list \<Rightarrow> bool) \<Rightarrow> bool" where
  "inTx hist pend fn Spec \<longleftrightarrow>
     (\<forall>w r w1. fn w = (r, w1) \<longrightarrow> hist w1 = hist w \<and> (\<forall>x. r = Inr x \<longrightarrow> (\<exists>ls. pend w1 = pend w @ ls \<and> Spec x ls)))"

lemma inTx_D:
  assumes "inTx hist pend fn Spec" "fn w = (r, w1)"
  shows "hist w1 = hist w" "r = Inr x \<Longrightarrow> \<exists>ls. pend w1 = pend w @ ls \<and> Spec x ls"
  using assms by (auto simp: inTx_def)

section \<open>One tenant transaction\<close>

definition committed :: "('w \<Rightarrow> stmt list) \<Rightarrow> 'w TenantPool \<Rightarrow> string \<Rightarrow> 'w \<Rightarrow> 'w \<Rightarrow> stmt list \<Rightarrow> bool" where
  "committed hist P schemaName w w' ls \<longleftrightarrow> hist w' = hist w @ (setPathSQL P schemaName, []) # ls"

lemma txScope_commits:
  assumes laws: "txLaws P hist pend" and fn: "inTx hist pend fn Spec" and w: "pend w = []"
    and run: "txScope J P s fn w = (r, w')"
  shows "(\<exists>x ls. Spec x ls \<and> committed hist P s w w' ls \<and> (r = Inr x \<or> (\<exists>e. r = Inl (ofGo J (WrapError ''commit: '' e))))) \<or>
         hist w' = hist w \<and> isl r"
proof -
  obtain r1 w1 where 1: "pExec P (setPathSQL P s) [] w = (r1, w1)" by (cases "pExec P (setPathSQL P s) [] w")
  have h1: "hist w1 = hist w" and p1: "\<And>u. r1 = Inr u \<Longrightarrow> pend w1 = [(setPathSQL P s, [])]"
    using txLaws_D(3) [OF laws 1] txLaws_D(8) [OF laws, of "setPathSQL P s" "[]" w _ w1] 1 w by auto
  obtain r2 w2 where 2: "fn w1 = (r2, w2)" by (cases "fn w1")
  note h2 = inTx_D [OF fn 2]
  obtain r3 w3 where 3: "pCommit P w2 = (r3, w3)" by (cases "pCommit P w2")
  note h3 = txLaws_D(10) [OF laws 3]
  show ?thesis
  proof (cases r1)
    case (Inl e)
    then show ?thesis using run h1 by (auto simp: txScope_def 1)
  next
    case (Inr u)
    note r1 = this
    show ?thesis
    proof (cases r2)
      case (Inl e)
      then show ?thesis using run r1 h1 h2(1) by (auto simp: txScope_def 1 2)
    next
      case (Inr x)
      obtain ls where ls: "pend w2 = [(setPathSQL P s, [])] @ ls" "Spec x ls" using h2(2) [OF Inr] p1 r1 by auto
      have w': "w' = w3" and r: "r = (case r3 of None \<Rightarrow> Inr x | Some e \<Rightarrow> Inl (ofGo J (WrapError ''commit: '' e)))"
        using run r1 Inr by (auto simp: txScope_def 1 2 3 split: option.splits)
      show ?thesis
      proof (cases "hist w3 = hist w2 @ pend w2")
        case True
        then have "committed hist P s w w' ls" using ls h1 h2(1) w' by (simp add: committed_def)
        then show ?thesis using r ls(2) by (cases r3) auto
      next
        case False
        then show ?thesis using r h3 h1 h2(1) w' by (cases r3) auto
      qed
    qed
  qed
qed

lemma WithTenantTx_commits:
  assumes laws: "txLaws P hist pend" and fn: "inTx hist pend fn Spec" and run: "WithTenantTx J P s fn w = (r, w')"
  shows "(\<exists>x ls. Spec x ls \<and> committed hist P s w w' ls \<and> (r = Inr x \<or> (\<exists>e. r = Inl (classifyAs J P (ofGo J (WrapError ''commit: '' e)))))) \<or>
         hist w' = hist w \<and> isl r"
proof (cases "validateSchemaName s")
  case (Some e)
  then show ?thesis using run by (auto simp: WithTenantTx_def)
next
  case None
  obtain ra wa where a: "brAllow P w = (ra, wa)" by (cases "brAllow P w")
  obtain rb wb where b: "pBegin P wa = (rb, wb)" by (cases "pBegin P wa")
  obtain rc wc where c: "txScope J P s fn wb = (rc, wc)" by (cases "txScope J P s fn wb")
  have ha: "hist wa = hist w" "hist wb = hist wa" "rb = None \<Longrightarrow> pend wb = []" and
    hist_end: "\<And>e u. hist (brDone P e u) = hist u" "\<And>u. hist (pRollback P u) = hist u"
    using txLaws_D(6) [OF laws a] txLaws_D(1,2) [OF laws b] txLaws_D(5,7) [OF laws] by simp_all
  show ?thesis
  proof (cases "ra = None \<and> rb = None")
    case True
    then have r: "r = (case rc of Inl e \<Rightarrow> Inl (classifyAs J P e) | Inr x \<Rightarrow> Inr x)" and w': "hist w' = hist wc"
      using run None
      by (auto simp: WithTenantTx_def breakerExec_def runTx_def a b c hist_end split: sum.splits)
    have "pend wb = []" using ha(3) True by simp
    from txScope_commits [OF laws fn this c] show ?thesis
      using r w' ha unfolding committed_def by (auto split: sum.splits)
  next
    case False
    then show ?thesis
      using run None ha by (auto simp: WithTenantTx_def breakerExec_def runTx_def a b hist_end split: option.splits sum.splits)
  qed
qed

lemma WithTenantTx_outcome:
  assumes "txLaws P hist pend" "inTx hist pend fn Spec" "WithTenantTx J P s fn w = (r, w')"
  shows "(\<exists>x ls. Spec x ls \<and> committed hist P s w w' ls \<and> (r = Inr x \<or> isl r)) \<or> hist w' = hist w \<and> isl r"
proof -
  have "isl r" if "r = Inl e" for e using that by simp
  then show ?thesis using WithTenantTx_commits [OF assms] by blast
qed

section \<open>Steps inside the transaction\<close>

lemma inTx_mapOps:
  assumes "\<And>x. x \<in> set xs \<Longrightarrow> inTx hist pend (step x) (\<lambda>_. Spec x)"
  shows "inTx hist pend (mapOps step i xs) (\<lambda>ys ls. \<exists>lss. list_all2 Spec xs lss \<and> length ys = length xs \<and> ls = concat lss)"
  using assms
proof (induction xs arbitrary: i)
  case Nil
  then show ?case by (auto simp: inTx_def)
next
  case (Cons x xs)
  show ?case
    unfolding inTx_def
  proof (intro allI impI)
    fix w r w1
    assume run: "mapOps step i (x # xs) w = (r, w1)"
    obtain r2 w2 where 2: "step x w = (r2, w2)" by (cases "step x w")
    obtain r3 w3 where 3: "mapOps step (Suc i) xs w2 = (r3, w3)" by (cases "mapOps step (Suc i) xs w2")
    have first: "inTx hist pend (step x) (\<lambda>_. Spec x)" using Cons.prems by simp
    note s2 = inTx_D [OF first 2]
    have rest: "inTx hist pend (mapOps step (Suc i) xs) (\<lambda>ys ls. \<exists>lss. list_all2 Spec xs lss \<and> length ys = length xs \<and> ls = concat lss)"
      using Cons.prems by (intro Cons.IH) simp
    note s3 = inTx_D [OF rest 3]
    show "hist w1 = hist w \<and> (\<forall>ys. r = Inr ys \<longrightarrow> (\<exists>ls. pend w1 = pend w @ ls \<and>
            (\<exists>lss. list_all2 Spec (x # xs) lss \<and> length ys = length (x # xs) \<and> ls = concat lss)))"
    proof (cases r2)
      case (Inl e)
      then show ?thesis using run s2(1) by (auto simp: 2)
    next
      case (Inr y)
      obtain l where l: "pend w2 = pend w @ l" "Spec x l" using s2(2) [OF Inr] by blast
      show ?thesis
      proof (cases r3)
        case (Inl e)
        then show ?thesis using run s2(1) s3(1) Inr by (auto simp: 2 3)
      next
        case ys: (Inr ys)
        obtain lss where lss: "list_all2 Spec xs lss" "length ys = length xs" "pend w3 = pend w2 @ concat lss"
          using s3(2) [OF ys] by blast
        have "r = Inr (y # ys)" "w1 = w3" using run Inr ys by (auto simp: 2 3)
        then show ?thesis using s2(1) s3(1) l lss by (intro conjI allI impI exI [of _ "l @ concat lss"] exI [of _ "l # lss"]) auto
      qed
    qed
  qed
qed

section \<open>Events\<close>

text \<open>The two statements of an event: its row in the outbox and the notification.\<close>

definition eventOf :: "Std \<Rightarrow> string \<Rightarrow> string \<Rightarrow> string \<Rightarrow> stmt list \<Rightarrow> bool" where
  "eventOf std tenantID resource action ls \<longleftrightarrow>
     (\<exists>v b i. jsonMarshal std (eventPayload tenantID resource (EmitTopic resource action) v) = Some b \<and>
        ls = [(outboxSQL, [Arg (GStr tenantID), Arg (GStr (EmitTopic resource action)), Arg (GStr b)]),
              (''SELECT pg_notify($1, $2)'', [Arg (GStr NotifyChannel), Arg (GStr (Itoa i))])])"

lemma enqueueCRUDEvent_adds:
  assumes laws: "txLaws P hist pend" and run: "enqueueCRUDEvent std P tenantID resource action v w = (r, w1)"
  shows "hist w1 = hist w \<and> (r = None \<longrightarrow> (\<exists>ls. pend w1 = pend w @ ls \<and> eventOf std tenantID resource action ls))"
proof -
  let ?topic = "EmitTopic resource action"
  let ?a = "\<lambda>b. [Arg (GStr tenantID), Arg (GStr ?topic), Arg (GStr b)]"
  show ?thesis
  proof (cases "jsonMarshal std (eventPayload tenantID resource ?topic v)")
    case None
    then show ?thesis using run by (auto simp: enqueueCRUDEvent_def Enqueue_def Let_def)
  next
    case (Some b)
    obtain r2 w2 where 2: "pQuery P outboxSQL (?a b) w = (r2, w2)" by (cases "pQuery P outboxSQL (?a b) w")
    note h2 = txLaws_D(4) [OF laws 2]
    show ?thesis
    proof (cases "\<exists>rows i. r2 = Inr rows \<and> scanId rows = Inr i")
      case False
      then show ?thesis using run h2 by (auto simp: enqueueCRUDEvent_def Enqueue_def Some 2 Let_def split: sum.splits)
    next
      case True
      then obtain rows i where i: "r2 = Inr rows" "scanId rows = Inr i" by blast
      let ?n = "[Arg (GStr NotifyChannel), Arg (GStr (Itoa i))]"
      obtain r3 w3 where 3: "pExec P ''SELECT pg_notify($1, $2)'' ?n w2 = (r3, w3)" by (cases "pExec P ''SELECT pg_notify($1, $2)'' ?n w2")
      note h3 = txLaws_D(3) [OF laws 3]
      have out: "w1 = w3" "r = None \<longleftrightarrow> (\<exists>k. r3 = Inr k)"
        using run by (auto simp: enqueueCRUDEvent_def Enqueue_def Some 2 3 i Let_def split: sum.splits)
      have "pend w1 = pend w @ [(outboxSQL, ?a b), (''SELECT pg_notify($1, $2)'', ?n)]" if "r = None"
        using out that txLaws_D(9) [OF laws 2 [unfolded i(1)]] txLaws_D(8) [OF laws, of "''SELECT pg_notify($1, $2)''" ?n w2 _ w3] 3
        by auto
      then show ?thesis using out h2 h3 Some unfolding eventOf_def by auto
    qed
  qed
qed

section \<open>The operations of a batch\<close>

definition eventIf :: "Std \<Rightarrow> string \<Rightarrow> preparedOp \<Rightarrow> stmt list \<Rightarrow> bool" where
  "eventIf std tenantID p ls \<longleftrightarrow> (if poEmit p then eventOf std tenantID (poResource p) (poKind p) ls else ls = [])"

text \<open>Statements that only read.\<close>

definition onlyReads :: "stmt list \<Rightarrow> bool" where
  "onlyReads ls = list_all (\<lambda>(q, _). HasPrefix q ''SELECT '') ls"

lemma onlyReads_simps [simp]: "onlyReads []" "onlyReads ((q, a) # ls) \<longleftrightarrow> HasPrefix q ''SELECT '' \<and> onlyReads ls"
  "onlyReads (xs @ ys) \<longleftrightarrow> onlyReads xs \<and> onlyReads ys"
  by (simp_all add: onlyReads_def)

text \<open>What one operation adds: the reads of its file checks, its statement, and its event when the resource
  declares one.\<close>

definition opTrace :: "Std \<Rightarrow> string \<Rightarrow> preparedOp \<Rightarrow> stmt list \<Rightarrow> bool" where
  "opTrace std tenantID p ls \<longleftrightarrow>
     (\<exists>checks evs. ls = checks @ (poSql p, poArgs p) # evs \<and> eventIf std tenantID p evs \<and> onlyReads checks \<and>
        (poFileCols p = [] \<and> \<not> poPolicy p \<longrightarrow> checks = []))"

lemma opTraceI:
  assumes "onlyReads pre" "onlyReads pre'" "eventIf std tenantID p evs" "poFileCols p = [] \<Longrightarrow> pre = []" "\<not> poPolicy p \<Longrightarrow> pre' = []"
  shows "opTrace std tenantID p (pre @ pre' @ (poSql p, poArgs p) # evs)"
  unfolding opTrace_def by (rule exI [of _ "pre @ pre'"]) (use assms in auto)

lemma inTx_emitEvent:
  assumes "txLaws P hist pend"
  shows "inTx hist pend (emitEvent std P tenantID p v out) (\<lambda>_. eventIf std tenantID p)"
  using enqueueCRUDEvent_adds [OF assms, of std tenantID "poResource p" "poKind p" v]
  by (fastforce simp: inTx_def emitEvent_def eventIf_def split: prod.splits option.splits if_splits)

lemma inTx_execRows:
  assumes laws: "txLaws P hist pend"
  shows "inTx hist pend (execRows std P tenantID p) (\<lambda>_ ls. \<exists>evs. ls = (poSql p, poArgs p) # evs \<and> eventIf std tenantID p evs)"
  unfolding inTx_def
proof (intro allI impI)
  fix w r w1
  assume run: "execRows std P tenantID p w = (r, w1)"
  obtain r2 w2 where 2: "pQuery P (poSql p) (poArgs p) w = (r2, w2)" by (cases "pQuery P (poSql p) (poArgs p) w")
  note h2 = txLaws_D(4) [OF laws 2]
  show "hist w1 = hist w \<and> (\<forall>x. r = Inr x \<longrightarrow> (\<exists>ls. pend w1 = pend w @ ls \<and> (\<exists>evs. ls = (poSql p, poArgs p) # evs \<and> eventIf std tenantID p evs)))"
  proof (cases "\<exists>rows x xs. r2 = Inr rows \<and> PromoteJSONTextRows std (poJson p) rows = x # xs")
    case False
    then show ?thesis using run h2 by (auto simp: execRows_def 2 split: sum.splits list.splits)
  next
    case True
    then obtain rows x xs where x: "r2 = Inr rows" "PromoteJSONTextRows std (poJson p) rows = x # xs" by blast
    then have e: "emitEvent std P tenantID p (idOf x) (FilterFields x (poAllowed p)) w2 = (r, w1)" using run by (simp add: execRows_def 2)
    from inTx_D [OF inTx_emitEvent [OF laws] e] show ?thesis
      using h2 txLaws_D(9) [OF laws 2 [unfolded x(1)]] by fastforce
  qed
qed

lemma inTx_execDelete:
  assumes laws: "txLaws P hist pend"
  shows "inTx hist pend (execDelete std P tenantID p) (\<lambda>_ ls. \<exists>evs. ls = (poSql p, poArgs p) # evs \<and> eventIf std tenantID p evs)"
  unfolding inTx_def
proof (intro allI impI)
  fix w r w1
  assume run: "execDelete std P tenantID p w = (r, w1)"
  obtain r2 w2 where 2: "pExec P (poSql p) (poArgs p) w = (r2, w2)" by (cases "pExec P (poSql p) (poArgs p) w")
  note h2 = txLaws_D(3) [OF laws 2]
  show "hist w1 = hist w \<and> (\<forall>x. r = Inr x \<longrightarrow> (\<exists>ls. pend w1 = pend w @ ls \<and> (\<exists>evs. ls = (poSql p, poArgs p) # evs \<and> eventIf std tenantID p evs)))"
  proof (cases "\<exists>n. r2 = Inr n \<and> n \<noteq> 0")
    case False
    then show ?thesis using run h2 by (auto simp: execDelete_def 2 split: sum.splits if_splits)
  next
    case True
    then obtain n where n: "r2 = Inr n" "n \<noteq> 0" by blast
    then have e: "emitEvent std P tenantID p (GStr (poId p)) [(''deleted'', GBool True), (''id'', GStr (poId p))] w2 = (r, w1)"
      using run by (simp add: execDelete_def 2)
    from inTx_D [OF inTx_emitEvent [OF laws] e] show ?thesis
      using h2 txLaws_D(8) [OF laws 2 [unfolded n(1)]] by fastforce
  qed
qed

lemma inTx_fileCheck:
  assumes "inTx hist pend next Spec"
    and "inTx hist pend check (\<lambda>_. onlyReads)"
  shows "inTx hist pend (fileCheck P p needed check next) (\<lambda>x ls. \<exists>pre rest. ls = pre @ rest \<and> Spec x rest \<and> onlyReads pre \<and> (\<not> needed \<longrightarrow> pre = []))"
  unfolding inTx_def
proof (intro allI impI)
  fix w r w1
  assume run: "fileCheck P p needed check next w = (r, w1)"
  obtain r2 w2 where 2: "check w = (r2, w2)" by (cases "check w")
  note c2 = inTx_D [OF assms(2) 2]
  show "hist w1 = hist w \<and> (\<forall>x. r = Inr x \<longrightarrow> (\<exists>ls. pend w1 = pend w @ ls \<and> (\<exists>pre rest. ls = pre @ rest \<and> Spec x rest \<and> onlyReads pre \<and> (\<not> needed \<longrightarrow> pre = []))))"
  proof (cases "needed \<and> r2 \<noteq> Inr []")
    case True
    then show ?thesis using run c2 by (auto simp: fileCheck_def 2 split: sum.splits if_splits)
  next
    case False
    then have n: "next (if needed then w2 else w) = (r, w1)" using run by (auto simp: fileCheck_def 2)
    note d = inTx_D [OF assms(1) n]
    show ?thesis
    proof (cases needed)
      case False
      then show ?thesis using d by fastforce
    next
      case True
      with \<open>\<not> (needed \<and> r2 \<noteq> Inr [])\<close> c2(2) obtain pre where "pend w2 = pend w @ pre" "onlyReads pre" by blast
      with True d c2(1) show ?thesis by fastforce
    qed
  qed
qed

text \<open>The file checks of a batch run on its transaction and only read.\<close>

lemma HasPrefix_SELECT: "HasPrefix (anySQL t c) ''SELECT ''" "HasPrefix (mineSQL t c @ s) ''SELECT ''" "HasPrefix fileMetaQuery ''SELECT ''"
  by (simp_all add: HasPrefix_def anySQL_def mineSQL_def fileMetaQuery_def)

lemma AppendRowCondition_SELECT: "AppendRowCondition q a cond = Inr (q', a') \<Longrightarrow> \<exists>s. q' = q @ s"
  by (auto simp: AppendRowCondition_def split: option.splits if_splits)

lemma inTx_existsTx:
  assumes "txLaws P hist pend" "HasPrefix q ''SELECT ''"
  shows "inTx hist pend (existsTx P q a) (\<lambda>_. onlyReads)"
  unfolding inTx_def
proof (intro allI impI)
  fix w r w1
  assume "existsTx P q a w = (r, w1)"
  then obtain r2 where "pQuery P q a w = (r2, w1)" "r = map_sum id (\<lambda>rows. rows \<noteq> []) r2" by (auto simp: existsTx_def split: prod.splits)
  then show "hist w1 = hist w \<and> (\<forall>x. r = Inr x \<longrightarrow> (\<exists>ls. pend w1 = pend w @ ls \<and> onlyReads ls))"
    using assms txLaws_D(4,9) [OF assms(1)] by (cases r2) fastforce+
qed

lemma inTx_reachLoop:
  assumes ask: "\<And>q a. HasPrefix q ''SELECT '' \<Longrightarrow> inTx hist pend (ask q a) (\<lambda>_. onlyReads)"
  shows "inTx hist pend (reachLoop ident tbl ask pol ev f cols b) (\<lambda>_. onlyReads)"
proof (induction cols arbitrary: b)
  case Nil
  show ?case by (simp add: inTx_def)
next
  case (Cons c cs)
  let ?t = "tbl (frResource c)" and ?c = "ident (frColumn c)"
  show ?case
    unfolding inTx_def
  proof (intro allI impI)
    fix w r w1
    assume run: "reachLoop ident tbl ask pol ev f (c # cs) b w = (r, w1)"
    obtain r2 w2 where 2: "ask (anySQL ?t ?c) [Arg (GStr f)] w = (r2, w2)" by fastforce
    note d2 = inTx_D [OF ask [OF HasPrefix_SELECT(1)] 2]
    have rest: "hist w1 = hist w \<and> (\<forall>x. r = Inr x \<longrightarrow> (\<exists>ls. pend w1 = pend w @ ls \<and> onlyReads ls))"
      if "r2 = Inr h" "reachLoop ident tbl ask pol ev f cs b' w2 = (r, w1)" for h b'
      using inTx_D [OF Cons.IH that(2)] d2(1) d2(2) [OF that(1)] by fastforce
    show "hist w1 = hist w \<and> (\<forall>x. r = Inr x \<longrightarrow> (\<exists>ls. pend w1 = pend w @ ls \<and> onlyReads ls))"
    proof (cases "\<exists>q a. r2 = Inr True \<and> Allowed (Evaluate pol ev (frResource c) ''read'') \<and>
        AppendRowCondition (mineSQL ?t ?c) [Arg (GStr f)] (evCondition (Evaluate pol ev (frResource c) ''read'')) = Inr (q, a)")
      case False
      then show ?thesis using run d2(1) rest by (auto simp: 2 Let_def split: sum.splits if_splits)
    next
      case True
      then obtain q a where T: "r2 = Inr True" "Allowed (Evaluate pol ev (frResource c) ''read'')"
        "AppendRowCondition (mineSQL ?t ?c) [Arg (GStr f)] (evCondition (Evaluate pol ev (frResource c) ''read'')) = Inr (q, a)" by blast
      obtain r3 w3 where 3: "ask (q @ '' LIMIT 1'') a w2 = (r3, w3)" by fastforce
      have "HasPrefix (q @ '' LIMIT 1'') ''SELECT ''" using AppendRowCondition_SELECT [OF T(3)] HasPrefix_SELECT(2) by fastforce
      note d3 = inTx_D [OF ask [OF this] 3]
      show ?thesis
      proof (cases "r3 = Inr False")
        case True
        then have "reachLoop ident tbl ask pol ev f cs True w3 = (r, w1)" using run T by (simp add: 2 3 Let_def)
        from inTx_D [OF Cons.IH this] show ?thesis using d2(1) d2(2) [OF T(1)] d3(1) d3(2) [OF True] by fastforce
      next
        case False
        then show ?thesis using run T d2(1) d2(2) [OF T(1)] d3 by (fastforce simp: 2 3 Let_def split: sum.splits if_splits)
      qed
    qed
  qed
qed

lemma inTx_attachLoop:
  assumes "\<And>f. inTx hist pend (reach f) (\<lambda>_. onlyReads)"
  shows "inTx hist pend (attachLoop reach vals fs) (\<lambda>_. onlyReads)"
proof (induction fs)
  case Nil
  show ?case by (simp add: inTx_def)
next
  case (Cons nf fs)
  obtain name fd where nf: "nf = (name, fd)" by fastforce
  show ?case
    unfolding inTx_def
  proof (intro allI impI)
    fix w r w1
    assume run: "attachLoop reach vals (nf # fs) w = (r, w1)"
    show "hist w1 = hist w \<and> (\<forall>x. r = Inr x \<longrightarrow> (\<exists>ls. pend w1 = pend w @ ls \<and> onlyReads ls))"
    proof (cases "\<exists>c cs. (if fType fd = ''file'' then gm_get vals name else None) = Some (GStr (c # cs))")
      case False
      then have "attachLoop reach vals fs w = (r, w1)" using run by (auto simp: nf split: option.splits goany.splits list.splits)
      from inTx_D [OF Cons.IH this] show ?thesis by simp
    next
      case True
      then obtain c cs where C: "(if fType fd = ''file'' then gm_get vals name else None) = Some (GStr (c # cs))" by blast
      obtain r2 w2 where 2: "reach (c # cs) w = (r2, w2)" by fastforce
      obtain r3 w3 where 3: "attachLoop reach vals fs w2 = (r3, w3)" by fastforce
      note d2 = inTx_D [OF assms 2] and d3 = inTx_D [OF Cons.IH 3]
      show ?thesis
      proof (cases r2)
        case (Inl e)
        then show ?thesis using run C d2(1) by (auto simp: nf 2)
      next
        case (Inr ok)
        from d2(2) [OF this] obtain l2 where "pend w2 = pend w @ l2" "onlyReads l2" by blast
        with run C Inr d2(1) d3 show ?thesis by (fastforce simp: nf 2 3 split: sum.splits)
      qed
    qed
  qed
qed

lemma inTx_attach:
  assumes "envLaws E hist pend"
  shows "inTx hist pend (CheckFileAttachReachTx (wePool E) (Uploader E) cols pol ev res vals) (\<lambda>_. onlyReads)"
proof -
  have laws: "txLaws (wePool E) hist pend" using assms by (simp add: envLaws_def)
  have up: "inTx hist pend (uploadedByCaller (Uploader E) ev f) (\<lambda>_ ls. ls = [])" for f
    using assms unfolding envLaws_def inTx_def uploadedByCaller_def by (force split: option.splits prod.splits)
  have "inTx hist pend (FileReachableTx (wePool E) (Uploader E) cols pol ev f) (\<lambda>_. onlyReads)" for f
    unfolding inTx_def
  proof (intro allI impI)
    fix w r w1
    assume run: "FileReachableTx (wePool E) (Uploader E) cols pol ev f w = (r, w1)"
    obtain r2 w2 where 2: "reachLoop (pIdent (wePool E)) (pIdent (wePool E)) (existsTx (wePool E)) pol ev f cols False w = (r2, w2)" by fastforce
    note d2 = inTx_D [OF inTx_reachLoop [OF inTx_existsTx [OF laws]] 2]
    show "hist w1 = hist w \<and> (\<forall>x. r = Inr x \<longrightarrow> (\<exists>ls. pend w1 = pend w @ ls \<and> onlyReads ls))"
    proof (cases "cols \<noteq> [] \<and> r2 = Inr None")
      case True
      then have "uploadedByCaller (Uploader E) ev f w2 = (r, w1)" using run by (simp add: FileReachableTx_def reachable_with_def 2)
      from inTx_D [OF up this] d2 True show ?thesis by fastforce
    next
      case False
      then show ?thesis using run d2 by (fastforce simp: FileReachableTx_def reachable_with_def 2 split: if_splits sum.splits option.splits)
    qed
  qed
  from inTx_attachLoop [OF this] show ?thesis
    by (auto simp: inTx_def CheckFileAttachReachTx_def)
qed

lemma inTx_policy:
  assumes "txLaws P hist pend"
  shows "inTx hist pend (CheckFilePoliciesTx std P res vals) (\<lambda>_. onlyReads)"
proof -
  let ?fetch = "\<lambda>i w1. fetched (pQuery P fileMetaQuery [Arg (GStr i)] w1)"
  have fetch: "inTx hist pend (?fetch i) (\<lambda>_. onlyReads)" for i
    unfolding inTx_def
  proof (intro allI impI)
    fix w r w1
    assume "?fetch i w = (r, w1)"
    then obtain r2 where "pQuery P fileMetaQuery [Arg (GStr i)] w = (r2, w1)" "\<forall>e. r2 = Inl e \<longrightarrow> r = Inl e" by (auto simp: fetched_def split: prod.splits sum.splits)
    then show "hist w1 = hist w \<and> (\<forall>x. r = Inr x \<longrightarrow> (\<exists>ls. pend w1 = pend w @ ls \<and> onlyReads ls))"
      using txLaws_D(4,9) [OF assms] HasPrefix_SELECT(3) by (cases r2) fastforce+
  qed
  have "inTx hist pend (policyLoop std ?fetch vals fs) (\<lambda>_. onlyReads)" for fs
  proof (induction fs)
    case Nil
    show ?case by (simp add: inTx_def)
  next
    case (Cons nf fs)
    obtain name fd where nf: "nf = (name, fd)" by fastforce
    show ?case
      unfolding inTx_def
    proof (intro allI impI)
      fix w r w1
      assume run: "policyLoop std ?fetch vals (nf # fs) w = (r, w1)"
      show "hist w1 = hist w \<and> (\<forall>x. r = Inr x \<longrightarrow> (\<exists>ls. pend w1 = pend w @ ls \<and> onlyReads ls))"
      proof (cases "\<exists>s. gm_get vals name = Some (GStr s) \<and> uuidOk std (TrimSpace s)")
        case False
        then have "policyLoop std ?fetch vals fs w = (r, w1)" using run by (auto simp: nf split: option.splits goany.splits if_splits)
        from inTx_D [OF Cons.IH this] show ?thesis by simp
      next
        case True
        then obtain s where S: "gm_get vals name = Some (GStr s)" "uuidOk std (TrimSpace s)" by blast
        obtain r2 w2 where 2: "?fetch (TrimSpace s) w = (r2, w2)" by fastforce
        obtain r3 w3 where 3: "policyLoop std ?fetch vals fs w2 = (r3, w3)" by fastforce
        note d2 = inTx_D [OF fetch 2] and d3 = inTx_D [OF Cons.IH 3]
        show ?thesis
        proof (cases r2)
          case (Inl e)
          then show ?thesis using run S d2(1) by (auto simp: nf 2)
        next
          case (Inr found)
          from d2(2) [OF this] obtain l2 where "pend w2 = pend w @ l2" "onlyReads l2" by blast
          with run S Inr d2(1) d3 show ?thesis by (fastforce simp: nf 2 3 split: sum.splits)
        qed
      qed
    qed
  qed
  then show ?thesis by (simp add: inTx_def CheckFilePoliciesTx_def checkFilePolicies_def)
qed

lemma inTx_weaken: "inTx hist pend fn Spec \<Longrightarrow> (\<And>x ls. Spec x ls \<Longrightarrow> Spec' x ls) \<Longrightarrow> inTx hist pend fn Spec'"
  unfolding inTx_def by blast

lemma inTx_execPreparedOp:
  assumes "envLaws E hist pend"
  shows "inTx hist pend (execPreparedOp std E tenantID p) (\<lambda>_. opTrace std tenantID p)"
proof -
  have laws: "txLaws (wePool E) hist pend" using assms by (simp add: envLaws_def)
  show ?thesis
  proof (cases "poKind p = ''delete''")
    case True
    have "inTx hist pend (execDelete std (wePool E) tenantID p) (\<lambda>_. opTrace std tenantID p)"
      by (rule inTx_weaken [OF inTx_execDelete [OF laws]]) (fastforce simp: opTrace_def)
    moreover have "execPreparedOp std E tenantID p = execDelete std (wePool E) tenantID p"
      using True by (simp add: fun_eq_iff execPreparedOp_def Let_def)
    ultimately show ?thesis by simp
  next
    case False
    then have eq: "execPreparedOp std E tenantID p =
        fileCheck (wePool E) p (poFileCols p \<noteq> []) (CheckFileAttachReachTx (wePool E) (Uploader E) (poFileCols p) (poFilePolicy p) (poFileEval p) (poRes p) (poVals p))
          (fileCheck (wePool E) p (poPolicy p) (CheckFilePoliciesTx std (wePool E) (poRes p) (poVals p)) (execRows std (wePool E) tenantID p))"
      by (simp add: fun_eq_iff execPreparedOp_def Let_def)
    show ?thesis
      unfolding eq
      by (rule inTx_weaken [OF inTx_fileCheck [OF inTx_fileCheck [OF inTx_execRows [OF laws] inTx_policy [OF laws]] inTx_attach [OF assms]]])
         (auto intro: opTraceI)
  qed
qed

section \<open>Preparing commits nothing\<close>

lemma hookEval_hist: "envLaws E hist pend \<Longrightarrow> hookEval E hc d w = (r, w1) \<Longrightarrow> hist w1 = hist w"
  unfolding hookEval_def RunBeforeHook_def envLaws_def by (auto split: prod.splits sum.splits if_splits)

lemma hooked_hist: "envLaws E hist pend \<Longrightarrow> hooked std E res pt body adopt vals w = (r, w1) \<Longrightarrow> hist w1 = hist w"
  unfolding hooked_def by (auto split: option.splits prod.splits sum.splits dest: hookEval_hist)

lemma prepareTxOp_hist:
  assumes "envLaws E hist pend" "prepareTxOp std E refs policy ctx op w = (r, w1)"
  shows "hist w1 = hist w"
proof -
  have c: "prepareCreateOp std E refs policy ctx op ref ev w = (x, w2) \<Longrightarrow> hist w2 = hist w" for ref ev x w2
    unfolding prepareCreateOp_def Let_def
    by (auto split: prod.splits sum.splits if_splits dest: hooked_hist [OF assms(1)])
  have u: "prepareUpdateOp std E refs policy ctx op ref ev w = (x, w2) \<Longrightarrow> hist w2 = hist w" for ref ev x w2
    unfolding prepareUpdateOp_def Let_def
    by (auto split: prod.splits sum.splits if_splits option.splits dest: hooked_hist [OF assms(1)])
  from assms(2) show ?thesis
    unfolding prepareTxOp_def Let_def by (auto split: prod.splits sum.splits if_splits option.splits dest: c u)
qed

lemma mapOps_hist:
  assumes "\<And>x w r w1. step x w = (r, w1) \<Longrightarrow> hist w1 = hist w" "mapOps step i xs w = (r, w1)"
  shows "hist w1 = hist w"
  using assms(2) by (induction xs arbitrary: i w r) (auto split: prod.splits sum.splits dest: assms(1))

lemma mapOps_length: "mapOps step i xs w = (Inr ys, w1) \<Longrightarrow> length ys = length xs"
  by (induction xs arbitrary: i w ys) (auto split: prod.splits sum.splits)

section \<open>A single write\<close>

text \<open>The statement of the write and, where one is emitted, its event.\<close>

definition commitsWrite ::
  "('w \<Rightarrow> stmt list) \<Rightarrow> Std \<Rightarrow> 'w TenantPool \<Rightarrow> string \<Rightarrow> string \<Rightarrow> string \<Rightarrow> string \<Rightarrow> stmt \<Rightarrow> bool \<Rightarrow> 'w \<Rightarrow> 'w \<Rightarrow> bool" where
  "commitsWrite hist std P pgSchema tenantID name action q emitted w w' \<longleftrightarrow>
     (\<exists>evs. committed hist P pgSchema w w' (q # evs) \<and> (if emitted then eventOf std tenantID name action evs else evs = []))"

lemma inTx_queryEmit:
  assumes laws: "txLaws P hist pend"
    and emit: "\<And>f rows w r w1. e = Some f \<Longrightarrow> f rows w = (r, w1) \<Longrightarrow> hist w1 = hist w \<and> (r = None \<longrightarrow> (\<exists>ls. pend w1 = pend w @ ls \<and> Ev rows ls))"
    and none: "\<And>rows. e = None \<Longrightarrow> Ev rows []"
  shows "inTx hist pend (queryEmit P q args e) (\<lambda>rows ls. \<exists>evs. ls = (q, args) # evs \<and> Ev rows evs)"
  unfolding inTx_def
proof (intro allI impI)
  fix w r w1
  assume run: "queryEmit P q args e w = (r, w1)"
  obtain r2 w2 where 2: "pQuery P q args w = (r2, w2)" by (cases "pQuery P q args w")
  note h2 = txLaws_D(4) [OF laws 2]
  show "hist w1 = hist w \<and> (\<forall>rows. r = Inr rows \<longrightarrow> (\<exists>ls. pend w1 = pend w @ ls \<and> (\<exists>evs. ls = (q, args) # evs \<and> Ev rows evs)))"
  proof (cases r2)
    case (Inl err)
    then show ?thesis using run h2 by (auto simp: queryEmit_def 2)
  next
    case (Inr rows)
    note p2 = txLaws_D(9) [OF laws 2 [unfolded Inr]]
    show ?thesis
    proof (cases e)
      case None
      then show ?thesis using run h2 p2 Inr none by (auto simp: queryEmit_def 2)
    next
      case (Some f)
      obtain r3 w3 where 3: "f rows w2 = (r3, w3)" by (cases "f rows w2")
      have "w1 = w3" "\<And>x. r = Inr x \<Longrightarrow> r3 = None \<and> x = rows" using run by (auto simp: queryEmit_def 2 3 Inr Some split: option.splits)
      then show ?thesis using emit [OF Some 3] h2 p2 by auto
    qed
  qed
qed

lemma inTx_execEmit:
  assumes laws: "txLaws P hist pend"
    and emit: "\<And>f n w r w1. e = Some f \<Longrightarrow> f n w = (r, w1) \<Longrightarrow> hist w1 = hist w \<and> (r = None \<longrightarrow> (\<exists>ls. pend w1 = pend w @ ls \<and> Ev n ls))"
    and none: "\<And>n. e = None \<Longrightarrow> Ev n []"
  shows "inTx hist pend (execEmit P q args e) (\<lambda>n ls. \<exists>evs. ls = (q, args) # evs \<and> Ev n evs)"
  unfolding inTx_def
proof (intro allI impI)
  fix w r w1
  assume run: "execEmit P q args e w = (r, w1)"
  obtain r2 w2 where 2: "pExec P q args w = (r2, w2)" by (cases "pExec P q args w")
  note h2 = txLaws_D(3) [OF laws 2]
  show "hist w1 = hist w \<and> (\<forall>n. r = Inr n \<longrightarrow> (\<exists>ls. pend w1 = pend w @ ls \<and> (\<exists>evs. ls = (q, args) # evs \<and> Ev n evs)))"
  proof (cases r2)
    case (Inl err)
    then show ?thesis using run h2 by (auto simp: execEmit_def 2)
  next
    case (Inr n)
    note p2 = txLaws_D(8) [OF laws 2 [unfolded Inr]]
    show ?thesis
    proof (cases e)
      case None
      then show ?thesis using run h2 p2 Inr none by (auto simp: execEmit_def 2)
    next
      case (Some f)
      obtain r3 w3 where 3: "f n w2 = (r3, w3)" by (cases "f n w2")
      have "w1 = w3" "\<And>x. r = Inr x \<Longrightarrow> r3 = None \<and> x = n" using run by (auto simp: execEmit_def 2 3 Inr Some split: option.splits)
      then show ?thesis using emit [OF Some 3] h2 p2 by auto
    qed
  qed
qed

lemma runRows_commits:
  assumes laws: "txLaws P hist pend" and run: "runRows std P name tenantID pgSchema action emit q w = (r, w')"
  shows "(\<exists>rows. commitsWrite hist std P pgSchema tenantID name action q (emit \<and> rows \<noteq> []) w w' \<and> (r = Inr rows \<or> isl r)) \<or>
         hist w' = hist w \<and> isl r"
proof -
  let ?e = "if emit then Some (emitRows std P tenantID name action) else None"
  let ?Ev = "\<lambda>rows evs. if emit \<and> rows \<noteq> [] then eventOf std tenantID name action evs else evs = []"
  have ev: "hist w1 = hist w \<and> (r = None \<longrightarrow> (\<exists>ls. pend w1 = pend w @ ls \<and> ?Ev rows ls))"
    if "?e = Some f" "f rows w = (r, w1)" for f rows w r w1
    using that enqueueCRUDEvent_adds [OF laws, of std tenantID name action _ w r w1]
    by (cases rows) (auto simp: emitRows_def split: if_splits)
  have fn: "inTx hist pend (queryEmit P (fst q) (snd q) ?e) (\<lambda>rows ls. \<exists>evs. ls = (fst q, snd q) # evs \<and> ?Ev rows evs)"
    by (rule inTx_queryEmit [OF laws], erule (1) ev) (auto split: if_splits)
  have "WithTenantTx plainErrors P pgSchema (queryEmit P (fst q) (snd q) ?e) w = (r, w')"
    using run by (auto simp: runRows_def ExecRowsTenantEmit_def ExecRowsTenant_def split: if_splits)
  from WithTenantTx_outcome [OF laws fn this] show ?thesis
    unfolding commitsWrite_def prod.collapse by blast
qed

lemma RunDelete_commits:
  assumes laws: "txLaws P hist pend" and q: "runDeleteSQL tbl i cond = Inr q"
    and run: "RunDelete std P tbl name tenantID pgSchema i cond emit w = (r, w')"
  shows "(\<exists>n. commitsWrite hist std P pgSchema tenantID name ''delete'' q (emit \<and> n \<noteq> 0) w w' \<and> (r = Inr n \<or> isl r)) \<or>
         hist w' = hist w \<and> isl r"
proof -
  let ?e = "if emit then Some (emitAffected std P tenantID name i) else None"
  let ?Ev = "\<lambda>n evs. if emit \<and> n \<noteq> 0 then eventOf std tenantID name ''delete'' evs else evs = []"
  have ev: "hist w1 = hist w \<and> (r = None \<longrightarrow> (\<exists>ls. pend w1 = pend w @ ls \<and> ?Ev n ls))"
    if "?e = Some f" "f n w = (r, w1)" for f n w r w1
    using that enqueueCRUDEvent_adds [OF laws, of std tenantID name "''delete''" _ w r w1]
    by (auto simp: emitAffected_def split: if_splits)
  have fn: "inTx hist pend (execEmit P (fst q) (snd q) ?e) (\<lambda>n ls. \<exists>evs. ls = (fst q, snd q) # evs \<and> ?Ev n evs)"
    by (rule inTx_execEmit [OF laws], erule (1) ev) (auto split: if_splits)
  have "WithTenantTx plainErrors P pgSchema (execEmit P (fst q) (snd q) ?e) w = (r, w')"
    using run q by (cases q) (auto simp: RunDelete_def ExecTenantEmit_def ExecTenant_def split: if_splits)
  from WithTenantTx_outcome [OF laws fn this] show ?thesis
    unfolding commitsWrite_def prod.collapse by blast
qed

section \<open>Properties\<close>

definition allOperations :: "('w \<Rightarrow> stmt list) \<Rightarrow> Std \<Rightarrow> 'w WriteEnv \<Rightarrow> txResource gomap \<Rightarrow> Policy \<Rightarrow> string \<Rightarrow> string \<Rightarrow> EvalContext option
    \<Rightarrow> txOp list \<Rightarrow> 'w \<Rightarrow> 'w \<Rightarrow> bool" where
  "allOperations hist std E refs policy tenantID pgSchema claims ops w w' \<longleftrightarrow>
     (\<exists>ctx ps w1 lss. claims = Some ctx \<and> mapOps (prepareTxOp std E refs policy ctx) 0 ops w = (Inr ps, w1) \<and>
        list_all2 (opTrace std tenantID) ps lss \<and> committed hist (wePool E) pgSchema w w' (concat lss))"

lemma runBatch_commits:
  assumes laws: "envLaws E hist pend" and run: "runBatch std E tenantID pgSchema ps w = (r, w')"
  shows "(\<exists>lss. list_all2 (opTrace std tenantID) ps lss \<and> committed hist (wePool E) pgSchema w w' (concat lss)) \<and>
           ((\<exists>rows. r = Inr rows \<and> length rows = length ps) \<or> (\<exists>err. r = Inl (Infra err))) \<or>
         hist w' = hist w \<and> isl r"
proof -
  let ?fn = "\<lambda>w. case mapOps (execPreparedOp std E tenantID) 0 ps w of (r, w1) \<Rightarrow> (map_sum Tx id r, w1)"
  have steps: "inTx hist pend (mapOps (execPreparedOp std E tenantID) 0 ps)
      (\<lambda>ys ls. \<exists>lss. list_all2 (opTrace std tenantID) ps lss \<and> length ys = length ps \<and> ls = concat lss)"
    by (rule inTx_mapOps) (rule inTx_execPreparedOp [OF laws])
  have fn: "inTx hist pend ?fn (\<lambda>ys ls. \<exists>lss. list_all2 (opTrace std tenantID) ps lss \<and> length ys = length ps \<and> ls = concat lss)"
    unfolding inTx_def
  proof (intro allI impI)
    fix u x u1
    assume eq: "?fn u = (x, u1)"
    obtain y where y: "mapOps (execPreparedOp std E tenantID) 0 ps u = (y, u1)" "x = map_sum Tx id y"
      using eq by (auto split: prod.splits)
    show "hist u1 = hist u \<and> (\<forall>ys. x = Inr ys \<longrightarrow> (\<exists>ls. pend u1 = pend u @ ls \<and>
            (\<exists>lss. list_all2 (opTrace std tenantID) ps lss \<and> length ys = length ps \<and> ls = concat lss)))"
      using inTx_D [OF steps y(1)] y(2) by (cases y) auto
  qed
  have "txLaws (wePool E) hist pend" using laws by (simp add: envLaws_def)
  from WithTenantTx_commits [OF this fn run [unfolded runBatch_def]]
  show ?thesis by (auto simp: classifyAs_def batchErrors_def split: if_splits)
qed

text \<open>C6: a batch is all or nothing: when it answers with the results, the database has committed, in the order
  of the request, every operation's statement together with its event where the resource declares one, and
  nothing else but the reads of the file checks; when it reports a failed operation nothing is committed; and an
  infrastructure error leaves nothing or, when the commit itself was not acknowledged, everything.\<close>

theorem batch_all_or_nothing:
  assumes "envLaws E hist pend"
    and "transactionHandler std E refs policy maxOps tenantID pgSchema claims (BodyOps ops) w = (reply, w')"
  shows "case reply of
           BatchOk rows \<Rightarrow> length rows = length ops \<and> allOperations hist std E refs policy tenantID pgSchema claims ops w w'
         | BatchFailed e \<Rightarrow> hist w' = hist w
         | BatchErr status msg \<Rightarrow> hist w' = hist w \<or> allOperations hist std E refs policy tenantID pgSchema claims ops w w'"
proof -
  have prep_hist: "mapOps (prepareTxOp std E refs policy ctx) 0 ops w = (r, w1) \<Longrightarrow> hist w1 = hist w" for ctx r w1
    by (rule mapOps_hist [OF prepareTxOp_hist [OF assms(1)]])
  show ?thesis
  proof (cases "\<exists>ctx ps w1. claims = Some ctx \<and> ops \<noteq> [] \<and> \<not> int (length ops) > maxOps \<and>
                  mapOps (prepareTxOp std E refs policy ctx) 0 ops w = (Inr ps, w1)")
    case False
    have "hist w' = hist w \<and> (\<forall>rows. reply \<noteq> BatchOk rows)"
      using assms(2) False unfolding transactionHandler_def
      by (auto simp: writeTxError_def split: option.splits if_splits prod.splits sum.splits list.splits
          dest: prep_hist)
    then show ?thesis by (cases reply) auto
  next
    case True
    then obtain ctx ps w1 where ctx: "claims = Some ctx" "ops \<noteq> []" "\<not> int (length ops) > maxOps"
      and prep: "mapOps (prepareTxOp std E refs policy ctx) 0 ops w = (Inr ps, w1)" by blast
    have h1: "hist w1 = hist w" by (rule prep_hist [OF prep])
    obtain r w2 where 2: "runBatch std E tenantID pgSchema ps w1 = (r, w2)" by (cases "runBatch std E tenantID pgSchema ps w1")
    have all: "list_all2 (opTrace std tenantID) ps lss \<Longrightarrow> committed hist (wePool E) pgSchema w1 w2 (concat lss) \<Longrightarrow>
               hist w' = hist w2 \<Longrightarrow> allOperations hist std E refs policy tenantID pgSchema claims ops w w'" for lss
      using ctx(1) prep h1 unfolding allOperations_def committed_def by auto
    have inv: "hist (Invalidate E w2) = hist w2" using assms(1) by (simp add: envLaws_def)
    show ?thesis
    proof (cases r)
      case (Inl e)
      then have reply: "reply = writeTxError (wePool E) e" "w' = w2"
        using assms(2) ctx prep 2 by (auto simp: transactionHandler_def)
      then show ?thesis
        using runBatch_commits [OF assms(1) 2] Inl h1 all
        by (auto simp: writeTxError_def split: batchError.splits list.splits if_splits)
    next
      case (Inr rows)
      then have reply: "reply = BatchOk rows" "w' = Invalidate E w2"
        using assms(2) ctx prep 2 by (auto simp: transactionHandler_def)
      then show ?thesis
        using runBatch_commits [OF assms(1) 2] Inr mapOps_length [OF prep] all inv by auto
    qed
  qed
qed

text \<open>C30: a single write commits its statement and its event in one transaction: an answer means both are
  committed, the event exactly when the resource emits and a row was written; an error means neither, or both
  when only the acknowledgement of the commit was lost.\<close>

theorem write_commits_with_its_event:
  assumes "txLaws P hist pend"
    and "insertSQL P tbl body = iq" "runUpdateSQL P now res tbl i sets cond = Inr uq" "runDeleteSQL tbl i cond = Inr dq"
    and "RunInsert std P tbl name tenantID pgSchema body emit w = (ri, wi)"
    and "RunUpdate std P now res tbl name tenantID pgSchema i sets cond emit w = (ru, wu)"
    and "RunDelete std P tbl name tenantID pgSchema i cond emit w = (rd, wd)"
  shows "(case ri of
            Inr rows \<Rightarrow> commitsWrite hist std P pgSchema tenantID name ''create'' iq (emit \<and> rows \<noteq> []) w wi
          | Inl e \<Rightarrow> hist wi = hist w \<or> (\<exists>rows::row list. commitsWrite hist std P pgSchema tenantID name ''create'' iq (emit \<and> rows \<noteq> []) w wi)) \<and>
         (case ru of
            Inr rows \<Rightarrow> commitsWrite hist std P pgSchema tenantID name ''update'' uq (emit \<and> rows \<noteq> []) w wu
          | Inl e \<Rightarrow> hist wu = hist w \<or> (\<exists>rows::row list. commitsWrite hist std P pgSchema tenantID name ''update'' uq (emit \<and> rows \<noteq> []) w wu)) \<and>
         (case rd of
            Inr n \<Rightarrow> commitsWrite hist std P pgSchema tenantID name ''delete'' dq (emit \<and> n \<noteq> 0) w wd
          | Inl e \<Rightarrow> hist wd = hist w \<or> (\<exists>n::int. commitsWrite hist std P pgSchema tenantID name ''delete'' dq (emit \<and> n \<noteq> 0) w wd))"
proof -
  have ins: "runRows std P name tenantID pgSchema ''create'' emit iq w = (ri, wi)" using assms(2,5) by (simp add: RunInsert_def)
  have upd: "runRows std P name tenantID pgSchema ''update'' emit uq w = (ru, wu)" using assms(3,6) by (simp add: RunUpdate_def)
  show ?thesis
    using runRows_commits [OF assms(1) ins] runRows_commits [OF assms(1) upd] RunDelete_commits [OF assms(1,4,7)]
    by (intro conjI) (auto split: sum.splits)
qed

section \<open>A database in memory\<close>

definition exDB :: "(stmt list \<times> stmt list) TenantPool" where
  "exDB =
     \<lparr>pBegin = (\<lambda>(h, p). (None, (h, []))),
      pExec = (\<lambda>q a (h, p). (Inr 1, (h, p @ [(q, a)]))),
      pQuery = (\<lambda>q a (h, p). (Inr [[(''id'', GInt 7)]], (h, p @ [(q, a)]))),
      pCommit = (\<lambda>(h, p). (None, (h @ p, []))), pRollback = (\<lambda>(h, p). (h, [])),
      brAllow = Pair None, brDone = (\<lambda>_. id), leafUnavailable = (\<lambda>_. False), breakerOpen = (\<lambda>_. False), pIdent = pgIdent\<rparr>"

definition exWriter :: Policy where
  "exWriter = UnmarshalPolicy \<lparr>plainRoles = [(''writer'', emptyRolePolicy\<lparr>Permissions :=
     [(''notes'', \<lparr>permActions = [''*''], permConditions = None, ConditionActions = [], permFields = []\<rparr>)]\<rparr>)], plainPublic = []\<rparr>"

definition exWriteEnv :: "(stmt list \<times> stmt list) WriteEnv" where
  "exWriteEnv =
     \<lparr>wePool = exDB, BeforeHook = (\<lambda>_ d. Pair (Inr \<lparr>Proceed = True, hookError = [], hookData = d\<rparr>)),
      wePolicy = exWriter, weFileCols = [], Uploader = None, Publish = (\<lambda>_ _ _. id), Invalidate = id,
      AfterHook = (\<lambda>_ _ _. id), RejectParams = None, weNow = ''t'', ErrText = (\<lambda>_. [])\<rparr>"

lemma exDB_laws: "txLaws exDB fst snd"
  by (auto simp: txLaws_def exDB_def)

lemma exWriteEnv_laws: "envLaws exWriteEnv fst snd"
  by (auto simp: envLaws_def exWriteEnv_def exDB_laws)

text \<open>A marshaller that always answers, and a resource that emits on create.\<close>

definition exStdM :: Std where
  "exStdM = exStd\<lparr>jsonMarshal := \<lambda>_. Some ''{}''\<rparr>"

definition exNotes :: ResourceSchema where
  "exNotes = (zeroResource [(''note'', zeroField ''string'')])\<lparr>Events := [''create'', ''delete'']\<rparr>"

definition exNotesAPI :: APISchema where
  "exNotesAPI = \<lparr>asSchema = [], asVersion = [], asName = [], asResources = [(''notes'', exNotes)],
     asRBAC = \<lparr>plainRoles = [], plainPublic = []\<rparr>, Workflows = [], Summary = None\<rparr>"

definition exOps :: "txOp list" where
  "exOps = [\<lparr>opKind = ''create'', opResource = ''notes'', opID = [], opData = [(''note'', GStr ''a'')], opGuard = []\<rparr>]"

definition exBatch :: "batchReply \<times> (stmt list \<times> stmt list)" where
  "exBatch = transactionHandler exStdM exWriteEnv (txRefs exStdM exDB exNotesAPI) exWriter 100 ''t1'' ''tenant_a''
     (Some \<lparr>Role = ''writer'', UserID = ''u1'', ExternalClientID = []\<rparr>) (BodyOps exOps) ([], [])"

lemma exBatch_ok: "fst exBatch = BatchOk [[(''id'', GInt 7)]]"
  by code_simp

theorem batch_all_or_nothing_witness:
  "\<exists>w'. exBatch = (BatchOk [[(''id'', GInt 7)]], w') \<and>
        allOperations fst exStdM exWriteEnv (txRefs exStdM exDB exNotesAPI) exWriter ''t1'' ''tenant_a''
          (Some \<lparr>Role = ''writer'', UserID = ''u1'', ExternalClientID = []\<rparr>) exOps ([], []) w'"
proof (intro exI conjI)
  show eq: "exBatch = (BatchOk [[(''id'', GInt 7)]], snd exBatch)" using exBatch_ok by (simp add: prod_eq_iff)
  show "allOperations fst exStdM exWriteEnv (txRefs exStdM exDB exNotesAPI) exWriter ''t1'' ''tenant_a''
          (Some \<lparr>Role = ''writer'', UserID = ''u1'', ExternalClientID = []\<rparr>) exOps ([], []) (snd exBatch)"
    using batch_all_or_nothing [OF exWriteEnv_laws eq [unfolded exBatch_def]] unfolding exBatch_def by simp
qed

theorem write_commits_with_its_event_witness:
  "\<exists>w'. RunInsert exStdM exDB (pgIdent ''notes'') ''notes'' ''t1'' ''tenant_a'' [(''note'', GStr ''a'')] True ([], []) = (Inr [[(''id'', GInt 7)]], w') \<and>
        commitsWrite fst exStdM exDB ''tenant_a'' ''t1'' ''notes'' ''create'' (insertSQL exDB (pgIdent ''notes'') [(''note'', GStr ''a'')]) True ([], []) w'"
proof -
  let ?ins = "RunInsert exStdM exDB (pgIdent ''notes'') ''notes'' ''t1'' ''tenant_a'' [(''note'', GStr ''a'')] True ([], [])"
  let ?upd = "RunUpdate exStdM exDB ''t'' exNotes (pgIdent ''notes'') ''notes'' ''t1'' ''tenant_a'' ''r1'' [(''note'', GStr ''b'')] None True ([], [])"
  let ?del = "RunDelete exStdM exDB (pgIdent ''notes'') ''notes'' ''t1'' ''tenant_a'' ''r1'' None True ([], [])"
  have ins: "fst ?ins = Inr [[(''id'', GInt 7)]]" by code_simp
  have "\<not> isl (runUpdateSQL exDB ''t'' exNotes (pgIdent ''notes'') ''r1'' [(''note'', GStr ''b'')] None)" by code_simp
  then obtain uq where uq: "runUpdateSQL exDB ''t'' exNotes (pgIdent ''notes'') ''r1'' [(''note'', GStr ''b'')] None = Inr uq"
    by (cases "runUpdateSQL exDB ''t'' exNotes (pgIdent ''notes'') ''r1'' [(''note'', GStr ''b'')] None") auto
  obtain dq where dq: "runDeleteSQL (pgIdent ''notes'') ''r1'' None = Inr dq"
    by (simp add: runDeleteSQL_def AppendRowCondition_def)
  have eq: "?ins = (Inr [[(''id'', GInt 7)]], snd ?ins)" using ins by (simp add: prod_eq_iff)
  have "commitsWrite fst exStdM exDB ''tenant_a'' ''t1'' ''notes'' ''create'' (insertSQL exDB (pgIdent ''notes'') [(''note'', GStr ''a'')]) True ([], []) (snd ?ins)"
    using write_commits_with_its_event [OF exDB_laws refl uq dq eq, of "fst ?upd" "snd ?upd" "fst ?del" "snd ?del", THEN conjunct1] by simp
  with eq show ?thesis by (intro exI conjI)
qed

end
