(* ===== verification/Auth.thy ===== *)
theory Auth
  imports Rbac
begin

text \<open>
  Tokens and the authentication middleware: \<open>pkg/auth\<close> (\<open>jwt.go\<close>, \<open>bearer.go\<close>, \<open>claims_cache.go\<close>,
  \<open>middleware.go\<close>).  The JWT library is the parameter \<open>validate\<close> (time, secret and token give a reason or the
  claims), SHA-256 the parameter \<open>H\<close>, \<open>time.ParseDuration\<close> a parameter of \<open>ParseTTL\<close>.  Times and durations are
  nanoseconds.  Signing, random identifiers and tracing are left out.
\<close>

section \<open>Claims\<close>

record Claims =
  cUserID :: string
  cRole :: string
  cExternalClientID :: string
  cTenantID :: string
  cPaths :: "string list"
  cID :: string
  cExpiresAt :: "int option"

definition PathAllowed :: "Claims \<Rightarrow> string \<Rightarrow> bool" where
  "PathAllowed c path \<longleftrightarrow>
     cPaths c = [] \<or>
     list_ex (\<lambda>p. if HasSuffix p ''/*'' then HasPrefix path (TrimSuffix p ''*'') else path = p) (cPaths c)"

definition ttlError :: "string \<Rightarrow> string \<Rightarrow> string" where
  "ttlError s hint = ''ttl '' @ goq s @ '': '' @ hint"

definition ParseTTL :: "(string \<Rightarrow> int option) \<Rightarrow> string \<Rightarrow> string + int" where
  "ParseTTL parseDuration s0 =
     (let s = TrimSpace s0
      in if HasSuffix s ''d''
         then (case Atoi (TrimSuffix s ''d'') of
                 Some n \<Rightarrow>
                   if n \<le> 0 then Inl (ttlError s ''use a whole number of days (365d) or a Go duration (24h)'')
                   else Inr (wrap64 (wrap64 (n * 24) * hour))
               | None \<Rightarrow> Inl (ttlError s ''use a whole number of days (365d) or a Go duration (24h)''))
         else (case parseDuration s of
                 Some d \<Rightarrow>
                   if d \<le> 0 then Inl (ttlError s ''use a Go duration (24h, 90m) or whole days (365d); it must be positive'') else Inr d
               | None \<Rightarrow> Inl (ttlError s ''use a Go duration (24h, 90m) or whole days (365d); it must be positive'')))"

section \<open>Revocation\<close>

definition SetRevokedTokenIDs :: "string list \<Rightarrow> string list" where
  "SetRevokedTokenIDs ids = filter (\<lambda>i. i \<noteq> []) (map TrimSpace ids)"

definition IsRevoked :: "string list \<Rightarrow> string \<Rightarrow> bool" where
  "IsRevoked revoked i \<longleftrightarrow> i \<noteq> [] \<and> i \<in> set revoked"

definition containsAny :: "string \<Rightarrow> char list \<Rightarrow> bool" where
  "containsAny s cs = list_ex (\<lambda>c. c \<in> set cs) s"

fun revokedEntries :: "string list \<Rightarrow> string + string list" where
  "revokedEntries [] = Inr []"
| "revokedEntries (part # rest) =
     (let i = TrimSpace part
      in if i = []
         then Inl (''appximo: APPXIMO_JWT_REVOKED has an empty entry (stray comma) '' @ emDash @ '' list token ids separated by commas'')
         else if containsAny i [CHR '' '', CHR 0x09, CHR 0x22, CHR 0x27]
         then Inl (''appximo: APPXIMO_JWT_REVOKED entry '' @ goq i @ '' is not a token id (no spaces or quotes)'')
         else case revokedEntries rest of Inl e \<Rightarrow> Inl e | Inr ids \<Rightarrow> Inr (i # ids))"

definition RevokedFromEnv :: "string \<Rightarrow> string + string list" where
  "RevokedFromEnv env =
     (let raw = TrimSpace env
      in if raw = [] then Inr (SetRevokedTokenIDs [])
         else case revokedEntries (split_on CHR '','' raw) of Inl e \<Rightarrow> Inl e | Inr ids \<Rightarrow> Inr (SetRevokedTokenIDs ids))"

section \<open>Bearer tokens\<close>

definition BearerToken :: "string \<Rightarrow> string option" where
  "BearerToken header =
     (if length header < 6 \<or> ToLower (take 6 header) \<noteq> ''bearer'' then None
      else case drop 6 header of
             [] \<Rightarrow> None
           | c # cs \<Rightarrow> if c \<noteq> CHR '' '' \<and> c \<noteq> CHR 0x09 then None
                       else Some (dropWhile (\<lambda>x. x = CHR '' '' \<or> x = CHR 0x09) (c # cs)))"

definition errUnsupportedScheme :: string where
  "errUnsupportedScheme = ''unsupported authorization scheme: expected '' @ [CHR 0x22] @ ''Authorization: Bearer <token>'' @ [CHR 0x22]"

section \<open>The claims cache\<close>

record cachedClaims =
  ccClaims :: Claims
  ccExpiresAt :: int

type_synonym claimsCache = "cachedClaims gomap"

definition tokenCacheKey :: "(string \<Rightarrow> string) \<Rightarrow> string \<Rightarrow> string \<Rightarrow> string" where
  "tokenCacheKey H secret token = H (secret @ [CHR 0x00] @ token)"

definition GetCachedClaims :: "(string \<Rightarrow> string) \<Rightarrow> int \<Rightarrow> string \<Rightarrow> string \<Rightarrow> claimsCache \<Rightarrow> Claims option \<times> claimsCache" where
  "GetCachedClaims H now secret token cache =
     (let key = tokenCacheKey H secret token
      in case gm_get cache key of
           None \<Rightarrow> (None, cache)
         | Some cc \<Rightarrow> if now > ccExpiresAt cc then (None, gm_del key cache) else (Some (ccClaims cc), cache))"

definition claimsTTL :: int where
  "claimsTTL = 30 * 1000000000"

definition setCachedClaims :: "(string \<Rightarrow> string) \<Rightarrow> int \<Rightarrow> string \<Rightarrow> string \<Rightarrow> Claims \<Rightarrow> claimsCache \<Rightarrow> claimsCache" where
  "setCachedClaims H now secret token c cache =
     (let ttl = (case cExpiresAt c of Some e \<Rightarrow> if e - now < claimsTTL then e - now else claimsTTL | None \<Rightarrow> claimsTTL)
      in if ttl \<le> 0 then cache
         else gm_put (tokenCacheKey H secret token) \<lparr>ccClaims = c, ccExpiresAt = now + ttl\<rparr> cache)"

definition claimsCacheGC :: "int \<Rightarrow> claimsCache \<Rightarrow> claimsCache" where
  "claimsCacheGC now cache = filter (\<lambda>(_, cc). \<not> now > ccExpiresAt cc) cache"

section \<open>The middleware\<close>

record httpReq =
  hqMethod :: string
  hqPath :: string
  hqURI :: string
  hqHost :: string
  hqAuth :: string
  hqCacheControl :: string
  hqIfNoneMatch :: string
  hqAcceptEncoding :: string
  hqTenant :: "string option"

type_synonym validator = "int \<Rightarrow> string \<Rightarrow> string \<Rightarrow> string + Claims"

definition domainOf :: "string \<Rightarrow> string" where
  "domainOf host =
     (let h = takeWhile (\<lambda>c. c \<noteq> CHR '':'') host
      in case dropWhile (\<lambda>c. c \<noteq> CHR ''.'') h of [] \<Rightarrow> h | _ # rest \<Rightarrow> rest)"

definition tenantMismatch :: "string \<Rightarrow> string \<Rightarrow> string \<Rightarrow> string" where
  "tenantMismatch host tc tok =
     ''token tenant mismatch: this request arrived at host '' @ goq host @ '', so it is for tenant '' @ goq tc @
     '', but the token was issued for tenant '' @ goq tok @ ''. The tenant is taken from the FIRST part of the address ('' @ goq host @ '' '' @
     [CHR 0xE2, CHR 0x86, CHR 0x92] @ '' tenant '' @ goq tc @ ''), so a tenant only works at <tenant-id>.<your-domain>. Either use a token for '' @
     goq tc @ '', or register/reach the app at '' @ tok @ ''.'' @ domainOf host"

text \<open>A reason to refuse, or the claims; and the cache.\<close>

definition resolveClaims ::
  "(string \<Rightarrow> string) \<Rightarrow> validator \<Rightarrow> string list \<Rightarrow> string \<Rightarrow> int \<Rightarrow> httpReq \<Rightarrow> string \<Rightarrow> claimsCache \<Rightarrow> (string + Claims) \<times> claimsCache" where
  "resolveClaims H validate revoked secret now r tokenStr cache =
     (case (case GetCachedClaims H now secret tokenStr cache of
              (Some c, cache1) \<Rightarrow> (Inr c, cache1)
            | (None, cache1) \<Rightarrow>
                (case validate now secret tokenStr of
                   Inl err \<Rightarrow> (Inl (''invalid token: '' @ err), cache1)
                 | Inr c \<Rightarrow> (Inr c, setCachedClaims H now secret tokenStr c cache1))) of
        (Inl reason, cache2) \<Rightarrow> (Inl reason, cache2)
      | (Inr c, cache2) \<Rightarrow>
          (if IsRevoked revoked (cID c) then Inl ''token revoked (its id is listed in APPXIMO_JWT_REVOKED)''
           else if \<not> PathAllowed c (hqPath r)
           then Inl (''token is scoped to '' @ join_with '', '' (cPaths c) @ '' and cannot be used on '' @ hqPath r)
           else case hqTenant r of
                  Some tc \<Rightarrow> if cTenantID c \<noteq> [] \<and> cTenantID c \<noteq> tc then Inl (tenantMismatch (hqHost r) tc (cTenantID c)) else Inr c
                | None \<Rightarrow> Inr c, cache2))"

definition skipJWT :: "string list" where
  "skipJWT = [''/health'', ''/readyz'', ''/graphiql'', ''/metrics'', ''/debug'', ''/admin'', ''/app'', ''/editor'', ''/auth/'', ''/favicon.ico'',
     ''/openapi'', ''/docs'', ''/files/signed/'']"

datatype jwtOutcome = JNext "Claims option" | JReject string

definition jwtBearer ::
  "(string \<Rightarrow> string) \<Rightarrow> validator \<Rightarrow> string list \<Rightarrow> string \<Rightarrow> int \<Rightarrow> httpReq \<Rightarrow> claimsCache \<Rightarrow> jwtOutcome \<times> claimsCache" where
  "jwtBearer H validate revoked secret now r cache =
     (case BearerToken (hqAuth r) of
        None \<Rightarrow> (JReject errUnsupportedScheme, cache)
      | Some tok \<Rightarrow>
          (case resolveClaims H validate revoked secret now r tok cache of
             (Inl reason, cache1) \<Rightarrow> (JReject reason, cache1)
           | (Inr c, cache1) \<Rightarrow> (JNext (Some c), cache1)))"

definition anonymousClaims :: "string \<Rightarrow> httpReq \<Rightarrow> Claims" where
  "anonymousClaims anonRole r =
     \<lparr>cUserID = [], cRole = anonRole, cExternalClientID = [], cTenantID = (case hqTenant r of Some tc \<Rightarrow> tc | None \<Rightarrow> []),
      cPaths = [], cID = [], cExpiresAt = None\<rparr>"

definition jwtMiddleware ::
  "(string \<Rightarrow> string) \<Rightarrow> validator \<Rightarrow> string list \<Rightarrow> string \<Rightarrow> (string \<Rightarrow> string \<Rightarrow> bool) option \<Rightarrow> (string \<Rightarrow> bool) option \<Rightarrow> string
     \<Rightarrow> int \<Rightarrow> httpReq \<Rightarrow> claimsCache \<Rightarrow> jwtOutcome \<times> claimsCache" where
  "jwtMiddleware H validate revoked secret isPublic isStatic anonRole now r cache =
     (if (case isPublic of Some f \<Rightarrow> f (hqMethod r) (hqPath r) | None \<Rightarrow> False)
      then (if hqAuth r = [] then (JNext None, cache) else jwtBearer H validate revoked secret now r cache)
      else if list_ex (HasPrefix (hqPath r)) skipJWT then (JNext None, cache)
      else if (case isStatic of Some f \<Rightarrow> f (hqPath r) | None \<Rightarrow> False) then (JNext None, cache)
      else if hqAuth r = []
      then (if anonRole \<noteq> [] then (JNext (Some (anonymousClaims anonRole r)), cache) else (JReject ''missing token'', cache))
      else jwtBearer H validate revoked secret now r cache)"

section \<open>What the cache remembers\<close>

text \<open>What the code relies on: secrets hold no NUL byte and the cache key then separates secrets and tokens, and the library only accepts a token
  that carries an expiry in the future.\<close>

definition plainSecret :: "string \<Rightarrow> bool" where
  "plainSecret secret \<longleftrightarrow> CHR 0x00 \<notin> set secret"

definition keyLaw :: "(string \<Rightarrow> string) \<Rightarrow> bool" where
  "keyLaw H \<longleftrightarrow>
     (\<forall>s t s' t'. plainSecret s \<longrightarrow> plainSecret s' \<longrightarrow> tokenCacheKey H s t = tokenCacheKey H s' t' \<longrightarrow> s = s' \<and> t = t')"

definition expiryLaw :: "validator \<Rightarrow> bool" where
  "expiryLaw validate \<longleftrightarrow> (\<forall>now s t c. validate now s t = Inr c \<longrightarrow> (\<exists>e. cExpiresAt c = Some e \<and> now < e))"

definition soundEntry :: "(string \<Rightarrow> string) \<Rightarrow> validator \<Rightarrow> int \<Rightarrow> string \<Rightarrow> cachedClaims \<Rightarrow> bool" where
  "soundEntry H validate now key cc \<longleftrightarrow>
     (\<exists>s t t0 e. key = tokenCacheKey H s t \<and> plainSecret s \<and> t0 \<le> now \<and> validate t0 s t = Inr (ccClaims cc) \<and>
        cExpiresAt (ccClaims cc) = Some e \<and> ccExpiresAt cc \<le> e)"

definition soundCache :: "(string \<Rightarrow> string) \<Rightarrow> validator \<Rightarrow> int \<Rightarrow> claimsCache \<Rightarrow> bool" where
  "soundCache H validate now cache \<longleftrightarrow> (\<forall>(key, cc) \<in> set cache. soundEntry H validate now key cc)"

lemma soundEntry_later: "soundEntry H validate now key cc \<Longrightarrow> now \<le> now' \<Longrightarrow> soundEntry H validate now' key cc"
  unfolding soundEntry_def by (blast intro: order_trans)

lemma soundCache_later: "soundCache H validate now cache \<Longrightarrow> now \<le> now' \<Longrightarrow> soundCache H validate now' cache"
  using soundEntry_later by (fastforce simp: soundCache_def)

lemma set_gm_put: "set (gm_put k v m) \<subseteq> insert (k, v) (set m)"
  unfolding gm_put_def by (induction m) auto

lemma soundCache_del: "soundCache H validate now cache \<Longrightarrow> soundCache H validate now (gm_del key cache)"
  by (auto simp: soundCache_def gm_del_def)

lemma soundCache_get: "soundCache H validate now cache \<Longrightarrow> soundCache H validate now (snd (GetCachedClaims H now secret token cache))"
  by (auto simp: GetCachedClaims_def Let_def soundCache_del split: option.splits)

lemma soundCache_set:
  assumes "soundCache H validate now cache" "validate now secret token = Inr c" "expiryLaw validate" "plainSecret secret"
  shows "soundCache H validate now (setCachedClaims H now secret token c cache)"
proof -
  obtain e where e: "cExpiresAt c = Some e" "now < e" using assms(2,3) unfolding expiryLaw_def by blast
  let ?ttl = "if e - now < claimsTTL then e - now else claimsTTL"
  have "soundEntry H validate now (tokenCacheKey H secret token) \<lparr>ccClaims = c, ccExpiresAt = now + ?ttl\<rparr>"
    using assms(2,4) e unfolding soundEntry_def by (intro exI [of _ secret] exI [of _ token] exI [of _ now] exI [of _ e]) auto
  then show ?thesis using assms(1) e set_gm_put [of "tokenCacheKey H secret token"]
    by (fastforce simp: setCachedClaims_def Let_def soundCache_def)
qed

lemma soundCache_gc: "soundCache H validate now cache \<Longrightarrow> soundCache H validate now (claimsCacheGC now cache)"
  by (auto simp: soundCache_def claimsCacheGC_def)

lemma resolveClaims_sound:
  assumes "soundCache H validate now cache" "expiryLaw validate" "plainSecret secret"
  shows "soundCache H validate now (snd (resolveClaims H validate revoked secret now r tok cache))"
proof -
  have "soundCache H validate now (snd (GetCachedClaims H now secret tok cache))" by (rule soundCache_get [OF assms(1)])
  then show ?thesis
    using soundCache_set [OF _ _ assms(2,3)]
    unfolding resolveClaims_def by (auto split: prod.splits option.splits sum.splits)
qed

text \<open>Resolved claims were validated by this secret, have not expired, and may be used here.\<close>

definition usable :: "validator \<Rightarrow> string list \<Rightarrow> string \<Rightarrow> int \<Rightarrow> httpReq \<Rightarrow> string \<Rightarrow> Claims \<Rightarrow> bool" where
  "usable validate revoked secret now r tok c \<longleftrightarrow>
     (\<exists>t0 e. t0 \<le> now \<and> validate t0 secret tok = Inr c \<and> cExpiresAt c = Some e \<and> now \<le> e) \<and>
     \<not> IsRevoked revoked (cID c) \<and> PathAllowed c (hqPath r) \<and> (\<forall>tc. hqTenant r = Some tc \<longrightarrow> cTenantID c = [] \<or> cTenantID c = tc)"

lemma GetCachedClaims_hit:
  assumes "soundCache H validate now cache" "keyLaw H" "plainSecret secret" "GetCachedClaims H now secret tok cache = (Some c, cache1)"
  shows "\<exists>t0 e. t0 \<le> now \<and> validate t0 secret tok = Inr c \<and> cExpiresAt c = Some e \<and> now \<le> e"
proof -
  from assms(4) obtain cc where cc: "gm_get cache (tokenCacheKey H secret tok) = Some cc" "now \<le> ccExpiresAt cc" "c = ccClaims cc"
    by (auto simp: GetCachedClaims_def Let_def split: option.splits if_splits)
  then have "soundEntry H validate now (tokenCacheKey H secret tok) cc"
    using assms(1) unfolding soundCache_def by (auto dest: gm_get_in)
  then obtain s t t0 e where "tokenCacheKey H secret tok = tokenCacheKey H s t" "plainSecret s" "t0 \<le> now" "validate t0 s t = Inr c"
    "cExpiresAt c = Some e" "ccExpiresAt cc \<le> e"
    using cc(3) unfolding soundEntry_def by blast
  then show ?thesis using assms(2,3) cc(2) unfolding keyLaw_def by (metis order_trans)
qed

lemma resolveClaims_usable:
  assumes "soundCache H validate now cache" "keyLaw H" "expiryLaw validate" "plainSecret secret"
    and "resolveClaims H validate revoked secret now r tok cache = (Inr c, cache')"
  shows "usable validate revoked secret now r tok c"
proof -
  have checks: "\<not> IsRevoked revoked (cID c)" "PathAllowed c (hqPath r)" "\<forall>tc. hqTenant r = Some tc \<longrightarrow> cTenantID c = [] \<or> cTenantID c = tc"
    using assms(5) by (auto simp: resolveClaims_def split: prod.splits sum.splits option.splits if_splits)
  have fresh: "\<exists>t0 e. t0 \<le> now \<and> validate t0 secret tok = Inr c \<and> cExpiresAt c = Some e \<and> now \<le> e" if "validate now secret tok = Inr c"
    using that assms(3) unfolding expiryLaw_def by (meson less_imp_le order_refl)
  show ?thesis
    using assms(5) checks fresh GetCachedClaims_hit [OF assms(1,2,4), of tok]
    unfolding usable_def by (auto simp: resolveClaims_def split: prod.splits sum.splits option.splits if_splits)
qed

section \<open>Serving requests\<close>

text \<open>The caches that requests, to any application of the process, and the periodic sweep produce.\<close>

inductive authCache :: "(string \<Rightarrow> string) \<Rightarrow> validator \<Rightarrow> int \<Rightarrow> claimsCache \<Rightarrow> bool" for H validate where
  boot: "authCache H validate now []"
| tick: "authCache H validate now cache \<Longrightarrow> now \<le> now' \<Longrightarrow> authCache H validate now' cache"
| serve: "authCache H validate now cache \<Longrightarrow> plainSecret secret \<Longrightarrow>
          authCache H validate now (snd (jwtMiddleware H validate revoked secret isPublic isStatic anonRole now r cache))"
| lookup: "authCache H validate now cache \<Longrightarrow> authCache H validate now (snd (GetCachedClaims H now secret tok cache))"
| sweep: "authCache H validate now cache \<Longrightarrow> authCache H validate now (claimsCacheGC now cache)"

lemma jwtBearer_sound:
  assumes "soundCache H validate now cache" "expiryLaw validate" "plainSecret secret"
  shows "soundCache H validate now (snd (jwtBearer H validate revoked secret now r cache))"
proof (cases "BearerToken (hqAuth r)")
  case (Some tok)
  then show ?thesis
    using resolveClaims_sound [OF assms, of revoked r tok] by (auto simp: jwtBearer_def split: prod.splits sum.splits)
qed (simp add: jwtBearer_def assms)

lemma jwtMiddleware_sound:
  assumes "soundCache H validate now cache" "expiryLaw validate" "plainSecret secret"
  shows "soundCache H validate now (snd (jwtMiddleware H validate revoked secret isPublic isStatic anonRole now r cache))"
  unfolding jwtMiddleware_def using assms by (auto simp: jwtBearer_sound)

lemma authCache_sound:
  assumes "authCache H validate now cache" "expiryLaw validate"
  shows "soundCache H validate now cache"
  using assms(1)
proof (induction rule: authCache.induct)
  case (boot now)
  then show ?case by (simp add: soundCache_def)
qed (use assms(2) in \<open>blast intro: soundCache_later jwtMiddleware_sound soundCache_get soundCache_gc\<close>)+


text \<open>A library that accepts one token until its expiry, and a request with it.\<close>

definition exClaims :: Claims where
  "exClaims = \<lparr>cUserID = ''u1'', cRole = ''reader'', cExternalClientID = [], cTenantID = ''acme'', cPaths = [''/api/posts''], cID = ''k1'',
     cExpiresAt = Some 100\<rparr>"

definition exValidate :: validator where
  "exValidate now secret tok = (if secret = ''s3'' \<and> tok = ''tok'' \<and> now < 100 then Inr exClaims else Inl ''bad token'')"

definition exGet :: "string \<Rightarrow> httpReq" where
  "exGet path = \<lparr>hqMethod = ''GET'', hqPath = path, hqURI = path, hqHost = ''acme.example.com'', hqAuth = ''Bearer tok'', hqCacheControl = [],
     hqIfNoneMatch = [], hqAcceptEncoding = [], hqTenant = Some ''acme''\<rparr>"

lemma exKey_law: "keyLaw id"
proof -
  have "takeWhile (\<lambda>c. c \<noteq> CHR 0x00) (s @ [CHR 0x00] @ t) = s" if "plainSecret s" for s t
    using that by (auto simp: plainSecret_def takeWhile_append)
  then show ?thesis unfolding keyLaw_def tokenCacheKey_def id_def by (metis append_same_eq same_append_eq)
qed

lemma exValidate_law: "expiryLaw exValidate"
  by (auto simp: expiryLaw_def exValidate_def exClaims_def split: if_splits)


text \<open>Whole days are multiplied in 64 bits: a lifetime of 106752 days is accepted and is negative.\<close>

lemma ttl_wraps: "ParseTTL (\<lambda>_. None) ''106752d'' = Inr (- 9223371273709551616)"
proof -
  have "TrimSpace ''106752d'' = ''106752d''" "HasSuffix ''106752d'' ''d''" "TrimSuffix ''106752d'' ''d'' = ''106752''" by code_simp+
  moreover have "Atoi ''106752'' = Some 106752" by (simp add: Atoi_def digits_val_def is_digit_def in_int64_def)
  ultimately show ?thesis by (simp add: ParseTTL_def wrap64_def hour_def Let_def)
qed

end
