(* ===== verification/ResponseCache.thy ===== *)
theory ResponseCache
  imports Auth "HOL-Library.Word"
begin

text \<open>
  The response cache of \<open>pkg/cache/response_cache.go\<close>: items per tenant and request URI, epochs that discard a
  response produced before an invalidation, and the middleware that stands before authentication.  The handler
  behind it, gzip and the claims cache of \<open>Auth\<close> are parameters; single-flight sharing is that every waiter gets
  the item of the one run.  Times are nanoseconds; epochs are 64-bit words, as in the source.
\<close>

section \<open>Items\<close>

record cacheItem =
  itStatus :: int
  itContentType :: string
  itEtag :: string
  itServerTiming :: string
  secHeaders :: "string gomap"
  itPlain :: string
  gzipped :: "string option"
  itExpiresAt :: int

definition maxPerTenant :: nat where
  "maxPerTenant = 1000"

definition cachedSecurityHeaders :: "string list" where
  "cachedSecurityHeaders =
     [''Content-Security-Policy'', ''Content-Security-Policy-Report-Only'', ''X-Content-Type-Options'', ''X-Frame-Options'', ''Referrer-Policy'',
      ''Strict-Transport-Security'', ''Permissions-Policy'', ''Cross-Origin-Opener-Policy'', ''Cross-Origin-Embedder-Policy'',
      ''Cross-Origin-Resource-Policy'', ''X-Xss-Protection'']"

text \<open>\<open>http.Header.Get\<close>: the empty text when the header is absent.\<close>

definition headerGet :: "string gomap \<Rightarrow> string \<Rightarrow> string" where
  "headerGet h k = (case gm_get h k of Some v \<Rightarrow> v | None \<Rightarrow> [])"

definition captureSecurityHeaders :: "string gomap \<Rightarrow> string gomap" where
  "captureSecurityHeaders h = map (\<lambda>k. (k, headerGet h k)) (filter (\<lambda>k. headerGet h k \<noteq> []) cachedSecurityHeaders)"

record ResponseCache =
  tenants :: "cacheItem gomap gomap"
  epochs :: "64 word gomap"
  ttl :: int
  roleGate :: "(string \<Rightarrow> bool) option"
  jwtSecret :: string
  bypassStatic :: "(string \<Rightarrow> bool) option"

definition NewCache :: "int \<Rightarrow> ResponseCache" where
  "NewCache t = \<lparr>tenants = [], epochs = [], ttl = t, roleGate = None, jwtSecret = [], bypassStatic = None\<rparr>"

definition SetJWTSecret :: "string \<Rightarrow> ResponseCache \<Rightarrow> ResponseCache" where
  "SetJWTSecret s rc = rc\<lparr>jwtSecret := s\<rparr>"

definition SetBypassMatcher :: "(string \<Rightarrow> bool) option \<Rightarrow> ResponseCache \<Rightarrow> ResponseCache" where
  "SetBypassMatcher f rc = rc\<lparr>bypassStatic := f\<rparr>"

definition SetRoleCacheGate :: "(string \<Rightarrow> bool) \<Rightarrow> ResponseCache \<Rightarrow> ResponseCache" where
  "SetRoleCacheGate f rc = rc\<lparr>roleGate := Some f\<rparr>"

definition cacheable :: "ResponseCache \<Rightarrow> string \<Rightarrow> bool" where
  "cacheable rc role = (case roleGate rc of None \<Rightarrow> True | Some f \<Rightarrow> f role)"

definition epoch :: "ResponseCache \<Rightarrow> string \<Rightarrow> 64 word" where
  "epoch rc t = (case gm_get (epochs rc) t of Some e \<Rightarrow> e | None \<Rightarrow> 0)"

definition bucketOf :: "ResponseCache \<Rightarrow> string \<Rightarrow> cacheItem gomap" where
  "bucketOf rc t = (case gm_get (tenants rc) t of Some b \<Rightarrow> b | None \<Rightarrow> [])"

definition InvalidateTenant :: "string \<Rightarrow> ResponseCache \<Rightarrow> ResponseCache" where
  "InvalidateTenant t rc = rc\<lparr>tenants := gm_del t (tenants rc), epochs := gm_put t (epoch rc t + 1) (epochs rc)\<rparr>"

definition cacheGet :: "int \<Rightarrow> ResponseCache \<Rightarrow> string \<Rightarrow> string \<Rightarrow> cacheItem option" where
  "cacheGet now rc t key =
     (case gm_get (bucketOf rc t) key of
        None \<Rightarrow> None
      | Some item \<Rightarrow> if now > itExpiresAt item then None else Some item)"

text \<open>When \<open>set\<close> writes its item.\<close>

definition storesItem :: "ResponseCache \<Rightarrow> string \<Rightarrow> 64 word \<Rightarrow> bool" where
  "storesItem rc t asOf \<longleftrightarrow> epoch rc t = asOf \<and> length (bucketOf rc t) < maxPerTenant"

definition cacheSet :: "string \<Rightarrow> string \<Rightarrow> cacheItem \<Rightarrow> 64 word \<Rightarrow> ResponseCache \<Rightarrow> ResponseCache" where
  "cacheSet t key item asOf rc =
     (if epoch rc t \<noteq> asOf then rc
      else if storesItem rc t asOf then rc\<lparr>tenants := gm_put t (gm_put key item (bucketOf rc t)) (tenants rc)\<rparr>
      else rc\<lparr>tenants := gm_put t (bucketOf rc t) (tenants rc)\<rparr>)"

definition purgeExpired :: "int \<Rightarrow> ResponseCache \<Rightarrow> ResponseCache" where
  "purgeExpired now rc =
     rc\<lparr>tenants := filter (\<lambda>(_, b). b \<noteq> []) (map (\<lambda>(t, b). (t, filter (\<lambda>(_, item). \<not> now > itExpiresAt item) b)) (tenants rc))\<rparr>"

text \<open>\<open>compress\<close> is gzip, None when it fails.\<close>

definition gzipBytes :: "(string \<Rightarrow> string option) \<Rightarrow> string \<Rightarrow> string option" where
  "gzipBytes compress plain =
     (case compress plain of None \<Rightarrow> None | Some z \<Rightarrow> if length z \<ge> length plain then None else Some z)"

definition buildItem :: "(string \<Rightarrow> string option) \<Rightarrow> int \<Rightarrow> ResponseCache \<Rightarrow> int \<Rightarrow> string gomap \<Rightarrow> string \<Rightarrow> cacheItem" where
  "buildItem compress now rc status h plain =
     \<lparr>itStatus = status, itContentType = headerGet h ''Content-Type'', itEtag = headerGet h ''Etag'',
      itServerTiming = headerGet h ''Server-Timing'', secHeaders = captureSecurityHeaders h, itPlain = plain,
      gzipped = (if status = 200 \<and> plain \<noteq> [] then gzipBytes compress plain else None), itExpiresAt = now + ttl rc\<rparr>"

section \<open>Answers\<close>

record response =
  rsStatus :: int
  rsHeaders :: "string gomap"
  rsBody :: string

definition acceptsGzip :: "httpReq \<Rightarrow> bool" where
  "acceptsGzip r = ContainsStr (hqAcceptEncoding r) ''gzip''"

definition setIf :: "bool \<Rightarrow> string \<Rightarrow> string \<Rightarrow> string gomap \<Rightarrow> string gomap" where
  "setIf b k v h = (if b then gm_put k v h else h)"

text \<open>\<open>h0\<close> are the headers the outer chain has set.\<close>

definition itemHeaders :: "cacheItem \<Rightarrow> bool \<Rightarrow> string gomap \<Rightarrow> string gomap" where
  "itemHeaders item hit h0 =
     (let h1 = setIf (itEtag item \<noteq> []) ''Etag'' (itEtag item) (setIf (itContentType item \<noteq> []) ''Content-Type'' (itContentType item) h0);
          h2 = (if hit then gm_put ''Server-Timing'' (''cache;desc='' @ goq ''hit'') h1
                else setIf (itServerTiming item \<noteq> []) ''Server-Timing'' (itServerTiming item) h1);
          h3 = fold (\<lambda>(k, v). gm_put k v) (secHeaders item) h2
      in setIf hit ''X-Cache'' ''HIT'' h3)"

definition writeItem :: "httpReq \<Rightarrow> cacheItem \<Rightarrow> bool \<Rightarrow> string gomap \<Rightarrow> response" where
  "writeItem r item hit h0 =
     (let h = itemHeaders item hit h0
      in case gzipped item of
           Some z \<Rightarrow>
             if acceptsGzip r
             then \<lparr>rsStatus = itStatus item,
                   rsHeaders = gm_put ''Content-Length'' (Itoa (int (length z))) (gm_put ''Vary'' ''Accept-Encoding'' (gm_put ''Content-Encoding'' ''gzip'' h)),
                   rsBody = z\<rparr>
             else \<lparr>rsStatus = itStatus item, rsHeaders = h, rsBody = itPlain item\<rparr>
         | None \<Rightarrow> \<lparr>rsStatus = itStatus item, rsHeaders = h, rsBody = itPlain item\<rparr>)"

section \<open>The middleware\<close>

text \<open>What becomes of a request: it bypasses the cache, is answered from it, waits for a refresh under the tenant and
  key, or passes through and may be stored.  \<open>cachedFor\<close> are the claims the claims cache holds for a token.\<close>

datatype route = Bypass | Hit cacheItem | Refresh string string | Through string string

definition neverCached :: "ResponseCache \<Rightarrow> httpReq \<Rightarrow> bool" where
  "neverCached rc r \<longleftrightarrow>
     hqMethod r \<noteq> ''GET'' \<or> HasSuffix (hqPath r) ''/events'' \<or> HasPrefix (hqPath r) ''/api/files/'' \<or> HasPrefix (hqPath r) ''/files/signed/'' \<or>
     HasPrefix (hqPath r) ''/admin/'' \<or> (case bypassStatic rc of Some f \<Rightarrow> f (hqPath r) | None \<Rightarrow> False) \<or>
     hqCacheControl r = ''no-cache'' \<or> hqIfNoneMatch r \<noteq> []"

definition tokenOf :: "httpReq \<Rightarrow> string" where
  "tokenOf r = (case BearerToken (hqAuth r) of Some t \<Rightarrow> t | None \<Rightarrow> [])"

definition cacheRoute :: "(string \<Rightarrow> Claims option) \<Rightarrow> int \<Rightarrow> ResponseCache \<Rightarrow> httpReq \<Rightarrow> route" where
  "cacheRoute cachedFor now rc r =
     (if neverCached rc r then Bypass
      else case hqTenant r of
             None \<Rightarrow> Bypass
           | Some tc \<Rightarrow>
               (case (if tokenOf r = [] then None else cachedFor (tokenOf r)) of
                  None \<Rightarrow> Through tc (hqURI r)
                | Some c \<Rightarrow>
                    if cTenantID c \<noteq> tc then Bypass
                    else if \<not> cacheable rc (cRole c) then Bypass
                    else case cacheGet now rc tc (hqURI r) of
                           Some item \<Rightarrow> Hit item
                         | None \<Rightarrow> Refresh tc (hqURI r)))"

text \<open>The end of a refresh and of a pass: the response the handler gave, the epoch the run began in.\<close>

definition finishRefresh :: "(string \<Rightarrow> string option) \<Rightarrow> int \<Rightarrow> string \<Rightarrow> string \<Rightarrow> 64 word \<Rightarrow> response \<Rightarrow> ResponseCache \<Rightarrow> cacheItem \<times> ResponseCache" where
  "finishRefresh compress now t key asOf resp rc =
     (let item = buildItem compress now rc (rsStatus resp) (rsHeaders resp) (rsBody resp)
      in (item, if rsStatus resp = 200 \<and> rsBody resp \<noteq> [] then cacheSet t key item asOf rc else rc))"

definition finishThrough ::
  "(string \<Rightarrow> string option) \<Rightarrow> (string \<Rightarrow> Claims option) \<Rightarrow> int \<Rightarrow> httpReq \<Rightarrow> string \<Rightarrow> string \<Rightarrow> 64 word \<Rightarrow> response \<Rightarrow> ResponseCache \<Rightarrow> ResponseCache" where
  "finishThrough compress cachedFor now r t key asOf resp rc =
     (let role = (case cachedFor (tokenOf r) of Some c \<Rightarrow> cRole c | None \<Rightarrow> [])
      in if rsStatus resp = 200 \<and> rsBody resp \<noteq> [] \<and> cacheable rc role
         then cacheSet t key (buildItem compress now rc (rsStatus resp) (rsHeaders resp) (rsBody resp)) asOf rc
         else rc)"

section \<open>Runs, stores and invalidations in any order\<close>

text \<open>A run in flight: its tenant and key, the epoch it read, and how many invalidations of the tenant had happened
  when it began.  \<open>born\<close> remembers that number for each stored item, \<open>invs\<close> counts the invalidations.\<close>

record flight =
  fTenant :: string
  fKey :: string
  fAsOf :: "64 word"
  fSince :: nat

record sys =
  sysCache :: ResponseCache
  flights :: "flight list"
  invs :: "string \<Rightarrow> nat"
  born :: "string \<Rightarrow> string \<Rightarrow> nat"

definition beginRun :: "string \<Rightarrow> string \<Rightarrow> sys \<Rightarrow> sys" where
  "beginRun t k s = s\<lparr>flights := \<lparr>fTenant = t, fKey = k, fAsOf = epoch (sysCache s) t, fSince = invs s t\<rparr> # flights s\<rparr>"

definition endRun :: "flight \<Rightarrow> cacheItem option \<Rightarrow> sys \<Rightarrow> sys" where
  "endRun f itemo s =
     (case itemo of
        None \<Rightarrow> s\<lparr>flights := remove1 f (flights s)\<rparr>
      | Some item \<Rightarrow>
          s\<lparr>flights := remove1 f (flights s), sysCache := cacheSet (fTenant f) (fKey f) item (fAsOf f) (sysCache s),
            born := (if storesItem (sysCache s) (fTenant f) (fAsOf f)
                     then (born s)(fTenant f := (born s (fTenant f))(fKey f := fSince f)) else born s)\<rparr>)"

inductive cacheStep :: "sys \<Rightarrow> sys \<Rightarrow> bool" where
  start: "cacheStep s (beginRun t k s)"
| finish: "f \<in> set (flights s) \<Longrightarrow> cacheStep s (endRun f itemo s)"
| inval: "cacheStep s (s\<lparr>sysCache := InvalidateTenant t (sysCache s), invs := (invs s)(t := invs s t + 1)\<rparr>)"
| purge: "cacheStep s (s\<lparr>sysCache := purgeExpired now (sysCache s)\<rparr>)"
| gate: "cacheStep s (s\<lparr>sysCache := SetRoleCacheGate fn (sysCache s)\<rparr>)"

definition bootSys :: "ResponseCache \<Rightarrow> sys" where
  "bootSys rc = \<lparr>sysCache = rc, flights = [], invs = (\<lambda>_. 0), born = (\<lambda>_ _. 0)\<rparr>"

inductive reachSys :: "ResponseCache \<Rightarrow> sys \<Rightarrow> bool" for rc where
  boot: "reachSys rc (bootSys rc)"
| more: "reachSys rc s \<Longrightarrow> cacheStep s s' \<Longrightarrow> reachSys rc s'"

section \<open>Facts about buckets\<close>

lemma gm_get_filter_val:
  "gm_wf m \<Longrightarrow> gm_get (filter (\<lambda>(_, v). Q v) m) k = (case gm_get m k of Some v \<Rightarrow> if Q v then Some v else None | None \<Rightarrow> None)"
proof (induction m)
  case (Cons a m)
  then show ?case by (cases a) (auto simp: gm_wf_def map_of_eq_None_iff split: option.splits)
qed simp

lemma gm_get_map_snd: "gm_get (map (\<lambda>(k, v). (k, g v)) m) k = map_option g (gm_get m k)"
  by (induction m) auto

lemma gm_wf_filter: "gm_wf m \<Longrightarrow> gm_wf (filter P m)"
  by (simp add: gm_wf_def distinct_map_filter)

lemma gm_wf_map_snd: "gm_wf (map (\<lambda>(k, v). (k, g v)) m) = gm_wf m"
  by (simp add: gm_wf_def comp_def case_prod_unfold)

lemma length_gm_put: "length (gm_put k v m) \<le> Suc (length m)"
  unfolding gm_put_def by (induction m) auto

lemma bucketOf_Invalidate: "bucketOf (InvalidateTenant t rc) t' = (if t' = t then [] else bucketOf rc t')"
  by (simp add: bucketOf_def InvalidateTenant_def gm_get_del)

lemma epoch_Invalidate: "epoch (InvalidateTenant t rc) t' = (if t' = t then epoch rc t + 1 else epoch rc t')"
  by (simp add: epoch_def InvalidateTenant_def gm_get_put)

lemma bucketOf_set:
  "bucketOf (cacheSet t k item asOf rc) t' = (if t' = t \<and> storesItem rc t asOf then gm_put k item (bucketOf rc t) else bucketOf rc t')"
  by (auto simp: bucketOf_def cacheSet_def storesItem_def gm_get_put split: option.splits)

lemma epoch_set [simp]: "epoch (cacheSet t k item asOf rc) t' = epoch rc t'"
  by (simp add: epoch_def cacheSet_def)

lemma bucketOf_purge:
  assumes "gm_wf (tenants rc)"
  shows "bucketOf (purgeExpired now rc) t = filter (\<lambda>(_, item). \<not> now > itExpiresAt item) (bucketOf rc t)"
  using assms
  by (auto simp: bucketOf_def purgeExpired_def gm_get_filter_val gm_wf_map_snd gm_get_map_snd split: option.splits)

lemma epoch_purge [simp]: "epoch (purgeExpired now rc) t = epoch rc t"
  by (simp add: epoch_def purgeExpired_def)

lemma gate_same [simp]:
  "bucketOf (SetRoleCacheGate f rc) t = bucketOf rc t" "epoch (SetRoleCacheGate f rc) t = epoch rc t" "tenants (SetRoleCacheGate f rc) = tenants rc"
  by (simp_all add: bucketOf_def epoch_def SetRoleCacheGate_def)

lemma wf_tenants_step:
  "gm_wf (tenants rc) \<Longrightarrow> gm_wf (tenants (InvalidateTenant t rc))" "gm_wf (tenants rc) \<Longrightarrow> gm_wf (tenants (cacheSet t k item asOf rc))"
  "gm_wf (tenants rc) \<Longrightarrow> gm_wf (tenants (purgeExpired now rc))"
  by (auto simp: InvalidateTenant_def cacheSet_def purgeExpired_def gm_wf_filter gm_wf_map_snd)

section \<open>The invariant\<close>

definition freshIn :: "sys \<Rightarrow> string \<Rightarrow> bool" where
  "freshIn s t \<longleftrightarrow>
     epoch (sysCache s) t = of_nat (invs s t) \<and> gm_wf (bucketOf (sysCache s) t) \<and> length (bucketOf (sysCache s) t) \<le> maxPerTenant \<and>
     (\<forall>k. invs s t < 2 ^ 64 \<longrightarrow> gm_get (bucketOf (sysCache s) t) k \<noteq> None \<longrightarrow> born s t k = invs s t)"

definition cacheInv :: "sys \<Rightarrow> bool" where
  "cacheInv s \<longleftrightarrow>
     gm_wf (tenants (sysCache s)) \<and> (\<forall>t. freshIn s t) \<and>
     (\<forall>f \<in> set (flights s). fAsOf f = of_nat (fSince f) \<and> fSince f \<le> invs s (fTenant f))"

lemma same_epoch:
  assumes "(of_nat a :: 64 word) = of_nat b" "a \<le> b" "b < 2 ^ 64"
  shows "a = b"
proof -
  have "unat (of_nat n :: 64 word) = n" if "n \<le> b" for n using assms(3) that by (simp add: unsigned_of_nat take_bit_nat_eq_self)
  then show ?thesis using assms(1,2) by (metis order_refl)
qed

lemma freshIn_store:
  assumes inv: "cacheInv s" and f: "f \<in> set (flights s)"
  shows "freshIn (endRun f (Some item) s) t"
proof -
  have old: "freshIn s t" using inv by (simp add: cacheInv_def)
  show ?thesis
  proof (cases "t = fTenant f \<and> storesItem (sysCache s) (fTenant f) (fAsOf f)")
    case False
    then show ?thesis using old by (auto simp: freshIn_def endRun_def bucketOf_set)
  next
    case True
    then have t: "t = fTenant f" and st: "storesItem (sysCache s) t (fAsOf f)" by auto
    have "(of_nat (fSince f) :: 64 word) = of_nat (invs s t)" "fSince f \<le> invs s t"
      using st old inv f t by (auto simp: storesItem_def freshIn_def cacheInv_def)
    then have since: "invs s t < 2 ^ 64 \<Longrightarrow> fSince f = invs s t" by (rule same_epoch)
    show ?thesis
      using old st since t length_gm_put [of "fKey f" item "bucketOf (sysCache s) t"]
      by (auto simp: freshIn_def endRun_def bucketOf_set gm_get_put storesItem_def)
  qed
qed

lemma cacheInv_step:
  assumes "cacheInv s" "cacheStep s s'"
  shows "cacheInv s'"
  using assms(2)
proof (cases rule: cacheStep.cases)
  case (start t k)
  then show ?thesis using assms(1) by (auto simp: cacheInv_def freshIn_def beginRun_def)
next
  case (finish f itemo)
  have fl: "\<forall>g \<in> set (flights s'). fAsOf g = of_nat (fSince g) \<and> fSince g \<le> invs s' (fTenant g)"
    using assms(1) finish by (auto simp: cacheInv_def endRun_def split: option.splits dest: set_remove1_subset [THEN subsetD])
  show ?thesis
  proof (cases itemo)
    case None
    then show ?thesis using assms(1) finish fl by (auto simp: cacheInv_def freshIn_def endRun_def)
  next
    case (Some item)
    have "gm_wf (tenants (sysCache s'))" using assms(1) finish Some by (simp add: cacheInv_def endRun_def wf_tenants_step)
    then show ?thesis using finish Some fl freshIn_store [OF assms(1)] by (simp add: cacheInv_def)
  qed
next
  case (inval t)
  have "freshIn s' u" for u
    using assms(1) inval
    by (auto simp: cacheInv_def freshIn_def bucketOf_Invalidate epoch_Invalidate gm_wf_def maxPerTenant_def)
  then show ?thesis using assms(1) inval by (auto simp: cacheInv_def wf_tenants_step le_SucI)
next
  case (purge now)
  have wf: "gm_wf (tenants (sysCache s))" using assms(1) by (simp add: cacheInv_def)
  have "freshIn s' u" for u
  proof -
    have old: "freshIn s u" using assms(1) by (simp add: cacheInv_def)
    have "length (filter P (bucketOf (sysCache s) u)) \<le> maxPerTenant" for P
      using old order_trans [OF length_filter_le] unfolding freshIn_def by blast
    then show ?thesis
      using old purge by (auto simp: freshIn_def bucketOf_purge [OF wf] gm_wf_filter gm_get_filter_val split: option.splits)
  qed
  then show ?thesis using assms(1) purge by (simp add: cacheInv_def wf_tenants_step)
next
  case (gate fn)
  then show ?thesis using assms(1) by (auto simp: cacheInv_def freshIn_def)
qed

lemma reachSys_inv:
  assumes "reachSys rc s" "tenants rc = []" "epochs rc = []"
  shows "cacheInv s"
  using assms(1)
proof (induction rule: reachSys.induct)
  case boot
  then show ?case using assms(2,3) by (simp add: cacheInv_def freshIn_def bootSys_def bucketOf_def epoch_def gm_wf_def)
next
  case (more s s')
  then show ?case by (blast intro: cacheInv_step)
qed

section \<open>Properties\<close>

text \<open>C26: however reads, stores, invalidations and sweeps interleave, a stored response was produced by a run that
  began after the tenant's last invalidation, so a write that commits and then invalidates is never undone by a
  read in flight; and no tenant holds more than its thousand entries.\<close>

theorem cache_never_resurrects_stale_data:
  assumes "reachSys rc s" "tenants rc = []" "epochs rc = []" "invs s t < 2 ^ 64"
  shows "length (bucketOf (sysCache s) t) \<le> maxPerTenant \<and>
         (\<forall>now k item. cacheGet now (sysCache s) t k = Some item \<longrightarrow> born s t k = invs s t \<and> now \<le> itExpiresAt item)"
proof -
  have "freshIn s t" using reachSys_inv [OF assms(1-3)] by (simp add: cacheInv_def)
  then show ?thesis using assms(4) by (auto simp: freshIn_def cacheGet_def split: option.splits if_splits)
qed

text \<open>an answer from the cache goes only to a caller whose token the application has validated, for the tenant
  the entry belongs to, in a role whose responses may be shared, on a GET that neither opts out of caching nor
  streams.\<close>

theorem hits_stay_within_the_tenant:
  assumes "cacheRoute cachedFor now rc r = Hit item"
  shows "\<exists>tc c. hqTenant r = Some tc \<and> tokenOf r \<noteq> [] \<and> cachedFor (tokenOf r) = Some c \<and> cTenantID c = tc \<and> cacheable rc (cRole c) \<and>
           cacheGet now rc tc (hqURI r) = Some item \<and> hqMethod r = ''GET'' \<and> \<not> neverCached rc r"
  using assms by (auto simp: cacheRoute_def neverCached_def split: if_splits option.splits)

section \<open>Two roles and one entry\<close>

definition exItem :: cacheItem where
  "exItem = \<lparr>itStatus = 200, itContentType = ''application/json'', itEtag = [], itServerTiming = [], secHeaders = [], itPlain = ''[7]'',
     gzipped = None, itExpiresAt = 50\<rparr>"

definition exSys :: sys where
  "exSys = endRun (hd (flights (beginRun ''acme'' ''/api/posts'' (bootSys (NewCache 5))))) (Some exItem)
     (beginRun ''acme'' ''/api/posts'' (bootSys (NewCache 5)))"

lemma exSys_reached: "reachSys (NewCache 5) exSys"
proof -
  let ?s = "beginRun ''acme'' ''/api/posts'' (bootSys (NewCache 5))"
  have "reachSys (NewCache 5) ?s" by (rule reachSys.more [OF reachSys.boot cacheStep.start])
  then show ?thesis unfolding exSys_def
    by (rule reachSys.more) (rule cacheStep.finish, simp add: beginRun_def)
qed

theorem cache_never_resurrects_stale_data_witness:
  "cacheGet 10 (sysCache exSys) ''acme'' ''/api/posts'' = Some exItem \<and> born exSys ''acme'' ''/api/posts'' = invs exSys ''acme''"
proof -
  have hit: "cacheGet 10 (sysCache exSys) ''acme'' ''/api/posts'' = Some exItem" by code_simp
  have "tenants (NewCache 5) = []" "epochs (NewCache 5) = []" "invs exSys ''acme'' < 2 ^ 64"
    by (simp_all add: NewCache_def exSys_def endRun_def beginRun_def bootSys_def)
  from cache_never_resurrects_stale_data [OF exSys_reached this, THEN conjunct2] hit show ?thesis by blast
qed

text \<open>Two roles that may be cached; only one of them may read the posts.\<close>

definition exShared :: plainPolicy where
  "exShared = \<lparr>plainRoles =
     [(''editor'', emptyRolePolicy\<lparr>Resources := Some (GArr [GStr ''posts'']), Actions := [''read'']\<rparr>),
      (''guest'', emptyRolePolicy\<lparr>Resources := Some (GArr [GStr ''tags'']), Actions := [''read'']\<rparr>)], plainPublic = []\<rparr>"

definition exGuest :: "string list \<Rightarrow> Claims" where
  "exGuest paths = \<lparr>cUserID = ''u2'', cRole = ''guest'', cExternalClientID = [], cTenantID = ''acme'', cPaths = paths, cID = ''k2'', cExpiresAt = Some 100\<rparr>"

definition exCache :: ResponseCache where
  "exCache = SetRoleCacheGate (RoleCacheable (UnmarshalPolicy exShared)) (sysCache exSys)"

definition exAsked :: http_request where
  "exAsked = \<lparr>Method = ''GET'', Path = ''/api/posts'', reqClaims = Some \<lparr>clRole = ''guest'', clUserID = ''u2'', clExternalClientID = []\<rparr>,
     hdrUserRole = [], hdrUserID = [], hdrExternalClientID = []\<rparr>"

definition exGuestToken :: "string list \<Rightarrow> validator" where
  "exGuestToken paths now secret tok = (if secret = ''s3'' \<and> tok = ''tok'' \<and> now < 100 then Inr (exGuest paths) else Inl ''bad token'')"

text \<open>The guest's request at the fifth nanosecond, as authentication sees it when it is the first one.\<close>

definition exFirst :: "string list \<Rightarrow> string list \<Rightarrow> jwtOutcome \<times> claimsCache" where
  "exFirst paths revoked = jwtMiddleware id (exGuestToken paths) revoked ''s3'' None None [] 5 (exGet ''/api/posts'') []"

definition exSecond :: "string list \<Rightarrow> string list \<Rightarrow> route" where
  "exSecond paths revoked =
     cacheRoute (\<lambda>tok. fst (GetCachedClaims id 10 ''s3'' tok (snd (exFirst paths revoked)))) 10 exCache (exGet ''/api/posts'')"

lemma exHit: "cacheRoute (\<lambda>_. Some (exGuest [])) 10 exCache (exGet ''/api/posts'') = Hit exItem"
  by code_simp

theorem hits_stay_within_the_tenant_witness:
  "cacheRoute (\<lambda>_. Some (exGuest [])) 10 exCache (exGet ''/api/posts'') = Hit exItem \<and> cacheable exCache ''guest''"
  using exHit hits_stay_within_the_tenant [OF exHit] by (auto simp: exGuest_def)


end
