(* ===== verification/Resilience.thy ===== *)
theory Resilience
  imports Auth "HOL-Library.Multiset"
begin

text \<open>
  Load and failure: the admission cap, the tenant rate limiter, the memory guard, the breaker's settings and
  registry, and the query deadline of \<open>pkg/resilience\<close>.  The token bucket (\<open>x/time/rate\<close>), gobreaker and
  \<open>/proc/meminfo\<close> are parameters; Prometheus collectors and log lines are left out.  Requests are interleaved at
  their atomic operations.
\<close>

section \<open>Admission\<close>

record Admission =
  limit :: int
  exempt :: "(httpReq \<Rightarrow> bool) option"

definition AdmissionEnvVar :: string where
  "AdmissionEnvVar = ''APPXIMO_MAX_INFLIGHT''"

text \<open>An error, a disabled controller, or one with its cap.\<close>

definition NewAdmissionFromEnv :: "string \<Rightarrow> int \<Rightarrow> int \<Rightarrow> (httpReq \<Rightarrow> bool) option \<Rightarrow> string + Admission option" where
  "NewAdmissionFromEnv env cores poolConns ex =
     (let raw = TrimSpace env
      in if raw = [] \<or> raw = ''auto'' then Inr (Some \<lparr>limit = max 32 (wrap64 (4 * (cores + poolConns))), exempt = ex\<rparr>)
         else if raw = ''0'' then Inr None
         else case Atoi raw of
                Some n \<Rightarrow>
                  if n < 0
                  then Inl (AdmissionEnvVar @ ''='' @ goq raw @ '': must be a non-negative integer (0 disables, unset = auto) '' @ emDash @ '' refusing to boot rather than guess'')
                  else if n = 0 then Inr None else Inr (Some \<lparr>limit = n, exempt = ex\<rparr>)
              | None \<Rightarrow>
                  Inl (AdmissionEnvVar @ ''='' @ goq raw @ '': must be a non-negative integer (0 disables, unset = auto) '' @ emDash @ '' refusing to boot rather than guess''))"

definition covered :: "Admission \<Rightarrow> httpReq \<Rightarrow> bool" where
  "covered a r \<longleftrightarrow>
     hqMethod r \<noteq> ''OPTIONS'' \<and>
     \<not> (let p = hqPath r
        in HasPrefix p ''/health'' \<or> p = ''/readyz'' \<or> p = ''/livez'' \<or>
           list_ex (HasPrefix p) [''/metrics'', ''/debug'', ''/admin'', ''/editor'', ''/app'', ''/docs'', ''/openapi'']) \<and>
     \<not> HasSuffix (hqPath r) ''/events'' \<and> \<not> (case exempt a of Some f \<Rightarrow> f r | None \<Rightarrow> False)"

text \<open>Where a request stands: before its check, inside the handler outside the cap, counted and inside the handler,
  counted over the cap, taken back but not yet counted as rejected, answered.\<close>

datatype pc = Arrived | Uncounted | Serving | Over | Shed | Answered bool

record admSys =
  inflight :: int
  rejected :: int
  requests :: "(httpReq \<times> pc) list"

definition moveTo :: "nat \<Rightarrow> pc \<Rightarrow> admSys \<Rightarrow> admSys" where
  "moveTo i p s = s\<lparr>requests := (requests s)[i := (fst (requests s ! i), p)]\<rparr>"

definition stands :: "admSys \<Rightarrow> nat \<Rightarrow> pc \<Rightarrow> bool" where
  "stands s i p \<longleftrightarrow> i < length (requests s) \<and> snd (requests s ! i) = p"

text \<open>The middleware, one atomic operation of one request at a time.\<close>

inductive admStep :: "Admission \<Rightarrow> admSys \<Rightarrow> admSys \<Rightarrow> bool" for a where
  arrive: "admStep a s (s\<lparr>requests := requests s @ [(r, Arrived)]\<rparr>)"
| pass: "stands s i Arrived \<Longrightarrow> \<not> covered a (fst (requests s ! i)) \<Longrightarrow> admStep a s (moveTo i Uncounted s)"
| passed: "stands s i Uncounted \<Longrightarrow> admStep a s (moveTo i (Answered True) s)"
| add: "stands s i Arrived \<Longrightarrow> covered a (fst (requests s ! i)) \<Longrightarrow>
        admStep a s (moveTo i (if inflight s + 1 > limit a then Over else Serving) (s\<lparr>inflight := inflight s + 1\<rparr>))"
| takeBack: "stands s i Over \<Longrightarrow> admStep a s (moveTo i Shed (s\<lparr>inflight := inflight s - 1\<rparr>))"
| reject: "stands s i Shed \<Longrightarrow> admStep a s (moveTo i (Answered False) (s\<lparr>rejected := rejected s + 1\<rparr>))"
| serve: "stands s i Serving \<Longrightarrow> admStep a s (moveTo i (Answered True) (s\<lparr>inflight := inflight s - 1\<rparr>))"

inductive admReach :: "Admission \<Rightarrow> admSys \<Rightarrow> bool" for a where
  boot: "admReach a \<lparr>inflight = 0, rejected = 0, requests = []\<rparr>"
| step: "admReach a s \<Longrightarrow> admStep a s s' \<Longrightarrow> admReach a s'"

definition numAt :: "admSys \<Rightarrow> pc \<Rightarrow> int" where
  "numAt s p = int (count (mset (map snd (requests s))) p)"

lemma count_snd: "count (image_mset snd (mset xs)) p = length (filter (\<lambda>(_, q). q = p) xs)"
  by (induction xs) auto

lemma numAt_moveTo:
  assumes "stands s i p"
  shows "numAt (moveTo i p' s) q = numAt s q - (if q = p then 1 else 0) + (if q = p' then 1 else 0)"
proof -
  have i: "i < length (map snd (requests s))" "map snd (requests s) ! i = p" using assms by (auto simp: stands_def)
  have "map snd (requests (moveTo i p' s)) = (map snd (requests s))[i := p']" by (simp add: moveTo_def map_update)
  moreover have "p \<in># mset (map snd (requests s))" using i by (metis nth_mem set_mset_mset)
  ultimately show ?thesis
    using i(2) mset_update [OF i(1), of p'] by (auto simp: numAt_def of_nat_diff Suc_leI)
qed

lemma numAt_update [simp]: "numAt (s\<lparr>inflight := x\<rparr>) q = numAt s q" "numAt (s\<lparr>rejected := x\<rparr>) q = numAt s q"
  by (simp_all add: numAt_def)

lemma stands_update [simp]: "stands (s\<lparr>inflight := x\<rparr>) i q = stands s i q" "stands (s\<lparr>rejected := x\<rparr>) i q = stands s i q"
  by (simp_all add: stands_def)

lemma moveTo_counts [simp]: "inflight (moveTo i p s) = inflight s" "rejected (moveTo i p s) = rejected s"
  by (simp_all add: moveTo_def)

definition admInv :: "Admission \<Rightarrow> admSys \<Rightarrow> bool" where
  "admInv a s \<longleftrightarrow> inflight s = numAt s Serving + numAt s Over \<and> rejected s = numAt s (Answered False) \<and> numAt s Serving \<le> limit a"

lemma numAt_nonneg: "0 \<le> numAt s p"
  by (simp add: numAt_def)

lemma admInv_step:
  assumes "admInv a s" "admStep a s s'"
  shows "admInv a s'"
  using assms(2,1)
proof (cases rule: admStep.cases)
  case (arrive r)
  then show ?thesis using assms(1) by (simp add: admInv_def numAt_def)
next
  case (pass i)
  then show ?thesis using assms(1) by (simp add: admInv_def numAt_moveTo [OF pass(2)])
next
  case (passed i)
  then show ?thesis using assms(1) by (simp add: admInv_def numAt_moveTo [OF passed(2)])
next
  case (add i)
  have "stands (s\<lparr>inflight := inflight s + 1\<rparr>) i Arrived" using add(2) by simp
  from numAt_moveTo [OF this] show ?thesis
    using assms(1) add numAt_nonneg [of s Over] by (auto simp: admInv_def)
next
  case (takeBack i)
  have "stands (s\<lparr>inflight := inflight s - 1\<rparr>) i Over" using takeBack(2) by simp
  from numAt_moveTo [OF this] show ?thesis using assms(1) takeBack by (auto simp: admInv_def)
next
  case (reject i)
  have "stands (s\<lparr>rejected := rejected s + 1\<rparr>) i Shed" using reject(2) by simp
  from numAt_moveTo [OF this] show ?thesis using assms(1) reject by (auto simp: admInv_def)
next
  case (serve i)
  have "stands (s\<lparr>inflight := inflight s - 1\<rparr>) i Serving" using serve(2) by simp
  from numAt_moveTo [OF this] show ?thesis using assms(1) serve by (auto simp: admInv_def)
qed

lemma admReach_inv:
  assumes "admReach a s" "0 < limit a"
  shows "admInv a s"
  using assms(1)
proof (induction rule: admReach.induct)
  case boot
  then show ?case using assms(2) by (simp add: admInv_def numAt_def)
next
  case (step s s')
  then show ?case by (blast intro: admInv_step)
qed

text \<open>C31: however requests interleave at the atomic counter, never more than the limit are inside the handler at
  once, the counter is exactly the requests that hold or have just overshot a slot, and when every request is
  answered the counter is back at zero and every refusal is counted once: no slot leaks.\<close>

theorem admission_caps_and_leaks_nothing:
  assumes "admReach a s" "0 < limit a"
  shows "numAt s Serving \<le> limit a \<and> inflight s = numAt s Serving + numAt s Over \<and>
         (list_all (\<lambda>(_, p). p = Answered True \<or> p = Answered False) (requests s) \<longrightarrow>
            inflight s = 0 \<and> rejected s = int (length (filter (\<lambda>(_, p). p = Answered False) (requests s))))"
proof -
  have inv: "admInv a s" using assms by (rule admReach_inv)
  have none: "numAt s p = 0" if "list_all (\<lambda>(_, p). p = Answered True \<or> p = Answered False) (requests s)" "p = Serving \<or> p = Over" for p
    using that by (auto simp: numAt_def list_all_iff count_eq_zero_iff)
  have cnt: "numAt s (Answered False) = int (length (filter (\<lambda>(_, p). p = Answered False) (requests s)))"
    by (simp add: numAt_def count_snd)
  show ?thesis using inv none cnt assms(2) by (auto simp: admInv_def)
qed

definition exProbe :: httpReq where
  "exProbe = (exGet ''/api/posts'')\<lparr>hqTenant := None\<rparr>"

definition exCap :: Admission where
  "exCap = \<lparr>limit = 1, exempt = None\<rparr>"

theorem admission_caps_and_leaks_nothing_witness:
  "\<exists>s. admReach exCap s \<and> numAt s Serving = 1 \<and> numAt s Over = 1 \<and> inflight s = 2 \<and> numAt s Serving \<le> limit exCap"
proof -
  let ?s0 = "\<lparr>inflight = 0, rejected = 0, requests = [(exProbe, Arrived), (exProbe, Arrived)]\<rparr>"
  have 0: "admReach exCap ?s0"
    using admReach.step [OF admReach.step [OF admReach.boot admStep.arrive [of _ _ exProbe]] admStep.arrive [of _ _ exProbe]] by simp
  have cov: "covered exCap exProbe" by code_simp
  have 1: "admReach exCap \<lparr>inflight = 1, rejected = 0, requests = [(exProbe, Serving), (exProbe, Arrived)]\<rparr>"
    using admReach.step [OF 0 admStep.add [of _ 0]] cov by (simp add: stands_def moveTo_def exCap_def)
  have 2: "admReach exCap \<lparr>inflight = 2, rejected = 0, requests = [(exProbe, Serving), (exProbe, Over)]\<rparr>" (is "admReach _ ?s2")
    using admReach.step [OF 1 admStep.add [of _ 1]] cov by (simp add: stands_def moveTo_def exCap_def)
  have "numAt ?s2 Serving \<le> limit exCap"
    using admission_caps_and_leaks_nothing [OF 2] by (simp add: exCap_def)
  with 2 show ?thesis by (intro exI [of _ ?s2] conjI) (simp_all add: numAt_def)
qed

section \<open>The tenant limiter\<close>

text \<open>\<open>'b\<close> is a token bucket: \<open>newLimiter\<close> makes one from a rate and a burst, \<open>allow\<close> takes a token at a time.\<close>

record RateLimitConfig =
  RPS :: rat
  Burst :: int

record 'b buckets =
  newLimiter :: "rat \<Rightarrow> int \<Rightarrow> 'b"
  allowToken :: "int \<Rightarrow> 'b \<Rightarrow> bool \<times> 'b"

definition TierFree :: string where "TierFree = ''free''"
definition TierPro :: string where "TierPro = ''pro''"

definition tierLimits :: "rat gomap" where
  "tierLimits = [(TierFree, 100), (TierPro, 1000)]"

definition defaultMaxLimiters :: int where
  "defaultMaxLimiters = 10000"

record 'b TenantLimiter =
  limiters :: "'b gomap"
  tlCfg :: "RateLimitConfig option"
  maxLimiters :: int
  overflow :: "'b option"

definition NewTenantLimiter :: "'b TenantLimiter" where
  "NewTenantLimiter = \<lparr>limiters = [], tlCfg = None, maxLimiters = defaultMaxLimiters, overflow = None\<rparr>"

definition NewConfiguredLimiter :: "RateLimitConfig \<Rightarrow> 'b TenantLimiter" where
  "NewConfiguredLimiter cfg = \<lparr>limiters = [], tlCfg = Some cfg, maxLimiters = defaultMaxLimiters, overflow = None\<rparr>"

definition bucketRate :: "'b TenantLimiter \<Rightarrow> string \<Rightarrow> rat \<times> int" where
  "bucketRate lt tier =
     (let (r, burst) =
        (case tlCfg lt of
           Some cfg \<Rightarrow> (RPS cfg, Burst cfg)
         | None \<Rightarrow> (let r0 = (case gm_get tierLimits tier of Some x \<Rightarrow> x | None \<Rightarrow> 0); r = (if r0 = 0 then 100 else r0) in (r, \<lfloor>r\<rfloor>)))
      in (r, if burst < 1 then 1 else burst))"

definition limiterCap :: "'b TenantLimiter \<Rightarrow> int" where
  "limiterCap lt = (if maxLimiters lt \<le> 0 then defaultMaxLimiters else maxLimiters lt)"

text \<open>The section under the write lock: which bucket the tenant uses, None for the shared one.\<close>

definition installLimiter :: "'b buckets \<Rightarrow> string \<Rightarrow> string \<Rightarrow> 'b TenantLimiter \<Rightarrow> bool \<times> 'b TenantLimiter" where
  "installLimiter B tenantID tier lt =
     (let (r, burst) = bucketRate lt tier
      in if gm_has (limiters lt) tenantID then (True, lt)
         else if int (length (limiters lt)) \<ge> limiterCap lt
         then (False, lt\<lparr>overflow := Some (case overflow lt of Some b \<Rightarrow> b | None \<Rightarrow> newLimiter B r burst)\<rparr>)
         else (True, lt\<lparr>limiters := gm_put tenantID (newLimiter B r burst) (limiters lt)\<rparr>))"

text \<open>Taking the token, from the tenant's own bucket or from the shared one.\<close>

definition takeToken :: "'b buckets \<Rightarrow> int \<Rightarrow> string \<Rightarrow> bool \<Rightarrow> 'b TenantLimiter \<Rightarrow> bool \<times> 'b TenantLimiter" where
  "takeToken B now tenantID own lt =
     (if own
      then (case gm_get (limiters lt) tenantID of
              Some b \<Rightarrow> (let (ok, b') = allowToken B now b in (ok, lt\<lparr>limiters := gm_put tenantID b' (limiters lt)\<rparr>))
            | None \<Rightarrow> (False, lt))
      else (case overflow lt of
              Some b \<Rightarrow> (let (ok, b') = allowToken B now b in (ok, lt\<lparr>overflow := Some b'\<rparr>))
            | None \<Rightarrow> (False, lt)))"

definition AllowTenant :: "'b buckets \<Rightarrow> int \<Rightarrow> string \<Rightarrow> string \<Rightarrow> 'b TenantLimiter \<Rightarrow> bool \<times> 'b TenantLimiter" where
  "AllowTenant B now tenantID tier lt =
     (if gm_has (limiters lt) tenantID then takeToken B now tenantID True lt
      else let (own, lt1) = installLimiter B tenantID tier lt in takeToken B now tenantID own lt1)"

text \<open>The middleware: None lets the request through.\<close>

definition RateLimitMiddleware :: "'b buckets \<Rightarrow> int \<Rightarrow> string \<Rightarrow> httpReq \<Rightarrow> 'b TenantLimiter \<Rightarrow> (int \<times> string) option \<times> 'b TenantLimiter" where
  "RateLimitMiddleware B now tier r lt =
     (case hqTenant r of
        None \<Rightarrow> (None, lt)
      | Some tc \<Rightarrow> (let (ok, lt1) = AllowTenant B now tc tier lt in (if ok then None else Some (429, ''rate limit exceeded''), lt1)))"

definition RateLimit :: "'b buckets \<Rightarrow> int \<Rightarrow> httpReq \<Rightarrow> 'b TenantLimiter \<Rightarrow> (int \<times> string) option \<times> 'b TenantLimiter" where
  "RateLimit B now r lt = RateLimitMiddleware B now TierPro r lt"

text \<open>The steps of concurrent callers: the two critical sections in any order.\<close>

inductive limiterReach :: "'b buckets \<Rightarrow> 'b TenantLimiter \<Rightarrow> 'b TenantLimiter \<Rightarrow> bool" for B lt0 where
  boot: "limiterReach B lt0 lt0"
| install: "limiterReach B lt0 lt \<Longrightarrow> limiterReach B lt0 (snd (installLimiter B t tier lt))"
| token: "limiterReach B lt0 lt \<Longrightarrow> limiterReach B lt0 (snd (takeToken B now t own lt))"

lemma length_gm_put_has: "gm_has m k \<Longrightarrow> length (gm_put k v m) = length m"
  unfolding gm_put_def gm_has_def by (induction m) (auto split: if_splits)

lemma length_gm_put_new: "\<not> gm_has m k \<Longrightarrow> length (gm_put k v m) = Suc (length m)"
  unfolding gm_put_def gm_has_def by (induction m) (auto split: if_splits)

lemma limiterCap_update [simp]: "limiterCap (lt\<lparr>limiters := x\<rparr>) = limiterCap lt" "limiterCap (lt\<lparr>overflow := y\<rparr>) = limiterCap lt"
  by (simp_all add: limiterCap_def)

text \<open>A flood of tenant names never grows the table past its cap: the names past it share one bucket.\<close>

lemma limiter_table_bounded:
  assumes "limiterReach B lt0 lt" "limiters lt0 = []"
  shows "int (length (limiters lt)) \<le> limiterCap lt \<and> limiterCap lt = limiterCap lt0"
  using assms(1)
proof (induction rule: limiterReach.induct)
  case boot
  then show ?case using assms(2) by (simp add: limiterCap_def defaultMaxLimiters_def)
next
  case (install lt t tier)
  then show ?case
    by (auto simp: installLimiter_def length_gm_put_new Let_def split: prod.splits)
next
  case (token lt now t own)
  then show ?case
    by (auto simp: takeToken_def Let_def length_gm_put_has gm_has_def split: prod.splits option.splits)
qed

section \<open>The breaker\<close>

text \<open>The counts gobreaker hands to \<open>ReadyToTrip\<close>; the division of two \<open>uint32\<close> as \<open>float64\<close> is compared exactly,
  which a rounding of the quotient at the threshold could only decide otherwise for counts above \<open>2 ^ 50\<close>.\<close>

record Counts =
  Requests :: nat
  TotalFailures :: nat
  ConsecutiveFailures :: nat

definition ReadyToTrip :: "Counts \<Rightarrow> bool" where
  "ReadyToTrip c \<longleftrightarrow> ConsecutiveFailures c \<ge> 20 \<or> (Requests c \<ge> 10 \<and> (of_nat (TotalFailures c) / of_nat (Requests c) :: rat) \<ge> 6 / 10)"

definition IsSuccessful :: "('err \<Rightarrow> bool) option \<Rightarrow> 'err option \<Rightarrow> bool" where
  "IsSuccessful isFailure err =
     (case err of None \<Rightarrow> True | Some e \<Rightarrow> (case isFailure of Some f \<Rightarrow> \<not> f e | None \<Rightarrow> False))"

datatype breakerState = Closed | HalfOpen | Open

fun stateString :: "breakerState \<Rightarrow> string" where
  "stateString Closed = ''closed''"
| "stateString HalfOpen = ''half-open''"
| "stateString Open = ''open''"

definition stateNum :: "string \<Rightarrow> int" where
  "stateNum s = (if s = ''open'' then 2 else if s = ''half-open'' then 1 else 0)"

record BreakerStatus =
  bsState :: string
  Opens :: nat
  LastChange :: int
  LastOpened :: "int option"
  Transitions' :: nat

definition recordStateChange :: "int \<Rightarrow> string \<Rightarrow> breakerState \<Rightarrow> BreakerStatus gomap \<Rightarrow> BreakerStatus gomap" where
  "recordStateChange now name to reg =
     (let st = (case gm_get reg name of
                  Some x \<Rightarrow> x
                | None \<Rightarrow> \<lparr>bsState = [], Opens = 0, LastChange = 0, LastOpened = None, Transitions' = 0\<rparr>);
          st1 = st\<lparr>bsState := stateString to, LastChange := now, Transitions' := Transitions' st + 1\<rparr>
      in gm_put name (if to = Open then st1\<lparr>Opens := Opens st1 + 1, LastOpened := Some now\<rparr> else st1) reg)"

definition BreakerSnapshot :: "BreakerStatus gomap \<Rightarrow> BreakerStatus list" where
  "BreakerSnapshot reg = map snd reg"

text \<open>The gauge always shows the state last entered, and opening is what \<open>Opens\<close> counts.\<close>

lemma registry_follows_state:
  "\<exists>st. gm_get (recordStateChange now name to reg) name = Some st \<and> stateNum (bsState st) = (case to of Closed \<Rightarrow> 0 | HalfOpen \<Rightarrow> 1 | Open \<Rightarrow> 2) \<and>
        (to = Open \<longrightarrow> LastOpened st = Some now)"
  by (auto simp: recordStateChange_def gm_get_put Let_def stateNum_def split: breakerState.splits)

text \<open>\<open>execute\<close> is gobreaker's: it may refuse to run the function.  The answer is a status and a body.\<close>

definition CircuitBreakerMiddleware ::
  "('c \<Rightarrow> breakerState) \<Rightarrow> ('c \<Rightarrow> bool) \<Rightarrow> (bool \<Rightarrow> 'c \<Rightarrow> 'c) \<Rightarrow> (int \<times> string) \<Rightarrow> 'c \<Rightarrow> (int \<times> string) \<times> 'c" where
  "CircuitBreakerMiddleware state admits report handler cb =
     (if state cb = Open then ((503, ''service temporarily unavailable''), cb)
      else if \<not> admits cb then ((200, []), cb)
      else (handler, report (fst handler < 500) cb))"

text \<open>A probe the half-open breaker refuses is answered with the default status and an empty body.\<close>

lemma refused_probe_answers_200:
  "state cb = HalfOpen \<Longrightarrow> \<not> admits cb \<Longrightarrow> fst (CircuitBreakerMiddleware state admits report handler cb) = (200, [])"
  by (simp add: CircuitBreakerMiddleware_def)

section \<open>The query deadline\<close>

text \<open>\<open>cancelled\<close> tells whether the caller's context ends during the pause before the retry, with its error.\<close>

definition WithQueryTimeout :: "('w \<Rightarrow> goError option \<times> 'w) \<Rightarrow> (goError \<Rightarrow> bool) \<Rightarrow> ('w \<Rightarrow> goError option \<times> 'w) \<Rightarrow> 'w \<Rightarrow> goError option \<times> 'w" where
  "WithQueryTimeout attempt isDeadline cancelled w =
     (case attempt w of
        (None, w1) \<Rightarrow> (None, w1)
      | (Some err, w1) \<Rightarrow>
          if \<not> isDeadline err then (Some err, w1)
          else (case cancelled w1 of
                  (Some cerr, w2) \<Rightarrow> (Some cerr, w2)
                | (None, w2) \<Rightarrow> attempt w2))"

section \<open>The memory guard\<close>

definition MemoryGuardEnvVar :: string where
  "MemoryGuardEnvVar = ''APPXIMO_MEMORY_GUARD_MIN_MB''"

text \<open>\<open>strings.Cut\<close> at the first colon.\<close>

definition cutColon :: "string \<Rightarrow> (string \<times> string) option" where
  "cutColon line =
     (let key = takeWhile (\<lambda>c. c \<noteq> CHR '':'') line
      in if length key = length line then None else Some (key, drop (length key + 1) line))"

fun meminfoLines :: "string list \<Rightarrow> int \<times> int option \<times> int \<Rightarrow> int \<times> int option \<times> int" where
  "meminfoLines [] acc = acc"
| "meminfoLines (line # rest) (memTotal, memAvail, swapFree) =
     meminfoLines rest
       (case cutColon line of
          None \<Rightarrow> (memTotal, memAvail, swapFree)
        | Some (key, r) \<Rightarrow>
            (case Appx_Prelude.Fields r of
               [] \<Rightarrow> (memTotal, memAvail, swapFree)
             | x # _ \<Rightarrow>
                 (case Atoi x of
                    None \<Rightarrow> (memTotal, memAvail, swapFree)
                  | Some kb \<Rightarrow>
                      if key = ''MemTotal'' then (wrap64 (kb * 1024), memAvail, swapFree)
                      else if key = ''MemAvailable'' then (memTotal, Some (wrap64 (kb * 1024)), swapFree)
                      else if key = ''SwapFree'' then (memTotal, memAvail, wrap64 (kb * 1024))
                      else (memTotal, memAvail, swapFree))))"

text \<open>A file that cannot be read is None.\<close>

definition readMeminfo :: "string list option \<Rightarrow> (int \<times> int) option" where
  "readMeminfo file =
     (case file of
        None \<Rightarrow> None
      | Some ls \<Rightarrow>
          (case meminfoLines ls (0, None, 0) of
             (memTotal, Some avail, swapFree) \<Rightarrow> Some (memTotal, wrap64 (avail + swapFree))
           | (_, None, _) \<Rightarrow> None))"

record MemoryGuard =
  minBytes :: int
  interval :: int
  sampledAt :: int
  available :: int
  lastRefuse :: int
  GraphQLMutation :: "(string \<Rightarrow> bool) option"

definition NewMemoryGuard :: "int \<Rightarrow> int \<Rightarrow> MemoryGuard" where
  "NewMemoryGuard minB iv = \<lparr>minBytes = minB, interval = iv, sampledAt = 0, available = - 1, lastRefuse = 0, GraphQLMutation = None\<rparr>"

text \<open>\<open>int64\<close> division truncates; the totals of \<open>/proc/meminfo\<close> are not negative.\<close>

definition autoFloorMB :: "int \<Rightarrow> int" where
  "autoFloorMB memTotal = max 32 (memTotal div 1048576 * 2 div 100)"

definition NewMemoryGuardFromEnv :: "string \<Rightarrow> string list option \<Rightarrow> string + MemoryGuard option" where
  "NewMemoryGuardFromEnv env meminfo =
     (let raw = TrimSpace env
      in if meminfo = None
         then (if raw \<noteq> [] \<and> raw \<noteq> ''0''
               then Inl (MemoryGuardEnvVar @ ''='' @ goq raw @ '' but /proc/meminfo is not readable on this host '' @ emDash @ '' the guard cannot measure anything here; unset it'')
               else Inr None)
         else case (if raw = [] then Inr (map_option (autoFloorMB \<circ> fst) (readMeminfo meminfo))
                    else case Atoi raw of
                           Some n \<Rightarrow>
                             if n < 0
                             then Inl (MemoryGuardEnvVar @ ''='' @ goq raw @ '' is not a non-negative integer (MiB floor of MemAvailable+SwapFree under which writes answer 503; 0 disables)'')
                             else Inr (Some n)
                         | None \<Rightarrow>
                             Inl (MemoryGuardEnvVar @ ''='' @ goq raw @ '' is not a non-negative integer (MiB floor of MemAvailable+SwapFree under which writes answer 503; 0 disables)'')) of
                Inl e \<Rightarrow> Inl e
              | Inr None \<Rightarrow> Inr None
              | Inr (Some minMB) \<Rightarrow> if minMB = 0 then Inr None else Inr (Some (NewMemoryGuard (wrap64 (minMB * 1048576)) 1000000000)))"

text \<open>One caller that wins the right to sample; \<open>stale\<close> is the test the others make too.\<close>

definition stale :: "int \<Rightarrow> MemoryGuard \<Rightarrow> bool" where
  "stale now g \<longleftrightarrow> available g < 0 \<or> now - sampledAt g \<ge> interval g"

definition sampleNow :: "int \<Rightarrow> string list option \<Rightarrow> MemoryGuard \<Rightarrow> MemoryGuard" where
  "sampleNow now meminfo g =
     (case readMeminfo meminfo of
        Some (_, avail) \<Rightarrow> g\<lparr>available := avail, sampledAt := now\<rparr>
      | None \<Rightarrow> g\<lparr>available := - 1, sampledAt := now\<rparr>)"

definition currentMem :: "int \<Rightarrow> bool \<Rightarrow> string list option \<Rightarrow> MemoryGuard \<Rightarrow> MemoryGuard" where
  "currentMem now wins meminfo g = (if stale now g \<and> wins then sampleNow now meminfo g else g)"

definition AllowWrite :: "MemoryGuard \<Rightarrow> bool" where
  "AllowWrite g \<longleftrightarrow> available g < 0 \<or> available g \<ge> minBytes g"

definition isGuardedWrite :: "httpReq \<Rightarrow> bool" where
  "isGuardedWrite r \<longleftrightarrow>
     (hqMethod r = ''POST'' \<or> hqMethod r = ''PUT'' \<or> hqMethod r = ''PATCH'' \<or> hqMethod r = ''DELETE'') \<and>
     (HasPrefix (hqPath r) ''/api/'' \<or> hqPath r = ''/graphql'')"

definition graphqlBodyCap :: nat where
  "graphqlBodyCap = 1048576"

text \<open>\<open>body\<close> is what reading the request's body gives, None on an error.  True lets the request through.\<close>

definition memoryGuardPasses :: "int \<Rightarrow> bool \<Rightarrow> string list option \<Rightarrow> httpReq \<Rightarrow> string option \<Rightarrow> MemoryGuard \<Rightarrow> bool \<times> MemoryGuard" where
  "memoryGuardPasses now wins meminfo r body g =
     (if \<not> isGuardedWrite r then (True, g)
      else let g1 = currentMem now wins meminfo g
           in if AllowWrite g1 then (True, g1)
              else (case (GraphQLMutation g1, body) of
                      (Some mutates, Some b) \<Rightarrow> hqPath r = ''/graphql'' \<and> length b \<le> graphqlBodyCap \<and> \<not> mutates b
                    | _ \<Rightarrow> False,
                    g1))"

text \<open>Only a write is ever refused, and only on a measurement that is below the floor.\<close>

lemma memory_guard_refuses_only_measured_writes:
  assumes "memoryGuardPasses now wins meminfo r body g = (False, g')"
  shows "isGuardedWrite r \<and> 0 \<le> available g' \<and> available g' < minBytes g'"
  using assms by (auto simp: memoryGuardPasses_def AllowWrite_def Let_def split: if_splits)

text \<open>A floor of \<open>2 ^ 43\<close> MiB overflows the shift: the guard is on and lets every write through.\<close>

lemma huge_floor_disables_guard:
  "wrap64 (8796093022208 * 1048576) = - (2 ^ 63) \<and> (available g \<ge> - (2 ^ 63) \<longrightarrow> AllowWrite (g\<lparr>minBytes := wrap64 (8796093022208 * 1048576)\<rparr>))"
  by (simp add: wrap64_def AllowWrite_def)

end
