(* ===== verification/ValidateField.thy ===== *)
theory ValidateField
  imports WriteRules "HOL-Library.Multiset"
begin

text \<open>
  The field level of the schema validator (\<open>pkg/schema/validator.go\<close>): identifiers, the closed sets of the
  schema language, and every check one field declaration goes through.  An error carries its path, its rule
  and the offending and expected values; the human texts (\<open>Message\<close>, \<open>Fix\<close>) are left out, so two errors
  that differ in their text only are the same value here.
\<close>

section \<open>Errors and closed sets\<close>

record ValidationError =
  veField :: string
  veRule :: string
  veGot :: string
  veExpected :: "string list"

abbreviation plainErr :: "string \<Rightarrow> ValidationError" where
  "plainErr path \<equiv> \<lparr>veField = path, veRule = [], veGot = [], veExpected = []\<rparr>"

abbreviation ruleErr :: "string \<Rightarrow> string \<Rightarrow> string \<Rightarrow> string list \<Rightarrow> ValidationError" where
  "ruleErr path rule got expected \<equiv> \<lparr>veField = path, veRule = rule, veGot = got, veExpected = expected\<rparr>"

abbreviation errIf :: "bool \<Rightarrow> ValidationError \<Rightarrow> ValidationError list" where
  "errIf b e \<equiv> (if b then [e] else [])"

lemma errIf_Nil [simp]: "errIf b e = [] \<longleftrightarrow> \<not> b"
  by simp

definition resourceNameRe :: "string \<Rightarrow> bool" where
  "resourceNameRe = bareIdent"

definition fieldNameRe :: "string \<Rightarrow> bool" where
  "fieldNameRe = bareIdent"

definition throughNameRe :: "string \<Rightarrow> bool" where
  "throughNameRe s = (case s of [] \<Rightarrow> False | c # cs \<Rightarrow> identStart c \<and> list_all (\<lambda>x. identPart x \<or> x = CHR ''-'') cs)"

definition validFieldTypes :: "string list" where
  "validFieldTypes = [''string'', ''int'', ''int64'', ''float64'', ''bool'', ''uuid'', ''time'', ''text'', ''json'', ''jsonb'', ''file'']"

definition OnDeleteCascade :: string where "OnDeleteCascade = ''cascade''"
definition OnDeleteSetNull :: string where "OnDeleteSetNull = ''set_null''"
definition OnUpdateSetNull :: string where "OnUpdateSetNull = ''set_null''"

definition validOnDeleteActions :: "string list" where
  "validOnDeleteActions = [''restrict'', OnDeleteCascade, OnDeleteSetNull]"

definition validOnUpdateActions :: "string list" where
  "validOnUpdateActions = [''restrict'', ''cascade'', OnUpdateSetNull]"

definition validFormats :: "string list" where
  "validFormats = [''email'', ''uuid'', ''url'', ''date'', FormatTimezone]"

definition numericTypes :: "string list" where
  "numericTypes = [''int'', ''int64'', ''float64'']"

definition stringTypes :: "string list" where
  "stringTypes = [''string'', ''text'']"

definition resourceNamesList :: "APISchema \<Rightarrow> string list" where
  "resourceNamesList s = sortedKeys (asResources s)"

definition fieldNamesList :: "ResourceSchema \<Rightarrow> string list" where
  "fieldNamesList res = sort (''id'' # map fst (Fields res))"

definition roleNamesList :: "APISchema \<Rightarrow> string list" where
  "roleNamesList s = sortedKeys (plainRoles (asRBAC s))"

section \<open>Rules, defaults and lifecycles of a field\<close>

definition validateFieldRules :: "Std \<Rightarrow> string \<Rightarrow> FieldDef \<Rightarrow> ValidationError list" where
  "validateFieldRules std fieldPrefix fd =
     (if Pattern fd = [] then []
      else errIf (fType fd \<notin> set stringTypes \<or> length (Pattern fd) > MaxPatternLength \<or> \<not> reCompiles std (Pattern fd))
             (plainErr (fieldPrefix @ ''.pattern''))) @
     (if MinLength fd = None \<and> MaxLength fd = None then []
      else errIf (fType fd \<notin> set stringTypes) (plainErr fieldPrefix) @
           errIf (case MinLength fd of Some a \<Rightarrow> a < 0 | None \<Rightarrow> False) (plainErr (fieldPrefix @ ''.minLength'')) @
           errIf (case MaxLength fd of Some b \<Rightarrow> b < 0 | None \<Rightarrow> False) (plainErr (fieldPrefix @ ''.maxLength'')) @
           errIf (case (MinLength fd, MaxLength fd) of (Some a, Some b) \<Rightarrow> a > b | _ \<Rightarrow> False) (plainErr fieldPrefix)) @
     (if fMin fd = None \<and> fMax fd = None then []
      else errIf (fType fd \<notin> set numericTypes) (plainErr fieldPrefix) @
           errIf (case (fMin fd, fMax fd) of (Some a, Some b) \<Rightarrow> a > b | _ \<Rightarrow> False) (plainErr fieldPrefix)) @
     (if Format fd = [] then []
      else errIf (fType fd \<notin> set stringTypes \<or> Format fd \<notin> set validFormats) (plainErr (fieldPrefix @ ''.format'')))"

text \<open>\<open>int64(f)\<close> truncates; out of range it is the smallest integer, as on amd64.\<close>

definition truncRat :: "rat \<Rightarrow> int" where
  "truncRat f = (if f < 0 then - \<lfloor>- f\<rfloor> else \<lfloor>f\<rfloor>)"

definition int64OfFloat :: "rat \<Rightarrow> int" where
  "int64OfFloat f = (if in_int64 (truncRat f) then truncRat f else - (2 ^ 63))"

definition defaultFits :: "Std \<Rightarrow> string \<Rightarrow> goany \<Rightarrow> bool" where
  "defaultFits std ty v =
     (if ty = ''string'' \<or> ty = ''text'' then (case v of GStr _ \<Rightarrow> True | _ \<Rightarrow> False)
      else if ty = ''int'' \<or> ty = ''int64'' then (case v of GFloat f \<Rightarrow> f = float64OfInt (int64OfFloat f) | _ \<Rightarrow> False)
      else if ty = ''float64'' then (case v of GFloat _ \<Rightarrow> True | _ \<Rightarrow> False)
      else if ty = ''bool'' then (case v of GBool _ \<Rightarrow> True | _ \<Rightarrow> False)
      else if ty = ''uuid'' then (case v of GStr s \<Rightarrow> uuidOk std s | _ \<Rightarrow> False)
      else if ty = ''file'' then False
      else if ty = ''time'' then (case v of GStr _ \<Rightarrow> True | _ \<Rightarrow> False)
      else True)"

definition validateDefault :: "Std \<Rightarrow> string \<Rightarrow> FieldDef \<Rightarrow> ValidationError list" where
  "validateDefault std fieldPrefix fd =
     (let e = plainErr (fieldPrefix @ ''.default'')
      in if fDefault fd = GNil then []
         else if Enabled (Auto fd) then [e]
         else if Enum fd \<noteq> []
         then (case fDefault fd of GStr s \<Rightarrow> errIf (s \<notin> set (Enum fd)) e | _ \<Rightarrow> [e])
         else errIf (\<not> defaultFits std (fType fd) (fDefault fd)) e)"

fun pendingErrors :: "StateMachine \<Rightarrow> string \<Rightarrow> string list \<Rightarrow> string list \<Rightarrow> ValidationError list" where
  "pendingErrors sm path seen [] = []"
| "pendingErrors sm path seen (st # sts) =
     (if st = [] then [ruleErr path ''state_machine_pending_empty'' [] []]
      else if st \<notin> set (KnownStates sm) then [ruleErr path ''state_machine_pending_unknown'' st (sort (KnownStates sm))]
      else if IsTerminal sm st then [ruleErr path ''state_machine_pending_terminal'' st []]
      else if st \<in> set seen then [ruleErr path ''state_machine_pending_duplicate'' st []]
      else []) @ pendingErrors sm path (st # seen) sts"

definition validateStateMachine :: "string \<Rightarrow> FieldDef \<Rightarrow> ValidationError list" where
  "validateStateMachine fieldPrefix fd =
     (case fStateMachine fd of
        None \<Rightarrow> []
      | Some sm \<Rightarrow>
          let smPrefix = fieldPrefix @ ''.state_machine''
          in if fType fd \<notin> set stringTypes then [plainErr smPrefix]
             else errIf (Initial sm = []) (plainErr (smPrefix @ ''.initial'')) @
                  concat (map (\<lambda>st. errIf (st = []) (plainErr (smPrefix @ ''.initial''))) (Initial sm)) @
                  (if Enum fd = [] then []
                   else map (\<lambda>st. plainErr smPrefix) (filter (\<lambda>st. st \<notin> set (Enum fd)) (sort (KnownStates sm)))) @
                  (case fDefault fd of GStr ds \<Rightarrow> errIf (\<not> IsInitial sm ds) (plainErr (fieldPrefix @ ''.default'')) | _ \<Rightarrow> []) @
                  (case Pending sm of None \<Rightarrow> [] | Some p \<Rightarrow> pendingErrors sm (smPrefix @ ''.pending'') [] p))"

section \<open>References\<close>

text \<open>The counters of \<open>sameStringSet\<close> are the elements still to be matched.\<close>

fun countDown :: "string list \<Rightarrow> string list \<Rightarrow> bool" where
  "countDown seen [] = True"
| "countDown seen (x # b) = (if x \<in> set seen then countDown (remove1 x seen) b else False)"

definition sameStringSet :: "string list \<Rightarrow> string list \<Rightarrow> bool" where
  "sameStringSet a b \<longleftrightarrow> length a = length b \<and> countDown a b"

definition columnsAreUniqueOnTarget :: "ResourceSchema \<Rightarrow> string list \<Rightarrow> bool" where
  "columnsAreUniqueOnTarget res cols =
     ((case cols of
         [c] \<Rightarrow> c = ''id'' \<or> (case gm_get (Fields res) c of Some f \<Rightarrow> fUnique f | None \<Rightarrow> False)
       | _ \<Rightarrow> False) \<or>
      list_ex (\<lambda>idx. idUnique idx \<and> sameStringSet (idFields idx) cols) (rsIndexes res))"

definition pgKindForAPIType :: "string \<Rightarrow> string" where
  "pgKindForAPIType t =
     (if t = ''string'' \<or> t = ''text'' \<or> t = ''json'' then ''text''
      else if t = ''jsonb'' then ''jsonb''
      else if t = ''int'' then ''integer''
      else if t = ''int64'' then ''bigint''
      else if t = ''float64'' then ''double''
      else if t = ''bool'' then ''bool''
      else if t = ''uuid'' \<or> t = ''file'' then ''uuid''
      else if t = ''time'' then ''timestamptz''
      else [])"

definition refColumnKind :: "ResourceSchema \<Rightarrow> string \<Rightarrow> string" where
  "refColumnKind res col =
     (if col = ''id'' then ''uuid''
      else case gm_get (Fields res) col of Some f \<Rightarrow> pgKindForAPIType (fType f) | None \<Rightarrow> [])"

section \<open>One field\<close>

definition fieldNameErrors :: "string \<Rightarrow> string \<Rightarrow> FieldDef \<Rightarrow> ValidationError list" where
  "fieldNameErrors fieldPrefix fieldName fd =
     errIf (\<not> fieldNameRe fieldName) (plainErr fieldPrefix) @
     errIf (fieldName = ''id'') (ruleErr fieldPrefix ''reserved_field_name'' ''id'' []) @
     errIf (fType fd \<notin> set validFieldTypes)
       (ruleErr (fieldPrefix @ ''.type'') ''invalid_type'' (fType fd) (sort validFieldTypes))"

definition autoErrors :: "string \<Rightarrow> FieldDef \<Rightarrow> ValidationError list" where
  "autoErrors fieldPrefix fd =
     (if Auto fd \<in> {AutoOff, AutoLegacy, AutoCreate, AutoUpdate}
      then errIf (Enabled (Auto fd) \<and> fType fd \<noteq> ''time'')
             (ruleErr (fieldPrefix @ ''.auto'') ''auto_requires_time'' (fType fd) [''time''])
      else [ruleErr (fieldPrefix @ ''.auto'') ''invalid_auto'' (Auto fd)
              [''true'', ''false'', [CHR 0x22] @ ''create'' @ [CHR 0x22], [CHR 0x22] @ ''update'' @ [CHR 0x22]]])"

definition relationTargetErrors :: "APISchema \<Rightarrow> string \<Rightarrow> FieldDef \<Rightarrow> ValidationError list" where
  "relationTargetErrors s fieldPrefix fd =
     errIf (Relation fd \<noteq> [] \<and> \<not> gm_has (asResources s) (Relation fd))
       (ruleErr (fieldPrefix @ ''.relation'') ''unknown_relation_target'' (Relation fd) (resourceNamesList s))"

definition fileFieldErrors :: "string \<Rightarrow> FieldDef \<Rightarrow> ValidationError list" where
  "fileFieldErrors fieldPrefix fd =
     (if fType fd = ''file''
      then errIf (Relation fd \<noteq> []) (plainErr (fieldPrefix @ ''.relation'')) @
           errIf (References fd \<noteq> []) (plainErr (fieldPrefix @ ''.references'')) @
           errIf (fOnUpdate fd \<noteq> []) (plainErr (fieldPrefix @ ''.on_update'')) @
           errIf (Enabled (Auto fd)) (plainErr (fieldPrefix @ ''.auto'')) @
           errIf (Enum fd \<noteq> []) (plainErr (fieldPrefix @ ''.enum'')) @
           errIf (fOnDelete fd = OnDeleteCascade) (plainErr (fieldPrefix @ ''.on_delete'')) @
           map (\<lambda>_. plainErr (fieldPrefix @ ''.accept'')) (filter (\<lambda>entry. \<not> validAcceptEntry entry) (Accept fd)) @
           errIf (MaxBytes fd < 0) (plainErr (fieldPrefix @ ''.max_bytes''))
      else errIf (Accept fd \<noteq> []) (plainErr (fieldPrefix @ ''.accept'')) @
           errIf (MaxBytes fd \<noteq> 0) (plainErr (fieldPrefix @ ''.max_bytes'')))"

definition onDeleteErrors :: "string \<Rightarrow> FieldDef \<Rightarrow> ValidationError list" where
  "onDeleteErrors fieldPrefix fd =
     errIf (fOnDelete fd \<noteq> [] \<and>
            (Relation fd = [] \<and> fType fd \<noteq> ''file'' \<or> fOnDelete fd \<notin> set validOnDeleteActions \<or>
             fOnDelete fd = OnDeleteSetNull \<and> Required fd))
       (plainErr (fieldPrefix @ ''.on_delete''))"

definition onUpdateErrors :: "string \<Rightarrow> FieldDef \<Rightarrow> ValidationError list" where
  "onUpdateErrors fieldPrefix fd =
     errIf (fOnUpdate fd \<noteq> [] \<and>
            (Relation fd = [] \<or> fOnUpdate fd \<notin> set validOnUpdateActions \<or> fOnUpdate fd = OnUpdateSetNull \<and> Required fd))
       (plainErr (fieldPrefix @ ''.on_update''))"

definition referencesErrors :: "APISchema \<Rightarrow> string \<Rightarrow> FieldDef \<Rightarrow> ValidationError list" where
  "referencesErrors s fieldPrefix fd =
     (let p = fieldPrefix @ ''.references''
      in if References fd = [] \<or> References fd = ''id'' then []
         else if Relation fd = [] then [plainErr p]
         else case gm_get (asResources s) (Relation fd) of
                None \<Rightarrow> []
              | Some target \<Rightarrow>
                  if \<not> columnsAreUniqueOnTarget target [References fd]
                  then [ruleErr p ''reference_not_unique'' (References fd) []]
                  else errIf (pgKindForAPIType (fType fd) \<noteq> refColumnKind target (References fd))
                         (ruleErr p ''reference_type_mismatch'' (fType fd) []))"

definition fieldRenamedErrors :: "string \<Rightarrow> ResourceSchema \<Rightarrow> string \<Rightarrow> FieldDef \<Rightarrow> ValidationError list" where
  "fieldRenamedErrors fieldPrefix res fieldName fd =
     (let from = fRenamedFrom fd
      in errIf (from \<noteq> [] \<and> (\<not> fieldNameRe from \<or> from = fieldName \<or> from = ''id'' \<or> gm_has (Fields res) from))
           (plainErr (fieldPrefix @ ''.renamed_from'')))"

definition emptyEnumErrors :: "string \<Rightarrow> FieldDef \<Rightarrow> ValidationError list" where
  "emptyEnumErrors fieldPrefix fd = errIf (EmptyEnum fd \<and> Enum fd = []) (plainErr (fieldPrefix @ ''.enum''))"

definition validateField ::
  "Std \<Rightarrow> APISchema \<Rightarrow> string \<Rightarrow> ResourceSchema \<Rightarrow> string \<Rightarrow> FieldDef \<Rightarrow> ValidationError list" where
  "validateField std s resPrefix res fieldName fd =
     (let fieldPrefix = resPrefix @ ''.fields.'' @ fieldName
      in fieldNameErrors fieldPrefix fieldName fd @ autoErrors fieldPrefix fd @ relationTargetErrors s fieldPrefix fd @
         fileFieldErrors fieldPrefix fd @ onDeleteErrors fieldPrefix fd @ onUpdateErrors fieldPrefix fd @
         referencesErrors s fieldPrefix fd @ fieldRenamedErrors fieldPrefix res fieldName fd @ emptyEnumErrors fieldPrefix fd @
         validateFieldRules std fieldPrefix fd @ validateDefault std fieldPrefix fd @ validateStateMachine fieldPrefix fd)"

section \<open>What an accepted field satisfies\<close>

named_theorems accepted_iff "when a check reports nothing"

lemma mset_le_same_size:
  assumes "length a = length b" "mset b \<subseteq># mset a"
  shows "mset a = mset b"
  using assms mset_subset_size [of "mset b" "mset a"] by (force simp: subset_mset.less_le)

text \<open>\<open>sameStringSet\<close> compares multisets: the counting loop accepts exactly the permutations.\<close>

lemma countDown_iff: "countDown a b \<longleftrightarrow> mset b \<subseteq># mset a"
  by (induction a b rule: countDown.induct) (auto simp: insert_subset_eq_iff)

lemma sameStringSet_iff [accepted_iff]: "sameStringSet a b \<longleftrightarrow> mset a = mset b"
  using mset_le_same_size [of a b] mset_eq_length [of a b] by (auto simp: sameStringSet_def countDown_iff)

lemma validateDefault_initial [accepted_iff]:
  assumes "validateStateMachine p fd = []" "fStateMachine fd = Some sm"
  shows "fType fd \<in> set stringTypes" "Initial sm \<noteq> []" "[] \<notin> set (Initial sm)"
    "Enum fd \<noteq> [] \<Longrightarrow> set (KnownStates sm) \<subseteq> set (Enum fd)"
    "fDefault fd = GStr ds \<Longrightarrow> IsInitial sm ds"
  using assms by (auto simp: validateStateMachine_def Let_def filter_empty_conv split: if_splits)

end
