(* ===== verification/ValidateResource.thy ===== *)
theory ValidateResource
  imports ValidateField
begin

text \<open>
  The resource level of the schema validator: the name, the \<open>import\<close> grant, \<open>events\<close>, hooks and the
  structural checks \<open>validateRelations\<close>, \<open>validateIndexes\<close>, \<open>validateForeignKeys\<close> (\<open>validator.go\<close>),
  \<open>validateRanges\<close> (\<open>ranges.go\<close>) and the durations of \<open>workflows_validate.go\<close>.
\<close>

section \<open>What the validator calls\<close>

text \<open>
  \<open>time.ParseDuration\<close>, the cron and expression compilers, \<open>strings.ToLower\<close> on Unicode text, the accent
  stripper of \<open>golang.org/x/text\<close> (None is its error) and the runes of a string, each with whether it is a
  letter or a digit.
\<close>

record ValidateEnv =
  vStd :: Std
  parseDuration :: "string \<Rightarrow> int option"
  cronParses :: "string \<Rightarrow> bool"
  exprCompiles :: "string \<Rightarrow> bool"
  unicodeLower :: "string \<Rightarrow> string"
  accentStripper :: "string \<Rightarrow> string option"
  runesOf :: "string \<Rightarrow> (string \<times> bool) list"

text \<open>A duration is nanoseconds in an \<open>int64\<close>; the product of a day count wraps.\<close>

definition ParseWorkflowDuration :: "(string \<Rightarrow> int option) \<Rightarrow> string \<Rightarrow> int option" where
  "ParseWorkflowDuration parse s0 =
     (let s = TrimSpace s0
      in if s = [] then None
         else if HasSuffix s ''d''
         then (case Atoi (TrimSuffix s ''d'') of
                 None \<Rightarrow> None
               | Some n \<Rightarrow> if n \<le> 0 then None else Some (wrap64 (wrap64 (n * 24) * hour)))
         else (case parse s of None \<Rightarrow> None | Some d \<Rightarrow> if d \<le> 0 then None else Some d))"

section \<open>Name and import grant\<close>

definition resourceNameErrors :: "string \<Rightarrow> string \<Rightarrow> ValidationError list" where
  "resourceNameErrors resPrefix resName =
     errIf (\<not> resourceNameRe resName \<or> HasPrefix resName ''auth_'' \<or> resName = ''transaction'' \<or>
            resName = ''summary'' \<or> resName = ''ask'')
       (plainErr resPrefix)"

definition resourceRenamedErrors :: "APISchema \<Rightarrow> string \<Rightarrow> string \<Rightarrow> ResourceSchema \<Rightarrow> ValidationError list" where
  "resourceRenamedErrors s resPrefix resName res =
     (let from = rsRenamedFrom res
      in errIf (from \<noteq> [] \<and> (\<not> resourceNameRe from \<or> from = resName \<or> gm_has (asResources s) from))
           (plainErr (resPrefix @ ''.renamed_from'')))"

definition importErrors :: "APISchema \<Rightarrow> string \<Rightarrow> ResourceSchema \<Rightarrow> ValidationError list" where
  "importErrors s resPrefix res =
     (case Import res of
        None \<Rightarrow> []
      | Some imp \<Rightarrow>
          let roles = resPrefix @ ''.import.roles''; flds = resPrefix @ ''.import.fields''
          in errIf (impRoles imp = []) (ruleErr roles ''import_roles_required'' [] []) @
             map (\<lambda>role. ruleErr roles ''import_unknown_role'' role (roleNamesList s))
               (filter (\<lambda>role. \<not> gm_has (plainRoles (asRBAC s)) role) (impRoles imp)) @
             errIf (impEmptyFields imp \<and> impFields imp = []) (ruleErr flds ''import_fields_empty'' [] []) @
             map (\<lambda>f. ruleErr flds ''import_unknown_field'' f (GovernedWriteFields res))
               (filter (\<lambda>f. \<not> IsGovernedWriteField res f) (impFields imp)))"

section \<open>Events and hooks\<close>

definition validEmitActions :: "string list" where
  "validEmitActions = [''create'', ''update'', ''delete'']"

fun eventErrors :: "string \<Rightarrow> string list \<Rightarrow> string list \<Rightarrow> ValidationError list" where
  "eventErrors path seen [] = []"
| "eventErrors path seen (action # actions) =
     (if action \<notin> set validEmitActions then plainErr path # eventErrors path seen actions
      else errIf (action \<in> set seen) (plainErr path) @ eventErrors path (action # seen) actions)"

definition hookErrors :: "string \<Rightarrow> string \<Rightarrow> HookConfig \<Rightarrow> ValidationError list" where
  "hookErrors resPrefix hookName hook =
     (let p = resPrefix @ ''.hooks.'' @ hookName
      in if (hookName = ''after_create'' \<or> hookName = ''after_update'') \<and> (hkType hook = ''js'' \<or> hkType hook = ''wasm'')
         then [plainErr (p @ ''.type'')]
         else if (hookName = ''before_create'' \<or> hookName = ''before_update'') \<and> hkType hook = ''webhook''
         then [plainErr (p @ ''.type'')]
         else if hkType hook = ''js'' then errIf (Script hook = []) (plainErr (p @ ''.script''))
         else if hkType hook = ''webhook'' then errIf (URL hook = []) (plainErr (p @ ''.url''))
         else if hkType hook = ''wasm'' then errIf (WasmModule hook = []) (plainErr (p @ ''.wasm_module''))
         else [plainErr (p @ ''.type'')])"

section \<open>Relations\<close>

definition RelationManyToMany :: string where
  "RelationManyToMany = ''many_to_many''"

definition validRelationTypes :: "string list" where
  "validRelationTypes = [''has_many'', ''belongs_to'', RelationManyToMany]"

definition relationErrors :: "string \<Rightarrow> ResourceSchema \<Rightarrow> APISchema \<Rightarrow> string \<Rightarrow> RelationDef \<Rightarrow> ValidationError list" where
  "relationErrors resPrefix res s relName rel =
     (let p = resPrefix @ ''.relations.'' @ relName
      in errIf (\<not> fieldNameRe relName) (plainErr p) @
         errIf (gm_has (Fields res) relName) (plainErr p) @
         errIf (relName = ''id'') (ruleErr p ''reserved_field_name'' ''id'' []) @
         errIf (relType rel \<notin> set validRelationTypes) (plainErr (p @ ''.type'')) @
         errIf (\<not> gm_has (asResources s) (relTarget rel)) (plainErr (p @ ''.target'')) @
         errIf (relFK rel = [] \<or> \<not> fieldNameRe (relFK rel)) (plainErr (p @ ''.fk'')) @
         errIf (relLimit rel < 0) (plainErr (p @ ''.limit'')) @
         (if relType rel = RelationManyToMany
          then errIf (Through rel = [] \<or> \<not> throughNameRe (Through rel)) (plainErr (p @ ''.through'')) @
               errIf (TargetFK rel = [] \<or> \<not> fieldNameRe (TargetFK rel)) (plainErr (p @ ''.target_fk''))
          else errIf (Through rel \<noteq> []) (plainErr (p @ ''.through'')) @
               errIf (TargetFK rel \<noteq> []) (plainErr (p @ ''.target_fk''))))"

definition validateRelations :: "string \<Rightarrow> ResourceSchema \<Rightarrow> APISchema \<Rightarrow> ValidationError list" where
  "validateRelations resPrefix res s = concat (map (\<lambda>(relName, rel). relationErrors resPrefix res s relName rel) (Relations res))"

section \<open>Indexes\<close>

definition IndexMethodBtree :: string where "IndexMethodBtree = ''btree''"
definition IndexMethodGIN :: string where "IndexMethodGIN = ''gin''"

definition validIndexMethods :: "string list" where
  "validIndexMethods = [IndexMethodBtree, IndexMethodGIN]"

definition validIndexOpclasses :: "string list gomap" where
  "validIndexOpclasses = [(IndexMethodGIN, [''jsonb_ops'', ''jsonb_path_ops''])]"

text \<open>The path of the \<open>i\<close>-th entry of a list.\<close>

definition at_index :: "string \<Rightarrow> nat \<Rightarrow> string" where
  "at_index path i = path @ ''['' @ Itoa (int i) @ '']''"

definition ginErrors :: "string \<Rightarrow> ResourceSchema \<Rightarrow> IndexDef \<Rightarrow> ValidationError list" where
  "ginErrors p res idx =
     errIf (idUnique idx) (ruleErr p ''invalid_index_method'' [] []) @
     concat (map (\<lambda>f. case gm_get (Fields res) f of
                        None \<Rightarrow> []
                      | Some fd \<Rightarrow> errIf (fType fd \<noteq> ''jsonb'') (ruleErr (p @ ''.method'') ''gin_requires_jsonb'' (fType fd) [''jsonb'']))
               (idFields idx))"

definition opclassErrors :: "string \<Rightarrow> IndexDef \<Rightarrow> ValidationError list" where
  "opclassErrors p idx =
     (if idOpclass idx = [] then []
      else case gm_get validIndexOpclasses (idMethod idx) of
             None \<Rightarrow> [ruleErr (p @ ''.opclass'') ''invalid_index_opclass'' (idOpclass idx) []]
           | Some allowed \<Rightarrow>
               errIf (idOpclass idx \<notin> set allowed)
                 (ruleErr (p @ ''.opclass'') ''invalid_index_opclass'' (idOpclass idx) (sort allowed)))"

definition indexErrors :: "string \<Rightarrow> ResourceSchema \<Rightarrow> nat \<Rightarrow> IndexDef \<Rightarrow> ValidationError list" where
  "indexErrors resPrefix res i idx =
     (let p = at_index (resPrefix @ ''.indexes'') i
      in if idFields idx = [] then [plainErr (p @ ''.fields'')]
         else map (\<lambda>_. plainErr (p @ ''.fields'')) (filter (\<lambda>f. \<not> fieldNameRe f) (idFields idx)) @
              (if idMethod idx \<noteq> [] \<and> idMethod idx \<notin> set validIndexMethods
               then [ruleErr (p @ ''.method'') ''invalid_index_method'' (idMethod idx) (sort validIndexMethods)]
               else (if idMethod idx = IndexMethodGIN then ginErrors p res idx else []) @ opclassErrors p idx))"

definition validateIndexes :: "string \<Rightarrow> ResourceSchema \<Rightarrow> ValidationError list" where
  "validateIndexes resPrefix res = concat (map (\<lambda>(i, idx). indexErrors resPrefix res i idx) (enumerate 0 (rsIndexes res)))"

section \<open>Composite foreign keys\<close>

definition fkSourceErrors :: "string \<Rightarrow> ResourceSchema \<Rightarrow> string list \<Rightarrow> ValidationError list" where
  "fkSourceErrors p res cols =
     map (\<lambda>_. plainErr (p @ ''.columns'')) (filter (\<lambda>c. c \<noteq> ''id'' \<and> \<not> gm_has (Fields res) c) cols)"

definition anyRequired :: "ResourceSchema \<Rightarrow> string list \<Rightarrow> bool" where
  "anyRequired res cols =
     list_ex (\<lambda>c. c \<noteq> ''id'' \<and> (case gm_get (Fields res) c of Some f \<Rightarrow> Required f | None \<Rightarrow> False)) cols"

definition fkTargetErrors :: "string \<Rightarrow> ResourceSchema \<Rightarrow> ResourceSchema \<Rightarrow> ForeignKeyDef \<Rightarrow> ValidationError list" where
  "fkTargetErrors p res target fk =
     map (\<lambda>_. plainErr (p @ ''.ref_columns'')) (filter (\<lambda>rc. rc \<noteq> ''id'' \<and> \<not> gm_has (Fields target) rc) (fdRefColumns fk)) @
     errIf (\<not> columnsAreUniqueOnTarget target (fdRefColumns fk)) (plainErr (p @ ''.ref_columns'')) @
     (if length (fdColumns fk) = length (fdRefColumns fk)
      then concat (map (\<lambda>(c, rc).
             let srcKind = refColumnKind res c; refKind = refColumnKind target rc
             in errIf (srcKind \<noteq> [] \<and> refKind \<noteq> [] \<and> srcKind \<noteq> refKind) (plainErr p)) (zip (fdColumns fk) (fdRefColumns fk)))
      else [])"

definition foreignKeyErrors :: "string \<Rightarrow> ResourceSchema \<Rightarrow> APISchema \<Rightarrow> nat \<Rightarrow> ForeignKeyDef \<Rightarrow> ValidationError list" where
  "foreignKeyErrors resPrefix res s i fk =
     (let p = at_index (resPrefix @ ''.foreign_keys'') i; target = gm_get (asResources s) (fdTarget fk)
      in errIf (fdColumns fk = []) (plainErr (p @ ''.columns'')) @
         fkSourceErrors p res (fdColumns fk) @
         errIf (target = None) (plainErr (p @ ''.target'')) @
         errIf (fdRefColumns fk = []) (plainErr (p @ ''.ref_columns'')) @
         errIf (length (fdColumns fk) \<noteq> length (fdRefColumns fk)) (plainErr p) @
         (case target of None \<Rightarrow> [] | Some t \<Rightarrow> fkTargetErrors p res t fk) @
         errIf (fdOnDelete fk \<noteq> [] \<and> fdOnDelete fk \<notin> set validOnDeleteActions) (plainErr (p @ ''.on_delete'')) @
         errIf (fdOnUpdate fk \<noteq> [] \<and> fdOnUpdate fk \<notin> set validOnUpdateActions) (plainErr (p @ ''.on_update'')) @
         errIf ((fdOnDelete fk = OnDeleteSetNull \<or> fdOnUpdate fk = OnUpdateSetNull) \<and> anyRequired res (fdColumns fk)) (plainErr p))"

definition validateForeignKeys :: "string \<Rightarrow> ResourceSchema \<Rightarrow> APISchema \<Rightarrow> ValidationError list" where
  "validateForeignKeys resPrefix res s =
     concat (map (\<lambda>(i, fk). foreignKeyErrors resPrefix res s i fk) (enumerate 0 (ForeignKeys res)))"

section \<open>Ranges\<close>

definition validWhenOps :: "string list" where
  "validWhenOps = [''eq'', ''ne'']"

definition whenValueMismatch :: "FieldDef \<Rightarrow> goany \<Rightarrow> bool" where
  "whenValueMismatch fd v =
     (if v = GNil then True
      else if fType fd = ''bool'' then (case v of GBool _ \<Rightarrow> False | _ \<Rightarrow> True)
      else if fType fd = ''string'' \<or> fType fd = ''text''
      then (case v of GStr s \<Rightarrow> Enum fd \<noteq> [] \<and> s \<notin> set (Enum fd) | _ \<Rightarrow> True)
      else if fType fd = ''int'' \<or> fType fd = ''int64'' \<or> fType fd = ''float64'' then AsFloat64 v = None
      else if fType fd = ''uuid'' \<or> fType fd = ''file'' then (case v of GStr _ \<Rightarrow> False | _ \<Rightarrow> True)
      else True)"

definition rangeSideErrors :: "string \<Rightarrow> ResourceSchema \<Rightarrow> string \<Rightarrow> string \<Rightarrow> ValidationError list" where
  "rangeSideErrors p res key field =
     (let path = p @ ''.'' @ key
      in if field = [] then [ruleErr path ''missing_range_field'' [] []]
         else case gm_get (Fields res) field of
                None \<Rightarrow> [ruleErr path ''unknown_range_field'' field []]
              | Some fd \<Rightarrow>
                  errIf (fType fd \<noteq> ''time'') (ruleErr path ''range_field_not_time'' (fType fd) [''time'']) @
                  errIf (Enabled (Auto fd)) (ruleErr path ''range_field_auto'' field []))"

definition rangeZoneErrors :: "string \<Rightarrow> ResourceSchema \<Rightarrow> RangeDef \<Rightarrow> ValidationError list" where
  "rangeZoneErrors p res r =
     (let path = p @ ''.timezone_field''
      in if TimezoneField r = [] then []
         else case gm_get (Fields res) (TimezoneField r) of
                None \<Rightarrow> [ruleErr path ''unknown_range_field'' (TimezoneField r) []]
              | Some fd \<Rightarrow>
                  if fType fd \<noteq> ''string'' \<and> fType fd \<noteq> ''text'' then [ruleErr path ''range_timezone_not_string'' (fType fd) []]
                  else errIf (Format fd \<noteq> FormatTimezone) (ruleErr path ''range_timezone_unvalidated'' (Format fd) []))"

fun scopeErrors :: "string \<Rightarrow> ResourceSchema \<Rightarrow> RangeDef \<Rightarrow> nat \<Rightarrow> string list \<Rightarrow> string list \<Rightarrow> ValidationError list" where
  "scopeErrors p res r i seen [] = []"
| "scopeErrors p res r i seen (col # cols) =
     (let sp = at_index (p @ ''.no_overlap.scope'') i
      in case gm_get (Fields res) col of
           None \<Rightarrow> ruleErr sp ''unknown_scope_field'' col [] # scopeErrors p res r (Suc i) seen cols
         | Some fd \<Rightarrow>
             errIf (col = Start r \<or> col = End r) (ruleErr sp ''scope_is_range_field'' col []) @
             errIf (fType fd = ''json'' \<or> fType fd = ''jsonb'' \<or> fType fd = ''text'') (ruleErr sp ''scope_type_unsupported'' (fType fd) []) @
             errIf (col \<in> set seen) (ruleErr sp ''scope_duplicate'' col []) @
             scopeErrors p res r (Suc i) (col # seen) cols)"

definition whenErrors :: "Std \<Rightarrow> string \<Rightarrow> ResourceSchema \<Rightarrow> WhenDef \<Rightarrow> ValidationError list" where
  "whenErrors std wp res w =
     (if wnField w = [] then [ruleErr (wp @ ''.field'') ''missing_when_field'' [] []]
      else case gm_get (Fields res) (wnField w) of
             None \<Rightarrow> [ruleErr (wp @ ''.field'') ''unknown_when_field'' (wnField w) []]
           | Some fd \<Rightarrow>
               errIf ((if wnOp w = [] then ''eq'' else wnOp w) \<notin> set validWhenOps)
                 (ruleErr (wp @ ''.op'') ''invalid_when_op'' (wnOp w) [''eq'', ''ne'']) @
               errIf (whenValueMismatch fd (wnVal w)) (ruleErr (wp @ ''.val'') ''invalid_when_value'' (sprintV std (wnVal w)) []))"

definition noOverlapErrors :: "Std \<Rightarrow> string \<Rightarrow> ResourceSchema \<Rightarrow> RangeDef \<Rightarrow> ValidationError list" where
  "noOverlapErrors std p res r =
     (case NoOverlap r of
        None \<Rightarrow> []
      | Some nov \<Rightarrow>
          scopeErrors p res r 0 [] (Scope nov) @
          (case When nov of None \<Rightarrow> [] | Some w \<Rightarrow> whenErrors std (p @ ''.no_overlap.when'') res w))"

definition rangeErrors :: "ValidateEnv \<Rightarrow> string \<Rightarrow> ResourceSchema \<Rightarrow> string \<Rightarrow> RangeDef \<Rightarrow> ValidationError list" where
  "rangeErrors env resPrefix res nm r =
     (let p = resPrefix @ ''.ranges.'' @ nm
      in if \<not> fieldNameRe nm then [ruleErr p ''invalid_range_name'' nm []]
         else errIf (gm_has (Fields res) nm) (ruleErr p ''range_shadows_field'' nm []) @
              rangeSideErrors p res ''start'' (Start r) @ rangeSideErrors p res ''end'' (End r) @
              errIf (Start r \<noteq> [] \<and> Start r = End r) (ruleErr (p @ ''.end'') ''range_same_field'' (End r) []) @
              errIf (DefaultDuration r \<noteq> [] \<and> ParseWorkflowDuration (parseDuration env) (DefaultDuration r) = None)
                (ruleErr (p @ ''.default_duration'') ''invalid_duration'' (DefaultDuration r) []) @
              rangeZoneErrors p res r @ noOverlapErrors (vStd env) p res r)"

definition validateRanges :: "ValidateEnv \<Rightarrow> string \<Rightarrow> ResourceSchema \<Rightarrow> ValidationError list" where
  "validateRanges env resPrefix res =
     concat (map (\<lambda>nm. case gm_get (Ranges res) nm of None \<Rightarrow> [] | Some r \<Rightarrow> rangeErrors env resPrefix res nm r)
               (sortedKeys (Ranges res)))"

section \<open>One resource\<close>

text \<open>The body of the loop of \<open>Validate\<close> over the resources.\<close>

definition validateResource :: "ValidateEnv \<Rightarrow> APISchema \<Rightarrow> string \<Rightarrow> ResourceSchema \<Rightarrow> ValidationError list" where
  "validateResource env s resName res =
     (let resPrefix = ''resources.'' @ resName
      in resourceNameErrors resPrefix resName @ resourceRenamedErrors s resPrefix resName res @ importErrors s resPrefix res @
         concat (map (\<lambda>(fieldName, fd). validateField (vStd env) s resPrefix res fieldName fd) (Fields res)) @
         eventErrors (resPrefix @ ''.events'') [] (Events res) @
         validateRelations resPrefix res s @ validateIndexes resPrefix res @ validateForeignKeys resPrefix res s @
         validateRanges env resPrefix res @
         concat (map (\<lambda>(hookName, hook). hookErrors resPrefix hookName hook) (Hooks res)))"

lemma eventErrors_distinct: "eventErrors p seen es = [] \<Longrightarrow> distinct es \<and> set es \<subseteq> set validEmitActions - set seen"
  by (induction p seen es rule: eventErrors.induct) (auto split: if_splits)

end
