(* ===== verification/ValidateRbac.thy ===== *)
theory ValidateRbac
  imports ValidateResource
begin

text \<open>
  The access-control checks of the schema validator (\<open>validateRBAC\<close> and its helpers, \<open>validator.go\<close>): the
  public block, custom-route grants, the per-resource and the role-global form of a role.
\<close>

section \<open>Columns a condition or an allowlist may name\<close>

definition rbacFieldExists :: "ResourceSchema \<Rightarrow> string \<Rightarrow> bool" where
  "rbacFieldExists res nm \<longleftrightarrow> nm = ''id'' \<or> gm_has (Fields res) nm"

definition containsStr :: "string list \<Rightarrow> string \<Rightarrow> bool" where
  "containsStr ss s \<longleftrightarrow> s \<in> set ss"

definition applicableResources :: "goany option \<Rightarrow> APISchema \<Rightarrow> string list" where
  "applicableResources raw s =
     (case raw of
        None \<Rightarrow> []
      | Some j \<Rightarrow>
          (case unmarshal_string j of
             Some wc \<Rightarrow> if wc = ''*'' then map fst (asResources s) else []
           | None \<Rightarrow>
               (case unmarshal_strings j of None \<Rightarrow> [] | Some xs \<Rightarrow> filter (\<lambda>rn. gm_has (asResources s) rn) xs)))"

definition fieldExistsOnAny :: "string \<Rightarrow> string list \<Rightarrow> APISchema \<Rightarrow> bool" where
  "fieldExistsOnAny field resources s =
     list_ex (\<lambda>rn. case gm_get (asResources s) rn of Some res \<Rightarrow> rbacFieldExists res field | None \<Rightarrow> False) resources"

definition resourcesMissingField :: "string \<Rightarrow> string list \<Rightarrow> APISchema \<Rightarrow> string list" where
  "resourcesMissingField field resources s =
     filter (\<lambda>rn. case gm_get (asResources s) rn of Some res \<Rightarrow> \<not> rbacFieldExists res field | None \<Rightarrow> False) resources"

definition unionFieldNames :: "string list \<Rightarrow> APISchema \<Rightarrow> string list" where
  "unionFieldNames resources s =
     sort (remdups (''id'' # concat (map (\<lambda>rn. case gm_get (asResources s) rn of
                                              Some res \<Rightarrow> map fst (Fields res) | None \<Rightarrow> []) resources)))"

section \<open>Conditions\<close>

definition validRBACActions :: "string list" where
  "validRBACActions = [''read'', ''create'', ''update'', ''delete'', ''*'']"

definition validConditionOps :: "string list" where
  "validConditionOps = [[], ''eq'']"

definition conditionVariables :: "string list" where
  "conditionVariables = [''$user_id'', ''$external_client_id'']"

definition validateConditionOp :: "string \<Rightarrow> Condition \<Rightarrow> ValidationError list" where
  "validateConditionOp p c = errIf (Op c \<notin> set validConditionOps) (plainErr (p @ ''.op''))"

definition validateConditionVal :: "string \<Rightarrow> Condition \<Rightarrow> ValidationError list" where
  "validateConditionVal p c =
     errIf (HasPrefix (Val c) ''$'' \<and> Val c \<notin> set conditionVariables)
       (ruleErr (p @ ''.val'') ''unknown_condition_variable'' (Val c) [''$user_id'', ''$external_client_id''])"

definition conditionFieldErrors :: "string \<Rightarrow> ResourceSchema \<Rightarrow> Condition \<Rightarrow> ValidationError list" where
  "conditionFieldErrors p res c =
     (if Field c = [] then [ruleErr (p @ ''.conditions.field'') ''missing_condition_field'' [] []]
      else errIf (\<not> rbacFieldExists res (Field c))
             (ruleErr (p @ ''.conditions.field'') ''unknown_field'' (Field c) (fieldNamesList res)))"

definition allowlistErrors :: "string \<Rightarrow> ResourceSchema \<Rightarrow> string list \<Rightarrow> ValidationError list" where
  "allowlistErrors p res fs =
     map (\<lambda>f. ruleErr (p @ ''.fields'') ''unknown_field'' f (fieldNamesList res)) (filter (\<lambda>f. \<not> rbacFieldExists res f) fs)"

definition unknownActions :: "string \<Rightarrow> string list \<Rightarrow> ValidationError list" where
  "unknownActions p actions =
     map (\<lambda>a. ruleErr (p @ ''.actions'') ''unknown_action'' a [''read'', ''create'', ''update'', ''delete'', ''*''])
       (filter (\<lambda>a. a \<notin> set validRBACActions) actions)"

section \<open>Route grants and the public block\<close>

definition routeSegmentRe :: "string \<Rightarrow> bool" where
  "routeSegmentRe = throughNameRe"

definition routeGrantErrors :: "string \<Rightarrow> APISchema \<Rightarrow> string \<Rightarrow> RouteGrant \<Rightarrow> ValidationError list" where
  "routeGrantErrors rolePrefix s segment grant =
     (let p = rolePrefix @ ''.routes.'' @ segment
      in errIf (\<not> routeSegmentRe segment) (ruleErr p ''invalid_route_segment'' segment []) @
         errIf (gm_has (asResources s) segment) (ruleErr p ''route_shadows_resource'' segment []) @
         errIf (grantActions grant = []) (ruleErr (p @ ''.actions'') ''missing_actions'' [] []) @
         unknownActions p (grantActions grant))"

definition validateRouteGrants :: "string \<Rightarrow> RolePolicy \<Rightarrow> APISchema \<Rightarrow> ValidationError list" where
  "validateRouteGrants rolePrefix role s =
     concat (map (\<lambda>(segment, grant). routeGrantErrors rolePrefix s segment grant) (Routes role))"

definition publicErrors :: "APISchema \<Rightarrow> string \<Rightarrow> ResourcePermission \<Rightarrow> ValidationError list" where
  "publicErrors s resName perm =
     (let p = ''rbac.public.'' @ resName
      in errIf (permActions perm \<noteq> [''read'']) (ruleErr (p @ ''.actions'') ''public_read_only'' (join_with '','' (permActions perm)) [''read'']) @
         errIf (ConditionActions perm \<noteq> []) (plainErr (p @ ''.condition_actions'')) @
         (case gm_get (asResources s) resName of
            None \<Rightarrow>
              if resName = ''files''
              then errIf (permConditions perm \<noteq> None \<or> permFields perm \<noteq> []) (ruleErr p ''files_grant_actions_only'' [] [])
              else [ruleErr p ''unknown_resource'' resName (resourceNamesList s)]
          | Some res \<Rightarrow>
              (case permConditions perm of
                 None \<Rightarrow> []
               | Some c \<Rightarrow>
                   validateConditionOp (p @ ''.conditions'') c @
                   errIf (Val c = ''$user_id'' \<or> Val c = ''$external_client_id'')
                     (ruleErr (p @ ''.conditions.val'') ''public_condition_identity'' (Val c) []) @
                   conditionFieldErrors p res c) @
              allowlistErrors p res (permFields perm)))"

definition validatePublicBlock :: "APISchema \<Rightarrow> ValidationError list" where
  "validatePublicBlock s = concat (map (\<lambda>(resName, perm). publicErrors s resName perm) (plainPublic (asRBAC s)))"

section \<open>Roles\<close>

definition conditionActionsErrors :: "string \<Rightarrow> ResourcePermission \<Rightarrow> ValidationError list" where
  "conditionActionsErrors p perm =
     (if ConditionActions perm = [] then []
      else let path = p @ ''.condition_actions''; grantsAll = ''*'' \<in> set (permActions perm)
           in errIf (permConditions perm = None) (plainErr path) @
              concat (map (\<lambda>a.
                if a = ''*'' \<or> a \<notin> set validRBACActions then [plainErr path]
                else errIf (\<not> grantsAll \<and> \<not> containsStr (permActions perm) a)
                       (ruleErr path ''condition_action_not_granted'' a (permActions perm))) (ConditionActions perm)))"

definition permissionErrors :: "APISchema \<Rightarrow> string \<Rightarrow> string \<Rightarrow> ResourcePermission \<Rightarrow> ValidationError list" where
  "permissionErrors s rolePrefix resName perm =
     (let p = rolePrefix @ ''.permissions.'' @ resName
      in case gm_get (asResources s) resName of
           None \<Rightarrow>
             if resName = ''files''
             then unknownActions p (permActions perm) @
                  errIf (permActions perm = []) (plainErr (p @ ''.actions'')) @
                  errIf (permConditions perm \<noteq> None \<or> permFields perm \<noteq> [] \<or> ConditionActions perm \<noteq> [])
                    (ruleErr p ''files_grant_actions_only'' [] [])
             else [ruleErr p ''unknown_resource'' resName (resourceNamesList s)]
         | Some res \<Rightarrow>
             errIf (permActions perm = []) (plainErr (p @ ''.actions'')) @
             unknownActions p (permActions perm) @
             (case permConditions perm of
                None \<Rightarrow> []
              | Some c \<Rightarrow>
                  validateConditionOp (p @ ''.conditions'') c @ validateConditionVal (p @ ''.conditions'') c @
                  conditionFieldErrors p res c) @
             conditionActionsErrors p perm @
             allowlistErrors p res (permFields perm))"

definition validateRoleGlobal :: "string \<Rightarrow> RolePolicy \<Rightarrow> APISchema \<Rightarrow> ValidationError list" where
  "validateRoleGlobal rolePrefix role s =
     (if Conditions role = None \<and> FieldsAllow role = [] then []
      else let resources = applicableResources (Resources role) s
           in (case Conditions role of
                 None \<Rightarrow> []
               | Some c \<Rightarrow>
                   validateConditionOp (rolePrefix @ ''.conditions'') c @ validateConditionVal (rolePrefix @ ''.conditions'') c @
                   (if Field c = [] then [ruleErr (rolePrefix @ ''.conditions.field'') ''missing_condition_field'' [] []]
                    else errIf (resourcesMissingField (Field c) resources s \<noteq> [])
                           (ruleErr (rolePrefix @ ''.conditions.field'') ''condition_field_missing_on_resource'' (Field c)
                             (unionFieldNames resources s)))) @
              map (\<lambda>f. ruleErr (rolePrefix @ ''.fields'') ''unknown_field'' f (unionFieldNames resources s))
                (filter (\<lambda>f. \<not> fieldExistsOnAny f resources s) (FieldsAllow role)))"

text \<open>The raw JSON of \<open>resources\<close> is absent or at least one byte.\<close>

definition roleErrors :: "APISchema \<Rightarrow> string \<Rightarrow> RolePolicy \<Rightarrow> ValidationError list" where
  "roleErrors s roleName role =
     (let p = ''rbac.roles.'' @ roleName
      in if roleName = PublicRoleName then [ruleErr p ''reserved_role_name'' roleName []]
         else validateRouteGrants p role s @
              (if Permissions role = [] then validateRoleGlobal p role s
               else errIf (Resources role \<noteq> None \<or> Actions role \<noteq> [] \<or> Conditions role \<noteq> None \<or> FieldsAllow role \<noteq> []) (plainErr p) @
                    concat (map (\<lambda>(resName, perm). permissionErrors s p resName perm) (Permissions role))))"

definition validateRBAC :: "APISchema \<Rightarrow> ValidationError list" where
  "validateRBAC s = validatePublicBlock s @ concat (map (\<lambda>(roleName, role). roleErrors s roleName role) (plainRoles (asRBAC s)))"

end
