(* ===== verification/ValidateWorkflows.thy ===== *)
theory ValidateWorkflows
  imports ValidateResource
begin

text \<open>
  \<open>validateWorkflows\<close> and \<open>validateTimeTrigger\<close> (\<open>pkg/schema/workflows_validate.go\<close>): triggers, steps and
  expressions of the declared workflows.
\<close>

section \<open>Triggers\<close>

definition workflowStepTypes :: "string list gomap" where
  "workflowStepTypes =
     [(''condition'', [''expr'']), (''update'', [''resource'', ''id'', ''data'']), (''create'', [''resource'', ''data'']),
      (''webhook'', [''url'', ''hmac_secret_env'', ''data'']), (''enqueue'', [''topic'', ''data''])]"

definition WorkflowEventTopic :: "WorkflowTrigger \<Rightarrow> string" where
  "WorkflowEventTopic t = EmitTopic (trResource t) (trEvent t)"

definition triggerTopics :: "APISchema \<Rightarrow> string list" where
  "triggerTopics s =
     map (\<lambda>(_, flow). WorkflowEventTopic (wfTrigger flow))
       (filter (\<lambda>(_, flow). trType (wfTrigger flow) = ''event'' \<and> gm_has emitTopicSuffix (trEvent (wfTrigger flow)) \<and>
                           trResource (wfTrigger flow) \<noteq> [])
          (Workflows s))"

definition eventTriggerErrors :: "APISchema \<Rightarrow> string \<Rightarrow> WorkflowTrigger \<Rightarrow> ValidationError list" where
  "eventTriggerErrors s p t =
     errIf (\<not> gm_has emitTopicSuffix (trEvent t))
       (ruleErr (p @ ''.trigger.event'') ''invalid_trigger_event'' (trEvent t) [''create'', ''update'', ''delete'']) @
     (case gm_get (asResources s) (trResource t) of
        None \<Rightarrow> [ruleErr (p @ ''.trigger.resource'') ''unknown_resource'' (trResource t) []]
      | Some res \<Rightarrow>
          errIf (gm_has emitTopicSuffix (trEvent t) \<and> \<not> list_ex (\<lambda>ev. ev = trEvent t) (Events res))
            (ruleErr (p @ ''.trigger'') ''trigger_event_not_emitted'' [] [])) @
     errIf (trCron t \<noteq> [] \<or> trTimezone t \<noteq> []) (ruleErr (p @ ''.trigger'') ''trigger_key_conflict'' [] [])"

definition cronTriggerErrors :: "ValidateEnv \<Rightarrow> string \<Rightarrow> WorkflowTrigger \<Rightarrow> ValidationError list" where
  "cronTriggerErrors env p t =
     (if trCron t = [] then [ruleErr (p @ ''.trigger.cron'') ''missing_cron'' [] []]
      else errIf (\<not> cronParses env (trCron t)) (ruleErr (p @ ''.trigger.cron'') ''invalid_cron'' (trCron t) [])) @
     errIf (trTimezone t \<noteq> [] \<and> \<not> zoneOk (vStd env) (trTimezone t))
       (ruleErr (p @ ''.trigger.timezone'') ''invalid_timezone'' (trTimezone t) []) @
     errIf (trEvent t \<noteq> [] \<or> trResource t \<noteq> []) (ruleErr (p @ ''.trigger'') ''trigger_key_conflict'' [] [])"

definition triggerFieldErrors :: "string \<Rightarrow> ResourceSchema option \<Rightarrow> WorkflowTrigger \<Rightarrow> ValidationError list" where
  "triggerFieldErrors p target t =
     (let path = p @ ''.trigger.field''
      in if trField t = [] then [ruleErr path ''missing_field'' [] []]
         else case target of
                None \<Rightarrow> []
              | Some res \<Rightarrow>
                  (case gm_get (Fields res) (trField t) of
                     None \<Rightarrow> [ruleErr path ''unknown_field'' (trField t) []]
                   | Some fd \<Rightarrow> errIf (fType fd \<noteq> ''time'') (ruleErr path ''field_not_time'' (fType fd) [''time''])))"

definition triggerOffsetErrors :: "ValidateEnv \<Rightarrow> string \<Rightarrow> WorkflowTrigger \<Rightarrow> ValidationError list" where
  "triggerOffsetErrors env p t =
     (if trBefore t = [] \<and> trAfter t = [] then [ruleErr (p @ ''.trigger'') ''missing_offset'' [] []]
      else if trBefore t \<noteq> [] \<and> trAfter t \<noteq> [] then [ruleErr (p @ ''.trigger'') ''trigger_key_conflict'' [] []]
      else let (src, key) = (if trAfter t \<noteq> [] then (trAfter t, ''after'') else (trBefore t, ''before''))
           in errIf (ParseWorkflowDuration (parseDuration env) src = None)
                (ruleErr (p @ ''.trigger.'' @ key) ''invalid_duration'' src []))"

definition triggerWhenErrors :: "string \<Rightarrow> ResourceSchema \<Rightarrow> WhenDef \<Rightarrow> ValidationError list" where
  "triggerWhenErrors p res w =
     (if wnField w = [] then [ruleErr (p @ ''.trigger.when.field'') ''missing_when_field'' [] []]
      else case gm_get (Fields res) (wnField w) of
             None \<Rightarrow> [ruleErr (p @ ''.trigger.when.field'') ''unknown_when_field'' (wnField w) []]
           | Some fd \<Rightarrow>
               errIf (wnOp w \<noteq> [] \<and> wnOp w \<notin> set validWhenOps)
                 (ruleErr (p @ ''.trigger.when.op'') ''invalid_when_op'' (wnOp w) [''eq'', ''ne'']) @
               errIf (whenValueMismatch fd (wnVal w)) (ruleErr (p @ ''.trigger.when.val'') ''invalid_when_value'' [] []))"

definition validateTimeTrigger :: "ValidateEnv \<Rightarrow> APISchema \<Rightarrow> string \<Rightarrow> WorkflowTrigger \<Rightarrow> ValidationError list" where
  "validateTimeTrigger env s p t =
     (let target = gm_get (asResources s) (trResource t)
      in (if trResource t = [] then [ruleErr (p @ ''.trigger.resource'') ''missing_resource'' [] []]
          else errIf (target = None) (ruleErr (p @ ''.trigger.resource'') ''unknown_resource'' (trResource t) [])) @
         triggerFieldErrors p target t @
         triggerOffsetErrors env p t @
         errIf (trGrace t \<noteq> [] \<and> ParseWorkflowDuration (parseDuration env) (trGrace t) = None)
           (ruleErr (p @ ''.trigger.grace'') ''invalid_duration'' (trGrace t) []) @
         errIf (trEvent t \<noteq> [] \<or> trCron t \<noteq> [] \<or> trTimezone t \<noteq> []) (ruleErr (p @ ''.trigger'') ''trigger_key_conflict'' [] []) @
         (case (trWhen t, target) of (Some w, Some res) \<Rightarrow> triggerWhenErrors p res w | _ \<Rightarrow> []))"

definition triggerErrors :: "ValidateEnv \<Rightarrow> APISchema \<Rightarrow> string \<Rightarrow> WorkflowTrigger \<Rightarrow> ValidationError list" where
  "triggerErrors env s p t =
     (if trType t = ''event'' then eventTriggerErrors s p t
      else if trType t = ''cron'' then cronTriggerErrors env p t
      else if trType t = ''time'' then validateTimeTrigger env s p t
      else if trType t = ''http'' then [ruleErr (p @ ''.trigger.type'') ''unsupported_trigger'' ''http'' [''event'', ''cron'', ''time'']]
      else [ruleErr (p @ ''.trigger.type'') ''invalid_trigger_type'' (trType t) [''event'', ''cron'', ''time'']])"

section \<open>Steps\<close>

definition cfgStr :: "goany gomap \<Rightarrow> string \<Rightarrow> string \<times> bool" where
  "cfgStr config key = (case gm_get config key of Some (GStr sv) \<Rightarrow> (sv, True) | _ \<Rightarrow> ([], False))"

definition compileExpr :: "ValidateEnv \<Rightarrow> string \<Rightarrow> string \<Rightarrow> ValidationError list" where
  "compileExpr env field src = errIf (\<not> exprCompiles env src) (ruleErr field ''invalid_expr'' src [])"

definition checkData :: "ValidateEnv \<Rightarrow> goany gomap \<Rightarrow> string \<Rightarrow> ValidationError list" where
  "checkData env config field =
     (case gm_get config ''data'' of
        None \<Rightarrow> []
      | Some (GObj m) \<Rightarrow>
          concat (map (\<lambda>(k, v). case v of
                                   GStr sv \<Rightarrow> if HasPrefix sv ''='' then compileExpr env (field @ ''.'' @ k) (TrimPrefix sv ''='') else []
                                 | _ \<Rightarrow> []) m)
      | Some _ \<Rightarrow> [ruleErr field ''invalid_type'' [] []])"

definition writeStepErrors :: "ValidateEnv \<Rightarrow> APISchema \<Rightarrow> string \<Rightarrow> WorkflowStep \<Rightarrow> ValidationError list" where
  "writeStepErrors env s sp st =
     (let config = stConfig st; resName = fst (cfgStr config ''resource''); (idExpr, idIsStr) = cfgStr config ''id''
      in (if resName = [] then [ruleErr (sp @ ''.config.resource'') ''missing_resource'' [] []]
          else errIf (\<not> gm_has (asResources s) resName) (ruleErr (sp @ ''.config.resource'') ''unknown_resource'' resName [])) @
         (if stType st = ''update''
          then if \<not> idIsStr \<or> idExpr = [] then [ruleErr (sp @ ''.config.id'') ''missing_id'' [] []]
               else compileExpr env (sp @ ''.config.id'') (TrimPrefix idExpr ''='')
          else []) @
         errIf (\<not> gm_has config ''data'') (ruleErr (sp @ ''.config.data'') ''missing_data'' [] []) @
         checkData env config (sp @ ''.config.data''))"

definition stepBodyErrors :: "ValidateEnv \<Rightarrow> APISchema \<Rightarrow> string \<Rightarrow> WorkflowStep \<Rightarrow> ValidationError list" where
  "stepBodyErrors env s sp st =
     (let config = stConfig st
      in if stType st = ''condition''
         then (let (src, isStr) = cfgStr config ''expr''
               in if \<not> isStr \<or> src = [] then [ruleErr (sp @ ''.config.expr'') ''missing_expr'' [] []]
                  else compileExpr env (sp @ ''.config.expr'') src)
         else if stType st = ''update'' \<or> stType st = ''create'' then writeStepErrors env s sp st
         else if stType st = ''webhook''
         then (let url = fst (cfgStr config ''url'')
               in (if url = [] then [ruleErr (sp @ ''.config.url'') ''missing_url'' [] []]
                   else errIf (\<not> HasPrefix url ''https://'') (ruleErr (sp @ ''.config.url'') ''insecure_url'' url [])) @
                  checkData env config (sp @ ''.config.data''))
         else (let topic = fst (cfgStr config ''topic'')
               in (if topic = [] then [ruleErr (sp @ ''.config.topic'') ''missing_topic'' [] []]
                   else errIf (topic \<in> set (triggerTopics s)) (ruleErr (sp @ ''.config.topic'') ''enqueue_loop'' topic [])) @
                  checkData env config (sp @ ''.config.data'')))"

definition stepErrors :: "ValidateEnv \<Rightarrow> APISchema \<Rightarrow> string \<Rightarrow> string list \<Rightarrow> WorkflowStep \<Rightarrow> ValidationError list" where
  "stepErrors env s sp seen st =
     (if stName st = [] then [ruleErr (sp @ ''.name'') ''missing_step_name'' [] []]
      else errIf (stName st \<in> set seen) (ruleErr (sp @ ''.name'') ''duplicate_step_name'' [] [])) @
     (case gm_get workflowStepTypes (stType st) of
        None \<Rightarrow> [ruleErr (sp @ ''.type'') ''invalid_step_type'' (stType st) (sortedKeys workflowStepTypes)]
      | Some allowed \<Rightarrow>
          map (\<lambda>k. ruleErr (sp @ ''.config.'' @ k) ''unknown_key'' k allowed) (filter (\<lambda>k. k \<notin> set allowed) (map fst (stConfig st))) @
          stepBodyErrors env s sp st)"

fun stepsErrors :: "ValidateEnv \<Rightarrow> APISchema \<Rightarrow> string \<Rightarrow> nat \<Rightarrow> string list \<Rightarrow> WorkflowStep list \<Rightarrow> ValidationError list" where
  "stepsErrors env s p i seen [] = []"
| "stepsErrors env s p i seen (st # sts) =
     stepErrors env s (at_index (p @ ''.steps'') i) seen st @ stepsErrors env s p (Suc i) (stName st # seen) sts"

section \<open>Workflows\<close>

definition workflowErrors :: "ValidateEnv \<Rightarrow> APISchema \<Rightarrow> string \<Rightarrow> WorkflowSchema \<Rightarrow> ValidationError list" where
  "workflowErrors env s nm flow =
     (let p = ''workflows.'' @ nm
      in errIf (\<not> resourceNameRe nm) (ruleErr p ''invalid_name'' [] []) @
         triggerErrors env s p (wfTrigger flow) @
         errIf (wfOverlap flow \<noteq> [] \<and> wfOverlap flow \<noteq> ''skip'' \<and> wfOverlap flow \<noteq> ''allow'')
           (ruleErr (p @ ''.overlap'') ''invalid_overlap'' (wfOverlap flow) [''skip'', ''allow'']) @
         errIf (wfRole flow \<noteq> [] \<and> \<not> gm_has (plainRoles (asRBAC s)) (wfRole flow))
           (ruleErr (p @ ''.role'') ''unknown_role'' (wfRole flow) (roleNamesList s)) @
         errIf (wfSteps flow = []) (ruleErr (p @ ''.steps'') ''empty_steps'' [] []) @
         stepsErrors env s p 0 [] (wfSteps flow))"

definition validateWorkflows :: "ValidateEnv \<Rightarrow> APISchema \<Rightarrow> ValidationError list" where
  "validateWorkflows env s =
     concat (map (\<lambda>nm. case gm_get (Workflows s) nm of None \<Rightarrow> [] | Some flow \<Rightarrow> workflowErrors env s nm flow) (sortedKeys (Workflows s)))"

section \<open>An accepted workflow can run\<close>

lemma stepsErrors_Nil:
  "stepsErrors env s p i seen sts = [] \<Longrightarrow>
     distinct (map stName sts) \<and> [] \<notin> stName ` set sts \<and> stName ` set sts \<inter> set seen = {} \<and>
     (\<forall>st \<in> set sts. gm_has workflowStepTypes (stType st) \<and> (\<exists>sp. stepBodyErrors env s sp st = []))"
proof (induction env s p i seen sts rule: stepsErrors.induct)
  case (2 env s p i seen st sts)
  then show ?case
    by (cases "gm_get workflowStepTypes (stType st)") (auto simp: stepErrors_def gm_has_def split: if_splits)
qed simp

lemma workflow_accepted:
  assumes "validateWorkflows env s = []" "gm_get (Workflows s) nm = Some flow"
  shows "workflowErrors env s nm flow = []"
proof -
  have "nm \<in> set (sortedKeys (Workflows s))" using gm_get_in [OF assms(2)] by force
  then show ?thesis using assms by (fastforce simp: validateWorkflows_def)
qed

lemma accepted_event_trigger:
  assumes "eventTriggerErrors s p t = []"
  obtains res where "gm_get (asResources s) (trResource t) = Some res" "EmitsOn res (trEvent t)"
    "WorkflowEventTopic t \<noteq> []"
  using assms
  by (auto simp: eventTriggerErrors_def EmitsOn_def WorkflowEventTopic_def EmitTopic_def gm_has_def list_ex_iff
           split: option.splits)

lemma trigger_topic_listed:
  assumes "validateWorkflows env s = []" "gm_get (Workflows s) nm = Some flow" "trType (wfTrigger flow) = ''event''"
    "trResource (wfTrigger flow) \<noteq> []"
  shows "WorkflowEventTopic (wfTrigger flow) \<in> set (triggerTopics s)"
proof -
  have "eventTriggerErrors s (''workflows.'' @ nm) (wfTrigger flow) = []"
    using workflow_accepted [OF assms(1,2)] assms(3) by (simp add: workflowErrors_def triggerErrors_def Let_def)
  then have "gm_has emitTopicSuffix (trEvent (wfTrigger flow))" by (simp add: eventTriggerErrors_def)
  then show ?thesis using assms(3,4) gm_get_in [OF assms(2)] by (force simp: triggerTopics_def)
qed

end
