(* ===== verification/ValidateAliases.thy ===== *)
theory ValidateAliases
  imports ValidateResource
begin

text \<open>
  \<open>pkg/schema/aliases.go\<close>: the normal form of a spoken word, the forms a resource or a value is named by, and
  \<open>validateAliases\<close>, which lets every word mean one thing.  Its map \<open>global\<close> is the list of claims in the order
  they are made.
\<close>

section \<open>Forms of a word\<close>

fun collapseRunes :: "bool \<Rightarrow> (string \<times> bool) list \<Rightarrow> string" where
  "collapseRunes space [] = []"
| "collapseRunes space ((r, word) # rs) =
     (if word then r @ collapseRunes False rs
      else if \<not> space then '' '' @ collapseRunes True rs else collapseRunes True rs)"

definition NormalizeText :: "ValidateEnv \<Rightarrow> string \<Rightarrow> string" where
  "NormalizeText env s =
     (let low = unicodeLower env s; out = (case accentStripper env low of Some t \<Rightarrow> t | None \<Rightarrow> low)
      in TrimSpace (collapseRunes True (runesOf env out)))"

definition SingularES :: "string \<Rightarrow> string" where
  "SingularES w =
     (if HasSuffix w ''ones'' \<or> HasSuffix w ''enes'' \<or> HasSuffix w ''ores'' \<or> HasSuffix w ''ales'' \<or>
         HasSuffix w ''iles'' \<or> HasSuffix w ''ades''
      then TrimSuffix w ''es''
      else if HasSuffix w ''s'' \<and> \<not> HasSuffix w ''ss'' \<and> length w > 3 then TrimSuffix w ''s''
      else w)"

definition containsString :: "string list \<Rightarrow> string \<Rightarrow> bool" where
  "containsString xs s \<longleftrightarrow> s \<in> set xs"

fun uniqueLoop :: "string list \<Rightarrow> string list \<Rightarrow> string list" where
  "uniqueLoop out [] = out"
| "uniqueLoop out (s # ss) = uniqueLoop (if containsString out s then out else out @ [s]) ss"

definition uniqueStrings :: "string list \<Rightarrow> string list" where
  "uniqueStrings xs = uniqueLoop [] xs"

definition spaced :: "string \<Rightarrow> string" where
  "spaced s = map (\<lambda>c. if c = CHR ''_'' then CHR '' '' else c) s"

definition NameForms :: "ValidateEnv \<Rightarrow> string \<Rightarrow> string list" where
  "NameForms env nm =
     (let base = spaced (NormalizeText env nm)
      in if base = [] then []
         else uniqueLoop [base] (filter (\<lambda>s. s \<noteq> []) [SingularES base, base @ ''s'', base @ ''es'']))"

definition deVariant :: "string \<Rightarrow> string" where
  "deVariant form = concat (map (\<lambda>c. if c = CHR '' '' then '' de '' else [c]) form)"

definition genderForms :: "string \<Rightarrow> string list" where
  "genderForms form =
     (if HasSuffix form ''a'' \<and> length form > 2 then let x = TrimSuffix form ''a'' @ ''o'' in [x, x @ ''s'']
      else if HasSuffix form ''o'' \<and> length form > 2 then let x = TrimSuffix form ''o'' @ ''a'' in [x, x @ ''s'']
      else [])"

definition ValueForms :: "ValidateEnv \<Rightarrow> string \<Rightarrow> string list" where
  "ValueForms env val =
     (let form = spaced (NormalizeText env val); de = deVariant form
      in if form = [] then []
         else if ContainsStr form '' '' then uniqueStrings [form, form @ ''s'', de, de @ ''s'']
         else uniqueStrings ([form, form @ ''s'', form @ ''es''] @ genderForms form))"

section \<open>Collisions\<close>

record aliasOwner =
  aoKind :: string
  aoWhere :: string

type_synonym aliasClaims = "(string \<times> aliasOwner) list"

definition ownersOf :: "aliasClaims \<Rightarrow> string \<Rightarrow> aliasOwner list" where
  "ownersOf g f = map snd (filter (\<lambda>(k, _). k = f) g)"

definition claimAll :: "string list \<Rightarrow> string \<Rightarrow> string \<Rightarrow> aliasClaims" where
  "claimAll forms kind place = map (\<lambda>f. (f, \<lparr>aoKind = kind, aoWhere = place\<rparr>)) forms"

definition MaxAliasLength :: int where
  "MaxAliasLength = 40"

definition checkAliasText :: "ValidateEnv \<Rightarrow> string \<Rightarrow> string \<Rightarrow> ValidationError + string" where
  "checkAliasText env path a =
     (let n = NormalizeText env a
      in if n = [] then Inl (ruleErr path ''alias_empty'' a [])
         else if runeCount (vStd env) a > MaxAliasLength then Inl (ruleErr path ''alias_too_long'' a [])
         else if length (Appx_Prelude.Fields n) > 4 then Inl (ruleErr path ''alias_too_long'' a [])
         else Inr n)"

definition resourceClaimConflict :: "string \<Rightarrow> string \<Rightarrow> string \<Rightarrow> aliasOwner \<Rightarrow> ValidationError option" where
  "resourceClaimConflict path rn a own =
     (if aoKind own = ''resource'' then Some (ruleErr path ''alias_is_resource_name'' a [])
      else if aoKind own = ''resource alias''
      then (if aoWhere own \<noteq> rn then Some (ruleErr path ''alias_ambiguous'' a []) else None)
      else if aoKind own = ''value'' \<or> aoKind own = ''value alias'' then Some (ruleErr path ''alias_is_value'' a [])
      else None)"

definition resourceAliasCollision ::
  "ValidateEnv \<Rightarrow> string \<Rightarrow> string \<Rightarrow> string \<Rightarrow> string \<Rightarrow> string gomap \<Rightarrow> aliasClaims \<Rightarrow> ValidationError option" where
  "resourceAliasCollision env path rn a n seen global =
     (if list_ex (\<lambda>f. case gm_get seen f of Some prev \<Rightarrow> prev \<noteq> n | None \<Rightarrow> False) (NameForms env n)
      then Some (ruleErr path ''alias_duplicate'' a [])
      else firstSome (\<lambda>f. firstSome (resourceClaimConflict path rn a) (ownersOf global f)) (NameForms env n))"

definition valueAliasCollision ::
  "ValidateEnv \<Rightarrow> string \<Rightarrow> string \<Rightarrow> string \<Rightarrow> string \<Rightarrow> string \<Rightarrow> string gomap \<Rightarrow> aliasClaims \<Rightarrow> ValidationError option" where
  "valueAliasCollision env path fn val a n loc global =
     (case firstSome (\<lambda>f. map_option (\<lambda>own. if own = fn @ '' = '' @ val then ruleErr path ''alias_is_value'' a []
                                             else ruleErr path ''alias_duplicate'' a []) (gm_get loc f)) (ValueForms env n) of
        Some e \<Rightarrow> Some e
      | None \<Rightarrow>
          firstSome (\<lambda>f. firstSome (\<lambda>own. if aoKind own = ''resource'' \<or> aoKind own = ''resource alias''
                                            then Some (ruleErr path ''alias_is_resource_name'' a []) else None) (ownersOf global f))
            (ValueForms env n))"

section \<open>The pass\<close>

text \<open>A loop that collects errors and threads the claims.\<close>

fun collectErrs :: "('a \<Rightarrow> 's \<Rightarrow> ValidationError list \<times> 's) \<Rightarrow> 'a list \<Rightarrow> 's \<Rightarrow> ValidationError list \<times> 's" where
  "collectErrs f [] st = ([], st)"
| "collectErrs f (x # xs) st = (let (es, st1) = f x st; (es', st2) = collectErrs f xs st1 in (es @ es', st2))"

definition schemaField :: "ResourceSchema \<Rightarrow> string \<Rightarrow> FieldDef" where
  "schemaField r fn = (case gm_get (Fields r) fn of Some fd \<Rightarrow> fd | None \<Rightarrow> zeroField [])"

definition resourceSchemaOf :: "APISchema \<Rightarrow> string \<Rightarrow> ResourceSchema" where
  "resourceSchemaOf s rn = (case gm_get (asResources s) rn of Some r \<Rightarrow> r | None \<Rightarrow> zeroResource [])"

definition schemaFieldNames :: "ResourceSchema \<Rightarrow> string list" where
  "schemaFieldNames r = sortedKeys (Fields r)"

definition valueClaims :: "ValidateEnv \<Rightarrow> string \<Rightarrow> ResourceSchema \<Rightarrow> aliasClaims" where
  "valueClaims env rn r =
     concat (map (\<lambda>fn. concat (map (\<lambda>val. claimAll (ValueForms env val) ''value'' (rn @ ''.'' @ fn @ '' = '' @ val))
                                  (Enum (schemaField r fn)))) (schemaFieldNames r))"

definition schemaClaims :: "ValidateEnv \<Rightarrow> APISchema \<Rightarrow> aliasClaims" where
  "schemaClaims env s =
     concat (map (\<lambda>rn. claimAll (NameForms env rn) ''resource'' rn @ valueClaims env rn (resourceSchemaOf s rn)) (resourceNamesList s))"

definition resourceAliasStep ::
  "ValidateEnv \<Rightarrow> string \<Rightarrow> string \<Rightarrow> string \<Rightarrow> string gomap \<times> aliasClaims \<Rightarrow> ValidationError list \<times> string gomap \<times> aliasClaims" where
  "resourceAliasStep env path rn a st =
     (case checkAliasText env path a of
        Inl e \<Rightarrow> ([e], st)
      | Inr n \<Rightarrow>
          (case resourceAliasCollision env path rn a n (fst st) (snd st) of
             Some e \<Rightarrow> ([e], st)
           | None \<Rightarrow> ([], map (\<lambda>f. (f, n)) (NameForms env n) @ fst st,
                          snd st @ claimAll (NameForms env n) ''resource alias'' rn)))"

definition resourceAliasErrors :: "ValidateEnv \<Rightarrow> APISchema \<Rightarrow> string \<Rightarrow> aliasClaims \<Rightarrow> ValidationError list \<times> aliasClaims" where
  "resourceAliasErrors env s rn global =
     (let path = ''resources.'' @ rn @ ''.aliases''
      in case rsAliases (resourceSchemaOf s rn) of
           None \<Rightarrow> ([], global)
         | Some [] \<Rightarrow> ([ruleErr path ''alias_empty_list'' [] []], global)
         | Some as \<Rightarrow> (let (es, st) = collectErrs (resourceAliasStep env path rn) as ([], global) in (es, snd st)))"

definition localForms :: "ValidateEnv \<Rightarrow> ResourceSchema \<Rightarrow> string gomap" where
  "localForms env r =
     rev (concat (map (\<lambda>fn. concat (map (\<lambda>val. map (\<lambda>f. (f, fn @ '' = '' @ val)) (ValueForms env val)) (Enum (schemaField r fn))))
                    (schemaFieldNames r)))"

definition valueAliasStep ::
  "ValidateEnv \<Rightarrow> string \<Rightarrow> string \<Rightarrow> string \<Rightarrow> string \<Rightarrow> string \<Rightarrow> string gomap \<times> aliasClaims \<Rightarrow>
   ValidationError list \<times> string gomap \<times> aliasClaims" where
  "valueAliasStep env path rn fn val a st =
     (case checkAliasText env path a of
        Inl e \<Rightarrow> ([e], st)
      | Inr n \<Rightarrow>
          (case valueAliasCollision env path fn val a n (fst st) (snd st) of
             Some e \<Rightarrow> ([e], st)
           | None \<Rightarrow> ([], map (\<lambda>f. (f, fn @ '' = '' @ val @ '' (alias '' @ a @ '')'')) (ValueForms env n) @ fst st,
                          snd st @ claimAll (ValueForms env n) ''value alias'' (rn @ ''.'' @ fn @ '' = '' @ val))))"

definition valueKeyStep ::
  "ValidateEnv \<Rightarrow> string \<Rightarrow> string \<Rightarrow> string \<Rightarrow> FieldDef \<Rightarrow> string list gomap \<Rightarrow> string \<Rightarrow> string gomap \<times> aliasClaims \<Rightarrow>
   ValidationError list \<times> string gomap \<times> aliasClaims" where
  "valueKeyStep env path rn fn fd aliases val st =
     (let p = path @ ''.'' @ val; as = (case gm_get aliases val of Some as \<Rightarrow> as | None \<Rightarrow> [])
      in if \<not> containsString (Enum fd) val then ([ruleErr p ''alias_unknown_value'' val (Enum fd)], st)
         else if as = [] then ([ruleErr p ''alias_empty_list'' [] []], st)
         else collectErrs (valueAliasStep env p rn fn val) as st)"

definition valueFieldStep ::
  "ValidateEnv \<Rightarrow> string \<Rightarrow> ResourceSchema \<Rightarrow> string \<Rightarrow> string gomap \<times> aliasClaims \<Rightarrow> ValidationError list \<times> string gomap \<times> aliasClaims" where
  "valueFieldStep env rn r fn st =
     (let fd = schemaField r fn; path = ''resources.'' @ rn @ ''.fields.'' @ fn @ ''.aliases''
      in case fAliases fd of
           None \<Rightarrow> ([], st)
         | Some aliases \<Rightarrow>
             if Enum fd = [] then ([ruleErr path ''alias_needs_enum'' [] []], st)
             else if aliases = [] then ([ruleErr path ''alias_empty_list'' [] []], st)
             else collectErrs (valueKeyStep env path rn fn fd aliases) (sortedKeys aliases) st)"

definition valueAliasErrors :: "ValidateEnv \<Rightarrow> APISchema \<Rightarrow> string \<Rightarrow> aliasClaims \<Rightarrow> ValidationError list \<times> aliasClaims" where
  "valueAliasErrors env s rn global =
     (let r = resourceSchemaOf s rn;
          (es, st) = collectErrs (valueFieldStep env rn r) (schemaFieldNames r) (localForms env r, global)
      in (es, snd st))"

definition validateAliases :: "ValidateEnv \<Rightarrow> APISchema \<Rightarrow> ValidationError list" where
  "validateAliases env s =
     (let (es, global) = collectErrs (resourceAliasErrors env s) (resourceNamesList s) (schemaClaims env s);
          (es', _) = collectErrs (valueAliasErrors env s) (resourceNamesList s) global
      in es @ es')"

end
