(* ===== verification/ValidateSchema.thy ===== *)
theory ValidateSchema
  imports ValidateRbac ValidateWorkflows ValidateAliases "HOL-Library.Product_Lexorder"
begin

text \<open>
  The schema level of the validator: derived GraphQL names (\<open>graphqlnames.go\<close>) and relation subroutes
  (\<open>subroutes.go\<close>) with their collision checks, the \<open>summary\<close> block, and \<open>Validate\<close> itself.
\<close>

section \<open>Derived names\<close>

definition GraphQLSingular :: "string \<Rightarrow> string" where
  "GraphQLSingular nm =
     (if HasSuffix nm ''ches'' then TrimSuffix nm ''es''
      else if HasSuffix nm ''ses'' then TrimSuffix nm ''ses'' @ ''s''
      else if HasSuffix nm ''ies'' then TrimSuffix nm ''ies'' @ ''y''
      else TrimSuffix nm ''s'')"

text \<open>\<open>strings.FieldsFunc\<close> and \<open>strings.ToUpper\<close> of one ASCII byte.\<close>

definition upper_char :: "char \<Rightarrow> char" where
  "upper_char c = (if identStart c then char_of ((of_char c :: nat) - 32) else c)"

fun fieldsFunc :: "(char \<Rightarrow> bool) \<Rightarrow> string \<Rightarrow> string \<Rightarrow> string list" where
  "fieldsFunc sep acc [] = (if acc = [] then [] else [acc])"
| "fieldsFunc sep acc (c # cs) =
     (if sep c then (if acc = [] then fieldsFunc sep [] cs else acc # fieldsFunc sep [] cs)
      else fieldsFunc sep (acc @ [c]) cs)"

definition GraphQLPascal :: "string \<Rightarrow> string" where
  "GraphQLPascal s =
     concat (map (\<lambda>p. case p of [] \<Rightarrow> [] | c # cs \<Rightarrow> upper_char c # cs) (fieldsFunc (\<lambda>c. c = CHR ''-'' \<or> c = CHR ''_'') [] s))"

definition GraphQLTypeName :: "string \<Rightarrow> string" where
  "GraphQLTypeName resourceName = GraphQLPascal (GraphQLSingular resourceName)"

definition RelationSubroute :: "string \<Rightarrow> string" where
  "RelationSubroute fieldName = TrimSuffix fieldName ''_id''"

definition groupBy :: "(string \<Rightarrow> string) \<Rightarrow> string list \<Rightarrow> string list gomap" where
  "groupBy key names =
     fold (\<lambda>n m. gm_put (key n) ((case gm_get m (key n) of Some ns \<Rightarrow> ns | None \<Rightarrow> []) @ [n]) m) names []"

definition collisions :: "(string \<Rightarrow> string) \<Rightarrow> string list \<Rightarrow> string list list" where
  "collisions key names =
     (let m = groupBy key names
      in map sort (filter (\<lambda>ns. \<not> length ns < 2) (map (\<lambda>k. case gm_get m k of Some ns \<Rightarrow> ns | None \<Rightarrow> []) (sortedKeys m))))"

definition validateGraphQLTypeCollisions :: "APISchema \<Rightarrow> ValidationError list" where
  "validateGraphQLTypeCollisions s =
     map (\<lambda>names. ruleErr (''resources.'' @ hd names) ''graphql_type_collision'' (join_with '', '' names) [])
       (collisions GraphQLTypeName (filter resourceNameRe (map fst (asResources s))))"

definition subrouteFields :: "ResourceSchema \<Rightarrow> string list" where
  "subrouteFields res = map fst (filter (\<lambda>(fieldName, fd). \<not> (Relation fd = [] \<or> \<not> fieldNameRe fieldName)) (Fields res))"

definition validateRelationSubrouteCollisions :: "APISchema \<Rightarrow> ValidationError list" where
  "validateRelationSubrouteCollisions s =
     concat (map (\<lambda>resName.
       map (\<lambda>names. ruleErr (''resources.'' @ resName @ ''.fields.'' @ hd names) ''relation_subroute_collision''
                      (join_with '', '' names) [])
         (collisions RelationSubroute (subrouteFields (resourceSchemaOf s resName)))) (sortedKeys (asResources s)))"

section \<open>The summary block\<close>

definition resourceDeclared :: "APISchema \<Rightarrow> string \<Rightarrow> bool" where
  "resourceDeclared s nm = gm_has (asResources s) nm"

fun summaryErrors :: "APISchema \<Rightarrow> string list \<Rightarrow> string list \<Rightarrow> ValidationError list" where
  "summaryErrors s seen [] = []"
| "summaryErrors s seen (nm # nms) =
     (if nm = [] then [ruleErr ''summary.resources'' ''summary_resource_empty'' [] []]
      else if \<not> resourceDeclared s nm then [ruleErr ''summary.resources'' ''summary_unknown_resource'' nm (resourceNamesList s)]
      else if nm \<in> set seen then [ruleErr ''summary.resources'' ''summary_duplicate_resource'' nm []]
      else []) @ summaryErrors s (nm # seen) nms"

definition validateSummary :: "APISchema \<Rightarrow> ValidationError list" where
  "validateSummary s =
     (case Summary s of
        None \<Rightarrow> []
      | Some c \<Rightarrow>
          errIf (sumNotify c \<noteq> [] \<and> sumNotify c \<noteq> ''changes'' \<and> sumNotify c \<noteq> ''always'')
            (ruleErr ''summary.notify'' ''summary_notify_invalid'' (sumNotify c) [''changes'', ''always'']) @
          (case QuietDays c of
             None \<Rightarrow> []
           | Some d \<Rightarrow> errIf (d < 0) (ruleErr ''summary.quiet_days'' ''summary_quiet_days_negative'' (Itoa d) [])) @
          (case sumResources c of
             None \<Rightarrow> []
           | Some [] \<Rightarrow> [ruleErr ''summary.resources'' ''summary_resources_empty'' [] []]
           | Some names \<Rightarrow> summaryErrors s [] names))"

section \<open>Validate\<close>

definition collectAll :: "ValidateEnv \<Rightarrow> APISchema \<Rightarrow> ValidationError list" where
  "collectAll env s =
     concat (map (\<lambda>(resName, res). validateResource env s resName res) (asResources s)) @
     validateGraphQLTypeCollisions s @ validateRelationSubrouteCollisions s @ validateRBAC s @
     validateWorkflows env s @ validateSummary s @ validateAliases env s"

definition Validate :: "ValidateEnv \<Rightarrow> APISchema \<Rightarrow> ValidationError list" where
  "Validate env s = sort_key (\<lambda>e. (veField e, veRule e)) (collectAll env s)"

end
