(* ===== verification/ValidateFacts.thy ===== *)
theory ValidateFacts
  imports ValidateSchema WriteSql
begin

text \<open>
  What an accepted schema guarantees to the components that run it: the evaluator and the SQL builders get
  conditions they can apply, the anonymous surface is read-only, derived names do not collide, spoken words
  mean one thing and workflows can fire.
\<close>

section \<open>Acceptance\<close>

lemma Validate_accepts: "Validate env s = [] \<longleftrightarrow> collectAll env s = []"
  unfolding Validate_def by (metis length_0_conv length_sort)

lemmas accepted_parts = Validate_accepts collectAll_def

lemma accepted_resource:
  assumes "Validate env s = []" "gm_get (asResources s) n = Some res"
  shows "validateResource env s n res = []"
  using assms gm_get_in [OF assms(2)] by (force simp: accepted_parts)

lemma accepted_field:
  assumes "Validate env s = []" "gm_get (asResources s) n = Some res" "gm_get (Fields res) f = Some fd"
  shows "validateField (vStd env) s (''resources.'' @ n) res f fd = []"
  using accepted_resource [OF assms(1,2)] gm_get_in [OF assms(3)] by (force simp: validateResource_def Let_def)

lemma accepted_field_name:
  assumes "Validate env s = []" "gm_get (asResources s) n = Some res" "gm_has (Fields res) f"
  shows "bareIdent f" "f \<noteq> ''id''"
  using accepted_field [OF assms(1,2)] assms(3)
  by (auto simp: gm_has_def validateField_def Let_def fieldNameErrors_def fieldNameRe_def)

lemma accepted_resource_name:
  assumes "Validate env s = []" "gm_has (asResources s) n"
  shows "bareIdent n" "\<not> HasPrefix n ''auth_''" "n \<notin> {''transaction'', ''summary'', ''ask''}"
  using accepted_resource [OF assms(1)] assms(2)
  by (auto simp: gm_has_def validateResource_def Let_def resourceNameErrors_def resourceNameRe_def)

lemma bareIdent_id: "bareIdent ''id''"
  by code_simp

lemma rbacFieldExists_ident:
  assumes "Validate env s = []" "gm_get (asResources s) n = Some res" "rbacFieldExists res f"
  shows "bareIdent f"
  using assms accepted_field_name(1) [OF assms(1,2)] bareIdent_id by (auto simp: rbacFieldExists_def simp del: bareIdent.simps)

lemma accepted_reference:
  assumes "Validate env s = []" "gm_get (asResources s) n = Some res" "gm_get (Fields res) k = Some f" "References f \<noteq> []" "References f \<noteq> ''id''"
  obtains tres where "gm_get (asResources s) (Relation f) = Some tres" "gm_has (Fields tres) (References f)"
    "columnsAreUniqueOnTarget tres [References f]" "Relation f \<noteq> []"
proof -
  let ?p = "''resources.'' @ n @ ''.fields.'' @ k"
  have ok: "fieldNameErrors ?p k f = []" "referencesErrors s ?p f = []" "relationTargetErrors s ?p f = []"
    using accepted_field [OF assms(1-3)] by (simp_all add: validateField_def Let_def)
  obtain tres where t: "gm_get (asResources s) (Relation f) = Some tres" "Relation f \<noteq> []"
    using ok(2,3) assms(4,5) by (auto simp: referencesErrors_def relationTargetErrors_def gm_has_def Let_def split: if_splits option.split_asm)
  have uq: "pgKindForAPIType (fType f) = refColumnKind tres (References f)" "columnsAreUniqueOnTarget tres [References f]"
    using ok(2) assms(4,5) t by (auto simp: referencesErrors_def Let_def split: if_splits)
  moreover have "pgKindForAPIType (fType f) \<noteq> []"
    using ok(1) by (auto simp: fieldNameErrors_def validFieldTypes_def pgKindForAPIType_def)
  ultimately have "gm_has (Fields tres) (References f)" using assms(5) by (auto simp: refColumnKind_def gm_has_def split: option.splits)
  then show ?thesis using that t uq(2) by blast
qed

section \<open>Row conditions\<close>

text \<open>A condition the validator accepts on a resource.\<close>

definition soundCondition :: "ResourceSchema \<Rightarrow> Condition \<Rightarrow> bool" where
  "soundCondition res c \<longleftrightarrow>
     rbacFieldExists res (Field c) \<and> Op c \<in> {[], ''eq''} \<and> (HasPrefix (Val c) ''$'' \<longrightarrow> IsIdentityVar (Val c))"

lemma accepted_role:
  assumes "Validate env s = []" "gm_get (plainRoles (asRBAC s)) r = Some rp"
  shows "roleErrors s r rp = []"
  using assms gm_get_in [OF assms(2)] by (force simp: accepted_parts validateRBAC_def)

lemma accepted_public:
  assumes "Validate env s = []" "gm_get (plainPublic (asRBAC s)) n = Some perm"
  shows "publicErrors s n perm = []"
  using assms gm_get_in [OF assms(2)] by (force simp: accepted_parts validateRBAC_def validatePublicBlock_def)

lemma validateCondition_sound:
  assumes "validateConditionOp p c = []" "validateConditionVal p c = []" "rbacFieldExists res (Field c)"
  shows "soundCondition res c"
  using assms
  by (auto simp: soundCondition_def validateConditionOp_def validateConditionVal_def validConditionOps_def
      conditionVariables_def IsIdentityVar_def)

lemma permission_condition_sound:
  assumes "permissionErrors s p n perm = []" "gm_get (asResources s) n = Some res" "permConditions perm = Some c"
  shows "soundCondition res c"
  using assms
  by (intro validateCondition_sound) (auto simp: permissionErrors_def Let_def conditionFieldErrors_def split: if_splits)

lemma applicable_iff:
  assumes "gm_has (asResources s) n"
  shows "n \<in> set (applicableResources raw s) \<longleftrightarrow> resourceAllowed raw n"
  using assms
  by (auto simp: applicableResources_def resourceAllowed_def parseResources_def decideResources_def gm_has_iff
      split: option.splits)

lemma global_condition_sound:
  assumes "validateRoleGlobal p rp s = []" "gm_get (asResources s) n = Some res" "resourceAllowed (Resources rp) n"
    "Conditions rp = Some c"
  shows "soundCondition res c"
proof -
  have n: "n \<in> set (applicableResources (Resources rp) s)"
    using applicable_iff [of s n] assms(2,3) by (simp add: gm_has_def)
  have "resourcesMissingField (Field c) (applicableResources (Resources rp) s) s = []"
    using assms(1,4) by (auto simp: validateRoleGlobal_def Let_def split: if_splits)
  then have "rbacFieldExists res (Field c)"
    using n assms(2) by (force simp: resourcesMissingField_def filter_empty_conv)
  then show ?thesis
    using assms(1,4) by (intro validateCondition_sound) (auto simp: validateRoleGlobal_def Let_def)
qed

lemma public_condition_sound:
  assumes "publicErrors s n perm = []" "gm_get (asResources s) n = Some res" "permConditions perm = Some c"
  shows "rbacFieldExists res (Field c)" "Op c \<in> {[], ''eq''}" "\<not> IsIdentityVar (Val c)"
  using assms
  by (auto simp: publicErrors_def Let_def conditionFieldErrors_def validateConditionOp_def validConditionOps_def
      IsIdentityVar_def split: if_splits)

text \<open>The policy of a schema gives each role its declaration, and \<open>$public\<close> the public block.\<close>

lemma policy_role_cases:
  assumes "gm_get (Roles (UnmarshalPolicy (asRBAC s))) r = Some rp" "Validate env s = []"
  obtains "r \<noteq> PublicRoleName" "gm_get (plainRoles (asRBAC s)) r = Some rp"
  | "r = PublicRoleName" "rp = emptyRolePolicy\<lparr>Permissions := plainPublic (asRBAC s)\<rparr>"
  using assms accepted_role [OF assms(2), of r]
  by (fastforce simp: UnmarshalPolicy_def gm_get_put roleErrors_def Let_def split: if_splits)

lemma evaluated_condition:
  assumes "Validate env s = []" "gm_get (asResources s) n = Some res"
    "evCondition (Evaluate (UnmarshalPolicy (asRBAC s)) ctx n action) = Some w"
  obtains c where "w = resolveCondition c ctx" "rbacFieldExists res (Field c)" "Op c \<in> {[], ''eq''}"
    "Role ctx \<noteq> PublicRoleName \<Longrightarrow> soundCondition res c" "Role ctx = PublicRoleName \<Longrightarrow> \<not> IsIdentityVar (Val c)"
proof -
  obtain rp where rp: "gm_get (Roles (UnmarshalPolicy (asRBAC s))) (Role ctx) = Some rp"
    using assms(3) by (cases "gm_get (Roles (UnmarshalPolicy (asRBAC s))) (Role ctx)") (auto simp: Evaluate_def denied_def)
  have c: "\<exists>c. w = resolveCondition c ctx \<and>
      ((\<exists>perm. gm_get (Permissions rp) n = Some perm \<and> permConditions perm = Some c) \<or>
       Permissions rp = [] \<and> resourceAllowed (Resources rp) n \<and> Conditions rp = Some c)"
    using assms(3) rp by (auto simp: Evaluate_def denied_def split: option.splits if_splits)
  then obtain c where w: "w = resolveCondition c ctx" and
    src: "(\<exists>perm. gm_get (Permissions rp) n = Some perm \<and> permConditions perm = Some c) \<or>
       Permissions rp = [] \<and> resourceAllowed (Resources rp) n \<and> Conditions rp = Some c" by blast
  show ?thesis
  proof (rule policy_role_cases [OF rp assms(1)])
    assume r: "Role ctx \<noteq> PublicRoleName" "gm_get (plainRoles (asRBAC s)) (Role ctx) = Some rp"
    from accepted_role [OF assms(1) r(2)] r(1) have errs: "Permissions rp = [] \<Longrightarrow> validateRoleGlobal (''rbac.roles.'' @ Role ctx) rp s = []"
      "\<And>m perm. (m, perm) \<in> set (Permissions rp) \<Longrightarrow> permissionErrors s (''rbac.roles.'' @ Role ctx) m perm = []"
      by (auto simp: roleErrors_def Let_def split: if_splits)
    have "soundCondition res c"
      using src permission_condition_sound [OF errs(2) assms(2)] global_condition_sound [OF errs(1) assms(2)]
      by (auto dest: gm_get_in)
    then show ?thesis using that [OF w] r(1) by (auto simp: soundCondition_def)
  next
    assume r: "Role ctx = PublicRoleName" "rp = emptyRolePolicy\<lparr>Permissions := plainPublic (asRBAC s)\<rparr>"
    with src obtain perm where "gm_get (plainPublic (asRBAC s)) n = Some perm" "permConditions perm = Some c"
      by (auto simp: emptyRolePolicy_def)
    then show ?thesis
      using that [OF w] r(1) public_condition_sound [OF accepted_public [OF assms(1)] assms(2)] by blast
  qed
qed

text \<open>C8: in an accepted schema, every row condition the evaluator hands to a query on a declared resource can be
  applied as declared: its column exists, its operator is the equality the engine enforces, the query builder
  accepts it and appends exactly one equality with the value as a parameter, and for an authenticated role a
  dollar-prefixed value is one of the variables the evaluator substitutes.\<close>

theorem accepted_conditions_apply:
  assumes "Validate env s = []" "gm_get (asResources s) n = Some res"
    "evCondition (Evaluate (UnmarshalPolicy (asRBAC s)) ctx n action) = Some w"
  shows "rbacFieldExists res (wField w) \<and> wOp w \<in> {[], ''eq''} \<and>
         AppendRowCondition sql args (Some w) =
           Inr (sql @ '' AND '' @ wField w @ '' = '' @ placeholder (length args + 1), args @ [Arg (GStr (wValue w))]) \<and>
         (Role ctx \<noteq> PublicRoleName \<longrightarrow> Identity w \<or> \<not> HasPrefix (wValue w) ''$'')"
proof (rule evaluated_condition [OF assms])
  fix c
  assume c: "w = resolveCondition c ctx" "rbacFieldExists res (Field c)" "Op c \<in> {[], ''eq''}"
    "Role ctx \<noteq> PublicRoleName \<Longrightarrow> soundCondition res c"
  have "bareIdent (Field c)" by (rule rbacFieldExists_ident [OF assms(1,2) c(2)])
  then show ?thesis
    using c by (auto simp: AppendRowCondition_def resolveCondition_def soundCondition_def resolveVar_def IsIdentityVar_def)
qed

text \<open>C9: the anonymous surface of an accepted schema reads and does nothing else: whatever the role \<open>$public\<close>
  may do is reading a declared resource or the file store, and its verdict and row condition are the same for
  every caller.\<close>

theorem anonymous_surface_is_read_only:
  assumes "Validate env s = []" "Allows (UnmarshalPolicy (asRBAC s)) PublicRoleName n action"
  shows "action = ''read'' \<and> (gm_has (asResources s) n \<or> n = ''files'') \<and>
         Evaluate (UnmarshalPolicy (asRBAC s)) \<lparr>Role = PublicRoleName, UserID = u, ExternalClientID = x\<rparr> n action =
         Evaluate (UnmarshalPolicy (asRBAC s)) \<lparr>Role = PublicRoleName, UserID = u', ExternalClientID = x'\<rparr> n action"
proof -
  obtain rp where rp: "gm_get (Roles (UnmarshalPolicy (asRBAC s))) PublicRoleName = Some rp"
    using assms(2) by (auto simp: Allows_def split: option.splits)
  then have r: "rp = emptyRolePolicy\<lparr>Permissions := plainPublic (asRBAC s)\<rparr>"
    by (rule policy_role_cases [OF _ assms(1)]) auto
  with assms(2) rp obtain perm where perm: "gm_get (plainPublic (asRBAC s)) n = Some perm" "actionAllowed (permActions perm) action"
    by (auto simp: Allows_def routeGrantFor_def emptyRolePolicy_def resourceAllowed_def parseResources_def
        decideResources_def split: option.splits if_splits)
  have ok: "publicErrors s n perm = []" using accepted_public [OF assms(1) perm(1)] .
  then have read: "permActions perm = [''read'']" and n: "gm_has (asResources s) n \<or> n = ''files''"
    by (auto simp: publicErrors_def Let_def gm_has_def split: option.splits if_splits)
  have "\<not> IsIdentityVar (Val c)" if "permConditions perm = Some c" for c
  proof (cases "gm_get (asResources s) n")
    case None
    then show ?thesis using ok that by (auto simp: publicErrors_def Let_def split: if_splits)
  qed (use public_condition_sound(3) [OF ok _ that] in blast)
  then have same: "resolveCondition c ctx = resolveCondition c ctx'" if "permConditions perm = Some c" for c ctx ctx'
    using that by (auto simp: resolveCondition_def resolveVar_def IsIdentityVar_def)
  show ?thesis
    using read n perm same rp r
    by (auto simp: Evaluate_def routeGrantFor_def emptyRolePolicy_def split: option.splits if_splits)
qed

section \<open>Derived names\<close>

lemma groupBy_get:
  assumes "distinct names"
  shows "gm_get (fold (\<lambda>n m. gm_put (key n) ((case gm_get m (key n) of Some ns \<Rightarrow> ns | None \<Rightarrow> []) @ [n]) m) names m0) k =
         (let ns = filter (\<lambda>n. key n = k) names
          in if ns = [] then gm_get m0 k else Some ((case gm_get m0 k of Some ns0 \<Rightarrow> ns0 | None \<Rightarrow> []) @ ns))"
  using assms by (induction names arbitrary: m0) (auto simp: gm_get_put Let_def)

lemma collisions_Nil_iff:
  assumes "distinct names"
  shows "collisions key names = [] \<longleftrightarrow> inj_on key (set names)"
proof -
  let ?m = "groupBy key names"
  have get: "gm_get ?m k = (let ns = filter (\<lambda>n. key n = k) names in if ns = [] then None else Some ns)" for k
    unfolding groupBy_def by (subst groupBy_get [OF assms]) (simp add: Let_def)
  have keys: "fst ` set ?m = key ` set names"
    using get by (force simp: dom_map_of_conv_image_fst [symmetric] dom_def filter_empty_conv Let_def image_iff split: if_splits)
  have "collisions key names = [] \<longleftrightarrow> (\<forall>k \<in> key ` set names. length (filter (\<lambda>n. key n = k) names) < 2)"
    unfolding collisions_def Let_def by (auto simp: filter_empty_conv keys get Let_def split: option.splits)
  also have "\<dots> \<longleftrightarrow> inj_on key (set names)"
  proof -
    have "length (filter (\<lambda>n. key n = k) names) = card {n \<in> set names. key n = k}" for k
      using assms by (metis distinct_card distinct_filter set_filter)
    then show ?thesis
      by (simp add: inj_on_def less_Suc_eq_le numeral_2_eq_2 card_le_Suc0_iff_eq) metis
  qed
  finally show ?thesis .
qed

text \<open>In an accepted schema no two resources derive the same GraphQL type name and no two relation fields of a
  resource derive the same subroute, so neither the GraphQL schema nor the router ever sees a duplicate.\<close>

theorem accepted_names_do_not_collide:
  assumes "Validate env s = []" "gm_wf (asResources s)" "gm_get (asResources s) n = Some res" "gm_wf (Fields res)"
  shows "inj_on GraphQLTypeName (fst ` set (asResources s)) \<and>
         inj_on RelationSubroute {f. \<exists>fd. gm_get (Fields res) f = Some fd \<and> Relation fd \<noteq> []}"
proof
  have "\<forall>m \<in> fst ` set (asResources s). resourceNameRe m"
    using accepted_resource_name(1) [OF assms(1)] by (auto simp: gm_has_iff resourceNameRe_def simp del: bareIdent.simps)
  then have "filter resourceNameRe (map fst (asResources s)) = map fst (asResources s)" by (auto intro!: filter_True)
  then have "collisions GraphQLTypeName (map fst (asResources s)) = []"
    using assms(1) by (simp add: accepted_parts validateGraphQLTypeCollisions_def)
  then show "inj_on GraphQLTypeName (fst ` set (asResources s))"
    using assms(2) by (simp add: collisions_Nil_iff gm_wf_def)
next
  have "n \<in> fst ` set (asResources s)" using gm_get_in [OF assms(3)] by force
  then have "collisions RelationSubroute (subrouteFields (resourceSchemaOf s n)) = []"
    using assms(1) by (auto simp: accepted_parts validateRelationSubrouteCollisions_def)
  then have "collisions RelationSubroute (subrouteFields res) = []" by (simp add: resourceSchemaOf_def assms(3))
  moreover have "distinct (subrouteFields res)"
    using assms(4) by (auto simp: subrouteFields_def gm_wf_def distinct_map intro: inj_on_subset)
  ultimately have inj: "inj_on RelationSubroute (set (subrouteFields res))" by (simp add: collisions_Nil_iff)
  have "{f. \<exists>fd. gm_get (Fields res) f = Some fd \<and> Relation fd \<noteq> []} \<subseteq> set (subrouteFields res)"
  proof clarify
    fix f fd
    assume f: "gm_get (Fields res) f = Some fd" "Relation fd \<noteq> []"
    then have "fieldNameRe f"
      using accepted_field_name(1) [OF assms(1,3)] by (simp add: gm_has_def fieldNameRe_def del: bareIdent.simps)
    then show "f \<in> set (subrouteFields res)" using f gm_get_in [OF f(1)] by (force simp: subrouteFields_def)
  qed
  then show "inj_on RelationSubroute {f. \<exists>fd. gm_get (Fields res) f = Some fd \<and> Relation fd \<noteq> []}"
    using inj by (rule inj_on_subset [rotated])
qed

section \<open>Spoken words\<close>

lemma collectErrs_step [simp]:
  "fst (collectErrs f (x # xs) st) = fst (f x st) @ fst (collectErrs f xs (snd (f x st)))"
  "snd (collectErrs f (x # xs) st) = snd (collectErrs f xs (snd (f x st)))"
  by (simp_all add: split_beta Let_def)

declare collectErrs.simps(2) [simp del]

lemma collectErrs_inv:
  assumes "fst (collectErrs f xs st) = []" "I st" "\<And>x st. x \<in> set xs \<Longrightarrow> I st \<Longrightarrow> fst (f x st) = [] \<Longrightarrow> I (snd (f x st))"
  shows "I (snd (collectErrs f xs st))"
  using assms by (induction xs arbitrary: st) auto

lemma collectErrs_grow:
  assumes "\<And>y st. g st \<subseteq> g (snd (f y st))"
  shows "g st \<subseteq> g (snd (collectErrs f xs st))"
  using assms by (induction xs arbitrary: st) (simp, metis collectErrs_step(2) order_trans)

lemma collectErrs_visit:
  assumes "fst (collectErrs f xs st) = []" "x \<in> set xs" "\<And>y st. g st \<subseteq> g (snd (f y st))"
  shows "\<exists>st1. fst (f x st1) = [] \<and> g (snd (f x st1)) \<subseteq> g (snd (collectErrs f xs st))"
  using assms(1,2)
proof (induction xs arbitrary: st)
  case (Cons y ys)
  then show ?case using collectErrs_grow [of g f "snd (f y st)" ys, OF assms(3)] by (cases "x = y") auto
qed simp

lemma in_claimAll [simp]: "(f, own) \<in> set (claimAll forms kind place) \<longleftrightarrow> f \<in> set forms \<and> own = \<lparr>aoKind = kind, aoWhere = place\<rparr>"
  by (auto simp: claimAll_def)

lemma set_ownersOf [simp]: "own \<in> set (ownersOf g f) \<longleftrightarrow> (f, own) \<in> set g"
  by (force simp: ownersOf_def)

lemma firstSome_None [simp]: "firstSome f xs = None \<longleftrightarrow> (\<forall>x \<in> set xs. f x = None)"
  by (induction xs) (auto split: option.splits)

text \<open>A form claimed by a resource alias is claimed by nothing else.\<close>

definition aliasesApart :: "aliasClaims \<Rightarrow> bool" where
  "aliasesApart g \<longleftrightarrow>
     (\<forall>(f, own) \<in> set g. aoKind own \<in> {''resource'', ''resource alias'', ''value'', ''value alias''}) \<and>
     (\<forall>f own own'. (f, own) \<in> set g \<longrightarrow> (f, own') \<in> set g \<longrightarrow> aoKind own = ''resource alias'' \<longrightarrow> own' = own)"

abbreviation resourceAliasClaim :: "string \<Rightarrow> aliasOwner" where
  "resourceAliasClaim rn \<equiv> \<lparr>aoKind = ''resource alias'', aoWhere = rn\<rparr>"

abbreviation valueAliasClaim :: "string \<Rightarrow> string \<Rightarrow> string \<Rightarrow> aliasOwner" where
  "valueAliasClaim rn fn val \<equiv> \<lparr>aoKind = ''value alias'', aoWhere = rn @ ''.'' @ fn @ '' = '' @ val\<rparr>"

text \<open>A pass over aliases only adds claims, and an accepted step keeps them apart.\<close>

locale alias_pass =
  fixes view :: "'s \<Rightarrow> aliasClaims" and step :: "'a \<Rightarrow> 's \<Rightarrow> ValidationError list \<times> 's"
  assumes grows: "set (view st) \<subseteq> set (view (snd (step x st)))"
    and keeps_apart: "fst (step x st) = [] \<Longrightarrow> aliasesApart (view st) \<Longrightarrow> aliasesApart (view (snd (step x st)))"
begin

lemma all_grow: "set (view st) \<subseteq> set (view (snd (collectErrs step xs st)))"
  by (rule collectErrs_grow [where g = "\<lambda>st. set (view st)"]) (rule grows)

lemma all_apart:
  "fst (collectErrs step xs st) = [] \<Longrightarrow> aliasesApart (view st) \<Longrightarrow> aliasesApart (view (snd (collectErrs step xs st)))"
  by (erule collectErrs_inv [where I = "\<lambda>st. aliasesApart (view st)"]) (auto intro: keeps_apart)

lemma visited:
  assumes "fst (collectErrs step xs st) = []" "x \<in> set xs"
  obtains st1 where "fst (step x st1) = []" "set (view (snd (step x st1))) \<subseteq> set (view (snd (collectErrs step xs st)))"
  using collectErrs_visit [where g = "\<lambda>st. set (view st)", OF assms grows] by blast

lemma visited_within:
  assumes "fst (collectErrs step xs st) = []" "x \<in> set xs" "set (view (snd (collectErrs step xs st))) \<subseteq> G"
  obtains st1 where "fst (step x st1) = []" "set (view (snd (step x st1))) \<subseteq> G"
  by (rule visited [OF assms(1,2)]) (use assms(3) that in blast)

end

lemma schemaClaims_apart: "aliasesApart (schemaClaims env s)"
  by (auto simp: aliasesApart_def schemaClaims_def valueClaims_def)

lemma checkAliasText_Inr: "checkAliasText env p a = Inr n \<Longrightarrow> n = NormalizeText env a"
  by (auto simp: checkAliasText_def Let_def split: if_splits)

lemma resourceAliasStep_facts:
  shows "set (snd st) \<subseteq> set (snd (snd (resourceAliasStep env p rn a st)))"
    and "fst (resourceAliasStep env p rn a st) = [] \<Longrightarrow>
         (f, resourceAliasClaim rn) \<in> set (snd (snd (resourceAliasStep env p rn a st))) \<or> f \<notin> set (NameForms env (NormalizeText env a))"
    and "fst (resourceAliasStep env p rn a st) = [] \<Longrightarrow> aliasesApart (snd st) \<Longrightarrow>
         aliasesApart (snd (snd (resourceAliasStep env p rn a st)))"
proof -
  show "set (snd st) \<subseteq> set (snd (snd (resourceAliasStep env p rn a st)))"
    by (auto simp: resourceAliasStep_def split: sum.splits option.splits)
  assume "fst (resourceAliasStep env p rn a st) = []"
  then obtain n where n: "checkAliasText env p a = Inr n" "resourceAliasCollision env p rn a n (fst st) (snd st) = None"
    by (auto simp: resourceAliasStep_def split: sum.splits option.splits)
  then have st: "snd (snd (resourceAliasStep env p rn a st)) = snd st @ claimAll (NameForms env n) ''resource alias'' rn"
    by (simp add: resourceAliasStep_def)
  show "(f, resourceAliasClaim rn) \<in> set (snd (snd (resourceAliasStep env p rn a st))) \<or> f \<notin> set (NameForms env (NormalizeText env a))"
    unfolding st checkAliasText_Inr [OF n(1)] by auto
  assume apart: "aliasesApart (snd st)"
  have "own = resourceAliasClaim rn" if "(g, own) \<in> set (snd st)" "g \<in> set (NameForms env n)" for g own
  proof -
    have "resourceClaimConflict p rn a own = None"
      using n(2) that by (auto simp: resourceAliasCollision_def split: if_splits)
    then show ?thesis using apart that(1) by (cases own) (auto simp: resourceClaimConflict_def aliasesApart_def split: if_splits)
  qed
  then show "aliasesApart (snd (snd (resourceAliasStep env p rn a st)))"
    using apart unfolding st aliasesApart_def by auto
qed

interpretation resource_pass: alias_pass snd "resourceAliasStep env p rn" for env p rn
  by unfold_locales (fact resourceAliasStep_facts)+

lemma resourceAliasErrors_snd:
  "snd (resourceAliasErrors env s rn g) =
     (case rsAliases (resourceSchemaOf s rn) of
        None \<Rightarrow> g
      | Some as \<Rightarrow> snd (snd (collectErrs (resourceAliasStep env (''resources.'' @ rn @ ''.aliases'') rn) as ([], g))))"
  "fst (resourceAliasErrors env s rn g) = [] \<Longrightarrow> rsAliases (resourceSchemaOf s rn) = Some as \<Longrightarrow>
     fst (collectErrs (resourceAliasStep env (''resources.'' @ rn @ ''.aliases'') rn) as ([], g)) = []"
  by (auto simp: resourceAliasErrors_def Let_def split_beta split: option.splits list.splits)

interpretation resources_pass: alias_pass id "resourceAliasErrors env s" for env s
proof unfold_locales
  fix env s rn and g :: aliasClaims
  show "set (id g) \<subseteq> set (id (snd (resourceAliasErrors env s rn g)))"
    using resource_pass.all_grow [of "([], g)"] by (auto simp: resourceAliasErrors_snd split: option.splits)
  show "fst (resourceAliasErrors env s rn g) = [] \<Longrightarrow> aliasesApart (id g) \<Longrightarrow> aliasesApart (id (snd (resourceAliasErrors env s rn g)))"
    using resource_pass.all_apart [of env _ rn _ "([], g)"] resourceAliasErrors_snd(2) [of env s rn g]
    by (auto simp: resourceAliasErrors_snd(1) split: option.splits)
qed

lemma valueAliasStep_facts:
  shows "set (snd st) \<subseteq> set (snd (snd (valueAliasStep env p rn fn val a st)))"
    and "fst (valueAliasStep env p rn fn val a st) = [] \<Longrightarrow>
         (f, valueAliasClaim rn fn val) \<in> set (snd (snd (valueAliasStep env p rn fn val a st))) \<or> f \<notin> set (ValueForms env (NormalizeText env a))"
    and "fst (valueAliasStep env p rn fn val a st) = [] \<Longrightarrow> aliasesApart (snd st) \<Longrightarrow>
         aliasesApart (snd (snd (valueAliasStep env p rn fn val a st)))"
proof -
  show "set (snd st) \<subseteq> set (snd (snd (valueAliasStep env p rn fn val a st)))"
    by (auto simp: valueAliasStep_def split: sum.splits option.splits)
  assume "fst (valueAliasStep env p rn fn val a st) = []"
  then obtain n where n: "checkAliasText env p a = Inr n" "valueAliasCollision env p fn val a n (fst st) (snd st) = None"
    by (auto simp: valueAliasStep_def split: sum.splits option.splits)
  then have st: "snd (snd (valueAliasStep env p rn fn val a st)) =
      snd st @ claimAll (ValueForms env n) ''value alias'' (rn @ ''.'' @ fn @ '' = '' @ val)"
    by (simp add: valueAliasStep_def)
  show "(f, valueAliasClaim rn fn val) \<in> set (snd (snd (valueAliasStep env p rn fn val a st))) \<or> f \<notin> set (ValueForms env (NormalizeText env a))"
    unfolding st checkAliasText_Inr [OF n(1)] by auto
  assume apart: "aliasesApart (snd st)"
  have "aoKind own \<noteq> ''resource alias''" if "(g, own) \<in> set (snd st)" "g \<in> set (ValueForms env n)" for g own
    using n(2) that by (auto simp: valueAliasCollision_def split: if_splits option.splits)
  then show "aliasesApart (snd (snd (valueAliasStep env p rn fn val a st)))"
    using apart unfolding st aliasesApart_def by auto
qed

interpretation value_pass: alias_pass snd "valueAliasStep env p rn fn val" for env p rn fn val
  by unfold_locales (fact valueAliasStep_facts)+

interpretation key_pass: alias_pass snd "valueKeyStep env p rn fn fd aliases" for env p rn fn fd aliases
  by unfold_locales (use value_pass.all_grow value_pass.all_apart in \<open>auto simp: valueKeyStep_def Let_def split: if_splits\<close>)

interpretation field_pass: alias_pass snd "valueFieldStep env rn r" for env rn r
  by unfold_locales (use key_pass.all_grow key_pass.all_apart in \<open>auto simp: valueFieldStep_def Let_def split: if_splits option.splits\<close>)

interpretation values_pass: alias_pass id "valueAliasErrors env s" for env s
proof unfold_locales
  fix env s rn and g :: aliasClaims
  let ?r = "resourceSchemaOf s rn"
  show "set (id g) \<subseteq> set (id (snd (valueAliasErrors env s rn g)))"
    using field_pass.all_grow [of "(localForms env ?r, g)"] by (auto simp: valueAliasErrors_def Let_def split_beta)
  show "fst (valueAliasErrors env s rn g) = [] \<Longrightarrow> aliasesApart (id g) \<Longrightarrow> aliasesApart (id (snd (valueAliasErrors env s rn g)))"
    using field_pass.all_apart [of env rn ?r "schemaFieldNames ?r" "(localForms env ?r, g)"]
    by (simp add: valueAliasErrors_def Let_def split_beta)
qed

text \<open>The claims once both passes are through.\<close>

definition resourceClaims :: "ValidateEnv \<Rightarrow> APISchema \<Rightarrow> aliasClaims" where
  "resourceClaims env s = snd (collectErrs (resourceAliasErrors env s) (resourceNamesList s) (schemaClaims env s))"

definition allClaims :: "ValidateEnv \<Rightarrow> APISchema \<Rightarrow> aliasClaims" where
  "allClaims env s = snd (collectErrs (valueAliasErrors env s) (resourceNamesList s) (resourceClaims env s))"

lemma validateAliases_Nil:
  "validateAliases env s = [] \<longleftrightarrow>
     fst (collectErrs (resourceAliasErrors env s) (resourceNamesList s) (schemaClaims env s)) = [] \<and>
     fst (collectErrs (valueAliasErrors env s) (resourceNamesList s) (resourceClaims env s)) = []"
  by (simp add: validateAliases_def Let_def split_beta resourceClaims_def)

lemma resource_listed: "gm_get (asResources s) rn = Some r \<Longrightarrow> rn \<in> set (resourceNamesList s) \<and> resourceSchemaOf s rn = r"
  by (force simp: resourceNamesList_def resourceSchemaOf_def dest: gm_get_in)

lemma field_listed: "gm_get (Fields r) fn = Some fd \<Longrightarrow> fn \<in> set (schemaFieldNames r) \<and> schemaField r fn = fd"
  by (force simp: schemaFieldNames_def schemaField_def dest: gm_get_in)

lemma claims_grow: "set (schemaClaims env s) \<subseteq> set (resourceClaims env s)" "set (resourceClaims env s) \<subseteq> set (allClaims env s)"
  using resources_pass.all_grow [of "schemaClaims env s"] values_pass.all_grow [of "resourceClaims env s"]
  by (simp_all add: resourceClaims_def allClaims_def)

lemma allClaims_apart: "validateAliases env s = [] \<Longrightarrow> aliasesApart (allClaims env s)"
  using resources_pass.all_apart [of env s "resourceNamesList s" "schemaClaims env s"] schemaClaims_apart [of env s]
    values_pass.all_apart [of env s "resourceNamesList s" "resourceClaims env s"]
  by (simp add: validateAliases_Nil resourceClaims_def allClaims_def)

lemma resource_alias_claimed:
  assumes "validateAliases env s = []" "gm_get (asResources s) rn = Some r" "rsAliases r = Some as" "a \<in> set as"
    "f \<in> set (NameForms env (NormalizeText env a))"
  shows "(f, resourceAliasClaim rn) \<in> set (allClaims env s)"
proof -
  have r: "rn \<in> set (resourceNamesList s)" "resourceSchemaOf s rn = r" using resource_listed [OF assms(2)] by auto
  obtain g where g: "fst (resourceAliasErrors env s rn g) = []"
      "set (id (snd (resourceAliasErrors env s rn g))) \<subseteq> set (id (resourceClaims env s))"
    using resources_pass.visited [OF conjunct1 [OF assms(1) [unfolded validateAliases_Nil]] r(1)] unfolding resourceClaims_def by blast
  let ?step = "resourceAliasStep env (''resources.'' @ rn @ ''.aliases'') rn"
  have ok: "fst (collectErrs ?step as ([], g)) = []" using resourceAliasErrors_snd(2) [OF g(1)] r(2) assms(3) by simp
  obtain st where "fst (?step a st) = []" "set (snd (snd (?step a st))) \<subseteq> set (snd (snd (collectErrs ?step as ([], g))))"
    using resource_pass.visited [OF ok assms(4)] by blast
  then have "(f, resourceAliasClaim rn) \<in> set (snd (snd (collectErrs ?step as ([], g))))"
    using resourceAliasStep_facts(2) [of env _ rn a st f] assms(5) by blast
  then show ?thesis using g(2) claims_grow(2) r(2) assms(3) by (auto simp: resourceAliasErrors_snd(1))
qed

lemma value_alias_claimed:
  assumes "validateAliases env s = []" "gm_get (asResources s) rn = Some r" "gm_get (Fields r) fn = Some fd"
    "fAliases fd = Some al" "gm_get al val = Some as" "a \<in> set as" "f \<in> set (ValueForms env (NormalizeText env a))"
  shows "(f, valueAliasClaim rn fn val) \<in> set (allClaims env s)"
proof -
  have r: "rn \<in> set (resourceNamesList s)" "resourceSchemaOf s rn = r" using resource_listed [OF assms(2)] by auto
  have fn: "fn \<in> set (schemaFieldNames r)" "schemaField r fn = fd" using field_listed [OF assms(3)] by auto
  have k: "val \<in> set (sortedKeys al)" using gm_get_in [OF assms(5)] by force
  let ?path = "''resources.'' @ rn @ ''.fields.'' @ fn @ ''.aliases''"
  obtain g where "fst (valueAliasErrors env s rn g) = []"
      "set (id (snd (valueAliasErrors env s rn g))) \<subseteq> set (id (allClaims env s))"
    using values_pass.visited [OF conjunct2 [OF assms(1) [unfolded validateAliases_Nil]] r(1)] unfolding allClaims_def by blast
  then have g: "fst (collectErrs (valueFieldStep env rn r) (schemaFieldNames r) (localForms env r, g)) = []"
      "set (snd (snd (collectErrs (valueFieldStep env rn r) (schemaFieldNames r) (localForms env r, g)))) \<subseteq> set (allClaims env s)"
    using r(2) by (simp_all add: valueAliasErrors_def Let_def split_beta)
  obtain st1 where "fst (valueFieldStep env rn r fn st1) = []" "set (snd (snd (valueFieldStep env rn r fn st1))) \<subseteq> set (allClaims env s)"
    by (rule field_pass.visited_within [OF g(1) fn(1) g(2)])
  then have 1: "fst (collectErrs (valueKeyStep env ?path rn fn fd al) (sortedKeys al) st1) = []"
      "set (snd (snd (collectErrs (valueKeyStep env ?path rn fn fd al) (sortedKeys al) st1))) \<subseteq> set (allClaims env s)"
    using fn(2) assms(4) by (auto simp: valueFieldStep_def Let_def split: if_splits)
  obtain st2 where "fst (valueKeyStep env ?path rn fn fd al val st2) = []"
      "set (snd (snd (valueKeyStep env ?path rn fn fd al val st2))) \<subseteq> set (allClaims env s)"
    by (rule key_pass.visited_within [OF 1(1) k 1(2)])
  then have 2: "fst (collectErrs (valueAliasStep env (?path @ ''.'' @ val) rn fn val) as st2) = []"
      "set (snd (snd (collectErrs (valueAliasStep env (?path @ ''.'' @ val) rn fn val) as st2))) \<subseteq> set (allClaims env s)"
    using assms(5) by (auto simp: valueKeyStep_def Let_def split: if_splits)
  obtain st3 where 3: "fst (valueAliasStep env (?path @ ''.'' @ val) rn fn val a st3) = []"
      "set (snd (snd (valueAliasStep env (?path @ ''.'' @ val) rn fn val a st3))) \<subseteq> set (allClaims env s)"
    by (rule value_pass.visited_within [OF 2(1) assms(6) 2(2)])
  then show ?thesis using valueAliasStep_facts(2) [OF 3(1), of f] assms(7) by blast
qed

lemma name_claimed:
  assumes "gm_get (asResources s) rn = Some r" "f \<in> set (NameForms env rn)"
  shows "(f, \<lparr>aoKind = ''resource'', aoWhere = rn\<rparr>) \<in> set (allClaims env s)"
  using resource_listed [OF assms(1)] assms(2) claims_grow [of env s] by (fastforce simp: schemaClaims_def)

lemma value_claimed:
  assumes "gm_get (asResources s) rn = Some r" "gm_get (Fields r) fn = Some fd" "val \<in> set (Enum fd)" "f \<in> set (ValueForms env val)"
  shows "(f, \<lparr>aoKind = ''value'', aoWhere = rn @ ''.'' @ fn @ '' = '' @ val\<rparr>) \<in> set (allClaims env s)"
proof -
  have "(f, \<lparr>aoKind = ''value'', aoWhere = rn @ ''.'' @ fn @ '' = '' @ val\<rparr>) \<in> set (valueClaims env rn r)"
    using field_listed [OF assms(2)] assms(3,4) by (fastforce simp: valueClaims_def)
  then have "(f, \<lparr>aoKind = ''value'', aoWhere = rn @ ''.'' @ fn @ '' = '' @ val\<rparr>) \<in> set (schemaClaims env s)"
    using resource_listed [OF assms(1)] unfolding schemaClaims_def by auto
  then show ?thesis using claims_grow [of env s] by blast
qed

text \<open>In an accepted schema every form of a resource alias means that resource and nothing else: it is no form
  of a resource name, of an enum value or of a value alias anywhere in the schema, and no other resource
  declares it.\<close>

theorem alias_means_one_thing:
  assumes "Validate env s = []" "gm_get (asResources s) rn = Some r" "rsAliases r = Some as" "a \<in> set as"
    "f \<in> set (NameForms env (NormalizeText env a))" "gm_get (asResources s) rn' = Some r'"
  shows "f \<notin> set (NameForms env rn') \<and>
         (\<forall>fn fd val. gm_get (Fields r') fn = Some fd \<longrightarrow> val \<in> set (Enum fd) \<longrightarrow> f \<notin> set (ValueForms env val)) \<and>
         (\<forall>fn fd al val vs a'. gm_get (Fields r') fn = Some fd \<longrightarrow> fAliases fd = Some al \<longrightarrow> gm_get al val = Some vs \<longrightarrow>
            a' \<in> set vs \<longrightarrow> f \<notin> set (ValueForms env (NormalizeText env a'))) \<and>
         (\<forall>as' a'. rsAliases r' = Some as' \<longrightarrow> a' \<in> set as' \<longrightarrow> f \<in> set (NameForms env (NormalizeText env a')) \<longrightarrow> rn' = rn)"
proof -
  have v: "validateAliases env s = []" using assms(1) by (simp add: accepted_parts)
  have mine: "own = resourceAliasClaim rn" if "(f, own) \<in> set (allClaims env s)" for own
    using allClaims_apart [OF v] resource_alias_claimed [OF v assms(2-5)] that by (fastforce simp: aliasesApart_def)
  show ?thesis
  proof (intro conjI allI impI notI)
    show False if "f \<in> set (NameForms env rn')"
      using mine [OF name_claimed [OF assms(6) that]] by simp
    show False if "gm_get (Fields r') fn = Some fd" "val \<in> set (Enum fd)" "f \<in> set (ValueForms env val)" for fn fd val
      using mine [OF value_claimed [OF assms(6) that]] by simp
    show False if "gm_get (Fields r') fn = Some fd" "fAliases fd = Some al" "gm_get al val = Some vs" "a' \<in> set vs"
        "f \<in> set (ValueForms env (NormalizeText env a'))" for fn fd al val vs a'
      using mine [OF value_alias_claimed [OF v assms(6) that]] by simp
    show "rn' = rn" if "rsAliases r' = Some as'" "a' \<in> set as'" "f \<in> set (NameForms env (NormalizeText env a'))" for as' a'
      using mine [OF resource_alias_claimed [OF v assms(6) that]] by simp
  qed
qed

section \<open>Workflows\<close>

text \<open>In an accepted schema a workflow with an event trigger listens to a topic its resource emits, and no
  enqueue step of any workflow publishes on the topic of an event trigger: a declared workflow never feeds itself.\<close>

theorem accepted_workflows_fire_and_do_not_loop:
  assumes "Validate env s = []" "gm_get (Workflows s) nm = Some flow" "trType (wfTrigger flow) = ''event''"
  shows "(\<exists>res. gm_get (asResources s) (trResource (wfTrigger flow)) = Some res \<and> EmitsOn res (trEvent (wfTrigger flow)) \<and>
                 WorkflowEventTopic (wfTrigger flow) = EmitTopic (trResource (wfTrigger flow)) (trEvent (wfTrigger flow)) \<and>
                 WorkflowEventTopic (wfTrigger flow) \<noteq> []) \<and>
         (\<forall>nm' flow' st topic. gm_get (Workflows s) nm' = Some flow' \<longrightarrow> st \<in> set (wfSteps flow') \<longrightarrow> stType st = ''enqueue'' \<longrightarrow>
            gm_get (stConfig st) ''topic'' = Some (GStr topic) \<longrightarrow> topic \<noteq> WorkflowEventTopic (wfTrigger flow))"
proof -
  have v: "validateWorkflows env s = []" using assms(1) by (simp add: accepted_parts)
  have "eventTriggerErrors s (''workflows.'' @ nm) (wfTrigger flow) = []"
    using workflow_accepted [OF v assms(2)] assms(3) by (simp add: workflowErrors_def triggerErrors_def Let_def)
  then obtain res where res: "gm_get (asResources s) (trResource (wfTrigger flow)) = Some res" "EmitsOn res (trEvent (wfTrigger flow))"
      "WorkflowEventTopic (wfTrigger flow) \<noteq> []"
    by (rule accepted_event_trigger)
  have "bareIdent (trResource (wfTrigger flow))"
    by (rule accepted_resource_name(1) [OF assms(1)]) (simp add: gm_has_def res(1))
  then have "trResource (wfTrigger flow) \<noteq> []" by (metis bareIdent.simps(1))
  then have topic: "WorkflowEventTopic (wfTrigger flow) \<in> set (triggerTopics s)"
    by (rule trigger_topic_listed [OF v assms(2,3)])
  have "topic \<noteq> WorkflowEventTopic (wfTrigger flow)"
    if st: "gm_get (Workflows s) nm' = Some flow'" "st \<in> set (wfSteps flow')" "stType st = ''enqueue''"
      "gm_get (stConfig st) ''topic'' = Some (GStr topic)" for nm' flow' st topic
  proof -
    have "stepsErrors env s (''workflows.'' @ nm') 0 [] (wfSteps flow') = []"
      using workflow_accepted [OF v st(1)] by (simp add: workflowErrors_def Let_def)
    then obtain sp where "stepBodyErrors env s sp st = []" using stepsErrors_Nil st(2) by blast
    then have "topic \<notin> set (triggerTopics s)"
      using st(3,4) by (auto simp: stepBodyErrors_def cfgStr_def Let_def split: if_splits)
    then show ?thesis using topic by blast
  qed
  then show ?thesis using res by (auto simp: WorkflowEventTopic_def)
qed

section \<open>An example\<close>

definition exChecks :: ValidateEnv where
  "exChecks = \<lparr>vStd = exStd, parseDuration = Atoi, cronParses = (\<lambda>_. True), exprCompiles = (\<lambda>_. True), unicodeLower = ToLower,
     accentStripper = Some, runesOf = map (\<lambda>c. ([c], identStart c \<or> is_digit c))\<rparr>"

definition exShopOrder :: StateMachine where
  "exShopOrder = \<lparr>Initial = [''open''], Transitions = [(''open'', [''sold'']), (''sold'', [])], Pending = Some [''open'']\<rparr>"

definition exShopOrders :: ResourceSchema where
  "exShopOrders =
     (zeroResource [(''owner'', zeroField ''uuid''), (''buyer_id'', (zeroField ''uuid'')\<lparr>Relation := ''people''\<rparr>),
        (''status'', (zeroField ''string'')\<lparr>Enum := [''open'', ''sold''], fDefault := GStr ''open'', fStateMachine := Some exShopOrder,
                                              fAliases := Some [(''sold'', [''paid''])]\<rparr>)])
       \<lparr>Events := [''create''], rsAliases := Some [''deal'']\<rparr>"

definition exPermission :: "string list \<Rightarrow> Condition option \<Rightarrow> ResourcePermission" where
  "exPermission actions cond = \<lparr>permActions = actions, permConditions = cond, ConditionActions = [], permFields = []\<rparr>"

definition exWorkflow :: WorkflowSchema where
  "exWorkflow =
     \<lparr>wfTrigger = \<lparr>trType = ''event'', trEvent = ''create'', trResource = ''orders'', trCron = [], trTimezone = [], trField = [],
                    trBefore = [], trAfter = [], trGrace = [], trWhen = None\<rparr>,
      wfSteps = [\<lparr>stName = ''tell'', stType = ''enqueue'', stConfig = [(''topic'', GStr ''mail'')]\<rparr>], wfOverlap = [], wfRole = ''clerk''\<rparr>"

definition exShop :: APISchema where
  "exShop =
     \<lparr>asSchema = [], asVersion = ''1'', asName = ''shop'',
      asResources = [(''orders'', exShopOrders), (''people'', zeroResource [(''name'', zeroField ''string'')])],
      asRBAC = \<lparr>plainRoles = [(''clerk'', emptyRolePolicy\<lparr>Permissions :=
                   [(''orders'', exPermission [''*''] (Some \<lparr>Field = ''owner'', Op = ''eq'', Val = ''$user_id''\<rparr>))]\<rparr>)],
                 plainPublic = [(''orders'', exPermission [''read''] (Some \<lparr>Field = ''status'', Op = [], Val = ''open''\<rparr>))]\<rparr>,
      Workflows = [(''tell_owner'', exWorkflow)], Summary = None\<rparr>"

lemma exShop_accepted: "Validate exChecks exShop = []"
  by code_simp

lemma exShop_orders: "gm_get (asResources exShop) ''orders'' = Some exShopOrders"
  by (simp add: exShop_def)

theorem accepted_conditions_apply_witness:
  "evCondition (Evaluate (UnmarshalPolicy (asRBAC exShop)) \<lparr>Role = ''clerk'', UserID = ''u1'', ExternalClientID = []\<rparr> ''orders'' ''update'') =
     Some \<lparr>wField = ''owner'', wOp = ''eq'', wValue = ''u1'', Identity = True\<rparr> \<and>
   AppendRowCondition ''DELETE'' [] (Some \<lparr>wField = ''owner'', wOp = ''eq'', wValue = ''u1'', Identity = True\<rparr>) =
     Inr (''DELETE AND owner = '' @ placeholder 1, [Arg (GStr ''u1'')])"
proof -
  have c: "evCondition (Evaluate (UnmarshalPolicy (asRBAC exShop)) \<lparr>Role = ''clerk'', UserID = ''u1'', ExternalClientID = []\<rparr> ''orders'' ''update'') =
     Some \<lparr>wField = ''owner'', wOp = ''eq'', wValue = ''u1'', Identity = True\<rparr>" by code_simp
  show ?thesis using accepted_conditions_apply [OF exShop_accepted exShop_orders c, of "''DELETE''" "[]"] c by simp
qed

theorem anonymous_surface_is_read_only_witness:
  "Allows (UnmarshalPolicy (asRBAC exShop)) PublicRoleName ''orders'' ''read'' \<and>
   Evaluate (UnmarshalPolicy (asRBAC exShop)) \<lparr>Role = PublicRoleName, UserID = ''u1'', ExternalClientID = []\<rparr> ''orders'' ''read'' =
   Evaluate (UnmarshalPolicy (asRBAC exShop)) \<lparr>Role = PublicRoleName, UserID = ''u2'', ExternalClientID = ''x''\<rparr> ''orders'' ''read''"
proof -
  have a: "Allows (UnmarshalPolicy (asRBAC exShop)) PublicRoleName ''orders'' ''read''" by code_simp
  show ?thesis
    using anonymous_surface_is_read_only [OF exShop_accepted a, of "''u1''" "[]" "''u2''" "''x''"] a by blast
qed

theorem accepted_names_do_not_collide_witness:
  "inj_on GraphQLTypeName {''orders'', ''people''} \<and> GraphQLTypeName ''orders'' = ''Order'' \<and> RelationSubroute ''buyer_id'' = ''buyer''"
proof -
  have wf: "gm_wf (asResources exShop)" "gm_wf (Fields exShopOrders)" by code_simp+
  have "fst ` set (asResources exShop) = {''orders'', ''people''}" by (simp add: exShop_def)
  moreover have "GraphQLTypeName ''orders'' = ''Order''" "RelationSubroute ''buyer_id'' = ''buyer''" by code_simp+
  ultimately show ?thesis using accepted_names_do_not_collide [OF exShop_accepted wf(1) exShop_orders wf(2)] by simp
qed

theorem alias_means_one_thing_witness:
  "NameForms exChecks (NormalizeText exChecks ''deal'') = [''deal'', ''deals'', ''deales''] \<and>
   ''deals'' \<notin> set (NameForms exChecks ''people'') \<and> ''deals'' \<notin> set (ValueForms exChecks ''open'')"
proof -
  have forms: "NameForms exChecks (NormalizeText exChecks ''deal'') = [''deal'', ''deals'', ''deales'']" by code_simp
  have al: "rsAliases exShopOrders = Some [''deal'']" by code_simp
  have people: "gm_get (asResources exShop) ''people'' = Some (zeroResource [(''name'', zeroField ''string'')])" by (simp add: exShop_def)
  obtain fd where st: "gm_get (Fields exShopOrders) ''status'' = Some fd" "''open'' \<in> set (Enum fd)"
    by (simp add: exShopOrders_def zeroResource_def)
  have f: "''deals'' \<in> set (NameForms exChecks (NormalizeText exChecks ''deal''))" unfolding forms by simp
  show ?thesis
    using alias_means_one_thing [OF exShop_accepted exShop_orders al _ f people]
      alias_means_one_thing [OF exShop_accepted exShop_orders al _ f exShop_orders] st forms by simp
qed

theorem accepted_workflows_fire_and_do_not_loop_witness:
  "WorkflowEventTopic (wfTrigger exWorkflow) = ''orders.created'' \<and> EmitsOn exShopOrders ''create''"
proof -
  have w: "gm_get (Workflows exShop) ''tell_owner'' = Some exWorkflow" "trType (wfTrigger exWorkflow) = ''event''" by code_simp+
  have t: "WorkflowEventTopic (wfTrigger exWorkflow) = ''orders.created''" "trResource (wfTrigger exWorkflow) = ''orders''"
    "trEvent (wfTrigger exWorkflow) = ''create''" by code_simp+
  show ?thesis using accepted_workflows_fire_and_do_not_loop [OF exShop_accepted w] t exShop_orders by simp
qed

section \<open>What the validator lets through\<close>

text \<open>A misspelt variable in the public block is accepted, although the same condition on a role is refused:
  the anonymous surface then matches no row.\<close>

definition exMisspelt :: Condition where
  "exMisspelt = \<lparr>Field = ''status'', Op = [], Val = ''$userid''\<rparr>"

lemma public_condition_typo_accepted:
  "publicErrors exShop ''orders'' (exPermission [''read''] (Some exMisspelt)) = [] \<and>
   permissionErrors exShop ''rbac.roles.clerk'' ''orders'' (exPermission [''read''] (Some exMisspelt)) \<noteq> []"
  by code_simp

text \<open>An alias declared twice is accepted: the duplicate check compares the words, which are equal.\<close>

lemma repeated_alias_accepted:
  "fst (collectErrs (resourceAliasStep exChecks ''p'' ''orders'') [''deal'', ''deal''] ([], [])) = []"
  by code_simp

text \<open>A day count is multiplied in 64 bits: 106752 days are accepted as a duration, and it is negative.\<close>

lemma workflow_duration_wraps: "ParseWorkflowDuration parse ''106752d'' = Some (- 9223371273709551616)"
proof -
  have "TrimSpace ''106752d'' = ''106752d''" "HasSuffix ''106752d'' ''d''" "TrimSuffix ''106752d'' ''d'' = ''106752''" by code_simp+
  moreover have "Atoi ''106752'' = Some 106752" by (simp add: Atoi_def digits_val_def is_digit_def in_int64_def)
  ultimately show ?thesis by (simp add: ParseWorkflowDuration_def wrap64_def hour_def Let_def)
qed

text \<open>Every other accepted duration is positive.\<close>

lemma workflow_duration_positive:
  assumes "ParseWorkflowDuration parse s = Some d" "\<not> HasSuffix (TrimSpace s) ''d''"
  shows "0 < d"
  using assms by (auto simp: ParseWorkflowDuration_def Let_def split: option.splits if_splits)

end
