(* ===== verification/SchemaFacts.thy ===== *)
theory SchemaFacts
  imports GateFacts WriteFacts ValidateFacts
begin

text \<open>
  The validator composed with the components that run a schema: the lifecycle of a row, the references of the
  desired database schema, and what a migration does with an accepted schema.
\<close>

section \<open>Lifecycles\<close>

lemma accepted_states_plain:
  assumes "Validate env s = []" "gm_get (asResources s) n = Some res" "gm_wf (Fields res)"
  shows "plainStates res"
proof -
  have "isStringType (fType fd) \<and> \<not> Enabled (Auto fd)" if "(f, fd) \<in> set (Fields res)" "fStateMachine fd = Some sm" for f fd sm
  proof -
    have ok: "validateField (vStd env) s (''resources.'' @ n) res f fd = []"
      using accepted_field [OF assms(1,2)] that(1) assms(3) by (simp add: gm_get_iff)
    then have "validateStateMachine (''resources.'' @ n @ ''.fields.'' @ f) fd = []" by (simp add: validateField_def Let_def)
    from validateDefault_initial(1) [OF this that(2)] show ?thesis
      using ok by (auto simp: validateField_def Let_def autoErrors_def stringTypes_def isStringType_def split: if_splits)
  qed
  then show ?thesis by (auto simp: plainStates_def list_all_iff)
qed

lemma accepted_names_bare:
  assumes "Validate env s = []" "gm_get (asResources s) n = Some res" "gm_wf (Fields res)"
  shows "bareIdent n" "bareColumns res"
proof -
  show "bareIdent n" using accepted_resource_name(1) [OF assms(1)] assms(2) by (simp add: gm_has_def)
  show "bareColumns res"
    unfolding bareColumns_def
  proof
    fix k assume "k \<in> fst ` set (Fields res)"
    then obtain fd where "gm_get (Fields res) k = Some fd" by (metis map_of_eq_None_iff not_None_eq)
    then show "bareIdent k" using accepted_field_name(1) [OF assms(1,2)] by (simp add: gm_has_def del: bareIdent.simps)
  qed
qed


section \<open>References\<close>

definition uniqueIn :: "Table \<Rightarrow> string list \<Rightarrow> bool" where
  "uniqueIn t cols \<longleftrightarrow>
     (\<exists>pk. PK t = Some pk \<and> pkColumns pk = cols) \<or>
     (\<exists>symb uq. gm_get (Uniques t) symb = Some uq \<and> uqColumns uq = cols) \<or>
     (\<exists>nm ix. gm_get (Indexes t) nm = Some ix \<and> ixUnique ix \<and> ixPredicate ix = [] \<and> mset (ixColumns ix) = mset cols)"

lemma fold_unique_get:
  "gm_get (Uniques (fold (addRegular n res) ks t)) (uniqueSymbol n k) =
     (if k \<in> set ks \<and> fUnique (fieldOf res k) then Some \<lparr>uqSymbol = uniqueSymbol n k, uqColumns = [k]\<rparr>
      else gm_get (Uniques t) (uniqueSymbol n k))"
  by (induction ks arbitrary: t) (auto simp: addRegular_def Let_def gm_get_put uniqueSymbol_def)

lemma desired_unique:
  assumes "gm_get (asResources s) n = Some res" "gm_get (Fields res) k = Some fd" "fUnique fd" "\<not> Enabled (Auto fd)" "k \<noteq> ''id''"
    "gm_get (Tables (buildDesiredSchema std pgSchema s)) n = Some t"
  shows "gm_get (Uniques t) (uniqueSymbol n k) = Some \<lparr>uqSymbol = uniqueSymbol n k, uqColumns = [k]\<rparr>"
proof -
  have "Uniques t = Uniques (desiredTable n res)"
    using keepsS_get(1) [OF keepsS_all assms(6)] assms(1) by (auto simp: desiredTables_get)
  also have "\<dots> = Uniques (fold (addRegular n res) (regularFields res) (baseTable n res))"
    unfolding desiredTable_def by (rule fold_view [where v = Uniques]) (simp add: addAuto_def)
  finally show ?thesis
    using assms(2-5) gm_get_in [OF assms(2)]
    by (force simp: fold_unique_get regularFields_def fieldOf_def sortedFieldNames_def)
qed

text \<open>The declared index of a table, unless another one of the same name follows it.\<close>

abbreviation declaredIndex :: "string \<Rightarrow> IndexDef \<Rightarrow> Index" where
  "declaredIndex n ix \<equiv> \<lparr>ixName = declaredIndexName n ix, ixColumns = idFields ix, ixUnique = idUnique ix,
     ixMethod = (if idMethod ix = [] then ''btree'' else idMethod ix), ixPredicate = [], ixOpclass = idOpclass ix\<rparr>"

lemma addDeclaredIndex_columns: "Columns (fold (addDeclaredIndex n) ixs t) = Columns t"
  by (rule fold_view) (simp add: addDeclaredIndex_def putIndex_def)

lemma fold_declared_get:
  assumes "ix \<in> set ixs" "\<And>ix'. ix' \<in> set ixs \<Longrightarrow> declaredIndexName n ix' = declaredIndexName n ix \<Longrightarrow> ix' = ix"
    "idFields ix \<noteq> []" "\<forall>c \<in> set (idFields ix). gm_has (Columns t) c"
  shows "gm_get (Indexes (fold (addDeclaredIndex n) ixs t)) (declaredIndexName n ix) = Some (declaredIndex n ix)"
proof -
  have stays: "gm_get (Indexes (fold (addDeclaredIndex n) ys u)) (declaredIndexName n ix) = Some (declaredIndex n ix)"
    if "set ys \<subseteq> set ixs" "gm_get (Indexes u) (declaredIndexName n ix) = Some (declaredIndex n ix)" for ys u
    using that
  proof (induction ys arbitrary: u)
    case (Cons y ys)
    then have "gm_get (Indexes (addDeclaredIndex n y u)) (declaredIndexName n ix) = Some (declaredIndex n ix)"
      using assms(2) [of y] by (auto simp: addDeclaredIndex_def putIndex_def gm_get_put)
    then show ?case using Cons by simp
  qed simp
  obtain ys zs where ixs: "ixs = ys @ ix # zs" using split_list [OF assms(1)] by blast
  let ?u = "addDeclaredIndex n ix (fold (addDeclaredIndex n) ys t)"
  have zs: "set zs \<subseteq> set ixs" by (auto simp: ixs)
  have u: "gm_get (Indexes ?u) (declaredIndexName n ix) = Some (declaredIndex n ix)"
    using assms(3,4) by (simp add: addDeclaredIndex_def putIndex_def gm_get_put addDeclaredIndex_columns list_all_iff)
  from stays [OF zs u] show ?thesis by (simp add: ixs split del: if_split)
qed

lemma desired_index:
  assumes "gm_wf (asResources s)" "gm_get (asResources s) n = Some res" "ix \<in> set (rsIndexes res)"
    "inj_on (declaredIndexName n) (set (rsIndexes res))" "idFields ix \<noteq> []"
    "\<forall>c \<in> set (idFields ix). c = ''id'' \<or> gm_has (Fields res) c"
    "gm_get (Tables (buildDesiredSchema std pgSchema s)) n = Some t"
  shows "gm_get (Indexes t) (declaredIndexName n ix) = Some (declaredIndex n ix)"
proof -
  let ?names = "sortedResourceNames s"
  let ?d3 = "addRelationIndexes (desiredKeys pgSchema s) s ?names"
  let ?d4 = "addDeclaredIndexes ?d3 s ?names"
  have names: "distinct ?names" "n \<in> set ?names"
    using assms(1,2) by (auto simp: sortedResourceNames_def distinct_sortedKeys dest: gm_get_in intro: rev_image_eqI)
  have b: "buildDesiredSchema std pgSchema s = addRanges std ?d4 s ?names"
    by (simp add: buildDesiredSchema_def desiredKeys_def Let_def)
  have "Indexes (addRange std m r k u) = Indexes u" for m r k u
    by (simp add: addRange_def Let_def split: option.splits)
  then have rng: "Indexes (fold (addRange std m r) ks u) = Indexes u" for m r ks u by (rule fold_view)
  obtain t4 where t4: "gm_get (Tables ?d4) n = Some t4" "Indexes t = Indexes t4"
    using assms(7) names fold_modTable [OF names(1), of "\<lambda>n. fold (addRange std n (resourceOf s n)) (RangeNames (resourceOf s n))" ?d4 n]
    unfolding b addRanges_def by (auto simp: rng)
  have "gm_get (Tables ?d4) n = map_option (fold (addDeclaredIndex n) (rsIndexes res)) (gm_get (Tables ?d3) n)"
    using names fold_modTable [OF names(1), of "\<lambda>n. fold (addDeclaredIndex n) (rsIndexes (resourceOf s n))" ?d3 n] assms(2)
    by (simp add: addDeclaredIndexes_def resourceOf_def)
  then obtain t3 where t3: "gm_get (Tables ?d3) n = Some t3" "t4 = fold (addDeclaredIndex n) (rsIndexes res) t3"
    using t4(1) by (cases "gm_get (Tables ?d3) n") simp_all
  have "keepsS tableCore (desiredTables pgSchema s) ?d3"
    using keepsS_trans [OF keepsS_foreign [of "desiredTables pgSchema s" s ?names, folded desiredKeys_def]
        keepsS_weaken [OF keepsS_addRelationIndexes]] .
  then have "Columns t3 = Columns (desiredTable n res)"
    using keepsS_get(1) [OF _ t3(1)] assms(2) by (force simp: desiredTables_get)
  then have "\<forall>c \<in> set (idFields ix). gm_has (Columns t3) c"
    using assms(6) by (auto simp: gm_has_def desiredTable_columns)
  then show ?thesis
    using fold_declared_get [of ix "rsIndexes res" n t3] assms(3-5) t3(2) t4(2) by (auto simp: inj_on_def)
qed

lemma desired_pk:
  assumes "gm_get (asResources s) n = Some res" "gm_get (Tables (buildDesiredSchema std pgSchema s)) n = Some t"
  shows "\<exists>pk. PK t = Some pk \<and> pkColumns pk = [''id'']"
  using keepsS_get(1) [OF keepsS_all assms(2)] assms(1) by (auto simp: desiredTables_get desiredTable_view)

lemma accepted_columns_unique:
  assumes "gm_wf (asResources s)" "gm_get (asResources s) n = Some res" "columnsAreUniqueOnTarget res cols"
    "inj_on (declaredIndexName n) (set (rsIndexes res))" "cols \<noteq> []"
    "\<forall>c \<in> set cols. c = ''id'' \<or> (\<exists>fd. gm_get (Fields res) c = Some fd \<and> \<not> Enabled (Auto fd))"
    "gm_get (Tables (buildDesiredSchema std pgSchema s)) n = Some t"
  shows "uniqueIn t cols"
  using assms(3) unfolding columnsAreUniqueOnTarget_def
proof
  assume "case cols of [c] \<Rightarrow> c = ''id'' \<or> (case gm_get (Fields res) c of Some f \<Rightarrow> fUnique f | None \<Rightarrow> False) | _ \<Rightarrow> False"
  then obtain c where c: "cols = [c]" "c = ''id'' \<or> (\<exists>fd. gm_get (Fields res) c = Some fd \<and> fUnique fd)"
    by (auto split: list.splits option.splits)
  show ?thesis
  proof (cases "c = ''id''")
    case True
    then show ?thesis using desired_pk [OF assms(2,7)] c(1) by (auto simp: uniqueIn_def)
  next
    case False
    then obtain fd where "gm_get (Fields res) c = Some fd" "fUnique fd" "\<not> Enabled (Auto fd)" using c assms(6) by auto
    from desired_unique [OF assms(2) this False assms(7)] show ?thesis unfolding uniqueIn_def c(1) by fastforce
  qed
next
  assume "list_ex (\<lambda>idx. idUnique idx \<and> sameStringSet (idFields idx) cols) (rsIndexes res)"
  then obtain ix where ix: "ix \<in> set (rsIndexes res)" "idUnique ix" "mset (idFields ix) = mset cols"
    by (auto simp: list_ex_iff sameStringSet_iff)
  have ne: "idFields ix \<noteq> []" using ix(3) assms(5) by auto
  have "\<forall>c \<in> set (idFields ix). c = ''id'' \<or> gm_has (Fields res) c"
    using assms(6) mset_eq_setD [OF ix(3)] by (auto simp: gm_has_def)
  from desired_index [OF assms(1,2) ix(1) assms(4) ne this assms(7)]
  show ?thesis using ix(2,3) unfolding uniqueIn_def by fastforce
qed


section \<open>Migrating an accepted schema\<close>

definition exSchemaOf :: "ResourceSchema gomap \<Rightarrow> APISchema" where
  "exSchemaOf rs = \<lparr>asSchema = [], asVersion = ''1'', asName = ''app'', asResources = rs,
     asRBAC = \<lparr>plainRoles = [], plainPublic = []\<rparr>, Workflows = [], Summary = None\<rparr>"

definition exFilesSchema :: APISchema where
  "exFilesSchema = exSchemaOf [(''files'', zeroResource [(''title'', zeroField ''string'')])]"

text \<open>The migration treats a table named \<open>files\<close> as the engine's own and assumes that no resource has the name, but the
  validator accepts one: migrating the schema again, against the tables it asked for, creates the table again,
  every time.\<close>

theorem files_resource_never_converges:
  "Validate exChecks exFilesSchema = [] \<and>
   (case diffReal (buildDesiredSchema exStd ''t'' exFilesSchema) (buildDesiredSchema exStd ''t'' exFilesSchema) False of
      Inl _ \<Rightarrow> False
    | Inr (p, _) \<Rightarrow> map (\<lambda>op. case op of CreateTable t \<Rightarrow> tName t | _ \<Rightarrow> []) (Ops p) = [''files''])"
  by (rule conjI; code_simp)

text \<open>Two resources may claim the same previous name, and then no migration of the tenant can be planned.\<close>

definition exTwoHeirs :: APISchema where
  "exTwoHeirs = exSchemaOf [(''a'', (zeroResource [])\<lparr>rsRenamedFrom := ''old''\<rparr>), (''b'', (zeroResource [])\<lparr>rsRenamedFrom := ''old''\<rparr>)]"

theorem shared_rename_source_blocks_planning:
  "Validate exChecks exTwoHeirs = [] \<and>
   (case diffReal (buildDesiredSchema exStd ''t'' exTwoHeirs) (buildDesiredSchema exStd ''t'' (exSchemaOf [(''old'', zeroResource [])])) False of
      Inl _ \<Rightarrow> True | Inr _ \<Rightarrow> False)"
  by (rule conjI; code_simp)

text \<open>A unique automatic timestamp is accepted, and so is a reference to it, but no constraint makes it unique.\<close>

definition exUniqueAuto :: APISchema where
  "exUniqueAuto = exSchemaOf
     [(''logs'', zeroResource [(''stamp'', (zeroField ''time'')\<lparr>Auto := AutoCreate, fUnique := True\<rparr>)]),
      (''notes'', zeroResource [(''log'', (zeroField ''time'')\<lparr>Relation := ''logs'', References := ''stamp''\<rparr>)])]"

theorem unique_auto_field_is_not_unique:
  "Validate exChecks exUniqueAuto = [] \<and>
   map_option (\<lambda>t. (Uniques t, Indexes t)) (gm_get (Tables (buildDesiredSchema exStd ''t'' exUniqueAuto)) ''logs'') = Some ([], []) \<and>
   map_option (\<lambda>t. map (\<lambda>(_, fk). (RefTable fk, RefColumns fk)) (FKs t)) (gm_get (Tables (buildDesiredSchema exStd ''t'' exUniqueAuto)) ''notes'')
     = Some [(''logs'', [''stamp''])]"
  by (intro conjI; code_simp)

section \<open>Examples\<close>

lemma exOrders_accepted: "Validate exChecks (exSchemaOf [(''orders'', exOrders)]) = []"
  by code_simp


text \<open>Accounts with a unique address and a pair of columns under a unique index, and a resource that references each.\<close>

definition exAccounts :: ResourceSchema where
  "exAccounts = (zeroResource
     [(''email'', (zeroField ''string'')\<lparr>fUnique := True\<rparr>), (''region'', zeroField ''string''), (''num'', zeroField ''int'')])
       \<lparr>rsIndexes := [\<lparr>idFields = [''region'', ''num''], idUnique = True, idMethod = [], idOpclass = []\<rparr>]\<rparr>"

definition exLetters :: ResourceSchema where
  "exLetters = (zeroResource
     [(''to_email'', (zeroField ''string'')\<lparr>Relation := ''accounts'', References := ''email''\<rparr>),
      (''r'', zeroField ''string''), (''n'', zeroField ''int'')])
       \<lparr>ForeignKeys := [\<lparr>fdColumns = [''n'', ''r''], fdTarget = ''accounts'', fdRefColumns = [''num'', ''region''], fdOnDelete = [], fdOnUpdate = []\<rparr>]\<rparr>"

lemma exMail_accepted: "Validate exChecks (exSchemaOf [(''accounts'', exAccounts), (''letters'', exLetters)]) = []"
  by code_simp


end
