(* ===== verification/QueryValues.thy ===== *)
theory QueryValues
  imports Values WriteSql
begin

text \<open>
  The values of a list filter: \<open>pkg/query/filtervalue.go\<close>, with the part of \<open>strconv.ParseInt\<close> it uses, and the
  operators each column type takes (\<open>operatorsForType\<close>, \<open>validateFilterOp\<close> of \<open>builder.go\<close>).
  \<open>strconv.ParseFloat\<close> and \<open>json.Valid\<close> are parameters.
\<close>

section \<open>Integers with a base prefix\<close>

text \<open>The value of a digit in bases up to 36, and \<open>underscoreOK\<close>: an underscore separates two digits, or the base
  prefix and a digit.\<close>

definition digitVal :: "char \<Rightarrow> nat option" where
  "digitVal c =
     (let n = (of_char (lower_char c) :: nat)
      in if is_digit c then Some (n - 48) else if 97 \<le> n \<and> n \<le> 122 then Some (n - 97 + 10) else None)"

datatype scanned = AtStart | AfterDigit | AfterUnderscore | AfterOther

fun underscores :: "bool \<Rightarrow> scanned \<Rightarrow> string \<Rightarrow> bool" where
  "underscores hex i [] = (i \<noteq> AfterUnderscore)"
| "underscores hex i (c # s) =
     (if is_digit c \<or> hex \<and> (of_char (lower_char c) :: nat) \<in> {97..102} then underscores hex AfterDigit s
      else if c = CHR ''_'' then (if i = AfterDigit then underscores hex AfterUnderscore s else False)
      else if i = AfterUnderscore then False
      else underscores hex AfterOther s)"

fun basePrefix :: "string \<Rightarrow> (nat \<times> string) option" where
  "basePrefix (z # c # s) =
     (if z \<noteq> CHR ''0'' then None
      else if lower_char c = CHR ''b'' then Some (2, s)
      else if lower_char c = CHR ''o'' then Some (8, s)
      else if lower_char c = CHR ''x'' then Some (16, s) else None)"
| "basePrefix _ = None"

definition underscoreOK :: "string \<Rightarrow> bool" where
  "underscoreOK s =
     (case basePrefix s of
        Some (b, r) \<Rightarrow> underscores (b = 16) AfterDigit r
      | None \<Rightarrow> underscores False AtStart s)"

fun digitsIn :: "nat \<Rightarrow> nat \<Rightarrow> string \<Rightarrow> nat option" where
  "digitsIn b n [] = Some n"
| "digitsIn b n (c # s) =
     (if c = CHR ''_'' then digitsIn b n s
      else case digitVal c of
             None \<Rightarrow> None
           | Some d \<Rightarrow> if d \<ge> b then None else digitsIn b (n * b + d) s)"

definition baseAndDigits :: "string \<Rightarrow> nat \<times> string" where
  "baseAndDigits s =
     (case basePrefix s of
        Some (b, r) \<Rightarrow> if r \<noteq> [] then (b, r) else (8, drop 1 s)
      | None \<Rightarrow> if take 1 s = ''0'' then (8, drop 1 s) else (10, s))"

text \<open>\<open>ParseUint(s, 0, 64)\<close> and \<open>ParseInt(s, 0, 64)\<close>; the unsigned range is subsumed by the signed one.\<close>

definition ParseUint0 :: "string \<Rightarrow> nat option" where
  "ParseUint0 s =
     (if s = [] then None
      else let (b, ds) = baseAndDigits s
           in case digitsIn b 0 ds of
                None \<Rightarrow> None
              | Some n \<Rightarrow> if CHR ''_'' \<in> set ds \<and> \<not> underscoreOK s then None else Some n)"

definition ParseInt0 :: "string \<Rightarrow> int option" where
  "ParseInt0 s =
     (let (neg, r) = (if take 1 s = ''-'' then (True, drop 1 s) else if take 1 s = ''+'' then (False, drop 1 s) else (False, s))
      in case ParseUint0 r of
           None \<Rightarrow> None
         | Some n \<Rightarrow> let v = (if neg then - int n else int n) in if in_int64 v then Some v else None)"

section \<open>What PostgreSQL takes\<close>

record FilterLib =
  flStd :: Std
  flParseFloat :: "string \<Rightarrow> bool"

definition isPlainDecimal :: "string \<Rightarrow> bool" where
  "isPlainDecimal t =
     (let u = (if take 1 t = ''+'' \<or> take 1 t = ''-'' then drop 1 t else t) in u \<noteq> [] \<and> list_all is_digit u)"

definition pgAcceptsInt :: "string \<Rightarrow> bool" where
  "pgAcceptsInt s =
     (let t = TrimSpace s
      in if t = [] then False
         else if isPlainDecimal t then Atoi t \<noteq> None
         else ParseInt0 t \<noteq> None)"

definition pgAcceptsFloat :: "FilterLib \<Rightarrow> string \<Rightarrow> bool" where
  "pgAcceptsFloat L s =
     (let t = ToLower (TrimSpace s)
      in if t = [] then False
         else if TrimPrefix (TrimPrefix t ''+'') ''-'' \<in> set [''inf'', ''infinity'', ''nan''] then True
         else if flParseFloat L t then True
         else if CHR ''_'' \<in> set t then flParseFloat L (filter (\<lambda>c. c \<noteq> CHR ''_'') t)
         else False)"

definition pgAcceptsBool :: "string \<Rightarrow> bool" where
  "pgAcceptsBool s =
     (let t = ToLower (TrimSpace s)
      in if t = [] then False
         else if HasPrefix ''true'' t \<or> HasPrefix ''false'' t \<or> HasPrefix ''yes'' t \<or> HasPrefix ''no'' t then True
         else t \<in> set [''on'', ''of'', ''off'', ''1'', ''0''])"

definition is_hex :: "char \<Rightarrow> bool" where
  "is_hex c \<longleftrightarrow> is_digit c \<or> (of_char c :: nat) \<in> {97..102} \<or> (of_char c :: nat) \<in> {65..70}"

definition pgAcceptsUUID :: "string \<Rightarrow> bool" where
  "pgAcceptsUUID s =
     (let t = TrimSpace s;
          u = (if HasPrefix t ''{'' \<and> HasSuffix t ''}'' \<and> length t \<ge> 2 then take (length t - 2) (drop 1 t) else t);
          h = filter (\<lambda>c. c \<noteq> CHR ''-'') u
      in length h = 32 \<and> list_all is_hex h)"

definition validateFilterValue :: "FilterLib \<Rightarrow> string \<Rightarrow> string \<Rightarrow> bool" where
  "validateFilterValue L fieldType val =
     (if fieldType = ''int'' \<or> fieldType = ''int64'' then pgAcceptsInt val
      else if fieldType = ''float64'' then pgAcceptsFloat L val
      else if fieldType = ''bool'' then pgAcceptsBool val
      else if fieldType = ''uuid'' \<or> fieldType = ''file'' then pgAcceptsUUID val
      else if fieldType = ''jsonb'' then jsonValid (flStd L) val
      else True)"

section \<open>Operators\<close>

definition operatorsForType :: "string list gomap" where
  "operatorsForType =
     [(''string'', [''eq'', ''partial'', ''start'', ''is_null'']),
      (''text'', [''eq'', ''partial'', ''start'', ''is_null'']),
      (''int'', [''eq'', ''gte'', ''lte'', ''gt'', ''lt'', ''is_null'']),
      (''int64'', [''eq'', ''gte'', ''lte'', ''gt'', ''lt'', ''is_null'']),
      (''float64'', [''eq'', ''gte'', ''lte'', ''gt'', ''lt'', ''is_null'']),
      (''time'', [''eq'', ''gte'', ''lte'', ''gt'', ''lt'', ''after'', ''before'', ''is_null'']),
      (''uuid'', [''eq'', ''is_null'']),
      (''bool'', [''eq'', ''is_null'']),
      (''file'', [''eq'', ''is_null'']),
      (''json'', [''eq'', ''is_null'']),
      (''jsonb'', [''eq'', ''is_null''])]"

definition validateFilterOp :: "string \<Rightarrow> string \<Rightarrow> bool" where
  "validateFilterOp op fieldType =
     (case gm_get operatorsForType fieldType of
        None \<Rightarrow> op = ''eq''
      | Some ops \<Rightarrow> op \<in> set ops)"

definition filterToSQL :: "string \<Rightarrow> string" where
  "filterToSQL op =
     (if op = ''gte'' then ''>=''
      else if op = ''lte'' then ''<=''
      else if op = ''gt'' \<or> op = ''after'' then ''>''
      else if op = ''lt'' \<or> op = ''before'' then ''<''
      else ''='')"

end
