(* ===== verification/QueryBuild.thy ===== *)
theory QueryBuild
  imports QueryValues Rbac
begin

text \<open>
  The list query of a resource, \<open>pkg/query/builder.go\<close>: the parameters of the request are parsed and checked
  (\<open>BuildQuery\<close>), then printed as a SELECT and a COUNT with their bound arguments (\<open>SQL\<close>).  A
  \<open>url.Values\<close> is a map of string lists; an absent projection (\<open>nil\<close>) is \<open>None\<close>.  The texts of the errors are left
  out: an error is the place that raises it, with the names and values its text shows.
\<close>

datatype PagingFault =
    ConflictingCursors | InvalidAfter | InvalidBefore | PageWithCursor string | InvalidPage string
  | InvalidPerPage string

datatype FilterFault =
    MalformedFilter string | FilterNoValue string | UnknownFilterField string
  | FilterOpNotAllowed string string string | IsNullOnId | IsNullOnRequired string
  | IsNullValue string string | FilterEmptyValue string string string
  | FilterBadValue string string string string | RangeOpNotAllowed string string
  | RangeEmptyValue string string | RangeNotInterval string string
  | RangeReversed string string string

datatype SortFault =
    SortWithCursor string | SortEmpty | UnknownSortField string | InvalidDirection string
  | OrderWithoutSort string | MultipleOrders "string list" | MalformedOrder string
  | OrderNoValue string | OrderWithCursor string string

datatype ReadFault =
    SearchUnsupported string | SearchUnreadable | ErrFieldsEmpty | FieldsEmptyEntry string
  | UnknownProjected string | ListParamRejected string | InvalidCount string

datatype AggFault =
    AggUnsupported string | AggUnknownParam string | AggEmptyEntry string string
  | AggUnknownField string string | AggTypeNotAllowed string string string | GroupByEmpty
  | GroupByUnknown string | NotGroupable string string | AggNoField "string list" | GroupByAlone
  | AggNothing

datatype QueryError =
    InvalidConditionField string | RepeatedParam string nat | ErrForbiddenField string | ErrAggForbiddenField string
  | Paging PagingFault | BadFilter FilterFault | BadSort SortFault | BadRead ReadFault | BadAggregate AggFault

type_synonym 'a qresult = "QueryError + 'a"

text \<open>Go's \<open>if err != nil { return nil, err }\<close>, and a loop of such steps that collects a list.\<close>

definition qbind :: "'a qresult \<Rightarrow> ('a \<Rightarrow> 'b qresult) \<Rightarrow> 'b qresult" where
  "qbind r f = (case r of Inl err \<Rightarrow> Inl err | Inr x \<Rightarrow> f x)"

definition qguard :: "bool \<Rightarrow> QueryError \<Rightarrow> unit qresult" where
  "qguard b err = (if b then Inr () else Inl err)"

fun qmap :: "('a \<Rightarrow> 'b qresult) \<Rightarrow> 'a list \<Rightarrow> 'b list qresult" where
  "qmap f [] = Inr []"
| "qmap f (x # xs) = qbind (f x) (\<lambda>y. qbind (qmap f xs) (\<lambda>ys. Inr (y # ys)))"

lemma qbind_Inr_iff [simp]: "qbind r f = Inr y \<longleftrightarrow> (\<exists>x. r = Inr x \<and> f x = Inr y)"
  by (cases r) (auto simp: qbind_def)

lemma qbind_Inl_iff: "qbind r f = Inl err \<longleftrightarrow> r = Inl err \<or> (\<exists>x. r = Inr x \<and> f x = Inl err)"
  by (cases r) (auto simp: qbind_def)

lemma qguard_Inr_iff [simp]: "qguard b err = Inr u \<longleftrightarrow> b"
  by (auto simp: qguard_def)

lemma qmap_Inr_iff: "qmap f xs = Inr ys \<longleftrightarrow> list_all2 (\<lambda>x y. f x = Inr y) xs ys"
  by (induction xs arbitrary: ys) (auto simp: list_all2_Cons1)

section \<open>The parsed query\<close>

definition DefaultPage :: int where "DefaultPage = 1"
definition DefaultPerPage :: int where "DefaultPerPage = 20"
definition MaxPerPage :: int where "MaxPerPage = 100"
definition MaxPage :: int where "MaxPage = 10000"

record filterClause =
  rangeStart :: string
  rangeEnd :: string
  fcVal2 :: string
  fcField :: string
  fcOp :: string
  fcVal :: string

record QueryBuilder =
  qbResource :: string
  qbRes :: ResourceSchema
  qbPage :: int
  qbPerPage :: int
  qbFilters :: "filterClause list"
  sortField :: string
  sortOrder :: string
  qbSearch :: string
  qbCondition :: "WhereCondition option"
  afterID :: string
  beforeID :: string
  qbAllowed :: "string list"
  qbFields :: "string list option"

type_synonym url_values = "string list gomap"

definition fieldAllowed :: "string \<Rightarrow> string list \<Rightarrow> bool" where
  "fieldAllowed field allowlist = (if allowlist = [] then True else field \<in> set allowlist)"

definition roleAllows :: "string list \<Rightarrow> string \<Rightarrow> bool" where
  "roleAllows allowedFields field \<longleftrightarrow> field = ''id'' \<or> fieldAllowed field allowedFields"

definition isTextField :: "FieldDef \<Rightarrow> bool" where
  "isTextField fd \<longleftrightarrow> fType fd = ''string'' \<or> fType fd = ''text''"

definition searchableFields :: "QueryBuilder \<Rightarrow> string list" where
  "searchableFields qb =
     sort (map fst (filter (\<lambda>(name, fd). isTextField fd \<and> fieldAllowed name (qbAllowed qb)) (Fields (qbRes qb))))"

definition resourceHasTextField :: "ResourceSchema \<Rightarrow> bool" where
  "resourceHasTextField res = list_ex (\<lambda>(_, fd). isTextField fd) (Fields res)"

section \<open>Parameters\<close>

definition singleValue :: "url_values \<Rightarrow> string \<Rightarrow> string option qresult" where
  "singleValue params key =
     (case gm_get params key of
        Some [v] \<Rightarrow> Inr (Some v)
      | Some (v # w # vs) \<Rightarrow> Inl (RepeatedParam key (length (v # w # vs)))
      | _ \<Rightarrow> Inr None)"

definition notBracket :: "char \<Rightarrow> bool" where
  "notBracket c \<longleftrightarrow> c \<noteq> CHR ''['' \<and> c \<noteq> CHR '']''"

text \<open>\<open>\[([^\[\]]+)\]\<close> at the start of a text: the name and what follows it.\<close>

definition bracketed :: "string \<Rightarrow> (string \<times> string) option" where
  "bracketed s =
     (let name = takeWhile notBracket (drop 1 s); rest = dropWhile notBracket (drop 1 s)
      in if take 1 s = ''['' \<and> name \<noteq> [] \<and> take 1 rest = '']'' then Some (name, drop 1 rest) else None)"

text \<open>\<open>filterParamRe\<close> and \<open>orderParamRe\<close>: the groups of a match; an absent second group is empty.\<close>

definition filterParamRe :: "string \<Rightarrow> (string \<times> string) option" where
  "filterParamRe key =
     (if \<not> HasPrefix key ''filter'' then None
      else case bracketed (drop 6 key) of
             None \<Rightarrow> None
           | Some (field, []) \<Rightarrow> Some (field, [])
           | Some (field, rest) \<Rightarrow> (case bracketed rest of Some (op, []) \<Rightarrow> Some (field, op) | _ \<Rightarrow> None))"

definition orderParamRe :: "string \<Rightarrow> string option" where
  "orderParamRe key =
     (if \<not> HasPrefix key ''order'' then None
      else case bracketed (drop 5 key) of Some (field, []) \<Rightarrow> Some field | _ \<Rightarrow> None)"

definition filterParamPrefix :: string where "filterParamPrefix = ''filter[''"
definition orderParamPrefix :: string where "orderParamPrefix = ''order[''"

definition keysWithPrefix :: "url_values \<Rightarrow> string \<Rightarrow> string list" where
  "keysWithPrefix params p = filter (\<lambda>k. HasPrefix k p) (sortedKeys params)"

definition lowerHex :: "char \<Rightarrow> bool" where
  "lowerHex c \<longleftrightarrow> is_digit c \<or> (of_char c :: nat) \<in> {97..102}"

definition uuidRe :: "string \<Rightarrow> bool" where
  "uuidRe s \<longleftrightarrow> map length (split_on (CHR ''-'') s) = [8, 4, 4, 4, 12] \<and> list_all (list_all lowerHex) (split_on (CHR ''-'') s)"

definition sortDirection :: "string \<Rightarrow> string qresult" where
  "sortDirection v =
     (if ToLower v = ''asc'' then Inr ''ASC''
      else if ToLower v = ''desc'' then Inr ''DESC''
      else Inl (BadSort (InvalidDirection v)))"

section \<open>Filters\<close>

definition rangeOps :: "string list" where "rangeOps = [''overlaps'', ''contains'']"

definition parseInstant :: "Std \<Rightarrow> string \<Rightarrow> int option" where
  "parseInstant std s = firstSome (\<lambda>layout. timeParse std layout s) (take 2 timeLayouts)"

definition zeroClause :: filterClause where
  "zeroClause = \<lparr>rangeStart = [], rangeEnd = [], fcVal2 = [], fcField = [], fcOp = [], fcVal = []\<rparr>"

definition parseRangeFilter :: "Std \<Rightarrow> string \<Rightarrow> string \<Rightarrow> string \<Rightarrow> RangeDef \<Rightarrow> filterClause qresult" where
  "parseRangeFilter std name op val rg =
     (if op \<notin> set rangeOps then Inl (BadFilter (RangeOpNotAllowed name op))
      else if val = [] then Inl (BadFilter (RangeEmptyValue name op))
      else let fc = zeroClause\<lparr>fcField := name, rangeStart := Start rg, rangeEnd := End rg\<rparr>
           in if op = ''overlaps'' then
                (let i = IndexByte val (CHR ''/'')
                 in if i \<le> 0 \<or> i = int (length val) - 1 then Inl (BadFilter (RangeNotInterval name val))
                    else let from = take (nat i) val; to = drop (nat i + 1) val
                         in case (parseInstant std from, parseInstant std to) of
                              (Some tf, Some tt) \<Rightarrow>
                                if \<not> tt > tf then Inl (BadFilter (RangeReversed name to from))
                                else Inr (fc\<lparr>fcOp := ''range_overlaps'', fcVal := from, fcVal2 := to\<rparr>)
                            | _ \<Rightarrow> Inr (fc\<lparr>fcOp := ''range_overlaps'', fcVal := from, fcVal2 := to\<rparr>))
              else Inr (fc\<lparr>fcOp := ''range_contains'', fcVal := val\<rparr>))"

text \<open>The body of the loop over the filter parameters: the checks of one column filter, then of one parameter.\<close>

definition columnFilter :: "FilterLib \<Rightarrow> string \<Rightarrow> FieldDef \<Rightarrow> string \<Rightarrow> string \<Rightarrow> filterClause qresult" where
  "columnFilter L field fd op val =
     (let fc = zeroClause\<lparr>fcField := field, fcOp := op\<rparr>
      in if \<not> validateFilterOp op (fType fd) then Inl (BadFilter (FilterOpNotAllowed field op (fType fd)))
         else if op = ''is_null'' then
           (if field = ''id'' then Inl (BadFilter IsNullOnId)
            else if Required fd then Inl (BadFilter (IsNullOnRequired field))
            else if val = ''true'' \<or> val = ''1'' then Inr (fc\<lparr>fcVal := ''true''\<rparr>)
            else if val = ''false'' \<or> val = ''0'' then Inr (fc\<lparr>fcVal := ''false''\<rparr>)
            else Inl (BadFilter (IsNullValue field val)))
         else if val = [] \<and> fType fd \<noteq> ''string'' \<and> fType fd \<noteq> ''text'' \<and> fType fd \<noteq> ''json'' then
           Inl (BadFilter (FilterEmptyValue field op (fType fd)))
         else if val \<noteq> [] \<and> \<not> validateFilterValue L (fType fd) val then Inl (BadFilter (FilterBadValue field op val (fType fd)))
         else Inr (fc\<lparr>fcVal := val\<rparr>))"

text \<open>The column a filter names: a declared field, or the implicit \<open>id\<close>.\<close>

definition filterColumn :: "ResourceSchema \<Rightarrow> string \<Rightarrow> FieldDef option" where
  "filterColumn res field =
     (case gm_get (Fields res) field of
        Some fd \<Rightarrow> Some fd
      | None \<Rightarrow> if field = ''id'' then Some (zeroField ''uuid'') else None)"

definition parseFilter :: "FilterLib \<Rightarrow> ResourceSchema \<Rightarrow> url_values \<Rightarrow> string list \<Rightarrow> string \<Rightarrow> filterClause qresult" where
  "parseFilter L res params allowedFields key =
     (case (filterParamRe key, gm_get params key) of
        (None, _) \<Rightarrow> Inl (BadFilter (MalformedFilter key))
      | (Some (field, opName), Some [val]) \<Rightarrow>
          (let op = (if opName \<noteq> [] then opName else ''eq'')
           in case gm_get (Ranges res) field of
                Some rg \<Rightarrow>
                  if \<not> roleAllows allowedFields (Start rg) \<or> \<not> roleAllows allowedFields (End rg) then Inl (ErrForbiddenField field)
                  else parseRangeFilter (flStd L) field op val rg
              | None \<Rightarrow>
                  (case filterColumn res field of
                     None \<Rightarrow> Inl (BadFilter (UnknownFilterField field))
                   | Some fd \<Rightarrow>
                       if \<not> roleAllows allowedFields field then Inl (ErrForbiddenField field)
                       else columnFilter L field fd op val))
      | (Some _, Some (v # vs)) \<Rightarrow> Inl (RepeatedParam key (length (v # vs)))
      | (Some _, _) \<Rightarrow> Inl (BadFilter (FilterNoValue key)))"

text \<open>\<open>sort.Slice\<close> by field, then by operator.  Two clauses can only tie as \<open>filter[f]\<close> and \<open>filter[f][eq]\<close>; ties keep
  their order here, as they do in Go up to twelve elements.\<close>

definition sortFilters :: "filterClause list \<Rightarrow> filterClause list" where
  "sortFilters fcs = sort_key fcField (sort_key fcOp fcs)"

definition parseFilters :: "FilterLib \<Rightarrow> ResourceSchema \<Rightarrow> url_values \<Rightarrow> string list \<Rightarrow> filterClause list qresult" where
  "parseFilters L res params allowedFields =
     qbind (qmap (parseFilter L res params allowedFields) (keysWithPrefix params filterParamPrefix)) (\<lambda>fcs. Inr (sortFilters fcs))"

section \<open>Cursors, pages, order, search and projection\<close>

definition parseCursors :: "url_values \<Rightarrow> (string \<times> string \<times> string) qresult" where
  "parseCursors params =
     qbind (singleValue params ''after'') (\<lambda>a.
     qbind (singleValue params ''before'') (\<lambda>b.
       case (a, b) of
         (Some _, Some _) \<Rightarrow> Inl (Paging ConflictingCursors)
       | (Some v, None) \<Rightarrow> if uuidRe v then Inr (v, [], ''after'') else Inl (Paging InvalidAfter)
       | (None, Some v) \<Rightarrow> if uuidRe v then Inr ([], v, ''before'') else Inl (Paging InvalidBefore)
       | (None, None) \<Rightarrow> Inr ([], [], [])))"

definition parsePage :: "url_values \<Rightarrow> string \<Rightarrow> int qresult" where
  "parsePage params cursorParam =
     qbind (singleValue params ''page'') (\<lambda>v.
       case v of
         None \<Rightarrow> Inr DefaultPage
       | Some pageStr \<Rightarrow>
           if cursorParam \<noteq> [] then Inl (Paging (PageWithCursor cursorParam))
           else case Atoi pageStr of
                  None \<Rightarrow> Inl (Paging (InvalidPage pageStr))
                | Some p \<Rightarrow> if p \<le> 0 then Inl (Paging (InvalidPage pageStr)) else Inr (if p > MaxPage then MaxPage else p))"

definition parsePerPage :: "url_values \<Rightarrow> int qresult" where
  "parsePerPage params =
     qbind (singleValue params ''per_page'') (\<lambda>v.
       case v of
         None \<Rightarrow> Inr DefaultPerPage
       | Some ppStr \<Rightarrow>
           (case Atoi ppStr of
              None \<Rightarrow> Inl (Paging (InvalidPerPage ppStr))
            | Some pp \<Rightarrow> if pp \<le> 0 then Inl (Paging (InvalidPerPage ppStr)) else Inr (if pp > MaxPerPage then MaxPerPage else pp)))"

text \<open>\<open>?sort=field\<close> with \<open>?order=\<close>: the sort column and direction, both empty without a sort.\<close>

definition parseSort :: "ResourceSchema \<Rightarrow> url_values \<Rightarrow> string list \<Rightarrow> string \<Rightarrow> (string \<times> string) qresult" where
  "parseSort res params allowedFields cursorParam =
     qbind (singleValue params ''sort'') (\<lambda>v.
       case v of
         Some sf \<Rightarrow>
           if cursorParam \<noteq> [] then Inl (BadSort (SortWithCursor cursorParam))
           else if sf = [] then Inl (BadSort SortEmpty)
           else if \<not> gm_has (Fields res) sf \<and> sf \<noteq> ''id'' then Inl (BadSort (UnknownSortField sf))
           else if \<not> roleAllows allowedFields sf then Inl (ErrForbiddenField sf)
           else qbind (singleValue params ''order'') (\<lambda>dir.
                  case dir of None \<Rightarrow> Inr (sf, ''ASC'') | Some d \<Rightarrow> qbind (sortDirection d) (\<lambda>so. Inr (sf, so)))
       | None \<Rightarrow>
           qbind (singleValue params ''order'') (\<lambda>dir.
             case dir of None \<Rightarrow> Inr ([], []) | Some d \<Rightarrow> Inl (BadSort (OrderWithoutSort d))))"

text \<open>\<open>?order[field]=\<close> overrides it.\<close>

definition parseOrder ::
  "ResourceSchema \<Rightarrow> url_values \<Rightarrow> string list \<Rightarrow> string \<Rightarrow> string \<times> string \<Rightarrow> (string \<times> string) qresult" where
  "parseOrder res params allowedFields cursorParam bySort =
     (case keysWithPrefix params orderParamPrefix of
        [] \<Rightarrow> Inr bySort
      | [key] \<Rightarrow>
          (case (orderParamRe key, gm_get params key) of
             (None, _) \<Rightarrow> Inl (BadSort (MalformedOrder key))
           | (Some field, Some [dir]) \<Rightarrow>
               if cursorParam \<noteq> [] then Inl (BadSort (OrderWithCursor key cursorParam))
               else if \<not> gm_has (Fields res) field \<and> field \<noteq> ''id'' then Inl (BadSort (UnknownSortField field))
               else if \<not> roleAllows allowedFields field then Inl (ErrForbiddenField field)
               else qbind (sortDirection dir) (\<lambda>d. Inr (field, d))
           | (Some _, Some (v # vs)) \<Rightarrow> Inl (RepeatedParam key (length (v # vs)))
           | (Some _, _) \<Rightarrow> Inl (BadSort (OrderNoValue key)))
      | keys \<Rightarrow> Inl (BadSort (MultipleOrders keys)))"

definition parseSearch :: "QueryBuilder \<Rightarrow> url_values \<Rightarrow> string qresult" where
  "parseSearch qb params =
     qbind (singleValue params ''search'') (\<lambda>v.
       case v of
         None \<Rightarrow> Inr []
       | Some search \<Rightarrow>
           if search = [] then Inr []
           else if \<not> resourceHasTextField (qbRes qb) then Inl (BadRead (SearchUnsupported search))
           else if searchableFields qb = [] then Inl (BadRead SearchUnreadable)
           else Inr search)"

text \<open>The loop of \<open>ParseFields\<close>: \<open>out\<close> is the list so far, which is also the set of the names seen.\<close>

fun projectFields :: "ResourceSchema \<Rightarrow> string list \<Rightarrow> string \<Rightarrow> string list \<Rightarrow> string list \<Rightarrow> string list qresult" where
  "projectFields res allowedFields raw [] out = Inr out"
| "projectFields res allowedFields raw (part # parts) out =
     (let name = TrimSpace part
      in if name = [] then Inl (BadRead (FieldsEmptyEntry raw))
         else if name \<noteq> ''id'' \<and> \<not> gm_has (Fields res) name then Inl (BadRead (UnknownProjected name))
         else if name \<noteq> ''id'' \<and> \<not> fieldAllowed name allowedFields then projectFields res allowedFields raw parts out
         else projectFields res allowedFields raw parts (if name \<in> set out then out else out @ [name]))"

definition ParseFields :: "ResourceSchema \<Rightarrow> url_values \<Rightarrow> string list \<Rightarrow> string list option qresult" where
  "ParseFields res params allowedFields =
     qbind (singleValue params ''fields'') (\<lambda>v.
       case v of
         None \<Rightarrow> Inr None
       | Some raw \<Rightarrow>
           if TrimSpace raw = [] then Inl (BadRead ErrFieldsEmpty)
           else qbind (projectFields res allowedFields raw (split_on (CHR '','') raw) [''id'']) (\<lambda>out. Inr (Some out)))"

section \<open>BuildQuery\<close>

definition newQuery :: "string \<Rightarrow> ResourceSchema \<Rightarrow> WhereCondition option \<Rightarrow> string list \<Rightarrow> QueryBuilder" where
  "newQuery resource res condition allowedFields =
     \<lparr>qbResource = resource, qbRes = res, qbPage = DefaultPage, qbPerPage = DefaultPerPage, qbFilters = [],
      sortField = [], sortOrder = [], qbSearch = [], qbCondition = condition, afterID = [], beforeID = [],
      qbAllowed = allowedFields, qbFields = None\<rparr>"

definition BuildQuery ::
  "FilterLib \<Rightarrow> string \<Rightarrow> ResourceSchema \<Rightarrow> url_values \<Rightarrow> WhereCondition option \<Rightarrow> string list \<Rightarrow> QueryBuilder qresult" where
  "BuildQuery L resource res params condition allowedFields =
     qbind (case condition of None \<Rightarrow> Inr () | Some c \<Rightarrow> qguard (bareIdent (wField c)) (InvalidConditionField (wField c))) (\<lambda>_.
     qbind (parseCursors params) (\<lambda>(aft, bef, cursorParam).
     qbind (parsePage params cursorParam) (\<lambda>p.
     qbind (parsePerPage params) (\<lambda>pp.
     qbind (parseFilters L res params allowedFields) (\<lambda>fcs.
     qbind (parseSort res params allowedFields cursorParam) (\<lambda>s.
     qbind (parseOrder res params allowedFields cursorParam s) (\<lambda>(sf, so).
     let qb = (newQuery resource res condition allowedFields)
                \<lparr>afterID := aft, beforeID := bef, qbPage := p, qbPerPage := pp, qbFilters := fcs, sortField := sf, sortOrder := so\<rparr>
     in qbind (parseSearch qb params) (\<lambda>se.
        qbind (ParseFields res params allowedFields) (\<lambda>fs.
        Inr (qb\<lparr>qbSearch := se, qbFields := fs\<rparr>))))))))))"

text \<open>The projection of a caller that already knows its columns; an empty list restores \<open>SELECT *\<close>.\<close>

fun selectNames :: "ResourceSchema \<Rightarrow> string list \<Rightarrow> string list \<Rightarrow> string list qresult" where
  "selectNames res [] out = Inr out"
| "selectNames res (name # names) out =
     (if name \<noteq> ''id'' \<and> \<not> gm_has (Fields res) name then Inl (BadRead (UnknownProjected name))
      else selectNames res names (if name \<in> set out then out else out @ [name]))"

definition SelectOnly :: "QueryBuilder \<Rightarrow> string list \<Rightarrow> QueryBuilder qresult" where
  "SelectOnly qb cols =
     (if cols = [] then Inr (qb\<lparr>qbFields := None\<rparr>)
      else qbind (selectNames (qbRes qb) cols [''id'']) (\<lambda>out. Inr (qb\<lparr>qbFields := Some out\<rparr>)))"

section \<open>SQL\<close>

definition quoteIdent :: "string \<Rightarrow> string" where
  "quoteIdent s = [CHR 0x22] @ s @ [CHR 0x22]"

definition SelectList :: "string list option \<Rightarrow> string" where
  "SelectList cols =
     (case cols of Some (c # cs) \<Rightarrow> join_with '', '' (map quoteIdent (c # cs)) | _ \<Rightarrow> ''*'')"

definition SelectListAliased :: "string \<Rightarrow> string list option \<Rightarrow> string" where
  "SelectListAliased alias cols =
     (case cols of Some (c # cs) \<Rightarrow> join_with '', '' (map (\<lambda>c. alias @ ''.'' @ quoteIdent c) (c # cs)) | _ \<Rightarrow> alias @ ''.*'')"

definition UsesCursor :: "QueryBuilder \<Rightarrow> bool" where
  "UsesCursor qb \<longleftrightarrow> afterID qb \<noteq> [] \<or> beforeID qb \<noteq> []"

definition EffectiveOrder :: "QueryBuilder \<Rightarrow> string \<times> string" where
  "EffectiveOrder qb =
     (if beforeID qb \<noteq> [] then (''id'', ''DESC'')
      else if afterID qb \<noteq> [] then (''id'', ''ASC'')
      else if sortField qb \<noteq> [] then (sortField qb, sortOrder qb)
      else (''id'', ''ASC''))"

text \<open>The state of \<open>appendConditions\<close>: the parts of the WHERE, the bound arguments and the next parameter index.\<close>

type_synonym where_state = "string list \<times> sqlArg list \<times> nat"

definition strArg :: "string \<Rightarrow> sqlArg" where
  "strArg s = Arg (GStr s)"

definition bothBounds :: "filterClause \<Rightarrow> string" where
  "bothBounds f = ''('' @ rangeStart f @ '' IS NOT NULL AND '' @ rangeEnd f @ '' IS NOT NULL AND '' @ RangeExprSQL (rangeStart f) (rangeEnd f)"

fun appendFilter :: "where_state \<Rightarrow> filterClause \<Rightarrow> where_state" where
  "appendFilter (parts, args, idx) f =
     (if fcOp f = ''partial'' then
        (parts @ [fcField f @ '' ILIKE '' @ placeholder idx], args @ [strArg (''%'' @ fcVal f @ ''%'')], idx + 1)
      else if fcOp f = ''start'' then
        (parts @ [fcField f @ '' ILIKE '' @ placeholder idx], args @ [strArg (fcVal f @ ''%'')], idx + 1)
      else if fcOp f = ''is_null'' then
        (parts @ [fcField f @ (if fcVal f = ''true'' then '' IS NULL'' else '' IS NOT NULL'')], args, idx)
      else if fcOp f = ''range_overlaps'' then
        (parts @ [bothBounds f @ '' && tstzrange('' @ placeholder idx @ ''::timestamptz, '' @ placeholder (idx + 1) @
                  ''::timestamptz, '' @ [CHR 0x27] @ ''[)'' @ [CHR 0x27] @ ''))''],
         args @ [strArg (fcVal f), strArg (fcVal2 f)], idx + 2)
      else if fcOp f = ''range_contains'' then
        (parts @ [bothBounds f @ '' @> '' @ placeholder idx @ ''::timestamptz)''], args @ [strArg (fcVal f)], idx)
      else
        (parts @ [fcField f @ '' '' @ filterToSQL (fcOp f) @ '' '' @ placeholder idx], args @ [strArg (fcVal f)], idx + 1))"

definition escapeLike :: "string \<Rightarrow> string" where
  "escapeLike s = concat (map (\<lambda>c. if c = CHR ''%'' \<or> c = CHR ''_'' then [CHR 0x5C, c] else [c]) s)"

definition searchPart :: "string \<Rightarrow> nat \<Rightarrow> string" where
  "searchPart name idx = name @ '' ILIKE '' @ placeholder idx @ '' ESCAPE '' @ [CHR 0x27, CHR 0x5C, CHR 0x27]"

definition appendSearch :: "QueryBuilder \<Rightarrow> where_state \<Rightarrow> where_state" where
  "appendSearch qb st =
     (let (parts, args, idx) = st; strFields = searchableFields qb
      in if qbSearch qb = [] \<or> strFields = [] then st
         else (parts @ [''('' @ join_with '' OR '' (map (\<lambda>(i, name). searchPart name (idx + i)) (enumerate 0 strFields)) @ '')''],
               args @ map (\<lambda>_. strArg (''%'' @ escapeLike (qbSearch qb) @ ''%'')) strFields, idx + length strFields))"

definition appendRowScope :: "QueryBuilder \<Rightarrow> where_state \<Rightarrow> where_state" where
  "appendRowScope qb st =
     (let (parts, args, idx) = st
      in case qbCondition qb of
           None \<Rightarrow> st
         | Some c \<Rightarrow> (parts @ [wField c @ '' = '' @ placeholder idx], args @ [strArg (wValue c)], idx + 1))"

definition appendConditions :: "QueryBuilder \<Rightarrow> where_state \<Rightarrow> where_state" where
  "appendConditions qb st = appendSearch qb (foldl appendFilter (appendRowScope qb st) (qbFilters qb))"

definition cursorState :: "QueryBuilder \<Rightarrow> where_state" where
  "cursorState qb =
     (if afterID qb \<noteq> [] then ([''id > '' @ placeholder 1], [strArg (afterID qb)], 2)
      else if beforeID qb \<noteq> [] then ([''id < '' @ placeholder 1], [strArg (beforeID qb)], 2)
      else ([], [], 1))"

definition whereText :: "string list \<Rightarrow> string" where
  "whereText parts = (if parts = [] then [] else '' WHERE '' @ join_with '' AND '' parts)"

definition buildWhere :: "QueryBuilder \<Rightarrow> string \<times> sqlArg list" where
  "buildWhere qb = (let (parts, args, _) = appendConditions qb (cursorState qb) in (whereText parts, args))"

definition aggregateWhere :: "QueryBuilder \<Rightarrow> string \<times> sqlArg list" where
  "aggregateWhere qb = (let (parts, args, _) = appendConditions qb ([], [], 1) in (whereText parts, args))"

definition orderClause :: "QueryBuilder \<Rightarrow> string" where
  "orderClause qb =
     (if UsesCursor qb then (if beforeID qb \<noteq> [] then ''ORDER BY id DESC'' else ''ORDER BY id ASC'')
      else if sortField qb \<noteq> [] then ''ORDER BY '' @ sortField qb @ '' '' @ sortOrder qb
      else ''ORDER BY id ASC'')"

definition SQL :: "QueryBuilder \<Rightarrow> string \<times> string \<times> sqlArg list \<times> sqlArg list" where
  "SQL qb =
     (let (whereClause, whereArgs) = buildWhere qb;
          tbl = quoteIdent (qbResource qb);
          sel = ''SELECT '' @ SelectList (qbFields qb) @ '' FROM '' @ tbl @ whereClause @ '' '' @ orderClause qb @
                '' LIMIT '' @ placeholder (length whereArgs + 1);
          countQ = ''SELECT COUNT(*) FROM '' @ tbl @ whereClause
      in if UsesCursor qb then (sel, countQ, whereArgs @ [Arg (GInt (qbPerPage qb))], whereArgs)
         else (sel @ '' OFFSET '' @ placeholder (length whereArgs + 2), countQ,
               whereArgs @ [Arg (GInt (qbPerPage qb)), Arg (GInt ((qbPage qb - 1) * qbPerPage qb))], whereArgs))"

definition SQLProjected :: "QueryBuilder \<Rightarrow> string list option \<Rightarrow> string \<times> sqlArg list" where
  "SQLProjected qb cols = (let (selectQ, _, selectArgs, _) = SQL (qb\<lparr>qbFields := cols\<rparr>) in (selectQ, selectArgs))"

definition AppendAliasedRowCondition ::
  "string \<Rightarrow> sqlArg list \<Rightarrow> string \<Rightarrow> WhereCondition option \<Rightarrow> goError + string \<times> sqlArg list" where
  "AppendAliasedRowCondition sql args alias cond =
     (case cond of
        None \<Rightarrow> Inr (sql, args)
      | Some c \<Rightarrow>
          if \<not> bareIdent (wField c) then Inl (PlainError (''invalid rbac condition field: '' @ goq (wField c)))
          else Inr (sql @ '' AND '' @ alias @ ''.'' @ wField c @ '' = '' @ placeholder (length args + 1), args @ [strArg (wValue c)]))"

section \<open>The parameters of other routes\<close>

definition listOnlyParams :: "string list" where
  "listOnlyParams = [''page'', ''per_page'', ''sort'', ''order'', ''after'', ''before'', ''search'', ''count'']"

definition ownedParam :: "bool \<Rightarrow> string \<Rightarrow> bool" where
  "ownedParam alsoInclude key \<longleftrightarrow>
     HasPrefix key filterParamPrefix \<or> HasPrefix key orderParamPrefix \<or> key \<in> set listOnlyParams \<or> (alsoInclude \<and> key = ''include'')"

definition RejectListParams :: "url_values \<Rightarrow> bool \<Rightarrow> unit qresult" where
  "RejectListParams params alsoInclude =
     (case List.find (ownedParam alsoInclude) (sortedKeys params) of
        None \<Rightarrow> Inr ()
      | Some key \<Rightarrow> Inl (BadRead (ListParamRejected key)))"

definition countFlagValues :: "bool gomap" where
  "countFlagValues = [(''true'', True), (''1'', True), (''false'', False), (''0'', False)]"

definition ParseCountFlag :: "url_values \<Rightarrow> bool qresult" where
  "ParseCountFlag params =
     qbind (singleValue params ''count'') (\<lambda>v.
       case v of
         None \<Rightarrow> Inr False
       | Some x \<Rightarrow>
           if x = [] then Inr True
           else case gm_get countFlagValues (ToLower x) of
                  Some on \<Rightarrow> Inr on
                | None \<Rightarrow> Inl (BadRead (InvalidCount x)))"

end
