(* ===== verification/QueryAggregate.thy ===== *)
theory QueryAggregate
  imports QueryBuild
begin

text \<open>
  Aggregates over a resource, \<open>pkg/query/aggregate.go\<close>: the parameters of the aggregate route, the functions and
  grouping columns they name, and the statement, scoped by the WHERE of the list read.
\<close>

definition aggFuncs :: "string list" where
  "aggFuncs = [''sum'', ''avg'', ''min'', ''max'']"

record AggMetric =
  Fn :: string
  amField :: string
  Alias :: string

record AggregateQuery =
  aqQuery :: QueryBuilder
  aqCount :: bool
  Metrics :: "AggMetric list"
  GroupBy :: "string list"

definition isNumericType :: "string \<Rightarrow> bool" where
  "isNumericType t \<longleftrightarrow> t = ''int'' \<or> t = ''int64'' \<or> t = ''float64''"

definition aggFieldTypeOK :: "string \<Rightarrow> string \<Rightarrow> bool" where
  "aggFieldTypeOK fn fieldType =
     (if fn = ''sum'' \<or> fn = ''avg'' then isNumericType fieldType
      else if fn = ''min'' \<or> fn = ''max'' then isNumericType fieldType \<or> fieldType = ''time''
      else False)"

definition groupByTypeOK :: "string \<Rightarrow> bool" where
  "groupByTypeOK fieldType \<longleftrightarrow> fieldType \<noteq> ''json'' \<and> fieldType \<noteq> ''jsonb''"

definition splitCSVStrict :: "string \<Rightarrow> string \<Rightarrow> string list qresult" where
  "splitCSVStrict param s =
     (if s = [] then Inr []
      else qmap (\<lambda>p. if TrimSpace p = [] then Inl (BadAggregate (AggEmptyEntry param s)) else Inr (TrimSpace p)) (split_on (CHR '','') s))"

definition aggUnsupportedListParams :: "string list" where
  "aggUnsupportedListParams = [''page'', ''per_page'', ''sort'', ''order'', ''after'', ''before'', ''include'']"

definition aggOwnedParams :: "string list" where
  "aggOwnedParams = [''count'', ''sum'', ''avg'', ''min'', ''max'', ''group_by'', ''search'']"

definition isAggUnsupportedListParam :: "string \<Rightarrow> bool" where
  "isAggUnsupportedListParam key \<longleftrightarrow> HasPrefix key orderParamPrefix \<or> key \<in> set aggUnsupportedListParams"

definition aggKnownParam :: "string \<Rightarrow> bool" where
  "aggKnownParam key \<longleftrightarrow> key \<in> set aggOwnedParams \<or> HasPrefix key filterParamPrefix"

definition scanAggParams :: "url_values \<Rightarrow> unit qresult" where
  "scanAggParams params =
     (case List.find (\<lambda>key. \<not> aggKnownParam key) (sortedKeys params) of
        None \<Rightarrow> Inr ()
      | Some key \<Rightarrow> if isAggUnsupportedListParam key then Inl (BadAggregate (AggUnsupported key)) else Inl (BadAggregate (AggUnknownParam key)))"

definition aggField :: "ResourceSchema \<Rightarrow> string list \<Rightarrow> string \<Rightarrow> string \<Rightarrow> AggMetric qresult" where
  "aggField res allowedFields fn f =
     (case gm_get (Fields res) f of
        None \<Rightarrow> Inl (BadAggregate (AggUnknownField fn f))
      | Some fd \<Rightarrow>
          if \<not> aggFieldTypeOK fn (fType fd) then Inl (BadAggregate (AggTypeNotAllowed fn f (fType fd)))
          else if \<not> fieldAllowed f allowedFields then Inl (ErrAggForbiddenField f)
          else Inr \<lparr>Fn = fn, amField = f, Alias = ''agg_'' @ fn @ ''_'' @ f\<rparr>)"

text \<open>The body of the loop over \<open>aggFuncs\<close>: the metrics of one function, and whether it was sent with no field.\<close>

definition aggMetrics :: "ResourceSchema \<Rightarrow> url_values \<Rightarrow> string list \<Rightarrow> string \<Rightarrow> (AggMetric list \<times> bool) qresult" where
  "aggMetrics res params allowedFields fn =
     qbind (singleValue params fn) (\<lambda>v.
     qbind (splitCSVStrict fn (case v of Some x \<Rightarrow> x | None \<Rightarrow> [])) (\<lambda>fs.
     qbind (qmap (aggField res allowedFields fn) fs) (\<lambda>ms. Inr (ms, v \<noteq> None \<and> fs = []))))"

definition groupField :: "ResourceSchema \<Rightarrow> string list \<Rightarrow> string \<Rightarrow> string qresult" where
  "groupField res allowedFields f =
     (case gm_get (Fields res) f of
        None \<Rightarrow> Inl (BadAggregate (GroupByUnknown f))
      | Some fd \<Rightarrow>
          if \<not> groupByTypeOK (fType fd) then Inl (BadAggregate (NotGroupable f (fType fd)))
          else if \<not> fieldAllowed f allowedFields then Inl (ErrAggForbiddenField f)
          else Inr f)"

definition aggGroups :: "ResourceSchema \<Rightarrow> url_values \<Rightarrow> string list \<Rightarrow> string list qresult" where
  "aggGroups res params allowedFields =
     qbind (singleValue params ''group_by'') (\<lambda>v.
     qbind (splitCSVStrict ''group_by'' (case v of Some x \<Rightarrow> x | None \<Rightarrow> [])) (\<lambda>fs.
     qbind (qguard (\<not> (v \<noteq> None \<and> fs = [])) (BadAggregate GroupByEmpty)) (\<lambda>_. qmap (groupField res allowedFields) fs)))"

definition BuildAggregate ::
  "FilterLib \<Rightarrow> string \<Rightarrow> ResourceSchema \<Rightarrow> url_values \<Rightarrow> WhereCondition option \<Rightarrow> string list \<Rightarrow> AggregateQuery qresult" where
  "BuildAggregate L resource res params condition allowedFields =
     qbind (scanAggParams params) (\<lambda>_.
     qbind (BuildQuery L resource res params condition allowedFields) (\<lambda>qb.
     qbind (ParseCountFlag params) (\<lambda>cnt.
     qbind (qmap (\<lambda>fn. qbind (aggMetrics res params allowedFields fn) (\<lambda>r. Inr (fn, r))) aggFuncs) (\<lambda>rs.
     qbind (aggGroups res params allowedFields) (\<lambda>gs.
     let ms = concat (map (fst \<circ> snd) rs); emptyFuncs = map fst (filter (snd \<circ> snd) rs)
     in if \<not> cnt \<and> ms = [] then
          (if emptyFuncs \<noteq> [] then Inl (BadAggregate (AggNoField emptyFuncs))
           else if gs \<noteq> [] then Inl (BadAggregate GroupByAlone)
           else Inl (BadAggregate AggNothing))
        else Inr \<lparr>aqQuery = qb, aqCount = cnt, Metrics = ms, GroupBy = gs\<rparr>)))))"

definition CountAlias :: string where "CountAlias = ''agg_count''"

text \<open>\<open>strings.ToUpper\<close> on ASCII.\<close>

definition upperAscii :: "char \<Rightarrow> char" where
  "upperAscii c = (if 97 \<le> (of_char c :: nat) \<and> (of_char c :: nat) \<le> 122 then char_of ((of_char c :: nat) - 32) else c)"

definition metricSQL :: "AggMetric \<Rightarrow> string" where
  "metricSQL m = map upperAscii (Fn m) @ ''('' @ quoteIdent (amField m) @ '') AS '' @ quoteIdent (Alias m)"

definition aggSelect :: "AggregateQuery \<Rightarrow> string list" where
  "aggSelect aq = map quoteIdent (GroupBy aq) @ (if aqCount aq then [''COUNT(*) AS '' @ CountAlias] else []) @ map metricSQL (Metrics aq)"

definition aggSQL :: "AggregateQuery \<Rightarrow> string \<times> sqlArg list" where
  "aggSQL aq =
     (let (whereClause, args) = aggregateWhere (aqQuery aq);
          gb = join_with '', '' (map quoteIdent (GroupBy aq))
      in (''SELECT '' @ join_with '', '' (aggSelect aq) @ '' FROM '' @ quoteIdent (qbResource (aqQuery aq)) @ whereClause @
          (if GroupBy aq = [] then [] else '' GROUP BY '' @ gb @ '' ORDER BY '' @ gb), args))"

end
