(* ===== verification/QueryInclude.thy ===== *)
theory QueryInclude
  imports QueryBuild "HOL-Library.Multiset"
begin

text \<open>
  \<open>?include=\<close>, \<open>pkg/query/relations.go\<close>: the parameter is parsed into a tree of relation names, and the tree is
  compiled into one statement with a LATERAL join per embed.  The builder's mutable fields (bound arguments,
  alias counter, embed counter, columns of the base row the joins use) are threaded as a record.  The answer of
  \<open>policy.Evaluate\<close> for a resource is the function \<open>rbacFor\<close>.
\<close>

definition maxIncludeNodes :: nat where "maxIncludeNodes = 25"

type_synonym RelationRBAC = "string \<Rightarrow> bool \<times> string list \<times> WhereCondition option"

datatype IncludeError =
    EmptyEntry string | EmptySegment string | UnknownResource string | DepthExceeded int
  | UnknownRelation string string | TooManyIncludes | ForbiddenInclude string | InvalidRowCondition
  | UnknownRelationType string

definition Status :: "IncludeError \<Rightarrow> nat" where
  "Status e =
     (case e of UnknownResource _ \<Rightarrow> 500 | InvalidRowCondition \<Rightarrow> 500 | UnknownRelationType _ \<Rightarrow> 500
      | ForbiddenInclude _ \<Rightarrow> 403 | _ \<Rightarrow> 400)"

section \<open>The tree\<close>

datatype includeNode = Node (children: "(string \<times> includeNode) list")

definition newIncludeNode :: includeNode where
  "newIncludeNode = Node []"

text \<open>Walks one dotted path from a node, adding the nodes it lacks.\<close>

fun addPath :: "string list \<Rightarrow> includeNode \<Rightarrow> includeNode" where
  "addPath [] nd = nd"
| "addPath (seg # segs) (Node cs) =
     Node (gm_put seg (addPath segs (case gm_get cs seg of Some nd \<Rightarrow> nd | None \<Rightarrow> newIncludeNode)) cs)"

definition pathSegments :: "string \<Rightarrow> IncludeError + string list" where
  "pathSegments path =
     (let segs = map TrimSpace (split_on (CHR ''.'') path)
      in if [] \<in> set segs then Inl (EmptySegment path) else Inr segs)"

fun addPaths :: "string \<Rightarrow> string list \<Rightarrow> includeNode \<Rightarrow> IncludeError + includeNode" where
  "addPaths include [] nd = Inr nd"
| "addPaths include (p # ps) nd =
     (if TrimSpace p = [] then Inl (EmptyEntry include)
      else case pathSegments (TrimSpace p) of
             Inl err \<Rightarrow> Inl err
           | Inr segs \<Rightarrow> addPaths include ps (addPath segs nd))"

definition parseIncludeTree :: "string \<Rightarrow> IncludeError + includeNode" where
  "parseIncludeTree include = addPaths include (split_on (CHR '','') include) newIncludeNode"

definition HasInclude :: "string \<Rightarrow> bool" where
  "HasInclude include \<longleftrightarrow> TrimSpace include \<noteq> []"

section \<open>The builder\<close>

record includeCfg =
  icSchema :: APISchema
  rbacFor :: RelationRBAC
  maxDepth :: int
  rootFields :: "string list option"

record includeBuilder =
  ibArgs :: "sqlArg list"
  aliasN :: nat
  ibNodes :: nat
  baseRefs :: "string list"

definition parentRef :: "string \<Rightarrow> string \<Rightarrow> includeBuilder \<Rightarrow> string \<times> includeBuilder" where
  "parentRef parentAlias col b =
     (parentAlias @ ''.'' @ quoteIdent col,
      if parentAlias = ''_base'' \<and> col \<notin> set (baseRefs b) then b\<lparr>baseRefs := baseRefs b @ [col]\<rparr> else b)"

definition baseColumns :: "string list option \<Rightarrow> string \<Rightarrow> includeBuilder \<Rightarrow> string list option" where
  "baseColumns roots orderField b =
     (case roots of
        None \<Rightarrow> None
      | Some fs \<Rightarrow>
          let extra = filter (\<lambda>c. c \<notin> set fs) (baseRefs b) @
                      (if orderField \<noteq> [] \<and> orderField \<notin> set fs \<and> orderField \<notin> set (baseRefs b) then [orderField] else [])
          in if fs @ extra = [] then None else Some (fs @ sort extra))"

definition refColumnOf :: "APISchema \<Rightarrow> string \<Rightarrow> string \<Rightarrow> string \<Rightarrow> string" where
  "refColumnOf s ownerResource fkField joinTarget =
     (case gm_get (asResources s) ownerResource of
        None \<Rightarrow> ''id''
      | Some res \<Rightarrow>
          (case gm_get (Fields res) fkField of
             None \<Rightarrow> ''id''
           | Some fd \<Rightarrow> if Relation fd \<noteq> joinTarget then ''id'' else ReferencedColumn fd))"

definition DefaultEmbedLimit :: int where "DefaultEmbedLimit = 50"

text \<open>The scalar members of a row's JSON object: \<open>id\<close>, then the readable columns, sorted.\<close>

definition rowColumns :: "includeCfg \<Rightarrow> ResourceSchema \<Rightarrow> string \<Rightarrow> nat \<Rightarrow> string list" where
  "rowColumns cfg res resource depth =
     (let (_, allowFields, _) = rbacFor cfg resource
      in filter (\<lambda>c. (depth \<noteq> 0 \<or> rootFields cfg = None \<or> c \<in> set (the (rootFields cfg))) \<and>
                     (allowFields = [] \<or> c \<in> set (''id'' # allowFields)))
                (filter (\<lambda>c. c \<noteq> ''id'') (sortedKeys (Fields res))))"

definition columnPair :: "ResourceSchema \<Rightarrow> string \<Rightarrow> string \<Rightarrow> string" where
  "columnPair res alias c =
     [CHR 0x27] @ c @ [CHR 0x27] @ '', '' @ alias @ ''.'' @ quoteIdent c @
     (if map_option fType (gm_get (Fields res) c) = Some ''json'' then ''::json'' else [])"

definition idPair :: "string \<Rightarrow> string" where
  "idPair alias = [CHR 0x27] @ ''id'' @ [CHR 0x27] @ '', '' @ alias @ ''.'' @ quoteIdent ''id''"

text \<open>The row condition of an embed: its text, and the builder with its value bound.\<close>

definition embedCondition :: "string \<Rightarrow> WhereCondition option \<Rightarrow> includeBuilder \<Rightarrow> IncludeError + string \<times> includeBuilder" where
  "embedCondition childAlias cond b =
     (case cond of
        None \<Rightarrow> Inr ([], b)
      | Some c \<Rightarrow>
          if wField c = [] then Inr ([], b)
          else if \<not> bareIdent (wField c) then Inl InvalidRowCondition
          else Inr ('' AND '' @ childAlias @ ''.'' @ quoteIdent (wField c) @ '' = '' @ placeholder (length (ibArgs b) + 1),
                    b\<lparr>ibArgs := ibArgs b @ [strArg (wValue c)]\<rparr>))"

definition emptyArray :: string where
  "emptyArray = [CHR 0x27] @ ''[]'' @ [CHR 0x27] @ ''::json''"

text \<open>The join of one embed, by the kind of the relation; \<open>n\<close> is the number of its aliases.\<close>

definition embedJoin ::
  "includeCfg \<Rightarrow> string \<Rightarrow> string \<Rightarrow> RelationDef \<Rightarrow> string \<Rightarrow> string \<Rightarrow> string \<Rightarrow> string \<Rightarrow> includeBuilder
   \<Rightarrow> IncludeError + string \<times> includeBuilder" where
  "embedJoin cfg parentAlias sourceResource rel n rowObj nested rowCond b =
     (let s = icSchema cfg; child = ''_c'' @ n; lat = ''_r'' @ n; thr = ''_h'' @ n;
          lim = Itoa (if relLimit rel \<le> 0 then DefaultEmbedLimit else relLimit rel);
          childId = child @ ''.'' @ quoteIdent ''id'';
          many = ''LEFT JOIN LATERAL (SELECT COALESCE(json_agg(_e ORDER BY _ord), '' @ emptyArray @ '') AS j FROM (SELECT '' @ rowObj @
                 '' AS _e, '' @ childId @ '' AS _ord FROM '';
          manyEnd = '' ORDER BY '' @ childId @ '' LIMIT '' @ lim @ '') _sub) '' @ lat @ '' ON TRUE''
      in if relType rel = ''belongs_to'' then
           (let (pref, b') = parentRef parentAlias (relFK rel) b
            in Inr (''LEFT JOIN LATERAL (SELECT '' @ rowObj @ '' AS j FROM '' @ quoteIdent (relTarget rel) @ '' '' @ child @ nested @
                    '' WHERE '' @ child @ ''.'' @ quoteIdent (refColumnOf s sourceResource (relFK rel) (relTarget rel)) @ '' = '' @ pref @
                    rowCond @ '' LIMIT 1) '' @ lat @ '' ON TRUE'', b'))
         else if relType rel = ''has_many'' then
           (let (pref, b') = parentRef parentAlias (refColumnOf s (relTarget rel) (relFK rel) sourceResource) b
            in Inr (many @ quoteIdent (relTarget rel) @ '' '' @ child @ nested @ '' WHERE '' @ child @ ''.'' @ quoteIdent (relFK rel) @
                    '' = '' @ pref @ rowCond @ manyEnd, b'))
         else if relType rel = ''many_to_many'' then
           (let (pref, b') = parentRef parentAlias (refColumnOf s (Through rel) (relFK rel) sourceResource) b
            in Inr (many @ quoteIdent (Through rel) @ '' '' @ thr @ '' JOIN '' @ quoteIdent (relTarget rel) @ '' '' @ child @ '' ON '' @
                    child @ ''.'' @ quoteIdent (refColumnOf s (Through rel) (TargetFK rel) (relTarget rel)) @ '' = '' @ thr @ ''.'' @
                    quoteIdent (TargetFK rel) @ nested @ '' WHERE '' @ thr @ ''.'' @ quoteIdent (relFK rel) @ '' = '' @ pref @
                    rowCond @ manyEnd, b'))
         else Inl (UnknownRelationType (relType rel)))"

section \<open>Rows and embeds\<close>

text \<open>\<open>rowObject\<close> with its loop over the relations of a node, sorted by name, and \<open>buildEmbed\<close>.\<close>

definition sortedChildren :: "includeNode \<Rightarrow> (string \<times> includeNode) list" where
  "sortedChildren nd = sort_key fst (children nd)"

definition listWeight :: "(string \<times> includeNode) list \<Rightarrow> nat" where
  "listWeight cs = sum_list (map (\<lambda>(_, nd). size nd + 2) cs)"

lemma listWeight_simps [simp]: "listWeight [] = 0" "listWeight ((k, nd) # cs) = size nd + 2 + listWeight cs"
  by (simp_all add: listWeight_def)

lemma size_children: "size nd = listWeight (children nd) + 1"
proof (cases nd)
  case (Node cs)
  have "size_list (size_prod (\<lambda>_. 0) size) cs = listWeight cs" by (induction cs) auto
  then show ?thesis by (simp add: Node)
qed

lemma listWeight_sortedChildren: "listWeight (sortedChildren nd) < size nd"
proof -
  have "mset (sortedChildren nd) = mset (children nd)" by (simp add: sortedChildren_def)
  moreover have "listWeight cs = sum_mset (image_mset (\<lambda>(_, nd). size nd + 2) (mset cs))" for cs
    by (simp add: listWeight_def sum_mset_sum_list flip: mset_map)
  ultimately have "listWeight (sortedChildren nd) = listWeight (children nd)" by simp
  then show ?thesis by (simp add: size_children)
qed

function (sequential)
  rowObject :: "includeCfg \<Rightarrow> string \<Rightarrow> string \<Rightarrow> includeNode \<Rightarrow> nat \<Rightarrow> includeBuilder
    \<Rightarrow> IncludeError + string \<times> string list \<times> includeBuilder" and
  rowEmbeds :: "includeCfg \<Rightarrow> string \<Rightarrow> string \<Rightarrow> ResourceSchema \<Rightarrow> (string \<times> includeNode) list \<Rightarrow> nat \<Rightarrow> includeBuilder
    \<Rightarrow> IncludeError + string list \<times> string list \<times> includeBuilder" and
  buildEmbed :: "includeCfg \<Rightarrow> string \<Rightarrow> string \<Rightarrow> RelationDef \<Rightarrow> includeNode \<Rightarrow> nat \<Rightarrow> includeBuilder
    \<Rightarrow> IncludeError + string \<times> string \<times> includeBuilder" where
  "rowObject cfg alias resource nd depth b =
     (case gm_get (asResources (icSchema cfg)) resource of
        None \<Rightarrow> Inl (UnknownResource resource)
      | Some res \<Rightarrow>
          (case rowEmbeds cfg alias resource res (sortedChildren nd) depth b of
             Inl err \<Rightarrow> Inl err
           | Inr (embeds, joins, b1) \<Rightarrow>
               Inr (''json_build_object('' @
                    join_with '', '' (idPair alias # map (columnPair res alias) (rowColumns cfg res resource depth) @ embeds) @ '')'',
                    joins, b1)))"
| "rowEmbeds cfg alias resource res [] depth b = Inr ([], [], b)"
| "rowEmbeds cfg alias resource res ((relName, nd) # cs) depth b =
     (if int depth + 1 > maxDepth cfg then Inl (DepthExceeded (maxDepth cfg))
      else case gm_get (Relations res) relName of
             None \<Rightarrow> Inl (UnknownRelation relName resource)
           | Some rel \<Rightarrow>
               (case buildEmbed cfg alias resource rel nd (depth + 1) b of
                  Inl err \<Rightarrow> Inl err
                | Inr (join, val, b1) \<Rightarrow>
                    (case rowEmbeds cfg alias resource res cs depth b1 of
                       Inl err \<Rightarrow> Inl err
                     | Inr (embeds, joins, b2) \<Rightarrow>
                         Inr (([CHR 0x27] @ relName @ [CHR 0x27] @ '', '' @ val) # embeds, join # joins, b2))))"
| "buildEmbed cfg parentAlias sourceResource rel nd depth b =
     (if ibNodes b + 1 > maxIncludeNodes then Inl TooManyIncludes
      else case rbacFor cfg (relTarget rel) of
             (allowed, _, cond) \<Rightarrow>
               if \<not> allowed then Inl (ForbiddenInclude (relTarget rel))
               else let n = Itoa (int (aliasN b + 1))
                    in (case rowObject cfg (''_c'' @ n) (relTarget rel) nd depth (b\<lparr>ibNodes := ibNodes b + 1, aliasN := aliasN b + 1\<rparr>) of
                          Inl err \<Rightarrow> Inl err
                        | Inr (rowObj, nestedJoins, b1) \<Rightarrow>
                            (case embedCondition (''_c'' @ n) cond b1 of
                               Inl err \<Rightarrow> Inl err
                             | Inr (rowCond, b2) \<Rightarrow>
                                 (case embedJoin cfg parentAlias sourceResource rel n rowObj
                                         (if nestedJoins = [] then [] else '' '' @ join_with '' '' nestedJoins) rowCond b2 of
                                    Inl err \<Rightarrow> Inl err
                                  | Inr (join, b3) \<Rightarrow> Inr (join, ''_r'' @ n @ ''.j'', b3)))))"
  by pat_completeness auto

termination
  by (relation "measure (\<lambda>x. case x of
        Inl (_, _, _, nd, _, _) \<Rightarrow> 2 * size nd + 1
      | Inr (Inl (_, _, _, _, cs, _, _)) \<Rightarrow> 2 * listWeight cs
      | Inr (Inr (_, _, _, _, nd, _, _)) \<Rightarrow> 2 * size nd + 2)")
     (use listWeight_sortedChildren in \<open>auto simp: less_Suc_eq_le less_imp_le\<close>)

declare rowObject.simps [simp del] rowEmbeds.simps [simp del] buildEmbed.simps [simp del]

section \<open>The two statements\<close>

text \<open>\<open>base\<close> builds the base statement for a column list.\<close>

type_synonym BaseSelect = "string list option \<Rightarrow> string \<times> sqlArg list"

definition includeRow ::
  "APISchema \<Rightarrow> RelationRBAC \<Rightarrow> int \<Rightarrow> string \<Rightarrow> string \<Rightarrow> sqlArg list \<Rightarrow> string list option
   \<Rightarrow> IncludeError + string \<times> string list \<times> includeBuilder" where
  "includeRow s rb md baseResource include baseArgs roots =
     (case parseIncludeTree include of
        Inl err \<Rightarrow> Inl err
      | Inr tree \<Rightarrow>
          rowObject \<lparr>icSchema = s, rbacFor = rb, maxDepth = md, rootFields = (if roots = Some [] then None else roots)\<rparr> ''_base'' baseResource tree 0
            \<lparr>ibArgs = baseArgs, aliasN = 0, ibNodes = 0, baseRefs = []\<rparr>)"

definition baseFor :: "BaseSelect \<Rightarrow> string list option \<Rightarrow> string \<Rightarrow> includeBuilder \<Rightarrow> string" where
  "baseFor base roots orderField b =
     (case baseColumns roots orderField b of None \<Rightarrow> fst (base None) | Some cols \<Rightarrow> fst (base (Some cols)))"

definition joinsText :: "string list \<Rightarrow> string" where
  "joinsText joins = concat (map (\<lambda>j. '' '' @ j) joins)"

definition BuildListIncludeFields ::
  "string \<Rightarrow> string \<Rightarrow> BaseSelect \<Rightarrow> string list option \<Rightarrow> string \<Rightarrow> string \<Rightarrow> APISchema \<Rightarrow> int \<Rightarrow> RelationRBAC
   \<Rightarrow> IncludeError + string \<times> sqlArg list" where
  "BuildListIncludeFields baseResource include base roots orderField orderDir s md rb =
     (case includeRow s rb md baseResource include (snd (base None)) roots of
        Inl err \<Rightarrow> Inl err
      | Inr (rowObj, joins, b) \<Rightarrow>
          Inr (''SELECT COALESCE(json_agg(_q.row ORDER BY _q._ord '' @ orderDir @ ''), '' @ emptyArray @
               '')::text AS data, count(*) AS n FROM (SELECT '' @ rowObj @ '' AS row, _base.'' @ quoteIdent orderField @
               '' AS _ord FROM ('' @ baseFor base roots orderField b @ '') _base'' @ joinsText joins @ '') _q'', ibArgs b))"

definition BuildListInclude ::
  "string \<Rightarrow> string \<Rightarrow> string \<Rightarrow> sqlArg list \<Rightarrow> string \<Rightarrow> string \<Rightarrow> APISchema \<Rightarrow> int \<Rightarrow> RelationRBAC
   \<Rightarrow> IncludeError + string \<times> sqlArg list" where
  "BuildListInclude baseResource include baseSelect baseArgs orderField orderDir s md rb =
     BuildListIncludeFields baseResource include (\<lambda>_. (baseSelect, baseArgs)) None orderField orderDir s md rb"

definition BuildGetIncludeFields ::
  "string \<Rightarrow> string \<Rightarrow> BaseSelect \<Rightarrow> string list option \<Rightarrow> APISchema \<Rightarrow> int \<Rightarrow> RelationRBAC
   \<Rightarrow> IncludeError + string \<times> sqlArg list" where
  "BuildGetIncludeFields baseResource include base roots s md rb =
     (case includeRow s rb md baseResource include (snd (base None)) roots of
        Inl err \<Rightarrow> Inl err
      | Inr (rowObj, joins, b) \<Rightarrow>
          Inr (''SELECT ('' @ rowObj @ '')::text AS data FROM ('' @ baseFor base roots [] b @ '') _base'' @ joinsText joins @
               '' LIMIT 1'', ibArgs b))"

definition BuildGetInclude ::
  "string \<Rightarrow> string \<Rightarrow> string \<Rightarrow> sqlArg list \<Rightarrow> APISchema \<Rightarrow> int \<Rightarrow> RelationRBAC \<Rightarrow> IncludeError + string \<times> sqlArg list" where
  "BuildGetInclude baseResource include baseSelect baseArgs s md rb =
     BuildGetIncludeFields baseResource include (\<lambda>_. (baseSelect, baseArgs)) None s md rb"

end
