(* ===== verification/QueryFacts.thy ===== *)
theory QueryFacts
  imports QueryAggregate QueryInclude ValidateFacts
begin

text \<open>
  What the read statements promise: an accepted list or aggregate request names only columns its role may read,
  stays within the paging bounds, is scoped by the role's row condition and numbers its parameters as it binds
  them; an accepted include embeds only readable, scoped rows within the depth and size bounds.
\<close>

section \<open>The columns of a query\<close>

definition clauseColumns :: "filterClause \<Rightarrow> string list" where
  "clauseColumns f =
     (if fcOp f = ''range_overlaps'' \<or> fcOp f = ''range_contains'' then [rangeStart f, rangeEnd f] else [fcField f])"

definition queryColumns :: "QueryBuilder \<Rightarrow> string list" where
  "queryColumns qb =
     concat (map clauseColumns (qbFilters qb)) @ (if sortField qb = [] then [] else [sortField qb]) @
     (if qbSearch qb = [] then [] else searchableFields qb) @ (case qbFields qb of None \<Rightarrow> [] | Some fs \<Rightarrow> fs)"

text \<open>A column the resource has and the role may read; the bounds of a declared range count as columns.\<close>

definition rangeBound :: "ResourceSchema \<Rightarrow> string \<Rightarrow> bool" where
  "rangeBound res c =
     list_ex (\<lambda>nm. case gm_get (Ranges res) nm of None \<Rightarrow> False | Some rg \<Rightarrow> c = Start rg \<or> c = End rg) (sortedKeys (Ranges res))"

definition columnOf :: "ResourceSchema \<Rightarrow> string \<Rightarrow> bool" where
  "columnOf res c \<longleftrightarrow> c = ''id'' \<or> gm_has (Fields res) c \<or> rangeBound res c"

lemma validateFilterOp_not_range:
  assumes "validateFilterOp op ty"
  shows "op \<noteq> ''range_overlaps''" "op \<noteq> ''range_contains''"
  using assms by (auto simp: validateFilterOp_def operatorsForType_def split: if_splits)

lemma columnFilter_shape:
  assumes "columnFilter L field fd op val = Inr fc"
  shows "validateFilterOp op (fType fd) \<and> fcField fc = field \<and> fcOp fc = op"
  using assms unfolding columnFilter_def Let_def by (clarsimp simp: zeroClause_def split: if_split_asm)

lemma columnFilter_clause:
  assumes "columnFilter L field fd op val = Inr fc"
  shows "clauseColumns fc = [field]" "fcOp fc \<noteq> ''range_contains''" "fcField fc = field"
  using columnFilter_shape [OF assms] validateFilterOp_not_range [of op "fType fd"] by (simp_all add: clauseColumns_def)

lemma parseRangeFilter_clause:
  assumes "parseRangeFilter std name op val rg = Inr fc"
  shows "clauseColumns fc = [Start rg, End rg]" "fcField fc = name"
  using assms
  by (auto simp: parseRangeFilter_def clauseColumns_def zeroClause_def Let_def split: if_splits option.splits)

lemma parseFilter_columns:
  assumes "parseFilter L res params allowedFields key = Inr fc" "c \<in> set (clauseColumns fc)"
  shows "roleAllows allowedFields c \<and> columnOf res c"
proof -
  obtain field opName val where p: "filterParamRe key = Some (field, opName)" "gm_get params key = Some [val]"
    using assms(1) by (auto simp: parseFilter_def split: option.splits list.splits)
  show ?thesis
  proof (cases "gm_get (Ranges res) field")
    case (Some rg)
    then have "roleAllows allowedFields (Start rg) \<and> roleAllows allowedFields (End rg)"
      and "clauseColumns fc = [Start rg, End rg]"
      using assms(1) p by (auto simp: parseFilter_def Let_def split: if_splits dest: parseRangeFilter_clause(1))
    moreover have "rangeBound res (Start rg)" "rangeBound res (End rg)"
      using gm_get_in [OF Some] Some by (force simp: rangeBound_def list_ex_iff)+
    ultimately show ?thesis using assms(2) by (auto simp: columnOf_def)
  next
    case None
    then obtain fd where fd: "filterColumn res field = Some fd" and r: "roleAllows allowedFields field"
      and cl: "clauseColumns fc = [field]"
      using assms(1) p by (auto simp: parseFilter_def Let_def split: option.splits if_splits dest: columnFilter_clause(1))
    from fd have "columnOf res field" by (auto simp: filterColumn_def columnOf_def gm_has_def split: option.splits if_splits)
    then show ?thesis using assms(2) cl r by simp
  qed
qed

lemma qmap_Inr_in: "qmap f xs = Inr ys \<Longrightarrow> y \<in> set ys \<Longrightarrow> \<exists>x \<in> set xs. f x = Inr y"
  by (induction xs arbitrary: ys) auto

lemma parseFilters_columns:
  assumes "parseFilters L res params allowedFields = Inr fcs" "f \<in> set fcs" "c \<in> set (clauseColumns f)"
  shows "roleAllows allowedFields c \<and> columnOf res c"
proof -
  obtain key where "parseFilter L res params allowedFields key = Inr f"
    using assms(1,2) by (auto simp: parseFilters_def sortFilters_def dest: qmap_Inr_in)
  then show ?thesis using assms(3) by (rule parseFilter_columns)
qed

lemma parseSort_column:
  assumes "parseSort res params allowedFields cur = Inr (sf, so)" "sf \<noteq> []"
  shows "roleAllows allowedFields sf \<and> columnOf res sf"
proof -
  obtain v where v: "singleValue params ''sort'' = Inr v" using assms(1) by (auto simp: parseSort_def)
  show ?thesis
  proof (cases v)
    case None
    then show ?thesis using assms v unfolding parseSort_def by (clarsimp simp: qbind_def split: sum.split_asm option.split_asm)
  next
    case (Some x)
    then show ?thesis using assms v unfolding parseSort_def columnOf_def
      by (clarsimp simp: qbind_def split: sum.split_asm option.split_asm if_split_asm)
  qed
qed

lemma parseOrder_column:
  assumes "parseOrder res params allowedFields cur bySort = Inr (sf, so)"
  shows "bySort = (sf, so) \<or> roleAllows allowedFields sf \<and> columnOf res sf"
  using assms unfolding parseOrder_def columnOf_def
  by (clarsimp simp: qbind_def split: list.split_asm option.split_asm sum.split_asm if_split_asm)

lemma projectFields_columns:
  assumes "projectFields res allowedFields raw parts out = Inr fs" "c \<in> set fs" "c \<notin> set out"
  shows "roleAllows allowedFields c \<and> columnOf res c"
  using assms
proof (induction parts arbitrary: out)
  case (Cons part parts)
  let ?n = "TrimSpace part"
  have ok: "?n = ''id'' \<or> gm_has (Fields res) ?n" "?n \<noteq> []" using Cons.prems(1) by (auto simp: Let_def split: if_split_asm)
  show ?case
  proof (cases "c = ?n \<and> (?n = ''id'' \<or> fieldAllowed ?n allowedFields)")
    case True
    then show ?thesis using ok(1) unfolding roleAllows_def columnOf_def by blast
  next
    case False
    then have "c \<notin> set (if ?n \<noteq> ''id'' \<and> \<not> fieldAllowed ?n allowedFields then out else if ?n \<in> set out then out else out @ [?n])"
      using Cons.prems(3) by (auto split: if_split_asm)
    then show ?thesis using Cons ok by (cases "?n \<noteq> ''id'' \<and> \<not> fieldAllowed ?n allowedFields") (auto simp: Let_def split: if_split_asm)
  qed
qed simp

lemma ParseFields_columns:
  assumes "ParseFields res params allowedFields = Inr (Some fs)" "c \<in> set fs"
  shows "roleAllows allowedFields c \<and> columnOf res c"
proof -
  obtain raw where "projectFields res allowedFields raw (split_on (CHR '','') raw) [''id''] = Inr fs"
    using assms(1) unfolding ParseFields_def by (auto simp: qbind_def split: option.split_asm if_split_asm sum.split_asm)
  from projectFields_columns [OF this assms(2)] show ?thesis
    by (cases "c = ''id''") (auto simp: roleAllows_def columnOf_def)
qed

text \<open>The parts of an accepted query.\<close>

lemma BuildQuery_parts:
  assumes "BuildQuery L resource res params condition allowedFields = Inr qb"
  obtains aft bef cur p pp fcs s sf so se fs where
    "parseCursors params = Inr (aft, bef, cur)" "parsePage params cur = Inr p" "parsePerPage params = Inr pp"
    "parseFilters L res params allowedFields = Inr fcs" "parseSort res params allowedFields cur = Inr s"
    "parseOrder res params allowedFields cur s = Inr (sf, so)" "ParseFields res params allowedFields = Inr fs"
    "qb = \<lparr>qbResource = resource, qbRes = res, qbPage = p, qbPerPage = pp, qbFilters = fcs, sortField = sf, sortOrder = so,
       qbSearch = se, qbCondition = condition, afterID = aft, beforeID = bef, qbAllowed = allowedFields, qbFields = fs\<rparr>"
    "condition = None \<or> (\<exists>c. condition = Some c \<and> bareIdent (wField c))"
  using assms that by (auto simp: BuildQuery_def newQuery_def Let_def split: option.splits prod.splits simp del: bareIdent.simps)

lemma searchable_readable: "c \<in> set (searchableFields qb) \<Longrightarrow> roleAllows (qbAllowed qb) c \<and> gm_has (Fields (qbRes qb)) c"
  by (force simp: searchableFields_def roleAllows_def gm_has_iff)

lemma BuildQuery_columns:
  assumes "BuildQuery L resource res params condition allowedFields = Inr qb" "c \<in> set (queryColumns qb)"
  shows "roleAllows allowedFields c \<and> columnOf res c"
  using assms(1)
proof (rule BuildQuery_parts)
  fix aft bef cur p pp fcs s sf so se fs
  assume q: "parseFilters L res params allowedFields = Inr fcs" "parseSort res params allowedFields cur = Inr s"
    "parseOrder res params allowedFields cur s = Inr (sf, so)" "ParseFields res params allowedFields = Inr fs"
    and qb: "qb = \<lparr>qbResource = resource, qbRes = res, qbPage = p, qbPerPage = pp, qbFilters = fcs, sortField = sf, sortOrder = so,
       qbSearch = se, qbCondition = condition, afterID = aft, beforeID = bef, qbAllowed = allowedFields, qbFields = fs\<rparr>"
  have "c \<in> set (searchableFields qb) \<Longrightarrow> ?thesis"
    using searchable_readable [of c qb] by (simp add: qb columnOf_def)
  moreover have "sf = c \<Longrightarrow> sf \<noteq> [] \<Longrightarrow> ?thesis"
    using q(2,3) by (metis parseOrder_column parseSort_column)
  moreover have "fs = Some cs \<Longrightarrow> c \<in> set cs \<Longrightarrow> ?thesis" for cs
    using q(4) ParseFields_columns by blast
  moreover have "f \<in> set fcs \<Longrightarrow> c \<in> set (clauseColumns f) \<Longrightarrow> ?thesis" for f
    using parseFilters_columns [OF q(1)] by blast
  ultimately show ?thesis
    using assms(2) unfolding queryColumns_def by (auto simp: qb split: if_splits option.splits)
qed

section \<open>Parameters and arguments\<close>

text \<open>The parameter numbers a statement text refers to, from left to right.\<close>

fun dollars :: "string \<Rightarrow> nat list" where
  "dollars [] = []"
| "dollars (c # s) = (if c = CHR ''$'' then digits_val (takeWhile is_digit s) # dollars s else dollars s)"

definition plainText :: "string \<Rightarrow> bool" where
  "plainText s \<longleftrightarrow> CHR ''$'' \<notin> set s"

definition startsPlain :: "string \<Rightarrow> bool" where
  "startsPlain s \<longleftrightarrow> s = [] \<or> \<not> is_digit (hd s)"

lemma plainText_simps [simp]:
  "plainText []" "plainText (c # s) \<longleftrightarrow> c \<noteq> CHR ''$'' \<and> plainText s" "plainText (s @ t) \<longleftrightarrow> plainText s \<and> plainText t"
  by (auto simp: plainText_def)

lemma dollars_plain [simp]: "plainText s \<Longrightarrow> dollars (s @ t) = dollars t"
  by (induction s) auto

lemma dollars_plain_Nil [simp]: "plainText s \<Longrightarrow> dollars s = []"
  using dollars_plain [of s "[]"] by simp

lemma dollars_append: "startsPlain t \<Longrightarrow> dollars (s @ t) = dollars s @ dollars t"
proof (induction s)
  case (Cons c s)
  have "takeWhile is_digit (s @ t) = takeWhile is_digit s"
    using Cons.prems by (cases t) (auto simp: startsPlain_def takeWhile_append takeWhile_eq_all_conv [THEN iffD2])
  then show ?case using Cons by simp
qed simp

lemma takeWhile_digits: "startsPlain t \<Longrightarrow> takeWhile is_digit (nat_digits n @ t) = nat_digits n"
  using nat_digits_all [of n] by (cases t) (auto simp: startsPlain_def takeWhile_append list_all_iff)

lemma plain_digits [simp]: "plainText (nat_digits n)"
  using nat_digits_all [of n] by (auto simp: plainText_def list_all_iff is_digit_def)

lemma plain_Itoa [simp]: "plainText (Itoa i)"
  by (simp add: Itoa_def)

lemma dollars_placeholder [simp]: "startsPlain t \<Longrightarrow> dollars (placeholder n @ t) = n # dollars t"
  by (simp add: placeholder_def Itoa_def takeWhile_digits digits_val_nat_digits)

lemma dollars_placeholder_Nil [simp]: "dollars (placeholder n) = [n]"
  using dollars_placeholder [of "[]" n] by (simp add: startsPlain_def)

lemma dollars_join:
  assumes "plainText sep" "sep \<noteq> []" "startsPlain sep"
  shows "dollars (join_with sep xs) = concat (map dollars xs)"
proof (induction xs rule: induct_list012)
  case (3 x y zs)
  have "startsPlain (sep @ join_with sep (y # zs))" using assms by (simp add: startsPlain_def)
  then show ?case using 3 assms(1) by (simp add: dollars_append)
qed simp_all

lemma bareIdent_plain: "bareIdent s \<Longrightarrow> plainText s"
  by (cases s) (auto simp: plainText_def list_all_iff identStart_def identPart_def is_digit_def)

lemma startsPlain_simps [simp]: "startsPlain []" "startsPlain (c # s) \<longleftrightarrow> \<not> is_digit c"
  by (auto simp: startsPlain_def)

lemma digit_free [simp]: "\<not> is_digit (CHR '' '')" "\<not> is_digit (CHR '':'')" "\<not> is_digit (CHR '')'')" "\<not> is_digit (CHR '','')"
  by (simp_all add: is_digit_def)

text \<open>The parts refer to the parameters in order, one for each argument.\<close>

fun numbered :: "where_state \<Rightarrow> bool" where
  "numbered (parts, args, idx) \<longleftrightarrow> concat (map dollars parts) = [1..<idx] \<and> idx = length args + 1"

lemma numbered_append:
  assumes "numbered (parts, args, idx)" "dollars part = [idx..<idx + length new]"
  shows "numbered (parts @ [part], args @ new, idx + length new)"
  using assms upt_add_eq_append [of 1 idx "length new"] by simp

declare numbered.simps [simp del]

lemma plain_RangeExpr [simp]: "plainText (RangeExprSQL a b) \<longleftrightarrow> plainText a \<and> plainText b"
  by (auto simp: RangeExprSQL_def)

lemma plain_filterToSQL [simp]: "plainText (filterToSQL op)"
  by (simp add: filterToSQL_def)

lemma numbered_filter:
  assumes "numbered st" "fcOp f \<noteq> ''range_contains''" "list_all plainText (clauseColumns f)"
  shows "numbered (appendFilter st f)"
proof -
  obtain parts args idx where st: "st = (parts, args, idx)" by (cases st)
  note add = numbered_append [OF assms(1) [unfolded st]]
  show ?thesis
  proof (cases "fcOp f = ''range_overlaps''")
    case True
    then have "plainText (bothBounds f)" using assms(3) by (simp add: clauseColumns_def bothBounds_def)
    then show ?thesis
      using True add [of "bothBounds f @ '' && tstzrange('' @ placeholder idx @ ''::timestamptz, '' @ placeholder (idx + 1) @
                  ''::timestamptz, '' @ [CHR 0x27] @ ''[)'' @ [CHR 0x27] @ ''))''" "[strArg (fcVal f), strArg (fcVal2 f)]"]
      by (simp add: st)
  next
    case False
    then have pl: "plainText (fcField f)" using assms(2,3) by (simp add: clauseColumns_def)
    show ?thesis
    proof (cases "fcOp f = ''is_null''")
      case True
      then show ?thesis using add [of "fcField f @ (if fcVal f = ''true'' then '' IS NULL'' else '' IS NOT NULL'')" "[]"] pl
        by (simp add: st)
    next
      case isn: False
      have one: "numbered (parts @ [fcField f @ mid @ placeholder idx], args @ [a], idx + 1)" if "plainText mid" for mid a
        using add [of "fcField f @ mid @ placeholder idx" "[a]"] pl that by simp
      show ?thesis
        using one [of "'' ILIKE ''"] one [of "'' '' @ filterToSQL (fcOp f) @ '' ''"] False isn assms(2) by (simp add: st)
    qed
  qed
qed

lemma numbered_scope:
  assumes "numbered st" "\<And>c. qbCondition qb = Some c \<Longrightarrow> plainText (wField c)"
  shows "numbered (appendRowScope qb st)"
proof (cases "qbCondition qb")
  case (Some c)
  obtain parts args idx where st: "st = (parts, args, idx)" by (cases st)
  show ?thesis
    using numbered_append [OF assms(1) [unfolded st], of "wField c @ '' = '' @ placeholder idx" "[strArg (wValue c)]"] assms(2) Some
    by (simp add: appendRowScope_def st)
qed (use assms(1) in \<open>simp add: appendRowScope_def split: prod.splits\<close>)

lemma numbered_filters:
  assumes "numbered st" "\<And>f. f \<in> set fs \<Longrightarrow> fcOp f \<noteq> ''range_contains'' \<and> list_all plainText (clauseColumns f)"
  shows "numbered (foldl appendFilter st fs)"
  using assms by (induction fs arbitrary: st) (simp_all add: numbered_filter del: appendFilter.simps)

lemma dollars_searchParts:
  "list_all plainText ns \<Longrightarrow> concat (map dollars (map (\<lambda>(i, name). searchPart name (idx + i)) (enumerate k ns))) = [idx + k..<idx + k + length ns]"
proof (induction ns arbitrary: k)
  case (Cons n ns)
  have "dollars (searchPart n (idx + k)) = [idx + k]" using Cons.prems by (simp add: searchPart_def)
  then show ?case using Cons.IH [of "Suc k"] Cons.prems upt_conv_Cons [of "idx + k" "idx + k + length (n # ns)"] by simp
qed simp

lemma numbered_search:
  assumes "numbered st" "list_all plainText (searchableFields qb)"
  shows "numbered (appendSearch qb st)"
proof -
  obtain parts args idx where st: "st = (parts, args, idx)" by (cases st)
  let ?ns = "searchableFields qb"
  let ?ps = "map (\<lambda>(i, name). searchPart name (idx + i)) (enumerate 0 ?ns)"
  let ?new = "map (\<lambda>_. strArg (''%'' @ escapeLike (qbSearch qb) @ ''%'')) ?ns"
  have "dollars (''('' @ join_with '' OR '' ?ps @ '')'') = [idx..<idx + length ?new]"
    using dollars_searchParts [OF assms(2), of idx 0] by (simp add: dollars_append dollars_join)
  from numbered_append [OF assms(1) [unfolded st] this] show ?thesis
    using assms(1) by (simp add: appendSearch_def st Let_def)
qed

lemma numbered_conditions:
  assumes "numbered st" "list_all plainText (queryColumns qb)" "\<And>c. qbCondition qb = Some c \<Longrightarrow> plainText (wField c)"
    "\<And>f. f \<in> set (qbFilters qb) \<Longrightarrow> fcOp f \<noteq> ''range_contains''"
  shows "numbered (appendConditions qb st)"
proof -
  have "f \<in> set (qbFilters qb) \<Longrightarrow> list_all plainText (clauseColumns f)" for f
    using assms(2) by (auto simp: queryColumns_def list_all_iff)
  then have n: "numbered (foldl appendFilter (appendRowScope qb st) (qbFilters qb))"
    using assms(4) by (intro numbered_filters numbered_scope assms) auto
  show ?thesis
  proof (cases "qbSearch qb = []")
    case True
    then show ?thesis using n by (simp add: appendConditions_def appendSearch_def split: prod.splits)
  next
    case False
    then show ?thesis using n assms(2) by (simp add: appendConditions_def numbered_search queryColumns_def)
  qed
qed

lemma dollars_whereText:
  "numbered (parts, args, idx) \<Longrightarrow> dollars (whereText parts @ t) = [1..<length args + 1] @ dollars t" if "startsPlain t"
  using that by (cases "parts = []") (auto simp: whereText_def dollars_append dollars_join numbered.simps)

lemma numbered_cursor: "numbered (cursorState qb)"
  using numbered_append [of "[]" "[]" 1 "''id > '' @ placeholder 1" "[strArg (afterID qb)]"]
    numbered_append [of "[]" "[]" 1 "''id < '' @ placeholder 1" "[strArg (beforeID qb)]"]
  by (simp add: cursorState_def numbered.simps numeral_2_eq_2)

section \<open>Accepted schemas\<close>

lemma accepted_range_bound:
  assumes "Validate env s = []" "gm_get (asResources s) n = Some res" "rangeBound res c"
  shows "gm_has (Fields res) c"
proof -
  obtain nm rg where rg: "gm_get (Ranges res) nm = Some rg" "c = Start rg \<or> c = End rg" "nm \<in> set (sortedKeys (Ranges res))"
    using assms(3) by (auto simp: rangeBound_def list_ex_iff split: option.split_asm)
  obtain p where "validateRanges env p res = []"
    using accepted_resource [OF assms(1,2)] by (auto simp: validateResource_def Let_def)
  then have "rangeErrors env p res nm rg = []" using rg(1,3) by (fastforce simp: validateRanges_def)
  then have "\<exists>q. rangeSideErrors q res ''start'' (Start rg) = [] \<and> rangeSideErrors q res ''end'' (End rg) = []"
    unfolding rangeErrors_def Let_def by (auto split: if_split_asm)
  then show ?thesis using rg(2) unfolding rangeSideErrors_def Let_def gm_has_def by (auto split: if_split_asm option.split_asm)
qed

lemma accepted_column:
  assumes "Validate env s = []" "gm_get (asResources s) n = Some res" "columnOf res c"
  shows "c = ''id'' \<or> gm_has (Fields res) c" "bareIdent c"
proof -
  show c: "c = ''id'' \<or> gm_has (Fields res) c" using assms(3) accepted_range_bound [OF assms(1,2)] by (auto simp: columnOf_def)
  then show "bareIdent c" using accepted_field_name(1) [OF assms(1,2)] bareIdent_id by metis
qed

text \<open>C11: over a schema the validator accepts, every column that an accepted list request filters by, sorts by,
  searches or projects is the primary key or a declared column in the role's allowlist: a hidden column can be
  neither read nor probed.\<close>

theorem accepted_query_reads_only_allowed:
  assumes "Validate env s = []" "gm_get (asResources s) resource = Some res"
    "BuildQuery L resource res params condition allowedFields = Inr qb" "c \<in> set (queryColumns qb)"
  shows "c = ''id'' \<or> gm_has (Fields res) c \<and> fieldAllowed c allowedFields"
  using BuildQuery_columns [OF assms(3,4)] accepted_column(1) [OF assms(1,2)] by (auto simp: roleAllows_def)

section \<open>Paging\<close>

lemma parsePage_bounds: "parsePage params cur = Inr p \<Longrightarrow> 1 \<le> p \<and> p \<le> 10000 \<and> (cur \<noteq> [] \<longrightarrow> p = 1)"
  unfolding parsePage_def DefaultPage_def MaxPage_def
  by (auto simp: qbind_def split: sum.split_asm option.split_asm if_split_asm)

lemma parsePerPage_bounds: "parsePerPage params = Inr p \<Longrightarrow> 1 \<le> p \<and> p \<le> 100"
  unfolding parsePerPage_def DefaultPerPage_def MaxPerPage_def
  by (auto simp: qbind_def split: sum.split_asm option.split_asm if_split_asm)

lemma parseCursors_shape:
  "parseCursors params = Inr (aft, bef, cur) \<Longrightarrow> (cur = [] \<longleftrightarrow> aft = [] \<and> bef = []) \<and> (aft = [] \<or> bef = [])"
  unfolding parseCursors_def uuidRe_def by (auto simp: qbind_def split: sum.split_asm option.split_asm if_split_asm)

lemma parseSort_order: "parseSort res params al cur = Inr (sf, so) \<Longrightarrow> so \<in> {[], ''ASC'', ''DESC''} \<and> (cur \<noteq> [] \<longrightarrow> sf = [])"
  unfolding parseSort_def sortDirection_def
  by (auto simp: qbind_def split: sum.split_asm option.split_asm if_split_asm)

lemma parseOrder_order:
  "parseOrder res params al cur bySort = Inr (sf, so) \<Longrightarrow> bySort = (sf, so) \<or> so \<in> {[], ''ASC'', ''DESC''} \<and> cur = []"
  unfolding parseOrder_def sortDirection_def
  by (auto simp: qbind_def split: sum.split_asm option.split_asm if_split_asm list.split_asm)

text \<open>An accepted list request reads at most 100 rows per page, from an offset below one million; a cursor request
  has one direction, no page number, no sort of its own and no offset.\<close>

theorem accepted_query_is_bounded:
  assumes "BuildQuery L resource res params condition allowedFields = Inr qb" "SQL qb = (selectQ, countQ, selectArgs, countArgs)"
  shows "1 \<le> qbPage qb \<and> qbPage qb \<le> 10000 \<and> 1 \<le> qbPerPage qb \<and> qbPerPage qb \<le> 100 \<and>
    (if UsesCursor qb
     then qbPage qb = 1 \<and> sortField qb = [] \<and> (afterID qb = [] \<or> beforeID qb = []) \<and>
          selectArgs = countArgs @ [Arg (GInt (qbPerPage qb))]
     else \<exists>off. 0 \<le> off \<and> off < 1000000 \<and> selectArgs = countArgs @ [Arg (GInt (qbPerPage qb)), Arg (GInt off)])"
  using assms(1)
proof (rule BuildQuery_parts)
  fix aft bef cur p pp fcs s sf so se fs
  assume q: "parseCursors params = Inr (aft, bef, cur)" "parsePage params cur = Inr p" "parsePerPage params = Inr pp"
    "parseSort res params allowedFields cur = Inr s" "parseOrder res params allowedFields cur s = Inr (sf, so)"
    and qb: "qb = \<lparr>qbResource = resource, qbRes = res, qbPage = p, qbPerPage = pp, qbFilters = fcs, sortField = sf, sortOrder = so,
       qbSearch = se, qbCondition = condition, afterID = aft, beforeID = bef, qbAllowed = allowedFields, qbFields = fs\<rparr>"
  have pg: "1 \<le> p \<and> p \<le> 10000 \<and> (cur \<noteq> [] \<longrightarrow> p = 1)" "1 \<le> pp \<and> pp \<le> 100"
    using parsePage_bounds [OF q(2)] parsePerPage_bounds [OF q(3)] by auto
  moreover have "0 \<le> (p - 1) * pp" "(p - 1) * pp \<le> 9999 * 100" using pg by (simp, intro mult_mono) auto
  moreover have "cur \<noteq> [] \<Longrightarrow> sf = []"
    using parseOrder_order [OF q(5)] q(4) parseSort_order [of res params allowedFields cur] by (cases s) blast
  ultimately show ?thesis using parseCursors_shape [OF q(1)] assms(2)
    by (auto simp: SQL_def UsesCursor_def qb Let_def split: prod.split_asm if_split_asm)
qed

section \<open>The statements\<close>

lemma plain_quoteIdent [simp]: "plainText (quoteIdent c) \<longleftrightarrow> plainText c"
  by (simp add: quoteIdent_def)

lemma plain_join [simp]: "plainText sep \<Longrightarrow> list_all plainText xs \<Longrightarrow> plainText (join_with sep xs)"
  by (induction xs rule: induct_list012) auto

lemma plain_SelectList [simp]: "(\<And>fs. cols = Some fs \<Longrightarrow> list_all plainText fs) \<Longrightarrow> plainText (SelectList cols)"
  by (auto simp: SelectList_def list_all_iff split: option.splits list.splits intro!: plain_join)

lemma BuildQuery_order: "BuildQuery L resource res params condition allowedFields = Inr qb \<Longrightarrow> plainText (sortOrder qb)"
  by (erule BuildQuery_parts) (auto dest!: parseOrder_order parseSort_order)

lemma BuildQuery_given:
  assumes "BuildQuery L resource res params condition allowedFields = Inr qb"
  shows "qbResource qb = resource" "qbRes qb = res" "qbCondition qb = condition" "qbAllowed qb = allowedFields"
    "\<And>c. condition = Some c \<Longrightarrow> bareIdent (wField c)"
  using assms by (auto elim!: BuildQuery_parts simp del: bareIdent.simps)

lemma accepted_plain:
  assumes "Validate env s = []" "gm_get (asResources s) resource = Some res"
    "BuildQuery L resource res params condition allowedFields = Inr qb"
  shows "list_all plainText (queryColumns qb)" "plainText resource" "\<And>c. qbCondition qb = Some c \<Longrightarrow> plainText (wField c)"
proof -
  show "list_all plainText (queryColumns qb)"
    using BuildQuery_columns [OF assms(3)] accepted_column(2) [OF assms(1,2)] bareIdent_plain by (auto simp: list_all_iff)
  show "plainText resource"
    using accepted_resource_name(1) [OF assms(1), of resource] assms(2) bareIdent_plain by (simp add: gm_has_def)
  show "\<And>c. qbCondition qb = Some c \<Longrightarrow> plainText (wField c)" using BuildQuery_given(3,5) [OF assms(3)] bareIdent_plain by auto
qed

lemma SQL_numbered:
  assumes "list_all plainText (queryColumns qb)" "\<And>c. qbCondition qb = Some c \<Longrightarrow> plainText (wField c)" "plainText (qbResource qb)"
    "plainText (sortOrder qb)" "list_all (\<lambda>f. fcOp f \<noteq> ''range_contains'') (qbFilters qb)"
    "SQL qb = (selectQ, countQ, selectArgs, countArgs)"
  shows "dollars selectQ = [1..<length selectArgs + 1]" "dollars countQ = [1..<length countArgs + 1]"
proof -
  obtain parts args idx where st: "appendConditions qb (cursorState qb) = (parts, args, idx)" by (cases "appendConditions qb (cursorState qb)")
  have n: "numbered (parts, args, idx)"
    using numbered_conditions [OF numbered_cursor assms(1,2), of qb] assms(5) by (simp add: list_all_iff flip: st)
  have sel: "plainText (SelectList (qbFields qb))" using assms(1) by (intro plain_SelectList) (simp add: queryColumns_def)
  have ord: "plainText (orderClause qb)" "startsPlain ('' '' @ x)" for x
    using assms(1,4) by (auto simp: orderClause_def queryColumns_def)
  note w = dollars_whereText [OF _ n]
  show "dollars countQ = [1..<length countArgs + 1]"
    using assms(3,6) w [of "[]"] st by (auto simp: SQL_def buildWhere_def Let_def split: if_split_asm)
  show "dollars selectQ = [1..<length selectArgs + 1]"
    using assms(3,6) w [of "'' '' @ orderClause qb @ '' LIMIT '' @ placeholder (length args + 1)"]
      w [of "'' '' @ orderClause qb @ '' LIMIT '' @ placeholder (length args + 1) @ '' OFFSET '' @ placeholder (length args + 2)"] sel ord st
    by (auto simp: SQL_def buildWhere_def Let_def split: if_split_asm)
qed

text \<open>C15: over a schema the validator accepts, the SELECT and the COUNT of an accepted list request without a \<open>contains\<close>
  filter refer to their parameters as \<open>$1\<close>, \<open>$2\<close>, ... in order, once each and one for every bound argument: each value
  reaches the comparison it was sent for, and none of them is part of the text.\<close>

theorem list_parameters_match_arguments:
  assumes "Validate env s = []" "gm_get (asResources s) resource = Some res"
    "BuildQuery L resource res params condition allowedFields = Inr qb" "list_all (\<lambda>f. fcOp f \<noteq> ''range_contains'') (qbFilters qb)"
    "SQL qb = (selectQ, countQ, selectArgs, countArgs)"
  shows "dollars selectQ = [1..<length selectArgs + 1] \<and> dollars countQ = [1..<length countArgs + 1]"
  using SQL_numbered [OF accepted_plain(1,3) [OF assms(1-3)] _ BuildQuery_order [OF assms(3)] assms(4,5)] accepted_plain(2) [OF assms(1-3)]
    BuildQuery_given(1) [OF assms(3)] by simp

section \<open>The row condition\<close>

text \<open>The conditions only grow the WHERE: what is bound stays bound at its place.\<close>

fun whereExtends :: "where_state \<Rightarrow> where_state \<Rightarrow> bool" where
  "whereExtends (parts, args, idx) (parts', args', idx') \<longleftrightarrow> prefix parts parts' \<and> prefix args args'"

lemma whereExtends_refl [simp]: "whereExtends st st"
  by (cases st) simp

lemma whereExtends_trans: "whereExtends a b \<Longrightarrow> whereExtends b c \<Longrightarrow> whereExtends a c"
  by (cases a; cases b; cases c) auto

lemma whereExtends_filter: "whereExtends st (appendFilter st f)"
  by (cases st) simp

lemma whereExtends_filters: "whereExtends st (foldl appendFilter st fs)"
proof (induction fs arbitrary: st)
  case (Cons f fs)
  show ?case using whereExtends_trans [OF whereExtends_filter Cons.IH] by simp
qed simp

lemma whereExtends_search: "whereExtends st (appendSearch qb st)"
  by (cases st) (simp add: appendSearch_def Let_def)

lemma conditions_scoped:
  assumes "qbCondition qb = Some c" "appendConditions qb (parts, args, length args + 1) = (parts', args', idx')"
  shows "wField c @ '' = '' @ placeholder (length args + 1) \<in> set parts'" "length args < length args'"
    "args' ! length args = strArg (wValue c)"
proof -
  have "whereExtends (appendRowScope qb (parts, args, length args + 1)) (parts', args', idx')"
    using assms(2) whereExtends_trans [OF whereExtends_filters whereExtends_search] unfolding appendConditions_def by metis
  then show "wField c @ '' = '' @ placeholder (length args + 1) \<in> set parts'" "length args < length args'"
    "args' ! length args = strArg (wValue c)"
    using assms(1) by (auto simp: appendRowScope_def prefix_def)
qed

definition cursorArgs :: "QueryBuilder \<Rightarrow> nat" where
  "cursorArgs qb = (if UsesCursor qb then 1 else 0)"

lemma cursor_index: "\<exists>parts args. cursorState qb = (parts, args, length args + 1) \<and> length args = cursorArgs qb"
  by (simp add: cursorState_def cursorArgs_def UsesCursor_def)

lemma buildWhere_scoped:
  assumes "qbCondition qb = Some c"
  obtains parts args where "buildWhere qb = ('' WHERE '' @ join_with '' AND '' parts, args)"
    "wField c @ '' = '' @ placeholder (cursorArgs qb + 1) \<in> set parts" "cursorArgs qb < length args"
    "args ! cursorArgs qb = strArg (wValue c)"
proof -
  obtain ps as where cur: "cursorState qb = (ps, as, length as + 1)" "length as = cursorArgs qb" using cursor_index by blast
  obtain parts args idx where st: "appendConditions qb (ps, as, length as + 1) = (parts, args, idx)"
    by (cases "appendConditions qb (ps, as, length as + 1)")
  note sc = conditions_scoped [OF assms st, unfolded cur(2)]
  then have "buildWhere qb = ('' WHERE '' @ join_with '' AND '' parts, args)" using st cur by (auto simp: buildWhere_def whereText_def)
  then show ?thesis using that sc by blast
qed

lemma aggregateWhere_scoped:
  assumes "qbCondition qb = Some c"
  shows "\<exists>parts rest. aggregateWhere qb = ('' WHERE '' @ join_with '' AND '' parts, strArg (wValue c) # rest) \<and>
    wField c @ '' = '' @ placeholder 1 \<in> set parts"
proof -
  obtain parts args idx where st: "appendConditions qb ([], [], 1) = (parts, args, idx)" by (cases "appendConditions qb ([], [], 1)")
  note sc = conditions_scoped [OF assms, of "[]" "[]", simplified, OF st [simplified]]
  then show ?thesis using st by (cases args) (auto simp: aggregateWhere_def whereText_def)
qed

lemma statements_row_scoped:
  assumes "BuildQuery L resource res params (Some c) allowedFields = Inr qb" "SQL qb = (selectQ, countQ, selectArgs, countArgs)"
  shows "\<exists>parts rest. countQ = ''SELECT COUNT(*) FROM '' @ quoteIdent resource @ '' WHERE '' @ join_with '' AND '' parts \<and>
      selectQ = ''SELECT '' @ SelectList (qbFields qb) @ '' FROM '' @ quoteIdent resource @ '' WHERE '' @ join_with '' AND '' parts @ rest \<and>
      wField c @ '' = '' @ placeholder (cursorArgs qb + 1) \<in> set parts \<and> cursorArgs qb < length countArgs \<and>
      countArgs ! cursorArgs qb = strArg (wValue c) \<and> selectArgs ! cursorArgs qb = strArg (wValue c)"
proof -
  note given = BuildQuery_given [OF assms(1)]
  obtain parts args where w: "buildWhere qb = ('' WHERE '' @ join_with '' AND '' parts, args)"
    "wField c @ '' = '' @ placeholder (cursorArgs qb + 1) \<in> set parts" "cursorArgs qb < length args"
    "args ! cursorArgs qb = strArg (wValue c)" by (rule buildWhere_scoped [OF given(3)])
  have "countArgs = args" "\<exists>t. selectArgs = args @ t"
    "countQ = ''SELECT COUNT(*) FROM '' @ quoteIdent resource @ '' WHERE '' @ join_with '' AND '' parts"
    "\<exists>rest. selectQ = ''SELECT '' @ SelectList (qbFields qb) @ '' FROM '' @ quoteIdent resource @ '' WHERE '' @ join_with '' AND '' parts @ rest"
    using assms(2) w(1) given(1) by (auto simp: SQL_def Let_def split: if_split_asm)
  then show ?thesis using w(2-4) by (auto simp: nth_append)
qed

text \<open>C12: when the role has a row condition on the resource, it is one of the conjuncts of the WHERE of an accepted list
  request, the same in its SELECT and its COUNT, and the parameter it names is bound to the caller's value in both.\<close>

theorem list_is_row_scoped:
  assumes "BuildQuery L resource res params (Some c) allowedFields = Inr qb" "SQL qb = (selectQ, countQ, selectArgs, countArgs)"
  shows "\<exists>parts rest. countQ = ''SELECT COUNT(*) FROM '' @ quoteIdent resource @ '' WHERE '' @ join_with '' AND '' parts \<and>
      selectQ = ''SELECT '' @ SelectList (qbFields qb) @ '' FROM '' @ quoteIdent resource @ '' WHERE '' @ join_with '' AND '' parts @ rest \<and>
      wField c @ '' = '' @ placeholder (cursorArgs qb + 1) \<in> set parts \<and> cursorArgs qb < length countArgs \<and>
      countArgs ! cursorArgs qb = strArg (wValue c) \<and> selectArgs ! cursorArgs qb = strArg (wValue c)"
  by (rule statements_row_scoped [OF assms])

section \<open>Aggregates\<close>

lemma aggField_metric:
  assumes "aggField res allowedFields fn f = Inr m"
  shows "Fn m = fn \<and> amField m = f \<and> fieldAllowed f allowedFields \<and>
    (\<exists>fd. gm_get (Fields res) f = Some fd \<and> aggFieldTypeOK fn (fType fd))"
  using assms by (auto simp: aggField_def split: option.split_asm if_split_asm)

lemma aggMetrics_metric:
  assumes "aggMetrics res params allowedFields fn = Inr (ms, e)" "m \<in> set ms"
  shows "Fn m = fn \<and> fieldAllowed (amField m) allowedFields \<and>
    (\<exists>fd. gm_get (Fields res) (amField m) = Some fd \<and> aggFieldTypeOK fn (fType fd))"
proof -
  obtain fs where "qmap (aggField res allowedFields fn) fs = Inr ms" using assms(1) by (auto simp: aggMetrics_def)
  then obtain f where "aggField res allowedFields fn f = Inr m" using qmap_Inr_in assms(2) by metis
  from aggField_metric [OF this] show ?thesis by auto
qed

lemma aggGroups_field:
  assumes "aggGroups res params allowedFields = Inr gs" "g \<in> set gs"
  shows "fieldAllowed g allowedFields \<and> (\<exists>fd. gm_get (Fields res) g = Some fd \<and> groupByTypeOK (fType fd))"
proof -
  obtain fs where "qmap (groupField res allowedFields) fs = Inr gs" using assms(1) by (auto simp: aggGroups_def)
  then obtain f where "groupField res allowedFields f = Inr g" using qmap_Inr_in assms(2) by metis
  then show ?thesis by (auto simp: groupField_def split: option.split_asm if_split_asm)
qed

lemma BuildAggregate_parts:
  assumes "BuildAggregate L resource res params condition allowedFields = Inr aq"
  shows "BuildQuery L resource res params condition allowedFields = Inr (aqQuery aq)" "aqCount aq \<or> Metrics aq \<noteq> []"
    "m \<in> set (Metrics aq) \<Longrightarrow> \<exists>fn ms e. fn \<in> set aggFuncs \<and> aggMetrics res params allowedFields fn = Inr (ms, e) \<and> m \<in> set ms"
    "aggGroups res params allowedFields = Inr (GroupBy aq)"
proof -
  obtain qb cnt rs gs where raw: "qmap (\<lambda>fn. qbind (aggMetrics res params allowedFields fn) (\<lambda>r. Inr (fn, r))) aggFuncs = Inr rs"
    "BuildQuery L resource res params condition allowedFields = Inr qb" "aggGroups res params allowedFields = Inr gs"
    and aq: "(if \<not> cnt \<and> concat (map (fst \<circ> snd) rs) = []
       then if map fst (filter (snd \<circ> snd) rs) \<noteq> [] then Inl (BadAggregate (AggNoField (map fst (filter (snd \<circ> snd) rs))))
            else if gs \<noteq> [] then Inl (BadAggregate GroupByAlone) else Inl (BadAggregate AggNothing)
       else Inr \<lparr>aqQuery = qb, aqCount = cnt, Metrics = concat (map (fst \<circ> snd) rs), GroupBy = gs\<rparr>) = Inr aq"
    using assms unfolding BuildAggregate_def qbind_Inr_iff Let_def by blast
  have rs: "cnt \<or> concat (map (fst \<circ> snd) rs) \<noteq> []"
    "aq = \<lparr>aqQuery = qb, aqCount = cnt, Metrics = concat (map (fst \<circ> snd) rs), GroupBy = gs\<rparr>"
    using aq by (cases "\<not> cnt \<and> concat (map (fst \<circ> snd) rs) = []"; simp split: if_split_asm)+
  with raw show "BuildQuery L resource res params condition allowedFields = Inr (aqQuery aq)" "aqCount aq \<or> Metrics aq \<noteq> []"
    "aggGroups res params allowedFields = Inr (GroupBy aq)" by auto
  show "\<exists>fn ms e. fn \<in> set aggFuncs \<and> aggMetrics res params allowedFields fn = Inr (ms, e) \<and> m \<in> set ms" if m: "m \<in> set (Metrics aq)"
  proof -
    obtain r where r: "r \<in> set rs" "m \<in> set (fst (snd r))" using m rs(2) by auto
    then obtain fn where "fn \<in> set aggFuncs" "qbind (aggMetrics res params allowedFields fn) (\<lambda>r. Inr (fn, r)) = Inr r"
      using qmap_Inr_in [OF raw(1)] by blast
    then show ?thesis using r(2) by (cases "snd r") auto
  qed
qed

text \<open>C16: an accepted aggregate applies one of the four functions, to declared columns of a type the function takes that
  the role may read, grouped by readable columns; it has something to compute, and with a row condition the condition
  is a conjunct of its WHERE with the caller's value bound to \<open>$1\<close>.\<close>

theorem aggregates_stay_in_scope:
  assumes "BuildAggregate L resource res params condition allowedFields = Inr aq"
  shows "(aqCount aq \<or> Metrics aq \<noteq> []) \<and>
    (\<forall>m \<in> set (Metrics aq). Fn m \<in> set aggFuncs \<and> fieldAllowed (amField m) allowedFields \<and>
       (\<exists>fd. gm_get (Fields res) (amField m) = Some fd \<and> aggFieldTypeOK (Fn m) (fType fd))) \<and>
    (\<forall>g \<in> set (GroupBy aq). fieldAllowed g allowedFields \<and> (\<exists>fd. gm_get (Fields res) g = Some fd \<and> groupByTypeOK (fType fd))) \<and>
    (\<forall>c. condition = Some c \<longrightarrow>
       (\<exists>parts rest args. aggSQL aq = (''SELECT '' @ join_with '', '' (aggSelect aq) @ '' FROM '' @ quoteIdent resource @ '' WHERE '' @
            join_with '' AND '' parts @ rest, strArg (wValue c) # args) \<and> wField c @ '' = '' @ placeholder 1 \<in> set parts))"
proof (intro conjI ballI allI impI)
  note parts = BuildAggregate_parts [OF assms]
  show "aqCount aq \<or> Metrics aq \<noteq> []" by (rule parts(2))
  fix m assume "m \<in> set (Metrics aq)"
  then obtain fn ms e where "fn \<in> set aggFuncs" "aggMetrics res params allowedFields fn = Inr (ms, e)" "m \<in> set ms"
    using parts(3) by blast
  with aggMetrics_metric show "Fn m \<in> set aggFuncs" "fieldAllowed (amField m) allowedFields"
    "\<exists>fd. gm_get (Fields res) (amField m) = Some fd \<and> aggFieldTypeOK (Fn m) (fType fd)" by metis+
next
  fix g assume "g \<in> set (GroupBy aq)"
  then show "fieldAllowed g allowedFields" "\<exists>fd. gm_get (Fields res) g = Some fd \<and> groupByTypeOK (fType fd)"
    using aggGroups_field [OF BuildAggregate_parts(4) [OF assms]] by blast+
next
  fix c assume c: "condition = Some c"
  note given = BuildQuery_given [OF BuildAggregate_parts(1) [OF assms]]
  show "\<exists>parts rest args. aggSQL aq = (''SELECT '' @ join_with '', '' (aggSelect aq) @ '' FROM '' @ quoteIdent resource @ '' WHERE '' @
      join_with '' AND '' parts @ rest, strArg (wValue c) # args) \<and> wField c @ '' = '' @ placeholder 1 \<in> set parts"
    using aggregateWhere_scoped [of "aqQuery aq" c] given(1,3) c by (fastforce simp: aggSQL_def Let_def)
qed

section \<open>The order of the parameters\<close>

text \<open>The parameters of a request are a Go map, visited in random order; the parsed query, the aggregate and the
  errors of both do not depend on that order.\<close>

theorem query_ignores_parameter_order:
  assumes "gm_wf params" "mset params = mset params'"
  shows "BuildQuery L resource res params condition allowedFields = BuildQuery L resource res params' condition allowedFields \<and>
    BuildAggregate L resource res params condition allowedFields = BuildAggregate L resource res params' condition allowedFields"
proof -
  have "mset (map fst params) = mset (map fst params')" using assms(2) by simp
  then have wf': "gm_wf params'" using assms(1) mset_eq_imp_distinct_iff unfolding gm_wf_def by blast
  have same: "set params = set params'" using assms(2) by (rule mset_eq_setD)
  have get: "map_of params = map_of params'" using map_of_inject_set assms(1) wf' same unfolding gm_wf_def by blast
  have keys: "sortedKeys params = sortedKeys params'" using sortedKeys_perm [OF assms(1) wf'] same by simp
  have one: "singleValue params = singleValue params'" "parseFilter L res params = parseFilter L res params'"
    unfolding fun_eq_iff singleValue_def parseFilter_def get by simp_all
  have two: "parseFilters L res params = parseFilters L res params'" "parseOrder res params = parseOrder res params'"
    unfolding fun_eq_iff parseFilters_def parseOrder_def keysWithPrefix_def one get keys by simp_all
  have "BuildQuery L resource res params condition allowedFields = BuildQuery L resource res params' condition allowedFields"
    unfolding BuildQuery_def parseCursors_def parsePage_def parsePerPage_def parseSort_def parseSearch_def ParseFields_def one two ..
  then show ?thesis
    unfolding BuildAggregate_def scanAggParams_def ParseCountFlag_def aggMetrics_def aggGroups_def one keys by simp
qed

section \<open>Examples\<close>

definition exLib :: FilterLib where
  "exLib = \<lparr>flStd = exStd, flParseFloat = (\<lambda>s. Atoi s \<noteq> None)\<rparr>"

definition exOwnRows :: WhereCondition where
  "exOwnRows = \<lparr>wField = ''owner'', wOp = ''eq'', wValue = ''u1'', Identity = True\<rparr>"

definition exParams :: url_values where
  "exParams = [(''sort'', [''status'']), (''page'', [''2'']), (''filter[status]'', [''open'']), (''fields'', [''owner, status''])]"

definition exQuery :: QueryBuilder where
  "exQuery = (newQuery ''orders'' exShopOrders (Some exOwnRows) [''status''])
     \<lparr>qbPage := 2, qbFilters := [zeroClause\<lparr>fcField := ''status'', fcOp := ''eq'', fcVal := ''open''\<rparr>],
      sortField := ''status'', sortOrder := ''ASC'', qbFields := Some [''id'', ''status'']\<rparr>"

definition exSelect :: string where
  "exSelect = ''SELECT '' @ SelectList (Some [''id'', ''status'']) @ '' FROM '' @ quoteIdent ''orders'' @
     '' WHERE owner = '' @ placeholder 1 @ '' AND status = '' @ placeholder 2 @ '' ORDER BY status ASC LIMIT '' @ placeholder 3 @
     '' OFFSET '' @ placeholder 4"

definition exCount :: string where
  "exCount = ''SELECT COUNT(*) FROM '' @ quoteIdent ''orders'' @ '' WHERE owner = '' @ placeholder 1 @ '' AND status = '' @ placeholder 2"

lemma exBuild: "BuildQuery exLib ''orders'' exShopOrders exParams (Some exOwnRows) [''status''] = Inr exQuery"
  by code_simp

lemma exSQL:
  "SQL exQuery = (exSelect, exCount, [strArg ''u1'', strArg ''open'', Arg (GInt 20), Arg (GInt 20)], [strArg ''u1'', strArg ''open''])"
  by code_simp

theorem accepted_query_reads_only_allowed_witness:
  "''status'' \<in> set (queryColumns exQuery) \<and> gm_has (Fields exShopOrders) ''status'' \<and> fieldAllowed ''status'' [''status'']"
proof -
  have c: "''status'' \<in> set (queryColumns exQuery)" by code_simp
  show ?thesis using accepted_query_reads_only_allowed [OF exShop_accepted exShop_orders exBuild c] c by simp
qed

theorem accepted_query_is_bounded_witness: "\<exists>off. 0 \<le> off \<and> off < 1000000 \<and> [Arg (GInt 20), Arg (GInt 20)] = [Arg (GInt 20), Arg (GInt off)]"
  using accepted_query_is_bounded [OF exBuild exSQL] by (simp add: UsesCursor_def exQuery_def newQuery_def DefaultPerPage_def)

theorem list_parameters_match_arguments_witness: "dollars exSelect = [1, 2, 3, 4] \<and> dollars exCount = [1, 2]"
proof -
  have nc: "list_all (\<lambda>f. fcOp f \<noteq> ''range_contains'') (qbFilters exQuery)" by code_simp
  have r: "[1..<5] = [1, 2, 3, 4 :: nat]" "[1..<3] = [1, 2 :: nat]" by code_simp+
  show ?thesis using list_parameters_match_arguments [OF exShop_accepted exShop_orders exBuild nc exSQL] r by simp
qed

theorem list_is_row_scoped_witness:
  "\<exists>parts. exCount = ''SELECT COUNT(*) FROM '' @ quoteIdent ''orders'' @ '' WHERE '' @ join_with '' AND '' parts \<and>
     ''owner = '' @ placeholder 1 \<in> set parts"
proof -
  have "wField exOwnRows = ''owner''" "cursorArgs exQuery = 0" by code_simp+
  then show ?thesis using list_is_row_scoped [OF exBuild exSQL] by auto
qed

definition exAggregate :: AggregateQuery where
  "exAggregate = \<lparr>aqQuery = newQuery ''orders'' exShopOrders (Some exOwnRows) [''status''], aqCount = True, Metrics = [], GroupBy = [''status'']\<rparr>"

theorem aggregates_stay_in_scope_witness:
  "\<exists>parts rest args. aggSQL exAggregate =
     (''SELECT '' @ join_with '', '' (aggSelect exAggregate) @ '' FROM '' @ quoteIdent ''orders'' @ '' WHERE '' @ join_with '' AND '' parts @ rest,
      strArg ''u1'' # args) \<and> ''owner = '' @ placeholder 1 \<in> set parts"
proof -
  have b: "BuildAggregate exLib ''orders'' exShopOrders [(''group_by'', [''status'']), (''count'', [[]])] (Some exOwnRows) [''status''] =
    Inr exAggregate" by code_simp
  have "wField exOwnRows = ''owner''" "wValue exOwnRows = ''u1''" by code_simp+
  then show ?thesis using aggregates_stay_in_scope [OF b] by auto
qed

theorem query_ignores_parameter_order_witness:
  "BuildQuery exLib ''orders'' exShopOrders (rev exParams) (Some exOwnRows) [''status''] = Inr exQuery"
proof -
  have "gm_wf exParams" by code_simp
  then show ?thesis
    using query_ignores_parameter_order [of exParams "rev exParams" exLib "''orders''" exShopOrders "Some exOwnRows" "[''status'']"] exBuild by simp
qed

text \<open>A \<open>contains\<close> filter binds its value without advancing the parameter index: the filter after it refers to the same
  parameter, and its own value is bound to a parameter nothing refers to.\<close>

definition exAgenda :: ResourceSchema where
  "exAgenda = (zeroResource [(''starts'', zeroField ''time''), (''ends'', zeroField ''time''), (''task'', zeroField ''string'')])
     \<lparr>Ranges := [(''slot'', \<lparr>Start = ''starts'', End = ''ends'', NoOverlap = None, TimezoneField = [], DefaultDuration = []\<rparr>)]\<rparr>"

definition exContains :: QueryBuilder where
  "exContains = (newQuery ''agenda'' exAgenda None [])
     \<lparr>qbFilters := [zeroClause\<lparr>fcField := ''slot'', fcOp := ''range_contains'', rangeStart := ''starts'', rangeEnd := ''ends'', fcVal := ''now''\<rparr>,
                     zeroClause\<lparr>fcField := ''task'', fcOp := ''eq'', fcVal := ''A''\<rparr>]\<rparr>"

lemma contains_filter_shares_its_parameter:
  "BuildQuery exLib ''agenda'' exAgenda [(''filter[slot][contains]'', [''now'']), (''filter[task]'', [''A''])] None [] = Inr exContains \<and>
   dollars (fst (buildWhere exContains)) = [1, 1] \<and> snd (buildWhere exContains) = [strArg ''now'', strArg ''A''] \<and>
   dollars (fst (SQL exContains)) = [1, 1, 3, 4]"
  by (intro conjI) code_simp+

text \<open>The columns of a filter are printed without quotes, and the validator accepts the reserved words of SQL as names.\<close>

definition exNotes :: ResourceSchema where
  "exNotes = zeroResource [(''user'', zeroField ''string''), (''order'', zeroField ''int'')]"

lemma reserved_column_is_not_quoted:
  "Validate exChecks (exShop\<lparr>asResources := asResources exShop @ [(''notes'', exNotes)]\<rparr>) = [] \<and>
   map_option (fst \<circ> buildWhere) (case BuildQuery exLib ''notes'' exNotes [(''filter[user]'', [''ann''])] None [] of Inr qb \<Rightarrow> Some qb | Inl _ \<Rightarrow> None) =
     Some ('' WHERE user = '' @ placeholder 1)"
  by (intro conjI) code_simp+

end
