(* ===== verification/IncludeFacts.thy ===== *)
theory IncludeFacts
  imports QueryFacts
begin

text \<open>
  What \<open>?include=\<close> promises: the embeds of an accepted request are within the depth and the size bound, of resources
  the role may read and scoped by the role's row conditions there; the parameters of the whole statement, base and
  embeds, are numbered as they are bound.
\<close>

section \<open>The compiled tree\<close>

lemma rowObject_Inr:
  assumes "rowObject cfg alias resource nd depth b = Inr (obj, joins, b')"
  obtains res embeds where "gm_get (asResources (icSchema cfg)) resource = Some res"
    "rowEmbeds cfg alias resource res (sortedChildren nd) depth b = Inr (embeds, joins, b')"
    "obj = ''json_build_object('' @
       join_with '', '' (idPair alias # map (columnPair res alias) (rowColumns cfg res resource depth) @ embeds) @ '')''"
  using assms that by (auto simp: rowObject.simps split: option.split_asm sum.split_asm)

lemma rowEmbeds_Cons_Inr:
  assumes "rowEmbeds cfg alias resource res ((relName, nd) # cs) depth b = Inr (embeds, joins, b')"
  obtains rel join val b1 embeds' joins' where "int depth + 1 \<le> maxDepth cfg" "gm_get (Relations res) relName = Some rel"
    "buildEmbed cfg alias resource rel nd (depth + 1) b = Inr (join, val, b1)"
    "rowEmbeds cfg alias resource res cs depth b1 = Inr (embeds', joins', b')"
    "embeds = ([CHR 0x27] @ relName @ [CHR 0x27] @ '', '' @ val) # embeds'" "joins = join # joins'"
  using assms that by (auto simp: rowEmbeds.simps split: option.split_asm sum.split_asm if_split_asm)

definition entered :: "includeBuilder \<Rightarrow> includeBuilder" where
  "entered b = b\<lparr>ibNodes := ibNodes b + 1, aliasN := aliasN b + 1\<rparr>"

lemma buildEmbed_Inr:
  assumes "buildEmbed cfg parentAlias source rel nd depth b = Inr (join, val, b')"
  obtains n fl cond rowObj nested b1 rowCond b2 where "n = Itoa (int (aliasN b + 1))" "ibNodes b + 1 \<le> maxIncludeNodes"
    "rbacFor cfg (relTarget rel) = (True, fl, cond)"
    "rowObject cfg (''_c'' @ n) (relTarget rel) nd depth (entered b) = Inr (rowObj, nested, b1)"
    "embedCondition (''_c'' @ n) cond b1 = Inr (rowCond, b2)"
    "embedJoin cfg parentAlias source rel n rowObj (if nested = [] then [] else '' '' @ join_with '' '' nested) rowCond b2 = Inr (join, b')"
    "val = ''_r'' @ n @ ''.j''"
proof -
  obtain fl cond where r: "rbacFor cfg (relTarget rel) = (True, fl, cond)" "ibNodes b + 1 \<le> maxIncludeNodes"
    using assms by (auto simp: buildEmbed.simps split: prod.split_asm if_split_asm)
  define n where "n = Itoa (int (aliasN b + 1))"
  obtain rowObj nested b1 rowCond b2 where
    "rowObject cfg (''_c'' @ n) (relTarget rel) nd depth (entered b) = Inr (rowObj, nested, b1)"
    "embedCondition (''_c'' @ n) cond b1 = Inr (rowCond, b2)"
    "embedJoin cfg parentAlias source rel n rowObj (if nested = [] then [] else '' '' @ join_with '' '' nested) rowCond b2 = Inr (join, b')"
    "val = ''_r'' @ n @ ''.j''"
    using assms r unfolding buildEmbed.simps Let_def n_def [symmetric] entered_def [symmetric] by (auto split: sum.split_asm if_split_asm)
  then show ?thesis using that n_def r by blast
qed

text \<open>The embeds a tree asks for below a resource, with their distance.\<close>

inductive reaches :: "APISchema \<Rightarrow> string \<Rightarrow> includeNode \<Rightarrow> nat \<Rightarrow> string \<Rightarrow> bool" for s where
  child: "reaches s r nd 1 (relTarget rel)"
    if "gm_get (asResources s) r = Some res" "(k, nd') \<in> set (children nd)" "gm_get (Relations res) k = Some rel"
| below: "reaches s r nd (d + 1) t"
    if "gm_get (asResources s) r = Some res" "(k, nd') \<in> set (children nd)" "gm_get (Relations res) k = Some rel"
      "reaches s (relTarget rel) nd' d t"

lemma reaches_child:
  assumes "reaches s r nd d t"
  obtains res k nd' rel where "gm_get (asResources s) r = Some res" "(k, nd') \<in> set (sortedChildren nd)"
    "gm_get (Relations res) k = Some rel" "d = 1 \<and> t = relTarget rel \<or> (\<exists>d'. d = d' + 1 \<and> reaches s (relTarget rel) nd' d' t)"
  using assms by (cases rule: reaches.cases) (auto simp: sortedChildren_def)

fun nodeCount :: "includeNode \<Rightarrow> nat" where
  "nodeCount (Node cs) = sum_list (map (\<lambda>(_, nd). Suc (nodeCount nd)) cs)"

definition listCount :: "(string \<times> includeNode) list \<Rightarrow> nat" where
  "listCount cs = sum_list (map (\<lambda>(_, nd). Suc (nodeCount nd)) cs)"

lemma nodeCount_sorted: "nodeCount nd = listCount (sortedChildren nd)"
proof -
  have "sum_list (map f xs) = sum_mset (image_mset f (mset xs))" for f :: "string \<times> includeNode \<Rightarrow> nat" and xs
    by (simp add: sum_mset_sum_list flip: mset_map)
  then show ?thesis by (cases nd) (simp add: listCount_def sortedChildren_def)
qed

lemma listCount_simps [simp]: "listCount [] = 0" "listCount ((k, nd) # cs) = Suc (nodeCount nd) + listCount cs"
  by (simp_all add: listCount_def)

lemma embedCondition_nodes: "embedCondition a c b = Inr (t, b') \<Longrightarrow> ibNodes b' = ibNodes b"
  by (auto simp: embedCondition_def split: option.split_asm if_split_asm simp del: bareIdent.simps)

lemma embedJoin_builder:
  assumes "embedJoin cfg parentAlias source rel n rowObj nested rowCond b = Inr (join, b')"
  shows "ibNodes b' = ibNodes b" "ibArgs b' = ibArgs b"
  using assms by (auto simp: embedJoin_def parentRef_def Let_def split: if_split_asm)

text \<open>Induction over a successful compilation.\<close>

lemma include_induct:
  assumes row: "\<And>al r nd depth b res embeds joins b'. gm_get (asResources (icSchema cfg)) r = Some res \<Longrightarrow>
      Q al r res (sortedChildren nd) depth b embeds joins b' \<Longrightarrow>
      P al r nd depth b (''json_build_object('' @
        join_with '', '' (idPair al # map (columnPair res al) (rowColumns cfg res r depth) @ embeds) @ '')'') joins b'"
    and nil: "\<And>al r res depth b. Q al r res [] depth b [] [] b"
    and cons: "\<And>al r res k nd cs depth b rel join val b1 embeds joins b'. int depth + 1 \<le> maxDepth cfg \<Longrightarrow>
      gm_get (Relations res) k = Some rel \<Longrightarrow> R al r rel nd (depth + 1) b join val b1 \<Longrightarrow> Q al r res cs depth b1 embeds joins b' \<Longrightarrow>
      Q al r res ((k, nd) # cs) depth b (([CHR 0x27] @ k @ [CHR 0x27] @ '', '' @ val) # embeds) (join # joins) b'"
    and embed: "\<And>pa src rel nd depth b n fl cond rowObj nested b1 rowCond b2 join b'. n = Itoa (int (aliasN b + 1)) \<Longrightarrow>
      ibNodes b + 1 \<le> maxIncludeNodes \<Longrightarrow> rbacFor cfg (relTarget rel) = (True, fl, cond) \<Longrightarrow>
      P (''_c'' @ n) (relTarget rel) nd depth (entered b) rowObj nested b1 \<Longrightarrow> embedCondition (''_c'' @ n) cond b1 = Inr (rowCond, b2) \<Longrightarrow>
      embedJoin cfg pa src rel n rowObj (if nested = [] then [] else '' '' @ join_with '' '' nested) rowCond b2 = Inr (join, b') \<Longrightarrow>
      R pa src rel nd depth b join (''_r'' @ n @ ''.j'') b'"
  shows "rowObject cfg' al r nd depth b = Inr (obj, joins, b') \<Longrightarrow> cfg' = cfg \<Longrightarrow> P al r nd depth b obj joins b'"
    and "rowEmbeds cfg' al r res cs depth b = Inr (embeds, joins, b') \<Longrightarrow> cfg' = cfg \<Longrightarrow> Q al r res cs depth b embeds joins b'"
    and "buildEmbed cfg' pa src rel nd depth b = Inr (join, val, b') \<Longrightarrow> cfg' = cfg \<Longrightarrow> R pa src rel nd depth b join val b'"
proof (induction cfg' al r nd depth b and cfg' al r res cs depth b and cfg' pa src rel nd depth b
    arbitrary: obj joins b' and embeds joins b' and join val b' rule: rowObject_rowEmbeds_buildEmbed.induct)
  case (1 cfg' al r nd depth b)
  from "1.prems"(1) obtain res embeds where "gm_get (asResources (icSchema cfg')) r = Some res"
    "rowEmbeds cfg' al r res (sortedChildren nd) depth b = Inr (embeds, joins, b')"
    "obj = ''json_build_object('' @ join_with '', '' (idPair al # map (columnPair res al) (rowColumns cfg' res r depth) @ embeds) @ '')''"
    by (rule rowObject_Inr)
  then show ?case using row "1.IH" "1.prems"(2) by simp
next
  case (2 cfg' al r res depth b)
  then show ?case using nil by (simp add: rowEmbeds.simps)
next
  case (3 cfg' al r res k nd cs depth b)
  from "3.prems"(1) obtain rel join val b1 embeds' joins' where s: "int depth + 1 \<le> maxDepth cfg'" "gm_get (Relations res) k = Some rel"
    "buildEmbed cfg' al r rel nd (depth + 1) b = Inr (join, val, b1)" "rowEmbeds cfg' al r res cs depth b1 = Inr (embeds', joins', b')"
    and e: "embeds = ([CHR 0x27] @ k @ [CHR 0x27] @ '', '' @ val) # embeds'" "joins = join # joins'" by (rule rowEmbeds_Cons_Inr)
  have d: "\<not> int depth + 1 > maxDepth cfg'" using s(1) by simp
  show ?case unfolding e
    using cons s(1,2) "3.IH"(1) [OF d s(2,3) "3.prems"(2)] "3.IH"(2) [OF d s(2,3) refl refl s(4) "3.prems"(2)] "3.prems"(2) by blast
next
  case (4 cfg' pa src rel nd depth b)
  from "4.prems"(1) obtain n fl cond rowObj nested b1 rowCond b2 where s: "n = Itoa (int (aliasN b + 1))" "ibNodes b + 1 \<le> maxIncludeNodes"
    "rbacFor cfg' (relTarget rel) = (True, fl, cond)"
    "rowObject cfg' (''_c'' @ n) (relTarget rel) nd depth (entered b) = Inr (rowObj, nested, b1)"
    and e: "embedCondition (''_c'' @ n) cond b1 = Inr (rowCond, b2)"
    "embedJoin cfg' pa src rel n rowObj (if nested = [] then [] else '' '' @ join_with '' '' nested) rowCond b2 = Inr (join, b')"
    "val = ''_r'' @ n @ ''.j''"
    by (rule buildEmbed_Inr)
  have "P (''_c'' @ n) (relTarget rel) nd depth (entered b) rowObj nested b1"
    using "4.IH" [OF _ s(3) [symmetric] refl _ s(1)] s(2,4) "4.prems"(2) by (simp add: entered_def)
  then show ?case unfolding e(3) using embed s(1-3) e(1,2) "4.prems"(2) by blast
qed

text \<open>Every node of the tree is counted, and none is compiled beyond the bound.\<close>

lemma include_counts:
  assumes "rowObject cfg al r nd depth b = Inr (obj, joins, b')"
  shows "ibNodes b' = ibNodes b + nodeCount nd \<and> (ibNodes b \<le> maxIncludeNodes \<longrightarrow> ibNodes b' \<le> maxIncludeNodes)"
  by (rule include_induct(1) [where cfg = cfg and
        P = "\<lambda>al r nd depth b obj joins b'. ibNodes b' = ibNodes b + nodeCount nd \<and> (ibNodes b \<le> maxIncludeNodes \<longrightarrow> ibNodes b' \<le> maxIncludeNodes)" and
        Q = "\<lambda>al r res cs depth b embeds joins b'. ibNodes b' = ibNodes b + listCount cs \<and> (ibNodes b \<le> maxIncludeNodes \<longrightarrow> ibNodes b' \<le> maxIncludeNodes)" and
        R = "\<lambda>pa src rel nd depth b join val b'. ibNodes b' = ibNodes b + Suc (nodeCount nd) \<and> ibNodes b' \<le> maxIncludeNodes",
        OF _ _ _ _ assms refl])
     (auto simp: nodeCount_sorted entered_def dest!: embedCondition_nodes embedJoin_builder(1))

section \<open>The policy of the embeds\<close>

definition scopes :: "string \<Rightarrow> sqlArg list \<Rightarrow> WhereCondition \<Rightarrow> bool" where
  "scopes sql args c \<longleftrightarrow> (\<exists>child k. k < length args \<and> args ! k = strArg (wValue c) \<and>
     sublist ('' AND '' @ child @ ''.'' @ quoteIdent (wField c) @ '' = '' @ placeholder (k + 1)) sql)"

text \<open>The role may read the target, and its row condition there, if it has one, is in one of the texts.\<close>

definition obeys :: "includeCfg \<Rightarrow> string list \<Rightarrow> sqlArg list \<Rightarrow> string \<Rightarrow> bool" where
  "obeys cfg texts args t \<longleftrightarrow>
     (\<exists>fl cond. rbacFor cfg t = (True, fl, cond) \<and> (\<forall>c. cond = Some c \<longrightarrow> wField c \<noteq> [] \<longrightarrow> (\<exists>j \<in> set texts. scopes j args c)))"

lemma scopes_mono:
  assumes "scopes sql args c" "sublist sql sql'" "prefix args args'"
  shows "scopes sql' args' c"
proof -
  obtain child k where k: "k < length args" "args ! k = strArg (wValue c)"
    and t: "sublist ('' AND '' @ child @ ''.'' @ quoteIdent (wField c) @ '' = '' @ placeholder (k + 1)) sql"
    using assms(1) unfolding scopes_def by blast
  have "k < length args' \<and> args' ! k = strArg (wValue c)" using k assms(3) by (auto simp: prefix_def nth_append)
  then show ?thesis unfolding scopes_def using sublist_order.order.trans [OF t assms(2)] by blast
qed

lemma obeys_mono:
  assumes "obeys cfg texts args t" "\<And>j. j \<in> set texts \<Longrightarrow> \<exists>j' \<in> set texts'. sublist j j'" "prefix args args'"
  shows "obeys cfg texts' args' t"
  using assms scopes_mono unfolding obeys_def by metis

lemma sublist_join: "x \<in> set xs \<Longrightarrow> sublist x (join_with sep xs)"
proof (induction xs rule: induct_list012)
  case (3 y z zs)
  show ?case
  proof (cases "x = y")
    case False
    then have "sublist x (join_with sep (z # zs))" using 3 by simp
    then show ?thesis by (auto simp: sublist_def) (metis append.assoc)
  qed (simp add: sublist_def, metis append_Nil)
qed auto

text \<open>The shape of an embed's join: the nested joins, then the row condition, between names.\<close>

definition relPlain :: "RelationDef \<Rightarrow> bool" where
  "relPlain rel \<longleftrightarrow> plainText (relTarget rel) \<and> plainText (relFK rel) \<and> plainText (Through rel) \<and> plainText (TargetFK rel)"

definition refsPlain :: "APISchema \<Rightarrow> bool" where
  "refsPlain s \<longleftrightarrow> (\<forall>owner fk target. plainText (refColumnOf s owner fk target))"

lemma embedJoin_shape:
  assumes "embedJoin cfg pa src rel n rowObj nested rowCond b = Inr (join, b')"
  obtains p q r where "join = p @ nested @ ('' '' @ q) @ rowCond @ ('' '' @ r)"
    "plainText rowObj \<Longrightarrow> plainText pa \<Longrightarrow> plainText n \<Longrightarrow> relPlain rel \<Longrightarrow> refsPlain (icSchema cfg) \<Longrightarrow> plainText p \<and> plainText q \<and> plainText r"
proof -
  let ?child = "''_c'' @ n" and ?thr = "''_h'' @ n" and ?s = "icSchema cfg"
  let ?lim = "Itoa (if relLimit rel \<le> 0 then DefaultEmbedLimit else relLimit rel)"
  let ?many = "''LEFT JOIN LATERAL (SELECT COALESCE(json_agg(_e ORDER BY _ord), '' @ emptyArray @ '') AS j FROM (SELECT '' @ rowObj @
     '' AS _e, '' @ (?child @ ''.'' @ quoteIdent ''id'') @ '' AS _ord FROM ''"
  let ?fin = "''ORDER BY '' @ (?child @ ''.'' @ quoteIdent ''id'') @ '' LIMIT '' @ ?lim @ '') _sub) _r'' @ n @ '' ON TRUE''"
  consider (one) "relType rel = ''belongs_to''" | (many) "relType rel = ''has_many''" | (both) "relType rel = ''many_to_many''"
    using assms by (auto simp: embedJoin_def Let_def split: if_split_asm)
  then show ?thesis
  proof cases
    case one
    then show ?thesis using assms
      by (intro that [of "''LEFT JOIN LATERAL (SELECT '' @ rowObj @ '' AS j FROM '' @ quoteIdent (relTarget rel) @ '' '' @ ?child"
            "''WHERE '' @ ?child @ ''.'' @ quoteIdent (refColumnOf ?s src (relFK rel) (relTarget rel)) @ '' = '' @ pa @ ''.'' @ quoteIdent (relFK rel)"
            "''LIMIT 1) _r'' @ n @ '' ON TRUE''"])
         (auto simp: embedJoin_def parentRef_def Let_def relPlain_def refsPlain_def)
  next
    case many
    then show ?thesis using assms
      by (intro that [of "?many @ quoteIdent (relTarget rel) @ '' '' @ ?child"
            "''WHERE '' @ ?child @ ''.'' @ quoteIdent (relFK rel) @ '' = '' @ pa @ ''.'' @ quoteIdent (refColumnOf ?s (relTarget rel) (relFK rel) src)" ?fin])
         (auto simp: embedJoin_def parentRef_def Let_def relPlain_def refsPlain_def emptyArray_def)
  next
    case both
    then show ?thesis using assms
      by (intro that [of "?many @ quoteIdent (Through rel) @ '' '' @ ?thr @ '' JOIN '' @ quoteIdent (relTarget rel) @ '' '' @ ?child @ '' ON '' @
              ?child @ ''.'' @ quoteIdent (refColumnOf ?s (Through rel) (TargetFK rel) (relTarget rel)) @ '' = '' @ ?thr @ ''.'' @ quoteIdent (TargetFK rel)"
            "''WHERE '' @ ?thr @ ''.'' @ quoteIdent (relFK rel) @ '' = '' @ pa @ ''.'' @ quoteIdent (refColumnOf ?s (Through rel) (relFK rel) src)" ?fin])
         (auto simp: embedJoin_def parentRef_def Let_def relPlain_def refsPlain_def emptyArray_def)
  qed
qed

lemma sublist_shift: "sublist x (x @ y)" "sublist x y \<Longrightarrow> sublist x (z @ y)" "sublist x y \<Longrightarrow> sublist x (c # y)"
  by (auto simp: sublist_append sublist_Cons_right)

lemma embedJoin_texts:
  assumes "embedJoin cfg pa src rel n rowObj nested rowCond b = Inr (join, b')"
  shows "sublist nested join" "sublist rowCond join"
proof -
  obtain p q r where j: "join = p @ nested @ ('' '' @ q) @ rowCond @ ('' '' @ r)" using assms by (rule embedJoin_shape)
  show "sublist nested join" unfolding j by (rule sublist_appendI)
  have "sublist rowCond ((p @ nested @ '' '' @ q) @ rowCond @ ('' '' @ r))" by (rule sublist_appendI)
  then show "sublist rowCond join" unfolding j by simp
qed

lemma embedCondition_scopes:
  assumes "embedCondition (''_c'' @ n) cond b = Inr (rowCond, b')"
  shows "prefix (ibArgs b) (ibArgs b')" "cond = Some c \<Longrightarrow> wField c \<noteq> [] \<Longrightarrow> scopes rowCond (ibArgs b') c"
proof -
  show "prefix (ibArgs b) (ibArgs b')"
    using assms by (auto simp: embedCondition_def split: option.split_asm if_split_asm simp del: bareIdent.simps)
  show "scopes rowCond (ibArgs b') c" if "cond = Some c" "wField c \<noteq> []"
  proof -
    have "rowCond = '' AND '' @ (''_c'' @ n) @ ''.'' @ quoteIdent (wField c) @ '' = '' @ placeholder (length (ibArgs b) + 1)"
      "ibArgs b' = ibArgs b @ [strArg (wValue c)]"
      using assms that by (auto simp: embedCondition_def split: if_split_asm simp del: bareIdent.simps)
    then show ?thesis unfolding scopes_def by (intro exI [of _ "''_c'' @ n"] exI [of _ "length (ibArgs b)"]) simp
  qed
qed

definition belowOk :: "includeCfg \<Rightarrow> string \<Rightarrow> includeNode \<Rightarrow> nat \<Rightarrow> string list \<Rightarrow> sqlArg list \<Rightarrow> bool" where
  "belowOk cfg r nd depth texts args \<longleftrightarrow>
     (\<forall>d t. reaches (icSchema cfg) r nd d t \<longrightarrow> int (depth + d) \<le> maxDepth cfg \<and> obeys cfg texts args t)"

definition childOk :: "includeCfg \<Rightarrow> RelationDef \<Rightarrow> includeNode \<Rightarrow> nat \<Rightarrow> string list \<Rightarrow> sqlArg list \<Rightarrow> bool" where
  "childOk cfg rel nd depth texts args \<longleftrightarrow> obeys cfg texts args (relTarget rel) \<and> belowOk cfg (relTarget rel) nd depth texts args"

definition listOk :: "includeCfg \<Rightarrow> ResourceSchema \<Rightarrow> (string \<times> includeNode) list \<Rightarrow> nat \<Rightarrow> string list \<Rightarrow> sqlArg list \<Rightarrow> bool" where
  "listOk cfg res cs depth texts args \<longleftrightarrow>
     (\<forall>k nd rel. (k, nd) \<in> set cs \<longrightarrow> gm_get (Relations res) k = Some rel \<longrightarrow>
        int depth + 1 \<le> maxDepth cfg \<and> childOk cfg rel nd (depth + 1) texts args)"

lemma belowOk_mono:
  assumes "belowOk cfg r nd depth texts args" "\<And>j. j \<in> set texts \<Longrightarrow> \<exists>j' \<in> set texts'. sublist j j'" "prefix args args'"
  shows "belowOk cfg r nd depth texts' args'"
  using assms(1) obeys_mono [OF _ assms(2,3)] unfolding belowOk_def by blast

lemma childOk_mono:
  "childOk cfg rel nd depth texts args \<Longrightarrow> set texts \<subseteq> set texts' \<Longrightarrow> prefix args args' \<Longrightarrow> childOk cfg rel nd depth texts' args'"
  unfolding childOk_def by (blast intro: obeys_mono belowOk_mono)

lemma include_policy_embed:
  assumes "rbacFor cfg (relTarget rel) = (True, fl, cond)" "belowOk cfg (relTarget rel) nd depth nested (ibArgs b1)"
    "embedCondition (''_c'' @ n) cond b1 = Inr (rowCond, b2)"
    "embedJoin cfg pa src rel n rowObj (if nested = [] then [] else '' '' @ join_with '' '' nested) rowCond b2 = Inr (join, b')"
  shows "prefix (ibArgs b1) (ibArgs b') \<and> childOk cfg rel nd depth [join] (ibArgs b')"
proof -
  note c = embedCondition_scopes [OF assms(3)] and t = embedJoin_texts [OF assms(4)] and a = embedJoin_builder(2) [OF assms(4)]
  have own: "obeys cfg [join] (ibArgs b') (relTarget rel)"
    using assms(1) c(2) scopes_mono [OF _ t(2)] unfolding obeys_def a by auto
  have "sublist j join" if "j \<in> set nested" for j
  proof -
    have "sublist j ('' '' @ join_with '' '' nested)" using sublist_join [OF that] sublist_append_leftI sublist_order.order.trans by blast
    then show ?thesis using t(1) that sublist_order.order.trans by (auto split: if_split_asm)
  qed
  then show ?thesis using own belowOk_mono [OF assms(2), of "[join]" "ibArgs b'"] c(1) by (simp add: childOk_def a)
qed

lemma include_policy_row:
  assumes r: "gm_get (asResources (icSchema cfg)) r = Some res" and q: "listOk cfg res (sortedChildren nd) depth joins args"
  shows "belowOk cfg r nd depth joins args"
proof -
  have "int (depth + d) \<le> maxDepth cfg \<and> obeys cfg joins args t" if "reaches (icSchema cfg) r nd d t" for d t
    using that
  proof (rule reaches_child)
    fix res' k nd' rel
    assume k: "gm_get (asResources (icSchema cfg)) r = Some res'" "(k, nd') \<in> set (sortedChildren nd)" "gm_get (Relations res') k = Some rel"
      "d = 1 \<and> t = relTarget rel \<or> (\<exists>d'. d = d' + 1 \<and> reaches (icSchema cfg) (relTarget rel) nd' d' t)"
    then have "int depth + 1 \<le> maxDepth cfg \<and> childOk cfg rel nd' (depth + 1) joins args" using q r unfolding listOk_def by auto
    then show ?thesis using k(4) unfolding childOk_def belowOk_def by (auto simp: algebra_simps)
  qed
  then show ?thesis unfolding belowOk_def by blast
qed

lemma include_policy:
  assumes "rowObject cfg al r nd depth b = Inr (obj, joins, b')"
  shows "prefix (ibArgs b) (ibArgs b') \<and> belowOk cfg r nd depth joins (ibArgs b')"
proof (rule include_induct(1) [where cfg = cfg and
      P = "\<lambda>al r nd depth b obj joins b'. prefix (ibArgs b) (ibArgs b') \<and> belowOk cfg r nd depth joins (ibArgs b')" and
      Q = "\<lambda>al r res cs depth b embeds joins b'. prefix (ibArgs b) (ibArgs b') \<and> listOk cfg res cs depth joins (ibArgs b')" and
      R = "\<lambda>pa src rel nd depth b join val b'. prefix (ibArgs b) (ibArgs b') \<and> childOk cfg rel nd depth [join] (ibArgs b')",
      OF _ _ _ _ assms refl])
  fix r res depth joins and nd :: includeNode and b b' :: includeBuilder
  assume "gm_get (asResources (icSchema cfg)) r = Some res"
    "prefix (ibArgs b) (ibArgs b') \<and> listOk cfg res (sortedChildren nd) depth joins (ibArgs b')"
  with include_policy_row show "prefix (ibArgs b) (ibArgs b') \<and> belowOk cfg r nd depth joins (ibArgs b')" by blast
next
  fix res k cs depth rel join joins and nd :: includeNode and b b1 b' :: includeBuilder
  assume d: "int depth + 1 \<le> maxDepth cfg" "gm_get (Relations res) k = Some rel"
    and e: "prefix (ibArgs b) (ibArgs b1) \<and> childOk cfg rel nd (depth + 1) [join] (ibArgs b1)"
    and l: "prefix (ibArgs b1) (ibArgs b') \<and> listOk cfg res cs depth joins (ibArgs b')"
  have "childOk cfg rel nd (depth + 1) (join # joins) (ibArgs b')" using e l childOk_mono by (metis list.set_intros(1) empty_set insert_subset list.simps(15) empty_subsetI)
  moreover have "childOk cfg rel' nd' (depth + 1) (join # joins) (ibArgs b')"
    if "(k', nd') \<in> set cs" "gm_get (Relations res) k' = Some rel'" for k' nd' rel'
    using l that childOk_mono [of cfg rel' nd' "depth + 1" joins "ibArgs b'" "join # joins" "ibArgs b'"] unfolding listOk_def by auto
  ultimately show "prefix (ibArgs b) (ibArgs b') \<and> listOk cfg res ((k, nd) # cs) depth (join # joins) (ibArgs b')"
    using d e l unfolding listOk_def by auto
next
  fix pa src rel depth n fl cond rowObj nested rowCond join and nd :: includeNode and b b1 b2 b' :: includeBuilder
  assume "rbacFor cfg (relTarget rel) = (True, fl, cond)"
    "prefix (ibArgs (entered b)) (ibArgs b1) \<and> belowOk cfg (relTarget rel) nd depth nested (ibArgs b1)"
    "embedCondition (''_c'' @ n) cond b1 = Inr (rowCond, b2)"
    "embedJoin cfg pa src rel n rowObj (if nested = [] then [] else '' '' @ join_with '' '' nested) rowCond b2 = Inr (join, b')"
  with include_policy_embed show "prefix (ibArgs b) (ibArgs b') \<and> childOk cfg rel nd depth [join] (ibArgs b')"
    by (fastforce simp: entered_def)
qed (simp add: listOk_def)

lemma sublist_joinsText: "j \<in> set joins \<Longrightarrow> sublist j (joinsText joins)"
proof (induction joins)
  case (Cons i joins)
  have e: "joinsText (i # joins) = '' '' @ i @ joinsText joins" by (simp add: joinsText_def)
  show ?case
  proof (cases "j = i")
    case False
    then have "sublist j (joinsText joins)" using Cons by simp
    then show ?thesis unfolding e by (intro sublist_shift(2))
  qed (simp only: e sublist_appendI)
qed simp

lemma includeRow_Inr:
  assumes "includeRow s rb md resource include baseArgs roots = Inr (obj, joins, b)" "parseIncludeTree include = Inr tree"
  shows "nodeCount tree \<le> 25" "prefix baseArgs (ibArgs b)"
    "reaches s resource tree d t \<Longrightarrow> int d \<le> md \<and> (\<exists>fl cond. rb t = (True, fl, cond) \<and>
       (\<forall>c. cond = Some c \<longrightarrow> wField c \<noteq> [] \<longrightarrow> scopes (joinsText joins) (ibArgs b) c))"
proof -
  let ?cfg = "\<lparr>icSchema = s, rbacFor = rb, maxDepth = md, rootFields = (if roots = Some [] then None else roots)\<rparr>"
  have row: "rowObject ?cfg ''_base'' resource tree 0 \<lparr>ibArgs = baseArgs, aliasN = 0, ibNodes = 0, baseRefs = []\<rparr> = Inr (obj, joins, b)"
    using assms by (simp add: includeRow_def)
  show "nodeCount tree \<le> 25" using include_counts [OF row] by (simp add: maxIncludeNodes_def)
  note pol = include_policy [OF row]
  then show "prefix baseArgs (ibArgs b)" by simp
  assume "reaches s resource tree d t"
  then have "int d \<le> md \<and> obeys ?cfg joins (ibArgs b) t" using pol by (simp add: belowOk_def)
  then show "int d \<le> md \<and> (\<exists>fl cond. rb t = (True, fl, cond) \<and>
      (\<forall>c. cond = Some c \<longrightarrow> wField c \<noteq> [] \<longrightarrow> scopes (joinsText joins) (ibArgs b) c))"
    using sublist_joinsText scopes_mono unfolding obeys_def by fastforce
qed


section \<open>The parameters of the whole statement\<close>

definition plainSchema :: "APISchema \<Rightarrow> bool" where
  "plainSchema s \<longleftrightarrow> refsPlain s \<and>
     (\<forall>r res. gm_get (asResources s) r = Some res \<longrightarrow> (\<forall>f. gm_has (Fields res) f \<longrightarrow> plainText f) \<and>
        (\<forall>k rel. gm_get (Relations res) k = Some rel \<longrightarrow> plainText k \<and> relPlain rel))"

lemma accepted_relation:
  assumes "Validate env s = []" "gm_get (asResources s) n = Some res" "gm_get (Relations res) k = Some rel"
  shows "plainText k \<and> relPlain rel"
proof -
  have errs: "relationErrors (''resources.'' @ n) res s k rel = []"
    using accepted_resource [OF assms(1,2)] gm_get_in [OF assms(3)] by (force simp: validateResource_def Let_def validateRelations_def)
  have "gm_has (asResources s) (relTarget rel)" "bareIdent k" "bareIdent (relFK rel)"
    "Through rel = [] \<or> throughNameRe (Through rel)" "TargetFK rel = [] \<or> bareIdent (TargetFK rel)"
    using errs by (auto simp: relationErrors_def fieldNameRe_def Let_def simp del: bareIdent.simps split: if_split_asm)
  moreover from this have "bareIdent (relTarget rel)" using accepted_resource_name(1) [OF assms(1)] by blast
  moreover have "throughNameRe t \<Longrightarrow> plainText t" for t
    by (cases t) (auto simp: throughNameRe_def plainText_def list_all_iff identStart_def identPart_def is_digit_def)
  ultimately show ?thesis using bareIdent_plain unfolding relPlain_def by (metis plainText_simps(1))
qed

lemma accepted_plainSchema:
  assumes "Validate env s = []"
  shows "plainSchema s"
proof -
  have "plainText (ReferencedColumn fd)" if fd: "gm_get (asResources s) n = Some res" "gm_get (Fields res) k = Some fd" for n res k fd
  proof (cases "References fd = [] \<or> References fd = ''id''")
    case False
    then obtain tres where "gm_get (asResources s) (Relation fd) = Some tres" "gm_has (Fields tres) (References fd)"
      using accepted_reference [OF assms fd] by metis
    then show ?thesis using False accepted_field_name(1) [OF assms] bareIdent_plain by (auto simp: ReferencedColumn_def simp del: bareIdent.simps)
  qed (auto simp: ReferencedColumn_def)
  then have "refsPlain s" unfolding refsPlain_def refColumnOf_def by (auto split: option.splits)
  then show ?thesis
    using accepted_field_name(1) [OF assms] accepted_relation [OF assms] bareIdent_plain unfolding plainSchema_def by blast
qed

text \<open>The joins refer to the parameters after the ones already bound, in order.\<close>

definition countsUp :: "includeBuilder \<Rightarrow> string list \<Rightarrow> includeBuilder \<Rightarrow> bool" where
  "countsUp b texts b' \<longleftrightarrow> length (ibArgs b) \<le> length (ibArgs b') \<and>
     concat (map dollars texts) = [length (ibArgs b) + 1..<length (ibArgs b') + 1] \<and>
     (list_all plainText (baseRefs b) \<longrightarrow> list_all plainText (baseRefs b'))"

lemma countsUp_trans: "countsUp a ts b \<Longrightarrow> countsUp b us c \<Longrightarrow> countsUp a (ts @ us) c"
  using upt_add_eq_append [of "length (ibArgs a) + 1" "length (ibArgs b) + 1" "length (ibArgs c) - length (ibArgs b)"]
  by (simp add: countsUp_def)

lemma countsUp_condition:
  assumes "embedCondition (''_c'' @ n) cond b = Inr (t, b')" "plainText n"
  shows "startsPlain t \<and> countsUp b [t] b'"
  using assms bareIdent_plain
  by (auto simp: embedCondition_def countsUp_def split: option.split_asm if_split_asm simp del: bareIdent.simps)

lemma countsUp_join:
  assumes "embedJoin cfg pa src rel n rowObj (if nested = [] then [] else '' '' @ join_with '' '' nested) rowCond b2 = Inr (join, b')"
    "plainText rowObj" "plainText pa" "plainText n" "relPlain rel" "refsPlain (icSchema cfg)"
    "countsUp b nested b1" "countsUp b1 [rowCond] b2" "startsPlain rowCond"
  shows "countsUp b [join] b'"
proof -
  obtain p q r where j: "join = p @ (if nested = [] then [] else '' '' @ join_with '' '' nested) @ ('' '' @ q) @ rowCond @ ('' '' @ r)"
    and pl: "plainText p" "plainText q" "plainText r" using embedJoin_shape [OF assms(1)] assms(2-6) by metis
  have "startsPlain (rowCond @ '' '' @ r)" using assms(9) by (cases rowCond) auto
  then have "dollars join = concat (map dollars nested) @ dollars rowCond"
    using pl unfolding j by (auto simp: dollars_append dollars_join)
  moreover have "list_all plainText (baseRefs b2) \<longrightarrow> list_all plainText (baseRefs b')"
    using assms(1,5,6) by (auto simp: embedJoin_def parentRef_def relPlain_def refsPlain_def Let_def split: if_split_asm)
  ultimately show ?thesis
    using countsUp_trans [OF assms(7,8)] embedJoin_builder(2) [OF assms(1)] by (simp add: countsUp_def)
qed

lemma plain_rowObject:
  assumes "plainSchema (icSchema cfg)" "gm_get (asResources (icSchema cfg)) r = Some res" "plainText al" "list_all plainText embeds"
  shows "plainText (''json_build_object('' @ join_with '', '' (idPair al # map (columnPair res al) (rowColumns cfg res r depth) @ embeds) @ '')'')"
proof -
  have "plainText (columnPair res al c)" if "c \<in> set (rowColumns cfg res r depth)" for c
  proof -
    have "gm_has (Fields res) c" using that by (auto simp: rowColumns_def gm_has_iff split: prod.split_asm)
    then show ?thesis using assms(1-3) unfolding plainSchema_def by (auto simp: columnPair_def)
  qed
  then show ?thesis using assms(3,4) by (auto simp: idPair_def list_all_iff intro!: plain_join)
qed

lemma include_numbered:
  assumes "plainSchema (icSchema cfg)" "rowObject cfg al r nd depth b = Inr (obj, joins, b')" "plainText al"
  shows "plainText obj \<and> countsUp b joins b'"
proof -
  have "plainText al \<longrightarrow> plainText obj \<and> countsUp b joins b'"
  proof (rule include_induct(1) [where cfg = cfg and
      P = "\<lambda>al r nd depth b obj joins b'. plainText al \<longrightarrow> plainText obj \<and> countsUp b joins b'" and
      Q = "\<lambda>al r res cs depth b embeds joins b'. gm_get (asResources (icSchema cfg)) r = Some res \<longrightarrow> plainText al \<longrightarrow>
             list_all plainText embeds \<and> countsUp b joins b'" and
      R = "\<lambda>pa src rel nd depth b join val b'. plainText pa \<longrightarrow> relPlain rel \<longrightarrow> plainText val \<and> countsUp b [join] b'",
      OF _ _ _ _ assms(2) refl])
    fix al r res k rel join val joins embeds and b b1 b' :: includeBuilder
    assume k: "gm_get (Relations res) k = Some rel" "plainText al \<longrightarrow> relPlain rel \<longrightarrow> plainText val \<and> countsUp b [join] b1"
      "gm_get (asResources (icSchema cfg)) r = Some res \<longrightarrow> plainText al \<longrightarrow> list_all plainText embeds \<and> countsUp b1 joins b'"
    show "gm_get (asResources (icSchema cfg)) r = Some res \<longrightarrow> plainText al \<longrightarrow>
        list_all plainText (([CHR 0x27] @ k @ [CHR 0x27] @ '', '' @ val) # embeds) \<and> countsUp b (join # joins) b'"
      using k assms(1) countsUp_trans [of b "[join]" b1 joins b'] unfolding plainSchema_def by auto
  next
    fix pa src rel n fl cond rowObj nested rowCond join and b b1 b2 b' :: includeBuilder
    assume n: "n = Itoa (int (aliasN b + 1))"
      and row: "plainText (''_c'' @ n) \<longrightarrow> plainText rowObj \<and> countsUp (entered b) nested b1"
      and c: "embedCondition (''_c'' @ n) cond b1 = Inr (rowCond, b2)"
      and j: "embedJoin cfg pa src rel n rowObj (if nested = [] then [] else '' '' @ join_with '' '' nested) rowCond b2 = Inr (join, b')"
    have pn: "plainText n" by (simp add: n)
    have "countsUp b nested b1" "plainText rowObj" using row pn by (auto simp: countsUp_def entered_def)
    then show "plainText pa \<longrightarrow> relPlain rel \<longrightarrow> plainText (''_r'' @ n @ ''.j'') \<and> countsUp b [join] b'"
      using countsUp_join [OF j] countsUp_condition [OF c pn] pn assms(1) by (simp add: plainSchema_def)
  qed (use plain_rowObject [OF assms(1)] in \<open>auto simp: countsUp_def\<close>)
  then show ?thesis using assms(3) by blast
qed

lemma projection_keeps_where:
  "searchableFields (qb\<lparr>qbFields := c\<rparr>) = searchableFields qb"
  "appendConditions (qb\<lparr>qbFields := c\<rparr>) st = appendConditions qb st"
  "cursorState (qb\<lparr>qbFields := c\<rparr>) = cursorState qb" "UsesCursor (qb\<lparr>qbFields := c\<rparr>) = UsesCursor qb"
proof -
  show se: "searchableFields (qb\<lparr>qbFields := c\<rparr>) = searchableFields qb" by (simp add: searchableFields_def)
  have "appendSearch (qb\<lparr>qbFields := c\<rparr>) st = appendSearch qb st" "appendRowScope (qb\<lparr>qbFields := c\<rparr>) st = appendRowScope qb st" for st
    by (simp_all add: appendSearch_def appendRowScope_def se Let_def split: prod.split)
  then show "appendConditions (qb\<lparr>qbFields := c\<rparr>) st = appendConditions qb st" by (simp add: appendConditions_def)
qed (simp_all add: cursorState_def UsesCursor_def)

lemma SQLProjected_args: "snd (SQLProjected qb cols) = snd (SQLProjected qb None)"
  by (simp add: SQLProjected_def SQL_def buildWhere_def projection_keeps_where Let_def split: prod.splits)

lemma SQLProjected_numbered:
  assumes "list_all plainText (queryColumns qb)" "\<And>c. qbCondition qb = Some c \<Longrightarrow> plainText (wField c)" "plainText (qbResource qb)"
    "plainText (sortOrder qb)" "list_all (\<lambda>f. fcOp f \<noteq> ''range_contains'') (qbFilters qb)" "\<And>cs. cols = Some cs \<Longrightarrow> list_all plainText cs"
  shows "dollars (fst (SQLProjected qb cols)) = [1..<length (snd (SQLProjected qb None)) + 1]"
proof -
  let ?q = "qb\<lparr>qbFields := cols\<rparr>"
  obtain sel cnt sargs cargs where sql: "SQL ?q = (sel, cnt, sargs, cargs)" by (cases "SQL ?q") auto
  have "list_all plainText (queryColumns ?q)"
    using assms(1,6) by (auto simp: queryColumns_def searchableFields_def split: option.splits)
  from SQL_numbered(1) [OF this _ _ _ _ sql] assms(2-5) have "dollars sel = [1..<length sargs + 1]" by simp
  moreover have "SQLProjected qb cols = (sel, sargs)" by (simp add: SQLProjected_def sql)
  ultimately show ?thesis using SQLProjected_args [of qb cols] by simp
qed

lemma plain_baseColumns:
  assumes "list_all plainText (baseRefs b)" "plainText orderField" "\<And>fs. roots = Some fs \<Longrightarrow> list_all plainText fs" "baseColumns roots orderField b = Some cols"
  shows "list_all plainText cols"
  using assms by (auto simp: baseColumns_def list_all_iff Let_def split: option.split_asm if_split_asm)

lemma dollars_joinsText: "dollars (joinsText joins @ '')'' @ t) = concat (map dollars joins) @ dollars ('')'' @ t)"
proof (induction joins)
  case (Cons j joins)
  have "startsPlain (joinsText joins @ '')'' @ t)" by (cases joins) (auto simp: joinsText_def)
  then show ?case using Cons by (simp add: joinsText_def dollars_append)
qed (simp add: joinsText_def)


section \<open>An example\<close>

definition exLinkedOrders :: ResourceSchema where
  "exLinkedOrders = exShopOrders\<lparr>Relations := [(''buyer'',
     \<lparr>relType = ''belongs_to'', relTarget = ''people'', relFK = ''buyer_id'', Through = [], TargetFK = [], relLimit = 0\<rparr>)]\<rparr>"

definition exLinked :: APISchema where
  "exLinked = exShop\<lparr>asResources := [(''orders'', exLinkedOrders), (''people'', zeroResource [(''name'', zeroField ''string'')])]\<rparr>"

definition exSelf :: WhereCondition where
  "exSelf = \<lparr>wField = ''name'', wOp = ''eq'', wValue = ''ann'', Identity = True\<rparr>"

definition exAccess :: RelationRBAC where
  "exAccess r = (True, [], if r = ''people'' then Some exSelf else None)"

definition exLinkedQuery :: QueryBuilder where
  "exLinkedQuery = (newQuery ''orders'' exLinkedOrders (Some exOwnRows) [])\<lparr>qbFields := Some [''id'', ''status'']\<rparr>"

definition exIncluded :: "string \<times> sqlArg list" where
  "exIncluded =
     (case BuildListIncludeFields ''orders'' ''buyer'' (SQLProjected exLinkedQuery) (Some [''id'', ''status'']) ''id'' ''ASC'' exLinked 3 exAccess of
        Inr r \<Rightarrow> r | Inl _ \<Rightarrow> ([], []))"

lemma exLinked_accepted: "Validate exChecks exLinked = []"
  by code_simp

lemma exLinked_build: "BuildQuery exLib ''orders'' exLinkedOrders [(''fields'', [''status''])] (Some exOwnRows) [] = Inr exLinkedQuery"
  by code_simp

lemma exIncluded_built:
  "BuildListIncludeFields ''orders'' ''buyer'' (SQLProjected exLinkedQuery) (qbFields exLinkedQuery) (fst (EffectiveOrder exLinkedQuery))
     (snd (EffectiveOrder exLinkedQuery)) exLinked 3 exAccess = Inr (fst exIncluded, snd exIncluded)"
  by code_simp

lemma exIncluded_args: "snd exIncluded = [strArg ''u1'', Arg (GInt 20), Arg (GInt 0), strArg ''ann'']"
  by code_simp



end
