(* ===== verification/ReadPath.thy ===== *)
theory ReadPath
  imports WritePath QueryAggregate QueryInclude
begin

text \<open>
  The read handlers of \<open>pkg/codegen/builder.go\<close>: list, aggregate and get-by-id, with \<open>QueryDirect\<close> and the include
  readers of \<open>pkg/db/tenant.go\<close>.  Headers, entity tags, tracing and timings are left out.
\<close>

section \<open>Qualified reads\<close>

text \<open>\<open>qualifyTableNames\<close>: the regular expression \<open>(?i)(FROM|JOIN)\s+(?:"t"|t\b)\<close> on ASCII, every match replaced.\<close>

definition isWordChar :: "char \<Rightarrow> bool" where
  "isWordChar c \<longleftrightarrow> identPart (lower_char c)"

definition wordBoundary :: "string \<Rightarrow> string \<Rightarrow> bool" where
  "wordBoundary before after \<longleftrightarrow> (before \<noteq> [] \<and> isWordChar (last before)) \<noteq> (after \<noteq> [] \<and> isWordChar (hd after))"

definition reSpace :: "char \<Rightarrow> bool" where
  "reSpace c \<longleftrightarrow> c \<in> set [CHR '' '', CHR 0x09, CHR 0x0A, CHR 0x0C, CHR 0x0D]"

definition tableRef :: "string \<Rightarrow> string \<Rightarrow> (string \<times> string) option" where
  "tableRef table s =
     (let kw = take 4 s; rest = drop 4 s; t = dropWhile reSpace rest; quoted = quoteIdent table; n = length table
      in if \<not> (ToLower kw = ''from'' \<or> ToLower kw = ''join'') \<or> \<not> (rest \<noteq> [] \<and> reSpace (hd rest)) then None
         else if ToLower (take (n + 2) t) = ToLower quoted then Some (kw, drop (n + 2) t)
         else if ToLower (take n t) = ToLower table \<and> wordBoundary (take n t) (drop n t) then Some (kw, drop n t)
         else None)"

lemma tableRef_shorter: "tableRef table s = Some (kw, rest) \<Longrightarrow> length rest < length s"
proof -
  assume "tableRef table s = Some (kw, rest)"
  then obtain n where "rest = drop n (dropWhile reSpace (drop 4 s))" "drop 4 s \<noteq> []"
    by (auto simp: tableRef_def Let_def split: if_split_asm)
  then show ?thesis using length_dropWhile_le [of reSpace "drop 4 s"] by (cases s) auto
qed

function qualifyFrom :: "string \<Rightarrow> string \<Rightarrow> string \<Rightarrow> string" where
  "qualifyFrom qualified table s =
     (case s of
        [] \<Rightarrow> []
      | c # cs \<Rightarrow>
          (case tableRef table s of
             Some (kw, rest) \<Rightarrow> kw @ '' '' @ qualified @ qualifyFrom qualified table rest
           | None \<Rightarrow> c # qualifyFrom qualified table cs))"
  by pat_completeness auto

termination by (relation "measure (\<lambda>(_, _, s). length s)") (auto dest: tableRef_shorter)

declare qualifyFrom.simps [simp del]

definition qualifyTableNames :: "'w TenantPool \<Rightarrow> string \<Rightarrow> string \<Rightarrow> string \<Rightarrow> string" where
  "qualifyTableNames P query schema table = qualifyFrom (pIdent P schema @ ''.'' @ pIdent P table) table query"

definition validateTableName :: "string \<Rightarrow> goError option" where
  "validateTableName name =
     (if (case name of [] \<Rightarrow> False | c # cs \<Rightarrow> identStart c \<and> list_all (\<lambda>x. identPart x \<or> x = CHR ''-'') cs) then None
      else Some (PlainError (''invalid table name '' @ goq name @ '': must match ^[a-z][a-z0-9_-]*$'')))"

text \<open>What the read handlers use: the pool with a connection acquired from it, the library functions, the policy and the
  schema of the boot, and the surface a tenant has deployed since.\<close>

record 'w ReadEnv =
  rePool :: "'w TenantPool"
  Acquire :: "'w call"
  ReleaseConn :: "'w \<Rightarrow> 'w"
  reLib :: FilterLib
  rePolicy :: Policy
  reSchema :: APISchema
  Surface :: "string \<Rightarrow> string \<Rightarrow> ResourceSchema option"

definition QueryDirect :: "'w ReadEnv \<Rightarrow> string \<Rightarrow> string \<Rightarrow> string \<Rightarrow> sqlArg list \<Rightarrow> 'w \<Rightarrow> (goError + row list) \<times> 'w" where
  "QueryDirect E pgSchema tableName query args w =
     (let P = rePool E
      in case validateSchemaName pgSchema of
           Some err \<Rightarrow> (Inl err, w)
         | None \<Rightarrow>
             (case validateTableName tableName of
                Some err \<Rightarrow> (Inl err, w)
              | None \<Rightarrow>
                  (case breakerExec plainErrors P (\<lambda>w. case Acquire E w of
                            (Some err, w1) \<Rightarrow> (Inl (WrapError ''acquire conn: '' err), w1)
                          | (None, w1) \<Rightarrow>
                              (case pQuery P (qualifyTableNames P query pgSchema tableName) args w1 of
                                 (Inl err, w2) \<Rightarrow> (Inl (WrapError ''query: '' err), ReleaseConn E w2)
                               | (Inr rows, w2) \<Rightarrow> (Inr rows, ReleaseConn E w2))) w of
                     (Inl err, w1) \<Rightarrow> (Inl (classifyAs plainErrors P err), w1)
                   | (Inr rows, w1) \<Rightarrow> (Inr rows, w1))))"

definition scanScalar :: "row list \<Rightarrow> goError + int" where
  "scanScalar rows =
     (case rows of
        [] \<Rightarrow> Inr 0
      | r # _ \<Rightarrow> (case r of (_, GInt n) # _ \<Rightarrow> Inr n | _ \<Rightarrow> Inl (WrapError ''scan scalar: '' (PlainError ''cannot scan''))))"

definition QueryScalarDirect :: "'w ReadEnv \<Rightarrow> string \<Rightarrow> string \<Rightarrow> string \<Rightarrow> sqlArg list \<Rightarrow> 'w \<Rightarrow> (goError + int) \<times> 'w" where
  "QueryScalarDirect E pgSchema tableName query args w =
     (case QueryDirect E pgSchema tableName query args w of
        (Inl err, w1) \<Rightarrow> (Inl err, w1)
      | (Inr rows, w1) \<Rightarrow> (scanScalar rows, w1))"

definition scanInclude :: "row list \<Rightarrow> goError + string \<times> int" where
  "scanInclude rows =
     (case rows of
        [] \<Rightarrow> Inr ([], 0)
      | r # _ \<Rightarrow>
          (case (gm_get r ''data'', gm_get r ''n'') of
             (Some (GStr data), Some (GInt n)) \<Rightarrow> Inr (data, n)
           | _ \<Rightarrow> Inl (WrapError ''scan include list: '' (PlainError ''cannot scan''))))"

definition IncludeListJSON :: "'w ReadEnv \<Rightarrow> string \<Rightarrow> string \<Rightarrow> sqlArg list \<Rightarrow> 'w \<Rightarrow> (goError + string \<times> int) \<times> 'w" where
  "IncludeListJSON E pgSchema query args w =
     (case readTenant (rePool E) pgSchema query args w of
        (Inl err, w1) \<Rightarrow> (Inl err, w1)
      | (Inr rows, w1) \<Rightarrow> (scanInclude rows, w1))"

definition scanOne :: "row list \<Rightarrow> goError + string option" where
  "scanOne rows =
     (case rows of
        [] \<Rightarrow> Inr None
      | r # _ \<Rightarrow> (case gm_get r ''data'' of
                    Some (GStr data) \<Rightarrow> Inr (Some data)
                  | _ \<Rightarrow> Inl (WrapError ''scan include row: '' (PlainError ''cannot scan''))))"

definition IncludeOneJSON :: "'w ReadEnv \<Rightarrow> string \<Rightarrow> string \<Rightarrow> sqlArg list \<Rightarrow> 'w \<Rightarrow> (goError + string option) \<times> 'w" where
  "IncludeOneJSON E pgSchema query args w =
     (case readTenant (rePool E) pgSchema query args w of
        (Inl err, w1) \<Rightarrow> (Inl err, w1)
      | (Inr rows, w1) \<Rightarrow> (scanOne rows, w1))"

section \<open>Replies\<close>

record listMeta =
  mPerPage :: int
  HasNext :: bool
  mPage :: "(int \<times> bool) option"
  mTotal :: "(int \<times> int) option"

text \<open>\<open>listMeta\<close> of the code: the page with \<open>has_prev\<close> unless a cursor is used, the totals when they were asked for.\<close>

definition listMetaOf :: "QueryBuilder \<Rightarrow> int \<Rightarrow> (int \<times> int) option \<Rightarrow> listMeta" where
  "listMetaOf qb n tot =
     \<lparr>mPerPage = qbPerPage qb, HasNext = (n = qbPerPage qb),
      mPage = (if UsesCursor qb then None else Some (qbPage qb, qbPage qb > 1)), mTotal = tot\<rparr>"

datatype readReply =
  QueryRefused int QueryError | CountWithCursor | EmptyInclude | BadRecordId | RecordNotFound
| IncludeRefused IncludeError | ReadFailed goError
| ListReply "row list" listMeta | IncludeReply string listMeta | AggReply "goany gomap" | RecordReply row | RecordJSON string

record readReq =
  rdReq :: writeReq
  rdParams :: url_values

definition readSurface :: "'w ReadEnv \<Rightarrow> string \<Rightarrow> string \<Rightarrow> ResourceSchema \<Rightarrow> ResourceSchema" where
  "readSurface E tenantID resource bootRes =
     (case Surface E tenantID resource of Some ws \<Rightarrow> ws | None \<Rightarrow> bootRes)"

definition makeRelationRBAC :: "Policy \<Rightarrow> EvalContext \<Rightarrow> RelationRBAC" where
  "makeRelationRBAC pol ev resource =
     (let r = Evaluate pol ev resource ''read'' in (Allowed r, AllowedFields r, evCondition r))"

definition DefaultMaxIncludeDepth :: int where
  "DefaultMaxIncludeDepth = 2"

definition listStatus :: "QueryError \<Rightarrow> int" where
  "listStatus err = (case err of ErrForbiddenField _ \<Rightarrow> 403 | _ \<Rightarrow> 400)"

definition aggStatus :: "QueryError \<Rightarrow> int" where
  "aggStatus err = (case err of ErrAggForbiddenField _ \<Rightarrow> 403 | _ \<Rightarrow> 400)"

section \<open>List\<close>

definition totalPages :: "int \<Rightarrow> int \<Rightarrow> int" where
  "totalPages t per = (let tp = (t + per - 1) div per in if tp = 0 then 1 else tp)"

text \<open>\<open>runCount\<close>, then the reply that needs its result.\<close>

definition runCount ::
  "'w ReadEnv \<Rightarrow> string \<Rightarrow> string \<Rightarrow> QueryBuilder \<Rightarrow> bool \<Rightarrow> ((int \<times> int) option \<Rightarrow> readReply) \<Rightarrow> 'w \<Rightarrow> readReply \<times> 'w" where
  "runCount E pgSchema name qb wantCount answer w =
     (if \<not> wantCount then (answer None, w)
      else let (_, countQ, _, countArgs) = SQL qb
           in case QueryScalarDirect E pgSchema name countQ countArgs w of
                (Inl err, w1) \<Rightarrow> (ReadFailed err, w1)
              | (Inr t, w1) \<Rightarrow> (answer (Some (t, totalPages t (qbPerPage qb))), w1))"

definition listIncluded :: "'w ReadEnv \<Rightarrow> string \<Rightarrow> readReq \<Rightarrow> QueryBuilder \<Rightarrow> bool \<Rightarrow> string \<Rightarrow> 'w \<Rightarrow> readReply \<times> 'w" where
  "listIncluded E name rq qb wantCount include w =
     (let (orderField, orderDir) = EffectiveOrder qb; pgSchema = rqSchema (rdReq rq)
      in case BuildListIncludeFields name include (SQLProjected qb) (qbFields qb) orderField orderDir (reSchema E)
                DefaultMaxIncludeDepth (makeRelationRBAC (rePolicy E) (rqCtx (rdReq rq))) of
           Inl err \<Rightarrow> (IncludeRefused err, w)
         | Inr (incSQL, incArgs) \<Rightarrow>
             (case IncludeListJSON E pgSchema incSQL incArgs w of
                (Inl err, w1) \<Rightarrow> (ReadFailed err, w1)
              | (Inr (data, n), w1) \<Rightarrow>
                  runCount E pgSchema name qb wantCount
                    (\<lambda>tot. IncludeReply (if data = [] then ''[]'' else data) (listMetaOf qb n tot)) w1))"

definition shownRow :: "'w ReadEnv \<Rightarrow> ResourceSchema \<Rightarrow> string list \<Rightarrow> row \<Rightarrow> row" where
  "shownRow E res allowed r = FilterFields (PromoteJSONText (flStd (reLib E)) (JSONTextColumns res) r) allowed"

definition listPlain :: "'w ReadEnv \<Rightarrow> string \<Rightarrow> ResourceSchema \<Rightarrow> readReq \<Rightarrow> QueryBuilder \<Rightarrow> bool \<Rightarrow> 'w \<Rightarrow> readReply \<times> 'w" where
  "listPlain E name res rq qb wantCount w =
     (let (selectQ, _, selectArgs, _) = SQL qb; pgSchema = rqSchema (rdReq rq)
      in case QueryDirect E pgSchema name selectQ selectArgs w of
           (Inl err, w1) \<Rightarrow> (ReadFailed err, w1)
         | (Inr rows, w1) \<Rightarrow>
             (let data = map (shownRow E res (allowedOf (rdReq rq))) rows
              in runCount E pgSchema name qb wantCount (\<lambda>tot. ListReply data (listMetaOf qb (int (length data)) tot)) w1))"

definition listHandler :: "'w ReadEnv \<Rightarrow> string \<Rightarrow> ResourceSchema \<Rightarrow> readReq \<Rightarrow> 'w \<Rightarrow> readReply \<times> 'w" where
  "listHandler E name res rq w =
     (let r = rdReq rq; params = rdParams rq
      in case BuildQuery (reLib E) name (readSurface E (rqTenant r) name res) params (condOf r) (allowedOf r) of
           Inl err \<Rightarrow> (QueryRefused (listStatus err) err, w)
         | Inr qb \<Rightarrow>
             (case ParseCountFlag params of
                Inl err \<Rightarrow> (QueryRefused 400 err, w)
              | Inr wantCount \<Rightarrow>
                  if wantCount \<and> UsesCursor qb then (CountWithCursor, w)
                  else case singleValue params ''include'' of
                         Inl err \<Rightarrow> (QueryRefused 400 err, w)
                       | Inr v \<Rightarrow>
                           (case v of
                              None \<Rightarrow> listPlain E name res rq qb wantCount w
                            | Some include \<Rightarrow>
                                if \<not> HasInclude include then (EmptyInclude, w)
                                else listIncluded E name rq qb wantCount include w)))"

section \<open>Aggregate\<close>

definition recValue :: "row \<Rightarrow> string \<Rightarrow> goany" where
  "recValue rec k = (case gm_get rec k of Some v \<Rightarrow> v | None \<Rightarrow> GNil)"

definition addMetric :: "row \<Rightarrow> goany gomap \<Rightarrow> AggMetric \<Rightarrow> goany gomap" where
  "addMetric rec out m =
     (let sub = (case gm_get out (Fn m) of Some (GObj o') \<Rightarrow> o' | _ \<Rightarrow> [])
      in gm_put (Fn m) (GObj (gm_put (amField m) (recValue rec (Alias m)) sub)) out)"

definition metricsOf :: "AggregateQuery \<Rightarrow> row \<Rightarrow> goany gomap" where
  "metricsOf aq rec =
     foldl (addMetric rec) (if aqCount aq then [(''count'', recValue rec CountAlias)] else []) (Metrics aq)"

definition groupOf :: "AggregateQuery \<Rightarrow> row \<Rightarrow> goany gomap" where
  "groupOf aq rec = foldl (\<lambda>g gb. gm_put gb (recValue rec gb) g) (metricsOf aq rec) (GroupBy aq)"

definition aggregateResponse :: "AggregateQuery \<Rightarrow> row list \<Rightarrow> goany gomap" where
  "aggregateResponse aq recs =
     (if GroupBy aq = [] then metricsOf aq (case recs of [] \<Rightarrow> [] | r # _ \<Rightarrow> r)
      else [(''groups'', GArr (map (\<lambda>rec. GObj (groupOf aq rec)) recs))])"

definition aggregateHandler :: "'w ReadEnv \<Rightarrow> string \<Rightarrow> ResourceSchema \<Rightarrow> readReq \<Rightarrow> 'w \<Rightarrow> readReply \<times> 'w" where
  "aggregateHandler E name res rq w =
     (let r = rdReq rq
      in case BuildAggregate (reLib E) name (readSurface E (rqTenant r) name res) (rdParams rq) (condOf r) (allowedOf r) of
           Inl err \<Rightarrow> (QueryRefused (aggStatus err) err, w)
         | Inr aq \<Rightarrow>
             (let (sql, args) = aggSQL aq
              in case QueryDirect E (rqSchema r) name sql args w of
                   (Inl err, w1) \<Rightarrow> (ReadFailed err, w1)
                 | (Inr recs, w1) \<Rightarrow> (AggReply (aggregateResponse aq recs), w1)))"

section \<open>Get by id\<close>

definition applyRowCondition :: "string \<Rightarrow> sqlArg list \<Rightarrow> WhereCondition option \<Rightarrow> (string \<times> sqlArg list) \<times> bool" where
  "applyRowCondition query args cond =
     (case cond of
        None \<Rightarrow> ((query, args), True)
      | Some c \<Rightarrow>
          if \<not> bareIdent (wField c) then ((query, args), False)
          else ((query @ '' AND '' @ wField c @ '' = '' @ placeholder (length args + 1), args @ [strArg (wValue c)]), True))"

text \<open>\<open>baseFor\<close> of the handler: the statement of one row for a column list.\<close>

definition recordSelect :: "'w ReadEnv \<Rightarrow> string \<Rightarrow> writeReq \<Rightarrow> string list option \<Rightarrow> string \<times> sqlArg list" where
  "recordSelect E name r cols =
     fst (applyRowCondition (''SELECT '' @ SelectList cols @ '' FROM '' @ pIdent (rePool E) name @ '' WHERE id = $1'') [strArg (rqId r)] (condOf r))"

definition getIncluded :: "'w ReadEnv \<Rightarrow> string \<Rightarrow> writeReq \<Rightarrow> string list option \<Rightarrow> string \<Rightarrow> 'w \<Rightarrow> readReply \<times> 'w" where
  "getIncluded E name r fs include w =
     (case BuildGetIncludeFields name include (recordSelect E name r) fs (reSchema E) DefaultMaxIncludeDepth
             (makeRelationRBAC (rePolicy E) (rqCtx r)) of
        Inl err \<Rightarrow> (IncludeRefused err, w)
      | Inr (incSQL, incArgs) \<Rightarrow>
          (case IncludeOneJSON E (rqSchema r) incSQL incArgs w of
             (Inl err, w1) \<Rightarrow> (ReadFailed err, w1)
           | (Inr None, w1) \<Rightarrow> (RecordNotFound, w1)
           | (Inr (Some data), w1) \<Rightarrow> (RecordJSON data, w1)))"

definition getPlain :: "'w ReadEnv \<Rightarrow> string \<Rightarrow> ResourceSchema \<Rightarrow> writeReq \<Rightarrow> string list option \<Rightarrow> 'w \<Rightarrow> readReply \<times> 'w" where
  "getPlain E name res r fs w =
     (let (q, args) = recordSelect E name r fs
      in case readTenant (rePool E) (rqSchema r) q args w of
           (Inl err, w1) \<Rightarrow> (ReadFailed err, w1)
         | (Inr [], w1) \<Rightarrow> (RecordNotFound, w1)
         | (Inr (rec # _), w1) \<Rightarrow> (RecordReply (shownRow E res (allowedOf r) rec), w1))"

definition getHandler :: "'w ReadEnv \<Rightarrow> string \<Rightarrow> ResourceSchema \<Rightarrow> readReq \<Rightarrow> 'w \<Rightarrow> readReply \<times> 'w" where
  "getHandler E name res rq w =
     (let r = rdReq rq; params = rdParams rq
      in if \<not> uuidOk (flStd (reLib E)) (rqId r) then (BadRecordId, w)
         else case RejectListParams params False of
                Inl err \<Rightarrow> (QueryRefused 400 err, w)
              | Inr _ \<Rightarrow>
                  (case ParseFields (readSurface E (rqTenant r) name res) params (allowedOf r) of
                     Inl err \<Rightarrow> (QueryRefused (listStatus err) err, w)
                   | Inr fs \<Rightarrow>
                       if \<not> snd (applyRowCondition [] [] (condOf r)) then (ReadFailed (PlainError ''invalid rbac condition field''), w)
                       else case singleValue params ''include'' of
                              Inl err \<Rightarrow> (QueryRefused 400 err, w)
                            | Inr None \<Rightarrow> getPlain E name res r fs w
                            | Inr (Some include) \<Rightarrow>
                                if \<not> HasInclude include then (EmptyInclude, w) else getIncluded E name r fs include w))"

end
