(* ===== verification/ReadFacts.thy ===== *)
theory ReadFacts
  imports ReadPath QueryFacts
begin

text \<open>
  What the read handlers answer: the rows of a list and the row of a record come from the statement the query builder made
  for the caller, with the caller's row condition in it, and show the caller's fields; a refused request asks the database
  nothing.
\<close>

section \<open>What a reply shows\<close>

lemma shownRow_fields: "allowed \<noteq> [] \<Longrightarrow> (k, v) \<in> set (shownRow E res allowed r) \<Longrightarrow> k \<in> set allowed"
  by (auto simp: shownRow_def FilterFields_def split: option.splits)

lemma runCount_reply:
  assumes "runCount E pgSchema name qb wantCount answer w = (reply, w')"
  shows "(\<exists>err. reply = ReadFailed err) \<or> (\<exists>tot. reply = answer tot \<and> (wantCount \<longleftrightarrow> tot \<noteq> None))"
  using assms by (auto simp: runCount_def split: if_splits prod.splits sum.splits)

lemma runCount_total:
  assumes "runCount E pgSchema name qb wantCount answer w = (reply, w')" "wantCount" "\<nexists>err. reply = ReadFailed err"
    "SQL qb = (sq, cq, sa, ca)"
  shows "\<exists>t. QueryScalarDirect E pgSchema name cq ca w = (Inr t, w') \<and> reply = answer (Some (t, totalPages t (qbPerPage qb)))"
  using assms by (auto simp: runCount_def split: if_splits prod.splits sum.splits)

lemma listIncluded_not_plain [simp]: "listIncluded E name rq qb wc inc w \<noteq> (ListReply rows meta, w')"
  by (auto simp: listIncluded_def Let_def split: prod.splits sum.splits dest: runCount_reply)

lemma listHandler_reply:
  assumes "listHandler E name res rq w = (ListReply rows meta, w')"
  obtains qb wantCount where
    "BuildQuery (reLib E) name (readSurface E (rqTenant (rdReq rq)) name res) (rdParams rq) (condOf (rdReq rq)) (allowedOf (rdReq rq)) = Inr qb"
    "ParseCountFlag (rdParams rq) = Inr wantCount" "\<not> (wantCount \<and> UsesCursor qb)"
    "listPlain E name res rq qb wantCount w = (ListReply rows meta, w')"
  using assms unfolding listHandler_def Let_def
  by (auto split: sum.splits option.splits if_splits)

lemma listPlain_reply:
  assumes "listPlain E name res rq qb wantCount w = (ListReply rows meta, w')" "SQL qb = (sq, cq, sa, ca)"
  obtains raw w1 where "QueryDirect E (rqSchema (rdReq rq)) name sq sa w = (Inr raw, w1)"
    "rows = map (shownRow E res (allowedOf (rdReq rq))) raw" "HasNext meta \<longleftrightarrow> int (length raw) = qbPerPage qb"
    "mTotal meta = None \<longleftrightarrow> \<not> wantCount"
proof -
  obtain raw w1 where q: "QueryDirect E (rqSchema (rdReq rq)) name sq sa w = (Inr raw, w1)"
    and c: "runCount E (rqSchema (rdReq rq)) name qb wantCount
      (\<lambda>tot. ListReply (map (shownRow E res (allowedOf (rdReq rq))) raw) (listMetaOf qb (int (length raw)) tot)) w1 = (ListReply rows meta, w')"
    using assms by (auto simp: listPlain_def Let_def split: prod.splits sum.splits)
  show thesis using runCount_reply [OF c] q by (intro that [OF q]) (auto simp: listMetaOf_def)
qed

section \<open>Qualification\<close>

text \<open>The reference the builder writes is qualified with the schema, and what precedes it without naming a table is kept.\<close>

lemma ToLower_length [simp]: "length (ToLower s) = length s"
  by (simp add: ToLower_def)

lemma tableRef_quoted: "tableRef t (''FROM '' @ quoteIdent t @ rest) = Some (''FROM'', rest)"
proof -
  have "ToLower ''FROM'' = ''from''" by code_simp
  then show ?thesis by (simp add: tableRef_def Let_def quoteIdent_def reSpace_def)
qed

lemma qualifyFrom_reference: "qualifyFrom q t (''FROM '' @ quoteIdent t @ rest) = ''FROM '' @ q @ qualifyFrom q t rest"
  using tableRef_quoted [of t rest] by (subst qualifyFrom.simps) simp

lemma qualifyFrom_skip:
  "(\<And>u v. pre = u @ v \<Longrightarrow> v \<noteq> [] \<Longrightarrow> tableRef t (v @ rest) = None) \<Longrightarrow> qualifyFrom q t (pre @ rest) = pre @ qualifyFrom q t rest"
proof (induction pre)
  case (Cons c cs)
  have "tableRef t ((c # cs) @ rest) = None" by (rule Cons(2) [of "[]"]) simp_all
  moreover have "qualifyFrom q t (cs @ rest) = cs @ qualifyFrom q t rest" by (rule Cons(1)) (metis Cons(2) Cons_eq_appendI)
  ultimately show ?case by (subst append_Cons, subst qualifyFrom.simps) simp
qed simp

section \<open>Properties\<close>

text \<open>The WHERE of the SELECT has the condition as a conjunct, and the parameter it names is bound to the condition's value.\<close>

definition carriesCondition :: "string \<Rightarrow> QueryBuilder \<Rightarrow> string \<Rightarrow> sqlArg list \<Rightarrow> WhereCondition \<Rightarrow> bool" where
  "carriesCondition name qb sq sa c \<longleftrightarrow>
     (\<exists>parts rest. sq = ''SELECT '' @ SelectList (qbFields qb) @ '' FROM '' @ quoteIdent name @ '' WHERE '' @ join_with '' AND '' parts @ rest
        \<and> wField c @ '' = '' @ placeholder (cursorArgs qb + 1) \<in> set parts
        \<and> cursorArgs qb < length sa \<and> sa ! cursorArgs qb = strArg (wValue c))"

lemma SQL_args: "SQL qb = (sq, cq, sa, ca) \<Longrightarrow> length ca \<le> length sa"
  by (auto simp: SQL_def Let_def split: if_splits prod.splits)

lemma built_select_carries_condition:
  assumes "BuildQuery L name res params (Some c) allowed = Inr qb" "SQL qb = (sq, cq, sa, ca)"
  shows "carriesCondition name qb sq sa c"
  using statements_row_scoped [OF assms] SQL_args [OF assms(2)] order.strict_trans2 unfolding carriesCondition_def by blast


lemma QueryDirect_answer:
  assumes "QueryDirect E s t q args w = (Inr rows, w')"
  shows "bareIdent s" "\<exists>w1 w2. pQuery (rePool E) (qualifyTableNames (rePool E) q s t) args w1 = (Inr rows, w2)"
  using assms by (auto simp: QueryDirect_def Let_def breakerExec_def validateSchemaName_def
      split: option.splits prod.splits sum.splits if_splits)

text \<open>C18: The row of a record reply is the first one the database has for the id of the request and, under a row condition, for
  the caller's value of its column, both bound as parameters; it is cut to the caller's fields.  A condition on a column that
  is no identifier is refused before anything is asked.\<close>

theorem get_reply_is_scoped:
  assumes "getHandler E name res rq w = (RecordReply shown, w')" and "r = rdReq rq"
  shows "(\<exists>fs raw more. ParseFields (readSurface E (rqTenant r) name res) (rdParams rq) (allowedOf r) = Inr fs
      \<and> shown = shownRow E res (allowedOf r) raw
      \<and> (let base = ''SELECT '' @ SelectList fs @ '' FROM '' @ pIdent (rePool E) name @ '' WHERE id = $1''
         in case condOf r of
              None \<Rightarrow> readTenant (rePool E) (rqSchema r) base [strArg (rqId r)] w = (Inr (raw # more), w')
            | Some c \<Rightarrow> bareIdent (wField c) \<and>
                readTenant (rePool E) (rqSchema r) (base @ '' AND '' @ wField c @ '' = $2'') [strArg (rqId r), strArg (wValue c)] w
                  = (Inr (raw # more), w')))
    \<and> (allowedOf r \<noteq> [] \<longrightarrow> (\<forall>(k, v) \<in> set shown. k \<in> set (allowedOf r)))
    \<and> uuidOk (flStd (reLib E)) (rqId r)"
proof (intro conjI)
  obtain fs where fs: "ParseFields (readSurface E (rqTenant r) name res) (rdParams rq) (allowedOf r) = Inr fs"
    and ok: "snd (applyRowCondition [] [] (condOf r))" "uuidOk (flStd (reLib E)) (rqId r)"
    and plain: "getPlain E name res r fs w = (RecordReply shown, w')"
    using assms by (auto simp: getHandler_def getIncluded_def Let_def split: if_splits sum.splits option.splits prod.splits)
  obtain raw more where raw: "shown = shownRow E res (allowedOf r) raw"
    "readTenant (rePool E) (rqSchema r) (fst (recordSelect E name r fs)) (snd (recordSelect E name r fs)) w = (Inr (raw # more), w')"
    using plain by (auto simp: getPlain_def split: prod.splits sum.splits list.splits)
  have two: "placeholder (Suc (Suc 0)) = ''$2''" by code_simp
  show "\<exists>fs raw more. ParseFields (readSurface E (rqTenant r) name res) (rdParams rq) (allowedOf r) = Inr fs
    \<and> shown = shownRow E res (allowedOf r) raw
    \<and> (let base = ''SELECT '' @ SelectList fs @ '' FROM '' @ pIdent (rePool E) name @ '' WHERE id = $1''
       in case condOf r of
            None \<Rightarrow> readTenant (rePool E) (rqSchema r) base [strArg (rqId r)] w = (Inr (raw # more), w')
          | Some c \<Rightarrow> bareIdent (wField c) \<and>
              readTenant (rePool E) (rqSchema r) (base @ '' AND '' @ wField c @ '' = $2'') [strArg (rqId r), strArg (wValue c)] w
                = (Inr (raw # more), w'))"
    using fs raw ok(1) by (intro exI [of _ fs] exI [of _ raw] exI [of _ more])
      (auto simp: Let_def recordSelect_def applyRowCondition_def two split: option.splits if_splits)
  show "allowedOf r \<noteq> [] \<longrightarrow> (\<forall>(k, v) \<in> set shown. k \<in> set (allowedOf r))"
    using shownRow_fields by (auto simp: raw(1))
  show "uuidOk (flStd (reLib E)) (rqId r)" by (rule ok(2))
qed

fun isRefusal :: "readReply \<Rightarrow> bool" where
  "isRefusal (QueryRefused _ _) = True"
| "isRefusal CountWithCursor = True"
| "isRefusal EmptyInclude = True"
| "isRefusal BadRecordId = True"
| "isRefusal (IncludeRefused _) = True"
| "isRefusal _ = False"

lemma runCount_no_refusal: "(\<And>tot. \<not> isRefusal (answer tot)) \<Longrightarrow> runCount E s name qb wc answer w = (reply, w') \<Longrightarrow> \<not> isRefusal reply"
  using runCount_reply [of E s name qb wc answer w reply w'] by auto

lemma listPlain_no_refusal: "listPlain E name res rq qb wc w = (reply, w') \<Longrightarrow> \<not> isRefusal reply"
  by (auto simp: listPlain_def Let_def split: prod.splits sum.splits dest!: runCount_no_refusal [rotated])

lemma listIncluded_refusal: "listIncluded E name rq qb wc inc w = (reply, w') \<Longrightarrow> isRefusal reply \<Longrightarrow> w' = w"
  by (auto simp: listIncluded_def Let_def split: prod.splits sum.splits dest!: runCount_no_refusal [rotated])

lemma getPlain_no_refusal: "getPlain E name res r fs w = (reply, w') \<Longrightarrow> \<not> isRefusal reply"
  by (auto simp: getPlain_def Let_def split: prod.splits sum.splits list.splits)

lemma getIncluded_refusal: "getIncluded E name r fs inc w = (reply, w') \<Longrightarrow> isRefusal reply \<Longrightarrow> w' = w"
  by (auto simp: getIncluded_def Let_def split: prod.splits sum.splits option.splits)

text \<open>C19: A read that is refused, for its parameters, its fields, its includes or its id, asks the database nothing: the world is
  the one before the request, for the three handlers.\<close>

theorem refused_read_asks_nothing:
  assumes "listHandler E name res rq w = (reply, w') \<or> aggregateHandler E name res rq w = (reply, w') \<or> getHandler E name res rq w = (reply, w')"
    and "isRefusal reply"
  shows "w' = w"
  using assms(1)
proof (elim disjE)
  assume "listHandler E name res rq w = (reply, w')"
  then show ?thesis using assms(2) unfolding listHandler_def Let_def
    by (auto split: sum.splits option.splits if_splits dest: listPlain_no_refusal listIncluded_refusal)
next
  assume "aggregateHandler E name res rq w = (reply, w')"
  then show ?thesis using assms(2) unfolding aggregateHandler_def Let_def by (auto split: sum.splits prod.splits)
next
  assume "getHandler E name res rq w = (reply, w')"
  then show ?thesis using assms(2) unfolding getHandler_def Let_def
    by (auto split: sum.splits option.splits if_splits dest: getPlain_no_refusal getIncluded_refusal)
qed

section \<open>Witnesses\<close>

text \<open>A database with one order, whatever it is asked, and a clerk who sees the status of his own orders.\<close>

definition rdOrder :: row where
  "rdOrder = [(''id'', GStr ''7''), (''owner'', GStr ''u1''), (''status'', GStr ''open'')]"

definition rdPool :: "unit TenantPool" where
  "rdPool =
     \<lparr>pBegin = Pair None, pExec = (\<lambda>_ _. Pair (Inr 0)), pQuery = (\<lambda>_ _. Pair (Inr [rdOrder])), pCommit = Pair None, pRollback = id,
      brAllow = Pair None, brDone = (\<lambda>_. id), leafUnavailable = (\<lambda>_. False), breakerOpen = (\<lambda>_. False), pIdent = quoteIdent\<rparr>"

definition rdEnv :: "unit ReadEnv" where
  "rdEnv = \<lparr>rePool = rdPool, Acquire = Pair None, ReleaseConn = id, reLib = exLib,
     rePolicy = \<lparr>Roles = []\<rparr>, reSchema = exShop, Surface = (\<lambda>_ _. None)\<rparr>"

definition rdId :: string where
  "rdId = ''7e57d004-2b97-4e7a-b45f-5387367791cd''"

definition rdClerk :: writeReq where
  "rdClerk = \<lparr>rqTenant = ''acme'', rqSchema = ''tenant_acme'', rqRole = ''clerk'',
     rqEval = Some \<lparr>Allowed = True, AllowedFields = [''status''], evCondition = Some exOwnRows\<rparr>,
     rqCtx = \<lparr>Role = ''clerk'', UserID = ''u1'', ExternalClientID = []\<rparr>, rqId = rdId, rqBody = Malformed\<rparr>"

definition rdList :: readReq where
  "rdList = \<lparr>rdReq = rdClerk, rdParams = exParams\<rparr>"

definition rdMeta :: listMeta where
  "rdMeta = \<lparr>mPerPage = 20, HasNext = False, mPage = Some (2, True), mTotal = None\<rparr>"

lemma rdEnv_simps [simp]: "reLib rdEnv = exLib" "rePool rdEnv = rdPool" "readSurface rdEnv t n res = res"
  by (simp_all add: rdEnv_def readSurface_def)

lemma rdClerk_simps [simp]:
  "condOf rdClerk = Some exOwnRows" "allowedOf rdClerk = [''status'']" "rqSchema rdClerk = ''tenant_acme''" "rqId rdClerk = rdId"
  "rdReq rdList = rdClerk" "rdParams rdList = exParams"
  by (simp_all add: rdClerk_def condOf_def allowedOf_def rdList_def)

lemma rdDirect: "QueryDirect rdEnv ''tenant_acme'' ''orders'' q args () = (Inr [rdOrder], ())"
proof -
  have "validateSchemaName ''tenant_acme'' = None" "validateTableName ''orders'' = None" by code_simp+
  then show ?thesis by (simp add: QueryDirect_def breakerExec_def rdEnv_def rdPool_def)
qed

lemma rdShown: "shownRow rdEnv exShopOrders [''status''] rdOrder = [(''status'', GStr ''open'')]"
  by code_simp

lemma rdList_reply: "listHandler rdEnv ''orders'' exShopOrders rdList () = (ListReply [[(''status'', GStr ''open'')]] rdMeta, ())"
proof -
  have p: "ParseCountFlag exParams = Inr False" "singleValue exParams ''include'' = Inr None" "listMetaOf exQuery 1 None = rdMeta"
    by code_simp+
  then show ?thesis by (simp add: listHandler_def listPlain_def exBuild exSQL rdDirect rdShown runCount_def)
qed


definition rdOne :: readReq where
  "rdOne = \<lparr>rdReq = rdClerk, rdParams = []\<rparr>"

definition rdOneSQL :: string where
  "rdOneSQL = ''SELECT * FROM '' @ quoteIdent ''orders'' @ '' WHERE id = $1 AND owner = $2''"

lemma rdOne_parts:
  "ParseFields exShopOrders [] [''status''] = Inr None" "SelectList None = ''*''" "bareIdent ''owner''"
  "wField exOwnRows = ''owner''" "wValue exOwnRows = ''u1''"
  "rdReq rdOne = rdClerk" "rdParams rdOne = []" "uuidOk (flStd exLib) rdId"
  by code_simp+

lemma rdPool_ident [simp]: "pIdent rdPool = quoteIdent"
  by (simp add: rdPool_def)

lemma rdTenant: "readTenant rdPool ''tenant_acme'' q args () = (Inr [rdOrder], ())"
proof -
  have "validateSchemaName ''tenant_acme'' = None" by code_simp
  then show ?thesis by (simp add: readTenant_def rdPool_def breakerExec_def txScope_def)
qed

lemma rdOne_reply: "getHandler rdEnv ''orders'' exShopOrders rdOne () = (RecordReply [(''status'', GStr ''open'')], ())"
proof -
  have p: "RejectListParams [] False = Inr ()" "singleValue [] ''include'' = Inr None" by code_simp+
  then show ?thesis
    by (simp add: getHandler_def getPlain_def recordSelect_def applyRowCondition_def rdOne_parts rdTenant rdShown
        del: bareIdent.simps)
qed

theorem get_reply_is_scoped_witness:
  "\<exists>raw more. readTenant rdPool ''tenant_acme'' rdOneSQL [strArg rdId, strArg ''u1''] () = (Inr (raw # more), ())
     \<and> shownRow rdEnv exShopOrders [''status''] raw = [(''status'', GStr ''open'')]"
proof -
  note scoped = get_reply_is_scoped [OF rdOne_reply refl]
  show ?thesis using scoped by (auto simp: Let_def rdOne_parts rdOneSQL_def simp del: bareIdent.simps)
qed

text \<open>The same request with a filter on a column the clerk may not see.\<close>

definition rdHidden :: readReq where
  "rdHidden = rdOne\<lparr>rdParams := [(''count'', [[]]), (''filter[owner]'', [''u2''])]\<rparr>"

lemma rdHidden_refused: "listHandler rdEnv ''orders'' exShopOrders rdHidden w = (QueryRefused 403 (ErrForbiddenField ''owner''), w)"
proof -
  have "BuildQuery (reLib rdEnv) ''orders'' (readSurface rdEnv (rqTenant (rdReq rdHidden)) ''orders'' exShopOrders) (rdParams rdHidden)
      (condOf (rdReq rdHidden)) (allowedOf (rdReq rdHidden)) = Inl (ErrForbiddenField ''owner'')" by code_simp
  then show ?thesis by (simp add: listHandler_def Let_def listStatus_def)
qed

theorem refused_read_asks_nothing_witness:
  "listHandler rdEnv ''orders'' exShopOrders rdHidden () = (QueryRefused 403 (ErrForbiddenField ''owner''), ()) \<and> () = ()"
  using refused_read_asks_nothing [OF disjI1 [OF rdHidden_refused [of "()"]]] rdHidden_refused [of "()"] by simp

section \<open>Two surprises of the aggregate handler\<close>

text \<open>The request a list answers with 403 an aggregate answers with 400.\<close>

lemma hidden_filter_is_400_on_aggregate:
  "aggregateHandler rdEnv ''orders'' exShopOrders rdHidden () = (QueryRefused 400 (ErrForbiddenField ''owner''), ())"
  by code_simp

text \<open>A column named like a function, grouped by, takes the place of that function's results.\<close>

lemma group_column_hides_the_count:
  "aggregateResponse \<lparr>aqQuery = exQuery, aqCount = True, Metrics = [], GroupBy = [''count'']\<rparr> [[(CountAlias, GInt 3), (''count'', GStr ''x'')]] =
   [(''groups'', GArr [GObj [(''count'', GStr ''x'')]])]"
  by code_simp

end
