(* ===== verification/EventHub.thy ===== *)
theory EventHub
  imports WritePath
begin

text \<open>
  The in-process event hub, \<open>pkg/events/hub.go\<close>, and the stream handler of \<open>pkg/codegen/builder.go\<close> that serves a
  subscriber.  A subscriber is an address into a heap of subscribers, and the set of the subscribers of a resource lists
  them in the order of their registration.  \<open>Publish\<close> copies the receivers under the lock and sends to them without it:
  in the step relation the copy and each send are steps of their own, so subscriptions come and go between them, and the
  receivers are served in any order, as the iteration over a map has it.  The hub is the one that is configured: the
  branches for a nil hub do nothing.
\<close>

section \<open>State\<close>

definition subscriberBuffer :: nat where "subscriberBuffer = 64"
definition DefaultMaxPerTenant :: int where "DefaultMaxPerTenant = 1000"

record Event =
  evType :: string
  evResource :: string
  evID :: string
  evRecord :: "row option"

text \<open>\<open>C\<close> is the content of the channel, oldest first; \<open>Slow\<close> tells whether the channel of that name is closed.
  \<open>CondValue\<close> is nil or the value of a \<open>WhereCondition\<close>, a string.\<close>

record Subscriber =
  C :: "Event list"
  Slow :: bool
  subAllowed :: "string list"
  CondField :: string
  CondValue :: "string option"
  subTenant :: string
  subResource :: string

record Hub =
  hubSubs :: "nat list gomap gomap"
  perTenant :: "int gomap"
  maxPerTenant :: int

definition NewHub :: "int \<Rightarrow> Hub" where
  "NewHub m = \<lparr>hubSubs = [], perTenant = [], maxPerTenant = (if m \<le> 0 then DefaultMaxPerTenant else m)\<rparr>"

definition Count :: "Hub \<Rightarrow> string \<Rightarrow> int" where
  "Count h tenant = (case gm_get (perTenant h) tenant of Some n \<Rightarrow> n | None \<Rightarrow> 0)"

definition byResource :: "Hub \<Rightarrow> string \<Rightarrow> nat list gomap" where
  "byResource h tenant = (case gm_get (hubSubs h) tenant of Some m \<Rightarrow> m | None \<Rightarrow> [])"

definition subscribersOf :: "Hub \<Rightarrow> string \<Rightarrow> string \<Rightarrow> nat list" where
  "subscribersOf h tenant resource = (case gm_get (byResource h tenant) resource of Some ps \<Rightarrow> ps | None \<Rightarrow> [])"

section \<open>Operations\<close>

type_synonym hub_state = "Hub \<times> Subscriber list"

definition Subscribe :: "string \<Rightarrow> string \<Rightarrow> string list \<Rightarrow> string \<Rightarrow> string option \<Rightarrow> hub_state \<Rightarrow> (goError + nat) \<times> hub_state" where
  "Subscribe tenant resource allowedFields condField condValue st =
     (let (h, heap) = st;
          sub = \<lparr>C = [], Slow = False, subAllowed = allowedFields, CondField = condField, CondValue = condValue,
                 subTenant = tenant, subResource = resource\<rparr>
      in if Count h tenant \<ge> maxPerTenant h then (Inl (PlainError ''tenant SSE subscriber limit reached''), st)
         else let p = length heap;
                  byRes = gm_put resource (subscribersOf h tenant resource @ [p]) (byResource h tenant)
              in (Inr p, (h\<lparr>hubSubs := gm_put tenant byRes (hubSubs h), perTenant := gm_put tenant (Count h tenant + 1) (perTenant h)\<rparr>,
                          heap @ [sub])))"

definition Unsubscribe :: "nat \<Rightarrow> hub_state \<Rightarrow> hub_state" where
  "Unsubscribe p st =
     (let (h, heap) = st; tenant = subTenant (heap ! p); resource = subResource (heap ! p); ps = subscribersOf h tenant resource
      in if p \<notin> set ps then st
         else let ps' = filter (\<lambda>q. q \<noteq> p) ps;
                  byRes = (if ps' = [] then gm_del resource (byResource h tenant) else gm_put resource ps' (byResource h tenant));
                  n = Count h tenant - 1
              in (h\<lparr>hubSubs := (if byRes = [] then gm_del tenant (hubSubs h) else gm_put tenant byRes (hubSubs h)),
                    perTenant := (if n \<le> 0 then gm_del tenant (perTenant h) else gm_put tenant n (perTenant h))\<rparr>, heap))"

definition looseEq :: "goany \<Rightarrow> string option \<Rightarrow> bool" where
  "looseEq a b =
     (if a = GNil \<or> b = None then False
      else case (a, b) of (GStr as, Some bs) \<Rightarrow> as = bs | _ \<Rightarrow> False)"

definition eventInScope :: "Subscriber \<Rightarrow> Event \<Rightarrow> bool" where
  "eventInScope s ev =
     (if CondField s = [] then True
      else case evRecord ev of
             None \<Rightarrow> False
           | Some rec \<Rightarrow> looseEq (case gm_get rec (CondField s) of Some v \<Rightarrow> v | None \<Rightarrow> GNil) (CondValue s))"

text \<open>The non-blocking send to one receiver.\<close>

definition offer :: "Event \<Rightarrow> Subscriber \<Rightarrow> Subscriber" where
  "offer ev s =
     (if \<not> eventInScope s ev then s
      else if length (C s) < subscriberBuffer then s\<lparr>C := C s @ [ev]\<rparr>
      else s\<lparr>Slow := True\<rparr>)"

definition sendTo :: "Event \<Rightarrow> Subscriber list \<Rightarrow> nat \<Rightarrow> Subscriber list" where
  "sendTo ev heap p = heap[p := offer ev (heap ! p)]"

definition hubPublish :: "string \<Rightarrow> Event \<Rightarrow> hub_state \<Rightarrow> hub_state" where
  "hubPublish tenant ev st =
     (let (h, heap) = st in (h, foldl (sendTo ev) heap (subscribersOf h tenant (evResource ev))))"

section \<open>The stream\<close>

text \<open>\<open>publishEvent\<close>, the subscription of \<open>sseHandler\<close> and the data it writes for an event.\<close>

definition publishEvent :: "string \<Rightarrow> string \<Rightarrow> string \<Rightarrow> row option \<Rightarrow> string \<Rightarrow> hub_state \<Rightarrow> hub_state" where
  "publishEvent tenantID resource typ rec fallbackID st =
     (let id' = (case rec of Some r \<Rightarrow> (case gm_get r ''id'' of Some (GStr s) \<Rightarrow> s | _ \<Rightarrow> fallbackID) | None \<Rightarrow> fallbackID)
      in hubPublish tenantID \<lparr>evType = typ, evResource = resource, evID = id', evRecord = rec\<rparr> st)"

definition sseSubscribe :: "string \<Rightarrow> writeReq \<Rightarrow> hub_state \<Rightarrow> (goError + nat) \<times> hub_state" where
  "sseSubscribe name rq st =
     (let (condField, condValue) = (case condOf rq of Some c \<Rightarrow> (wField c, Some (wValue c)) | None \<Rightarrow> ([], None))
      in Subscribe (rqTenant rq) name (allowedOf rq) condField condValue st)"

definition ssePayload :: "Subscriber \<Rightarrow> Event \<Rightarrow> goany" where
  "ssePayload s ev =
     GObj [(''id'', GStr (evID ev)),
           (''record'', case evRecord ev of None \<Rightarrow> GNil | Some rec \<Rightarrow> GObj (FilterFields rec (subAllowed s))),
           (''resource'', GStr (evResource ev))]"

text \<open>The loop of \<open>sseHandler\<close>: what the select wakes up with, and whether the write that follows could be flushed.  The
  stream ends when the client has gone, when the subscriber was too slow, or when a flush fails; an event whose payload
  cannot be encoded is passed over.\<close>

datatype sseWake = ClientGone | SlowClosed | Heartbeat bool | Arrived Event bool
datatype sseFrame = Connected | PingFrame | SlowFrame | EventFrame string string

fun sseLoop :: "(goany \<Rightarrow> string option) \<Rightarrow> Subscriber \<Rightarrow> sseWake list \<Rightarrow> sseFrame list" where
  "sseLoop marshal s [] = []"
| "sseLoop marshal s (ClientGone # ws) = []"
| "sseLoop marshal s (SlowClosed # ws) = [SlowFrame]"
| "sseLoop marshal s (Heartbeat ok # ws) = PingFrame # (if ok then sseLoop marshal s ws else [])"
| "sseLoop marshal s (Arrived ev ok # ws) =
     (case marshal (ssePayload s ev) of
        None \<Rightarrow> sseLoop marshal s ws
      | Some payload \<Rightarrow> EventFrame (evType ev) payload # (if ok then sseLoop marshal s ws else []))"

definition sseStream :: "(goany \<Rightarrow> string option) \<Rightarrow> Subscriber \<Rightarrow> bool \<Rightarrow> sseWake list \<Rightarrow> sseFrame list" where
  "sseStream marshal s ok ws = Connected # (if ok then sseLoop marshal s ws else [])"

section \<open>Interleaving\<close>

text \<open>The sends of the publishers at work, each with the receivers it still has to serve; what each subscriber has taken
  off its channel so far; and the history of what was published for which tenant.\<close>

record hubWorld =
  hwHub :: Hub
  hwSubs :: "Subscriber list"
  Sending :: "(string \<times> Event \<times> nat list) list"
  Received :: "(nat \<times> Event) list"
  Published :: "(string \<times> Event) list"

inductive hubStep :: "hubWorld \<Rightarrow> hubWorld \<Rightarrow> bool" where
  subscribe: "Subscribe tenant resource allowed cf cv (hwHub w, hwSubs w) = (res, (h, heap)) \<Longrightarrow>
    hubStep w (w\<lparr>hwHub := h, hwSubs := heap\<rparr>)"
| unsubscribe: "p < length (hwSubs w) \<Longrightarrow> Unsubscribe p (hwHub w, hwSubs w) = (h, heap) \<Longrightarrow>
    hubStep w (w\<lparr>hwHub := h, hwSubs := heap\<rparr>)"
| publish: "distinct ps \<Longrightarrow> set ps = set (subscribersOf (hwHub w) tenant (evResource ev)) \<Longrightarrow>
    hubStep w (w\<lparr>Sending := (tenant, ev, ps) # Sending w, Published := Published w @ [(tenant, ev)]\<rparr>)"
| send: "Sending w = before @ (tenant, ev, p # ps) # after \<Longrightarrow>
    hubStep w (w\<lparr>hwSubs := sendTo ev (hwSubs w) p, Sending := before @ (tenant, ev, ps) # after\<rparr>)"
| receive: "p < length (hwSubs w) \<Longrightarrow> C (hwSubs w ! p) = ev # evs \<Longrightarrow>
    hubStep w (w\<lparr>hwSubs := (hwSubs w)[p := (hwSubs w ! p)\<lparr>C := evs\<rparr>], Received := Received w @ [(p, ev)]\<rparr>)"

definition hubStart :: "int \<Rightarrow> hubWorld" where
  "hubStart m = \<lparr>hwHub = NewHub m, hwSubs = [], Sending = [], Received = [], Published = []\<rparr>"

inductive hubReachable :: "int \<Rightarrow> hubWorld \<Rightarrow> bool" for m where
  start: "hubReachable m (hubStart m)"
| step: "hubReachable m w \<Longrightarrow> hubStep w w' \<Longrightarrow> hubReachable m w'"

section \<open>The registry\<close>

text \<open>The registry against the set of pairs it stands for: every registered subscriber stands under its own tenant and
  resource, once; a tenant's counter is the number of its subscribers; and nothing empty is kept.\<close>

definition registered :: "Hub \<Rightarrow> string \<Rightarrow> nat set" where
  "registered h tenant = {p. \<exists>resource. p \<in> set (subscribersOf h tenant resource)}"

definition registryInv :: "Hub \<Rightarrow> Subscriber list \<Rightarrow> bool" where
  "registryInv h heap \<longleftrightarrow>
     (\<forall>t r. distinct (subscribersOf h t r)
        \<and> (\<forall>p \<in> set (subscribersOf h t r). p < length heap \<and> subTenant (heap ! p) = t \<and> subResource (heap ! p) = r))
   \<and> (\<forall>t. Count h t = int (card (registered h t)) \<and> Count h t \<le> maxPerTenant h \<and> gm_get (perTenant h) t \<noteq> Some 0)
   \<and> (\<forall>t m. gm_get (hubSubs h) t = Some m \<longrightarrow> m \<noteq> [] \<and> (\<forall>r. gm_get m r \<noteq> Some []))"

lemma gm_put_nonempty: "gm_put k v m \<noteq> []"
  by (simp add: gm_put_def update_nonempty)

lemma registryInvD:
  assumes "registryInv h heap"
  shows "distinct (subscribersOf h t r)" "p \<in> set (subscribersOf h t r) \<Longrightarrow> p < length heap"
    "p \<in> set (subscribersOf h t r) \<Longrightarrow> subTenant (heap ! p) = t" "p \<in> set (subscribersOf h t r) \<Longrightarrow> subResource (heap ! p) = r"
    "Count h t = int (card (registered h t))" "Count h t \<le> maxPerTenant h" "gm_get (perTenant h) t \<noteq> Some 0"
    "gm_get (hubSubs h) t = Some m \<Longrightarrow> m \<noteq> []" "gm_get (hubSubs h) t = Some m \<Longrightarrow> gm_get m r \<noteq> Some []"
  using assms unfolding registryInv_def by blast+

lemma finite_registered: "registryInv h heap \<Longrightarrow> finite (registered h t)"
  by (rule finite_subset [of _ "{..<length heap}"]) (auto simp: registered_def dest: registryInvD)

lemma byResource_entry: "registryInv h heap \<Longrightarrow> gm_get (byResource h t) r \<noteq> Some []"
  by (auto simp: byResource_def split: option.splits dest: registryInvD)

lemma nothing_registered_nothing_kept:
  assumes "registryInv h heap" "registered h t = {}"
  shows "gm_get (hubSubs h) t = None" "gm_get (perTenant h) t = None"
proof -
  show "gm_get (hubSubs h) t = None"
  proof (rule ccontr)
    assume "gm_get (hubSubs h) t \<noteq> None"
    then obtain m where m: "gm_get (hubSubs h) t = Some m" by auto
    then have "gm_get m (fst (hd m)) = Some (snd (hd m))" using registryInvD(8) [OF assms(1) m] by (cases m) auto
    then obtain r ps where "gm_get m r = Some ps" by blast
    then have "subscribersOf h t r = ps" "ps \<noteq> []" using m registryInvD(9) [OF assms(1) m]
      by (auto simp: subscribersOf_def byResource_def)
    moreover have "set (subscribersOf h t r) \<subseteq> registered h t" by (auto simp: registered_def)
    ultimately show False using assms(2) by simp
  qed
  show "gm_get (perTenant h) t = None"
    using registryInvD(5,7) [OF assms(1), of t] assms(2) by (cases "gm_get (perTenant h) t") (auto simp: Count_def)
qed

subsection \<open>Subscribing\<close>

lemma Subscribe_refused:
  "Count h tenant \<ge> maxPerTenant h \<Longrightarrow>
   Subscribe tenant resource allowed cf cv (h, heap) = (Inl (PlainError ''tenant SSE subscriber limit reached''), (h, heap))"
  by (simp add: Subscribe_def)

lemma Subscribe_accepted:
  assumes "Subscribe tenant resource allowed cf cv (h, heap) = (Inr p, (h', heap'))"
  shows "p = length heap" "Count h tenant < maxPerTenant h" "maxPerTenant h' = maxPerTenant h"
    "heap' = heap @ [\<lparr>C = [], Slow = False, subAllowed = allowed, CondField = cf, CondValue = cv,
                      subTenant = tenant, subResource = resource\<rparr>]"
    "Count h' t = (if t = tenant then Count h t + 1 else Count h t)"
    "subscribersOf h' t r = subscribersOf h t r @ (if t = tenant \<and> r = resource then [p] else [])"
    "gm_get (perTenant h') t = (if t = tenant then Some (Count h t + 1) else gm_get (perTenant h) t)"
    "gm_get (hubSubs h') t =
       (if t = tenant then Some (gm_put resource (subscribersOf h t resource @ [p]) (byResource h t)) else gm_get (hubSubs h) t)"
  using assms
  by (auto simp: Subscribe_def Let_def Count_def subscribersOf_def byResource_def gomap_simps split: if_splits)

lemma Subscribe_keeps_registry:
  assumes "registryInv h heap" "Subscribe tenant resource allowed cf cv (h, heap) = (res, (h', heap'))"
  shows "registryInv h' heap'"
proof (cases res)
  case (Inl err)
  then show ?thesis using assms by (auto simp: Subscribe_def Let_def split: if_splits)
next
  case (Inr p)
  note acc = Subscribe_accepted [OF assms(2) [unfolded Inr]]
  have fresh: "p \<notin> registered h t" for t
    using assms(1) acc(1) by (auto simp: registered_def dest: registryInvD)
  have reg: "registered h' t = registered h t \<union> (if t = tenant then {p} else {})" for t
    by (auto simp: registered_def acc(6))
  have count: "Count h' t = int (card (registered h' t))" for t
    using fresh finite_registered [OF assms(1)] registryInvD(5) [OF assms(1)] by (simp add: reg acc(5))
  have old: "p \<in> set (subscribersOf h t r) \<Longrightarrow> heap' ! p = heap ! p \<and> p < length heap'" for p t r
    using registryInvD(2) [OF assms(1)] by (simp add: acc(4) nth_append less_SucI)
  have sets: "distinct (subscribersOf h' t r)" for t r
    using registryInvD(1) [OF assms(1)] fresh by (auto simp: acc(6) registered_def)
  have places: "q < length heap' \<and> subTenant (heap' ! q) = t \<and> subResource (heap' ! q) = r"
    if "q \<in> set (subscribersOf h' t r)" for q t r
    using that old registryInvD(3,4) [OF assms(1)] acc(1) by (auto simp: acc(4,6) split: if_splits)
  have cap: "Count h' t \<le> maxPerTenant h'" for t
    using registryInvD(6) [OF assms(1)] acc(2) by (simp add: acc(3,5))
  have pos: "gm_get (perTenant h') t \<noteq> Some 0" for t
    using registryInvD(5,7) [OF assms(1)] by (simp add: acc(7))
  have kept: "m \<noteq> [] \<and> (\<forall>r. gm_get m r \<noteq> Some [])" if "gm_get (hubSubs h') t = Some m" for t m
    using that registryInvD(8,9) [OF assms(1)] byResource_entry [OF assms(1)]
    by (auto simp: acc(8) gomap_simps gm_put_nonempty split: if_splits)
  show ?thesis unfolding registryInv_def using sets places count cap pos kept by blast
qed

subsection \<open>Unsubscribing\<close>

lemma Unsubscribe_unknown:
  "p \<notin> set (subscribersOf h (subTenant (heap ! p)) (subResource (heap ! p))) \<Longrightarrow> Unsubscribe p (h, heap) = (h, heap)"
  by (simp add: Unsubscribe_def)

lemma Unsubscribe_known:
  assumes "p \<in> set (subscribersOf h (subTenant (heap ! p)) (subResource (heap ! p)))"
    and "Unsubscribe p (h, heap) = (h', heap')" and "tenant = subTenant (heap ! p)" "resource = subResource (heap ! p)"
  shows "heap' = heap" "maxPerTenant h' = maxPerTenant h"
    "byResource h' t = (if t \<noteq> tenant then byResource h t
        else let ps = filter (\<lambda>q. q \<noteq> p) (subscribersOf h tenant resource)
             in if ps = [] then gm_del resource (byResource h t) else gm_put resource ps (byResource h t))"
    "gm_get (perTenant h') t = (if t \<noteq> tenant then gm_get (perTenant h) t
        else if Count h t - 1 \<le> 0 then None else Some (Count h t - 1))"
    "gm_get (hubSubs h') t = (if t \<noteq> tenant then gm_get (hubSubs h) t
        else if byResource h' t = [] then None else Some (byResource h' t))"
proof -
  define byRes where "byRes = (let ps = filter (\<lambda>q. q \<noteq> p) (subscribersOf h tenant resource)
     in if ps = [] then gm_del resource (byResource h tenant) else gm_put resource ps (byResource h tenant))"
  have "Unsubscribe p (h, heap) =
      (h\<lparr>hubSubs := (if byRes = [] then gm_del tenant (hubSubs h) else gm_put tenant byRes (hubSubs h)),
         perTenant := (if Count h tenant - 1 \<le> 0 then gm_del tenant (perTenant h)
                       else gm_put tenant (Count h tenant - 1) (perTenant h))\<rparr>, heap)"
    using assms(1) by (simp only: Unsubscribe_def byRes_def Let_def prod.case assms(3,4) not_not simp_thms if_False)
  then have h': "h' = h\<lparr>hubSubs := (if byRes = [] then gm_del tenant (hubSubs h) else gm_put tenant byRes (hubSubs h)),
      perTenant := (if Count h tenant - 1 \<le> 0 then gm_del tenant (perTenant h)
                    else gm_put tenant (Count h tenant - 1) (perTenant h))\<rparr>" and "heap' = heap"
    using assms(2) by (simp_all only: prod.inject)
  then show "heap' = heap" "maxPerTenant h' = maxPerTenant h" by simp_all
  have at: "byResource h' tenant = byRes" and away: "t \<noteq> tenant \<Longrightarrow> byResource h' t = byResource h t"
    unfolding h' by (simp_all add: byResource_def gomap_simps)
  then show "byResource h' t = (if t \<noteq> tenant then byResource h t
        else let ps = filter (\<lambda>q. q \<noteq> p) (subscribersOf h tenant resource)
             in if ps = [] then gm_del resource (byResource h t) else gm_put resource ps (byResource h t))"
    by (cases "t = tenant") (simp_all only: byRes_def simp_thms if_True if_False)
  show "gm_get (perTenant h') t = (if t \<noteq> tenant then gm_get (perTenant h) t
        else if Count h t - 1 \<le> 0 then None else Some (Count h t - 1))"
    unfolding h' by (simp add: gomap_simps)
  show "gm_get (hubSubs h') t = (if t \<noteq> tenant then gm_get (hubSubs h) t
        else if byResource h' t = [] then None else Some (byResource h' t))"
    unfolding h' [THEN arg_cong [of _ _ hubSubs]] by (auto simp: at gomap_simps)
qed

lemma Unsubscribe_keeps_registry:
  assumes "registryInv h heap" "Unsubscribe p (h, heap) = (h', heap')"
  shows "registryInv h' heap'"
proof (cases "p \<in> set (subscribersOf h (subTenant (heap ! p)) (subResource (heap ! p)))")
  case False
  then show ?thesis using assms by (simp add: Unsubscribe_unknown)
next
  case True
  note rem = Unsubscribe_known [OF True assms(2) refl refl]
  have subs: "subscribersOf h' t r = filter (\<lambda>q. q \<noteq> p) (subscribersOf h t r)" for t r
  proof (cases "p \<in> set (subscribersOf h t r)")
    case True
    then show ?thesis using registryInvD(3,4) [OF assms(1) True]
      by (auto simp: subscribersOf_def [of h'] rem(3) Let_def gomap_simps)
  next
    case False
    then have same: "filter (\<lambda>q. q \<noteq> p) (subscribersOf h t r) = subscribersOf h t r" by (auto simp: filter_id_conv)
    have "t \<noteq> subTenant (heap ! p) \<or> r \<noteq> subResource (heap ! p)" using False True by auto
    then show ?thesis unfolding same by (auto simp: subscribersOf_def rem(3) Let_def gomap_simps)
  qed
  have reg: "registered h' t = registered h t - {p}" for t by (auto simp: registered_def subs)
  have mem: "p \<in> registered h t \<longleftrightarrow> t = subTenant (heap ! p)" for t
    unfolding registered_def using True registryInvD(3) [OF assms(1)] by blast
  have card: "card (registered h t - {p}) = card (registered h t) - (if t = subTenant (heap ! p) then 1 else 0)"
    "t = subTenant (heap ! p) \<Longrightarrow> card (registered h t) > 0" for t
    using mem [of t] finite_registered [OF assms(1), of t] by (auto simp: card_gt_0_iff)
  have less: "Count h' t = Count h t - (if t = subTenant (heap ! p) then 1 else 0)" for t
    using card(2) [of t] registryInvD(5) [OF assms(1), of t]
    by (cases "t = subTenant (heap ! p)") (simp_all add: Count_def [of h'] rem(4), simp add: Count_def)
  have count: "Count h' t = int (card (registered h' t))" for t
    using card [of t] registryInvD(5) [OF assms(1), of t] unfolding reg less by auto
  have cap: "Count h' t \<le> maxPerTenant h'" for t
    using count [of t] registryInvD(5,6) [OF assms(1), of t] card(1) [of t] by (simp add: reg rem(2) split: if_splits)
  have pos: "gm_get (perTenant h') t \<noteq> Some 0" for t
    using registryInvD(7) [OF assms(1)] by (auto simp: rem(4))
  have entry: "gm_get (byResource h' t) r \<noteq> Some []" for t r
    using byResource_entry [OF assms(1)] by (auto simp: rem(3) Let_def gomap_simps)
  have kept: "m \<noteq> [] \<and> (\<forall>r. gm_get m r \<noteq> Some [])" if "gm_get (hubSubs h') t = Some m" for t m
    using that registryInvD(8,9) [OF assms(1)] entry by (auto simp: rem(5) split: if_splits)
  have sets: "distinct (subscribersOf h' t r)"
      "q \<in> set (subscribersOf h' t r) \<Longrightarrow> q < length heap' \<and> subTenant (heap' ! q) = t \<and> subResource (heap' ! q) = r" for q t r
    using registryInvD(1-4) [OF assms(1)] by (simp_all add: subs rem(1)) blast
  show ?thesis unfolding registryInv_def using sets count cap pos kept by blast
qed

section \<open>Deliveries\<close>

text \<open>What may stand in a subscriber's channel: an event published for its tenant, on its resource, inside its scope.\<close>

definition deliverable :: "(string \<times> Event) list \<Rightarrow> Subscriber \<Rightarrow> Event \<Rightarrow> bool" where
  "deliverable published s ev \<longleftrightarrow> (subTenant s, ev) \<in> set published \<and> evResource ev = subResource s \<and> eventInScope s ev"

text \<open>What a subscription has fixed for good.\<close>

definition sameSubscription :: "Subscriber \<Rightarrow> Subscriber \<Rightarrow> bool" where
  "sameSubscription s s' \<longleftrightarrow> subTenant s = subTenant s' \<and> subResource s = subResource s' \<and> subAllowed s = subAllowed s'
     \<and> CondField s = CondField s' \<and> CondValue s = CondValue s'"

lemma eventInScope_cong: "sameSubscription s s' \<Longrightarrow> eventInScope s ev = eventInScope s' ev"
  by (auto simp: sameSubscription_def eventInScope_def split: option.splits)

lemma deliverable_cong: "sameSubscription s s' \<Longrightarrow> deliverable pub s ev = deliverable pub s' ev"
  using eventInScope_cong [of s s' ev] by (simp add: deliverable_def sameSubscription_def)

lemma sameSubscription_refl [simp]: "sameSubscription s s"
  by (simp add: sameSubscription_def)

lemma offer_same [simp]: "sameSubscription (offer ev s) s"
  by (simp add: offer_def sameSubscription_def)

lemma set_offer: "e \<in> set (C (offer ev s)) \<Longrightarrow> e \<in> set (C s) \<or> e = ev \<and> eventInScope s ev"
  by (auto simp: offer_def split: if_splits)

lemma length_offer: "length (C s) \<le> subscriberBuffer \<Longrightarrow> length (C (offer ev s)) \<le> subscriberBuffer"
  by (simp add: offer_def)

lemma length_sendTo [simp]: "length (sendTo ev heap p) = length heap"
  by (simp add: sendTo_def)

lemma nth_sendTo: "q < length heap \<Longrightarrow> sendTo ev heap p ! q = (if q = p then offer ev (heap ! p) else heap ! q)"
  by (simp add: sendTo_def nth_list_update)

lemma sendTo_same: "q < length heap \<Longrightarrow> sameSubscription (sendTo ev heap p ! q) (heap ! q)"
  by (simp add: nth_sendTo)

text \<open>The effect of the whole loop of sends on each subscriber, whatever the order of the receivers.\<close>

lemma sends_nth:
  "distinct ps \<Longrightarrow> q < length heap \<Longrightarrow>
   foldl (sendTo ev) heap ps ! q = (if q \<in> set ps then offer ev (heap ! q) else heap ! q)"
  by (induction ps arbitrary: heap) (auto simp: nth_sendTo)

lemma length_sends [simp]: "length (foldl (sendTo ev) heap ps) = length heap"
  by (induction ps arbitrary: heap) auto

lemma sends_any_order:
  "distinct ps \<Longrightarrow> distinct qs \<Longrightarrow> set ps = set qs \<Longrightarrow> foldl (sendTo ev) heap ps = foldl (sendTo ev) heap qs"
  by (rule nth_equalityI) (simp_all add: sends_nth)

section \<open>The invariant\<close>

definition worldInv :: "hubWorld \<Rightarrow> bool" where
  "worldInv w \<longleftrightarrow>
     registryInv (hwHub w) (hwSubs w)
   \<and> (\<forall>p < length (hwSubs w). length (C (hwSubs w ! p)) \<le> subscriberBuffer
        \<and> (\<forall>ev \<in> set (C (hwSubs w ! p)). deliverable (Published w) (hwSubs w ! p) ev))
   \<and> (\<forall>(tenant, ev, ps) \<in> set (Sending w). (tenant, ev) \<in> set (Published w)
        \<and> (\<forall>p \<in> set ps. p < length (hwSubs w) \<and> subTenant (hwSubs w ! p) = tenant \<and> subResource (hwSubs w ! p) = evResource ev))
   \<and> (\<forall>(p, ev) \<in> set (Received w). p < length (hwSubs w) \<and> deliverable (Published w) (hwSubs w ! p) ev)"

text \<open>The parts of the invariant that speak of the subscribers survive whatever keeps the subscriptions.\<close>

lemma registryInv_cong:
  assumes "length heap' = length heap" "\<And>p. p < length heap \<Longrightarrow> sameSubscription (heap' ! p) (heap ! p)"
    and "registryInv h heap"
  shows "registryInv h heap'"
proof -
  have "p < length heap' \<and> subTenant (heap' ! p) = t \<and> subResource (heap' ! p) = r" if "p \<in> set (subscribersOf h t r)" for p t r
    using assms(1,2) registryInvD(2-4) [OF assms(3) that] by (simp add: sameSubscription_def)
  then show ?thesis using assms(3) unfolding registryInv_def by blast
qed

lemma worldInv_start: "worldInv (hubStart m)"
  by (simp add: worldInv_def hubStart_def registryInv_def NewHub_def subscribersOf_def byResource_def Count_def registered_def
      DefaultMaxPerTenant_def)

lemma worldInvD:
  assumes "worldInv w"
  shows "registryInv (hwHub w) (hwSubs w)"
    "p < length (hwSubs w) \<Longrightarrow> length (C (hwSubs w ! p)) \<le> subscriberBuffer"
    "p < length (hwSubs w) \<Longrightarrow> ev \<in> set (C (hwSubs w ! p)) \<Longrightarrow> deliverable (Published w) (hwSubs w ! p) ev"
    "(tenant, ev, ps) \<in> set (Sending w) \<Longrightarrow> (tenant, ev) \<in> set (Published w)"
    "(tenant, ev, ps) \<in> set (Sending w) \<Longrightarrow> p \<in> set ps \<Longrightarrow> p < length (hwSubs w)"
    "(tenant, ev, ps) \<in> set (Sending w) \<Longrightarrow> p \<in> set ps \<Longrightarrow> subTenant (hwSubs w ! p) = tenant"
    "(tenant, ev, ps) \<in> set (Sending w) \<Longrightarrow> p \<in> set ps \<Longrightarrow> subResource (hwSubs w ! p) = evResource ev"
    "(p, ev) \<in> set (Received w) \<Longrightarrow> p < length (hwSubs w)"
    "(p, ev) \<in> set (Received w) \<Longrightarrow> deliverable (Published w) (hwSubs w ! p) ev"
  using assms unfolding worldInv_def by blast+

lemma worldInvI:
  assumes "registryInv (hwHub w) (hwSubs w)"
    and "\<And>p. p < length (hwSubs w) \<Longrightarrow> length (C (hwSubs w ! p)) \<le> subscriberBuffer"
    and "\<And>p ev. p < length (hwSubs w) \<Longrightarrow> ev \<in> set (C (hwSubs w ! p)) \<Longrightarrow> deliverable (Published w) (hwSubs w ! p) ev"
    and "\<And>tenant ev ps. (tenant, ev, ps) \<in> set (Sending w) \<Longrightarrow> (tenant, ev) \<in> set (Published w)"
    and "\<And>tenant ev ps p. (tenant, ev, ps) \<in> set (Sending w) \<Longrightarrow> p \<in> set ps \<Longrightarrow>
        p < length (hwSubs w) \<and> subTenant (hwSubs w ! p) = tenant \<and> subResource (hwSubs w ! p) = evResource ev"
    and "\<And>p ev. (p, ev) \<in> set (Received w) \<Longrightarrow> p < length (hwSubs w) \<and> deliverable (Published w) (hwSubs w ! p) ev"
  shows "worldInv w"
  using assms unfolding worldInv_def by blast

text \<open>A step that changes the registry keeps the subscribers there were, the new one at most coming after them.\<close>

lemma worldInv_registry:
  assumes "worldInv w" "registryInv h heap" "heap = hwSubs w @ new" "\<forall>s \<in> set new. C s = []"
  shows "worldInv (w\<lparr>hwHub := h, hwSubs := heap\<rparr>)"
proof -
  have old: "p < length (hwSubs w) \<Longrightarrow> heap ! p = hwSubs w ! p \<and> p < length heap" for p
    using assms(3) by (simp add: nth_append)
  have fresh: "C (heap ! p) = []" if "p < length heap" "\<not> p < length (hwSubs w)" for p
    using that assms(3,4) by (simp add: nth_append)
  show ?thesis
  proof (rule worldInvI, simp_all)
    show "length (C (heap ! p)) \<le> subscriberBuffer" if "p < length heap" for p
      using that old [of p] fresh [of p] worldInvD(2) [OF assms(1), of p] by (cases "p < length (hwSubs w)") simp_all
    show "deliverable (Published w) (heap ! p) ev" if "p < length heap" "ev \<in> set (C (heap ! p))" for p ev
      using that old [of p] fresh [of p] worldInvD(3) [OF assms(1), of p ev] by (cases "p < length (hwSubs w)") simp_all
  qed (use assms(2) old worldInvD(4-9) [OF assms(1)] in \<open>metis+\<close>)
qed

text \<open>A step that only fills or empties channels.\<close>

lemma worldInv_channels:
  assumes "worldInv w" "length heap = length (hwSubs w)"
    and same: "\<And>p. p < length heap \<Longrightarrow> sameSubscription (heap ! p) (hwSubs w ! p)"
    and chan: "\<And>p. p < length heap \<Longrightarrow> length (C (heap ! p)) \<le> subscriberBuffer"
      "\<And>p ev. p < length heap \<Longrightarrow> ev \<in> set (C (heap ! p)) \<Longrightarrow> deliverable (Published w) (hwSubs w ! p) ev"
    and sending: "\<And>tenant ev ps. (tenant, ev, ps) \<in> set sd \<Longrightarrow> \<exists>qs. (tenant, ev, qs) \<in> set (Sending w) \<and> set ps \<subseteq> set qs"
    and received: "\<And>p ev. (p, ev) \<in> set rc \<Longrightarrow> p < length heap \<and> deliverable (Published w) (hwSubs w ! p) ev"
  shows "worldInv (w\<lparr>hwSubs := heap, Sending := sd, Received := rc\<rparr>)"
proof -
  have reg: "registryInv (hwHub w) heap" using registryInv_cong assms(2) same worldInvD(1) [OF assms(1)] by metis
  have del: "p < length heap \<Longrightarrow> deliverable (Published w) (heap ! p) ev = deliverable (Published w) (hwSubs w ! p) ev" for p ev
    using deliverable_cong [OF same] by simp
  have ten: "p < length heap \<Longrightarrow> subTenant (heap ! p) = subTenant (hwSubs w ! p) \<and> subResource (heap ! p) = subResource (hwSubs w ! p)" for p
    using same [of p] by (simp add: sameSubscription_def)
  have sends: "(tenant, ev) \<in> set (Published w)" "p \<in> set ps \<Longrightarrow> p < length heap
      \<and> subTenant (heap ! p) = tenant \<and> subResource (heap ! p) = evResource ev" if "(tenant, ev, ps) \<in> set sd" for tenant ev ps p
    using sending [OF that] worldInvD(4-7) [OF assms(1)] assms(2) ten by (metis subsetD)+
  show ?thesis
    by (rule worldInvI) (use reg chan del sends received in \<open>simp_all\<close>)
qed

lemma worldInv_step:
  assumes "worldInv w" "hubStep w w'"
  shows "worldInv w'"
  using assms(2)
proof cases
  case (subscribe tenant resource allowed cf cv res h heap)
  have "registryInv h heap" using Subscribe_keeps_registry worldInvD(1) [OF assms(1)] subscribe(2) by blast
  moreover have "\<exists>new. heap = hwSubs w @ new \<and> (\<forall>s \<in> set new. C s = [])"
    using subscribe(2) by (auto simp: Subscribe_def Let_def split: if_splits)
  ultimately show ?thesis using worldInv_registry [OF assms(1)] subscribe(1) by blast
next
  case (unsubscribe p h heap)
  have "registryInv h heap" using Unsubscribe_keeps_registry worldInvD(1) [OF assms(1)] unsubscribe(3) by blast
  moreover have "heap = hwSubs w @ []" using unsubscribe(3) by (auto simp: Unsubscribe_def Let_def split: if_splits)
  ultimately show ?thesis using worldInv_registry [OF assms(1), of h heap "[]"] unsubscribe(1) by simp
next
  case (publish ps tenant ev)
  then show ?thesis using assms(1) registryInvD(2-4) [OF worldInvD(1) [OF assms(1)]]
    by (auto simp: worldInv_def deliverable_def)
next
  case (send before tenant ev p ps after)
  have at: "(tenant, ev, p # ps) \<in> set (Sending w)" using send(2) by simp
  have "worldInv (w\<lparr>hwSubs := sendTo ev (hwSubs w) p, Sending := before @ (tenant, ev, ps) # after, Received := Received w\<rparr>)"
  proof (rule worldInv_channels [OF assms(1)])
    fix q e assume "q < length (sendTo ev (hwSubs w) p)" "e \<in> set (C (sendTo ev (hwSubs w) p ! q))"
    then show "deliverable (Published w) (hwSubs w ! q) e"
      using worldInvD(3) [OF assms(1), of q e] worldInvD(4) [OF assms(1) at] worldInvD(6,7) [OF assms(1) at, of p] set_offer [of e ev "hwSubs w ! p"]
      by (auto simp: nth_sendTo deliverable_def split: if_splits)
  next
    show "\<And>t e qs. (t, e, qs) \<in> set (before @ (tenant, ev, ps) # after) \<Longrightarrow> \<exists>rs. (t, e, rs) \<in> set (Sending w) \<and> set qs \<subseteq> set rs"
      using send(2) by fastforce
  qed (use worldInvD(2,8,9) [OF assms(1)] in \<open>auto simp: sendTo_same nth_sendTo length_offer\<close>)
  then show ?thesis using send(1) by simp
next
  case (receive p ev evs)
  have "worldInv (w\<lparr>hwSubs := (hwSubs w)[p := (hwSubs w ! p)\<lparr>C := evs\<rparr>], Sending := Sending w, Received := Received w @ [(p, ev)]\<rparr>)"
    using receive(2,3) worldInvD(2,8,9) [OF assms(1)] worldInvD(2,3) [OF assms(1), of p] worldInvD(3) [OF assms(1)]
    by (intro worldInv_channels [OF assms(1)]) (auto simp: nth_list_update sameSubscription_def split: if_splits)
  then show ?thesis using receive(1) by simp
qed

lemma hub_reachable_inv: "hubReachable m w \<Longrightarrow> worldInv w"
  by (induction rule: hubReachable.induct) (auto intro: worldInv_start worldInv_step)

lemma hub_limit_fixed: "hubReachable m w \<Longrightarrow> maxPerTenant (hwHub w) = (if m \<le> 0 then DefaultMaxPerTenant else m)"
proof (induction rule: hubReachable.induct)
  case (step w w')
  from step(2,3) show ?case
    by cases (auto simp: Subscribe_def Unsubscribe_def Let_def split: if_splits)
qed (simp add: hubStart_def NewHub_def)

section \<open>Properties\<close>

text \<open>C28: Whatever subscriptions, cancellations, publications and deliveries are interleaved, the counter of a tenant is the
  number of its registered subscribers and never exceeds the limit; a tenant with no subscriber has no entry left in the
  registry; and no channel holds more than its buffer.\<close>

theorem hub_registry_is_exact:
  assumes "hubReachable m w"
  shows "Count (hwHub w) t = int (card (registered (hwHub w) t)) \<and>
    Count (hwHub w) t \<le> (if m \<le> 0 then DefaultMaxPerTenant else m) \<and>
    (registered (hwHub w) t = {} \<longrightarrow> gm_get (hubSubs (hwHub w)) t = None \<and> gm_get (perTenant (hwHub w)) t = None) \<and>
    (p < length (hwSubs w) \<longrightarrow> length (C (hwSubs w ! p)) \<le> 64)"
proof (intro conjI impI)
  note inv = hub_reachable_inv [OF assms]
  note reg = worldInvD(1) [OF inv]
  show "Count (hwHub w) t = int (card (registered (hwHub w) t))" by (rule registryInvD(5) [OF reg])
  show "Count (hwHub w) t \<le> (if m \<le> 0 then DefaultMaxPerTenant else m)"
    using registryInvD(6) [OF reg, of t] hub_limit_fixed [OF assms] by simp
  show "gm_get (hubSubs (hwHub w)) t = None" "gm_get (perTenant (hwHub w)) t = None" if "registered (hwHub w) t = {}"
    using nothing_registered_nothing_kept [OF reg that] by simp_all
  show "length (C (hwSubs w ! p)) \<le> 64" if "p < length (hwSubs w)"
    using worldInvD(2) [OF inv that] by (simp add: subscriberBuffer_def)
qed

text \<open>A tenant with one subscriber, who sees two fields of his own tasks, and one event sent to it and taken.\<close>

definition demoSub :: Subscriber where
  "demoSub = \<lparr>C = [], Slow = False, subAllowed = [''id'', ''title''], CondField = ''owner'', CondValue = Some ''u1'',
     subTenant = ''acme'', subResource = ''tasks''\<rparr>"

definition demoEvent :: Event where
  "demoEvent = \<lparr>evType = ''create'', evResource = ''tasks'', evID = ''7'',
     evRecord = Some [(''id'', GStr ''7''), (''owner'', GStr ''u1''), (''secret'', GStr ''x''), (''title'', GStr ''t'')]\<rparr>"

definition demoHub :: Hub where
  "demoHub = \<lparr>hubSubs = [(''acme'', [(''tasks'', [0])])], perTenant = [(''acme'', 1)], maxPerTenant = 5\<rparr>"

definition demoWorld :: hubWorld where
  "demoWorld = \<lparr>hwHub = demoHub, hwSubs = [demoSub], Sending = [], Received = [], Published = []\<rparr>"

definition demoServed :: hubWorld where
  "demoServed = \<lparr>hwHub = demoHub, hwSubs = [demoSub], Sending = [(''acme'', demoEvent, [])], Received = [(0, demoEvent)],
     Published = [(''acme'', demoEvent)]\<rparr>"

lemma demoWorld_reachable: "hubReachable 5 demoWorld"
proof -
  have "hubStep (hubStart 5) ((hubStart 5)\<lparr>hwHub := demoHub, hwSubs := [demoSub]\<rparr>)"
    by (rule hubStep.subscribe [where tenant = "''acme''" and resource = "''tasks''" and allowed = "[''id'', ''title'']"
          and cf = "''owner''" and cv = "Some ''u1''" and res = "Inr 0"]) code_simp
  then show ?thesis using hubReachable.start hubReachable.step by (fastforce simp: demoWorld_def hubStart_def)
qed

lemma demoServed_reachable: "hubReachable 5 demoServed"
proof -
  let ?sent = "demoSub\<lparr>C := [demoEvent]\<rparr>"
  let ?w1 = "demoWorld\<lparr>Sending := [(''acme'', demoEvent, [0])], Published := [(''acme'', demoEvent)]\<rparr>"
  let ?w2 = "?w1\<lparr>hwSubs := [?sent], Sending := [(''acme'', demoEvent, [])]\<rparr>"
  have "subscribersOf demoHub ''acme'' (evResource demoEvent) = [0]" "sendTo demoEvent [demoSub] 0 = [?sent]" by code_simp+
  then have "hubStep demoWorld ?w1" "hubStep ?w1 ?w2"
    using hubStep.publish [of "[0]" demoWorld "''acme''" demoEvent] hubStep.send [of ?w1 "[]" "''acme''" demoEvent 0 "[]" "[]"]
    by (simp_all add: demoWorld_def)
  moreover have "hubStep ?w2 demoServed"
    using hubStep.receive [of 0 ?w2 demoEvent "[]"] by (simp add: demoWorld_def demoServed_def demoSub_def)
  ultimately show ?thesis using demoWorld_reachable hubReachable.step by blast
qed

theorem hub_registry_is_exact_witness:
  "hubReachable 5 demoWorld \<and> Count demoHub ''acme'' \<le> 5
   \<and> gm_get (hubSubs demoHub) ''other'' = None \<and> length (C (hwSubs demoWorld ! 0)) \<le> 64"
proof -
  have "registered demoHub ''other'' = {}"
    by (simp add: registered_def subscribersOf_def byResource_def demoHub_def)
  then show ?thesis
    using demoWorld_reachable hub_registry_is_exact [OF demoWorld_reachable, of "''acme''" 0]
      hub_registry_is_exact [OF demoWorld_reachable, of "''other''" 0]
    by (simp add: demoWorld_def)
qed

lemma shown_fields: "allowed \<noteq> [] \<Longrightarrow> (k, v) \<in> set (FilterFields rec allowed) \<Longrightarrow> k \<in> set allowed \<and> gm_get rec k = Some v"
  by (auto simp: FilterFields_def split: option.splits)

text \<open>C27: An event a stream takes from its channel, or still holds there, was published for the tenant and on the resource of
  its subscription; under a row condition the record carries the value of the condition in its column; and under a field
  allowlist the record of the payload shows listed fields only, with the values of the event.\<close>

theorem stream_stays_in_scope:
  assumes "hubReachable m w" and "(p, ev) \<in> set (Received w) \<or> p < length (hwSubs w) \<and> ev \<in> set (C (hwSubs w ! p))"
    and "s = hwSubs w ! p"
  shows "(subTenant s, ev) \<in> set (Published w) \<and> evResource ev = subResource s \<and>
    (CondField s \<noteq> [] \<longrightarrow>
       (\<exists>rec v. evRecord ev = Some rec \<and> CondValue s = Some v \<and> gm_get rec (CondField s) = Some (GStr v))) \<and>
    (subAllowed s \<noteq> [] \<longrightarrow> ssePayload s ev = GObj payload \<longrightarrow> gm_get payload ''record'' = Some (GObj shown) \<longrightarrow>
       (k, v) \<in> set shown \<longrightarrow> k \<in> set (subAllowed s) \<and> (\<exists>rec. evRecord ev = Some rec \<and> gm_get rec k = Some v))"
proof -
  have del: "deliverable (Published w) s ev"
    using assms worldInvD(3,9) [OF hub_reachable_inv [OF assms(1)]] by blast
  have scoped: "\<exists>rec v. evRecord ev = Some rec \<and> CondValue s = Some v \<and> gm_get rec (CondField s) = Some (GStr v)" if "CondField s \<noteq> []"
    using del that by (auto simp: deliverable_def eventInScope_def looseEq_def split: option.splits if_splits goany.splits)
  have fields: "k \<in> set (subAllowed s) \<and> (\<exists>rec. evRecord ev = Some rec \<and> gm_get rec k = Some v)"
    if "subAllowed s \<noteq> []" "ssePayload s ev = GObj payload" "gm_get payload ''record'' = Some (GObj shown)" "(k, v) \<in> set shown"
    using that shown_fields by (auto simp: ssePayload_def split: option.splits)
  show ?thesis using del scoped fields unfolding deliverable_def by blast
qed

theorem stream_stays_in_scope_witness:
  "hubReachable 5 demoServed \<and> (0, demoEvent) \<in> set (Received demoServed)
   \<and> (''acme'', demoEvent) \<in> set (Published demoServed)
   \<and> (\<exists>rec v. evRecord demoEvent = Some rec \<and> CondValue demoSub = Some v \<and> gm_get rec ''owner'' = Some (GStr v))
   \<and> (\<exists>payload shown. ssePayload demoSub demoEvent = GObj payload \<and> gm_get payload ''record'' = Some (GObj shown)
        \<and> (''title'', GStr ''t'') \<in> set shown \<and> ''title'' \<in> set (subAllowed demoSub))"
proof -
  have recv: "(0, demoEvent) \<in> set (Received demoServed)" and sub: "hwSubs demoServed ! 0 = demoSub"
    and con: "subTenant demoSub = ''acme''" "CondField demoSub = ''owner''" "subAllowed demoSub \<noteq> []"
    by (simp_all add: demoServed_def demoSub_def)
  note scope = stream_stays_in_scope [OF demoServed_reachable disjI1 [OF recv] sub [symmetric]]
  let ?shown = "[(''id'', GStr ''7''), (''title'', GStr ''t'')]"
  have pay: "ssePayload demoSub demoEvent = GObj [(''id'', GStr ''7''), (''record'', GObj ?shown), (''resource'', GStr ''tasks'')]"
    by code_simp
  have "''title'' \<in> set (subAllowed demoSub)"
    using scope [of "[(''id'', GStr ''7''), (''record'', GObj ?shown), (''resource'', GStr ''tasks'')]" ?shown "''title''" "GStr ''t''"]
      con(3) pay by simp
  then show ?thesis using demoServed_reachable recv scope pay con by auto
qed

text \<open>C29: A publication reaches every registered subscriber of its tenant and resource that has the event in its scope: the event
  joins its channel, or the channel was full and its stream is told to close.  Nobody else notices, and the order in which
  the receivers are served makes no difference.\<close>

theorem publish_delivers_or_closes:
  assumes "hubReachable m w" "hubPublish tenant ev (hwHub w, hwSubs w) = (h, heap)" "q < length (hwSubs w)"
  shows "h = hwHub w \<and> length heap = length (hwSubs w) \<and>
    (if q \<in> set (subscribersOf h tenant (evResource ev)) \<and> eventInScope (hwSubs w ! q) ev
     then C (heap ! q) = C (hwSubs w ! q) @ [ev] \<or> length (C (hwSubs w ! q)) = 64 \<and> C (heap ! q) = C (hwSubs w ! q) \<and> Slow (heap ! q)
     else heap ! q = hwSubs w ! q) \<and>
    (distinct ps \<longrightarrow> set ps = set (subscribersOf h tenant (evResource ev)) \<longrightarrow> foldl (sendTo ev) (hwSubs w) ps = heap)"
proof -
  note inv = hub_reachable_inv [OF assms(1)]
  let ?ps = "subscribersOf (hwHub w) tenant (evResource ev)"
  have h: "h = hwHub w" and heap: "heap = foldl (sendTo ev) (hwSubs w) ?ps" using assms(2) by (auto simp: hubPublish_def)
  have dist: "distinct ?ps" by (rule registryInvD(1) [OF worldInvD(1) [OF inv]])
  then have nth: "heap ! q = (if q \<in> set ?ps then offer ev (hwSubs w ! q) else hwSubs w ! q)"
    using assms(3) by (simp add: heap sends_nth)
  have order: "foldl (sendTo ev) (hwSubs w) ps = heap" if "distinct ps" "set ps = set ?ps"
    using sends_any_order [OF that(1) dist that(2)] unfolding heap .
  have "length heap = length (hwSubs w)" by (simp add: heap)
  moreover have "if q \<in> set ?ps \<and> eventInScope (hwSubs w ! q) ev
     then C (heap ! q) = C (hwSubs w ! q) @ [ev] \<or> length (C (hwSubs w ! q)) = 64 \<and> C (heap ! q) = C (hwSubs w ! q) \<and> Slow (heap ! q)
     else heap ! q = hwSubs w ! q"
    using worldInvD(2) [OF inv assms(3)] by (auto simp: nth offer_def subscriberBuffer_def)
  ultimately show ?thesis using order unfolding h by blast
qed

theorem publish_delivers_or_closes_witness:
  "hubReachable 5 demoWorld \<and> eventInScope demoSub demoEvent
   \<and> (\<exists>heap. hubPublish ''acme'' demoEvent (demoHub, [demoSub]) = (demoHub, heap) \<and> C (heap ! 0) = [demoEvent])"
proof -
  have pub: "hubPublish ''acme'' demoEvent (hwHub demoWorld, hwSubs demoWorld) = (demoHub, [demoSub\<lparr>C := [demoEvent]\<rparr>])"
    and len: "0 < length (hwSubs demoWorld)" and mem: "0 \<in> set (subscribersOf demoHub ''acme'' (evResource demoEvent))"
    and scope: "eventInScope (hwSubs demoWorld ! 0) demoEvent" by code_simp+
  note facts = publish_delivers_or_closes [OF demoWorld_reachable pub len]
  then show ?thesis using demoWorld_reachable pub mem scope by (simp add: demoWorld_def demoSub_def)
qed

text \<open>The comparison is between strings: a row condition on a column of another type matches no event, whatever its text.\<close>

lemma numeric_condition_matches_no_event:
  "CondField s \<noteq> [] \<Longrightarrow> evRecord ev = Some rec \<Longrightarrow> gm_get rec (CondField s) = Some (GInt n) \<Longrightarrow> offer ev s = s"
  by (simp add: offer_def eventInScope_def looseEq_def split: option.splits)

text \<open>A stream that was closed as too slow writes its error frame and nothing after it.\<close>

lemma slow_stream_ends: "sseLoop marshal s (ws @ SlowClosed # ws') = sseLoop marshal s (ws @ [SlowClosed])"
  by (induction marshal s ws rule: sseLoop.induct) (auto split: option.splits)

end
