(* ===== verification/Spec2Isabelle.thy ===== *)
theory Spec2Isabelle
  imports Rbac Render Executor Worker FileFacts WriteAtomic ResponseCache Resilience SchemaFacts IncludeFacts ReadFacts EventHub
begin

text \<open>
  Verification library of appximo, a schema-driven multi-tenant API server written in Go.  An API schema
  (JSON) declares resources, fields, relations, lifecycles and an access policy; the server keeps one
  PostgreSQL schema per tenant in line with it and serves the resources under the policy.  The library
  models the parts that decide what a user may do and what happens to a tenant's data: authentication and
  the access policy, the validation of a schema, the read statements built from a request, the write path from a
  request body to the committed statements and events, the response cache and the guards in front of it, and the migration engine from the declared schema down to
  the statements and the fan-out.

  \<^bold>\<open>How the parts interact.\<close>  A request passes the admission, rate and memory guards (\<open>pkg/resilience\<close>), may be
  answered by the response cache (\<open>pkg/cache\<close>), is authenticated (\<open>pkg/auth\<close>) and meets the policy (\<open>pkg/rbac\<close>).
  A read becomes a list, aggregate or include statement under the row condition and the field allowlist of the
  role (\<open>pkg/query\<close>), whose rows the read handlers show.  A write (\<open>pkg/codegen\<close>) is judged against the rules of its resource (\<open>pkg/schema\<close>), the row condition of
  the role and the file checks, and runs with its event in one tenant transaction (\<open>pkg/db\<close>, \<open>pkg/outbox\<close>); the
  batch does so for many writes at once.  After its commit a write is published to the open event streams of its tenant
  (\<open>pkg/events\<close>).  A changed schema becomes a desired
  database schema (\<open>pkg/migration/desired.go\<close>), is compared with the introspected one
  (\<open>pkg/schemadiff/diff.go\<close>), and the plan passes a gate (\<open>pkg/migration/runner.go\<close>): renames are resolved
  against the live database, consumer-owned objects are set aside, drops wait for approval, foreign keys
  and exclusions are taken out to be applied on their own.  What remains is ordered (\<open>order.go\<close>), rendered
  and executed (\<open>render.go\<close>).  A fan-out (\<open>orchestrator.go\<close>) does this for many tenants, the worker
  (\<open>worker.go\<close>) for queued jobs.

  \<^bold>\<open>Theories and sources.\<close>
  \<^item> \<open>Appx_Prelude\<close>: Go maps as association lists, sorted keys, strings and numbers, shared lemmas.
  \<^item> \<open>Rbac\<close>: \<open>pkg/rbac\<close>.  The policy with its two forms of a role, the parse cache, \<open>Evaluate\<close>, the middleware.
    The evaluator refines an abstract grant relation; the middleware forwards exactly what it grants.
  \<^item> \<open>PgTypes\<close>: the canonical column types of \<open>model.go\<close> and \<open>parsetype.go\<close>, printing and parsing.
  \<^item> \<open>SchemaModel\<close>, \<open>SchemaDiff\<close>, with \<open>DiffFacts\<close> and \<open>DiffPlan\<close>: \<open>model.go\<close>, \<open>diff.go\<close>, \<open>approval.go\<close>.  \<open>Diff\<close> as a
    function of two well-formed schemas: when it fails, what it drops, when it is empty, its phases.
  \<^item> \<open>Graphs\<close>, \<open>GraphsCorrect\<close>, \<open>PlanOrder\<close>: \<open>order.go\<close>.  Tarjan's components and Kahn's order, and the order of
    a plan built on them.
  \<^item> \<open>Render\<close>, \<open>Executor\<close>: \<open>render.go\<close>.  SQL text, concerns, batches, retries with 64-bit back-off.
  \<^item> \<open>ApiSchema\<close>, \<open>Values\<close>: \<open>pkg/schema\<close> (\<open>types.go\<close>, \<open>auto.go\<close>, \<open>governed.go\<close>, \<open>ranges.go\<close>, values of \<open>rules.go\<close>).
  \<^item> \<open>ValidateField\<close>, \<open>ValidateResource\<close>, \<open>ValidateRbac\<close>, \<open>ValidateWorkflows\<close>, \<open>ValidateAliases\<close>, \<open>ValidateSchema\<close>: the
    schema validator (\<open>validator.go\<close>, \<open>ranges.go\<close>, \<open>workflows_validate.go\<close>, \<open>aliases.go\<close>, \<open>graphqlnames.go\<close>,
    \<open>subroutes.go\<close>).  \<open>ValidateFacts\<close> and \<open>SchemaFacts\<close> show what an accepted schema guarantees to the evaluator,
    the SQL builders, the write path and the migration; the passes over spoken words share the locale
    \<open>alias_pass\<close>.
  \<^item> \<open>WriteRules\<close>: the rule compiler and validator of \<open>rules.go\<close>, \<open>jsonvalue.go\<close>, the type check and the prepare
    steps of \<open>create_types.go\<close> and \<open>write_core.go\<close>.
  \<^item> \<open>DbErrors\<close>: the predicates on PostgreSQL errors (\<open>pkg/db/tenant.go\<close>) and the classifier of write errors
    (\<open>pkg/handlers/errors.go\<close>, \<open>rangeconflict.go\<close>).
  \<^item> \<open>WriteSql\<close>: tenant transactions, the outbox and the SQL of insert, update and delete.
  \<^item> \<open>FileAccess\<close>, \<open>FileFacts\<close>: \<open>filepolicy.go\<close> and \<open>filereach.go\<close>.  The reach check is proved once, in the locale
    \<open>existence_query\<close>, interpreted for the pool and for an open transaction.
  \<^item> \<open>WritePath\<close>, \<open>WriteBatch\<close>: the handlers of \<open>builder.go\<close> with \<open>rbac_write.go\<close>, and \<open>transaction.go\<close> with
    \<open>askwrite.go\<close>.
  \<^item> \<open>WriteFacts\<close>: the WHERE clauses as syntax trees whose print is the text the code assembles and whose meaning
    is evaluated on rows; the life of a row as an inductive relation over creates and updates.  Ownership,
    lifecycles, agreement of batch and single write, what an accepted create satisfies.
  \<^item> \<open>WriteAtomic\<close>: what a transaction commits; \<open>inTx\<close> composes the steps inside one.
  \<^item> \<open>Auth\<close>: \<open>pkg/auth\<close>.  Token verification is a parameter; the claims cache is a state the requests share.
  \<^item> \<open>ResponseCache\<close>: \<open>pkg/cache\<close>.  Runs, stores and invalidations interleave as a step relation.
  \<^item> \<open>Resilience\<close>: \<open>pkg/resilience\<close>.  The admission counter as a step relation over concurrent requests.
  \<^item> \<open>QueryValues\<close>, \<open>QueryBuild\<close>, \<open>QueryAggregate\<close>, \<open>QueryInclude\<close>: \<open>pkg/query\<close>.  Parameters are parsed into a query or one
    error per raise of the code, and printed with their bound arguments; the include compiler is a mutual
    recursion over the tree of relation names, terminating by its size.
  \<^item> \<open>QueryFacts\<close>, \<open>IncludeFacts\<close>: what a read may name, its bounds and its row scope, and that the parameters a
    statement refers to, read off its text by \<open>dollars\<close>, are its bound arguments in order.  Facts about includes go
    through one induction rule over successful compilations, \<open>include_induct\<close>.
  \<^item> \<open>ReadPath\<close>, \<open>ReadFacts\<close>: the list, aggregate and get handlers of \<open>builder.go\<close> with the reads of \<open>pkg/db/tenant.go\<close>
    that qualify a table with the schema of the tenant.  A reply shows rows of the statement built for its caller.
  \<^item> \<open>EventHub\<close>: \<open>pkg/events/hub.go\<close> and the stream handler.  Subscriptions, publications, the single sends and the
    receipts interleave as a step relation; the registry and every channel keep one invariant.
  \<^item> \<open>Desired\<close>: \<open>desired.go\<close> and \<open>addRanges\<close> of \<open>pkg/migration/ranges.go\<close>.
  \<^item> \<open>MigrationGate\<close>, \<open>GateFacts\<close>, \<open>SplitFacts\<close>: the pure half of \<open>runner.go\<close>, \<open>external.go\<close>, \<open>ranges.go\<close>.  The
    accounting of the two splits is one locale, \<open>replacement_split\<close>, interpreted for foreign keys and for
    exclusions.
  \<^item> \<open>Migration\<close>, \<open>MigrationFacts\<close>: \<open>applyMigration\<close> and \<open>preview.go\<close> over a database.
  \<^item> \<open>Fanout\<close>, \<open>MigrationTotal\<close>, \<open>FanoutFacts\<close>: \<open>orchestrator.go\<close>.  A run ends, leaves other tenants alone,
    and answers for every tenant.
  \<^item> \<open>Worker\<close>: \<open>process\<close> of \<open>worker.go\<close>; \<open>jobStep\<close> is the step relation of a job.

  \<^bold>\<open>State and effects.\<close>  PostgreSQL, the control plane, Redis and the clock are records of functions on a
  world \<open>'w\<close> that each call threads through (\<open>Pool\<close>, \<open>Backend\<close>, \<open>Control\<close>, \<open>Stream\<close>); a function of the
  model takes the record the Go function takes as a connection.  What a theorem needs of them is a named
  hypothesis with an instance in memory: \<open>txLaws\<close> and \<open>envLaws\<close> (what a tenant transaction commits, and that
  hooks and caches commit nothing), \<open>selects\<close> and \<open>uploads\<close> (what an existence query and the file store answer),
  \<open>keyLaw\<close> and \<open>expiryLaw\<close> (cache keys are distinct, a token valid until its expiry stays valid until then), \<open>transactional\<close> (a transaction commits what was executed in it),
  \<open>quietReads\<close>, \<open>recordLaws\<close>, \<open>streamLaws\<close> (which calls touch which part of the world), \<open>catalogueOk\<close> (the
  introspected schema is well formed).  Errors are values of a sum or an option; an outcome None of
  \<open>Apply\<close> and of what calls it is the renderer's panic on a table whose column order names a missing
  column, and \<open>MigrationTotal\<close> shows that it cannot happen on the plan of a diff.

  \<^bold>\<open>Loops and bounds.\<close>  Every function is total.  Retry loops recurse on the retries left, which the
  configuration bounds, so no fuel is chosen; Tarjan's and Kahn's loops have measures on the unvisited
  nodes.  Machine integers are kept at 64 bits where they can wrap: the back-off of the executor and of
  the worker, the advisory-lock key, token lifetimes, the epochs of the cache and the floor of the memory
  guard.  Row counts and indexes are integers.

  \<^bold>\<open>Go maps.\<close>  A map is an association list; where Go iterates over a map in no particular order the model
  uses the order of the list, and where it sorts the keys so does the model.

  \<^bold>\<open>Not modelled.\<close>  Logging, tracing and metrics with the Prometheus collectors.  The catalogue queries of
  \<open>introspect.go\<close> and the SQL of the control plane, which are parameters.  The re-reading of the colliding row
  after a range conflict (\<open>DescribeRangeConflict\<close>), which only changes the text of an error.  Signing and
  verification of tokens, the JavaScript and WebAssembly hooks, the circuit breaker itself (gobreaker) and the
  token buckets (\<open>x/time/rate\<close>), which are third-party.  The headers, entity tags and timings of the read handlers and
  the range-conflict route, which checks a time range before a write.  The outbox relay and the consumers, which
  pass messages to Redis, SMTP and HTTP.  The warnings and reports on a schema, which reject
  The HTTP wiring, the commands, GraphQL, natural-language questions, object storage, workflows and the user interfaces are glue
  over third-party code or I/O.
\<close>

end
